(* ===== verification/Prelude.thy ===== *)
theory Prelude
  imports Main
begin

text \<open>
  Shared vocabulary of the development: the exceptions of the Python code as values, the
  error monad over them, the SQL-shaped list tables the stores are built on, and the two
  interfaces (an invariant kept by a step function; a claim that guards a write) that the
  component theories interpret on their own operations.
\<close>

named_theorems err_simps \<open>simplification of the error monad\<close>
named_theorems tbl_simps \<open>simplification of table operations\<close>

subsection \<open>Exceptions and results\<close>

text \<open>
  The structured reason an exception may carry (\<open>.reason\<close>, a dict with \<open>origin\<close>, \<open>code\<close>,
  \<open>summary\<close>, \<open>evidence\<close>), built in core/reason.py.
\<close>

record reason =
  rs_origin :: string
  rs_code :: string
  rs_summary :: string
  rs_evidence :: string

text \<open>
  A raised Python exception: the name of its class, \<open>str(exc)\<close> and its \<open>reason\<close> attribute when
  it has one.
\<close>

datatype exn = Exn (exn_type: string) (exn_msg: string) (exn_reason: "reason option")

type_synonym 'a res = "exn + 'a"

definition value_error :: "string \<Rightarrow> exn" where
  "value_error m = Exn ''ValueError'' m None"

text \<open>
  The classes the code catches as \<open>ValueError\<close>: the class itself and its subclasses among the
  exceptions this program raises.
\<close>

definition is_value_error :: "exn \<Rightarrow> bool" where
  "is_value_error e \<longleftrightarrow>
     exn_type e \<in> {''ValueError'', ''Refusal'', ''ValidationError'', ''ProtocolFault'', ''JSONDecodeError'',
                   ''UnicodeDecodeError''}"

lemma value_error_sel [simp]:
  "exn_type (value_error m) = ''ValueError''" "exn_msg (value_error m) = m"
  "exn_reason (value_error m) = None" "is_value_error (value_error m)"
  by (simp_all add: value_error_def is_value_error_def)

lemma value_error_inject [simp]: "value_error a = value_error b \<longleftrightarrow> a = b"
  by (simp add: value_error_def)

definition bindE :: "'e + 'a \<Rightarrow> ('a \<Rightarrow> 'e + 'b) \<Rightarrow> 'e + 'b" where
  "bindE m f = (case m of Inl e \<Rightarrow> Inl e | Inr x \<Rightarrow> f x)"

lemma bindE_simps [simp]: "bindE (Inl e) f = Inl e" "bindE (Inr x) f = f x"
  by (simp_all add: bindE_def)

lemma bindE_Inr [err_simps]: "bindE m f = Inr y \<longleftrightarrow> (\<exists>x. m = Inr x \<and> f x = Inr y)"
  by (cases m) simp_all

lemma bindE_Inl [err_simps]: "bindE m f = Inl e \<longleftrightarrow> m = Inl e \<or> (\<exists>x. m = Inr x \<and> f x = Inl e)"
  by (cases m) auto

definition of_option :: "'e \<Rightarrow> 'a option \<Rightarrow> 'e + 'a" where
  "of_option e x = (case x of None \<Rightarrow> Inl e | Some y \<Rightarrow> Inr y)"

lemma of_option_simps [simp]: "of_option e None = Inl e" "of_option e (Some y) = Inr y"
  by (simp_all add: of_option_def)

lemma of_option_Inr [err_simps]: "of_option e x = Inr y \<longleftrightarrow> x = Some y"
  by (cases x) simp_all

lemma of_option_Inl [err_simps]: "of_option e x = Inl e' \<longleftrightarrow> x = None \<and> e' = e"
  by (cases x) auto

text \<open>Python's \<open>a or b\<close> on strings: the empty string is false.\<close>

definition str_or :: "string \<Rightarrow> string \<Rightarrow> string" where
  "str_or a b = (if a = [] then b else a)"

text \<open>\<open>x or ''\<close> for an optional string.\<close>

definition opt_str :: "string option \<Rightarrow> string" where
  "opt_str x = (case x of None \<Rightarrow> [] | Some s \<Rightarrow> s)"

lemma opt_str_simps [simp]: "opt_str None = []" "opt_str (Some s) = s"
  by (simp_all add: opt_str_def)

text \<open>Truth of an optional string: neither \<open>None\<close> nor empty.\<close>

definition truthy :: "string option \<Rightarrow> bool" where
  "truthy x \<longleftrightarrow> opt_str x \<noteq> []"

lemma truthy_simps [simp]: "\<not> truthy None" "truthy (Some s) \<longleftrightarrow> s \<noteq> []"
  by (simp_all add: truthy_def)

definition starts_with :: "string \<Rightarrow> string \<Rightarrow> bool" where
  "starts_with start s \<longleftrightarrow> take (length start) s = start"

subsection \<open>Tables\<close>

text \<open>
  A table is the list of its rows in rowid order. \<open>tupdate\<close> is \<open>UPDATE ... WHERE\<close>,
  \<open>insert_ignore\<close> is \<open>INSERT OR IGNORE\<close> on a primary key, \<open>upsert\<close> is
  \<open>INSERT ... ON CONFLICT DO UPDATE\<close>, whose \<open>WHERE\<close> clause is part of \<open>merge\<close>.
\<close>

definition tupdate :: "('r \<Rightarrow> bool) \<Rightarrow> ('r \<Rightarrow> 'r) \<Rightarrow> 'r list \<Rightarrow> 'r list" where
  "tupdate P f rows = map (\<lambda>r. if P r then f r else r) rows"

definition has_key :: "('r \<Rightarrow> 'k) \<Rightarrow> 'k \<Rightarrow> 'r list \<Rightarrow> bool" where
  "has_key key k rows \<longleftrightarrow> k \<in> set (map key rows)"

definition insert_ignore :: "('r \<Rightarrow> 'k) \<Rightarrow> 'r \<Rightarrow> 'r list \<Rightarrow> 'r list" where
  "insert_ignore key r rows = (if has_key key (key r) rows then rows else rows @ [r])"

definition upsert :: "('r \<Rightarrow> 'k) \<Rightarrow> ('r \<Rightarrow> 'r \<Rightarrow> 'r) \<Rightarrow> 'r \<Rightarrow> 'r list \<Rightarrow> 'r list" where
  "upsert key merge r rows =
     (if has_key key (key r) rows
      then tupdate (\<lambda>old. key old = key r) (\<lambda>old. merge old r) rows
      else rows @ [r])"

definition unique_key :: "('r \<Rightarrow> 'k) \<Rightarrow> 'r list \<Rightarrow> bool" where
  "unique_key key rows \<longleftrightarrow> distinct (map key rows)"

lemma unique_key_Nil [simp]: "unique_key key []"
  by (simp add: unique_key_def)

lemma tupdate_simps [simp]:
  "tupdate P f [] = []" "tupdate P f (r # rs) = (if P r then f r else r) # tupdate P f rs"
  by (simp_all add: tupdate_def)

lemma tupdate_append [simp]: "tupdate P f (xs @ ys) = tupdate P f xs @ tupdate P f ys"
  by (simp add: tupdate_def)

lemma length_tupdate [simp]: "length (tupdate P f rows) = length rows"
  by (simp add: tupdate_def)

lemma tupdate_map_key [tbl_simps]:
  "(\<And>r. P r \<Longrightarrow> key (f r) = key r) \<Longrightarrow> map key (tupdate P f rows) = map key rows"
  by (auto simp: tupdate_def)

lemma set_tupdate: "set (tupdate P f rows) = (\<lambda>r. if P r then f r else r) ` set rows"
  by (simp add: tupdate_def)

lemma unique_tupdate:
  "(\<And>r. P r \<Longrightarrow> key (f r) = key r) \<Longrightarrow> unique_key key (tupdate P f rows) = unique_key key rows"
  by (simp add: unique_key_def tupdate_map_key)

lemma has_key_tupdate:
  "(\<And>r. P r \<Longrightarrow> key (f r) = key r) \<Longrightarrow> has_key key k (tupdate P f rows) = has_key key k rows"
  by (simp add: has_key_def tupdate_map_key)

lemma has_key_append [simp]: "has_key key k (xs @ ys) \<longleftrightarrow> has_key key k xs \<or> has_key key k ys"
  by (simp add: has_key_def)

lemma has_key_Cons [simp]: "has_key key k (x # xs) \<longleftrightarrow> k = key x \<or> has_key key k xs"
  by (simp add: has_key_def)

lemma has_key_Nil [simp]: "\<not> has_key key k []"
  by (simp add: has_key_def)

lemma has_key_iff: "has_key key k rows \<longleftrightarrow> (\<exists>r \<in> set rows. key r = k)"
  by (auto simp: has_key_def)

lemma unique_snoc:
  "unique_key key (rows @ [r]) \<longleftrightarrow> unique_key key rows \<and> \<not> has_key key (key r) rows"
  by (auto simp: unique_key_def has_key_def)

lemma unique_insert_ignore [simp]:
  "unique_key key (insert_ignore key r rows) = unique_key key rows"
  by (simp add: insert_ignore_def unique_snoc)

lemma has_key_insert_ignore [simp]:
  "has_key key k (insert_ignore key r rows) \<longleftrightarrow> k = key r \<or> has_key key k rows"
  by (auto simp: insert_ignore_def)

lemma insert_ignore_subset: "set rows \<subseteq> set (insert_ignore key r rows)"
  by (auto simp: insert_ignore_def)

lemma unique_upsert:
  assumes "\<And>old. key old = key r \<Longrightarrow> key (merge old r) = key r"
  shows "unique_key key (upsert key merge r rows) = unique_key key rows"
proof (cases "has_key key (key r) rows")
  case True
  have "unique_key key (tupdate (\<lambda>old. key old = key r) (\<lambda>old. merge old r) rows) = unique_key key rows"
    by (rule unique_tupdate) (simp add: assms)
  with True show ?thesis by (simp add: upsert_def)
next
  case False
  then show ?thesis by (simp add: upsert_def unique_snoc)
qed

lemma has_key_upsert:
  assumes "\<And>old. key old = key r \<Longrightarrow> key (merge old r) = key r"
  shows "has_key key k (upsert key merge r rows) \<longleftrightarrow> k = key r \<or> has_key key k rows"
proof (cases "has_key key (key r) rows")
  case True
  have "has_key key k (tupdate (\<lambda>old. key old = key r) (\<lambda>old. merge old r) rows) = has_key key k rows"
    by (rule has_key_tupdate) (simp add: assms)
  with True show ?thesis by (auto simp: upsert_def)
next
  case False
  then show ?thesis by (auto simp: upsert_def)
qed

text \<open>With a unique key there is at most one row under it, so a lookup returns that row.\<close>

lemma unique_key_eq:
  "unique_key key rows \<Longrightarrow> r \<in> set rows \<Longrightarrow> r' \<in> set rows \<Longrightarrow> key r = key r' \<Longrightarrow> r = r'"
  by (auto simp: unique_key_def distinct_map inj_on_def)

lemma unique_filter: "unique_key key rows \<Longrightarrow> unique_key key (filter P rows)"
  by (simp add: unique_key_def distinct_map inj_on_def)

lemma find_Some_mem: "find P rows = Some r \<Longrightarrow> r \<in> set rows \<and> P r"
  by (auto simp: find_Some_iff)

lemma find_unique:
  assumes "unique_key key rows" "r \<in> set rows"
  shows "find (\<lambda>x. key x = key r) rows = Some r"
proof -
  have "find (\<lambda>x. key x = key r) rows \<noteq> None"
    using assms(2) by (auto simp: find_None_iff)
  then obtain r' where r': "find (\<lambda>x. key x = key r) rows = Some r'" by blast
  then have "r' \<in> set rows" "key r' = key r" by (auto dest: find_Some_mem)
  with assms have "r' = r" by (auto intro: unique_key_eq)
  with r' show ?thesis by simp
qed

lemma find_None_has_key: "find (\<lambda>x. key x = k) rows = None \<longleftrightarrow> \<not> has_key key k rows"
  by (auto simp: find_None_iff has_key_def)

lemma find_tupdate:
  assumes "\<And>r. P r \<Longrightarrow> key (f r) = key r"
  shows "find (\<lambda>x. key x = k) (tupdate P f rows)
         = map_option (\<lambda>r. if P r then f r else r) (find (\<lambda>x. key x = k) rows)"
  using assms by (induction rows) auto

lemma map_of_forget: "map_of (filter (\<lambda>e. fst e \<noteq> k) xs) k' = (if k' = k then None else map_of xs k')"
  by (induction xs) auto

lemma find_append: "find P (xs @ ys) = (case find P xs of None \<Rightarrow> find P ys | Some x \<Rightarrow> Some x)"
  by (induction xs) auto

lemma find_upsert_key:
  assumes "\<And>old. key old = key r \<Longrightarrow> key (merge old r) = key r"
  shows "find (\<lambda>x. key x = k) (upsert key merge r rows) =
    (if k = key r then Some (case find (\<lambda>x. key x = k) rows of Some old \<Rightarrow> merge old r | None \<Rightarrow> r)
     else find (\<lambda>x. key x = k) rows)"
proof (cases "has_key key (key r) rows")
  case True
  then have "find (\<lambda>x. key x = key r) rows \<noteq> None" by (auto simp: has_key_iff find_None_iff)
  then obtain old where old: "find (\<lambda>x. key x = key r) rows = Some old" "key old = key r"
    by (auto simp: find_Some_iff)
  have other: "(if key x = key r then merge x r else x) = x" if "find (\<lambda>x. key x = k) rows = Some x" "k \<noteq> key r" for x
    using that by (auto simp: find_Some_iff)
  have "find (\<lambda>x. key x = k) (tupdate (\<lambda>old. key old = key r) (\<lambda>old. merge old r) rows) =
      map_option (\<lambda>x. if key x = key r then merge x r else x) (find (\<lambda>x. key x = k) rows)"
    by (rule find_tupdate) (simp add: assms)
  with True old other show ?thesis
    by (cases "find (\<lambda>x. key x = k) rows") (auto simp: upsert_def)
next
  case False
  then have "find (\<lambda>x. key x = key r) rows = None" by (auto simp: has_key_iff find_None_iff)
  with False show ?thesis by (auto simp: upsert_def find_append split: option.split)
qed

subsection \<open>Interface: a step function that keeps an invariant\<close>

locale kept_invariant =
  fixes step :: "'a \<Rightarrow> 's \<Rightarrow> 's" and inv :: "'s \<Rightarrow> bool"
  assumes step_inv: "inv s \<Longrightarrow> inv (step a s)"
begin

lemma run_inv: "inv s \<Longrightarrow> inv (fold step as s)"
  by (induction as arbitrary: s) (auto intro: step_inv)

end

subsection \<open>Interface: a durable claim that guards a write\<close>

text \<open>
  \<open>run_emits\<close> runs a list of operations from a state and collects the keys of the external
  writes they make. The law of the provider: an operation writes under a key only if the key
  was not claimed before and is claimed after, at most once per operation, and claims are
  never given back.
\<close>

fun run_emits :: "('a \<Rightarrow> 's \<Rightarrow> 's \<times> 'k list) \<Rightarrow> 'a list \<Rightarrow> 's \<Rightarrow> 's \<times> 'k list" where
  "run_emits step [] s = (s, [])"
| "run_emits step (a # as) s =
     (let (s1, ks) = step a s; (s2, ks') = run_emits step as s1 in (s2, ks @ ks'))"

lemma run_emits_fold: "fst (run_emits step ops s) = fold (\<lambda>a s. fst (step a s)) ops s"
  by (induction ops arbitrary: s) (simp_all add: Let_def split_beta)

locale claimed_writes =
  fixes step :: "'a \<Rightarrow> 's \<Rightarrow> 's \<times> 'k list"
    and claimed :: "'s \<Rightarrow> 'k \<Rightarrow> bool"
  assumes write_needs_fresh: "k \<in> set (snd (step a s)) \<Longrightarrow> \<not> claimed s k"
    and write_claims: "k \<in> set (snd (step a s)) \<Longrightarrow> claimed (fst (step a s)) k"
    and writes_distinct: "distinct (snd (step a s))"
    and claim_stays: "claimed s k \<Longrightarrow> claimed (fst (step a s)) k"
begin

lemma run_claim_stays: "claimed s k \<Longrightarrow> claimed (fst (run_emits step as s)) k"
  by (induction as arbitrary: s) (auto simp: Let_def split_beta dest: claim_stays)

lemma run_fresh: "k \<in> set (snd (run_emits step as s)) \<Longrightarrow> \<not> claimed s k"
proof (induction as arbitrary: s)
  case Nil
  then show ?case by simp
next
  case (Cons a as)
  then show ?case
    by (auto simp: Let_def split_beta dest: write_needs_fresh claim_stays)
qed

theorem run_at_most_once: "distinct (snd (run_emits step as s))"
proof (induction as arbitrary: s)
  case Nil
  show ?case by simp
next
  case (Cons a as)
  have "set (snd (step a s)) \<inter> set (snd (run_emits step as (fst (step a s)))) = {}"
    using write_claims run_fresh by blast
  then show ?case using Cons writes_distinct by (simp add: Let_def split_beta)
qed

end

text \<open>
  \<open>once claimed s s' ks\<close>: from \<open>s\<close> to \<open>s'\<close> the writes \<open>ks\<close> were sent, each under a claim of its own
  that was not held before and is held after. It composes; the interpretations go through it.
\<close>

definition once :: "('s \<Rightarrow> 'k \<Rightarrow> bool) \<Rightarrow> 's \<Rightarrow> 's \<Rightarrow> 'k list \<Rightarrow> bool" where
  "once claimed s s' ks \<longleftrightarrow>
     (\<forall>k. claimed s k \<longrightarrow> claimed s' k) \<and> (\<forall>k \<in> set ks. \<not> claimed s k \<and> claimed s' k) \<and> distinct ks"

lemma once_trans: "once c s1 s2 ks \<Longrightarrow> once c s2 s3 ks' \<Longrightarrow> once c s1 s3 (ks @ ks')"
  unfolding once_def by auto

lemma once_refl [simp]: "once c s s []"
  by (simp add: once_def)

lemma once_same: "(\<And>k. c s' k = c s k) \<Longrightarrow> once c s s' []"
  by (simp add: once_def)

lemma once_exact:
  "(\<And>k. (c s' k \<longleftrightarrow> c s k \<or> k \<in> set ks) \<and> (k \<in> set ks \<longrightarrow> \<not> c s k) \<and> distinct ks) \<Longrightarrow> once c s s' ks"
  unfolding once_def by blast

lemma claimed_writes_once:
  assumes "\<And>a s. once claimed s (fst (step a s)) (snd (step a s))"
  shows "claimed_writes step claimed"
  using assms unfolding once_def by unfold_locales blast+

text \<open>A step that may raise, with its state and its writes: sequencing and handling.\<close>

definition then_do ::
  "'r res \<times> 's \<times> 'k list \<Rightarrow> ('r \<Rightarrow> 's \<Rightarrow> 'q res \<times> 's \<times> 'k list) \<Rightarrow> 'q res \<times> 's \<times> 'k list" where
  "then_do m f =
     (case m of
        (Inl e, s, ks) \<Rightarrow> (Inl e, s, ks)
      | (Inr x, s, ks) \<Rightarrow> (case f x s of (r, s', ks') \<Rightarrow> (r, s', ks @ ks')))"

definition handled :: "(exn \<Rightarrow> 'r option) \<Rightarrow> 'r res \<times> 's \<times> 'k list \<Rightarrow> 'r res \<times> 's \<times> 'k list" where
  "handled h m =
     (case m of
        (Inl e, s, ks) \<Rightarrow> ((case h e of Some x \<Rightarrow> Inr x | None \<Rightarrow> Inl e), s, ks)
      | (Inr x, s, ks) \<Rightarrow> (Inr x, s, ks))"

definition lawful :: "('s \<Rightarrow> 'k \<Rightarrow> bool) \<Rightarrow> 's \<Rightarrow> 'r \<times> 's \<times> 'k list \<Rightarrow> bool" where
  "lawful c s m \<longleftrightarrow> once c s (fst (snd m)) (snd (snd m))"

lemma lawful_refl [simp]: "lawful c s (r, s, [])"
  by (simp add: lawful_def)

lemma lawful_same: "(\<And>k. c s' k = c s k) \<Longrightarrow> lawful c s (r, s', [])"
  by (simp add: lawful_def once_def)

lemma lawful_then:
  assumes "lawful c s m" "\<And>x s'. fst m = Inr x \<Longrightarrow> fst (snd m) = s' \<Longrightarrow> lawful c s' (f x s')"
  shows "lawful c s (then_do m f)"
proof -
  obtain r s1 ks where m: "m = (r, s1, ks)" by (metis prod.exhaust)
  show ?thesis
  proof (cases r)
    case (Inl e)
    with assms(1) m show ?thesis by (simp add: then_do_def lawful_def)
  next
    case (Inr x)
    obtain q s2 ks2 where f: "f x s1 = (q, s2, ks2)" by (metis prod.exhaust)
    have "once c s s1 ks" "once c s1 s2 ks2" using assms(1) assms(2)[of x s1] m Inr f by (simp_all add: lawful_def)
    then have "once c s s2 (ks @ ks2)" by (rule once_trans)
    with m Inr f show ?thesis by (simp add: then_do_def lawful_def)
  qed
qed

lemma lawful_handled [simp]: "lawful c s (handled h m) = lawful c s m"
  by (cases m; cases "fst m") (auto simp: lawful_def handled_def)

lemma lawful_if: "(b \<Longrightarrow> lawful c s x) \<Longrightarrow> (\<not> b \<Longrightarrow> lawful c s y) \<Longrightarrow> lawful c s (if b then x else y)"
  by simp

lemma lawful_from: "(\<And>k. c s0 k = c s k) \<Longrightarrow> lawful c s0 m \<Longrightarrow> lawful c s m"
  by (simp add: lawful_def once_def)

end
