(* ===== verification/PyDecimal.thy ===== *)
theory PyDecimal
  imports Prelude Complex_Main
begin

text \<open>
  The finite values of Python's \<open>decimal.Decimal\<close> under the default context (28 significant
  digits, ROUND_HALF_EVEN): a coefficient and an exponent. The exponent is part of the value
  (\<open>1.0\<close> and \<open>1.00\<close> are equal but quantize differently), so it is kept. Comparisons are exact;
  \<open>+\<close>, \<open>-\<close>, \<open>*\<close>, \<open>/\<close> and \<open>abs\<close> round to the context; \<open>quantize\<close> and \<open>%\<close> raise
  \<open>InvalidOperation\<close> where the library does. NaN, infinities, signed zeros and exponents beyond
  the context's Emin/Emax are outside the type: the models refuse or never produce them.
\<close>

datatype decimal = Dec (coef: int) (expo: int)

named_theorems dec_simps \<open>decimal comparisons and operations as facts about rational values\<close>

definition dval :: "decimal \<Rightarrow> rat" where
  "dval d = of_int (coef d) * 10 powi expo d"

text \<open>\<open>scaled d e\<close> is the coefficient of \<open>d\<close> written with the smaller exponent \<open>e\<close>.\<close>

definition scaled :: "decimal \<Rightarrow> int \<Rightarrow> int" where
  "scaled d e = coef d * 10 ^ nat (expo d - e)"

definition common_exp :: "decimal \<Rightarrow> decimal \<Rightarrow> int" where
  "common_exp a b = min (expo a) (expo b)"

definition dlt :: "decimal \<Rightarrow> decimal \<Rightarrow> bool" where
  "dlt a b \<longleftrightarrow> scaled a (common_exp a b) < scaled b (common_exp a b)"

definition dle :: "decimal \<Rightarrow> decimal \<Rightarrow> bool" where
  "dle a b \<longleftrightarrow> scaled a (common_exp a b) \<le> scaled b (common_exp a b)"

definition deq :: "decimal \<Rightarrow> decimal \<Rightarrow> bool" where
  "deq a b \<longleftrightarrow> scaled a (common_exp a b) = scaled b (common_exp a b)"

definition dzero :: decimal where
  "dzero = Dec 0 0"

definition dtrue :: "decimal \<Rightarrow> bool" where
  "dtrue d \<longleftrightarrow> coef d \<noteq> 0"

text \<open>\<open>max\<close> and \<open>min\<close> of the language keep the first of two equal arguments.\<close>

definition dmax :: "decimal \<Rightarrow> decimal \<Rightarrow> decimal" where
  "dmax a b = (if dlt a b then b else a)"

definition dmin :: "decimal \<Rightarrow> decimal \<Rightarrow> decimal" where
  "dmin a b = (if dlt b a then b else a)"

subsection \<open>Rounding to the context\<close>

fun ndigits :: "nat \<Rightarrow> nat" where
  "ndigits n = (if n < 10 then 1 else Suc (ndigits (n div 10)))"

declare ndigits.simps [simp del]

definition prec :: nat where "prec = 28"

text \<open>Rounding a coefficient down by a power of ten: half even, half up (away), towards zero.\<close>

definition round_half_even :: "int \<Rightarrow> nat \<Rightarrow> int" where
  "round_half_even c k =
     (let p = 10 ^ k; q = \<bar>c\<bar> div p; r = \<bar>c\<bar> mod p
      in sgn c * (if 2 * r > p \<or> (2 * r = p \<and> odd q) then q + 1 else q))"

definition round_half_up :: "int \<Rightarrow> nat \<Rightarrow> int" where
  "round_half_up c k =
     (let p = 10 ^ k; q = \<bar>c\<bar> div p; r = \<bar>c\<bar> mod p
      in sgn c * (if 2 * r \<ge> p then q + 1 else q))"

definition round_down :: "int \<Rightarrow> nat \<Rightarrow> int" where
  "round_down c k = sgn c * (\<bar>c\<bar> div 10 ^ k)"

definition fix_ctx :: "decimal \<Rightarrow> decimal" where
  "fix_ctx d =
     (let n = ndigits (nat \<bar>coef d\<bar>) in
      if n \<le> prec then d
      else let k = n - prec; c = round_half_even (coef d) k
           in if ndigits (nat \<bar>c\<bar>) \<le> prec then Dec c (expo d + int k)
              else Dec (c div 10) (expo d + int k + 1))"

definition dadd :: "decimal \<Rightarrow> decimal \<Rightarrow> decimal" where
  "dadd a b = (let e = common_exp a b in fix_ctx (Dec (scaled a e + scaled b e) e))"

definition dneg :: "decimal \<Rightarrow> decimal" where
  "dneg a = Dec (- coef a) (expo a)"

definition dsub :: "decimal \<Rightarrow> decimal \<Rightarrow> decimal" where
  "dsub a b = dadd a (dneg b)"

definition dmul :: "decimal \<Rightarrow> decimal \<Rightarrow> decimal" where
  "dmul a b = fix_ctx (Dec (coef a * coef b) (expo a + expo b))"

definition dabs :: "decimal \<Rightarrow> decimal" where
  "dabs a = fix_ctx (Dec \<bar>coef a\<bar> (expo a))"

definition decimal_error :: "string \<Rightarrow> exn" where
  "decimal_error t = Exn t ''[decimal signal]'' None"

text \<open>
  Division: \<open>prec + 1\<close> guard digits, a sticky last digit when there is a remainder, trailing
  zeros removed towards the ideal exponent when it is exact, then one rounding to the context.
\<close>

fun strip_zeros :: "nat \<Rightarrow> int \<Rightarrow> int \<Rightarrow> decimal" where
  "strip_zeros 0 c e = Dec c e"
| "strip_zeros (Suc n) c e = (if c mod 10 = 0 then strip_zeros n (c div 10) (e + 1) else Dec c e)"

definition ddiv :: "decimal \<Rightarrow> decimal \<Rightarrow> decimal res" where
  "ddiv a b =
     (if coef b = 0
      then Inl (decimal_error (if coef a = 0 then ''InvalidOperation'' else ''DivisionByZero''))
      else if coef a = 0 then Inr (Dec 0 (expo a - expo b))
      else let ca = \<bar>coef a\<bar>; cb = \<bar>coef b\<bar>;
               shift = int (ndigits (nat cb)) - int (ndigits (nat ca)) + int prec + 1;
               ideal = expo a - expo b; e = ideal - shift;
               n = ca * 10 ^ nat shift; m = cb * 10 ^ nat (- shift);
               q = n div m; r = n mod m;
               s = sgn (coef a) * sgn (coef b)
           in if r \<noteq> 0 then Inr (fix_ctx (Dec (s * (if q mod 5 = 0 then q + 1 else q)) e))
              else Inr (fix_ctx (let d = strip_zeros (nat (ideal - e)) q e in Dec (s * coef d) (expo d))))"

subsection \<open>Quantize and remainder\<close>

definition rescale :: "(int \<Rightarrow> nat \<Rightarrow> int) \<Rightarrow> decimal \<Rightarrow> int \<Rightarrow> decimal" where
  "rescale rnd d e =
     (if e \<le> expo d then Dec (scaled d e) e else Dec (rnd (coef d) (nat (e - expo d))) e)"

definition quantize :: "(int \<Rightarrow> nat \<Rightarrow> int) \<Rightarrow> decimal \<Rightarrow> decimal \<Rightarrow> decimal res" where
  "quantize rnd d q =
     (let r = rescale rnd d (expo q) in
      if ndigits (nat \<bar>coef r\<bar>) \<le> prec then Inr r else Inl (decimal_error ''InvalidOperation''))"

text \<open>\<open>a % b\<close>: the remainder takes the sign of the dividend; the integer quotient must fit.\<close>

definition drem :: "decimal \<Rightarrow> decimal \<Rightarrow> decimal res" where
  "drem a b =
     (let e = common_exp a b; x = scaled a e; y = scaled b e in
      if y = 0 \<or> \<bar>x\<bar> div \<bar>y\<bar> \<ge> 10 ^ prec then Inl (decimal_error ''InvalidOperation'')
      else Inr (fix_ctx (Dec (sgn x * (\<bar>x\<bar> mod \<bar>y\<bar>)) e)))"

text \<open>\<open>Decimal(1).scaleb(-precision)\<close>, the quantum of a price grid.\<close>

definition quantum :: "int \<Rightarrow> decimal" where
  "quantum precision = Dec 1 (- precision)"

subsection \<open>Comparisons as comparisons of values\<close>

lemma pow10_shift: "(10::rat) powi (int n + e) = 10 ^ n * 10 powi e"
  by (subst power_int_add) simp_all

lemma pow10_pos [simp]:
  "(0::rat) < 10 powi e" "(0::rat) \<le> 10 powi e" "\<not> (10::rat) powi e < 0" "\<not> (10::rat) powi e \<le> 0"
  by (simp_all add: not_less not_le order.strict_implies_order)

lemma scaled_val:
  assumes "e \<le> expo d"
  shows "of_int (scaled d e) * (10::rat) powi e = dval d"
proof -
  have "expo d = int (nat (expo d - e)) + e" using assms by simp
  then have "(10::rat) powi expo d = 10 ^ nat (expo d - e) * 10 powi e" by (metis pow10_shift)
  then show ?thesis by (simp add: scaled_def dval_def)
qed

lemma dlt_val [dec_simps]: "dlt a b \<longleftrightarrow> dval a < dval b"
proof -
  let ?e = "common_exp a b"
  have "dval a = of_int (scaled a ?e) * 10 powi ?e" "dval b = of_int (scaled b ?e) * 10 powi ?e"
    by (simp_all add: scaled_val common_exp_def)
  then show ?thesis by (simp add: dlt_def)
qed

lemma dle_val [dec_simps]: "dle a b \<longleftrightarrow> dval a \<le> dval b"
proof -
  let ?e = "common_exp a b"
  have "dval a = of_int (scaled a ?e) * 10 powi ?e" "dval b = of_int (scaled b ?e) * 10 powi ?e"
    by (simp_all add: scaled_val common_exp_def)
  then show ?thesis by (simp add: dle_def)
qed

lemma deq_val [dec_simps]: "deq a b \<longleftrightarrow> dval a = dval b"
proof -
  let ?e = "common_exp a b"
  have "dval a = of_int (scaled a ?e) * 10 powi ?e" "dval b = of_int (scaled b ?e) * 10 powi ?e"
    by (simp_all add: scaled_val common_exp_def)
  then show ?thesis by (simp add: deq_def)
qed

lemma dval_zero [simp]: "dval dzero = 0"
  by (simp add: dval_def dzero_def)

lemma dtrue_val [dec_simps]: "dtrue d \<longleftrightarrow> dval d \<noteq> 0"
  by (simp add: dtrue_def dval_def)

lemma dmax_val [dec_simps]: "dval (dmax a b) = max (dval a) (dval b)"
  by (simp add: dmax_def dlt_val max_def)

lemma dmin_val [dec_simps]: "dval (dmin a b) = min (dval a) (dval b)"
  by (simp add: dmin_def dlt_val min_def)

lemma dneg_val [dec_simps]: "dval (dneg a) = - dval a"
  by (simp add: dneg_def dval_def)

lemma dval_pos: "dval (Dec c e) > 0 \<longleftrightarrow> c > 0" "dval (Dec c e) \<ge> 0 \<longleftrightarrow> c \<ge> 0"
  by (simp_all add: dval_def zero_less_mult_iff zero_le_mult_iff)

subsection \<open>Rounding bounds\<close>

lemma rescale_expo [simp]: "expo (rescale rnd d e) = e"
  by (simp add: rescale_def)

lemma quantize_Inr [err_simps]:
  "quantize rnd d q = Inr r \<longleftrightarrow> r = rescale rnd d (expo q) \<and> ndigits (nat \<bar>coef r\<bar>) \<le> prec"
  by (auto simp: quantize_def Let_def)

text \<open>
  The two values of a rescaling written over the common power of ten: the new coefficient against
  the old one divided by a power of ten.
\<close>

lemma dval_shift:
  assumes "expo d < e"
  shows "dval d = of_int (coef d) / 10 ^ nat (e - expo d) * 10 powi e"
proof -
  have "e = int (nat (e - expo d)) + expo d" using assms by simp
  then have "(10::rat) powi e = 10 ^ nat (e - expo d) * 10 powi expo d" by (metis pow10_shift)
  then show ?thesis by (simp add: dval_def)
qed

lemma round_down_bounds:
  assumes "c \<ge> 0"
  shows "0 \<le> round_down c k" "(of_int (round_down c k) :: rat) \<le> of_int c / 10 ^ k"
        "(of_int c :: rat) / 10 ^ k < of_int (round_down c k) + 1"
proof -
  have q: "round_down c k = c div 10 ^ k"
    using assms by (cases "c = 0") (simp_all add: round_down_def)
  show "0 \<le> round_down c k" using assms by (simp add: q pos_imp_zdiv_nonneg_iff)
  have "(c div 10 ^ k) * 10 ^ k \<le> c" by (metis minus_mod_eq_div_mult[symmetric] diff_ge_0_iff_ge
        diff_diff_eq2 add_diff_cancel_left' pos_mod_sign zero_less_numeral zero_less_power minus_mod_eq_div_mult)
  then have "(of_int ((c div 10 ^ k) * 10 ^ k) :: rat) \<le> of_int c" by (simp only: of_int_le_iff)
  then show "(of_int (round_down c k) :: rat) \<le> of_int c / 10 ^ k"
    by (simp add: q pos_le_divide_eq)
  have "c < (c div 10 ^ k + 1) * 10 ^ k"
  proof -
    have "c = c div 10 ^ k * 10 ^ k + c mod 10 ^ k" by (rule div_mult_mod_eq[symmetric])
    moreover have "c mod 10 ^ k < 10 ^ k" by simp
    ultimately show ?thesis by (simp only: distrib_right mult_1)
  qed
  then have "(of_int c :: rat) < of_int ((c div 10 ^ k + 1) * 10 ^ k)" by (simp only: of_int_less_iff)
  then show "(of_int c :: rat) / 10 ^ k < of_int (round_down c k) + 1"
    by (simp add: q pos_divide_less_eq)
qed

text \<open>Quantizing a nonnegative value down loses less than one quantum and never gains.\<close>

lemma quantize_down_bounds:
  assumes "quantize round_down d q = Inr r" "0 \<le> dval d"
  shows "0 \<le> dval r" "dval r \<le> dval d" "dval d < dval r + 10 powi expo q"
proof -
  have r: "r = rescale round_down d (expo q)" using assms(1) by (simp add: err_simps)
  have c: "coef d \<ge> 0" using assms(2) dval_pos(2)[of "coef d" "expo d"] by simp
  have p: "(0::rat) < 10 powi expo q" by simp
  have "0 \<le> dval r \<and> dval r \<le> dval d \<and> dval d < dval r + 10 powi expo q"
  proof (cases "expo q \<le> expo d")
    case True
    then have "dval r = dval d" using scaled_val[OF True] by (simp add: r rescale_def dval_def)
    then show ?thesis using assms(2) p by simp
  next
    case False
    let ?k = "nat (expo q - expo d)"
    have r': "dval r = of_int (round_down (coef d) ?k) * 10 powi expo q"
      using False by (simp add: r rescale_def dval_def)
    have d': "dval d = of_int (coef d) / 10 ^ ?k * 10 powi expo q"
      using False by (intro dval_shift) simp
    note b = round_down_bounds[OF c, of ?k]
    have "of_int (round_down (coef d) ?k) * 10 powi expo q \<le> of_int (coef d) / 10 ^ ?k * (10::rat) powi expo q"
      using b(2) p by (intro mult_right_mono) simp_all
    moreover have "of_int (coef d) / 10 ^ ?k * (10::rat) powi expo q
        < (of_int (round_down (coef d) ?k) + 1) * 10 powi expo q"
      using b(3) p by (intro mult_strict_right_mono) simp_all
    ultimately show ?thesis using b(1) p by (simp add: r' d' algebra_simps)
  qed
  then show "0 \<le> dval r" "dval r \<le> dval d" "dval d < dval r + 10 powi expo q" by blast+
qed

lemma abs_half_le: "\<bar>2 * x\<bar> \<le> p \<Longrightarrow> \<bar>x\<bar> \<le> p / 2" for x p :: rat
  by (simp add: abs_mult)

lemma round_half_up_bound:
  "\<bar>of_int (round_half_up c k) - (of_int c :: rat) / 10 ^ k\<bar> \<le> 1 / 2"
proof -
  define p q r where "p = (10 ^ k :: int)" and "q = \<bar>c\<bar> div p" and "r = \<bar>c\<bar> mod p"
  define m where "m = (if 2 * r \<ge> p then q + 1 else q)"
  have pr: "0 \<le> r" "r < p" by (simp_all add: p_def r_def)
  have "\<bar>c\<bar> = q * p + r" unfolding q_def r_def by (rule div_mult_mod_eq[symmetric])
  then have "\<bar>2 * (m * p - \<bar>c\<bar>)\<bar> \<le> p"
    using pr by (simp add: m_def algebra_simps abs_le_iff)
  then have "\<bar>2 * (m * 10 ^ k - \<bar>c\<bar>)\<bar> \<le> 10 ^ k" by (simp add: p_def)
  then have "\<bar>2 * (of_int m * 10 ^ k - of_int \<bar>c\<bar>)\<bar> \<le> (10 ^ k :: rat)"
    by (metis (mono_tags, lifting) of_int_abs of_int_diff of_int_le_iff of_int_mult of_int_numeral of_int_power)
  then have "\<bar>of_int m * 10 ^ k - of_int \<bar>c\<bar>\<bar> \<le> (10 ^ k :: rat) / 2"
    using abs_half_le by blast
  then have m: "\<bar>of_int m - of_int \<bar>c\<bar> / (10 ^ k :: rat)\<bar> \<le> 1 / 2"
    by (simp add: field_simps abs_le_iff)
  have rc: "round_half_up c k = sgn c * m" by (simp add: round_half_up_def m_def p_def q_def r_def Let_def)
  consider "c = 0" | "c > 0" | "c < 0" by linarith
  then show ?thesis
  proof cases
    case 1
    then show ?thesis unfolding rc by simp
  next
    case 2
    then show ?thesis using m unfolding rc by simp
  next
    case 3
    have "\<bar>of_int (round_half_up c k) - of_int c / (10 ^ k :: rat)\<bar>
        = \<bar>- (of_int m - of_int \<bar>c\<bar> / 10 ^ k)\<bar>"
      using 3 unfolding rc by simp
    then show ?thesis using m by (simp only: abs_minus_cancel)
  qed
qed

text \<open>Quantizing half up lands on the grid, at most half a quantum away.\<close>

lemma quantize_half_up_bound:
  assumes "quantize round_half_up d q = Inr r"
  shows "expo r = expo q" "\<bar>dval r - dval d\<bar> \<le> 10 powi expo q / 2"
proof -
  have r: "r = rescale round_half_up d (expo q)" using assms by (simp add: err_simps)
  show "expo r = expo q" by (simp add: r)
  have p: "(0::rat) < 10 powi expo q" by simp
  show "\<bar>dval r - dval d\<bar> \<le> 10 powi expo q / 2"
  proof (cases "expo q \<le> expo d")
    case True
    then have "dval r = dval d" using scaled_val[OF True] by (simp add: r rescale_def dval_def)
    then show ?thesis using p by simp
  next
    case False
    let ?k = "nat (expo q - expo d)"
    have d': "dval d = of_int (coef d) / 10 ^ ?k * 10 powi expo q"
      using False by (intro dval_shift) simp
    have "dval r - dval d = (of_int (round_half_up (coef d) ?k) - of_int (coef d) / 10 ^ ?k) * 10 powi expo q"
      using False by (simp add: r rescale_def d' dval_def[of "Dec _ _"] algebra_simps)
    then have "\<bar>dval r - dval d\<bar>
        = \<bar>of_int (round_half_up (coef d) ?k) - of_int (coef d) / 10 ^ ?k\<bar> * 10 powi expo q"
      using p by (simp add: abs_mult)
    also have "\<dots> \<le> 1 / 2 * 10 powi expo q"
      using round_half_up_bound p by (intro mult_right_mono) simp_all
    finally show ?thesis by simp
  qed
qed

subsection \<open>Normal form and text\<close>

text \<open>\<open>normalize()\<close> drops the trailing zeros of the coefficient; zero becomes plain \<open>0\<close>.\<close>

definition normalize_dec :: "decimal \<Rightarrow> decimal" where
  "normalize_dec d =
     (let f = fix_ctx d in
      if coef f = 0 then Dec 0 0 else strip_zeros (ndigits (nat \<bar>coef f\<bar>)) (coef f) (expo f))"

fun digits_str :: "nat \<Rightarrow> string" where
  "digits_str n =
     (if n < 10 then [char_of (48 + n)] else digits_str (n div 10) @ [char_of (48 + n mod 10)])"

declare digits_str.simps [simp del]

definition int_str :: "int \<Rightarrow> string" where
  "int_str i = (if i < 0 then ''-'' else []) @ digits_str (nat \<bar>i\<bar>)"

definition signed_str :: "int \<Rightarrow> string" where
  "signed_str i = (if i < 0 then ''-'' else ''+'') @ digits_str (nat \<bar>i\<bar>)"

text \<open>\<open>str(d)\<close>: plain notation while the exponent is not positive and the point is near, else scientific.\<close>

definition dec_str :: "decimal \<Rightarrow> string" where
  "dec_str d =
     (let s = digits_str (nat \<bar>coef d\<bar>); n = int (length s);
          left = expo d + n;
          dot = (if expo d \<le> 0 \<and> left > -6 then left else 1);
          body = (if dot \<le> 0 then ''0.'' @ replicate (nat (- dot)) (CHR ''0'') @ s
                  else if dot \<ge> n then s @ replicate (nat (dot - n)) (CHR ''0'')
                  else take (nat dot) s @ ''.'' @ drop (nat dot) s)
      in (if coef d < 0 then ''-'' else []) @ body @
         (if left = dot then [] else ''E'' @ signed_str (left - dot)))"

lemma strip_zeros_val: "dval (strip_zeros n c e) = dval (Dec c e)"
proof (induction n c e rule: strip_zeros.induct)
  case (1 c e)
  show ?case by simp
next
  case (2 n c e)
  show ?case
  proof (cases "c mod 10 = 0")
    case True
    then have "c = 10 * (c div 10)" by presburger
    then have c: "(of_int c :: rat) = 10 * of_int (c div 10)" by (metis of_int_mult of_int_numeral)
    have "dval (Dec (c div 10) (e + 1)) = dval (Dec c e)"
      by (simp add: dval_def c power_int_add)
    with True 2 show ?thesis by simp
  next
    case False
    then show ?thesis by simp
  qed
qed

lemma ndigits_pos [simp]: "0 < ndigits n"
  by (subst ndigits.simps) simp

lemma ndigits_bound: "n < 10 ^ ndigits n"
proof (induction n rule: ndigits.induct)
  case (1 n)
  show ?case
  proof (cases "n < 10")
    case True
    then show ?thesis by (simp add: ndigits.simps[of n])
  next
    case False
    with 1 have "n div 10 < 10 ^ ndigits (n div 10)" by simp
    then have "n < 10 * 10 ^ ndigits (n div 10)" by linarith
    with False show ?thesis by (simp add: ndigits.simps[of n])
  qed
qed

lemma strip_zeros_done:
  "\<bar>c\<bar> < 10 ^ n \<Longrightarrow> c \<noteq> 0 \<Longrightarrow> coef (strip_zeros n c e) mod 10 \<noteq> 0"
proof (induction n c e rule: strip_zeros.induct)
  case (1 c e)
  then show ?case by simp
next
  case (2 n c e)
  show ?case
  proof (cases "c mod 10 = 0")
    case True
    then have "c = 10 * (c div 10)" by presburger
    with "2.prems" have "\<bar>c div 10\<bar> < 10 ^ n" "c div 10 \<noteq> 0" by auto
    with True "2.IH" show ?thesis by simp
  next
    case False
    then show ?thesis by simp
  qed
qed

text \<open>A value whose coefficient fits the context is normalized to one spelling.\<close>

lemma fix_ctx_small [simp]: "ndigits (nat \<bar>coef d\<bar>) \<le> prec \<Longrightarrow> fix_ctx d = d"
  by (simp add: fix_ctx_def Let_def)

lemma normal_unique_le:
  assumes "dval (Dec c e) = dval (Dec c' e')" "c mod 10 \<noteq> 0" "e \<le> e'"
  shows "c = c' \<and> e = e'"
proof -
  have "e' = int (nat (e' - e)) + e" using assms(3) by simp
  then have "dval (Dec c' e') = of_int (c' * 10 ^ nat (e' - e)) * 10 powi e"
    using pow10_shift[of "nat (e' - e)" e] by (simp add: dval_def)
  with assms(1) have "of_int c * (10::rat) powi e = of_int (c' * 10 ^ nat (e' - e)) * 10 powi e"
    by (simp add: dval_def)
  then have "(of_int c :: rat) = of_int (c' * 10 ^ nat (e' - e))" by simp
  then have eq: "c = c' * 10 ^ nat (e' - e)" by (simp only: of_int_eq_iff)
  have "nat (e' - e) = 0"
  proof (rule ccontr)
    assume "nat (e' - e) \<noteq> 0"
    then obtain k where "nat (e' - e) = Suc k" by (metis not0_implies_Suc)
    with eq have "c = 10 * (c' * 10 ^ k)" by simp
    with assms(2) show False by simp
  qed
  with eq assms(3) show ?thesis by simp
qed

lemma normalize_unique:
  assumes "deq a b" "ndigits (nat \<bar>coef a\<bar>) \<le> prec" "ndigits (nat \<bar>coef b\<bar>) \<le> prec"
  shows "normalize_dec a = normalize_dec b"
proof (cases "coef a = 0")
  case True
  then have "coef b = 0" using assms(1) by (simp add: deq_val dval_def)
  with True assms show ?thesis by (simp add: normalize_dec_def)
next
  case False
  then have b: "coef b \<noteq> 0" using assms(1) by (auto simp: deq_val dval_def)
  define x where "x = strip_zeros (ndigits (nat \<bar>coef a\<bar>)) (coef a) (expo a)"
  define y where "y = strip_zeros (ndigits (nat \<bar>coef b\<bar>)) (coef b) (expo b)"
  have bound: "\<bar>c\<bar> < 10 ^ ndigits (nat \<bar>c\<bar>)" for c :: int
    using ndigits_bound[of "nat \<bar>c\<bar>"] by (simp add: nat_less_iff)
  have "coef x mod 10 \<noteq> 0" "coef y mod 10 \<noteq> 0"
    unfolding x_def y_def using False b by (simp_all only: strip_zeros_done bound not_False_eq_True)
  moreover have "dval (Dec (coef x) (expo x)) = dval (Dec (coef y) (expo y))"
    using assms(1) by (simp add: x_def y_def strip_zeros_val deq_val)
  ultimately have "coef x = coef y \<and> expo x = expo y"
    using normal_unique_le[of "coef x" "expo x" "coef y" "expo y"]
      normal_unique_le[of "coef y" "expo y" "coef x" "expo x"] by (cases "expo x \<le> expo y") auto
  then have "x = y" by (simp add: decimal.expand)
  with False b assms show ?thesis by (simp add: normalize_dec_def x_def y_def)
qed

end
