(* ===== verification/CaptureEvents.thy ===== *)
theory CaptureEvents
  imports PyDecimal
begin

text \<open>
  The native capture event (capture/event.py), the explicit route that selects and converts it
  (capture/route.py) and the versioned meanings shown for it (capture/meaning.py). Instants are
  microseconds since the epoch in UTC; a JSON-encoded identity tuple is the list of its strings.
\<close>

datatype event_kind = K_REQUEST | K_ACCEPTED | K_REJECTED | K_ORDER | K_FILL | K_POSITION | K_SIGNAL | K_ACCOUNT
datatype event_action = A_CREATE | A_EDIT | A_CANCEL | A_CLOSE | A_OBSERVE
datatype event_source = S_MANUAL | S_P01 | S_R01 | S_X17 | S_UNKNOWN
datatype fill_effect = F_OPEN | F_CLOSE | F_UNKNOWN

fun kind_name :: "event_kind \<Rightarrow> string" where
  "kind_name K_REQUEST = ''REQUEST''"
| "kind_name K_ACCEPTED = ''ACCEPTED''"
| "kind_name K_REJECTED = ''REJECTED''"
| "kind_name K_ORDER = ''ORDER''"
| "kind_name K_FILL = ''FILL''"
| "kind_name K_POSITION = ''POSITION''"
| "kind_name K_SIGNAL = ''SIGNAL''"
| "kind_name K_ACCOUNT = ''ACCOUNT''"

fun action_name :: "event_action \<Rightarrow> string" where
  "action_name A_CREATE = ''CREATE''"
| "action_name A_EDIT = ''EDIT''"
| "action_name A_CANCEL = ''CANCEL''"
| "action_name A_CLOSE = ''CLOSE''"
| "action_name A_OBSERVE = ''OBSERVE''"

fun source_name :: "event_source \<Rightarrow> string" where
  "source_name S_MANUAL = ''MANUAL''"
| "source_name S_P01 = ''P01''"
| "source_name S_R01 = ''R01''"
| "source_name S_X17 = ''X17''"
| "source_name S_UNKNOWN = ''UNKNOWN''"

lemma action_name_inject [simp]: "action_name a = action_name b \<longleftrightarrow> a = b"
  by (cases a; cases b) simp_all

record capture_event =
  ev_schema :: string
  ev_id :: string
  ev_machine :: string
  ev_connection :: string
  ev_account :: string
  ev_order_id :: string
  ev_position_id :: string
  ev_execution_id :: string
  ev_request_id :: string
  ev_emitted_at :: int
  ev_kind :: event_kind
  ev_action :: event_action
  ev_source :: event_source
  ev_sending_source :: string
  ev_label :: string
  ev_status :: string
  ev_snapshot :: bool
  ev_symbol :: string
  ev_side :: string
  ev_order_type :: string
  ev_quantity :: decimal
  ev_quantity_unit :: string
  ev_fill_effect :: fill_effect
  ev_order_quantity :: "decimal option"
  ev_cumulative :: "decimal option"
  ev_remaining :: "decimal option"
  ev_position_quantity :: "decimal option"
  ev_price :: decimal
  ev_sl :: decimal
  ev_tp :: decimal
  ev_brackets_absolute :: bool

definition str_between :: "nat \<Rightarrow> nat \<Rightarrow> string \<Rightarrow> bool" where
  "str_between lo hi s \<longleftrightarrow> lo \<le> length s \<and> length s \<le> hi"

definition dec_nonneg :: "decimal \<Rightarrow> bool" where
  "dec_nonneg d \<longleftrightarrow> coef d \<ge> 0"

text \<open>The field constraints of the class; the enumerations are constraints of the types.\<close>

definition event_valid :: "capture_event \<Rightarrow> bool" where
  "event_valid e \<longleftrightarrow>
     ev_schema e \<in> {''1'', ''1.0.0'', ''1.1.0''} \<and>
     str_between 1 200 (ev_id e) \<and> str_between 1 100 (ev_machine e) \<and>
     str_between 1 200 (ev_connection e) \<and> str_between 1 200 (ev_account e) \<and>
     str_between 0 200 (ev_order_id e) \<and> str_between 0 200 (ev_position_id e) \<and>
     str_between 0 200 (ev_execution_id e) \<and> str_between 0 200 (ev_request_id e) \<and>
     str_between 0 200 (ev_sending_source e) \<and> str_between 0 200 (ev_label e) \<and>
     str_between 0 100 (ev_status e) \<and> str_between 0 100 (ev_symbol e) \<and>
     ev_side e \<in> {''BUY'', ''SELL'', ''''} \<and>
     ev_order_type e \<in> {''MARKET'', ''LIMIT'', ''STOP'', ''STOP_LIMIT'', ''UNKNOWN''} \<and>
     dec_nonneg (ev_quantity e) \<and> str_between 1 40 (ev_quantity_unit e) \<and>
     pred_option dec_nonneg (ev_order_quantity e) \<and> pred_option dec_nonneg (ev_cumulative e) \<and>
     pred_option dec_nonneg (ev_remaining e) \<and> pred_option dec_nonneg (ev_position_quantity e) \<and>
     dec_nonneg (ev_price e) \<and> dec_nonneg (ev_sl e) \<and> dec_nonneg (ev_tp e)"

definition ev_scope :: "capture_event \<Rightarrow> string list" where
  "ev_scope e = [ev_machine e, ev_connection e, ev_account e]"

text \<open>Equality of two event objects compares decimals by value, not by spelling.\<close>

definition opt_deq :: "decimal option \<Rightarrow> decimal option \<Rightarrow> bool" where
  "opt_deq a b \<longleftrightarrow> (case (a, b) of (None, None) \<Rightarrow> True | (Some x, Some y) \<Rightarrow> deq x y | _ \<Rightarrow> False)"

definition event_eq :: "capture_event \<Rightarrow> capture_event \<Rightarrow> bool" where
  "event_eq a b \<longleftrightarrow>
     deq (ev_quantity a) (ev_quantity b) \<and> deq (ev_price a) (ev_price b) \<and>
     deq (ev_sl a) (ev_sl b) \<and> deq (ev_tp a) (ev_tp b) \<and>
     opt_deq (ev_order_quantity a) (ev_order_quantity b) \<and>
     opt_deq (ev_cumulative a) (ev_cumulative b) \<and>
     opt_deq (ev_remaining a) (ev_remaining b) \<and>
     opt_deq (ev_position_quantity a) (ev_position_quantity b) \<and>
     a\<lparr>ev_quantity := dzero, ev_price := dzero, ev_sl := dzero, ev_tp := dzero,
       ev_order_quantity := None, ev_cumulative := None, ev_remaining := None,
       ev_position_quantity := None\<rparr>
     = b\<lparr>ev_quantity := dzero, ev_price := dzero, ev_sl := dzero, ev_tp := dzero,
       ev_order_quantity := None, ev_cumulative := None, ev_remaining := None,
       ev_position_quantity := None\<rparr>"

lemma opt_deq_refl [simp]: "opt_deq a a"
  by (cases a) (simp_all add: opt_deq_def deq_def)

lemma event_eq_refl [simp]: "event_eq e e"
  by (simp add: event_eq_def deq_def)

lemma event_eq_identity:
  assumes "event_eq a b"
  shows "ev_scope a = ev_scope b" "ev_id a = ev_id b" "ev_kind a = ev_kind b" "ev_action a = ev_action b"
        "ev_request_id a = ev_request_id b"
proof -
  let ?n = "\<lambda>e. e\<lparr>ev_quantity := dzero, ev_price := dzero, ev_sl := dzero, ev_tp := dzero,
       ev_order_quantity := None, ev_cumulative := None, ev_remaining := None,
       ev_position_quantity := None\<rparr>"
  have n: "?n a = ?n b" using assms by (simp add: event_eq_def)
  have "ev_machine (?n a) = ev_machine (?n b)" "ev_connection (?n a) = ev_connection (?n b)"
    "ev_account (?n a) = ev_account (?n b)" "ev_id (?n a) = ev_id (?n b)"
    "ev_kind (?n a) = ev_kind (?n b)" "ev_action (?n a) = ev_action (?n b)"
    "ev_request_id (?n a) = ev_request_id (?n b)"
    by (simp_all only: n)
  then show "ev_scope a = ev_scope b" "ev_id a = ev_id b" "ev_kind a = ev_kind b"
    "ev_action a = ev_action b" "ev_request_id a = ev_request_id b"
    by (simp_all add: ev_scope_def)
qed

subsection \<open>Routes\<close>

record symbol_route =
  sr_destination :: string
  sr_multiplier :: decimal
  sr_max_lots :: decimal
  sr_fixed_lots :: "decimal option"

record route_config =
  rc_machine :: string
  rc_connection :: string
  rc_account :: string
  rc_destination_account :: string
  rc_sources :: "event_source list"
  rc_symbols :: "(string \<times> symbol_route) list"

definition symbol_route_valid :: "symbol_route \<Rightarrow> bool" where
  "symbol_route_valid m \<longleftrightarrow>
     sr_destination m \<noteq> [] \<and> coef (sr_multiplier m) > 0 \<and> coef (sr_max_lots m) > 0 \<and>
     pred_option (\<lambda>d. coef d > 0) (sr_fixed_lots m)"

definition route_match :: "route_config \<Rightarrow> capture_event \<Rightarrow> symbol_route res" where
  "route_match r e =
     (if ev_scope e \<noteq> [rc_machine r, rc_connection r, rc_account r]
      then Inl (value_error ''Source connection/account does not match configured route'')
      else if ev_source e \<notin> set (rc_sources r)
      then Inl (value_error ''Source attribution is not enabled for this route'')
      else (case map_of (rc_symbols r) (ev_symbol e) of
              None \<Rightarrow> Inl (value_error ''No explicit symbol/quantity mapping'')
            | Some m \<Rightarrow> Inr m))"

lemma route_match_Inr [err_simps]:
  "route_match r e = Inr m \<longleftrightarrow>
     ev_scope e = [rc_machine r, rc_connection r, rc_account r] \<and> ev_source e \<in> set (rc_sources r) \<and>
     map_of (rc_symbols r) (ev_symbol e) = Some m"
  by (auto simp: route_match_def split: option.splits)

lemma route_match_error: "route_match r e = Inl x \<Longrightarrow> is_value_error x"
  by (auto simp: route_match_def split: if_splits option.splits)

subsection \<open>Meanings\<close>

record coded = cd_code :: string cd_label :: string

definition kind_titles :: "(string \<times> string) list" where
  "kind_titles =
     [(''REQUEST'', ''Request''), (''ACCEPTED'', ''Accepted request''), (''REJECTED'', ''Rejected request''),
      (''ORDER'', ''Order''), (''FILL'', ''Fill''), (''POSITION'', ''Position''), (''SIGNAL'', ''Signal''),
      (''ACCOUNT'', ''Account''), (''LEGACY'', ''Legacy event''), (''LEDGER'', ''Ledger observation'')]"

definition action_titles :: "(string \<times> string) list" where
  "action_titles =
     [(''CREATE'', ''Create''), (''EDIT'', ''Modify''), (''CANCEL'', ''Cancel''), (''CLOSE'', ''Close''),
      (''OBSERVE'', ''Observe'')]"

definition source_titles :: "(string \<times> string) list" where
  "source_titles =
     [(''R01'', ''R01 strategy''), (''X17'', ''X17 strategy''), (''P01'', ''P01 manual''),
      (''MANUAL'', ''Manual''), (''UNKNOWN'', ''Unknown source'')]"

definition result_titles :: "(string \<times> string) list" where
  "result_titles =
     [(''accepted'', ''Broker accepted''), (''captured'', ''Captured''), (''held'', ''Held''),
      (''uncertain'', ''Uncertain''), (''preview'', ''Preview only''), (''observation'', ''Observed'')]"

definition label_of :: "string \<Rightarrow> (string \<times> string) list \<Rightarrow> coded" where
  "label_of c catalog =
     (case map_of catalog c of Some t \<Rightarrow> \<lparr>cd_code = c, cd_label = t\<rparr>
      | None \<Rightarrow> \<lparr>cd_code = c, cd_label = str_or c ''Unknown''\<rparr>)"

record event_meaning =
  mg_event :: coded
  mg_action :: coded
  mg_source :: coded
  mg_basis :: string
  mg_opened_state :: string
  mg_opened_label :: string
  mg_result :: string

text \<open>
  The meaning of a recorded event: \<open>origin\<close> is the trade's source (absent when the event has no
  trade) and \<open>decision\<close> the recorded decision.
\<close>

definition opened_of :: "capture_event \<Rightarrow> string \<times> string" where
  "opened_of e =
     (if ev_snapshot e then (''snapshot'', ''Snapshot'')
      else if ev_kind e = K_FILL \<and> ev_execution_id e \<noteq> [] \<and> dlt dzero (ev_quantity e)
      then (case ev_fill_effect e of
              F_OPEN \<Rightarrow> (''confirmed'', ''Opening fill'')
            | F_CLOSE \<Rightarrow> (''closing'', ''Closing fill'')
            | F_UNKNOWN \<Rightarrow> (''fill_unknown'', ''Fill '' @ [CHR 0xB7] @ '' effect unknown''))
      else if ev_kind e = K_POSITION
      then (if ev_status e = ''Removed'' then (''removed'', ''Position removed'')
            else (''observed'', ''Position observed''))
      else (''unconfirmed'', ''Not confirmed''))"

definition meaning :: "capture_event \<Rightarrow> event_source option \<Rightarrow> string \<Rightarrow> event_meaning" where
  "meaning e origin decision =
     (let src = (case origin of Some s \<Rightarrow> if s \<noteq> S_UNKNOWN then s else ev_source e | None \<Rightarrow> ev_source e);
          (st, lb) = opened_of e
      in \<lparr>mg_event = label_of (kind_name (ev_kind e)) kind_titles,
          mg_action = label_of (action_name (ev_action e)) action_titles,
          mg_source = label_of (source_name src) source_titles,
          mg_basis = (if origin \<noteq> None \<and> origin \<noteq> Some S_UNKNOWN then ''trade origin'' else ''reported source''),
          mg_opened_state = st, mg_opened_label = lb,
          mg_result = (case map_of result_titles decision of Some t \<Rightarrow> t
                       | None \<Rightarrow> str_or decision ''Not evaluated'')\<rparr>)"

text \<open>
  An event is reported as a confirmed opening only on execution evidence: a fill, not a
  snapshot, with an execution id, a positive quantity and an explicit opening effect.
\<close>

lemma opened_confirmed_iff:
  "fst (opened_of e) = ''confirmed'' \<longleftrightarrow>
     \<not> ev_snapshot e \<and> ev_kind e = K_FILL \<and> ev_execution_id e \<noteq> [] \<and> 0 < dval (ev_quantity e) \<and>
     ev_fill_effect e = F_OPEN"
  by (auto simp: opened_of_def dec_simps split: fill_effect.splits)

lemma meaning_opened: "mg_opened_state (meaning e origin decision) = fst (opened_of e)"
  by (simp add: meaning_def Let_def split: prod.splits)

lemma kind_titled: "map_of kind_titles (kind_name k) \<noteq> None"
  by (cases k) (simp_all add: kind_titles_def)

lemma action_titled: "map_of action_titles (action_name a) \<noteq> None"
  by (cases a) (simp_all add: action_titles_def)

end
