(* ===== verification/Journal.thy ===== *)
theory Journal
  imports CaptureEvents "HOL-Library.Product_Lexorder" "HOL-Library.List_Lexorder" "HOL-Library.Char_ord"
begin

text \<open>
  The rows and tables of the capture journal (the DDL of capture/store.py and
  capture/mapping.py). Rows are in rowid order and are never deleted. A JSON-encoded key is the
  list of strings it encodes, an optional column is an option, a decimal column keeps its value.
\<close>

datatype trade_state = Observed | Dispatching | Pending | Opened | Uncertain | Resolved
datatype attempt_state = At_dispatching | At_accepted | At_uncertain | At_held

fun state_name :: "trade_state \<Rightarrow> string" where
  "state_name Observed = ''observed''"
| "state_name Dispatching = ''dispatching''"
| "state_name Pending = ''pending''"
| "state_name Opened = ''open''"
| "state_name Uncertain = ''uncertain''"
| "state_name Resolved = ''resolved''"

record trade =
  tr_id :: string
  tr_source_key :: "string list"
  tr_source :: event_source
  tr_source_order_id :: string
  tr_source_position_id :: string
  tr_destination :: string
  tr_broker_order_id :: string
  tr_broker_position_id :: string
  tr_state :: trade_state
  tr_updated_at :: int
  tr_resolved_at :: "int option"
  tr_last_request :: string
  tr_lots :: "decimal option"
  tr_symbol :: string
  tr_side :: string
  tr_order_type :: string
  tr_scope :: "string list"
  tr_last_event_at :: "int option"
  tr_source_quantity :: "decimal option"
  tr_source_state :: string

record event_row =
  er_seq :: nat
  er_key :: "string list"
  er_digest :: string
  er_trade :: "string option"
  er_received_at :: int
  er_payload :: capture_event
  er_decision :: string
  er_reason :: string

record attempt =
  at_trade :: string
  at_action :: string
  at_state :: attempt_state

text \<open>Which end of the copy a row describes.\<close>

datatype leg = Source_leg | Destination_leg

fun leg_name :: "leg \<Rightarrow> string" where
  "leg_name Source_leg = ''source''"
| "leg_name Destination_leg = ''destination''"

datatype link_kind = Order_link | Position_link

record identity_link =
  lk_trade :: string
  lk_leg :: leg
  lk_scope :: "string list"
  lk_kind :: link_kind
  lk_native :: string
  lk_evidence :: string
  lk_at :: int

record execution_fill =
  xf_leg :: leg
  xf_scope :: "string list"
  xf_execution :: string
  xf_trade :: string
  xf_order :: string
  xf_position :: string
  xf_quantity :: decimal
  xf_price :: decimal
  xf_effect :: fill_effect
  xf_at :: int

text \<open>The \<open>requested\<close> column is NULL, the empty text of a trade without lots, or a decimal.\<close>

record quantity_observation =
  qo_trade :: string
  qo_leg :: leg
  qo_scope :: "string list"
  qo_requested :: "decimal option option"
  qo_cumulative :: "decimal option"
  qo_remaining :: "decimal option"
  qo_unit :: string
  qo_at :: int

record position_observation =
  po_leg :: leg
  po_scope :: "string list"
  po_position :: string
  po_volume :: decimal
  po_at :: int

record request =
  rq_method :: string
  rq_instrument :: string
  rq_side :: string
  rq_id :: string
  rq_type :: string
  rq_volume :: "decimal option"
  rq_price :: "decimal option"
  rq_sl :: "decimal option"
  rq_tp :: "decimal option"

record action_row =
  ah_trade :: string
  ah_action_key :: string
  ah_account :: string
  ah_request_id :: string
  ah_action :: event_action
  ah_request :: request
  ah_outcome :: attempt_state
  ah_broker_order_id :: string
  ah_broker_position_id :: string
  ah_at :: int

record destination_observation =
  do_trade :: string
  do_scope :: "string list"
  do_position :: string
  do_reader :: string
  do_execution :: string
  do_order_id :: "string option"
  do_symbol :: string
  do_side :: string
  do_volume :: "decimal option"
  do_open_price :: "decimal option"
  do_open_time :: "string option"
  do_open_millis :: "int option"
  do_close_time :: "string option"
  do_close_reason :: "string option"
  do_first_seen :: int
  do_at :: int

record outcome_reason =
  or_trade :: string
  or_action_key :: string
  or_attempt :: nat
  or_outcome :: string
  or_reason :: reason
  or_at :: int

record paper_send =
  ps_trade :: string
  ps_source :: event_source
  ps_destination :: string
  ps_request :: request
  ps_lots :: decimal
  ps_verdict :: string
  ps_reason :: string
  ps_at :: int

record journal =
  j_broker :: string
  j_schema :: "string option"
  j_meta_broker :: "string option"
  j_migrated :: bool
  j_trades :: "trade list"
  j_events :: "event_row list"
  j_attempts :: "attempt list"
  j_links :: "identity_link list"
  j_fills :: "execution_fill list"
  j_quantities :: "quantity_observation list"
  j_positions :: "position_observation list"
  j_actions :: "action_row list"
  j_dobs :: "destination_observation list"
  j_reasons :: "outcome_reason list"
  j_paper :: "paper_send list"
  j_revision :: nat

definition empty_journal :: "string \<Rightarrow> journal" where
  "empty_journal b =
     \<lparr>j_broker = b, j_schema = None, j_meta_broker = None, j_migrated = False, j_trades = [],
      j_events = [], j_attempts = [], j_links = [], j_fills = [], j_quantities = [],
      j_positions = [], j_actions = [], j_dobs = [], j_reasons = [], j_paper = [], j_revision = 0\<rparr>"

text \<open>The primary keys.\<close>

definition attempt_key :: "attempt \<Rightarrow> string \<times> string" where
  "attempt_key a = (at_trade a, at_action a)"

definition link_key :: "identity_link \<Rightarrow> string \<times> leg \<times> string list \<times> link_kind \<times> string" where
  "link_key l = (lk_trade l, lk_leg l, lk_scope l, lk_kind l, lk_native l)"

definition fill_key :: "execution_fill \<Rightarrow> leg \<times> string list \<times> string" where
  "fill_key f = (xf_leg f, xf_scope f, xf_execution f)"

definition quantity_key :: "quantity_observation \<Rightarrow> string \<times> leg \<times> string list" where
  "quantity_key q = (qo_trade q, qo_leg q, qo_scope q)"

definition position_key :: "position_observation \<Rightarrow> leg \<times> string list \<times> string" where
  "position_key p = (po_leg p, po_scope p, po_position p)"

definition action_key_of :: "action_row \<Rightarrow> string \<times> string" where
  "action_key_of a = (ah_trade a, ah_action_key a)"

definition dobs_key :: "destination_observation \<Rightarrow> string \<times> string list \<times> string \<times> string \<times> string" where
  "dobs_key d = (do_trade d, do_scope d, do_position d, do_reader d, do_execution d)"

definition reason_key :: "outcome_reason \<Rightarrow> string \<times> string \<times> nat" where
  "reason_key r = (or_trade r, or_action_key r, or_attempt r)"

definition paper_row_key :: "paper_send \<Rightarrow> string \<times> int" where
  "paper_row_key p = (ps_trade p, ps_at p)"

definition actions_owned :: "attempt list \<Rightarrow> action_row list \<Rightarrow> bool" where
  "actions_owned as hs \<longleftrightarrow> list_all (\<lambda>h. has_key attempt_key (action_key_of h) as) hs"

lemma actions_owned_Nil [simp]: "actions_owned as []"
  by (simp add: actions_owned_def)

lemma actions_owned_history:
  "(\<And>h. P h \<Longrightarrow> action_key_of (f h) = action_key_of h) \<Longrightarrow>
     actions_owned as (tupdate P f hs) = actions_owned as hs"
  by (induction hs) (auto simp: actions_owned_def)

lemma actions_owned_attempts:
  "(\<And>a. P a \<Longrightarrow> attempt_key (f a) = attempt_key a) \<Longrightarrow>
     actions_owned (tupdate P f as) hs = actions_owned as hs"
  by (simp add: actions_owned_def has_key_tupdate)

lemma actions_owned_snoc: "actions_owned as hs \<Longrightarrow> actions_owned (as @ [a]) hs"
  by (auto simp: actions_owned_def list_all_iff)

lemma actions_owned_both:
  "actions_owned as hs \<Longrightarrow> attempt_key a = action_key_of h \<Longrightarrow> actions_owned (as @ [a]) (hs @ [h])"
  by (auto simp: actions_owned_def list_all_iff)

lemma actions_owned_fresh:
  "actions_owned as hs \<Longrightarrow> \<not> has_key attempt_key k as \<Longrightarrow> \<not> has_key action_key_of k hs"
  by (auto simp: actions_owned_def list_all_iff has_key_iff)

text \<open>
  Well-formedness of a journal: every table keeps its primary key and its unique columns (the events
  are numbered from 1 in the order they came), and a row of the action history belongs to a recorded
  attempt.
\<close>

definition journal_wf :: "journal \<Rightarrow> bool" where
  "journal_wf j \<longleftrightarrow>
     unique_key tr_id (j_trades j) \<and> unique_key tr_source_key (j_trades j) \<and>
     map er_seq (j_events j) = [1..<Suc (length (j_events j))] \<and>
     unique_key er_key (j_events j) \<and> unique_key attempt_key (j_attempts j) \<and>
     unique_key link_key (j_links j) \<and> unique_key fill_key (j_fills j) \<and>
     unique_key quantity_key (j_quantities j) \<and> unique_key position_key (j_positions j) \<and>
     unique_key dobs_key (j_dobs j) \<and> unique_key reason_key (j_reasons j) \<and>
     unique_key action_key_of (j_actions j) \<and> unique_key paper_row_key (j_paper j) \<and>
     actions_owned (j_attempts j) (j_actions j)"

lemma journal_wf_empty [simp]: "journal_wf (empty_journal b)"
  by (simp add: journal_wf_def empty_journal_def)

definition find_trade :: "journal \<Rightarrow> string \<Rightarrow> trade option" where
  "find_trade j i = find (\<lambda>t. tr_id t = i) (j_trades j)"

definition find_attempt :: "journal \<Rightarrow> string \<Rightarrow> string \<Rightarrow> attempt option" where
  "find_attempt j i k = find (\<lambda>a. attempt_key a = (i, k)) (j_attempts j)"

lemma find_trade_mem: "find_trade j i = Some t \<Longrightarrow> t \<in> set (j_trades j) \<and> tr_id t = i"
  by (auto simp: find_trade_def dest: find_Some_mem)

lemma find_trade_cong: "j_trades j' = j_trades j \<Longrightarrow> find_trade j' i = find_trade j i"
  by (simp add: find_trade_def)

lemma find_trade_None: "find_trade j i = None \<longleftrightarrow> \<not> has_key tr_id i (j_trades j)"
  by (simp add: find_trade_def find_None_has_key)

lemma find_attempt_None: "find_attempt j i k = None \<longleftrightarrow> \<not> has_key attempt_key (i, k) (j_attempts j)"
  by (simp add: find_attempt_def find_None_has_key)

end
