(* ===== verification/MappingLedger.thy ===== *)
theory MappingLedger
  imports Journal
begin

text \<open>
  Account-scoped identity relationships and execution evidence (capture/mapping.py). Every
  operation runs inside the caller's transaction: an error leaves the journal unchanged.
\<close>

definition mapping_schema_version :: string where
  "mapping_schema_version = ''1.1.0''"

definition destination_scope :: "journal \<Rightarrow> string \<Rightarrow> string list" where
  "destination_scope j account = [j_broker j, account]"

definition link ::
  "string \<Rightarrow> leg \<Rightarrow> string list \<Rightarrow> link_kind \<Rightarrow> string \<Rightarrow> string \<Rightarrow> int \<Rightarrow> journal \<Rightarrow> journal" where
  "link t l scope k native evidence tm j =
     (if native = [] then j
      else j\<lparr>j_links := insert_ignore link_key
               \<lparr>lk_trade = t, lk_leg = l, lk_scope = scope, lk_kind = k, lk_native = native,
                lk_evidence = evidence, lk_at = tm\<rparr> (j_links j)\<rparr>)"

definition ids :: "journal \<Rightarrow> string \<Rightarrow> leg \<Rightarrow> link_kind \<Rightarrow> string list" where
  "ids j t l k =
     remdups (map lk_native (filter (\<lambda>r. lk_trade r = t \<and> lk_leg r = l \<and> lk_kind r = k) (j_links j)))"

definition owners :: "journal \<Rightarrow> leg \<Rightarrow> string list \<Rightarrow> string \<Rightarrow> string list" where
  "owners j l scope position =
     remdups (map lk_trade (filter (\<lambda>r. lk_leg r = l \<and> lk_scope r = scope \<and> lk_kind r = Position_link \<and>
                                        lk_native r = position) (j_links j)))"

definition fill ::
  "string \<Rightarrow> leg \<Rightarrow> string list \<Rightarrow> string \<Rightarrow> string \<Rightarrow> string \<Rightarrow> decimal \<Rightarrow> decimal \<Rightarrow> fill_effect \<Rightarrow> int
    \<Rightarrow> journal \<Rightarrow> journal res" where
  "fill t l scope execution order position quantity price effect tm j =
     (let new = \<lparr>xf_leg = l, xf_scope = scope, xf_execution = execution, xf_trade = t, xf_order = order,
                 xf_position = position, xf_quantity = quantity, xf_price = price, xf_effect = effect,
                 xf_at = tm\<rparr>
      in case find (\<lambda>f. fill_key f = fill_key new) (j_fills j) of
           Some old \<Rightarrow>
             if \<not> (xf_trade old = t \<and> xf_order old = order \<and> xf_position old = position \<and> xf_effect old = effect)
                \<or> \<not> deq (xf_quantity old) quantity \<or> \<not> deq (xf_price old) price
             then Inl (value_error ''Execution ID reused with conflicting fill data'')
             else Inr j
         | None \<Rightarrow>
             Inr (link t l scope Position_link position ''execution'' tm
                   (link t l scope Order_link order ''execution'' tm
                     (j\<lparr>j_fills := j_fills j @ [new]\<rparr>))))"

definition coalesce :: "'a option \<Rightarrow> 'a option \<Rightarrow> 'a option" where
  "coalesce a b = (case a of None \<Rightarrow> b | Some _ \<Rightarrow> a)"

definition merge_quantities :: "quantity_observation \<Rightarrow> quantity_observation \<Rightarrow> quantity_observation" where
  "merge_quantities old new =
     old\<lparr>qo_requested := coalesce (qo_requested new) (qo_requested old),
         qo_cumulative := coalesce (qo_cumulative new) (qo_cumulative old),
         qo_remaining := coalesce (qo_remaining new) (qo_remaining old),
         qo_unit := qo_unit new, qo_at := qo_at new\<rparr>"

definition quantities ::
  "string \<Rightarrow> leg \<Rightarrow> string list \<Rightarrow> decimal option option \<Rightarrow> decimal option \<Rightarrow> decimal option \<Rightarrow> string \<Rightarrow> int
    \<Rightarrow> journal \<Rightarrow> journal" where
  "quantities t l scope requested cumulative remaining u tm j =
     (let new = \<lparr>qo_trade = t, qo_leg = l, qo_scope = scope, qo_requested = requested,
                 qo_cumulative = cumulative, qo_remaining = remaining, qo_unit = u, qo_at = tm\<rparr>
      in case find (\<lambda>q. quantity_key q = quantity_key new) (j_quantities j) of
           Some old \<Rightarrow> if qo_at old > tm then j
                       else j\<lparr>j_quantities := upsert quantity_key merge_quantities new (j_quantities j)\<rparr>
         | None \<Rightarrow> j\<lparr>j_quantities := upsert quantity_key merge_quantities new (j_quantities j)\<rparr>)"

definition merge_position :: "position_observation \<Rightarrow> position_observation \<Rightarrow> position_observation" where
  "merge_position old new =
     (if po_at new \<ge> po_at old then old\<lparr>po_volume := po_volume new, po_at := po_at new\<rparr> else old)"

definition observe_position ::
  "leg \<Rightarrow> string list \<Rightarrow> string \<Rightarrow> decimal \<Rightarrow> int \<Rightarrow> journal \<Rightarrow> journal" where
  "observe_position l scope position volume tm j =
     j\<lparr>j_positions := upsert position_key merge_position
         \<lparr>po_leg = l, po_scope = scope, po_position = position, po_volume = volume, po_at = tm\<rparr>
         (j_positions j)\<rparr>"

text \<open>A string that is empty after \<open>strip()\<close>: only the white space the method removes.\<close>

definition is_space :: "char \<Rightarrow> bool" where
  "is_space c \<longleftrightarrow> c \<in> {CHR '' '', CHR 0x09, CHR 0x0A, CHR 0x0B, CHR 0x0C, CHR 0x0D, CHR 0x1C, CHR 0x1D,
                       CHR 0x1E, CHR 0x1F, CHR 0x85, CHR 0xA0}"

definition is_blank :: "string \<Rightarrow> bool" where
  "is_blank s \<longleftrightarrow> list_all is_space s"

definition clean_time :: "string option \<Rightarrow> string option" where
  "clean_time s = (case s of Some x \<Rightarrow> if is_blank x then None else Some x | None \<Rightarrow> None)"

text \<open>
  The snapshot columns move only forward in time; the broker time columns are filled once and
  never replaced, whatever the clock says.
\<close>

definition merge_dobs ::
  "destination_observation \<Rightarrow> destination_observation \<Rightarrow> destination_observation" where
  "merge_dobs old new =
     (if do_at new \<ge> do_at old
      then old\<lparr>do_order_id := do_order_id new, do_symbol := do_symbol new, do_side := do_side new,
               do_volume := do_volume new, do_open_price := do_open_price new,
               do_close_time := do_close_time new, do_close_reason := do_close_reason new,
               do_at := do_at new\<rparr>
      else old)"

definition fill_broker_time :: "string option \<Rightarrow> int option \<Rightarrow> destination_observation \<Rightarrow> destination_observation" where
  "fill_broker_time open_time millis d =
     d\<lparr>do_open_time := coalesce (do_open_time d) open_time, do_open_millis := coalesce (do_open_millis d) millis\<rparr>"

definition observe_destination :: "destination_observation \<Rightarrow> journal \<Rightarrow> journal" where
  "observe_destination d j =
     (let new = d\<lparr>do_open_time := clean_time (do_open_time d), do_first_seen := do_at d\<rparr>
      in j\<lparr>j_dobs := tupdate (\<lambda>r. dobs_key r = dobs_key new)
                      (fill_broker_time (do_open_time new) (do_open_millis new))
                      (upsert dobs_key merge_dobs new (j_dobs j))\<rparr>)"

definition opt_chain :: "('a \<Rightarrow> 'a) \<Rightarrow> bool \<Rightarrow> 'a \<Rightarrow> 'a" where
  "opt_chain f c x = (if c then f x else x)"

text \<open>The three parts of \<open>source_event\<close>: the identity links, the execution, the measured quantities.\<close>

definition source_links :: "string \<Rightarrow> capture_event \<Rightarrow> journal \<Rightarrow> journal" where
  "source_links t e j =
     opt_chain (link t Source_leg (ev_scope e) Position_link (ev_position_id e) ''native relationship''
                  (ev_emitted_at e))
       (ev_kind e = K_FILL \<or> ev_kind e = K_POSITION)
       (link t Source_leg (ev_scope e) Order_link (ev_order_id e) ''native order'' (ev_emitted_at e) j)"

definition source_fill :: "string \<Rightarrow> capture_event \<Rightarrow> journal \<Rightarrow> journal res" where
  "source_fill t e j =
     (if ev_kind e = K_FILL \<and> ev_execution_id e \<noteq> []
      then fill t Source_leg (ev_scope e) (ev_execution_id e) (ev_order_id e) (ev_position_id e)
             (ev_quantity e) (ev_price e) (ev_fill_effect e) (ev_emitted_at e) j
      else Inr j)"

definition source_measures :: "string \<Rightarrow> capture_event \<Rightarrow> journal \<Rightarrow> journal" where
  "source_measures t e j =
     (let j4 = (case ev_position_quantity e of
                  Some v \<Rightarrow> if ev_position_id e \<noteq> []
                            then observe_position Source_leg (ev_scope e) (ev_position_id e) v (ev_emitted_at e) j
                            else j
                | None \<Rightarrow> j);
          requested = (case ev_order_quantity e of
                         Some q \<Rightarrow> Some (Some q)
                       | None \<Rightarrow> if ev_kind e = K_ACCEPTED \<and> (ev_action e = A_CREATE \<or> ev_action e = A_EDIT)
                                 then Some (Some (ev_quantity e)) else None)
      in quantities t Source_leg (ev_scope e) requested (ev_cumulative e) (ev_remaining e)
           (ev_quantity_unit e) (ev_emitted_at e) j4)"

definition source_event :: "string \<Rightarrow> capture_event \<Rightarrow> journal \<Rightarrow> journal res" where
  "source_event t e j =
     bindE (source_fill t e (source_links t e j)) (\<lambda>j3. Inr (source_measures t e j3))"

text \<open>
  \<open>guard_position\<close>: an action on a position needs one position per end and one trade per
  position. Checked end by end, source first.
\<close>

definition position_links :: "journal \<Rightarrow> string \<Rightarrow> leg \<Rightarrow> identity_link list" where
  "position_links j t l =
     filter (\<lambda>r. lk_trade r = t \<and> lk_leg r = l \<and> lk_kind r = Position_link) (j_links j)"

definition guard_leg :: "journal \<Rightarrow> string \<Rightarrow> leg \<Rightarrow> unit res" where
  "guard_leg j t l =
     (let ls = position_links j t l in
      if length ls > 1
      then Inl (value_error (''Split '' @ leg_name l @ '' positions require an explicit action allocation''))
      else if list_ex (\<lambda>r. length (owners j l (lk_scope r) (lk_native r)) > 1) ls
      then Inl (value_error (''Merged '' @ leg_name l @ '' position requires an explicit action allocation''))
      else Inr ())"

definition guard_position :: "journal \<Rightarrow> string \<Rightarrow> unit res" where
  "guard_position j t = bindE (guard_leg j t Source_leg) (\<lambda>_. guard_leg j t Destination_leg)"

subsection \<open>Opening a journal\<close>

text \<open>The one-time migration of a trade recorded before the mapping tables existed.\<close>

definition migrate_trade :: "trade \<Rightarrow> journal \<Rightarrow> journal" where
  "migrate_trade t j =
     (let j1 = link (tr_id t) Source_leg (tr_scope t) Order_link (tr_source_order_id t) ''legacy journal''
                 (tr_updated_at t) j;
          j2 = link (tr_id t) Source_leg (tr_scope t) Position_link (tr_source_position_id t) ''legacy journal''
                 (tr_updated_at t) j1
      in if tr_destination t = [] then j2
         else let scope = destination_scope j (tr_destination t);
                  j3 = (if tr_broker_order_id t \<noteq> tr_broker_position_id t
                        then link (tr_id t) Destination_leg scope Order_link (tr_broker_order_id t)
                               ''legacy journal'' (tr_updated_at t) j2
                        else if tr_broker_order_id t \<noteq> []
                        then j2\<lparr>j_trades := tupdate (\<lambda>r. tr_id r = tr_id t)
                                 (\<lambda>r. r\<lparr>tr_broker_order_id := [], tr_state := Uncertain\<rparr>) (j_trades j2)\<rparr>
                        else j2)
              in link (tr_id t) Destination_leg scope Position_link (tr_broker_position_id t)
                   ''legacy journal'' (tr_updated_at t) j3)"

definition open_ledger :: "string \<Rightarrow> journal \<Rightarrow> journal res" where
  "open_ledger broker j =
     (let version = (if j_schema j = Some ''1.0.0'' then Some mapping_schema_version else j_schema j) in
      if version \<noteq> None \<and> version \<noteq> Some mapping_schema_version
      then Inl (value_error ''Unsupported mapping journal schema version'')
      else if j_meta_broker j \<noteq> None \<and> j_meta_broker j \<noteq> Some broker
      then Inl (value_error ''Capture journal belongs to another broker; use its own data directory'')
      else let j1 = j\<lparr>j_broker := broker, j_meta_broker := Some broker, j_schema := Some mapping_schema_version\<rparr>;
               j2 = (if j_migrated j1 then j1
                     else (fold migrate_trade (j_trades j1) j1)\<lparr>j_migrated := True\<rparr>)
           in Inr (j2\<lparr>j_actions := tupdate (\<lambda>a. ah_outcome a = At_dispatching)
                                     (\<lambda>a. a\<lparr>ah_outcome := At_uncertain\<rparr>) (j_actions j2)\<rparr>))"

subsection \<open>Frames: what a mapping operation leaves alone\<close>

definition same_core :: "journal \<Rightarrow> journal \<Rightarrow> bool" where
  "same_core j j' \<longleftrightarrow>
     j_trades j' = j_trades j \<and> j_events j' = j_events j \<and> j_attempts j' = j_attempts j \<and>
     j_actions j' = j_actions j \<and> j_reasons j' = j_reasons j \<and> j_paper j' = j_paper j \<and>
     j_broker j' = j_broker j \<and> j_revision j' = j_revision j"

lemma same_core_refl [simp]: "same_core j j"
  by (simp add: same_core_def)

lemma same_core_trans: "same_core a b \<Longrightarrow> same_core b c \<Longrightarrow> same_core a c"
  by (simp add: same_core_def)

lemma same_coreD:
  assumes "same_core j j'"
  shows "j_trades j' = j_trades j" "j_events j' = j_events j" "j_attempts j' = j_attempts j"
    "j_actions j' = j_actions j" "j_reasons j' = j_reasons j" "j_paper j' = j_paper j"
    "j_broker j' = j_broker j" "j_revision j' = j_revision j"
  using assms by (simp_all add: same_core_def)

lemma same_core_link [simp]: "same_core i (link t l scope k native e tm j) = same_core i j"
  by (simp add: link_def same_core_def)

lemma same_core_quantities [simp]: "same_core i (quantities t l scope r c m u tm j) = same_core i j"
  by (simp add: quantities_def same_core_def Let_def split: option.splits)

lemma same_core_observe_position [simp]: "same_core i (observe_position l scope p v tm j) = same_core i j"
  by (simp add: observe_position_def same_core_def)

lemma same_core_observe_destination [simp]: "same_core i (observe_destination d j) = same_core i j"
  by (simp add: observe_destination_def same_core_def Let_def)

lemma same_core_fill: "fill t l scope x o' p q pr ef tm j = Inr j' \<Longrightarrow> same_core j j'"
  by (auto simp: fill_def Let_def link_def same_core_def split: option.splits if_splits)

lemma same_core_source_links [simp]: "same_core i (source_links t e j) = same_core i j"
  by (simp add: source_links_def opt_chain_def)

lemma same_core_source_measures [simp]: "same_core i (source_measures t e j) = same_core i j"
  by (simp add: source_measures_def Let_def split: option.splits)

lemma same_core_source_event:
  assumes "source_event t e j = Inr j'"
  shows "same_core j j'"
proof -
  from assms obtain j3 where j3: "source_fill t e (source_links t e j) = Inr j3" and j': "j' = source_measures t e j3"
    by (auto simp: source_event_def err_simps)
  have "same_core (source_links t e j) j3"
    using j3 by (auto simp: source_fill_def split: if_splits dest: same_core_fill)
  then show ?thesis
    by (simp add: j') (rule same_core_trans[of _ "source_links t e j"], simp_all)
qed

subsection \<open>Primary keys are kept\<close>

lemma wf_link [simp]: "journal_wf (link t l scope k native e tm j) = journal_wf j"
  by (simp add: link_def journal_wf_def)

lemma merge_quantities_key [simp]: "quantity_key (merge_quantities a b) = quantity_key a"
  by (simp add: merge_quantities_def quantity_key_def)

lemma merge_position_key [simp]: "position_key (merge_position a b) = position_key a"
  by (simp add: merge_position_def position_key_def)

lemma merge_dobs_key [simp]: "dobs_key (merge_dobs a b) = dobs_key a"
  by (simp add: merge_dobs_def dobs_key_def)

lemma fill_broker_time_key [simp]: "dobs_key (fill_broker_time a b d) = dobs_key d"
  by (simp add: fill_broker_time_def dobs_key_def)

lemma wf_quantities [simp]: "journal_wf (quantities t l scope r c m u tm j) = journal_wf j"
  by (simp add: quantities_def journal_wf_def Let_def unique_upsert split: option.splits)

lemma wf_observe_position [simp]: "journal_wf (observe_position l scope p v tm j) = journal_wf j"
  by (simp add: observe_position_def journal_wf_def unique_upsert)

lemma wf_observe_destination [simp]: "journal_wf (observe_destination d j) = journal_wf j"
  by (simp add: observe_destination_def journal_wf_def Let_def unique_upsert unique_tupdate)

lemma wf_opt_chain: "(\<And>x. journal_wf (f x) = journal_wf x) \<Longrightarrow> journal_wf (opt_chain f c j) = journal_wf j"
  by (simp add: opt_chain_def)

lemma wf_fill:
  assumes "fill t l scope x o' p q pr ef tm j = Inr j'" "journal_wf j"
  shows "journal_wf j'"
proof -
  define new where "new = \<lparr>xf_leg = l, xf_scope = scope, xf_execution = x, xf_trade = t, xf_order = o',
                 xf_position = p, xf_quantity = q, xf_price = pr, xf_effect = ef, xf_at = tm\<rparr>"
  show ?thesis
  proof (cases "find (\<lambda>f. fill_key f = fill_key new) (j_fills j)")
    case None
    then have "\<not> has_key fill_key (fill_key new) (j_fills j)" by (simp add: find_None_has_key)
    with assms(2) have "journal_wf (j\<lparr>j_fills := j_fills j @ [new]\<rparr>)"
      by (simp add: journal_wf_def unique_snoc)
    with None assms(1) show ?thesis by (auto simp: fill_def Let_def new_def)
  next
    case (Some old)
    with assms show ?thesis by (auto simp: fill_def Let_def new_def split: if_splits)
  qed
qed

lemma wf_source_links [simp]: "journal_wf (source_links t e j) = journal_wf j"
  by (simp add: source_links_def wf_opt_chain)

lemma wf_source_measures [simp]: "journal_wf (source_measures t e j) = journal_wf j"
  by (auto simp: source_measures_def Let_def split: option.splits)

lemma wf_source_event: "source_event t e j = Inr j' \<Longrightarrow> journal_wf j \<Longrightarrow> journal_wf j'"
  by (auto simp: source_event_def source_fill_def err_simps split: if_splits dest: wf_fill)

subsection \<open>Executions are recorded once\<close>

lemma fill_link_core:
  "j_fills (link t l scope k native e tm j) = j_fills j"
  by (simp add: link_def)

lemma fill_recorded:
  assumes "fill t l scope x o' p q pr ef tm j = Inr j'"
  obtains old where "find (\<lambda>f. fill_key f = (l, scope, x)) (j_fills j') = Some old" "xf_trade old = t"
    "xf_order old = o'" "xf_position old = p" "xf_effect old = ef" "deq (xf_quantity old) q"
    "deq (xf_price old) pr"
proof -
  define new where "new = \<lparr>xf_leg = l, xf_scope = scope, xf_execution = x, xf_trade = t, xf_order = o',
                 xf_position = p, xf_quantity = q, xf_price = pr, xf_effect = ef, xf_at = tm\<rparr>"
  have k: "fill_key new = (l, scope, x)" by (simp add: new_def fill_key_def)
  show ?thesis
  proof (cases "find (\<lambda>f. fill_key f = (l, scope, x)) (j_fills j)")
    case None
    then have "j_fills j' = j_fills j @ [new]"
      using assms by (auto simp: fill_def Let_def new_def[symmetric] k fill_link_core)
    with None have "find (\<lambda>f. fill_key f = (l, scope, x)) (j_fills j') = Some new"
      by (simp add: find_append k)
    then show ?thesis by (rule that) (simp_all add: new_def dec_simps)
  next
    case (Some old)
    with assms have "j' = j" "xf_trade old = t" "xf_order old = o'" "xf_position old = p" "xf_effect old = ef"
      "deq (xf_quantity old) q" "deq (xf_price old) pr"
      by (auto simp: fill_def Let_def new_def[symmetric] k split: if_splits)
    with Some show ?thesis by (intro that) simp_all
  qed
qed

lemma fill_on_record:
  assumes "find (\<lambda>f. fill_key f = (l, scope, x)) (j_fills j) = Some old"
  shows "fill t l scope x o' p q pr ef tm j =
     (if xf_trade old = t \<and> xf_order old = o' \<and> xf_position old = p \<and> xf_effect old = ef \<and>
         deq (xf_quantity old) q \<and> deq (xf_price old) pr
      then Inr j else Inl (value_error ''Execution ID reused with conflicting fill data''))"
  using assms by (simp add: fill_def Let_def fill_key_def)

text \<open>
  Reporting the same execution again, in any decimal spelling, changes nothing; with other data it
  is refused.
\<close>

lemma fill_again:
  assumes "fill t l scope x o' p q pr ef tm j = Inr j'" "deq q q'" "deq pr pr'"
  shows "fill t l scope x o' p q' pr' ef tm' j' = Inr j'"
  by (rule fill_recorded[OF assms(1)]) (use assms(2,3) in \<open>simp add: fill_on_record dec_simps\<close>)

lemma fill_conflict:
  assumes "fill t l scope x o' p q pr ef tm j = Inr j'"
    and "\<not> (t' = t \<and> o'' = o' \<and> p' = p \<and> ef' = ef \<and> deq q q' \<and> deq pr pr')"
  shows "fill t' l scope x o'' p' q' pr' ef' tm' j'
         = Inl (value_error ''Execution ID reused with conflicting fill data'')"
  by (rule fill_recorded[OF assms(1)]) (use assms(2) in \<open>auto simp add: fill_on_record dec_simps\<close>)

subsection \<open>Guards\<close>

lemma guard_leg_Inr:
  "guard_leg j t l = Inr () \<longleftrightarrow>
     length (position_links j t l) \<le> 1 \<and>
     (\<forall>r \<in> set (position_links j t l). length (owners j l (lk_scope r) (lk_native r)) \<le> 1)"
  by (force simp: guard_leg_def Let_def list_ex_iff)

lemma guard_leg_error: "guard_leg j t l = Inl e \<Longrightarrow> is_value_error e"
  by (auto simp: guard_leg_def Let_def split: if_splits)

lemma guard_position_Inr [err_simps]:
  "guard_position j t = Inr u \<longleftrightarrow> guard_leg j t Source_leg = Inr () \<and> guard_leg j t Destination_leg = Inr ()"
  by (auto simp: guard_position_def err_simps)

lemma guard_position_error: "guard_position j t = Inl e \<Longrightarrow> is_value_error e"
  by (auto simp: guard_position_def err_simps dest: guard_leg_error)

text \<open>A trade that passes the guard is the only owner of each of its positions.\<close>

lemma guard_sole_owner:
  assumes "guard_position j t = Inr ()" "r \<in> set (position_links j t l)"
  shows "owners j l (lk_scope r) (lk_native r) = [t]"
proof -
  have g: "guard_leg j t l = Inr ()" using assms(1) by (cases l) (auto simp: err_simps)
  have mem: "t \<in> set (owners j l (lk_scope r) (lk_native r))"
    using assms(2) by (auto simp: owners_def position_links_def)
  have "length (owners j l (lk_scope r) (lk_native r)) \<le> 1"
    using g assms(2) by (auto simp: guard_leg_Inr)
  with mem show ?thesis
    by (cases "owners j l (lk_scope r) (lk_native r)") auto
qed

lemma guard_one_position:
  assumes "guard_position j t = Inr ()"
  shows "length (ids j t l Position_link) \<le> 1"
proof -
  have g: "guard_leg j t l = Inr ()" using assms by (cases l) (auto simp: err_simps)
  have "length (ids j t l Position_link) \<le> length (position_links j t l)"
    using length_remdups_leq[of "map lk_native (position_links j t l)"]
    by (simp add: ids_def position_links_def)
  with g show ?thesis by (auto simp: guard_leg_Inr)
qed

subsection \<open>Broker evidence moves one way\<close>

lemma is_blank_clean [simp]: "clean_time (Some s) \<noteq> None \<longleftrightarrow> \<not> is_blank s"
  by (simp add: clean_time_def)

lemma coalesce_Some [simp]: "coalesce (Some x) b = Some x" "coalesce None b = b"
  by (simp_all add: coalesce_def)

text \<open>
  For every observation already on record: a recorded broker open time is kept for ever, and a
  snapshot older than the recorded one changes no snapshot column.
\<close>

lemma observe_destination_row:
  assumes "journal_wf j" "r \<in> set (j_dobs j)"
  obtains r' where "r' \<in> set (j_dobs (observe_destination d j))" "dobs_key r' = dobs_key r"
    "do_open_time r \<noteq> None \<Longrightarrow> do_open_time r' = do_open_time r"
    "do_open_millis r \<noteq> None \<Longrightarrow> do_open_millis r' = do_open_millis r"
    "do_first_seen r' = do_first_seen r"
    "do_at r' \<ge> do_at r"
    "do_at d < do_at r \<Longrightarrow> do_volume r' = do_volume r \<and> do_close_time r' = do_close_time r \<and> do_at r' = do_at r"
proof -
  define new where "new = d\<lparr>do_open_time := clean_time (do_open_time d), do_first_seen := do_at d\<rparr>"
  define g where "g = (\<lambda>x. if dobs_key x = dobs_key new
      then fill_broker_time (do_open_time new) (do_open_millis new) x else x)"
  define m where "m = (\<lambda>x. if dobs_key x = dobs_key new then merge_dobs x new else x)"
  define up where "up = upsert dobs_key merge_dobs new (j_dobs j)"
  have "m r \<in> set up"
  proof (cases "has_key dobs_key (dobs_key new) (j_dobs j)")
    case True
    then show ?thesis using assms(2) by (auto simp: up_def upsert_def m_def set_tupdate)
  next
    case False
    then have "dobs_key r \<noteq> dobs_key new" using assms(2) by (auto simp: has_key_iff)
    then have "m r = r" by (simp add: m_def)
    then show ?thesis using assms(2) False by (simp add: up_def upsert_def)
  qed
  then have "g (m r) \<in> set (j_dobs (observe_destination d j))"
    by (auto simp: observe_destination_def Let_def new_def[symmetric] up_def[symmetric] set_tupdate g_def)
  moreover have "dobs_key (g (m r)) = dobs_key r" by (simp add: g_def m_def)
  moreover have "do_open_time r \<noteq> None \<Longrightarrow> do_open_time (g (m r)) = do_open_time r"
    "do_open_millis r \<noteq> None \<Longrightarrow> do_open_millis (g (m r)) = do_open_millis r"
    "do_first_seen (g (m r)) = do_first_seen r" "do_at (g (m r)) \<ge> do_at r"
    "do_at d < do_at r \<Longrightarrow> do_volume (g (m r)) = do_volume r \<and> do_close_time (g (m r)) = do_close_time r \<and>
       do_at (g (m r)) = do_at r"
    by (auto simp: g_def m_def merge_dobs_def fill_broker_time_def new_def)
  ultimately show ?thesis by (rule that)
qed

end
