(* ===== verification/CaptureStore.thy ===== *)
theory CaptureStore
  imports MappingLedger
begin

text \<open>
  Transactional deduplication and the dispatch discipline (capture/store.py): recording an event,
  claiming and finishing an attempt, updating a trade, recording reasons and broker read-backs, and
  the recovery at start. Clock, fresh identifier and payload digest are arguments. Each operation is
  one transaction: an error leaves the journal unchanged.
\<close>

definition notify_stream :: "journal \<Rightarrow> journal" where
  "notify_stream j = j\<lparr>j_revision := Suc (j_revision j)\<rparr>"

definition execution_quantity :: "decimal \<Rightarrow> string" where
  "execution_quantity v = dec_str (normalize_dec v)"

subsection \<open>Recording an event\<close>

definition source_key_of :: "capture_event \<Rightarrow> string list" where
  "source_key_of e = ev_scope e @ [ev_order_id e]"

definition trade_by_source_key :: "journal \<Rightarrow> string list \<Rightarrow> trade option" where
  "trade_by_source_key j k = find (\<lambda>t. tr_source_key t = k) (j_trades j)"

definition trades_by_position :: "journal \<Rightarrow> string list \<Rightarrow> string \<Rightarrow> trade list" where
  "trades_by_position j scope position =
     filter (\<lambda>t. list_ex (\<lambda>l. lk_trade l = tr_id t \<and> lk_leg l = Source_leg \<and> lk_kind l = Position_link \<and>
                              lk_scope l = scope \<and> lk_native l = position) (j_links j)) (j_trades j)"

text \<open>
  The trade an event belongs to: by its source order, else by a source position that exactly one
  trade is linked to, else none.
\<close>

definition known_trade :: "capture_event \<Rightarrow> journal \<Rightarrow> trade option" where
  "known_trade e j =
     (if ev_order_id e \<noteq> [] then trade_by_source_key j (source_key_of e)
      else if ev_position_id e \<noteq> []
      then (case trades_by_position j (ev_scope e) (ev_position_id e) of [t] \<Rightarrow> Some t | _ \<Rightarrow> None)
      else None)"

definition new_trade :: "string \<Rightarrow> int \<Rightarrow> capture_event \<Rightarrow> trade" where
  "new_trade uid now e =
     \<lparr>tr_id = uid, tr_source_key = source_key_of e, tr_source = ev_source e,
      tr_source_order_id = ev_order_id e, tr_source_position_id = [], tr_destination = [],
      tr_broker_order_id = [], tr_broker_position_id = [], tr_state = Observed, tr_updated_at = now,
      tr_resolved_at = None, tr_last_request = [], tr_lots = None, tr_symbol = [], tr_side = [],
      tr_order_type = [], tr_scope = ev_scope e, tr_last_event_at = None, tr_source_quantity = None,
      tr_source_state = []\<rparr>"

text \<open>The source ended the order or position before it was copied.\<close>

definition source_ended :: "capture_event \<Rightarrow> bool" where
  "source_ended e \<longleftrightarrow>
     (ev_kind e = K_ORDER \<and> (ev_status e = ''Cancelled'' \<or> ev_status e = ''Refused'')) \<or>
     (ev_kind e = K_POSITION \<and> ev_status e = ''Removed'')"

definition nonzero_or :: "decimal option \<Rightarrow> decimal \<Rightarrow> decimal" where
  "nonzero_or q d = (case q of Some x \<Rightarrow> if dtrue x then x else d | None \<Rightarrow> d)"

text \<open>What one event changes in the row of its trade; \<open>positions\<close> are the trade's source positions.\<close>

definition absorb_event :: "int \<Rightarrow> capture_event \<Rightarrow> string list \<Rightarrow> trade \<Rightarrow> trade" where
  "absorb_event now e positions t =
     (let t1 = t\<lparr>tr_updated_at := now, tr_source_state := str_or (ev_status e) (kind_name (ev_kind e))\<rparr>;
          t2 = (if ev_kind e = K_ACCEPTED \<and> (ev_action e = A_CREATE \<or> ev_action e = A_EDIT)
                then t1\<lparr>tr_source_quantity := Some (nonzero_or (ev_order_quantity e) (ev_quantity e))\<rparr> else t1);
          t3 = (if tr_destination t = []
                then (let t' = t2\<lparr>tr_symbol := ev_symbol e, tr_side := ev_side e, tr_order_type := ev_order_type e\<rparr>
                      in if source_ended e then t'\<lparr>tr_state := Resolved, tr_resolved_at := Some now\<rparr> else t')
                else t2);
          t4 = (if ev_kind e = K_FILL \<and> ev_position_id e \<noteq> []
                then t3\<lparr>tr_source_position_id := (case positions of [p] \<Rightarrow> p | _ \<Rightarrow> [])\<rparr> else t3)
      in if ev_action e = A_CREATE \<and> ev_source e \<noteq> S_UNKNOWN \<and> tr_source t4 = S_UNKNOWN
         then t4\<lparr>tr_source := ev_source e\<rparr> else t4)"

definition event_key :: "capture_event \<Rightarrow> string list" where
  "event_key e = [ev_machine e, ev_id e]"

text \<open>
  \<open>record\<close>: the stored row of the event, whether it was there already, and the journal. The
  identifier of a new trade must be new (\<open>trade_id\<close> is the primary key).
\<close>

definition attach_trade :: "string \<Rightarrow> int \<Rightarrow> capture_event \<Rightarrow> journal \<Rightarrow> (string option \<times> journal) res" where
  "attach_trade uid now e j =
     (case known_trade e j of
        Some t \<Rightarrow> Inr (Some (tr_id t), j)
      | None \<Rightarrow>
          if ev_order_id e = [] then Inr (None, j)
          else if has_key tr_id uid (j_trades j)
          then Inl (Exn ''IntegrityError'' ''UNIQUE constraint failed: trades.trade_id'' None)
          else Inr (Some uid, j\<lparr>j_trades := j_trades j @ [new_trade uid now e]\<rparr>))"

definition apply_event :: "string option \<Rightarrow> int \<Rightarrow> capture_event \<Rightarrow> journal \<Rightarrow> journal res" where
  "apply_event owner now e j =
     (case owner of
        None \<Rightarrow> Inr j
      | Some i \<Rightarrow>
          bindE (source_event i e j) (\<lambda>j1.
            Inr (j1\<lparr>j_trades := tupdate (\<lambda>t. tr_id t = i)
                      (absorb_event now e (ids j1 i Source_leg Position_link)) (j_trades j1)\<rparr>)))"

definition append_event ::
  "string \<Rightarrow> string option \<Rightarrow> int \<Rightarrow> capture_event \<Rightarrow> journal \<Rightarrow> event_row \<times> journal" where
  "append_event digest owner now e j =
     (let row = \<lparr>er_seq = Suc (length (j_events j)), er_key = event_key e, er_digest = digest,
                 er_trade = owner, er_received_at = now, er_payload = e, er_decision = ''captured'',
                 er_reason = []\<rparr>
      in (row, notify_stream (j\<lparr>j_events := j_events j @ [row]\<rparr>)))"

definition record_event ::
  "(capture_event \<Rightarrow> string) \<Rightarrow> string \<Rightarrow> int \<Rightarrow> capture_event \<Rightarrow> journal
    \<Rightarrow> ((event_row \<times> bool) \<times> journal) res" where
  "record_event digest uid now e j =
     (case find (\<lambda>r. er_key r = event_key e) (j_events j) of
        Some old \<Rightarrow>
          if er_digest old \<noteq> digest e \<and> \<not> event_eq (er_payload old) e
          then Inl (value_error ''Event ID reused with different data'')
          else Inr ((old, True), j)
      | None \<Rightarrow>
          bindE (attach_trade uid now e j) (\<lambda>(owner, j1).
          bindE (apply_event owner now e j1) (\<lambda>j2.
            let (row, j3) = append_event (digest e) owner now e j2 in Inr ((row, False), j3))))"

definition decision :: "nat \<Rightarrow> string \<Rightarrow> string \<Rightarrow> journal \<Rightarrow> journal" where
  "decision s status why j =
     notify_stream (j\<lparr>j_events := tupdate (\<lambda>r. er_seq r = s)
                      (\<lambda>r. r\<lparr>er_decision := status, er_reason := why\<rparr>) (j_events j)\<rparr>)"

subsection \<open>Updating a trade\<close>

text \<open>The columns \<open>update\<close> may set; \<open>None\<close> is a column the call does not name.\<close>

record trade_update =
  up_destination :: "string option"
  up_broker_order :: "string option"
  up_broker_position :: "string option"
  up_state :: "trade_state option"
  up_resolved_at :: "int option"
  up_last_request :: "string option"
  up_lots :: "decimal option option"
  up_symbol :: "string option"
  up_side :: "string option"
  up_order_type :: "string option"
  up_last_event_at :: "int option"

definition no_update :: trade_update where
  "no_update = \<lparr>up_destination = None, up_broker_order = None, up_broker_position = None, up_state = None,
     up_resolved_at = None, up_last_request = None, up_lots = None, up_symbol = None, up_side = None,
     up_order_type = None, up_last_event_at = None\<rparr>"

definition opt_set :: "'a option \<Rightarrow> 'a \<Rightarrow> 'a" where
  "opt_set n old = (case n of Some x \<Rightarrow> x | None \<Rightarrow> old)"

definition apply_update :: "trade_update \<Rightarrow> int \<Rightarrow> trade \<Rightarrow> trade" where
  "apply_update u now t =
     t\<lparr>tr_destination := opt_set (up_destination u) (tr_destination t),
       tr_broker_order_id := opt_set (up_broker_order u) (tr_broker_order_id t),
       tr_broker_position_id := opt_set (up_broker_position u) (tr_broker_position_id t),
       tr_state := opt_set (up_state u) (tr_state t),
       tr_resolved_at := opt_set (map_option Some (up_resolved_at u)) (tr_resolved_at t),
       tr_last_request := opt_set (up_last_request u) (tr_last_request t),
       tr_lots := opt_set (up_lots u) (tr_lots t),
       tr_symbol := opt_set (up_symbol u) (tr_symbol t),
       tr_side := opt_set (up_side u) (tr_side t),
       tr_order_type := opt_set (up_order_type u) (tr_order_type t),
       tr_last_event_at := opt_set (map_option Some (up_last_event_at u)) (tr_last_event_at t),
       tr_updated_at := now\<rparr>"

definition link_destination :: "trade_update \<Rightarrow> int \<Rightarrow> trade \<Rightarrow> journal \<Rightarrow> journal" where
  "link_destination u now t j =
     (if tr_destination t = [] then j
      else let scope = destination_scope j (tr_destination t);
               j1 = link (tr_id t) Destination_leg scope Order_link (tr_broker_order_id t) ''broker identity'' now j;
               j2 = link (tr_id t) Destination_leg scope Position_link (tr_broker_position_id t) ''broker identity''
                      now j1
           in case up_lots u of
                Some l \<Rightarrow> quantities (tr_id t) Destination_leg scope (Some l) None None ''lots'' now j2
              | None \<Rightarrow> j2)"

definition store_update :: "string \<Rightarrow> trade_update \<Rightarrow> int \<Rightarrow> journal \<Rightarrow> journal" where
  "store_update i u now j =
     (let j1 = j\<lparr>j_trades := tupdate (\<lambda>t. tr_id t = i) (apply_update u now) (j_trades j)\<rparr>
      in case find_trade j1 i of Some t \<Rightarrow> link_destination u now t j1 | None \<Rightarrow> j1)"

definition checked_update :: "string \<Rightarrow> trade_update \<Rightarrow> int \<Rightarrow> journal \<Rightarrow> journal res" where
  "checked_update i u now j =
     (if u = no_update then Inl (value_error ''Invalid trade update'') else Inr (store_update i u now j))"

subsection \<open>Attempts\<close>

definition blocked_state :: "trade_state \<Rightarrow> bool" where
  "blocked_state s \<longleftrightarrow> s = Uncertain \<or> s = Dispatching \<or> s = Resolved"

text \<open>
  \<open>claim\<close> commits the attempt before the broker is called. \<open>act\<close> carries the request when the
  caller passes the event: its request id, action, destination and exact request.
\<close>

definition claim ::
  "string \<Rightarrow> string \<Rightarrow> (string \<times> event_action \<times> string \<times> request) option \<Rightarrow> int \<Rightarrow> journal \<Rightarrow> bool \<times> journal" where
  "claim i k act now j =
     (case find_trade j i of
        None \<Rightarrow> (False, j)
      | Some t \<Rightarrow>
          if blocked_state (tr_state t) then (False, j)
          else if k = ''CREATE'' \<and> (tr_broker_order_id t \<noteq> [] \<or> tr_broker_position_id t \<noteq> []) then (False, j)
          else if has_key attempt_key (i, k) (j_attempts j) then (False, j)
          else (True,
            j\<lparr>j_attempts := j_attempts j @ [\<lparr>at_trade = i, at_action = k, at_state = At_dispatching\<rparr>],
              j_trades := tupdate (\<lambda>t. tr_id t = i) (\<lambda>t. t\<lparr>tr_state := Dispatching\<rparr>) (j_trades j),
              j_actions := (case act of None \<Rightarrow> j_actions j
                 | Some (rid, a, destination, req) \<Rightarrow> j_actions j @
                     [\<lparr>ah_trade = i, ah_action_key = k, ah_account = destination, ah_request_id = rid,
                       ah_action = a, ah_request = req, ah_outcome = At_dispatching,
                       ah_broker_order_id = [], ah_broker_position_id = [], ah_at = now\<rparr>])\<rparr>))"

definition finish :: "string \<Rightarrow> string \<Rightarrow> attempt_state \<Rightarrow> int \<Rightarrow> journal \<Rightarrow> journal res" where
  "finish i k s now j =
     (case find_trade j i of
        None \<Rightarrow> Inl (Exn ''TypeError'' '''NoneType' object is not subscriptable'' None)
      | Some t \<Rightarrow> Inr (j\<lparr>
          j_attempts := tupdate (\<lambda>a. attempt_key a = (i, k)) (\<lambda>a. a\<lparr>at_state := s\<rparr>) (j_attempts j),
          j_actions := tupdate (\<lambda>a. action_key_of a = (i, k))
             (\<lambda>a. a\<lparr>ah_outcome := s, ah_broker_order_id := tr_broker_order_id t,
                    ah_broker_position_id := tr_broker_position_id t, ah_at := now\<rparr>) (j_actions j)\<rparr>))"

subsection \<open>Reasons\<close>

definition reason_complete :: "reason \<Rightarrow> bool" where
  "reason_complete r \<longleftrightarrow> \<not> is_blank (rs_origin r) \<and> \<not> is_blank (rs_code r) \<and> \<not> is_blank (rs_evidence r)"

definition record_reason :: "string \<Rightarrow> string \<Rightarrow> nat \<Rightarrow> string \<Rightarrow> reason \<Rightarrow> int \<Rightarrow> journal \<Rightarrow> journal res" where
  "record_reason i k n outcome r now j =
     (if \<not> reason_complete r
      then Inl (value_error ''Refusing to record an outcome reason without origin, code and evidence'')
      else Inr (j\<lparr>j_reasons := insert_ignore reason_key
             \<lparr>or_trade = i, or_action_key = k, or_attempt = n, or_outcome = outcome, or_reason = r, or_at = now\<rparr>
             (j_reasons j)\<rparr>))"

text \<open>A decision in paper mode, inserted by capture/manual_send.py, which then notifies the stream.\<close>

definition insert_paper :: "paper_send \<Rightarrow> journal \<Rightarrow> journal res" where
  "insert_paper row j =
     (if has_key paper_row_key (paper_row_key row) (j_paper j)
      then Inl (Exn ''IntegrityError'' ''UNIQUE constraint failed: paper_sends'' None)
      else Inr (notify_stream (j\<lparr>j_paper := j_paper j @ [row]\<rparr>)))"

subsection \<open>Start-up recovery\<close>

definition interrupted_reason :: "attempt \<Rightarrow> reason" where
  "interrupted_reason a =
     \<lparr>rs_origin = ''local'', rs_code = ''InterruptedProcessing'',
      rs_summary = ''Process restarted while this attempt was still dispatching; broker outcome not verified'',
      rs_evidence = ''durable attempt trade_id='' @ at_trade a @ '' action_key='' @ at_action a\<rparr>"

definition note_interrupted :: "int \<Rightarrow> attempt \<Rightarrow> journal \<Rightarrow> journal" where
  "note_interrupted now a j =
     (case record_reason (at_trade a) (at_action a) 1 ''uncertain'' (interrupted_reason a) now j of
        Inr j' \<Rightarrow> j' | Inl _ \<Rightarrow> j)"

definition recover :: "int \<Rightarrow> journal \<Rightarrow> journal" where
  "recover now j =
     (let interrupted = filter (\<lambda>a. at_state a = At_dispatching) (j_attempts j);
          j1 = j\<lparr>j_trades := tupdate (\<lambda>t. tr_state t = Dispatching) (\<lambda>t. t\<lparr>tr_state := Uncertain\<rparr>) (j_trades j),
                 j_attempts := tupdate (\<lambda>a. at_state a = At_dispatching) (\<lambda>a. a\<lparr>at_state := At_uncertain\<rparr>)
                                 (j_attempts j)\<rparr>
      in fold (note_interrupted now) interrupted j1)"

definition open_store :: "string \<Rightarrow> int \<Rightarrow> journal \<Rightarrow> journal res" where
  "open_store broker now j = bindE (open_ledger broker j) (\<lambda>j1. Inr (recover now j1))"

subsection \<open>Broker read-backs\<close>

record broker_position =
  bp_id :: string
  bp_order_id :: "string option"
  bp_symbol :: string
  bp_side :: string
  bp_volume :: decimal
  bp_open_price :: decimal
  bp_open_time :: "string option"
  bp_open_millis :: "int option"

record closed_trade =
  ct_id :: string
  ct_symbol :: string
  ct_side :: string
  ct_volume :: decimal
  ct_open_price :: decimal
  ct_open_time :: string
  ct_time :: string
  ct_uid :: "string option"
  ct_closing_order :: "string option"
  ct_reason :: "string option"

definition observe_one_position :: "string \<Rightarrow> string list \<Rightarrow> int \<Rightarrow> broker_position \<Rightarrow> journal \<Rightarrow> journal" where
  "observe_one_position i scope now p j =
     observe_destination
       \<lparr>do_trade = i, do_scope = scope, do_position = bp_id p, do_reader = ''open_positions'',
        do_execution = bp_id p, do_order_id = bp_order_id p, do_symbol = bp_symbol p, do_side = bp_side p,
        do_volume = Some (bp_volume p), do_open_price = Some (bp_open_price p),
        do_open_time = clean_time (bp_open_time p), do_open_millis = bp_open_millis p,
        do_close_time = None, do_close_reason = None, do_first_seen = now, do_at = now\<rparr>
       (observe_position Destination_leg scope (bp_id p) (bp_volume p) now
         (link i Destination_leg scope Position_link (bp_id p) ''broker order/position relationship'' now j))"

definition observe_positions :: "string \<Rightarrow> string \<Rightarrow> int \<Rightarrow> broker_position list \<Rightarrow> journal \<Rightarrow> journal" where
  "observe_positions i destination now ps j =
     fold (observe_one_position i (destination_scope j destination) now) ps j"

definition closing_key :: "closed_trade \<Rightarrow> string" where
  "closing_key c =
     (if truthy (ct_uid c) then opt_str (ct_uid c)
      else if truthy (ct_closing_order c) then opt_str (ct_closing_order c)
      else ct_id c @ ''@'' @ ct_time c @ '':'' @ execution_quantity (ct_volume c))"

definition observe_one_closed :: "string \<Rightarrow> string list \<Rightarrow> int \<Rightarrow> closed_trade \<Rightarrow> journal \<Rightarrow> journal" where
  "observe_one_closed i scope now c j =
     observe_destination
       \<lparr>do_trade = i, do_scope = scope, do_position = ct_id c, do_reader = ''closed_positions'',
        do_execution = closing_key c, do_order_id = ct_closing_order c, do_symbol = ct_symbol c,
        do_side = ct_side c, do_volume = Some (ct_volume c), do_open_price = Some (ct_open_price c),
        do_open_time = clean_time (Some (ct_open_time c)), do_open_millis = None,
        do_close_time = Some (ct_time c), do_close_reason = ct_reason c, do_first_seen = now, do_at = now\<rparr> j"

definition observe_closed :: "string \<Rightarrow> string \<Rightarrow> int \<Rightarrow> closed_trade list \<Rightarrow> journal \<Rightarrow> journal" where
  "observe_closed i destination now cs j =
     fold (observe_one_closed i (destination_scope j destination) now) cs j"

subsection \<open>Views\<close>

text \<open>\<open>stream_snapshot\<close> after the wait: closed, nothing new, or the new revision with the feed.\<close>

datatype 'a stream_reply = Stream_closed | Heartbeat nat | Stream_events nat 'a

record feed_item =
  fi_seq :: nat
  fi_event :: capture_event
  fi_trade :: "string option"
  fi_received_at :: int
  fi_decision :: string
  fi_reason :: string
  fi_meaning :: event_meaning

definition feed_item_of :: "journal \<Rightarrow> event_row \<Rightarrow> feed_item" where
  "feed_item_of j r =
     \<lparr>fi_seq = er_seq r, fi_event = er_payload r, fi_trade = er_trade r, fi_received_at = er_received_at r,
      fi_decision = er_decision r, fi_reason = er_reason r,
      fi_meaning = meaning (er_payload r)
        (case er_trade r of None \<Rightarrow> None | Some i \<Rightarrow> map_option tr_source (find_trade j i)) (er_decision r)\<rparr>"

definition feed :: "journal \<Rightarrow> feed_item list" where
  "feed j = map (feed_item_of j) (take 200 (rev (j_events j)))"

definition stream_snapshot :: "int \<Rightarrow> bool \<Rightarrow> journal \<Rightarrow> feed_item list stream_reply" where
  "stream_snapshot after shut j =
     (if shut then Stream_closed
      else if int (j_revision j) = after then Heartbeat (j_revision j)
      else Stream_events (j_revision j) (feed j))"

text \<open>
  The CSV view: the newest trades, at most \<open>limit\<close>, with text that a spreadsheet would run as a
  formula prefixed by a quote.
\<close>

definition escape_cell :: "string \<Rightarrow> string" where
  "escape_cell v =
     (case v of c # _ \<Rightarrow> if c \<in> {CHR ''='', CHR ''+'', CHR ''-'', CHR ''@''} then CHR 0x27 # v else v | [] \<Rightarrow> v)"

definition text_columns :: "trade \<Rightarrow> string list" where
  "text_columns t =
     [tr_id t, source_name (tr_source t), tr_source_order_id t, tr_source_position_id t, tr_destination t,
      tr_broker_order_id t, tr_broker_position_id t, state_name (tr_state t), tr_last_request t, tr_symbol t,
      tr_side t, tr_order_type t, tr_source_state t]"

definition export_rows :: "nat \<Rightarrow> journal \<Rightarrow> string list list" where
  "export_rows limit j =
     map (map escape_cell \<circ> text_columns) (take limit (sort_key (\<lambda>t. - tr_updated_at t) (j_trades j)))"

subsection \<open>Primary keys are kept by every operation\<close>

lemma wf_notify [simp]: "journal_wf (notify_stream j) = journal_wf j"
  by (simp add: notify_stream_def journal_wf_def)

lemma wf_trades_tupdate:
  assumes "\<And>t. P t \<Longrightarrow> tr_id (f t) = tr_id t" "\<And>t. P t \<Longrightarrow> tr_source_key (f t) = tr_source_key t"
  shows "journal_wf (j\<lparr>j_trades := tupdate P f (j_trades j)\<rparr>) = journal_wf j"
  by (simp add: journal_wf_def unique_tupdate assms)

lemma absorb_event_keys [simp]:
  "tr_id (absorb_event now e ps t) = tr_id t" "tr_source_key (absorb_event now e ps t) = tr_source_key t"
  by (simp_all add: absorb_event_def Let_def)

lemma apply_update_keys [simp]:
  "tr_id (apply_update u now t) = tr_id t" "tr_source_key (apply_update u now t) = tr_source_key t"
  by (simp_all add: apply_update_def)

lemma wf_attach_trade:
  assumes "attach_trade uid now e j = Inr (owner, j1)" "journal_wf j"
  shows "journal_wf j1"
proof (cases "known_trade e j")
  case (Some t)
  with assms show ?thesis by (simp add: attach_trade_def)
next
  case None
  show ?thesis
  proof (cases "ev_order_id e = []")
    case True
    with None assms show ?thesis by (simp add: attach_trade_def)
  next
    case False
    with None have "\<not> has_key tr_source_key (source_key_of e) (j_trades j)"
      by (simp add: known_trade_def trade_by_source_key_def find_None_has_key)
    with False None assms show ?thesis
      by (auto simp: attach_trade_def journal_wf_def unique_snoc new_trade_def split: if_splits)
  qed
qed

lemma wf_apply_event: "apply_event owner now e j = Inr j' \<Longrightarrow> journal_wf j \<Longrightarrow> journal_wf j'"
  by (auto simp: apply_event_def err_simps wf_trades_tupdate split: option.splits dest: wf_source_event)

lemma core_apply_event:
  assumes "apply_event owner now e j = Inr j'"
  shows "j_events j' = j_events j" "j_attempts j' = j_attempts j"
  using assms by (auto simp: apply_event_def err_simps same_coreD[OF same_core_source_event] split: option.splits)

lemma core_attach_trade:
  assumes "attach_trade uid now e j = Inr (owner, j')"
  shows "j_events j' = j_events j" "j_attempts j' = j_attempts j"
  using assms by (auto simp: attach_trade_def split: option.splits if_splits)

lemma append_event_simps:
  "append_event d owner now e j = (row, j') \<Longrightarrow> j_events j' = j_events j @ [row] \<and> er_key row = event_key e
     \<and> er_payload row = e \<and> er_digest row = d \<and> er_trade row = owner \<and> j_attempts j' = j_attempts j"
  by (auto simp: append_event_def Let_def notify_stream_def)

lemma wf_append_event:
  assumes "append_event d owner now e j = (row, j')" "journal_wf j" "\<not> has_key er_key (event_key e) (j_events j)"
  shows "journal_wf j'"
proof -
  define r where "r = \<lparr>er_seq = Suc (length (j_events j)), er_key = event_key e, er_digest = d,
                 er_trade = owner, er_received_at = now, er_payload = e, er_decision = ''captured'',
                 er_reason = []\<rparr>"
  have "j' = notify_stream (j\<lparr>j_events := j_events j @ [r]\<rparr>)"
    using assms(1) by (auto simp: append_event_def Let_def r_def)
  moreover have "journal_wf (j\<lparr>j_events := j_events j @ [r]\<rparr>)"
    using assms(2,3) by (simp add: journal_wf_def unique_snoc r_def)
  ultimately show ?thesis by simp
qed

text \<open>The two ways \<open>record\<close> returns: the event was on record, or it was appended.\<close>

lemma record_event_cases:
  assumes "record_event digest uid now e j = Inr ((row, dup), j')"
  obtains (known) "dup" "j' = j" "row \<in> set (j_events j)" "er_key row = event_key e"
      "er_digest row = digest e \<or> event_eq (er_payload row) e"
  | (new) owner j1 j2 where "\<not> dup" "\<not> has_key er_key (event_key e) (j_events j)"
      "attach_trade uid now e j = Inr (owner, j1)" "apply_event owner now e j1 = Inr j2"
      "append_event (digest e) owner now e j2 = (row, j')"
proof (cases "find (\<lambda>r. er_key r = event_key e) (j_events j)")
  case (Some old)
  then have "old \<in> set (j_events j)" "er_key old = event_key e" by (auto dest: find_Some_mem)
  with Some assms known show ?thesis by (auto simp: record_event_def split: if_splits)
next
  case None
  from None assms obtain owner j1 j2 where 1: "attach_trade uid now e j = Inr (owner, j1)"
    "apply_event owner now e j1 = Inr j2"
    "(let (row, j3) = append_event (digest e) owner now e j2 in Inr ((row, False), j3)) = (Inr ((row, dup), j') :: ((event_row \<times> bool) \<times> journal) res)"
    by (auto simp: record_event_def err_simps)
  with None show ?thesis
    by (intro new[of owner j1 j2]) (auto simp: find_None_has_key Let_def split: prod.splits)
qed

lemma wf_record_event:
  assumes "record_event digest uid now e j = Inr (r, j')" "journal_wf j"
  shows "journal_wf j'"
proof (cases r)
  case (Pair row dup)
  from assms(1)[unfolded Pair] show ?thesis
  proof (cases rule: record_event_cases)
    case known
    then show ?thesis using assms(2) by simp
  next
    case (new owner j1 j2)
    then have "j_events j2 = j_events j" by (simp add: core_apply_event core_attach_trade)
    moreover have "journal_wf j2" using new assms(2) by (auto intro: wf_apply_event wf_attach_trade)
    ultimately show ?thesis using new by (auto intro: wf_append_event)
  qed
qed

lemma wf_decision [simp]: "journal_wf (decision s status why j) = journal_wf j"
  by (simp add: decision_def journal_wf_def notify_stream_def unique_tupdate tupdate_map_key)

lemma wf_insert_paper: "insert_paper row j = Inr j' \<Longrightarrow> journal_wf j \<Longrightarrow> journal_wf j'"
  by (auto simp: insert_paper_def journal_wf_def notify_stream_def unique_snoc split: if_splits)

lemma wf_store_update [simp]: "journal_wf (store_update i u now j) = journal_wf j"
  by (simp add: store_update_def Let_def link_destination_def wf_trades_tupdate split: option.splits)

lemma wf_claim: "journal_wf j \<Longrightarrow> journal_wf (snd (claim i k act now j))"
  using actions_owned_fresh[of "j_attempts j" "j_actions j" "(i, k)"]
  by (auto simp: claim_def journal_wf_def unique_snoc unique_tupdate attempt_key_def action_key_of_def
      actions_owned_snoc actions_owned_both split: option.splits)

lemma wf_finish: "finish i k s now j = Inr j' \<Longrightarrow> journal_wf j' = journal_wf j"
  by (auto simp: finish_def journal_wf_def unique_tupdate attempt_key_def action_key_of_def
      actions_owned_history actions_owned_attempts split: option.splits)

lemma wf_record_reason: "record_reason i k n out r now j = Inr j' \<Longrightarrow> journal_wf j' = journal_wf j"
  by (auto simp: record_reason_def journal_wf_def split: if_splits)

lemma wf_note_interrupted [simp]: "journal_wf (note_interrupted now a j) = journal_wf j"
  by (auto simp: note_interrupted_def wf_record_reason split: sum.splits)

lemma wf_fold [tbl_simps]: "(\<And>x j. journal_wf (f x j) = journal_wf j) \<Longrightarrow> journal_wf (fold f xs j) = journal_wf j"
  by (induction xs arbitrary: j) auto

lemma wf_recover [simp]: "journal_wf (recover now j) = journal_wf j"
proof -
  have "journal_wf (j\<lparr>j_trades := tupdate (\<lambda>t. tr_state t = Dispatching) (\<lambda>t. t\<lparr>tr_state := Uncertain\<rparr>) (j_trades j),
                 j_attempts := tupdate (\<lambda>a. at_state a = At_dispatching) (\<lambda>a. a\<lparr>at_state := At_uncertain\<rparr>)
                                 (j_attempts j)\<rparr>) = journal_wf j"
    by (simp add: journal_wf_def unique_tupdate attempt_key_def actions_owned_attempts)
  then show ?thesis by (simp add: recover_def Let_def tbl_simps)
qed

lemma wf_migrate_trade [simp]: "journal_wf (migrate_trade t j) = journal_wf j"
  by (simp add: migrate_trade_def Let_def wf_trades_tupdate)

lemma wf_open_ledger:
  assumes "open_ledger b j = Inr j'"
  shows "journal_wf j' = journal_wf j"
proof -
  define j1 where "j1 = j\<lparr>j_broker := b, j_meta_broker := Some b, j_schema := Some mapping_schema_version\<rparr>"
  define j2 where "j2 = (if j_migrated j1 then j1 else (fold migrate_trade (j_trades j1) j1)\<lparr>j_migrated := True\<rparr>)"
  have "j' = j2\<lparr>j_actions := tupdate (\<lambda>a. ah_outcome a = At_dispatching) (\<lambda>a. a\<lparr>ah_outcome := At_uncertain\<rparr>)
      (j_actions j2)\<rparr>"
    using assms unfolding open_ledger_def Let_def j1_def[symmetric] j2_def[symmetric] by (simp split: if_splits)
  then have "journal_wf j' = journal_wf j2"
    by (simp add: journal_wf_def unique_tupdate actions_owned_history action_key_of_def)
  moreover have "journal_wf (x\<lparr>j_migrated := True\<rparr>) = journal_wf x" for x by (simp add: journal_wf_def)
  then have "journal_wf j2 = journal_wf j1" by (simp add: j2_def tbl_simps)
  moreover have "journal_wf j1 = journal_wf j" by (simp add: j1_def journal_wf_def)
  ultimately show ?thesis by simp
qed

lemma wf_observe_positions [simp]: "journal_wf (observe_positions i d now ps j) = journal_wf j"
  by (simp add: observe_positions_def tbl_simps observe_one_position_def)

lemma wf_observe_closed [simp]: "journal_wf (observe_closed i d now cs j) = journal_wf j"
  by (simp add: observe_closed_def tbl_simps observe_one_closed_def)

subsection \<open>Events are recorded once\<close>

text \<open>After \<open>record\<close> the event is on record with equal data, so reporting it again changes nothing.\<close>

lemma record_event_on_record:
  assumes "record_event digest uid now e j = Inr ((row, dup), j')" "journal_wf j"
  shows "find (\<lambda>r. er_key r = event_key e) (j_events j') = Some row"
    "er_digest row = digest e \<or> event_eq (er_payload row) e"
proof -
  have wf: "unique_key er_key (j_events j')"
    using wf_record_event[OF assms(1) assms(2)] by (simp add: journal_wf_def)
  have r: "row \<in> set (j_events j') \<and> er_key row = event_key e \<and> (er_digest row = digest e \<or> event_eq (er_payload row) e)"
    using assms(1) by (cases rule: record_event_cases) (auto dest!: append_event_simps)
  then show "find (\<lambda>r. er_key r = event_key e) (j_events j') = Some row"
    using find_unique[OF wf, of row] by simp
  show "er_digest row = digest e \<or> event_eq (er_payload row) e" using r by simp
qed

lemma record_event_again:
  assumes "record_event digest uid now e j = Inr ((row, dup), j')" "journal_wf j"
  shows "record_event digest uid' now' e j' = Inr ((row, True), j')"
  using record_event_on_record[OF assms] by (auto simp: record_event_def)

subsection \<open>Claims\<close>

definition attempt_claimed :: "journal \<Rightarrow> string \<times> string \<Rightarrow> bool" where
  "attempt_claimed j k \<longleftrightarrow> has_key attempt_key k (j_attempts j)"

lemma claim_granted_iff:
  "fst (claim i k act now j) \<longleftrightarrow>
     (\<exists>t. find_trade j i = Some t \<and> \<not> blocked_state (tr_state t) \<and>
          (k = ''CREATE'' \<longrightarrow> tr_broker_order_id t = [] \<and> tr_broker_position_id t = []) \<and>
          \<not> attempt_claimed j (i, k))"
  by (auto simp: claim_def attempt_claimed_def split: option.splits)

lemma claim_refused: "\<not> fst (claim i k act now j) \<Longrightarrow> snd (claim i k act now j) = j"
  by (auto simp: claim_def split: option.splits if_splits)

lemma claim_attempts:
  "attempt_claimed (snd (claim i k act now j)) x \<longleftrightarrow>
     attempt_claimed j x \<or> (fst (claim i k act now j) \<and> x = (i, k))"
  by (auto simp: claim_def attempt_claimed_def attempt_key_def split: option.splits)

lemma attempts_store_update [simp]: "j_attempts (store_update i u now j) = j_attempts j"
proof -
  have "same_core j (link_destination u now t j)" for t j
    by (simp add: link_destination_def Let_def split: option.splits)
  then show ?thesis by (simp add: store_update_def Let_def same_core_def split: option.splits)
qed

lemma trades_store_update:
  "j_trades (store_update i u now j) = tupdate (\<lambda>t. tr_id t = i) (apply_update u now) (j_trades j)"
proof -
  have "j_trades (link_destination u now t j) = j_trades j" for t j
    using same_coreD(1)[of j "link_destination u now t j"]
    by (simp add: link_destination_def Let_def split: option.splits)
  then show ?thesis by (simp add: store_update_def Let_def split: option.splits)
qed

lemma find_store_update: "find_trade (store_update i u now j) i = map_option (apply_update u now) (find_trade j i)"
proof (cases "find (\<lambda>t. tr_id t = i) (j_trades j)")
  case None
  then show ?thesis by (simp add: find_trade_def trades_store_update find_tupdate)
next
  case (Some t)
  then have "tr_id t = i" by (auto dest: find_Some_mem)
  with Some show ?thesis by (simp add: find_trade_def trades_store_update find_tupdate)
qed

lemma find_store_update_any:
  "find_trade (store_update i u now j) k =
     map_option (\<lambda>t. if tr_id t = i then apply_update u now t else t) (find_trade j k)"
  by (simp add: find_trade_def trades_store_update find_tupdate)

lemma claimed_finish: "finish i k s now j = Inr j' \<Longrightarrow> attempt_claimed j' x = attempt_claimed j x"
  by (auto simp: finish_def attempt_claimed_def has_key_tupdate attempt_key_def split: option.splits)

lemma attempts_record_reason: "record_reason i k n out r now j = Inr j' \<Longrightarrow> j_attempts j' = j_attempts j"
  by (auto simp: record_reason_def split: if_splits)

lemma attempts_record_event:
  assumes "record_event digest uid now e j = Inr (r, j')"
  shows "j_attempts j' = j_attempts j"
proof (cases r)
  case (Pair row dup)
  from assms[unfolded Pair] show ?thesis
    by (cases rule: record_event_cases)
       (auto dest!: append_event_simps simp: core_apply_event core_attach_trade)
qed

subsection \<open>Recovery\<close>

lemma note_interrupted_frame [simp]:
  "j_trades (note_interrupted now a j) = j_trades j" "j_attempts (note_interrupted now a j) = j_attempts j"
  "j_actions (note_interrupted now a j) = j_actions j"
  by (auto simp: note_interrupted_def record_reason_def split: sum.splits if_splits)

lemma fold_frame: "(\<And>x j. g (f x j) = g j) \<Longrightarrow> g (fold f xs j) = g j"
  by (induction xs arbitrary: j) auto

lemma recover_attempts:
  "j_attempts (recover now j) =
     tupdate (\<lambda>a. at_state a = At_dispatching) (\<lambda>a. a\<lparr>at_state := At_uncertain\<rparr>) (j_attempts j)"
  by (simp add: recover_def Let_def fold_frame[of j_attempts])

lemma recover_trades:
  "j_trades (recover now j) =
     tupdate (\<lambda>t. tr_state t = Dispatching) (\<lambda>t. t\<lparr>tr_state := Uncertain\<rparr>) (j_trades j)"
  by (simp add: recover_def Let_def fold_frame[of j_trades])

lemma recover_actions: "j_actions (recover now j) = j_actions j"
  by (simp add: recover_def Let_def fold_frame[of j_actions])

lemma claimed_recover [simp]: "attempt_claimed (recover now j) k = attempt_claimed j k"
  by (simp add: attempt_claimed_def recover_attempts has_key_tupdate attempt_key_def)

lemma note_interrupted_records:
  "has_key reason_key (at_trade a, at_action a, Suc 0) (j_reasons (note_interrupted now a j))"
  "has_key reason_key x (j_reasons j) \<Longrightarrow> has_key reason_key x (j_reasons (note_interrupted now a j))"
  by (auto simp: note_interrupted_def record_reason_def reason_complete_def interrupted_reason_def is_blank_def
      is_space_def reason_key_def)

lemma fold_notes:
  "(x \<in> (\<lambda>a. (at_trade a, at_action a, Suc 0)) ` set as \<or> has_key reason_key x (j_reasons j)) \<Longrightarrow>
     has_key reason_key x (j_reasons (fold (note_interrupted now) as j))"
proof (induction as arbitrary: j)
  case Nil
  then show ?case by simp
next
  case (Cons a as)
  then show ?case using note_interrupted_records(1)[of a now j] by (auto dest: note_interrupted_records(2))
qed

lemma recover_reasons:
  assumes "a \<in> set (j_attempts j)" "at_state a = At_dispatching"
  shows "has_key reason_key (at_trade a, at_action a, Suc 0) (j_reasons (recover now j))"
  unfolding recover_def Let_def by (rule fold_notes) (use assms in auto)

end
