(* ===== verification/Reasons.thy ===== *)
theory Reasons
  imports CaptureStore
begin

text \<open>
  Investigable outcome reasons (core/reason.py): the redaction of broker and exception text and the
  four constructors. Text is a list of characters up to U+00FF; each regular expression of the
  source is the function that finds its match at a position, and \<open>re_sub\<close> is \<open>re.sub\<close>: leftmost
  matches, not overlapping. The word, space and digit classes are those of Python's \<open>re\<close> on text.
\<close>

subsection \<open>Character classes\<close>

definition code_in :: "nat \<Rightarrow> nat \<Rightarrow> char \<Rightarrow> bool" where
  "code_in lo hi c \<longleftrightarrow> lo \<le> (of_char c :: nat) \<and> (of_char c :: nat) \<le> hi"

definition is_digit :: "char \<Rightarrow> bool" where
  "is_digit c \<longleftrightarrow> code_in 48 57 c"

definition is_letter :: "char \<Rightarrow> bool" where
  "is_letter c \<longleftrightarrow> code_in 65 90 c \<or> code_in 97 122 c"

definition is_word :: "char \<Rightarrow> bool" where
  "is_word c \<longleftrightarrow> is_digit c \<or> is_letter c \<or> c = CHR ''_'' \<or>
     c \<in> {CHR 0xAA, CHR 0xB2, CHR 0xB3, CHR 0xB5, CHR 0xB9, CHR 0xBA, CHR 0xBC, CHR 0xBD, CHR 0xBE} \<or>
     code_in 192 214 c \<or> code_in 216 246 c \<or> code_in 248 255 c"

definition is_control :: "char \<Rightarrow> bool" where
  "is_control c \<longleftrightarrow> code_in 0 8 c \<or> code_in 11 12 c \<or> code_in 14 31 c \<or> c = CHR 0x7F"

definition lower :: "char \<Rightarrow> char" where
  "lower c = (if code_in 65 90 c then char_of ((of_char c :: nat) + 32) else c)"

text \<open>\<open>\b\<close> between a previous character and the rest of the text.\<close>

definition boundary :: "char option \<Rightarrow> string \<Rightarrow> bool" where
  "boundary prev s \<longleftrightarrow>
     (case prev of None \<Rightarrow> False | Some p \<Rightarrow> is_word p) \<noteq> (case s of [] \<Rightarrow> False | c # _ \<Rightarrow> is_word c)"

subsection \<open>Substitution\<close>

text \<open>A matcher returns one less than the length of the match, and the replacement.\<close>

type_synonym matcher = "char option \<Rightarrow> string \<Rightarrow> (nat \<times> string) option"

function re_sub :: "matcher \<Rightarrow> char option \<Rightarrow> string \<Rightarrow> string" where
  "re_sub m prev [] = []"
| "re_sub m prev (c # s) =
     (case m prev (c # s) of
        Some (n, rep) \<Rightarrow> rep @ re_sub m (Some (last (c # take n s))) (drop n s)
      | None \<Rightarrow> c # re_sub m (Some c) s)"
  by pat_completeness auto
termination by (relation "measure (\<lambda>(_, _, s). length s)") auto

text \<open>The longest tail \<open>(?:[ -]?\d)*\<close>: its digits and its length.\<close>

fun digit_tail :: "string \<Rightarrow> nat \<times> nat" where
  "digit_tail (c # d # s) =
     (if is_digit c then (let (k, n) = digit_tail (d # s) in (Suc k, Suc n))
      else if (c = CHR '' '' \<or> c = CHR ''-'') \<and> is_digit d
      then (let (k, n) = digit_tail s in (Suc k, Suc (Suc n)))
      else (0, 0))"
| "digit_tail [c] = (if is_digit c then (1, 1) else (0, 0))"
| "digit_tail [] = (0, 0)"

fun match_long_digits :: matcher where
  "match_long_digits prev (c # s) =
     (let (k, n) = digit_tail s in if is_digit c \<and> k \<ge> 11 then Some (n, ''***'') else None)"
| "match_long_digits prev [] = None"

definition email_local :: "char \<Rightarrow> bool" where
  "email_local c \<longleftrightarrow> is_letter c \<or> is_digit c \<or> c \<in> set ''._%+-''"

definition email_domain :: "char \<Rightarrow> bool" where
  "email_domain c \<longleftrightarrow> is_letter c \<or> is_digit c \<or> c \<in> set ''.-''"

text \<open>The longest host \<open>[A-Za-z0-9.-]+\.[A-Za-z]{2,}\<close> at the start of a text, as its length.\<close>

fun host_length :: "nat \<Rightarrow> string \<Rightarrow> nat option" where
  "host_length k [] = None"
| "host_length k (c # s) =
     (if \<not> email_domain c then None
      else case host_length (Suc k) s of
        Some n \<Rightarrow> Some (Suc n)
      | None \<Rightarrow> if k > 0 \<and> c = CHR ''.'' \<and> length (takeWhile is_letter s) \<ge> 2
                then Some (Suc (length (takeWhile is_letter s))) else None)"

definition match_email :: matcher where
  "match_email prev s =
     (let u = takeWhile email_local s; r = dropWhile email_local s
      in if u = [] then None
         else case r of
           [] \<Rightarrow> None
         | c # host \<Rightarrow> if c \<noteq> CHR ''@'' then None
             else (case host_length 0 host of None \<Rightarrow> None | Some n \<Rightarrow> Some (length u + n, ''***'')))"

text \<open>The first of some keywords, in any case, at the start of a text.\<close>

definition keyword_length :: "string list \<Rightarrow> string \<Rightarrow> nat option" where
  "keyword_length ks s =
     map_option length (find (\<lambda>k. length k \<le> length s \<and> map lower (take (length k) s) = k) ks)"

definition skip_spaces :: "string \<Rightarrow> string" where
  "skip_spaces s = dropWhile is_space s"

definition not_space :: "char \<Rightarrow> bool" where
  "not_space c \<longleftrightarrow> \<not> is_space c"

text \<open>\<open>(scheme)\s+\S+\<close> after a scheme of length \<open>k\<close>: the length of the whole match.\<close>

definition scheme_value :: "nat \<Rightarrow> string \<Rightarrow> nat option" where
  "scheme_value k s =
     (let r = drop k s; v = skip_spaces r
      in if length v < length r \<and> v \<noteq> []
         then Some (length s - length v + length (takeWhile not_space v)) else None)"

definition auth_schemes :: "string list" where
  "auth_schemes = [''bearer'', ''basic'', ''digest'', ''negotiate'', ''ntlm'']"

definition match_auth :: matcher where
  "match_auth prev s =
     (if \<not> boundary prev s then None
      else case keyword_length auth_schemes s of
        None \<Rightarrow> None
      | Some k \<Rightarrow> map_option (\<lambda>n. (n - 1, take k s @ '' ***'')) (scheme_value k s))"

definition sensitive_keys :: "string list" where
  "sensitive_keys =
     [''password'', ''passwd'', ''pwd'', ''token'', ''accesstoken'', ''access_token'', ''access-token'',
      ''refreshtoken'', ''refresh_token'', ''refresh-token'', ''authtoken'', ''auth_token'', ''auth-token'',
      ''authorization'', ''apikey'', ''api_key'', ''api-key'', ''secret'', ''cookie'', ''session'', ''jwt'']"

definition is_quote :: "char \<Rightarrow> bool" where
  "is_quote c \<longleftrightarrow> c = CHR 0x22 \<or> c = CHR 0x27"

text \<open>A quoted run up to its own closing quote, on one line.\<close>

definition quoted_length :: "string \<Rightarrow> nat option" where
  "quoted_length s =
     (case s of
        [] \<Rightarrow> None
      | q # r \<Rightarrow>
          if \<not> is_quote q then None
          else let body = takeWhile (\<lambda>c. c \<noteq> q \<and> c \<noteq> CHR 0x0A) r
               in case drop (length body) r of
                    c # _ \<Rightarrow> if c = q then Some (length body + 2) else None
                  | [] \<Rightarrow> None)"

definition value_length :: "string \<Rightarrow> nat option" where
  "value_length v =
     (case (case keyword_length [''bearer'', ''basic''] v of Some k \<Rightarrow> scheme_value k v | None \<Rightarrow> None) of
        Some n \<Rightarrow> Some n
      | None \<Rightarrow> (case quoted_length v of
                   Some n \<Rightarrow> Some n
                 | None \<Rightarrow> if takeWhile not_space v = [] then None else Some (length (takeWhile not_space v))))"

definition match_sensitive :: matcher where
  "match_sensitive prev s =
     (if \<not> boundary prev s then None
      else case keyword_length (filter (\<lambda>k. boundary (Some (last k)) (drop (length k) s)) sensitive_keys) s of
        None \<Rightarrow> None
      | Some k \<Rightarrow>
          (let r = drop k s;
               r1 = skip_spaces (case r of c # t \<Rightarrow> if is_quote c then t else r | [] \<Rightarrow> [])
           in case r1 of
                [] \<Rightarrow> None
              | c # t \<Rightarrow>
                  if c \<noteq> CHR '':'' \<and> c \<noteq> CHR ''='' then None
                  else (let v = skip_spaces t
                        in case value_length v of
                             None \<Rightarrow> None
                           | Some n \<Rightarrow> Some (length s - length v + n - 1, take k s @ ''=***''))))"

definition scrub :: "string \<Rightarrow> string" where
  "scrub s =
     re_sub match_email None (re_sub match_long_digits None (re_sub match_auth None (re_sub match_sensitive None s)))"

function collapse :: "string \<Rightarrow> string" where
  "collapse [] = []"
| "collapse (c # s) = (if is_space c then CHR '' '' # collapse (dropWhile is_space s) else c # collapse s)"
  by pat_completeness auto
termination by (relation "measure length") (auto simp: less_Suc_eq_le length_dropWhile_le)

definition strip :: "string \<Rightarrow> string" where
  "strip s = rev (dropWhile is_space (rev (dropWhile is_space s)))"

definition summary_from :: "string \<Rightarrow> string" where
  "summary_from text =
     take 200 (scrub (strip (collapse (take 4000 (filter (\<lambda>c. \<not> is_control c) text)))))"

subsection \<open>Reasons\<close>

definition code_char :: "char \<Rightarrow> bool" where
  "code_char c \<longleftrightarrow> is_letter c \<or> is_digit c \<or> c \<in> set ''_.:-''"

text \<open>\<open>^[A-Za-z0-9_.:-]{1,64}$\<close>: \<open>$\<close> also matches before a final line feed.\<close>

definition code_ok :: "string \<Rightarrow> bool" where
  "code_ok s \<longleftrightarrow>
     (let b = (if s \<noteq> [] \<and> last s = CHR 0x0A then butlast s else s)
      in list_all code_char b \<and> 1 \<le> length b \<and> length b \<le> 64)"

definition has_long_digits :: "string \<Rightarrow> bool" where
  "has_long_digits s \<longleftrightarrow> re_sub match_long_digits None s \<noteq> s"

definition http_code :: "int \<Rightarrow> string" where
  "http_code status = ''HTTP '' @ int_str status"

definition code_from :: "int \<Rightarrow> string option \<Rightarrow> string" where
  "code_from status native =
     (case native of
        None \<Rightarrow> http_code status
      | Some candidate \<Rightarrow>
          if scrub candidate \<noteq> candidate then http_code status
          else if code_ok candidate \<and> \<not> has_long_digits candidate then candidate
          else http_code status)"

text \<open>A value of a response body: null, text, or anything else with the text Python prints for it.\<close>

datatype jval = J_null | J_text string | J_other string

definition jval_text :: "jval \<Rightarrow> string option" where
  "jval_text v = (case v of J_null \<Rightarrow> None | J_text s \<Rightarrow> Some s | J_other s \<Rightarrow> Some s)"

definition broker_reason :: "int \<Rightarrow> (string \<times> jval) list option \<Rightarrow> reason" where
  "broker_reason status data =
     (let body = (case data of Some d \<Rightarrow> d | None \<Rightarrow> []);
          message = (case map_of body ''errorMessage'' of Some (J_text s) \<Rightarrow> s | _ \<Rightarrow> [])
      in \<lparr>rs_origin = ''broker'',
          rs_code = code_from status (case map_of body ''nativeCode'' of Some v \<Rightarrow> jval_text v | None \<Rightarrow> None),
          rs_summary = (if message \<noteq> [] then summary_from message else []),
          rs_evidence = (if data \<noteq> None then ''broker write response''
                         else ''broker write response; no parseable body, status only'')\<rparr>)"

definition failure_summary :: "exn \<Rightarrow> string \<Rightarrow> string" where
  "failure_summary e ending =
     (let detail = (if exn_msg e \<noteq> [] then summary_from (exn_msg e) else [])
      in ''Outcome unconfirmed after '' @ exn_type e @ (if detail \<noteq> [] then '': '' @ detail else []) @ ending)"

definition transport_reason :: "exn \<Rightarrow> int option \<Rightarrow> string \<Rightarrow> reason" where
  "transport_reason e status correlation =
     \<lparr>rs_origin = ''transport'',
      rs_code = (case status of Some c \<Rightarrow> http_code c | None \<Rightarrow> ''transport''),
      rs_summary = failure_summary e ''; broker state was not verified'',
      rs_evidence = (if correlation \<noteq> []
        then ''no broker response was captured for this write; reconcile using '' @ correlation
        else ''no broker response was captured for this write; reconcile against broker state directly'')\<rparr>"

definition unconfirmed_reason :: "exn \<Rightarrow> string \<Rightarrow> reason" where
  "unconfirmed_reason e correlation =
     \<lparr>rs_origin = ''unconfirmed'',
      rs_code = exn_type e,
      rs_summary = failure_summary e ''; the failure phase (broker, wire or local) could not be established'',
      rs_evidence = (if correlation \<noteq> []
        then ''no structured broker or wire evidence was attached; reconcile using '' @ correlation
        else ''no structured broker or wire evidence was attached; reconcile against broker state'')\<rparr>"

definition local_evidence :: string where
  "local_evidence = ''broker replied to the write; response failed router validation''"

definition local_reason :: "exn \<Rightarrow> string \<Rightarrow> reason" where
  "local_reason e evidence =
     \<lparr>rs_origin = ''local'', rs_code = exn_type e,
      rs_summary = (if exn_msg e \<noteq> [] then summary_from (exn_msg e) else []), rs_evidence = evidence\<rparr>"

subsection \<open>Redaction\<close>

definition lead :: "string \<Rightarrow> nat" where
  "lead s = length (takeWhile is_digit s)"

fun runs_below :: "nat \<Rightarrow> string \<Rightarrow> bool" where
  "runs_below n [] = True"
| "runs_below n (c # s) \<longleftrightarrow> lead (c # s) < n \<and> runs_below n s"

lemma lead_simps [simp]: "lead [] = 0" "lead (c # s) = (if is_digit c then Suc (lead s) else 0)"
  by (simp_all add: lead_def)

lemma star_no_digit [simp]: "\<not> is_digit (CHR ''*'')"
  by (simp add: is_digit_def code_in_def)

definition starred :: "matcher \<Rightarrow> bool" where
  "starred m \<longleftrightarrow> (\<forall>prev s n rep. m prev s = Some (n, rep) \<longrightarrow> rep = ''***'')"

lemma starred_long_digits: "starred match_long_digits"
  unfolding starred_def
proof (intro allI impI)
  fix prev s n rep assume "match_long_digits prev s = Some (n, rep)"
  then show "rep = ''***''" by (cases s) (auto simp: Let_def split: prod.splits if_splits)
qed

lemma starred_email: "starred match_email"
  by (auto simp: starred_def match_email_def Let_def split: if_splits list.splits option.splits)

lemma re_sub_hit: "m prev (c # s) = Some (n, rep) \<Longrightarrow> re_sub m prev (c # s) = rep @ re_sub m (Some (last (c # take n s))) (drop n s)"
  by simp

lemma re_sub_miss: "m prev (c # s) = None \<Longrightarrow> re_sub m prev (c # s) = c # re_sub m (Some c) s"
  by simp

lemma starred_hit: "starred m \<Longrightarrow> m prev s = Some (n, rep) \<Longrightarrow> rep = ''***''"
  by (simp add: starred_def)

lemma lead_re_sub: "starred m \<Longrightarrow> lead (re_sub m prev s) \<le> lead s"
proof (induction m prev s rule: re_sub.induct)
  case (1 m prev)
  then show ?case by simp
next
  case (2 m prev c s)
  show ?case
  proof (cases "m prev (c # s)")
    case None
    with 2 show ?thesis by (simp add: re_sub_miss del: re_sub.simps)
  next
    case (Some r)
    obtain n rep where r: "r = (n, rep)" by (cases r)
    with Some have "rep = ''***''" using 2(3) by (auto intro: starred_hit)
    with Some r show ?thesis by (simp add: re_sub_hit del: re_sub.simps)
  qed
qed

lemma runs_stars [simp]: "n > 0 \<Longrightarrow> runs_below n (''***'' @ s) = runs_below n s"
  by simp

lemma runs_drop: "runs_below n s \<Longrightarrow> runs_below n (drop k s)"
proof (induction s arbitrary: k)
  case Nil
  then show ?case by simp
next
  case (Cons c s)
  then show ?case by (cases k) auto
qed

lemma lead_take: "lead (take k s) \<le> lead s"
proof (induction s arbitrary: k)
  case Nil
  then show ?case by simp
next
  case (Cons c s)
  then show ?case by (cases k) auto
qed

lemma runs_take: "runs_below n s \<Longrightarrow> runs_below n (take k s)"
proof (induction s arbitrary: k)
  case Nil
  then show ?case by simp
next
  case (Cons c s)
  then show ?case using lead_take[of k "c # s"] by (cases k) auto
qed

lemma runs_re_sub: "starred m \<Longrightarrow> n > 0 \<Longrightarrow> runs_below n s \<Longrightarrow> runs_below n (re_sub m prev s)"
proof (induction m prev s rule: re_sub.induct)
  case (1 m prev)
  then show ?case by simp
next
  case (2 m prev c s)
  show ?case
  proof (cases "m prev (c # s)")
    case None
    have "lead (re_sub m (Some c) s) \<le> lead s" by (rule lead_re_sub) (use 2 in auto)
    with None 2 show ?thesis by (auto simp: re_sub_miss simp del: re_sub.simps)
  next
    case (Some r)
    obtain k rep where r: "r = (k, rep)" by (cases r)
    with Some have "rep = ''***''" using 2(3) by (auto intro: starred_hit)
    with Some r 2 show ?thesis by (simp add: re_sub_hit runs_drop del: re_sub.simps)
  qed
qed

lemma digit_tail_lead: "lead s \<le> fst (digit_tail s)"
  by (induction s rule: digit_tail.induct) (auto simp: split_beta)

lemma long_digits_gone: "runs_below 12 (re_sub match_long_digits prev s)"
proof (induction s arbitrary: prev rule: measure_induct_rule[of length])
  case (less s)
  show ?case
  proof (cases s)
    case Nil
    then show ?thesis by simp
  next
    case (Cons c t)
    show ?thesis
    proof (cases "match_long_digits prev (c # t)")
      case None
      have "is_digit c \<Longrightarrow> lead t < 11"
        using None digit_tail_lead[of t] by (auto split: prod.splits if_splits)
      moreover have "lead (re_sub match_long_digits (Some c) t) \<le> lead t"
        by (rule lead_re_sub[OF starred_long_digits])
      moreover have "runs_below 12 (re_sub match_long_digits (Some c) t)" using less Cons by simp
      ultimately show ?thesis using None Cons by (auto simp: re_sub_miss simp del: re_sub.simps)
    next
      case (Some r)
      obtain k rep where r: "r = (k, rep)" by (cases r)
      note hit = Some[unfolded r]
      have "rep = ''***''" by (rule starred_hit[OF starred_long_digits hit])
      moreover have "runs_below 12 (re_sub match_long_digits (Some (last (c # take k t))) (drop k t))"
        using less Cons by simp
      ultimately show ?thesis unfolding Cons re_sub_hit[of match_long_digits, OF hit] by simp
    qed
  qed
qed

lemma scrub_runs: "runs_below 12 (scrub s)"
  unfolding scrub_def by (rule runs_re_sub[OF starred_email]) (simp_all add: long_digits_gone)

lemma runs_window: "runs_below n (u @ v @ w) \<Longrightarrow> list_all is_digit v \<Longrightarrow> v \<noteq> [] \<Longrightarrow> length v < n"
proof (induction u)
  case Nil
  then obtain c v' where v: "v = c # v'" by (cases v) auto
  have "length v \<le> lead (v @ w)" using Nil(2) by (induction v) auto
  with Nil v show ?case by auto
next
  case (Cons c u)
  then show ?case by simp
qed

lemma code_from_cases: "code_from status native = http_code status \<or>
    (\<exists>s. native = Some s \<and> code_ok s \<and> scrub s = s \<and> code_from status native = s)"
  by (auto simp: code_from_def split: option.split)

lemma code_ok_not_blank: "code_ok s \<Longrightarrow> \<not> is_blank s"
proof -
  assume ok: "code_ok s"
  define b where "b = (if s \<noteq> [] \<and> last s = CHR 0x0A then butlast s else s)"
  have b: "list_all code_char b" "b \<noteq> []" "set b \<subseteq> set s"
    using ok by (auto simp: code_ok_def Let_def b_def[symmetric]) (auto simp: b_def dest: in_set_butlastD split: if_splits)
  then obtain c where c: "c \<in> set s" "code_char c" by (cases b) auto
  have "\<not> is_space c" using c(2) by (auto simp: code_char_def is_space_def is_letter_def is_digit_def code_in_def)
  with c(1) show ?thesis by (auto simp: is_blank_def list_all_iff)
qed

lemma http_code_not_blank: "\<not> is_blank (http_code status)"
  by (simp add: http_code_def is_blank_def is_space_def)

subsection \<open>Properties\<close>

text \<open>
  Every reason the program builds can be recorded: it has an origin, a code and an evidence,
  whatever the broker or the exception said.
\<close>

theorem built_reasons_complete:
  assumes "\<not> is_blank (exn_type e)" "\<not> is_blank evidence"
  shows "reason_complete (broker_reason status data) \<and> reason_complete (transport_reason e st corr) \<and>
         reason_complete (unconfirmed_reason e corr) \<and> reason_complete (local_reason e evidence)"
proof -
  have "\<not> is_blank (code_from status nc)" for nc
    using code_from_cases[of status nc] code_ok_not_blank http_code_not_blank by metis
  moreover have "\<not> is_blank (''transport'')" "\<not> is_blank ''local''" "\<not> is_blank ''broker''" "\<not> is_blank ''unconfirmed''"
    by (simp_all add: is_blank_def is_space_def)
  ultimately show ?thesis
    using assms http_code_not_blank
    by (auto simp: reason_complete_def broker_reason_def transport_reason_def unconfirmed_reason_def
        local_reason_def Let_def split: option.split) (simp_all add: is_blank_def is_space_def)
qed

theorem built_reasons_complete_witness:
  "reason_complete (local_reason (value_error ''x'') local_evidence)"
  by (rule built_reasons_complete[THEN conjunct2, THEN conjunct2, THEN conjunct2])
     (simp_all add: is_blank_def is_space_def local_evidence_def)

text \<open>
  A summary is short and holds no run of twelve or more digits, so no account or card number
  echoed by the broker survives in it.
\<close>

theorem summary_redacts_numbers:
  assumes "summary_from text = u @ v @ w" "list_all is_digit v"
  shows "length v < 12 \<and> length (summary_from text) \<le> 200"
proof -
  have "runs_below 12 (summary_from text)"
    unfolding summary_from_def by (rule runs_take[OF scrub_runs])
  then have "length v < 12"
    using assms runs_window[of 12 u v w] by (cases "v = []") auto
  then show ?thesis by (simp add: summary_from_def)
qed

theorem summary_redacts_numbers_witness:
  "length ''42'' < 12 \<and> length (summary_from ''id 42'') \<le> 200"
proof (rule summary_redacts_numbers[of _ "''id ''" _ "[]"])
  show "summary_from ''id 42'' = ''id '' @ ''42'' @ []" by code_simp
  show "list_all is_digit ''42''" by code_simp
qed

text \<open>
  A broker reason depends on the two allowlisted fields of the body alone: nothing else the
  broker echoes can reach a record.
\<close>

theorem broker_reason_allowlist:
  assumes "map_of d ''errorMessage'' = map_of d' ''errorMessage''"
    and "map_of d ''nativeCode'' = map_of d' ''nativeCode''"
  shows "broker_reason status (Some d) = broker_reason status (Some d')"
  using assms by (simp add: broker_reason_def)

theorem broker_reason_allowlist_witness:
  "broker_reason 400 (Some [(''token'', J_text ''s''), (''nativeCode'', J_text ''E1'')])
   = broker_reason 400 (Some [(''nativeCode'', J_text ''E1'')])"
  by (rule broker_reason_allowlist) simp_all

end
