(* ===== verification/BrokerApi.thy ===== *)
theory BrokerApi
  imports Reasons
begin

text \<open>
  The broker as the program sees it: the rows its read endpoints return (models/), the outcome of a
  write, and the checks of a destination instrument shared by every dispatch path
  (capture/router.py). A broker is a record of answers: each read is a value or an exception, and
  \<open>ba_write\<close> is what the broker answers to an exact request.
\<close>

record instrument_row =
  in_symbol :: string
  in_price_precision :: "int option"
  in_volume_min :: "decimal option"
  in_volume_max :: "decimal option"
  in_volume_step :: "decimal option"
  in_close_only :: bool
  in_long_only :: bool

record order_row =
  od_id :: string
  od_symbol :: string
  od_side :: string
  od_type :: string
  od_volume :: decimal
  od_activation :: decimal
  od_stop_loss :: "decimal option"
  od_take_profit :: "decimal option"

text \<open>A row of \<open>open_positions\<close> is a position or a group of rows.\<close>

datatype position_tree = Position_row broker_position "position_tree list"

record operation =
  op_status :: "string option"
  op_order_id :: "string option"
  op_position_id :: "string option"

record broker_api =
  ba_instruments :: "instrument_row list res"
  ba_active_orders :: "order_row list res"
  ba_open_positions :: "position_tree list res"
  ba_closed_positions :: "closed_trade list res"
  ba_write :: "request \<Rightarrow> operation res"

definition operation_valid :: "operation \<Rightarrow> bool" where
  "operation_valid r \<longleftrightarrow> truthy (op_status r) \<or> truthy (op_order_id r) \<or> truthy (op_position_id r)"

fun flat_position :: "position_tree \<Rightarrow> broker_position list" where
  "flat_position (Position_row p gs) = (if gs = [] then [p] else concat (map flat_position gs))"

definition flat_positions :: "position_tree list \<Rightarrow> broker_position list" where
  "flat_positions gs = concat (map flat_position gs)"

subsection \<open>Instruments\<close>

definition instrument_info :: "instrument_row list res \<Rightarrow> string \<Rightarrow> instrument_row res" where
  "instrument_info rows symbol =
     bindE rows (\<lambda>is. case filter (\<lambda>i. in_symbol i = symbol) is of
       [i] \<Rightarrow> Inr i
     | _ \<Rightarrow> Inl (value_error ''Destination instrument is not uniquely available''))"

definition grid :: "int \<Rightarrow> decimal \<Rightarrow> decimal res" where
  "grid p v = (if deq v dzero then Inr v else quantize round_half_up v (quantum p))"

definition quantise_prices :: "instrument_row \<Rightarrow> capture_event \<Rightarrow> capture_event res" where
  "quantise_prices i e =
     (case in_price_precision i of
        None \<Rightarrow> Inr e
      | Some p \<Rightarrow>
          bindE (grid p (ev_price e)) (\<lambda>price.
          bindE (grid p (ev_sl e)) (\<lambda>sl.
          bindE (grid p (ev_tp e)) (\<lambda>tp.
            Inr (e\<lparr>ev_price := price, ev_sl := sl, ev_tp := tp\<rparr>)))))"

text \<open>
  \<open>Decimal(str(info[k]))\<close>: a limit the row does not carry is \<open>None\<close>, whose text is no decimal, and
  the conversion raises InvalidOperation.
\<close>

definition limit_of :: "decimal option \<Rightarrow> decimal res" where
  "limit_of d = of_option (decimal_error ''InvalidOperation'') d"

definition check_lots :: "instrument_row \<Rightarrow> decimal \<Rightarrow> unit res" where
  "check_lots i lots =
     bindE (limit_of (in_volume_min i)) (\<lambda>lo.
     bindE (limit_of (in_volume_max i)) (\<lambda>hi.
     bindE (limit_of (in_volume_step i)) (\<lambda>step.
       if dle step dzero \<or> \<not> (dle lo lots \<and> dle lots hi)
       then Inl (value_error ''Quantity violates destination lot limits/step'')
       else bindE (drem lots step) (\<lambda>r.
         if \<not> deq r dzero then Inl (value_error ''Quantity violates destination lot limits/step'')
         else Inr ()))))"

definition buy_brackets_wrong :: "decimal \<Rightarrow> decimal \<Rightarrow> decimal \<Rightarrow> bool" where
  "buy_brackets_wrong price sl tp \<longleftrightarrow> (dtrue sl \<and> dle price sl) \<or> (dtrue tp \<and> dle tp price)"

definition sell_brackets_wrong :: "decimal \<Rightarrow> decimal \<Rightarrow> decimal \<Rightarrow> bool" where
  "sell_brackets_wrong price sl tp \<longleftrightarrow> (dtrue sl \<and> dle sl price) \<or> (dtrue tp \<and> dle price tp)"

definition check_entry :: "capture_event \<Rightarrow> unit res" where
  "check_entry e =
     (if (ev_action e = A_CREATE \<or> ev_action e = A_EDIT) \<and> ev_order_type e \<noteq> ''MARKET''
      then if dle (ev_price e) dzero then Inl (value_error ''Pending entry must be positive'')
           else if ev_side e = ''BUY'' \<and> buy_brackets_wrong (ev_price e) (ev_sl e) (ev_tp e)
           then Inl (value_error ''BUY brackets are on the wrong side of entry'')
           else if ev_side e = ''SELL'' \<and> sell_brackets_wrong (ev_price e) (ev_sl e) (ev_tp e)
           then Inl (value_error ''SELL brackets are on the wrong side of entry'')
           else Inr ()
      else Inr ())"

definition validate_instrument ::
  "instrument_row list res \<Rightarrow> string \<Rightarrow> decimal \<Rightarrow> capture_event \<Rightarrow> capture_event res" where
  "validate_instrument rows symbol lots e =
     bindE (instrument_info rows symbol) (\<lambda>i.
     bindE (quantise_prices i e) (\<lambda>e1.
     bindE (check_lots i lots) (\<lambda>_.
       if in_close_only i \<and> ev_action e1 = A_CREATE
       then Inl (value_error ''Destination instrument is close-only'')
       else if in_long_only i \<and> ev_side e1 = ''SELL'' \<and> ev_action e1 = A_CREATE
       then Inl (value_error ''Destination instrument is long-only'')
       else bindE (check_entry e1) (\<lambda>_. Inr e1))))"

subsection \<open>What a validated order satisfies\<close>

definition on_grid :: "int \<Rightarrow> decimal \<Rightarrow> bool" where
  "on_grid p v \<longleftrightarrow> deq v dzero \<or> expo v = - p"

lemma grid_on_grid: "grid p v = Inr r \<Longrightarrow> on_grid p r"
  by (auto simp: grid_def on_grid_def quantum_def err_simps split: if_splits)

lemma grid_close:
  assumes "grid p v = Inr r"
  shows "\<bar>dval r - dval v\<bar> \<le> 10 powi (- p) / 2"
proof (cases "deq v dzero")
  case True
  with assms show ?thesis by (simp add: grid_def)
next
  case False
  with assms have "quantize round_half_up v (quantum p) = Inr r" by (simp add: grid_def)
  from quantize_half_up_bound(2)[OF this] show ?thesis by (simp add: quantum_def)
qed

lemma quantise_Inr:
  assumes "quantise_prices i e = Inr e1"
  obtains "in_price_precision i = None" "e1 = e"
  | p price sl tp where "in_price_precision i = Some p" "grid p (ev_price e) = Inr price"
      "grid p (ev_sl e) = Inr sl" "grid p (ev_tp e) = Inr tp"
      "e1 = e\<lparr>ev_price := price, ev_sl := sl, ev_tp := tp\<rparr>"
  using assms by (auto simp: quantise_prices_def err_simps split: option.splits)

lemma quantise_keeps:
  assumes "quantise_prices i e = Inr e1"
  shows "ev_action e1 = ev_action e" "ev_side e1 = ev_side e" "ev_order_type e1 = ev_order_type e"
    "ev_request_id e1 = ev_request_id e" "ev_emitted_at e1 = ev_emitted_at e" "ev_order_id e1 = ev_order_id e"
  using assms by (cases rule: quantise_Inr; simp)+

lemma check_lots_Inr:
  "check_lots i lots = Inr () \<longleftrightarrow>
     (\<exists>lo hi step r. in_volume_min i = Some lo \<and> in_volume_max i = Some hi \<and> in_volume_step i = Some step \<and>
        dval lo \<le> dval lots \<and> dval lots \<le> dval hi \<and> 0 < dval step \<and> drem lots step = Inr r \<and> dval r = 0)"
proof (cases "(in_volume_min i, in_volume_max i, in_volume_step i)")
  case (fields lo hi step)
  show ?thesis
  proof (cases "drem lots (the step)")
    case (Inl e)
    with fields show ?thesis by (cases lo; cases hi; cases step) (auto simp: check_lots_def limit_of_def dec_simps)
  next
    case (Inr r)
    with fields show ?thesis by (cases lo; cases hi; cases step) (auto simp: check_lots_def limit_of_def dec_simps)
  qed
qed

lemma instrument_info_Inr:
  assumes "instrument_info rows symbol = Inr i"
  obtains xs where "rows = Inr xs" "filter (\<lambda>i. in_symbol i = symbol) xs = [i]"
proof -
  from assms obtain xs where "rows = Inr xs"
    "(case filter (\<lambda>i. in_symbol i = symbol) xs of [i] \<Rightarrow> Inr i
      | _ \<Rightarrow> Inl (value_error ''Destination instrument is not uniquely available'')) = (Inr i :: instrument_row res)"
    by (auto simp: instrument_info_def err_simps)
  then show ?thesis using that
    by (cases "filter (\<lambda>i. in_symbol i = symbol) xs" rule: remdups_adj.cases) auto
qed

lemma validate_Inr:
  assumes "validate_instrument rows symbol lots e = Inr e1"
  obtains i where "instrument_info rows symbol = Inr i" "quantise_prices i e = Inr e1" "check_lots i lots = Inr ()"
    "in_close_only i \<longrightarrow> ev_action e \<noteq> A_CREATE"
    "in_long_only i \<longrightarrow> \<not> (ev_side e = ''SELL'' \<and> ev_action e = A_CREATE)" "check_entry e1 = Inr ()"
  using assms by (fastforce simp: validate_instrument_def err_simps quantise_keeps split: if_splits)

lemma validate_keeps:
  assumes "validate_instrument rows symbol lots e = Inr e1"
  shows "ev_action e1 = ev_action e" "ev_side e1 = ev_side e" "ev_order_type e1 = ev_order_type e"
    "ev_request_id e1 = ev_request_id e" "ev_emitted_at e1 = ev_emitted_at e" "ev_order_id e1 = ev_order_id e"
  by (rule validate_Inr[OF assms]; simp add: quantise_keeps)+

lemma check_entry_Inr:
  "check_entry e = Inr () \<longleftrightarrow>
     ((ev_action e = A_CREATE \<or> ev_action e = A_EDIT) \<and> ev_order_type e \<noteq> ''MARKET'' \<longrightarrow>
        0 < dval (ev_price e) \<and>
        (ev_side e = ''BUY'' \<longrightarrow> (dval (ev_sl e) \<noteq> 0 \<longrightarrow> dval (ev_sl e) < dval (ev_price e)) \<and>
                               (dval (ev_tp e) \<noteq> 0 \<longrightarrow> dval (ev_price e) < dval (ev_tp e))) \<and>
        (ev_side e = ''SELL'' \<longrightarrow> (dval (ev_sl e) \<noteq> 0 \<longrightarrow> dval (ev_price e) < dval (ev_sl e)) \<and>
                                (dval (ev_tp e) \<noteq> 0 \<longrightarrow> dval (ev_tp e) < dval (ev_price e))))"
  by (auto simp: check_entry_def buy_brackets_wrong_def sell_brackets_wrong_def dec_simps)

end
