(* ===== verification/StoreRuns.thy ===== *)
theory StoreRuns
  imports CaptureStore
begin

text \<open>
  The capture journal as a transition system: any sequence of the operations of capture/store.py
  and of the paper decisions of capture/manual_send.py, with restarts anywhere in it. A failing
  operation is a rolled-back transaction. The step also reports the attempt it granted, which is the
  licence to call the broker.
\<close>

datatype store_op =
    Record_op string int capture_event
  | Decision_op nat string string
  | Update_op string trade_update int
  | Claim_op string string "(string \<times> event_action \<times> string \<times> request) option" int
  | Finish_op string string attempt_state int
  | Reason_op string string nat string reason int
  | Positions_op string string int "broker_position list"
  | Closed_op string string int "closed_trade list"
  | Paper_op paper_send
  | Restart_op string int

definition committed :: "journal \<Rightarrow> journal res \<Rightarrow> journal" where
  "committed j r = (case r of Inr j' \<Rightarrow> j' | Inl _ \<Rightarrow> j)"

fun store_step ::
  "(capture_event \<Rightarrow> string) \<Rightarrow> store_op \<Rightarrow> journal \<Rightarrow> journal \<times> (string \<times> string) list" where
  "store_step digest (Record_op uid now e) j =
     (committed j (bindE (record_event digest uid now e j) (\<lambda>(_, j'). Inr j')), [])"
| "store_step digest (Decision_op s status why) j = (decision s status why j, [])"
| "store_step digest (Update_op i u now) j = (committed j (checked_update i u now j), [])"
| "store_step digest (Claim_op i k act now) j =
     (snd (claim i k act now j), if fst (claim i k act now j) then [(i, k)] else [])"
| "store_step digest (Finish_op i k s now) j = (committed j (finish i k s now j), [])"
| "store_step digest (Reason_op i k n outcome r now) j = (committed j (record_reason i k n outcome r now j), [])"
| "store_step digest (Positions_op i destination now ps) j = (observe_positions i destination now ps j, [])"
| "store_step digest (Closed_op i destination now cs) j = (observe_closed i destination now cs j, [])"
| "store_step digest (Paper_op row) j = (committed j (insert_paper row j), [])"
| "store_step digest (Restart_op broker now) j = (committed j (open_store broker now j), [])"

lemma committed_simps [simp]: "committed j (Inl e) = j" "committed j (Inr j') = j'"
  by (simp_all add: committed_def)

lemma committed_keeps: "(\<And>j'. r = Inr j' \<Longrightarrow> P j') \<Longrightarrow> P j \<Longrightarrow> P (committed j r)"
  by (simp add: committed_def split: sum.splits)

lemma same_core_fold: "(\<And>x i j. same_core i (f x j) = same_core i j) \<Longrightarrow> same_core i (fold f xs j) = same_core i j"
  by (induction xs arbitrary: j) auto

lemma attempts_observe [simp]:
  "j_attempts (observe_positions i d now ps j) = j_attempts j"
  "j_attempts (observe_closed i d now cs j) = j_attempts j"
  using same_coreD(3)[of j "observe_positions i d now ps j"] same_coreD(3)[of j "observe_closed i d now cs j"]
  by (simp_all add: observe_positions_def observe_closed_def same_core_fold observe_one_position_def
      observe_one_closed_def)

lemma attempts_migrate [simp]: "j_attempts (migrate_trade t j) = j_attempts j"
  by (simp add: migrate_trade_def Let_def link_def)

lemma attempts_open_ledger: "open_ledger b j = Inr j' \<Longrightarrow> j_attempts j' = j_attempts j"
  by (auto simp: open_ledger_def Let_def fold_frame[of j_attempts] split: if_splits)

lemma attempts_decision [simp]: "j_attempts (decision s status why j) = j_attempts j"
  by (simp add: decision_def notify_stream_def)

lemma claimed_by_attempts: "j_attempts j' = j_attempts j \<Longrightarrow> attempt_claimed j' k = attempt_claimed j k"
  by (simp add: attempt_claimed_def)

lemma attempts_insert_paper: "insert_paper row j = Inr j' \<Longrightarrow> j_attempts j' = j_attempts j"
  by (auto simp: insert_paper_def notify_stream_def split: if_splits)

lemma store_step_claimed:
  "attempt_claimed (fst (store_step digest a j)) k \<longleftrightarrow>
     attempt_claimed j k \<or> k \<in> set (snd (store_step digest a j))"
proof (cases a)
  case (Record_op uid now e)
  then show ?thesis
    by (cases "record_event digest uid now e j") (auto simp: claimed_by_attempts[OF attempts_record_event])
next
  case (Update_op i u now)
  then show ?thesis by (simp add: checked_update_def attempt_claimed_def)
next
  case (Finish_op i k' s now)
  then show ?thesis by (cases "finish i k' s now j") (simp_all add: claimed_finish)
next
  case (Reason_op i k' n outcome r now)
  then show ?thesis
    by (cases "record_reason i k' n outcome r now j") (auto simp: claimed_by_attempts[OF attempts_record_reason])
next
  case (Paper_op row)
  then show ?thesis
    by (cases "insert_paper row j") (auto simp: claimed_by_attempts[OF attempts_insert_paper])
next
  case (Restart_op broker now)
  then show ?thesis
    by (cases "open_ledger broker j")
       (auto simp: open_store_def claimed_by_attempts[OF attempts_open_ledger])
qed (auto simp: claim_attempts, simp_all add: attempt_claimed_def)

interpretation claims: claimed_writes "store_step digest" attempt_claimed for digest
proof
  fix a j k
  show "k \<in> set (snd (store_step digest a j)) \<Longrightarrow> \<not> attempt_claimed j k"
    by (cases a) (auto simp: claim_granted_iff split: if_splits)
  show "k \<in> set (snd (store_step digest a j)) \<Longrightarrow> attempt_claimed (fst (store_step digest a j)) k"
    by (simp add: store_step_claimed)
  show "distinct (snd (store_step digest a j))"
    by (cases a) auto
  show "attempt_claimed j k \<Longrightarrow> attempt_claimed (fst (store_step digest a j)) k"
    by (simp add: store_step_claimed)
qed

lemma store_step_wf: "journal_wf j \<Longrightarrow> journal_wf (fst (store_step digest a j))"
proof (cases a)
  case (Record_op uid now e)
  assume "journal_wf j"
  with Record_op show ?thesis
    by (cases "record_event digest uid now e j") (auto dest: wf_record_event)
next
  case (Update_op i u now)
  assume "journal_wf j"
  with Update_op show ?thesis by (simp add: checked_update_def)
next
  case (Finish_op i k' s now)
  assume "journal_wf j"
  with Finish_op show ?thesis by (cases "finish i k' s now j") (simp_all add: wf_finish)
next
  case (Reason_op i k' n outcome r now)
  assume "journal_wf j"
  with Reason_op show ?thesis by (cases "record_reason i k' n outcome r now j") (simp_all add: wf_record_reason)
next
  case (Paper_op row)
  assume "journal_wf j"
  with Paper_op show ?thesis by (cases "insert_paper row j") (auto dest: wf_insert_paper)
next
  case (Restart_op broker now)
  assume "journal_wf j"
  with Restart_op show ?thesis by (cases "open_ledger broker j") (simp_all add: open_store_def wf_open_ledger)
qed (simp_all add: wf_claim)

interpretation journal_runs: kept_invariant "\<lambda>a j. fst (store_step digest a j)" journal_wf for digest
  by unfold_locales (rule store_step_wf)

lemma run_emits_fst: "fst (run_emits step as s) = fold (\<lambda>a s. fst (step a s)) as s"
  by (induction as arbitrary: s) (simp_all add: Let_def split_beta)

subsection \<open>Properties\<close>

text \<open>
  Over any sequence of journal operations, restarts included, an attempt of a given trade and
  action is granted at most once, and never if it was on record at the start.
\<close>

theorem attempt_granted_once:
  "distinct (snd (run_emits (store_step digest) ops j)) \<and>
   {k. attempt_claimed j k} \<inter> set (snd (run_emits (store_step digest) ops j)) = {}"
  using claims.run_at_most_once claims.run_fresh by blast

lemma journal_wf_runs: "journal_wf (fst (run_emits (store_step digest) ops (empty_journal b)))"
  unfolding run_emits_fst by (rule journal_runs.run_inv) simp

text \<open>
  Once a new event is on record, an event with the same machine and id is answered from the
  record when its data is the same, and refused when it is not; neither changes the journal.
\<close>

theorem event_recorded_once:
  assumes "record_event digest uid now e j = Inr ((row, False), j')" "journal_wf j"
    and "event_key e' = event_key e"
  shows "record_event digest uid' now' e' j' =
     (if digest e' = digest e \<or> event_eq e e' then Inr ((row, True), j')
      else Inl (value_error ''Event ID reused with different data''))"
proof -
  have "er_payload row = e \<and> er_digest row = digest e"
    using assms(1) by (cases rule: record_event_cases) (auto dest: append_event_simps)
  with record_event_on_record(1)[OF assms(1,2)] assms(3) show ?thesis
    by (auto simp: record_event_def)
qed

definition sample_event :: capture_event where
  "sample_event =
     \<lparr>ev_schema = ''1.1.0'', ev_id = ''e1'', ev_machine = ''m'', ev_connection = ''c'', ev_account = ''a'', ev_order_id = ''o1'',
      ev_position_id = [], ev_execution_id = [], ev_request_id = ''r1'', ev_emitted_at = 0, ev_kind = K_ACCEPTED,
      ev_action = A_CREATE, ev_source = S_P01, ev_sending_source = [], ev_label = [], ev_status = [],
      ev_snapshot = False, ev_symbol = ''EURUSD'', ev_side = ''BUY'', ev_order_type = ''MARKET'',
      ev_quantity = Dec 1 0, ev_quantity_unit = ''native'', ev_fill_effect = F_UNKNOWN, ev_order_quantity = None,
      ev_cumulative = None, ev_remaining = None, ev_position_quantity = None, ev_price = Dec 0 0,
      ev_sl = Dec 0 0, ev_tp = Dec 0 0, ev_brackets_absolute = True\<rparr>"

theorem event_recorded_once_witness:
  "\<exists>row j'. record_event ev_symbol ''t1'' 0 sample_event (empty_journal ''B'') = Inr ((row, False), j') \<and>
     record_event ev_symbol ''t2'' 7 (sample_event\<lparr>ev_side := ''SELL'', ev_symbol := ''X''\<rparr>) j' =
       Inl (value_error ''Event ID reused with different data'')"
proof -
  have "\<exists>row j'. record_event ev_symbol ''t1'' 0 sample_event (empty_journal ''B'') = Inr ((row, False), j')"
    by (simp add: record_event_def empty_journal_def attach_trade_def known_trade_def trade_by_source_key_def
        sample_event_def apply_event_def source_event_def source_fill_def append_event_def Let_def)
  then obtain row j' where
    r: "record_event ev_symbol ''t1'' 0 sample_event (empty_journal ''B'') = Inr ((row, False), j')" by blast
  have "record_event ev_symbol ''t2'' 7 (sample_event\<lparr>ev_side := ''SELL'', ev_symbol := ''X''\<rparr>) j' =
       Inl (value_error ''Event ID reused with different data'')"
    by (subst event_recorded_once[OF r]) (simp_all add: event_key_def event_eq_def sample_event_def)
  with r show ?thesis by blast
qed

lemma open_ledger_actions:
  assumes "open_ledger b j = Inr j'"
  shows "list_all (\<lambda>h. ah_outcome h \<noteq> At_dispatching) (j_actions j')"
proof -
  have "list_all (\<lambda>h. ah_outcome h \<noteq> At_dispatching)
     (tupdate (\<lambda>a. ah_outcome a = At_dispatching) (\<lambda>a. a\<lparr>ah_outcome := At_uncertain\<rparr>) hs)" for hs
    by (induction hs) auto
  with assms show ?thesis by (auto simp: open_ledger_def Let_def split: if_splits)
qed

text \<open>
  C6: after a start nothing is in flight: no trade, attempt or history row is dispatching; every
  attempt that was is uncertain and has a recorded reason; no attempt is forgotten.
\<close>

theorem recovery_complete:
  assumes "open_store broker now j = Inr j'"
  shows "(\<forall>t \<in> set (j_trades j'). tr_state t \<noteq> Dispatching) \<and>
         (\<forall>a \<in> set (j_attempts j'). at_state a \<noteq> At_dispatching) \<and>
         (\<forall>h \<in> set (j_actions j'). ah_outcome h \<noteq> At_dispatching) \<and>
         map attempt_key (j_attempts j') = map attempt_key (j_attempts j) \<and>
         (\<forall>a \<in> set (j_attempts j). at_state a = At_dispatching \<longrightarrow>
            a\<lparr>at_state := At_uncertain\<rparr> \<in> set (j_attempts j') \<and>
            has_key reason_key (at_trade a, at_action a, Suc 0) (j_reasons j'))"
proof -
  from assms obtain j1 where j1: "open_ledger broker j = Inr j1" and j': "j' = recover now j1"
    by (auto simp: open_store_def err_simps)
  have same: "j_attempts j1 = j_attempts j" by (rule attempts_open_ledger[OF j1])
  have "\<forall>t \<in> set (j_trades j'). tr_state t \<noteq> Dispatching"
    by (auto simp: j' recover_trades set_tupdate)
  moreover have "\<forall>a \<in> set (j_attempts j'). at_state a \<noteq> At_dispatching"
    by (auto simp: j' recover_attempts set_tupdate)
  moreover have "\<forall>h \<in> set (j_actions j'). ah_outcome h \<noteq> At_dispatching"
    using open_ledger_actions[OF j1] by (auto simp: j' recover_actions list_all_iff)
  moreover have "map attempt_key (j_attempts j') = map attempt_key (j_attempts j)"
    by (simp add: j' recover_attempts tupdate_map_key attempt_key_def same)
  moreover have "\<forall>a \<in> set (j_attempts j). at_state a = At_dispatching \<longrightarrow>
            a\<lparr>at_state := At_uncertain\<rparr> \<in> set (j_attempts j') \<and>
            has_key reason_key (at_trade a, at_action a, Suc 0) (j_reasons j')"
    using recover_reasons[of _ j1 now] by (force simp: j' recover_attempts set_tupdate same)
  ultimately show ?thesis by blast
qed

theorem recovery_complete_witness:
  "\<exists>j'. open_store ''B'' 5 ((empty_journal ''B'')\<lparr>j_attempts := [\<lparr>at_trade = ''t'', at_action = ''CREATE'',
       at_state = At_dispatching\<rparr>]\<rparr>) = Inr j' \<and>
     has_key reason_key (''t'', ''CREATE'', Suc 0) (j_reasons j')"
proof -
  have "\<exists>j'. open_store ''B'' 5 ((empty_journal ''B'')\<lparr>j_attempts := [\<lparr>at_trade = ''t'', at_action = ''CREATE'',
       at_state = At_dispatching\<rparr>]\<rparr>) = Inr j'"
    by (simp add: open_store_def open_ledger_def empty_journal_def Let_def)
  then obtain j' where o: "open_store ''B'' 5 ((empty_journal ''B'')\<lparr>j_attempts := [\<lparr>at_trade = ''t'',
       at_action = ''CREATE'', at_state = At_dispatching\<rparr>]\<rparr>) = Inr j'" by blast
  with recovery_complete[OF o] show ?thesis by auto
qed

text \<open>
  An action on a position passes the guard only when each end of the copy has at most one
  position and every linked position belongs to this trade alone.
\<close>

theorem guarded_position_is_sole:
  assumes "guard_position j t = Inr ()"
  shows "length (ids j t l Position_link) \<le> 1 \<and>
         (\<forall>r \<in> set (position_links j t l). owners j l (lk_scope r) (lk_native r) = [t])"
  using guard_one_position[OF assms] guard_sole_owner[OF assms] by blast

theorem guarded_position_is_sole_witness:
  "length (ids (link ''t'' Source_leg [] Position_link ''p'' ''x'' 0 (empty_journal ''B'')) ''t'' Source_leg Position_link) \<le> 1"
proof -
  have "guard_position (link ''t'' Source_leg [] Position_link ''p'' ''x'' 0 (empty_journal ''B'')) ''t'' = Inr ()"
    by (simp add: guard_position_def guard_leg_def link_def empty_journal_def position_links_def owners_def
        insert_ignore_def Let_def)
  from guarded_position_is_sole[OF this, of Source_leg] show ?thesis by blast
qed

text \<open>
  An execution is recorded once: the same report in any decimal spelling changes nothing, and a
  report that differs in trade, order, position, effect, quantity or price is refused.
\<close>

theorem execution_recorded_once:
  assumes "fill t l scope x ord p q pr ef tm j = Inr j'"
  shows "fill t' l scope x ord' p' q' pr' ef' tm' j' =
     (if t' = t \<and> ord' = ord \<and> p' = p \<and> ef' = ef \<and> deq q q' \<and> deq pr pr' then Inr j'
      else Inl (value_error ''Execution ID reused with conflicting fill data''))"
  using fill_again[OF assms] fill_conflict[OF assms] by auto

theorem execution_recorded_once_witness:
  "\<exists>j'. fill ''t'' Source_leg [] ''x'' ''o'' ''p'' (Dec 10 (-1)) (Dec 5 0) F_OPEN 0 (empty_journal ''B'') = Inr j' \<and>
     fill ''t'' Source_leg [] ''x'' ''o'' ''p'' (Dec 1 0) (Dec 5 0) F_OPEN 9 j' = Inr j' \<and>
     fill ''t'' Source_leg [] ''x'' ''o'' ''p'' (Dec 2 0) (Dec 5 0) F_OPEN 9 j'
       = Inl (value_error ''Execution ID reused with conflicting fill data'')"
proof -
  have "\<exists>j'. fill ''t'' Source_leg [] ''x'' ''o'' ''p'' (Dec 10 (-1)) (Dec 5 0) F_OPEN 0 (empty_journal ''B'') = Inr j'"
    by (simp add: fill_def empty_journal_def Let_def)
  then obtain j' where
    f: "fill ''t'' Source_leg [] ''x'' ''o'' ''p'' (Dec 10 (-1)) (Dec 5 0) F_OPEN 0 (empty_journal ''B'') = Inr j'" by blast
  have "deq (Dec 10 (-1)) (Dec 1 0)" "\<not> deq (Dec 10 (-1)) (Dec 2 0)" by code_simp+
  then show ?thesis using f by (auto simp: execution_recorded_once[OF f] dec_simps)
qed

text \<open>
  Broker evidence moves one way. For every observation on record, a later report never replaces
  a recorded broker open time, never moves the clock of the row back, and changes no snapshot
  column when it is older than the row.
\<close>

theorem broker_evidence_kept:
  assumes "journal_wf j" "r \<in> set (j_dobs j)"
  shows "\<exists>r' \<in> set (j_dobs (observe_destination d j)). dobs_key r' = dobs_key r \<and>
     do_open_time r' = coalesce (do_open_time r) (do_open_time r') \<and>
     do_open_millis r' = coalesce (do_open_millis r) (do_open_millis r') \<and>
     do_first_seen r' = do_first_seen r \<and> do_at r \<le> do_at r' \<and>
     (do_at d < do_at r \<longrightarrow> do_volume r' = do_volume r \<and> do_close_time r' = do_close_time r \<and> do_at r' = do_at r)"
proof (rule observe_destination_row[OF assms, of d])
  fix r' assume "r' \<in> set (j_dobs (observe_destination d j))" "dobs_key r' = dobs_key r"
    "do_open_time r \<noteq> None \<Longrightarrow> do_open_time r' = do_open_time r"
    "do_open_millis r \<noteq> None \<Longrightarrow> do_open_millis r' = do_open_millis r"
    "do_first_seen r' = do_first_seen r" "do_at r \<le> do_at r'"
    "do_at d < do_at r \<Longrightarrow> do_volume r' = do_volume r \<and> do_close_time r' = do_close_time r \<and> do_at r' = do_at r"
  then show ?thesis
    by (intro bexI[of _ r']) (auto simp: coalesce_def split: option.splits)
qed

definition sample_observation :: destination_observation where
  "sample_observation =
     \<lparr>do_trade = ''t'', do_scope = [''B'', ''A''], do_position = ''p'', do_reader = ''open_positions'',
      do_execution = ''p'', do_order_id = None, do_symbol = ''S'', do_side = ''BUY'', do_volume = Some (Dec 1 0),
      do_open_price = None, do_open_time = Some ''2024'', do_open_millis = None, do_close_time = None,
      do_close_reason = None, do_first_seen = 3, do_at = 3\<rparr>"

theorem broker_evidence_kept_witness:
  "\<exists>r' \<in> set (j_dobs (observe_destination (sample_observation\<lparr>do_at := 1, do_volume := None\<rparr>)
        ((empty_journal ''B'')\<lparr>j_dobs := [sample_observation]\<rparr>))). do_volume r' = Some (Dec 1 0)"
proof -
  let ?j = "(empty_journal ''B'')\<lparr>j_dobs := [sample_observation]\<rparr>"
  have "journal_wf ?j" by (simp add: journal_wf_def empty_journal_def unique_key_def)
  from broker_evidence_kept[OF this, of sample_observation "sample_observation\<lparr>do_at := 1, do_volume := None\<rparr>"]
  show ?thesis by (auto simp: sample_observation_def)
qed

end
