(* ===== verification/Router.thy ===== *)
theory Router
  imports BrokerApi StoreRuns
begin

text \<open>
  Serialized, at-most-once dispatch (capture/router.py). One \<open>receive\<close> runs under the router's
  lock. Its result is the response, the journal and the writes it sent, each under its attempt. The
  broker is the argument \<open>api\<close>; \<open>router_env\<close> carries the clock and the local faults a run may meet
  after the broker confirmed a write.
\<close>

record router =
  rt_armed :: bool
  rt_route :: "route_config option"
  rt_armed_at :: "int option"
  rt_demo_verified :: bool

text \<open>
  \<open>en_accept_fault\<close>: persisting a confirmed write raises, before (\<open>False\<close>) or after (\<open>True\<close>) the
  update of the trade was committed. \<open>en_failure_fault\<close>: the update in \<open>record_failure\<close> raises.
\<close>

record router_env =
  en_now :: int
  en_accept_fault :: "(bool \<times> exn) option"
  en_failure_fault :: "exn option"

type_synonym write_log = "((string \<times> string) \<times> request) list"

definition action_key :: "capture_event \<Rightarrow> string" where
  "action_key e = (if ev_action e = A_CREATE then ''CREATE'' else action_name (ev_action e) @ '':'' @ ev_request_id e)"

subsection \<open>Landing a failed write\<close>

definition structured_reason :: "exn \<Rightarrow> reason option" where
  "structured_reason e =
     (case exn_reason e of
        Some r \<Rightarrow> if rs_origin r \<noteq> [] \<and> rs_code r \<noteq> [] \<and> rs_evidence r \<noteq> [] then Some r else None
      | None \<Rightarrow> None)"

definition failure_reason :: "string \<Rightarrow> string \<Rightarrow> exn \<Rightarrow> reason" where
  "failure_reason i k e =
     (case structured_reason e of
        Some r \<Rightarrow> r
      | None \<Rightarrow> unconfirmed_reason e (''trade '' @ i @ '' action '' @ k))"

definition note_failure :: "string \<Rightarrow> string \<Rightarrow> exn \<Rightarrow> int \<Rightarrow> journal \<Rightarrow> journal" where
  "note_failure i k e now j =
     (case record_reason i k 1 ''uncertain'' (failure_reason i k e) now j of Inr j' \<Rightarrow> j' | Inl _ \<Rightarrow> j)"

definition failure_text :: string where
  "failure_text = ''Write outcome requires broker reconciliation; not retried''"

definition record_failure ::
  "exn option \<Rightarrow> string \<Rightarrow> string \<Rightarrow> exn \<Rightarrow> int \<Rightarrow> journal \<Rightarrow> (string \<times> string) res \<times> journal" where
  "record_failure fault i k e now j =
     (let j1 = note_failure i k e now j
      in case fault of
           Some x \<Rightarrow> (Inl x, j1)
         | None \<Rightarrow>
             (let j2 = store_update i (no_update\<lparr>up_state := Some Uncertain\<rparr>) now j1
              in case finish i k At_uncertain now j2 of
                   Inl x \<Rightarrow> (Inl x, j2)
                 | Inr j3 \<Rightarrow> (Inr (''uncertain'', failure_text), j3)))"

subsection \<open>Guards before anything is read or written\<close>

definition arming_guards :: "router \<Rightarrow> int \<Rightarrow> bool \<Rightarrow> string \<Rightarrow> capture_event \<Rightarrow> route_config res" where
  "arming_guards rt now linked destination e =
     (case rt_route rt of
        None \<Rightarrow> Inl (value_error ''Copying is not armed with a verified demo destination'')
      | Some r \<Rightarrow>
          if \<not> rt_armed rt \<or> \<not> rt_demo_verified rt \<or> \<not> linked
          then Inl (value_error ''Copying is not armed with a verified demo destination'')
          else if destination \<noteq> rc_destination_account r
          then Inl (value_error ''Selected destination does not match route'')
          else if ev_snapshot e \<or> \<not> (-5000000 \<le> now - ev_emitted_at e \<and> now - ev_emitted_at e \<le> 30000000)
          then Inl (value_error ''Snapshot or expired event; never replay old trades'')
          else if (case rt_armed_at rt of Some a \<Rightarrow> ev_emitted_at e < a | None \<Rightarrow> False)
          then Inl (value_error ''Event predates enabling copying; never replay the off period'')
          else Inr r)"

definition trade_guards :: "string \<Rightarrow> capture_event \<Rightarrow> trade \<Rightarrow> unit res" where
  "trade_guards destination e t =
     (if (case tr_last_event_at t of Some a \<Rightarrow> ev_emitted_at e < a | None \<Rightarrow> False)
      then Inl (value_error ''Out-of-order action predates the latest dispatched action'')
      else if blocked_state (tr_state t)
      then Inl (value_error ''Trade is resolved or needs reconciliation; no automatic retry'')
      else if tr_destination t \<noteq> [] \<and> tr_destination t \<noteq> destination
      then Inl (value_error ''Trade already belongs to another destination'')
      else if ev_action e = A_CREATE \<and> (tr_broker_order_id t \<noteq> [] \<or> tr_broker_position_id t \<noteq> [])
      then Inl (value_error ''Trade already has a destination order'')
      else if ev_action e \<noteq> A_CREATE \<and> tr_broker_order_id t = [] \<and> tr_broker_position_id t = []
      then Inl (value_error ''No confirmed destination mapping for this source trade'')
      else if \<not> ev_brackets_absolute e
      then Inl (value_error ''Offset brackets require an explicit absolute-price conversion'')
      else if ev_order_type e \<notin> {''MARKET'', ''LIMIT'', ''STOP''}
      then Inl (value_error ''Unsupported order type; stop-limit is not silently converted'')
      else if ev_side e \<notin> {''BUY'', ''SELL''}
      then Inl (value_error ''Missing side'')
      else Inr ())"

text \<open>The event with the trade's original attribution: lifecycle actions follow it.\<close>

definition routed_event :: "capture_event \<Rightarrow> trade \<Rightarrow> capture_event" where
  "routed_event e t = (if ev_action e = A_CREATE then e else e\<lparr>ev_source := tr_source t\<rparr>)"

definition sized_event ::
  "broker_api \<Rightarrow> symbol_route \<Rightarrow> capture_event \<Rightarrow> (decimal \<times> capture_event) res" where
  "sized_event api m e =
     (let lots = dmul (ev_quantity e) (sr_multiplier m)
      in if ev_action e \<noteq> A_CANCEL \<and> ev_action e \<noteq> A_OBSERVE
         then if dle lots dzero \<or> dlt (sr_max_lots m) lots
              then Inl (value_error ''Converted quantity is outside route limit'')
              else bindE (validate_instrument (ba_instruments api) (sr_destination m) lots e)
                     (\<lambda>e1. Inr (lots, e1))
         else Inr (lots, e))"

record prepared =
  pr_trade :: trade
  pr_lots :: decimal
  pr_event :: capture_event
  pr_symbol :: string

definition preflight ::
  "router \<Rightarrow> int \<Rightarrow> broker_api option \<Rightarrow> string \<Rightarrow> string option \<Rightarrow> capture_event \<Rightarrow> journal \<Rightarrow> (broker_api \<times> prepared) res" where
  "preflight rt now api destination identity e j =
     bindE (arming_guards rt now (api \<noteq> None) destination e) (\<lambda>r.
       if \<not> truthy identity \<or> ev_request_id e = []
       then Inl (value_error ''Missing source trade/request identity'')
       else
         bindE (of_option (Exn ''TypeError'' '''NoneType' object is not subscriptable'' None) (find_trade j (opt_str identity))) (\<lambda>t.
         bindE (route_match r (routed_event e t)) (\<lambda>m.
         bindE (trade_guards destination e t) (\<lambda>_.
         bindE (of_option (value_error ''Copying is not armed with a verified demo destination'') api) (\<lambda>a.
         bindE (sized_event a m e) (\<lambda>(lots, e1).
           Inr (a, \<lparr>pr_trade = t, pr_lots = lots, pr_event = e1, pr_symbol = sr_destination m\<rparr>)))))))"

subsection \<open>The exact request\<close>

definition base_request :: "string \<Rightarrow> prepared \<Rightarrow> request" where
  "base_request verb p =
     \<lparr>rq_method = verb, rq_instrument = pr_symbol p, rq_side = ev_side (pr_event p), rq_id = [], rq_type = [],
      rq_volume = None, rq_price = None, rq_sl = None, rq_tp = None\<rparr>"

definition create_request :: "prepared \<Rightarrow> request" where
  "create_request p =
     (let e = pr_event p;
          r = (base_request ''open_position'' p)\<lparr>rq_volume := Some (pr_lots p), rq_sl := Some (ev_sl e), rq_tp := Some (ev_tp e)\<rparr>
      in if ev_order_type e = ''MARKET'' then r
         else r\<lparr>rq_method := ''create_pending_order'', rq_type := ev_order_type e, rq_price := Some (ev_price e)\<rparr>)"

text \<open>Only exact relationships given by the broker relate a position to a trade.\<close>

definition related_positions :: "prepared \<Rightarrow> broker_position list \<Rightarrow> broker_position list" where
  "related_positions p ps =
     (let t = pr_trade p in
      filter (\<lambda>b. bp_symbol b = pr_symbol p \<and> bp_side b = ev_side (pr_event p))
        (filter (\<lambda>b. (tr_broker_position_id t \<noteq> [] \<and> bp_id b = tr_broker_position_id t) \<or>
                     (tr_broker_order_id t \<noteq> [] \<and> bp_order_id b = Some (tr_broker_order_id t))) ps))"

definition pending_order :: "order_row list \<Rightarrow> string \<Rightarrow> order_row option" where
  "pending_order os i = find (\<lambda>r. od_id r = i) (rev os)"

definition follow_request ::
  "prepared \<Rightarrow> order_row list \<Rightarrow> broker_position list \<Rightarrow> journal \<Rightarrow> request res" where
  "follow_request p os related j =
     (let e = pr_event p; t = pr_trade p; pending = pending_order os (tr_broker_order_id t) in
      if ev_action e = A_CANCEL
      then (case pending of
              None \<Rightarrow> Inl (value_error ''Mapped pending order is absent; reconcile fill/cancel before acting'')
            | Some o' \<Rightarrow> Inr ((base_request ''cancel_pending_order'' p)
                \<lparr>rq_id := tr_broker_order_id t, rq_type := od_type o'\<rparr>))
      else if ev_action e = A_EDIT \<and> pending \<noteq> None \<and> ev_order_id e \<noteq> []
      then Inr ((base_request ''edit_pending_order'' p)
             \<lparr>rq_id := tr_broker_order_id t, rq_type := (case pending of Some o' \<Rightarrow> od_type o' | None \<Rightarrow> []),
              rq_volume := Some (pr_lots p), rq_price := Some (ev_price e), rq_sl := Some (ev_sl e),
              rq_tp := Some (ev_tp e)\<rparr>)
      else (case related of
              [b] \<Rightarrow>
                bindE (guard_position j (tr_id t)) (\<lambda>_.
                  if ev_action e = A_CLOSE
                  then if dlt (bp_volume b) (pr_lots p)
                       then Inl (value_error ''Close exceeds mapped destination position'')
                       else Inr ((base_request (if deq (pr_lots p) (bp_volume b) then ''close_position'' else ''partial_close'') p)
                              \<lparr>rq_id := bp_id b, rq_volume := Some (pr_lots p)\<rparr>)
                  else if \<not> deq (pr_lots p) (bp_volume b)
                  then Inl (value_error ''Position edit cannot change volume; use partial close'')
                  else Inr ((base_request ''edit_position'' p)
                         \<lparr>rq_id := bp_id b, rq_volume := Some (pr_lots p), rq_sl := Some (ev_sl e),
                          rq_tp := Some (ev_tp e)\<rparr>))
            | _ \<Rightarrow> Inl (value_error ''No unambiguous open-position mapping; manual reconciliation required'')))"

text \<open>What the later steps need from the reads: the related positions and the pending orders.\<close>

record broker_view =
  bv_related :: "broker_position list"
  bv_pending :: "order_row list"

definition read_broker :: "broker_api \<Rightarrow> prepared \<Rightarrow> broker_view res" where
  "read_broker api p =
     (if tr_symbol (pr_trade p) \<noteq> pr_symbol p \<or> tr_side (pr_trade p) \<noteq> ev_side (pr_event p)
      then Inl (value_error ''Source edit does not match mapped instrument/side'')
      else bindE (ba_active_orders api) (\<lambda>os.
           bindE (ba_open_positions api) (\<lambda>gs.
             Inr \<lparr>bv_related = related_positions p (flat_positions gs), bv_pending = os\<rparr>)))"

definition learn_positions :: "string \<Rightarrow> prepared \<Rightarrow> broker_view \<Rightarrow> int \<Rightarrow> journal \<Rightarrow> journal" where
  "learn_positions destination p v now j =
     (let i = tr_id (pr_trade p); j1 = observe_positions i destination now (bv_related v) j
      in case bv_related v of
           [b] \<Rightarrow> store_update i (no_update\<lparr>up_broker_position := Some (bp_id b)\<rparr>) now j1
         | _ \<Rightarrow> j1)"

text \<open>Building the request; what was read about the positions is recorded even if it is then refused.\<close>

definition build_request ::
  "broker_api \<Rightarrow> string \<Rightarrow> prepared \<Rightarrow> int \<Rightarrow> journal \<Rightarrow> (request \<times> broker_view) res \<times> journal" where
  "build_request api destination p now j =
     (if ev_action (pr_event p) = A_CREATE
      then (Inr (create_request p, \<lparr>bv_related = [], bv_pending = []\<rparr>), j)
      else case read_broker api p of
             Inl x \<Rightarrow> (Inl x, j)
           | Inr v \<Rightarrow> (let j1 = learn_positions destination p v now j
                       in (bindE (follow_request p (bv_pending v) (bv_related v) j1) (\<lambda>r. Inr (r, v)), j1)))"

subsection \<open>The write and its outcome\<close>

definition unverified :: "string \<Rightarrow> exn" where
  "unverified m = (let e = Exn ''RuntimeError'' m None in Exn ''RuntimeError'' m (Some (local_reason e local_evidence)))"

definition opened_state :: "capture_event \<Rightarrow> trade_state" where
  "opened_state e = (if ev_order_type e \<noteq> ''MARKET'' then Pending else Opened)"

text \<open>\<open>values\<close>: the update a confirmed write makes, or the exception when the answer proves nothing.\<close>

definition confirmed_update :: "prepared \<Rightarrow> broker_view \<Rightarrow> operation \<Rightarrow> int \<Rightarrow> journal \<Rightarrow> trade_update res" where
  "confirmed_update p v r now j =
     (let e = pr_event p; t = pr_trade p; pending = (pending_order (bv_pending v) (tr_broker_order_id t) \<noteq> None);
          base = no_update\<lparr>up_state := Some (opened_state e)\<rparr>;
          ended = no_update\<lparr>up_state := Some Resolved, up_resolved_at := Some now\<rparr>
      in if truthy (op_status r) \<and> op_status r \<noteq> Some ''OK'' then Inl (unverified ''Unrecognized broker status'')
         else if (ev_action e = A_CANCEL \<or> ev_action e = A_CLOSE) \<and> op_status r \<noteq> Some ''OK''
         then Inl (unverified ''Explicit completion status required'')
         else if ev_action e = A_CREATE
         then if \<not> truthy (op_order_id r) \<and> \<not> truthy (op_position_id r)
              then Inl (unverified ''Broker identity missing after submission'')
              else Inr (base\<lparr>up_broker_order := Some (opt_str (op_order_id r)),
                            up_broker_position := (if truthy (op_position_id r) then op_position_id r else None)\<rparr>)
         else if ev_action e = A_CANCEL
         then if bv_related v \<noteq> [] \<or> ids j (tr_id t) Destination_leg Position_link \<noteq> []
              then Inr (base\<lparr>up_state := Some Opened\<rparr>)
              else Inr ended
         else if ev_action e = A_CLOSE
         then (let full = (case bv_related v of b # _ \<Rightarrow> deq (pr_lots p) (bp_volume b) | [] \<Rightarrow> False)
               in if full \<and> \<not> pending then Inr ended
                  else Inr (base\<lparr>up_state := Some (if pending \<and> full then Pending else Opened)\<rparr>))
         else Inr base)"

definition persistence_error :: "exn \<Rightarrow> exn" where
  "persistence_error e =
     (if exn_reason e \<noteq> None then e
      else Exn (exn_type e) (exn_msg e)
             (Some (local_reason e ''broker accepted the write; local persistence of the accepted state failed'')))"

definition persist_accepted ::
  "(bool \<times> exn) option \<Rightarrow> string \<Rightarrow> string \<Rightarrow> trade_update \<Rightarrow> int \<Rightarrow> journal \<Rightarrow> unit res \<times> journal" where
  "persist_accepted fault i k u now j =
     (case fault of
        Some (False, x) \<Rightarrow> (Inl (persistence_error x), j)
      | Some (True, x) \<Rightarrow> (Inl (persistence_error x), store_update i u now j)
      | None \<Rightarrow> (let j1 = store_update i u now j
                 in case finish i k At_accepted now j1 of
                      Inl x \<Rightarrow> (Inl (persistence_error x), j1)
                    | Inr j2 \<Rightarrow> (Inr (), j2)))"

definition dispatch_update :: "string \<Rightarrow> prepared \<Rightarrow> trade_update" where
  "dispatch_update destination p =
     (let e = pr_event p in
      no_update\<lparr>up_destination := Some destination, up_symbol := Some (pr_symbol p), up_side := Some (ev_side e),
        up_lots := Some (if ev_action e = A_CREATE \<or> ev_action e = A_EDIT then Some (pr_lots p) else tr_lots (pr_trade p)),
        up_order_type := Some (ev_order_type e), up_last_request := Some (ev_request_id e),
        up_last_event_at := Some (ev_emitted_at e)\<rparr>)"

definition write_and_land ::
  "router_env \<Rightarrow> broker_api \<Rightarrow> prepared \<Rightarrow> broker_view \<Rightarrow> request \<Rightarrow> string \<Rightarrow> journal
    \<Rightarrow> (string \<times> string) res \<times> journal" where
  "write_and_land env api p v req k j =
     (let i = tr_id (pr_trade p); now = en_now env
      in case bindE (ba_write api req) (\<lambda>r. confirmed_update p v r now j) of
           Inl x \<Rightarrow> record_failure (en_failure_fault env) i k x now j
         | Inr u \<Rightarrow>
             (case persist_accepted (en_accept_fault env) i k u now j of
                (Inl x, j1) \<Rightarrow> record_failure (en_failure_fault env) i k x now j1
              | (Inr _, j1) \<Rightarrow> (Inr (''accepted'', ''Broker accepted the mapped action''), j1)))"

definition dispatch ::
  "router_env \<Rightarrow> router \<Rightarrow> broker_api option \<Rightarrow> string \<Rightarrow> string option \<Rightarrow> capture_event \<Rightarrow> journal
    \<Rightarrow> (string \<times> string) res \<times> journal \<times> write_log" where
  "dispatch env rt api destination identity e j =
     (case preflight rt (en_now env) api destination identity e j of
        Inl x \<Rightarrow> (Inl x, j, [])
      | Inr (a, p) \<Rightarrow>
          (case build_request a destination p (en_now env) j of
             (Inl x, j1) \<Rightarrow> (Inl x, j1, [])
           | (Inr (req, v), j1) \<Rightarrow>
               (let i = tr_id (pr_trade p); k = action_key e;
                    (granted, j2) = claim i k (Some (ev_request_id e, ev_action e, destination, req)) (en_now env) j1
                in if \<not> granted
                   then (Inl (value_error ''Action already attempted; it will not be sent again''), j2, [])
                   else (let j3 = store_update i (dispatch_update destination p) (en_now env) j2;
                             (res, j4) = write_and_land env a p v req k j3
                         in (res, j4, [((i, k), req)])))))"

subsection \<open>Receiving an event\<close>

record response =
  rp_event :: string
  rp_trade :: "string option"
  rp_status :: string
  rp_reason :: string
  rp_order :: string
  rp_position :: string
  rp_duplicate :: bool

definition executable :: "capture_event \<Rightarrow> bool" where
  "executable e \<longleftrightarrow> ev_kind e = K_ACCEPTED \<and> ev_action e \<noteq> A_OBSERVE"

definition row_trade :: "event_row \<Rightarrow> journal \<Rightarrow> trade option" where
  "row_trade row j = (if truthy (er_trade row) then find_trade j (opt_str (er_trade row)) else None)"

definition respond :: "capture_event \<Rightarrow> event_row \<Rightarrow> string \<Rightarrow> string \<Rightarrow> bool \<Rightarrow> journal \<Rightarrow> response" where
  "respond e row status why dup j =
     (let t = row_trade row j in
      \<lparr>rp_event = ev_id e, rp_trade = er_trade row, rp_status = status, rp_reason = why,
       rp_order = (case t of Some x \<Rightarrow> tr_broker_order_id x | None \<Rightarrow> []),
       rp_position = (case t of Some x \<Rightarrow> tr_broker_position_id x | None \<Rightarrow> []), rp_duplicate = dup\<rparr>)"

text \<open>A repeated event: recover the evidence of a prior attempt, never repeat the write.\<close>

definition recover_decision :: "capture_event \<Rightarrow> event_row \<Rightarrow> bool \<Rightarrow> journal \<Rightarrow> event_row" where
  "recover_decision e row uncertain j =
     (let prior = (case er_trade row of None \<Rightarrow> None | Some i \<Rightarrow> map_option at_state (find_attempt j i (action_key e)))
      in row\<lparr>er_decision :=
               (if uncertain \<or> prior = Some At_dispatching \<or> prior = Some At_uncertain then ''uncertain''
                else if prior = Some At_accepted then ''accepted'' else ''held''),
             er_reason := (if prior \<noteq> None then ''Recovered prior attempt; no replay''
                           else ''Prior event processing incomplete; no automatic replay'')\<rparr>)"

definition answer_duplicate :: "capture_event \<Rightarrow> event_row \<Rightarrow> journal \<Rightarrow> response \<times> journal" where
  "answer_duplicate e row j =
     (let uncertain = (case row_trade row j of Some t \<Rightarrow> tr_state t = Uncertain \<or> tr_state t = Dispatching | None \<Rightarrow> False);
          undecided = (er_decision row = ''captured'' \<and> executable e);
          row1 = (if undecided then recover_decision e row uncertain j else row);
          j1 = (if undecided then decision (er_seq row) (er_decision row1) (er_reason row1) j else j)
      in (respond e row (if uncertain then ''uncertain'' else er_decision row1)
            (if uncertain then ''Prior dispatch needs reconciliation'' else er_reason row1) True j, j1))"

definition outcome_of :: "(string \<times> string) res \<Rightarrow> string \<times> string" where
  "outcome_of r =
     (case r of
        Inr x \<Rightarrow> x
      | Inl e \<Rightarrow> if is_value_error e then (''held'', exn_msg e)
                 else (''held'', ''Preflight read failed; no broker write attempted''))"

definition answer_new ::
  "router_env \<Rightarrow> router \<Rightarrow> broker_api option \<Rightarrow> string \<Rightarrow> capture_event \<Rightarrow> event_row \<Rightarrow> journal
    \<Rightarrow> response \<times> journal \<times> write_log" where
  "answer_new env rt api destination e row j =
     (let (res, j1, ws) =
            (if executable e then dispatch env rt api destination (er_trade row) e j
             else (Inr (''captured'', ''Native observation; no broker action''), j, []));
          (status, why) = outcome_of res;
          j2 = decision (er_seq row) status why j1
      in (respond e row status why False j2, j2, ws))"

definition receive ::
  "router_env \<Rightarrow> (capture_event \<Rightarrow> string) \<Rightarrow> string \<Rightarrow> router \<Rightarrow> broker_api option \<Rightarrow> string \<Rightarrow> capture_event
    \<Rightarrow> journal \<Rightarrow> response res \<times> journal \<times> write_log" where
  "receive env digest uid rt api destination e j =
     (case record_event digest uid (en_now env) e j of
        Inl x \<Rightarrow> (Inl x, j, [])
      | Inr ((row, True), j1) \<Rightarrow> (let (r, j2) = answer_duplicate e row j1 in (Inr r, j2, []))
      | Inr ((row, False), j1) \<Rightarrow>
          (let (r, j2, ws) = answer_new env rt api destination e row j1 in (Inr r, j2, ws)))"

subsection \<open>Claims over one receive\<close>

lemma claimed_note_failure [simp]: "attempt_claimed (note_failure i k e now j) x = attempt_claimed j x"
  by (auto simp: note_failure_def attempt_claimed_def dest: attempts_record_reason split: sum.splits)

lemma claimed_store_update [simp]: "attempt_claimed (store_update i u now j) x = attempt_claimed j x"
  by (simp add: attempt_claimed_def)

lemma claimed_decision [simp]: "attempt_claimed (decision s st why j) x = attempt_claimed j x"
  by (simp add: attempt_claimed_def)

lemma claimed_record_failure:
  "attempt_claimed (snd (record_failure fault i k e now j)) x = attempt_claimed j x"
  by (auto simp: record_failure_def Let_def claimed_finish split: option.splits sum.splits)

lemma claimed_persist: "attempt_claimed (snd (persist_accepted fault i k u now j)) x = attempt_claimed j x"
  by (auto simp: persist_accepted_def Let_def claimed_finish split: option.splits sum.splits bool.splits)

lemma claimed_write_and_land:
  "attempt_claimed (snd (write_and_land env api p v req k j)) x = attempt_claimed j x"
proof (cases "bindE (ba_write api req) (\<lambda>r. confirmed_update p v r (en_now env) j)")
  case (Inl e)
  then show ?thesis by (simp add: write_and_land_def Let_def claimed_record_failure)
next
  case (Inr u)
  obtain r j1 where p: "persist_accepted (en_accept_fault env) (tr_id (pr_trade p)) k u (en_now env) j = (r, j1)"
    by (cases "persist_accepted (en_accept_fault env) (tr_id (pr_trade p)) k u (en_now env) j")
  then have "attempt_claimed j1 x = attempt_claimed j x" using claimed_persist by (metis snd_conv)
  with Inr p show ?thesis
    by (cases r) (simp_all add: write_and_land_def Let_def claimed_record_failure)
qed

lemma attempts_learn [simp]: "j_attempts (learn_positions destination p v now j) = j_attempts j"
  by (simp add: learn_positions_def Let_def split: list.splits)

lemma attempts_build: "j_attempts (snd (build_request api destination p now j)) = j_attempts j"
  by (auto simp: build_request_def Let_def split: sum.splits)

text \<open>One write is sent only after its attempt, not on record before, was claimed.\<close>

lemma dispatch_cases:
  obtains (refused) x j1 where "dispatch env rt api destination identity e j = (Inl x, j1, [])"
      "j_attempts j1 = j_attempts j"
  | (written) a p req v j1 j2 res j4 where
      "preflight rt (en_now env) api destination identity e j = Inr (a, p)"
      "build_request a destination p (en_now env) j = (Inr (req, v), j1)"
      "claim (tr_id (pr_trade p)) (action_key e) (Some (ev_request_id e, ev_action e, destination, req)) (en_now env) j1
        = (True, j2)"
      "write_and_land env a p v req (action_key e)
         (store_update (tr_id (pr_trade p)) (dispatch_update destination p) (en_now env) j2) = (res, j4)"
      "dispatch env rt api destination identity e j = (res, j4, [((tr_id (pr_trade p), action_key e), req)])"
proof (cases "preflight rt (en_now env) api destination identity e j")
  case (Inl x)
  then show ?thesis using refused[of x j] by (simp add: dispatch_def)
next
  case pre: (Inr ap)
  obtain a p where ap: "ap = (a, p)" by (cases ap)
  obtain b j1 where b: "build_request a destination p (en_now env) j = (b, j1)"
    by (cases "build_request a destination p (en_now env) j")
  then have j1: "j_attempts j1 = j_attempts j" using attempts_build by (metis snd_conv)
  show ?thesis
  proof (cases b)
    case (Inl x)
    then show ?thesis using refused[of x j1] pre ap b j1 by (simp add: dispatch_def)
  next
    case (Inr rv)
    obtain req v where rv: "rv = (req, v)" by (cases rv)
    let ?act = "Some (ev_request_id e, ev_action e, destination, req)"
    obtain g j2 where c: "claim (tr_id (pr_trade p)) (action_key e) ?act (en_now env) j1 = (g, j2)"
      by (cases "claim (tr_id (pr_trade p)) (action_key e) ?act (en_now env) j1")
    show ?thesis
    proof (cases g)
      case False
      then have "j2 = j1" using claim_refused[of "tr_id (pr_trade p)" "action_key e" ?act "en_now env" j1] c by simp
      with False show ?thesis using refused[of _ j2] pre ap b Inr rv c j1 by (simp add: dispatch_def Let_def)
    next
      case True
      obtain res j4 where w: "write_and_land env a p v req (action_key e)
         (store_update (tr_id (pr_trade p)) (dispatch_update destination p) (en_now env) j2) = (res, j4)"
        by (cases "write_and_land env a p v req (action_key e)
         (store_update (tr_id (pr_trade p)) (dispatch_update destination p) (en_now env) j2)")
      show ?thesis
        by (rule written[of a p req v j1 j2 res j4]) (use pre ap b Inr rv c True w in \<open>simp_all add: dispatch_def Let_def\<close>)
    qed
  qed
qed

lemma dispatch_claimed:
  assumes "dispatch env rt api destination identity e j = (res, j', ws)"
  shows "attempt_claimed j' k \<longleftrightarrow> attempt_claimed j k \<or> k \<in> set (map fst ws)"
    and "k \<in> set (map fst ws) \<Longrightarrow> \<not> attempt_claimed j k" and "distinct (map fst ws)"
proof -
  have "(attempt_claimed j' k \<longleftrightarrow> attempt_claimed j k \<or> k \<in> set (map fst ws)) \<and>
        (k \<in> set (map fst ws) \<longrightarrow> \<not> attempt_claimed j k) \<and> distinct (map fst ws)"
  proof (cases rule: dispatch_cases[of env rt api destination identity e j])
    case (refused x j1)
    with assms show ?thesis by (simp add: attempt_claimed_def)
  next
    case (written a p req v j1 j2 res' j4)
    have j1: "attempt_claimed j1 y = attempt_claimed j y" for y
      using attempts_build[of a destination p "en_now env" j] written(2) by (simp add: attempt_claimed_def)
    have j2: "attempt_claimed j2 y \<longleftrightarrow> attempt_claimed j1 y \<or> y = (tr_id (pr_trade p), action_key e)" for y
      using claim_attempts[of "tr_id (pr_trade p)" "action_key e" _ "en_now env" j1 y] written(3)
      by (metis fst_conv snd_conv)
    have fresh: "\<not> attempt_claimed j1 (tr_id (pr_trade p), action_key e)"
      using claim_granted_iff[of "tr_id (pr_trade p)" "action_key e" _ "en_now env" j1] written(3)
      by (metis fst_conv)
    have j4: "attempt_claimed j4 y = attempt_claimed j2 y" for y
      using claimed_write_and_land[of env a p v req "action_key e" _ y] written(4)
      by (metis claimed_store_update snd_conv)
    from assms written(5) have "j' = j4" "ws = [((tr_id (pr_trade p), action_key e), req)]" by simp_all
    then show ?thesis using j1 j2 j4 fresh by auto
  qed
  then show "attempt_claimed j' k \<longleftrightarrow> attempt_claimed j k \<or> k \<in> set (map fst ws)"
    and "k \<in> set (map fst ws) \<Longrightarrow> \<not> attempt_claimed j k" and "distinct (map fst ws)" by auto
qed

lemma answer_duplicate_attempts: "j_attempts (snd (answer_duplicate e row j)) = j_attempts j"
  by (auto simp: answer_duplicate_def Let_def)

lemma receive_claimed:
  assumes "receive env digest uid rt api destination e j = (r, j', ws)"
  shows "attempt_claimed j' k \<longleftrightarrow> attempt_claimed j k \<or> k \<in> set (map fst ws)"
    and "k \<in> set (map fst ws) \<Longrightarrow> \<not> attempt_claimed j k" and "distinct (map fst ws)"
proof -
  have "(attempt_claimed j' k \<longleftrightarrow> attempt_claimed j k \<or> k \<in> set (map fst ws)) \<and>
        (k \<in> set (map fst ws) \<longrightarrow> \<not> attempt_claimed j k) \<and> distinct (map fst ws)"
  proof (cases "record_event digest uid (en_now env) e j")
    case (Inl x)
    with assms show ?thesis by (simp add: receive_def)
  next
    case (Inr rec)
    obtain row dup j1 where rec: "rec = ((row, dup), j1)" by (metis prod.exhaust)
    have j1: "j_attempts j1 = j_attempts j" using attempts_record_event[of digest uid "en_now env" e j "(row, dup)" j1] Inr rec by simp
    show ?thesis
    proof (cases dup)
      case True
      with assms Inr rec have "j' = snd (answer_duplicate e row j1)" "ws = []"
        by (auto simp: receive_def split: prod.splits)
      then show ?thesis using answer_duplicate_attempts j1 by (simp add: attempt_claimed_def)
    next
      case False
      obtain res j2 w where d: "(if executable e then dispatch env rt api destination (er_trade row) e j1
             else (Inr (''captured'', ''Native observation; no broker action''), j1, [])) = (res, j2, w)"
        by (metis prod.exhaust)
      have "attempt_claimed j' k = attempt_claimed j2 k" "ws = w"
        using assms Inr rec False d by (auto simp: receive_def answer_new_def Let_def split: prod.splits)
      moreover have "(attempt_claimed j2 k \<longleftrightarrow> attempt_claimed j1 k \<or> k \<in> set (map fst w)) \<and>
        (k \<in> set (map fst w) \<longrightarrow> \<not> attempt_claimed j1 k) \<and> distinct (map fst w)"
      proof (cases "executable e")
        case True
        then have "dispatch env rt api destination (er_trade row) e j1 = (res, j2, w)" using d by simp
        from dispatch_claimed[OF this] show ?thesis by auto
      next
        case False
        then show ?thesis using d by simp
      qed
      ultimately show ?thesis using j1 by (simp add: attempt_claimed_def)
    qed
  qed
  then show "attempt_claimed j' k \<longleftrightarrow> attempt_claimed j k \<or> k \<in> set (map fst ws)"
    and "k \<in> set (map fst ws) \<Longrightarrow> \<not> attempt_claimed j k" and "distinct (map fst ws)" by auto
qed

subsection \<open>Runs\<close>

text \<open>
  A run of the router: events delivered under any router state, broker and faults, with restarts of
  the process between them. The step reports the attempts whose write was sent.
\<close>

datatype router_input =
    Deliver router_env string router "broker_api option" string capture_event
  | Restart string int

fun router_step ::
  "(capture_event \<Rightarrow> string) \<Rightarrow> router_input \<Rightarrow> journal \<Rightarrow> journal \<times> (string \<times> string) list" where
  "router_step digest (Deliver env uid rt api destination e) j =
     (case receive env digest uid rt api destination e j of (_, j', ws) \<Rightarrow> (j', map fst ws))"
| "router_step digest (Restart broker now) j = (committed j (open_store broker now j), [])"

lemma claimed_open_store: "open_store b now j = Inr j' \<Longrightarrow> attempt_claimed j' k = attempt_claimed j k"
  by (auto simp: open_store_def err_simps attempts_open_ledger claimed_by_attempts[OF attempts_open_ledger])

lemma router_step_claimed:
  "attempt_claimed (fst (router_step digest a j)) k \<longleftrightarrow> attempt_claimed j k \<or> k \<in> set (snd (router_step digest a j))"
  "k \<in> set (snd (router_step digest a j)) \<Longrightarrow> \<not> attempt_claimed j k"
  "distinct (snd (router_step digest a j))"
proof -
  have "(attempt_claimed (fst (router_step digest a j)) k \<longleftrightarrow> attempt_claimed j k \<or> k \<in> set (snd (router_step digest a j))) \<and>
    (k \<in> set (snd (router_step digest a j)) \<longrightarrow> \<not> attempt_claimed j k) \<and> distinct (snd (router_step digest a j))"
  proof (cases a)
    case (Deliver env uid rt api destination e)
    obtain r j' ws where r: "receive env digest uid rt api destination e j = (r, j', ws)" by (metis prod.exhaust)
    then show ?thesis using receive_claimed[OF r] Deliver by simp
  next
    case (Restart broker now)
    then show ?thesis by (cases "open_store broker now j") (simp_all add: claimed_open_store)
  qed
  then show "attempt_claimed (fst (router_step digest a j)) k \<longleftrightarrow> attempt_claimed j k \<or> k \<in> set (snd (router_step digest a j))"
    "k \<in> set (snd (router_step digest a j)) \<Longrightarrow> \<not> attempt_claimed j k"
    "distinct (snd (router_step digest a j))" by auto
qed

interpretation router_runs: claimed_writes "router_step digest" attempt_claimed for digest
  by unfold_locales (use router_step_claimed in blast)+

subsection \<open>What a write proves about its event\<close>

lemma arming_guards_Inr [err_simps]:
  "arming_guards rt now linked destination e = Inr r \<longleftrightarrow>
     rt_route rt = Some r \<and> rt_armed rt \<and> rt_demo_verified rt \<and> linked \<and> destination = rc_destination_account r \<and>
     \<not> ev_snapshot e \<and> -5000000 \<le> now - ev_emitted_at e \<and> now - ev_emitted_at e \<le> 30000000 \<and>
     (\<forall>a. rt_armed_at rt = Some a \<longrightarrow> a \<le> ev_emitted_at e)"
  by (auto simp: arming_guards_def split: option.splits)

lemma trade_guards_Inr [err_simps]:
  "trade_guards destination e t = Inr u \<longleftrightarrow>
     (\<forall>a. tr_last_event_at t = Some a \<longrightarrow> a \<le> ev_emitted_at e) \<and> \<not> blocked_state (tr_state t) \<and>
     (tr_destination t = [] \<or> tr_destination t = destination) \<and>
     (ev_action e = A_CREATE \<longrightarrow> tr_broker_order_id t = [] \<and> tr_broker_position_id t = []) \<and>
     (ev_action e \<noteq> A_CREATE \<longrightarrow> tr_broker_order_id t \<noteq> [] \<or> tr_broker_position_id t \<noteq> []) \<and>
     ev_brackets_absolute e \<and> ev_order_type e \<in> {''MARKET'', ''LIMIT'', ''STOP''} \<and> ev_side e \<in> {''BUY'', ''SELL''}"
  by (auto simp: trade_guards_def split: option.splits)

lemma sized_Inr:
  assumes "sized_event a m e = Inr (lots, e1)"
  shows "lots = dmul (ev_quantity e) (sr_multiplier m)" and
    "ev_action e = A_CREATE \<or> ev_action e = A_EDIT \<or> ev_action e = A_CLOSE \<Longrightarrow>
       0 < dval lots \<and> dval lots \<le> dval (sr_max_lots m) \<and>
       validate_instrument (ba_instruments a) (sr_destination m) lots e = Inr e1" and
    "ev_action e1 = ev_action e" "ev_order_type e1 = ev_order_type e" "ev_side e1 = ev_side e" "ev_order_id e1 = ev_order_id e"
proof -
  show "lots = dmul (ev_quantity e) (sr_multiplier m)"
    using assms by (auto simp: sized_event_def Let_def err_simps split: if_splits)
  show "ev_action e = A_CREATE \<or> ev_action e = A_EDIT \<or> ev_action e = A_CLOSE \<Longrightarrow>
       0 < dval lots \<and> dval lots \<le> dval (sr_max_lots m) \<and>
       validate_instrument (ba_instruments a) (sr_destination m) lots e = Inr e1"
    using assms by (auto simp: sized_event_def Let_def err_simps dec_simps split: if_splits)
  show "ev_action e1 = ev_action e" "ev_order_type e1 = ev_order_type e" "ev_side e1 = ev_side e" "ev_order_id e1 = ev_order_id e"
    using assms by (auto simp: sized_event_def Let_def err_simps validate_keeps split: if_splits)
qed

lemma preflight_Inr:
  assumes "preflight rt now api destination identity e j = Inr (a, p)"
  obtains r m where "arming_guards rt now (api \<noteq> None) destination e = Inr r" "api = Some a" "truthy identity"
    "ev_request_id e \<noteq> []" "find_trade j (opt_str identity) = Some (pr_trade p)"
    "route_match r (routed_event e (pr_trade p)) = Inr m"
    "trade_guards destination e (pr_trade p) = Inr ()"
    "sized_event a m e = Inr (pr_lots p, pr_event p)" "pr_symbol p = sr_destination m"
proof -
  from assms obtain r t m lots e1 where
    "arming_guards rt now (api \<noteq> None) destination e = Inr r" "truthy identity \<and> ev_request_id e \<noteq> []"
    "find_trade j (opt_str identity) = Some t" "route_match r (routed_event e t) = Inr m"
    "trade_guards destination e t = Inr ()" "api = Some a" "sized_event a m e = Inr (lots, e1)"
    "p = \<lparr>pr_trade = t, pr_lots = lots, pr_event = e1, pr_symbol = sr_destination m\<rparr>"
    unfolding preflight_def bindE_Inr of_option_Inr by (auto simp del: guard_position_Inr simp: bindE_Inr of_option_Inr split: if_splits)
  then show ?thesis by (intro that[of r m]) auto
qed

lemma receive_writes:
  assumes "receive env digest uid rt api destination e j = (r, j', ws)" "w \<in> set ws"
  obtains row j1 res j2 where "record_event digest uid (en_now env) e j = Inr ((row, False), j1)" "executable e"
    "dispatch env rt api destination (er_trade row) e j1 = (res, j2, ws)"
    "j' = decision (er_seq row) (fst (outcome_of res)) (snd (outcome_of res)) j2"
    "r = Inr (respond e row (fst (outcome_of res)) (snd (outcome_of res)) False j')"
proof (cases "record_event digest uid (en_now env) e j")
  case (Inl x)
  with assms show ?thesis by (simp add: receive_def)
next
  case (Inr rec)
  obtain row dup j1 where rec: "rec = ((row, dup), j1)" by (metis prod.exhaust)
  show ?thesis
  proof (cases "\<not> dup \<and> executable e")
    case True
    obtain res j2 w' where d: "dispatch env rt api destination (er_trade row) e j1 = (res, j2, w')" by (metis prod.exhaust)
    then show ?thesis
      using that[of row j1 res j2] assms Inr rec True
      by (auto simp: receive_def answer_new_def Let_def split: prod.splits)
  next
    case False
    with assms Inr rec show ?thesis
      by (cases dup) (auto simp: receive_def answer_new_def Let_def split: prod.splits)
  qed
qed

end
