(* ===== verification/RouterProps.thy ===== *)
theory RouterProps
  imports Router
begin

text \<open>The properties of the router (capture/router.py) over the definitions of theory Router.\<close>

text \<open>
  Over any run of deliveries and restarts, whatever the router state, the broker and the local
  faults, at most one write is sent for each attempt of a trade; in particular a trade is created
  at most once, and an attempt on record at the start is never sent.
\<close>

theorem writes_at_most_once:
  "distinct (snd (run_emits (router_step digest) ins j)) \<and>
   {k. attempt_claimed j k} \<inter> set (snd (run_emits (router_step digest) ins j)) = {}"
  using router_runs.run_at_most_once router_runs.run_fresh by blast

text \<open>
  What a change of an existing order or position is checked against: the trade's own instrument and side; the
  pending order the broker lists under the trade's order id, or else the one open position the broker relates
  to the trade, on the evidence of its ids alone, sole on its side of the ledger, and large enough to close or
  of the edited volume.
\<close>

definition acts_on_own ::
  "broker_api \<Rightarrow> string \<Rightarrow> int \<Rightarrow> capture_event \<Rightarrow> trade \<Rightarrow> decimal \<Rightarrow> request \<Rightarrow> journal \<Rightarrow> bool" where
  "acts_on_own a destination now e t lots q j \<longleftrightarrow>
     tr_symbol t = rq_instrument q \<and> tr_side t = ev_side e \<and>
     (\<exists>os gs. ba_active_orders a = Inr os \<and> ba_open_positions a = Inr gs \<and>
        (let listed = (\<exists>o' \<in> set os. od_id o' = tr_broker_order_id t);
             related = filter (\<lambda>b. bp_symbol b = rq_instrument q \<and> bp_side b = ev_side e \<and>
               (tr_broker_position_id t \<noteq> [] \<and> bp_id b = tr_broker_position_id t \<or>
                tr_broker_order_id t \<noteq> [] \<and> bp_order_id b = Some (tr_broker_order_id t))) (flat_positions gs)
         in if ev_action e = A_CANCEL \<or> ev_action e = A_EDIT \<and> listed \<and> ev_order_id e \<noteq> []
            then listed \<and> rq_id q = tr_broker_order_id t
            else \<exists>b. related = [b] \<and> rq_id q = bp_id b \<and>
              guard_position (store_update (tr_id t) (no_update\<lparr>up_broker_position := Some (bp_id b)\<rparr>) now
                (observe_positions (tr_id t) destination now [b] j)) (tr_id t) = Inr () \<and>
              (if ev_action e = A_CLOSE then dval lots \<le> dval (bp_volume b) else dval lots = dval (bp_volume b))))"

lemma pending_listed: "pending_order os i = None \<longleftrightarrow> \<not> (\<exists>o' \<in> set os. od_id o' = i)"
  by (auto simp: pending_order_def find_None_iff)

lemma follow_acts_on_own:
  assumes "build_request a destination p now j = (Inr (q, v), j1)" "ev_action e = ev_action (pr_event p)" "ev_action e \<noteq> A_CREATE"
    "ev_side e = ev_side (pr_event p)" "ev_order_id e = ev_order_id (pr_event p)"
  shows "acts_on_own a destination now e (pr_trade p) (pr_lots p) q j"
proof -
  obtain os gs where r: "tr_symbol (pr_trade p) = pr_symbol p" "tr_side (pr_trade p) = ev_side (pr_event p)"
    "ba_active_orders a = Inr os" "ba_open_positions a = Inr gs"
    "v = \<lparr>bv_related = related_positions p (flat_positions gs), bv_pending = os\<rparr>"
    "j1 = learn_positions destination p v now j" "follow_request p os (bv_related v) j1 = Inr q"
    using assms(1-3) by (auto simp: build_request_def read_broker_def Let_def err_simps split: sum.splits if_splits)
  have q: "rq_instrument q = pr_symbol p"
    using r(7) by (auto simp: follow_request_def base_request_def Let_def bindE_Inr split: if_splits option.splits list.splits)
  have rel: "bv_related v = filter (\<lambda>b. bp_symbol b = rq_instrument q \<and> bp_side b = ev_side e \<and>
       (tr_broker_position_id (pr_trade p) \<noteq> [] \<and> bp_id b = tr_broker_position_id (pr_trade p) \<or>
        tr_broker_order_id (pr_trade p) \<noteq> [] \<and> bp_order_id b = Some (tr_broker_order_id (pr_trade p)))) (flat_positions gs)"
    by (auto simp: r(5) related_positions_def q assms(4) Let_def intro!: filter_cong)
  show ?thesis
  proof (cases "ev_action e = A_CANCEL \<or> ev_action e = A_EDIT \<and> pending_order os (tr_broker_order_id (pr_trade p)) \<noteq> None \<and> ev_order_id e \<noteq> []")
    case True
    then have "pending_order os (tr_broker_order_id (pr_trade p)) \<noteq> None \<and> rq_id q = tr_broker_order_id (pr_trade p)"
      using r(7) assms(2,5) by (auto simp: follow_request_def base_request_def Let_def split: option.splits)
    with True show ?thesis using r(1-4) q assms(4) by (auto simp: acts_on_own_def Let_def pending_listed)
  next
    case False
    then obtain b where b: "bv_related v = [b]" "guard_position j1 (tr_id (pr_trade p)) = Inr ()" "rq_id q = bp_id b"
      "if ev_action e = A_CLOSE then dval (pr_lots p) \<le> dval (bp_volume b) else dval (pr_lots p) = dval (bp_volume b)"
      using r(7) assms(2,5)
      by (auto simp: follow_request_def base_request_def Let_def bindE_Inr dec_simps split: if_splits option.splits list.splits)
    have j1: "j1 = store_update (tr_id (pr_trade p)) (no_update\<lparr>up_broker_position := Some (bp_id b)\<rparr>) now
        (observe_positions (tr_id (pr_trade p)) destination now [b] j)"
      by (simp add: r(6) learn_positions_def b(1) Let_def)
    have changes: "\<not> (ev_action e = A_CANCEL \<or>
        ev_action e = A_EDIT \<and> (\<exists>o' \<in> set os. od_id o' = tr_broker_order_id (pr_trade p)) \<and> ev_order_id e \<noteq> [])"
      using False by (simp add: pending_listed)
    show ?thesis
      unfolding acts_on_own_def Let_def
    proof (intro conjI exI[of _ os] exI[of _ gs], goal_cases)
      case 5
      show ?case unfolding if_not_P[OF changes] rel[symmetric] b(1) by (intro exI[of _ b]) (use b(2-4) j1 in simp)
    qed (use r(1-4) q assms(4) in simp_all)
  qed
qed

text \<open>
  C2: a write proves all its guards. Copying was armed on a verified destination that the route selects; the
  event was recorded as new, is an accepted action, live, not a snapshot, in its window of 5 seconds ahead to
  30 behind, and not older than the arming; it names a request; its machine, connection, account, symbol and
  attribution (the trade's own when it is not a creation) are routed. The trade on record is the one it is
  linked to; it is not resolved, uncertain or in flight, is not behind its latest action and belongs to no
  other destination; it has no destination order when it is created and has one when it is changed. Brackets
  are absolute, type and side supported, the attempt was never claimed before and is claimed now, and the
  converted quantity is positive and within the route's limit. What changes an order or a position acts on
  the trade's own.
\<close>

theorem write_passes_guards:
  assumes "receive env digest uid rt api destination e j = (r, j', ws)" "w \<in> set ws"
  shows "rt_armed rt \<and> rt_demo_verified rt \<and> ev_kind e = K_ACCEPTED \<and> ev_action e \<noteq> A_OBSERVE \<and>
     \<not> ev_snapshot e \<and> en_now env - ev_emitted_at e \<le> 30000000 \<and> ev_emitted_at e - en_now env \<le> 5000000 \<and>
     (\<forall>a. rt_armed_at rt = Some a \<longrightarrow> a \<le> ev_emitted_at e) \<and> ev_request_id e \<noteq> [] \<and>
     ev_brackets_absolute e \<and> ev_order_type e \<in> {''MARKET'', ''LIMIT'', ''STOP''} \<and> ev_side e \<in> {''BUY'', ''SELL''} \<and>
     \<not> attempt_claimed j (fst w) \<and> attempt_claimed j' (fst w) \<and>
     (\<exists>route m a row j1 t. rt_route rt = Some route \<and> destination = rc_destination_account route \<and> api = Some a \<and>
        record_event digest uid (en_now env) e j = Inr ((row, False), j1) \<and>
        er_trade row = Some (tr_id t) \<and> find_trade j1 (tr_id t) = Some t \<and>
        fst w = (tr_id t, if ev_action e = A_CREATE then ''CREATE'' else action_name (ev_action e) @ '':'' @ ev_request_id e) \<and>
        ev_scope e = [rc_machine route, rc_connection route, rc_account route] \<and>
        (if ev_action e = A_CREATE then ev_source e else tr_source t) \<in> set (rc_sources route) \<and>
        map_of (rc_symbols route) (ev_symbol e) = Some m \<and> rq_instrument (snd w) = sr_destination m \<and>
        (\<forall>x. tr_last_event_at t = Some x \<longrightarrow> x \<le> ev_emitted_at e) \<and>
        tr_state t \<notin> {Dispatching, Uncertain, Resolved} \<and> tr_destination t \<in> {[], destination} \<and>
        (ev_action e = A_CREATE \<longleftrightarrow> tr_broker_order_id t = [] \<and> tr_broker_position_id t = []) \<and>
        (ev_action e \<noteq> A_CANCEL \<longrightarrow> 0 < dval (dmul (ev_quantity e) (sr_multiplier m)) \<and>
           dval (dmul (ev_quantity e) (sr_multiplier m)) \<le> dval (sr_max_lots m)) \<and>
        (ev_action e \<noteq> A_CREATE \<longrightarrow>
           acts_on_own a destination (en_now env) e t (dmul (ev_quantity e) (sr_multiplier m)) (snd w) j1))"
proof -
  obtain row j1 res j2 where rec: "record_event digest uid (en_now env) e j = Inr ((row, False), j1)" "executable e"
    "dispatch env rt api destination (er_trade row) e j1 = (res, j2, ws)"
    by (rule receive_writes[OF assms]) blast
  have claims: "\<not> attempt_claimed j (fst w)" "attempt_claimed j' (fst w)"
    using receive_claimed(1,2)[OF assms(1), of "fst w"] assms(2) by auto
  show ?thesis
  proof (cases rule: dispatch_cases[of env rt api destination "er_trade row" e j1])
    case (refused x j3)
    with rec assms(2) show ?thesis by simp
  next
    case (written a p req v j3 j4 res' j5)
    obtain route m where pre: "arming_guards rt (en_now env) (api \<noteq> None) destination e = Inr route" "api = Some a"
      "truthy (er_trade row)" "ev_request_id e \<noteq> []" "find_trade j1 (opt_str (er_trade row)) = Some (pr_trade p)"
      "route_match route (routed_event e (pr_trade p)) = Inr m" "trade_guards destination e (pr_trade p) = Inr ()"
      "sized_event a m e = Inr (pr_lots p, pr_event p)" "pr_symbol p = sr_destination m"
      by (rule preflight_Inr[OF written(1)]) blast
    have "ws = [((tr_id (pr_trade p), action_key e), req)]" using rec(3) written(5) by simp
    with assms(2) have w: "w = ((tr_id (pr_trade p), action_key e), req)" by simp
    have own: "er_trade row = Some (tr_id (pr_trade p))" "find_trade j1 (tr_id (pr_trade p)) = Some (pr_trade p)"
      using pre(3,5) find_trade_mem[OF pre(5)] by (cases "er_trade row"; simp add: truthy_def)+
    have inst: "rq_instrument req = pr_symbol p"
      using written(2)
      by (auto simp: build_request_def create_request_def follow_request_def base_request_def Let_def bindE_Inr
          split: if_splits sum.splits option.splits list.splits)
    have scope: "ev_scope (routed_event e t) = ev_scope e" "ev_symbol (routed_event e t) = ev_symbol e"
      "ev_source (routed_event e t) = (if ev_action e = A_CREATE then ev_source e else tr_source t)" for t
      by (auto simp: routed_event_def ev_scope_def)
    have lots: "pr_lots p = dmul (ev_quantity e) (sr_multiplier m)" by (rule sized_Inr(1)[OF pre(8)])
    have "acts_on_own a destination (en_now env) e (pr_trade p) (dmul (ev_quantity e) (sr_multiplier m)) req j1" if "ev_action e \<noteq> A_CREATE"
      unfolding lots[symmetric]
      by (rule follow_acts_on_own[OF written(2) _ that]) (simp_all add: sized_Inr(3-)[OF pre(8)])
    moreover have "ev_action e \<noteq> A_CANCEL \<longrightarrow> 0 < dval (dmul (ev_quantity e) (sr_multiplier m)) \<and>
           dval (dmul (ev_quantity e) (sr_multiplier m)) \<le> dval (sr_max_lots m)"
      using sized_Inr(1,2)[OF pre(8)] rec(2) by (cases "ev_action e") (auto simp: executable_def)
    moreover have "tr_state (pr_trade p) \<notin> {Dispatching, Uncertain, Resolved} \<and> tr_destination (pr_trade p) \<in> {[], destination} \<and>
        (ev_action e = A_CREATE \<longleftrightarrow> tr_broker_order_id (pr_trade p) = [] \<and> tr_broker_position_id (pr_trade p) = [])"
      using pre(7) by (auto simp: trade_guards_Inr blocked_state_def)
    moreover have "ev_brackets_absolute e \<and> ev_order_type e \<in> {''MARKET'', ''LIMIT'', ''STOP''} \<and> ev_side e \<in> {''BUY'', ''SELL''} \<and>
        (\<forall>x. tr_last_event_at (pr_trade p) = Some x \<longrightarrow> x \<le> ev_emitted_at e)"
      using pre(7) unfolding trade_guards_Inr by blast
    moreover have "rt_armed rt \<and> rt_demo_verified rt \<and> rt_route rt = Some route \<and> destination = rc_destination_account route \<and>
        \<not> ev_snapshot e \<and> en_now env - ev_emitted_at e \<le> 30000000 \<and> ev_emitted_at e - en_now env \<le> 5000000 \<and>
        (\<forall>a. rt_armed_at rt = Some a \<longrightarrow> a \<le> ev_emitted_at e)"
      using pre(1) by (auto simp: arming_guards_Inr)
    moreover have "ev_kind e = K_ACCEPTED \<and> ev_action e \<noteq> A_OBSERVE" using rec(2) by (simp add: executable_def)
    moreover have "ev_scope e = [rc_machine route, rc_connection route, rc_account route] \<and>
        (if ev_action e = A_CREATE then ev_source e else tr_source (pr_trade p)) \<in> set (rc_sources route) \<and>
        map_of (rc_symbols route) (ev_symbol e) = Some m"
      using pre(6) by (simp only: route_match_Inr scope)
    moreover have "fst w = (tr_id (pr_trade p), if ev_action e = A_CREATE then ''CREATE'' else action_name (ev_action e) @ '':'' @ ev_request_id e)"
      by (simp add: w action_key_def)
    moreover have "rq_instrument (snd w) = sr_destination m" "snd w = req" using inst pre(9) by (simp_all add: w)
    ultimately show ?thesis
      using claims own pre(2,4) rec(1)
      by (intro conjI exI[of _ route] exI[of _ m] exI[of _ a] exI[of _ row] exI[of _ j1] exI[of _ "pr_trade p"]) simp_all
  qed
qed

text \<open>What the destination's terms ask of an order.\<close>

definition order_on_terms :: "instrument_row \<Rightarrow> request \<Rightarrow> bool" where
  "order_on_terms i q \<longleftrightarrow>
     (\<exists>lo hi step lots rem. in_volume_min i = Some lo \<and> in_volume_max i = Some hi \<and> in_volume_step i = Some step \<and>
        rq_volume q = Some lots \<and> dval lo \<le> dval lots \<and> dval lots \<le> dval hi \<and> drem lots step = Inr rem \<and> dval rem = 0) \<and>
     \<not> in_close_only i \<and> (in_long_only i \<longrightarrow> rq_side q \<noteq> ''SELL'') \<and>
     (\<exists>sl tp. rq_sl q = Some sl \<and> rq_tp q = Some tp \<and>
        (\<forall>g. in_price_precision i = Some g \<longrightarrow> on_grid g sl \<and> on_grid g tp) \<and>
        (rq_method q = ''create_pending_order'' \<longrightarrow>
           (\<exists>price. rq_price q = Some price \<and> 0 < dval price \<and>
              (\<forall>g. in_price_precision i = Some g \<longrightarrow> on_grid g price) \<and>
              (rq_side q = ''BUY'' \<longrightarrow> (dval sl \<noteq> 0 \<longrightarrow> dval sl < dval price) \<and> (dval tp \<noteq> 0 \<longrightarrow> dval price < dval tp)) \<and>
              (rq_side q = ''SELL'' \<longrightarrow> (dval sl \<noteq> 0 \<longrightarrow> dval price < dval sl) \<and> (dval tp \<noteq> 0 \<longrightarrow> dval tp < dval price)))))"

lemma quantised_on_grid:
  assumes "quantise_prices i e = Inr e1" "in_price_precision i = Some g"
  shows "on_grid g (ev_price e1)" "on_grid g (ev_sl e1)" "on_grid g (ev_tp e1)"
  using assms(1) by (cases rule: quantise_Inr; use assms(2) in \<open>auto dest: grid_on_grid\<close>)+

lemma created_on_terms:
  assumes "validate_instrument rows (pr_symbol p) (pr_lots p) e = Inr (pr_event p)" "ev_action e = A_CREATE"
  shows "\<exists>i. instrument_info rows (pr_symbol p) = Inr i \<and> order_on_terms i (create_request p)"
proof (rule validate_Inr[OF assms(1)])
  fix i assume i: "instrument_info rows (pr_symbol p) = Inr i" "quantise_prices i e = Inr (pr_event p)"
    "check_lots i (pr_lots p) = Inr ()" "in_close_only i \<longrightarrow> ev_action e \<noteq> A_CREATE"
    "in_long_only i \<longrightarrow> \<not> (ev_side e = ''SELL'' \<and> ev_action e = A_CREATE)" "check_entry (pr_event p) = Inr ()"
  have "ev_side (pr_event p) = ev_side e" "ev_action (pr_event p) = A_CREATE" "ev_order_type (pr_event p) = ev_order_type e"
    using quantise_keeps[OF i(2)] assms(2) by simp_all
  moreover have "rq_method (create_request p) = ''create_pending_order'' \<longleftrightarrow> ev_order_type (pr_event p) \<noteq> ''MARKET''"
    by (simp add: create_request_def base_request_def Let_def)
  ultimately have "order_on_terms i (create_request p)"
    using i(3-6) quantised_on_grid[OF i(2)] assms(2)
    unfolding order_on_terms_def check_lots_Inr check_entry_Inr
    by (auto simp: create_request_def base_request_def Let_def)
  with i(1) show ?thesis by blast
qed

text \<open>
  C19: the order a CREATE sends is on the destination's terms: the volume is the routed quantity,
  within the instrument's limits and a whole number of its steps; a pending entry is positive with
  its brackets on the right sides; and every price lies on the destination's price grid.
\<close>

theorem created_order_on_terms:
  assumes "receive env digest uid rt (Some api) destination e j = (r, j', ws)" "((t, ''CREATE''), q) \<in> set ws"
  shows "(\<exists>i. instrument_info (ba_instruments api) (rq_instrument q) = Inr i \<and> order_on_terms i q) \<and>
     (\<exists>route m. rt_route rt = Some route \<and> map_of (rc_symbols route) (ev_symbol e) = Some m \<and>
        rq_instrument q = sr_destination m \<and> rq_volume q = Some (dmul (ev_quantity e) (sr_multiplier m)))"
proof -
  obtain row :: event_row and j1 res j2 where rec: "executable e" "dispatch env rt (Some api) destination (er_trade row) e j1 = (res, j2, ws)"
    by (rule receive_writes[OF assms]) blast
  show ?thesis
  proof (cases rule: dispatch_cases[of env rt "Some api" destination "er_trade row" e j1])
    case (refused x j3)
    with rec assms(2) show ?thesis by simp
  next
    case (written a p req v j3 j4 res' j5)
    obtain route m where pre: "a = api" "sized_event a m e = Inr (pr_lots p, pr_event p)" "pr_symbol p = sr_destination m"
      "arming_guards rt (en_now env) (Some api \<noteq> None) destination e = Inr route" "route_match route (routed_event e (pr_trade p)) = Inr m"
      by (rule preflight_Inr[OF written(1)]) blast
    have "ws = [((tr_id (pr_trade p), action_key e), req)]" using rec(2) written(5) by simp
    with assms(2) have q: "action_key e = ''CREATE''" "q = req" by auto
    have act: "ev_action e = A_CREATE"
      using q(1) rec(1) by (cases "ev_action e") (auto simp: action_key_def)
    have "ev_action (pr_event p) = A_CREATE" using sized_Inr(3)[OF pre(2)] act by simp
    then have req: "req = create_request p" using written(2) by (simp add: build_request_def)
    have "validate_instrument (ba_instruments api) (pr_symbol p) (pr_lots p) e = Inr (pr_event p)"
      using sized_Inr(2)[OF pre(2)] act pre by simp
    moreover have inst: "rq_instrument req = pr_symbol p" "rq_volume req = Some (pr_lots p)"
      by (simp_all add: req create_request_def base_request_def Let_def)
    ultimately have "\<exists>i. instrument_info (ba_instruments api) (rq_instrument q) = Inr i \<and> order_on_terms i q"
      using created_on_terms[of "ba_instruments api" p e] act req q(2) by metis
    moreover have "rt_route rt = Some route" "map_of (rc_symbols route) (ev_symbol e) = Some m"
      using pre(4,5) act by (simp_all add: arming_guards_Inr route_match_Inr routed_event_def)
    ultimately show ?thesis using inst pre(3) sized_Inr(1)[OF pre(2)] q(2) by auto
  qed
qed

subsection \<open>Where a write lands\<close>

lemma reasons_store_update [simp]: "j_reasons (store_update i u now j) = j_reasons j"
proof -
  have "j_reasons (link_destination u now t j) = j_reasons j" for t j
    using same_coreD(5)[of j "link_destination u now t j"]
    by (simp add: link_destination_def Let_def split: option.splits)
  then show ?thesis by (simp add: store_update_def Let_def split: option.splits)
qed

lemma note_failure_frame [simp]: "j_trades (note_failure i k e now j) = j_trades j"
  "j_attempts (note_failure i k e now j) = j_attempts j"
  by (auto simp: note_failure_def record_reason_def split: sum.splits if_splits)

lemma note_failure_reasons:
  "j_reasons (note_failure i k e now j) =
     (if reason_complete (failure_reason i k e)
      then insert_ignore reason_key \<lparr>or_trade = i, or_action_key = k, or_attempt = 1, or_outcome = ''uncertain'',
             or_reason = failure_reason i k e, or_at = now\<rparr> (j_reasons j)
      else j_reasons j)"
  by (simp add: note_failure_def record_reason_def)

lemma reasons_record_event:
  assumes "record_event digest uid now e j = Inr (r, j')"
  shows "j_reasons j' = j_reasons j"
proof (cases r)
  case (Pair row dup)
  from assms[unfolded Pair] show ?thesis
  proof (cases rule: record_event_cases)
    case (new owner j1 j2)
    have "j_reasons j1 = j_reasons j" using new(3) by (auto simp: attach_trade_def split: option.splits if_splits)
    moreover have "j_reasons j2 = j_reasons j1"
      using new(4) by (auto simp: apply_event_def err_simps same_coreD[OF same_core_source_event] split: option.splits)
    moreover have "j_reasons j' = j_reasons j2" using new(5) by (auto simp: append_event_def Let_def notify_stream_def)
    ultimately show ?thesis by simp
  qed simp
qed

lemma reasons_observe: "j_reasons (observe_positions i d now ps j) = j_reasons j"
  using same_coreD(5)[of j "observe_positions i d now ps j"]
  by (simp add: observe_positions_def same_core_fold observe_one_position_def)

lemma reasons_build: "build_request a d p now j = (r, j') \<Longrightarrow> j_reasons j' = j_reasons j"
  by (auto simp: build_request_def Let_def learn_positions_def reasons_observe split: if_splits sum.splits list.splits)

lemma reasons_claim: "claim i k act now j = (g, j') \<Longrightarrow> j_reasons j' = j_reasons j"
  by (auto simp: claim_def split: option.splits if_splits)

lemma record_failure_lands:
  assumes "find_trade j i = Some t"
  shows "\<exists>j' t'. record_failure None i k e now j = (Inr (''uncertain'', failure_text), j') \<and>
     find_trade j' i = Some t' \<and> tr_state t' = Uncertain \<and> j_reasons j' = j_reasons (note_failure i k e now j) \<and>
     j_attempts j' = tupdate (\<lambda>a. attempt_key a = (i, k)) (\<lambda>a. a\<lparr>at_state := At_uncertain\<rparr>) (j_attempts j)"
proof -
  define j2 where "j2 = store_update i (no_update\<lparr>up_state := Some Uncertain\<rparr>) now (note_failure i k e now j)"
  have t2: "find_trade j2 i = Some (apply_update (no_update\<lparr>up_state := Some Uncertain\<rparr>) now t)"
    unfolding j2_def find_store_update using assms by (simp add: find_trade_def)
  have a2: "j_attempts j2 = j_attempts j" by (simp add: j2_def)
  have r2: "j_reasons j2 = j_reasons (note_failure i k e now j)" by (simp add: j2_def)
  obtain j3 where f: "finish i k At_uncertain now j2 = Inr j3" and j3: "j_trades j3 = j_trades j2"
     "j_reasons j3 = j_reasons j2"
     "j_attempts j3 = tupdate (\<lambda>a. attempt_key a = (i, k)) (\<lambda>a. a\<lparr>at_state := At_uncertain\<rparr>) (j_attempts j2)"
    using t2 by (simp add: finish_def)
  have "record_failure None i k e now j = (Inr (''uncertain'', failure_text), j3)"
    using f by (simp add: record_failure_def Let_def j2_def[symmetric])
  moreover have "find_trade j3 i = find_trade j2 i" using j3(1) by (rule find_trade_cong)
  ultimately show ?thesis using t2 a2 r2 j3 by (auto simp: apply_update_def opt_set_def no_update_def)
qed

lemma claim_trade:
  assumes "claim i k act now j = (True, j')"
  shows "\<exists>t. find_trade j' i = Some t \<and> tr_state t = Dispatching"
proof -
  from assms obtain t where t: "find_trade j i = Some t" using claim_granted_iff[of i k act now j] by auto
  with assms have "j_trades j' = tupdate (\<lambda>t. tr_id t = i) (\<lambda>t. t\<lparr>tr_state := Dispatching\<rparr>) (j_trades j)"
    by (auto simp: claim_def split: if_splits)
  with t show ?thesis using find_trade_mem[OF t] by (simp add: find_trade_def find_tupdate)
qed

lemma record_failure_reasons:
  "j_reasons (snd (record_failure fault i k e now j)) = j_reasons (note_failure i k e now j)"
  by (auto simp: record_failure_def Let_def finish_def split: option.splits)

text \<open>The reason an exception of the broker's call is recorded under: its own where it carries one.\<close>

definition outcome_evidence :: "string \<Rightarrow> string \<Rightarrow> exn \<Rightarrow> reason" where
  "outcome_evidence i k x =
     (let plain = unconfirmed_reason x (''trade '' @ i @ '' action '' @ k)
      in case exn_reason x of
           None \<Rightarrow> plain
         | Some own \<Rightarrow> if rs_origin own = [] \<or> rs_code own = [] \<or> rs_evidence own = [] then plain else own)"

text \<open>
  C5: a broker error after the claim lands as uncertain and investigable. The reason is recorded under the
  attempt: the one the exception carries, as it is, and otherwise a reason that names the exception, the
  trade and the action; it is missing only when it lacks an origin, a code or evidence, and never overwrites
  one already there. The response, the trade and the attempt then say uncertain; should the update itself
  fail, the reason is there all the same, and the trade and the attempt stay in flight for the next start.
\<close>

theorem failed_write_is_uncertain:
  assumes "receive env digest uid rt (Some api) destination e j = (r, j', [((i, k), q)])" "ba_write api q = Inl x"
  shows "(let why = outcome_evidence i k x in
            j_reasons j' =
              (if \<not> reason_complete why \<or> has_key reason_key (i, k, 1) (j_reasons j) then j_reasons j
               else j_reasons j @ [\<lparr>or_trade = i, or_action_key = k, or_attempt = 1, or_outcome = ''uncertain'', or_reason = why,
                                    or_at = en_now env\<rparr>]) \<and>
            (exn_reason x = None \<and> \<not> is_blank (exn_type x) \<longrightarrow> reason_complete why)) \<and>
         (\<exists>rp t. r = Inr rp \<and> find_trade j' i = Some t \<and>
            (case en_failure_fault env of
               None \<Rightarrow> rp_status rp = ''uncertain'' \<and> tr_state t = Uncertain \<and>
                 (\<forall>a \<in> set (j_attempts j'). attempt_key a = (i, k) \<longrightarrow> at_state a = At_uncertain)
             | Some y \<Rightarrow> rp_status rp = ''held'' \<and> tr_state t = Dispatching)) \<and>
         has_key attempt_key (i, k) (j_attempts j')"
proof -
  obtain row j1 res j2 where rec: "record_event digest uid (en_now env) e j = Inr ((row, False), j1)"
    "dispatch env rt (Some api) destination (er_trade row) e j1 = (res, j2, [((i, k), q)])"
    "j' = decision (er_seq row) (fst (outcome_of res)) (snd (outcome_of res)) j2"
    "r = Inr (respond e row (fst (outcome_of res)) (snd (outcome_of res)) False j')"
    by (rule receive_writes[OF assms(1), of "((i, k), q)"]) auto
  have claimed: "has_key attempt_key (i, k) (j_attempts j')"
    using receive_claimed(1)[OF assms(1), of "(i, k)"] by (simp add: attempt_claimed_def)
  show ?thesis
  proof (cases rule: dispatch_cases[of env rt "Some api" destination "er_trade row" e j1])
    case (refused y j3)
    with rec show ?thesis by simp
  next
    case (written a p req v j3 j4 res' j5)
    have a: "a = api" by (rule preflight_Inr[OF written(1)]) simp
    have eqs: "res' = res" "j5 = j2" "i = tr_id (pr_trade p)" "k = action_key e" "req = q"
      using rec(2) written(5) by simp_all
    let ?j = "store_update i (dispatch_update destination p) (en_now env) j4"
    have kept: "j_reasons j4 = j_reasons j"
      using reasons_record_event[OF rec(1)] reasons_build[OF written(2)] reasons_claim[OF written(3)] by simp
    obtain t0 where t0: "find_trade j4 i = Some t0" "tr_state t0 = Dispatching"
      using claim_trade[OF written(3)] eqs by blast
    then obtain t' where t': "find_trade ?j i = Some t'" "tr_state t' = Dispatching"
      by (simp add: find_store_update apply_update_def opt_set_def dispatch_update_def no_update_def Let_def)
    have out: "record_failure (en_failure_fault env) i k x (en_now env) ?j = (res, j2)"
      using written(4) assms(2) eqs a by (simp add: write_and_land_def)
    have why: "outcome_evidence i k x = failure_reason i k x"
      by (auto simp: outcome_evidence_def failure_reason_def structured_reason_def Let_def split: option.splits)
    have frame: "j_trades j' = j_trades j2" "j_attempts j' = j_attempts j2" "j_reasons j' = j_reasons j2"
      using rec(3) by (simp_all add: decision_def notify_stream_def)
    have "j_reasons j' = j_reasons (note_failure i k x (en_now env) ?j)"
      using record_failure_reasons[of "en_failure_fault env" i k x "en_now env" ?j] out frame(3) by simp
    then have reasons: "j_reasons j' =
        (if \<not> reason_complete (outcome_evidence i k x) \<or> has_key reason_key (i, k, 1) (j_reasons j) then j_reasons j
         else j_reasons j @ [\<lparr>or_trade = i, or_action_key = k, or_attempt = 1, or_outcome = ''uncertain'',
             or_reason = outcome_evidence i k x, or_at = en_now env\<rparr>])"
      by (simp add: note_failure_reasons kept why insert_ignore_def reason_key_def)
    have complete: "exn_reason x = None \<and> \<not> is_blank (exn_type x) \<longrightarrow> reason_complete (outcome_evidence i k x)"
      using built_reasons_complete by (auto simp: outcome_evidence_def)
    have "\<exists>t. find_trade j' i = Some t \<and>
       (case en_failure_fault env of
          None \<Rightarrow> fst (outcome_of res) = ''uncertain'' \<and> tr_state t = Uncertain \<and>
            (\<forall>a \<in> set (j_attempts j'). attempt_key a = (i, k) \<longrightarrow> at_state a = At_uncertain)
        | Some y \<Rightarrow> fst (outcome_of res) = ''held'' \<and> tr_state t = Dispatching)"
    proof (cases "en_failure_fault env")
      case None
      obtain tf where f: "res = Inr (''uncertain'', failure_text)" "find_trade j2 i = Some tf" "tr_state tf = Uncertain"
        "j_attempts j2 = tupdate (\<lambda>a. attempt_key a = (i, k)) (\<lambda>a. a\<lparr>at_state := At_uncertain\<rparr>) (j_attempts ?j)"
        using record_failure_lands[OF t'(1), of k x "en_now env"] out[unfolded None] by auto
      then show ?thesis using frame by (intro exI[of _ tf]) (auto simp: None outcome_of_def find_trade_def set_tupdate)
    next
      case (Some y)
      then have "res = Inl y" "j2 = note_failure i k x (en_now env) ?j" using out by (simp_all add: record_failure_def Let_def)
      then show ?thesis
        using t' frame(1) by (intro exI[of _ t']) (auto simp: Some outcome_of_def find_trade_def)
    qed
    moreover have status: "rp_status (respond e row (fst (outcome_of res)) (snd (outcome_of res)) False j') = fst (outcome_of res)"
      by (simp add: respond_def Let_def)
    ultimately have "\<exists>rp t. r = Inr rp \<and> find_trade j' i = Some t \<and>
            (case en_failure_fault env of
               None \<Rightarrow> rp_status rp = ''uncertain'' \<and> tr_state t = Uncertain \<and>
                 (\<forall>a \<in> set (j_attempts j'). attempt_key a = (i, k) \<longrightarrow> at_state a = At_uncertain)
             | Some y \<Rightarrow> rp_status rp = ''held'' \<and> tr_state t = Dispatching)"
      unfolding rec(4) by (intro exI[of _ "respond e row (fst (outcome_of res)) (snd (outcome_of res)) False j'"], unfold status) simp
    with reasons complete claimed show ?thesis unfolding Let_def by (intro conjI)
  qed
qed

text \<open>
  A trade whose outcome is uncertain, in flight or resolved is frozen: no event, under any
  router state, makes the router send a write for it.
\<close>

theorem unsettled_trade_is_frozen:
  assumes "find_trade j i = Some t" "tr_state t \<in> {Uncertain, Dispatching, Resolved}"
  shows "snd (snd (dispatch env rt api destination (Some i) e j)) = []"
proof (cases rule: dispatch_cases[of env rt api destination "Some i" e j])
  case (refused x j1)
  then show ?thesis by simp
next
  case (written a p req v j1 j2 res j4)
  show ?thesis
    by (rule preflight_Inr[OF written(1)]) (use assms in \<open>auto simp: trade_guards_Inr blocked_state_def\<close>)
qed







subsection \<open>A concrete run\<close>

definition sample_router :: router where
  "sample_router =
     \<lparr>rt_armed = True,
      rt_route = Some \<lparr>rc_machine = ''m'', rc_connection = ''c'', rc_account = ''a'', rc_destination_account = ''A'',
        rc_sources = [S_P01],
        rc_symbols = [(''EURUSD'', \<lparr>sr_destination = ''EURUSD'', sr_multiplier = Dec 1 (-1), sr_max_lots = Dec 5 0,
                                  sr_fixed_lots = None\<rparr>)]\<rparr>,
      rt_armed_at = Some 0, rt_demo_verified = True\<rparr>"

definition sample_instrument :: instrument_row where
  "sample_instrument =
     \<lparr>in_symbol = ''EURUSD'', in_price_precision = Some 0, in_volume_min = Some (Dec 1 (-1)),
      in_volume_max = Some (Dec 9 0), in_volume_step = Some (Dec 1 (-1)), in_close_only = False,
      in_long_only = False\<rparr>"

definition sample_broker :: "operation res \<Rightarrow> broker_api" where
  "sample_broker answer =
     \<lparr>ba_instruments = Inr [sample_instrument], ba_active_orders = Inr [], ba_open_positions = Inr [],
      ba_closed_positions = Inr [], ba_write = (\<lambda>_. answer)\<rparr>"

definition sample_order :: capture_event where
  "sample_order = sample_event\<lparr>ev_order_type := ''LIMIT'', ev_price := Dec 9 0, ev_sl := Dec 8 0\<rparr>"

definition sample_env :: router_env where
  "sample_env = \<lparr>en_now = 1000000, en_accept_fault = None, en_failure_fault = None\<rparr>"

definition sample_receive :: "operation res \<Rightarrow> response res \<times> journal \<times> write_log" where
  "sample_receive answer =
     receive sample_env ev_symbol ''t1'' sample_router (Some (sample_broker answer)) ''A'' sample_order (empty_journal ''B'')"

definition sample_confirmed :: "operation res" where
  "sample_confirmed = Inr \<lparr>op_status = Some ''OK'', op_order_id = Some ''b1'', op_position_id = None\<rparr>"

definition timeout_reason :: reason where
  "timeout_reason = \<lparr>rs_origin = ''transport'', rs_code = ''ReadTimeout'', rs_summary = ''no response'', rs_evidence = ''request sent''\<rparr>"

definition sample_timeout :: "operation res" where
  "sample_timeout = Inl (Exn ''UnknownOutcomeError'' ''read timed out'' (Some timeout_reason))"

lemma timeout_evidence:
  "outcome_evidence i k (Exn ''UnknownOutcomeError'' ''read timed out'' (Some timeout_reason)) = timeout_reason"
  "reason_complete timeout_reason"
  by (simp_all add: outcome_evidence_def timeout_reason_def reason_complete_def is_blank_def is_space_def)

lemma sample_confirmed_run:
  "case sample_receive sample_confirmed of
     (Inr rp, j', [(k, q)]) \<Rightarrow> k = (''t1'', ''CREATE'') \<and> rp_status rp = ''accepted'' \<and> \<not> rp_duplicate rp
   | _ \<Rightarrow> False"
  by code_simp

lemma sample_timeout_run:
  "case sample_receive sample_timeout of
     (Inr rp, j', [(k, q)]) \<Rightarrow> k = (''t1'', ''CREATE'') \<and> rp_status rp = ''uncertain''
   | _ \<Rightarrow> False"
  by code_simp

lemma sample_run_cases:
  assumes "case x of (Inr rp, j', [(k, q)]) \<Rightarrow> P rp j' k q | _ \<Rightarrow> False"
  obtains rp j' k q where "x = (Inr rp, j', [(k, q)])" "P rp j' k q"
proof -
  obtain a j' ws where x: "x = (a, j', ws)" by (cases x)
  with assms obtain rp where a: "a = Inr rp" by (cases a) auto
  with assms x obtain w where "ws = [w]" by (cases ws rule: remdups_adj.cases) auto
  with assms x a that[of rp j' "fst w" "snd w"] show ?thesis by (cases w) auto
qed

theorem write_passes_guards_witness:
  "\<exists>rp j' w. sample_receive sample_confirmed = (Inr rp, j', [w]) \<and> rq_instrument (snd w) = ''EURUSD''"
proof (rule sample_run_cases[OF sample_confirmed_run])
  fix rp j' k q assume r: "sample_receive sample_confirmed = (Inr rp, j', [(k, q)])"
  then have "receive sample_env ev_symbol ''t1'' sample_router (Some (sample_broker sample_confirmed)) ''A'' sample_order
     (empty_journal ''B'') = (Inr rp, j', [(k, q)])" by (simp add: sample_receive_def)
  from write_passes_guards[OF this, of "(k, q)"] have
    "\<exists>route m. rt_route sample_router = Some route \<and> map_of (rc_symbols route) (ev_symbol sample_order) = Some m \<and> rq_instrument q = sr_destination m"
    unfolding snd_conv list.set by blast
  then have "rq_instrument q = ''EURUSD''" by (auto simp: sample_router_def sample_order_def sample_event_def)
  with r show ?thesis by auto
qed

theorem created_order_on_terms_witness:
  "\<exists>rp j' k q. sample_receive sample_confirmed = (Inr rp, j', [(k, q)]) \<and> order_on_terms sample_instrument q"
proof (rule sample_run_cases[OF sample_confirmed_run])
  fix rp j' k q assume r: "sample_receive sample_confirmed = (Inr rp, j', [(k, q)])"
    and k: "k = (''t1'', ''CREATE'') \<and> rp_status rp = ''accepted'' \<and> \<not> rp_duplicate rp"
  then have e: "receive sample_env ev_symbol ''t1'' sample_router (Some (sample_broker sample_confirmed)) ''A'' sample_order
     (empty_journal ''B'') = (Inr rp, j', [((''t1'', ''CREATE''), q)])" by (simp add: sample_receive_def)
  from created_order_on_terms[OF e, of "''t1''" q] have "order_on_terms sample_instrument q"
    by (auto simp: instrument_info_def sample_broker_def split: if_splits)
  with r show ?thesis by blast
qed

theorem failed_write_is_uncertain_witness:
  "\<exists>j' t. fst (snd (sample_receive sample_timeout)) = j' \<and> find_trade j' ''t1'' = Some t \<and> tr_state t = Uncertain \<and>
     map or_reason (j_reasons j') = [timeout_reason]"
proof (rule sample_run_cases[OF sample_timeout_run])
  fix rp j' k q assume r: "sample_receive sample_timeout = (Inr rp, j', [(k, q)])"
    and k: "k = (''t1'', ''CREATE'') \<and> rp_status rp = ''uncertain''"
  then have e: "receive sample_env ev_symbol ''t1'' sample_router (Some (sample_broker sample_timeout)) ''A'' sample_order
     (empty_journal ''B'') = (Inr rp, j', [((''t1'', ''CREATE''), q)])" by (simp add: sample_receive_def)
  have "ba_write (sample_broker sample_timeout) q = Inl (Exn ''UnknownOutcomeError'' ''read timed out'' (Some timeout_reason))"
    by (simp add: sample_broker_def sample_timeout_def)
  from failed_write_is_uncertain[OF e this] show ?thesis
    using r by (auto simp: sample_env_def timeout_evidence empty_journal_def Let_def)
qed

theorem unsettled_trade_is_frozen_witness:
  "snd (snd (dispatch sample_env sample_router (Some (sample_broker sample_confirmed)) ''A'' (Some ''t'') sample_order
     ((empty_journal ''B'')\<lparr>j_trades := [(new_trade ''t'' 0 sample_order)\<lparr>tr_state := Uncertain\<rparr>]\<rparr>))) = []"
  by (rule unsettled_trade_is_frozen[of _ _ "(new_trade ''t'' 0 sample_order)\<lparr>tr_state := Uncertain\<rparr>"])
     (simp_all add: find_trade_def new_trade_def)


end
