(* ===== verification/TradeSnapshot.thy ===== *)
theory TradeSnapshot
  imports CaptureStore
begin

text \<open>
  The read side of a trade: \<open>MappingLedger.snapshot\<close> (capture/mapping.py) and the classification of
  its destination leg (capture/verified.py).
\<close>

subsection \<open>Snapshot\<close>

record quantity_view =
  qv_row :: quantity_observation
  qv_open_filled :: decimal
  qv_close_filled :: decimal
  qv_unknown_fills :: nat
  qv_partial :: bool

record link_view =
  lv_row :: identity_link
  lv_contributors :: "string list"
  lv_position :: "position_observation option"
  lv_open_contribution :: decimal
  lv_close_contribution :: decimal

record trade_snapshot =
  sn_trade :: string
  sn_broker :: string
  sn_scope :: "string list"
  sn_symbol :: string
  sn_side :: string
  sn_source :: event_source
  sn_lots :: "decimal option"
  sn_source_quantity :: "decimal option"
  sn_source_state :: string
  sn_account :: string
  sn_state :: trade_state
  sn_status :: string
  sn_reasons :: "string list"
  sn_links :: "link_view list"
  sn_fills :: "execution_fill list"
  sn_quantities :: "quantity_view list"
  sn_actions :: "action_row list"
  sn_dobs :: "destination_observation list"
  sn_outcomes :: "outcome_reason list"
  sn_updated_at :: int

definition dsum :: "decimal list \<Rightarrow> decimal" where
  "dsum ds = fold (\<lambda>d acc. dadd acc d) ds (Dec 0 0)"

definition fills_of :: "journal \<Rightarrow> string \<Rightarrow> execution_fill list" where
  "fills_of j t = sort_key (\<lambda>f. (xf_at f, xf_execution f)) (filter (\<lambda>f. xf_trade f = t) (j_fills j))"

definition positive_some :: "decimal option \<Rightarrow> bool" where
  "positive_some d = (case d of Some x \<Rightarrow> dlt dzero x | None \<Rightarrow> False)"

definition view_quantity :: "execution_fill list \<Rightarrow> quantity_observation \<Rightarrow> quantity_view" where
  "view_quantity fills q =
     (let known = filter (\<lambda>f. xf_leg f = qo_leg q \<and> xf_scope f = qo_scope q) fills
      in \<lparr>qv_row = q,
          qv_open_filled = dsum (map xf_quantity (filter (\<lambda>f. xf_effect f = F_OPEN) known)),
          qv_close_filled = dsum (map xf_quantity (filter (\<lambda>f. xf_effect f = F_CLOSE) known)),
          qv_unknown_fills = length (filter (\<lambda>f. xf_effect f = F_UNKNOWN) known),
          qv_partial = (positive_some (qo_cumulative q) \<and> positive_some (qo_remaining q))\<rparr>)"

definition view_link :: "journal \<Rightarrow> execution_fill list \<Rightarrow> identity_link \<Rightarrow> link_view" where
  "view_link j fills l =
     (if lk_kind l = Position_link
      then (let evidence = filter (\<lambda>f. xf_leg f = lk_leg l \<and> xf_scope f = lk_scope l \<and>
                                       xf_position f = lk_native l) fills
            in \<lparr>lv_row = l, lv_contributors = owners j (lk_leg l) (lk_scope l) (lk_native l),
                lv_position = find (\<lambda>p. position_key p = (lk_leg l, lk_scope l, lk_native l)) (j_positions j),
                lv_open_contribution = dsum (map xf_quantity (filter (\<lambda>f. xf_effect f = F_OPEN) evidence)),
                lv_close_contribution = dsum (map xf_quantity (filter (\<lambda>f. xf_effect f = F_CLOSE) evidence))\<rparr>)
      else \<lparr>lv_row = l, lv_contributors = [], lv_position = None, lv_open_contribution = Dec 0 0,
            lv_close_contribution = Dec 0 0\<rparr>)"

text \<open>Why the mapping of a trade is not confirmed.\<close>

definition snapshot_reasons :: "journal \<Rightarrow> trade \<Rightarrow> string list" where
  "snapshot_reasons j t =
     (case guard_position j (tr_id t) of Inl e \<Rightarrow> [exn_msg e] | Inr _ \<Rightarrow> []) @
     (if list_ex (\<lambda>l. lk_trade l = tr_id t \<and> lk_leg l = Destination_leg) (j_links j) then []
      else [''Destination identity not confirmed'']) @
     (if tr_state t = Opened \<and> ids j (tr_id t) Destination_leg Position_link = []
      then [''Destination position identity not confirmed''] else []) @
     (if tr_state t = Opened \<and> ids j (tr_id t) Source_leg Position_link = []
      then [''Source position identity not confirmed''] else [])"

definition mapping_status :: "trade_state \<Rightarrow> string list \<Rightarrow> string" where
  "mapping_status s reasons =
     (if s = Uncertain \<or> s = Dispatching then ''uncertain''
      else if reasons \<noteq> [] then ''incomplete'' else ''confirmed'')"

definition snapshot :: "journal \<Rightarrow> trade \<Rightarrow> trade_snapshot" where
  "snapshot j t =
     (let i = tr_id t; fills = fills_of j i
      in \<lparr>sn_trade = i, sn_broker = j_broker j, sn_scope = tr_scope t, sn_symbol = tr_symbol t,
          sn_side = tr_side t, sn_source = tr_source t, sn_lots = tr_lots t,
          sn_source_quantity = tr_source_quantity t, sn_source_state = tr_source_state t,
          sn_account = tr_destination t, sn_state = tr_state t,
          sn_status = mapping_status (tr_state t) (snapshot_reasons j t),
          sn_reasons = snapshot_reasons j t,
          sn_links = map (view_link j fills) (filter (\<lambda>l. lk_trade l = i) (j_links j)),
          sn_fills = fills,
          sn_quantities = map (view_quantity fills) (filter (\<lambda>q. qo_trade q = i) (j_quantities j)),
          sn_actions = sort_key (\<lambda>a. - ah_at a) (filter (\<lambda>a. ah_trade a = i) (j_actions j)),
          sn_dobs = sort_key do_first_seen (filter (\<lambda>d. do_trade d = i) (j_dobs j)),
          sn_outcomes = sort_key or_at (filter (\<lambda>r. or_trade r = i) (j_reasons j)),
          sn_updated_at = tr_updated_at t\<rparr>)"

text \<open>The destination's view: its trades and the unassigned ones, newest first.\<close>

definition mapping_view :: "journal \<Rightarrow> string \<Rightarrow> trade_snapshot list" where
  "mapping_view j destination =
     map (snapshot j) (take 200 (sort_key (\<lambda>t. - tr_updated_at t)
       (filter (\<lambda>t. tr_destination t = destination \<or> tr_destination t = []) (j_trades j))))"

subsection \<open>Classification\<close>

definition read_back_readers :: "string list" where
  "read_back_readers = [''open_positions'', ''closed_positions'']"

definition closed_reader :: "destination_observation \<Rightarrow> bool" where
  "closed_reader r \<longleftrightarrow> do_reader r = ''closed_positions''"

definition has_time :: "destination_observation \<Rightarrow> bool" where
  "has_time r \<longleftrightarrow> clean_time (do_open_time r) \<noteq> None \<or> do_open_millis r \<noteq> None"

definition destination_requested :: "trade_snapshot \<Rightarrow> decimal option" where
  "destination_requested s =
     (case find (\<lambda>q. qo_leg (qv_row q) = Destination_leg) (sn_quantities s) of
        None \<Rightarrow> None
      | Some q \<Rightarrow> (case qo_requested (qv_row q) of Some (Some d) \<Rightarrow> Some d | _ \<Rightarrow> None))"

definition closed_volume :: "destination_observation list \<Rightarrow> decimal" where
  "closed_volume rows = dsum (List.map_filter do_volume (filter closed_reader rows))"

definition row_rank :: "destination_observation \<Rightarrow> bool \<times> bool \<times> int" where
  "row_rank r = (has_time r, closed_reader r, do_at r)"

text \<open>\<open>max(rows, key=...)\<close>: the first row of the highest rank.\<close>

fun best_row :: "destination_observation list \<Rightarrow> destination_observation option" where
  "best_row [] = None"
| "best_row (r # rs) =
     Some (fold (\<lambda>x best. if row_rank best < row_rank x then x else best) rs r)"

definition is_destination_position :: "link_view \<Rightarrow> bool" where
  "is_destination_position l \<longleftrightarrow> lk_leg (lv_row l) = Destination_leg \<and> lk_kind (lv_row l) = Position_link"

definition destination_link :: "trade_snapshot \<Rightarrow> link_view option" where
  "destination_link s = find (\<lambda>l. is_destination_position l \<and> lk_native (lv_row l) \<noteq> []) (sn_links s)"

definition has_source :: "trade_snapshot \<Rightarrow> bool" where
  "has_source s \<longleftrightarrow> list_ex (\<lambda>l. lk_leg (lv_row l) = Source_leg) (sn_links s)"

definition guarded :: "trade_snapshot \<Rightarrow> bool" where
  "guarded s \<longleftrightarrow>
     (let ps = filter is_destination_position (sn_links s)
      in length ps > 1 \<or> list_ex (\<lambda>l. length (lv_contributors l) > 1) ps)"

definition qualifying :: "trade_snapshot \<Rightarrow> destination_observation list" where
  "qualifying s =
     (case destination_link s of
        None \<Rightarrow> []
      | Some l \<Rightarrow> filter (\<lambda>r. do_position r = lk_native (lv_row l) \<and> do_symbol r = sn_symbol s \<and>
                             do_side r = sn_side s \<and> do_reader r \<in> set read_back_readers \<and>
                             do_scope r = [sn_broker s, sn_account s]) (sn_dobs s))"

definition fully_closed :: "trade_snapshot \<Rightarrow> bool" where
  "fully_closed s \<longleftrightarrow>
     list_ex closed_reader (qualifying s) \<and>
     (case destination_requested s of None \<Rightarrow> False | Some d \<Rightarrow> dle d (closed_volume (qualifying s)))"

record verdict =
  vd_state :: string
  vd_verified :: bool
  vd_reasons :: "string list"
  vd_open_time :: "string option"
  vd_open_millis :: "int option"
  vd_read_back :: "destination_observation option"

definition no_read_closure :: string where
  "no_read_closure =
     ''Closure is not confirmed by a broker read; the position may have closed without read-back evidence.''"

text \<open>The state and the reasons it adds, in the order of the tests.\<close>

definition classify_state :: "trade_snapshot \<Rightarrow> bool \<Rightarrow> destination_observation option \<Rightarrow> string \<times> string list" where
  "classify_state s verified row =
     (if verified \<and> fully_closed s
      then (''verified_closed'', [''The broker confirmed this position closed, with an open time on record.''])
      else if verified
      then (''verified_open'', ''The broker confirmed this open position and reported its own open time.'' #
              (if list_ex closed_reader (qualifying s) \<or> sn_state s = Resolved then [no_read_closure] else []))
      else if guarded s then (''guarded'', [])
      else if \<not> has_source s then (''unattributed'', [])
      else if destination_link s \<noteq> None \<and> (case row of Some r \<Rightarrow> \<not> has_time r | None \<Rightarrow> False)
      then (''read_back_no_time'', [''The broker confirmed this position but did not report its open time.''])
      else if destination_link s \<noteq> None \<and> row = None
      then (''sent_unconfirmed'',
            [''A destination identity was recorded but no independent broker read-back confirms it.''])
      else if sn_state s = Uncertain \<or> sn_state s = Dispatching
      then (''uncertain'', [''The trade itself is in an uncertain or in-flight state.''])
      else (''candidate'', [''No destination position identity has been linked to this trade yet.'']))"

definition classify :: "trade_snapshot \<Rightarrow> verdict" where
  "classify s =
     (let row = best_row (qualifying s);
          verified = (destination_link s \<noteq> None \<and> (case row of Some r \<Rightarrow> has_time r | None \<Rightarrow> False) \<and>
                      has_source s \<and> \<not> guarded s);
          (st, why) = classify_state s verified row
      in \<lparr>vd_state = st, vd_verified = verified,
          vd_reasons =
            (if guarded s
             then [''A split or merged position guard prevents attributing broker evidence to this trade.''] else []) @
            (if \<not> has_source s then [''No source identity was ever linked to this trade.''] else []) @ why,
          vd_open_time = (case row of Some r \<Rightarrow> clean_time (do_open_time r) | None \<Rightarrow> None),
          vd_open_millis = (case row of Some r \<Rightarrow> do_open_millis r | None \<Rightarrow> None),
          vd_read_back = row\<rparr>)"

lemma fold_best_mem:
  "fold (\<lambda>x best. if row_rank best < row_rank x then x else best) rs r \<in> insert r (set rs)"
  by (induction rs arbitrary: r) auto

lemma best_row_mem: "best_row rows = Some r \<Longrightarrow> r \<in> set rows"
  using fold_best_mem by (cases rows) auto

lemma fold_best_start:
  "row_rank r \<le> row_rank (fold (\<lambda>x best. if row_rank best < row_rank x then x else best) rs r)"
proof (induction rs arbitrary: r)
  case Nil
  show ?case by simp
next
  case (Cons y rs)
  show ?case
  proof (cases "row_rank r < row_rank y")
    case True
    then show ?thesis using order.trans[OF less_imp_le[OF True] Cons.IH[of y]] by simp
  next
    case False
    then show ?thesis using Cons.IH[of r] by simp
  qed
qed

lemma fold_best_max:
  "x \<in> set rs \<Longrightarrow> row_rank x \<le> row_rank (fold (\<lambda>x best. if row_rank best < row_rank x then x else best) rs r)"
proof (induction rs arbitrary: r)
  case Nil
  then show ?case by simp
next
  case (Cons y rs)
  let ?best = "if row_rank r < row_rank y then y else r"
  have "row_rank y \<le> row_rank ?best" by auto
  then have "row_rank y \<le> row_rank (fold (\<lambda>x best. if row_rank best < row_rank x then x else best) rs ?best)"
    using fold_best_start[of ?best rs] by (rule order.trans)
  then show ?case using Cons by auto
qed

lemma best_row_max:
  assumes "best_row rows = Some b" "r \<in> set rows"
  shows "row_rank r \<le> row_rank b"
proof (cases rows)
  case Nil
  with assms show ?thesis by simp
next
  case (Cons x xs)
  with assms have "b = fold (\<lambda>x best. if row_rank best < row_rank x then x else best) xs x" by simp
  with assms(2) Cons show ?thesis using fold_best_start[of x xs] fold_best_max[of r xs x] by auto
qed

lemma best_row_None [simp]: "best_row rows = None \<longleftrightarrow> rows = []"
  by (cases rows) auto


lemma classify_verified_iff:
  "vd_verified (classify s) \<longleftrightarrow>
     destination_link s \<noteq> None \<and> has_source s \<and> \<not> guarded s \<and> (\<exists>r \<in> set (qualifying s). has_time r)"
proof -
  have "(case best_row (qualifying s) of Some r \<Rightarrow> has_time r | None \<Rightarrow> False) \<longleftrightarrow>
        (\<exists>r \<in> set (qualifying s). has_time r)"
  proof (cases "best_row (qualifying s)")
    case None
    then show ?thesis by simp
  next
    case (Some b)
    have "has_time b" if "r \<in> set (qualifying s)" "has_time r" for r
      using best_row_max[OF Some that(1)] that(2) by (auto simp: row_rank_def)
    with Some best_row_mem[OF Some] show ?thesis by auto
  qed
  then show ?thesis by (auto simp: classify_def Let_def split: prod.split)
qed

lemma qualifying_iff:
  "r \<in> set (qualifying s) \<longleftrightarrow>
     (\<exists>l. destination_link s = Some l \<and> r \<in> set (sn_dobs s) \<and> do_position r = lk_native (lv_row l) \<and>
          do_symbol r = sn_symbol s \<and> do_side r = sn_side s \<and> do_reader r \<in> set read_back_readers \<and>
          do_scope r = [sn_broker s, sn_account s])"
  by (cases "destination_link s") (auto simp: qualifying_def)

lemma classify_state_verified:
  "fst (classify_state s v row) = ''verified_closed'' \<longleftrightarrow> v \<and> fully_closed s"
  "fst (classify_state s v row) = ''verified_open'' \<longleftrightarrow> v \<and> \<not> fully_closed s"
  by (auto simp: classify_state_def)

lemma classify_state_eq: "vd_state (classify s) = fst (classify_state s (vd_verified (classify s)) (best_row (qualifying s)))"
  by (simp add: classify_def Let_def split: prod.split)

lemma state_irrelevant [simp]:
  "guarded (s\<lparr>sn_state := x\<rparr>) = guarded s" "has_source (s\<lparr>sn_state := x\<rparr>) = has_source s"
  "destination_link (s\<lparr>sn_state := x\<rparr>) = destination_link s"
  "destination_requested (s\<lparr>sn_state := x\<rparr>) = destination_requested s"
  by (simp_all add: guarded_def has_source_def destination_link_def destination_requested_def)

lemma state_irrelevant' [simp]:
  "qualifying (s\<lparr>sn_state := x\<rparr>) = qualifying s"
  "fully_closed (s\<lparr>sn_state := x\<rparr>) = fully_closed s"
proof -
  show q: "qualifying (s\<lparr>sn_state := x\<rparr>) = qualifying s"
    by (cases "destination_link s") (simp_all add: qualifying_def)
  show "fully_closed (s\<lparr>sn_state := x\<rparr>) = fully_closed s"
    by (simp add: fully_closed_def q split: option.split)
qed

subsection \<open>Properties\<close>

text \<open>
  C7: a destination leg is verified exactly when a source is linked, no split or merge is guarded,
  and the broker itself read back, under the trade's own broker and account, the linked position
  with the trade's symbol and side and with its open time.
\<close>

theorem verified_needs_read_back:
  "vd_verified (classify s) \<longleftrightarrow>
     has_source s \<and> \<not> guarded s \<and>
     (\<exists>l r. destination_link s = Some l \<and> r \<in> set (sn_dobs s) \<and> do_position r = lk_native (lv_row l) \<and>
        do_symbol r = sn_symbol s \<and> do_side r = sn_side s \<and> do_reader r \<in> {''open_positions'', ''closed_positions''} \<and>
        do_scope r = [sn_broker s, sn_account s] \<and> has_time r)"
  by (auto simp: classify_verified_iff qualifying_iff read_back_readers_def)

text \<open>
  Closure rests on broker reads alone. Whatever local state the trade is given, the leg is
  verified under the same conditions, and it is reported closed exactly when the closed volume read
  back covers the requested quantity and open otherwise.
\<close>

theorem closure_ignores_local_state:
  "vd_verified (classify (s\<lparr>sn_state := x\<rparr>)) = vd_verified (classify s) \<and>
   (vd_state (classify (s\<lparr>sn_state := x\<rparr>)) = ''verified_closed'') = (vd_verified (classify s) \<and> fully_closed s) \<and>
   (vd_state (classify (s\<lparr>sn_state := x\<rparr>)) = ''verified_open'') = (vd_verified (classify s) \<and> \<not> fully_closed s)"
  by (simp add: classify_state_eq classify_state_verified classify_verified_iff)

text \<open>
  A snapshot calls the mapping confirmed only when the trade is not in flight or uncertain, the
  position guard passes, a destination identity is linked, and an open trade has a position on each
  end.
\<close>

theorem confirmed_mapping:
  assumes "sn_status (snapshot j t) = ''confirmed''"
  shows "tr_state t \<noteq> Uncertain \<and> tr_state t \<noteq> Dispatching \<and> guard_position j (tr_id t) = Inr () \<and>
         (\<exists>l \<in> set (j_links j). lk_trade l = tr_id t \<and> lk_leg l = Destination_leg) \<and>
         (tr_state t = Opened \<longrightarrow> ids j (tr_id t) Destination_leg Position_link \<noteq> [] \<and>
            ids j (tr_id t) Source_leg Position_link \<noteq> [])"
  using assms
  by (auto simp: snapshot_def Let_def mapping_status_def snapshot_reasons_def list_ex_iff
      split: if_splits sum.splits)

definition sample_trade :: trade where
  "sample_trade =
     \<lparr>tr_id = ''t'', tr_source_key = [''m'', ''c'', ''a'', ''o''], tr_source = S_P01, tr_source_order_id = ''o'',
      tr_source_position_id = [], tr_destination = ''A'', tr_broker_order_id = ''b'', tr_broker_position_id = [],
      tr_state = Pending, tr_updated_at = 0, tr_resolved_at = None, tr_last_request = [], tr_lots = Some (Dec 1 0),
      tr_symbol = ''EURUSD'', tr_side = ''BUY'', tr_order_type = ''LIMIT'', tr_scope = [''m'', ''c'', ''a''],
      tr_last_event_at = None, tr_source_quantity = None, tr_source_state = []\<rparr>"

theorem confirmed_mapping_witness:
  "guard_position (link ''t'' Destination_leg [''B'', ''A''] Order_link ''b'' ''x'' 0 (empty_journal ''B'')) ''t'' = Inr ()"
proof -
  have "sn_status (snapshot (link ''t'' Destination_leg [''B'', ''A''] Order_link ''b'' ''x'' 0 (empty_journal ''B''))
          sample_trade) = ''confirmed''"
    by (simp add: snapshot_def Let_def mapping_status_def snapshot_reasons_def sample_trade_def link_def
        insert_ignore_def empty_journal_def guard_position_def guard_leg_def position_links_def)
  from confirmed_mapping[OF this] show ?thesis by (simp add: sample_trade_def)
qed

end
