(* ===== verification/ManualSend.thy ===== *)
theory ManualSend
  imports Router TradeSnapshot
begin

text \<open>
  One-time order submission (capture/manual_send.py), used by the automatic bridge dispatch and by
  the explicit Send. Paper records the request; live claims the attempt before the write.
\<close>

definition send_order_types :: "string list" where
  "send_order_types = [''MARKET'', ''LIMIT'', ''STOP'']"

text \<open>The ACCEPTED CREATE signal that made a trade a candidate: the latest on record.\<close>

definition candidate_event :: "journal \<Rightarrow> string \<Rightarrow> capture_event option" where
  "candidate_event j i =
     map_option er_payload
       (find (\<lambda>r. er_trade r = Some i \<and> ev_kind (er_payload r) = K_ACCEPTED \<and> ev_action (er_payload r) = A_CREATE)
          (rev (j_events j)))"

definition already_sent :: "journal \<Rightarrow> string \<Rightarrow> bool" where
  "already_sent j i \<longleftrightarrow> has_key ps_trade i (j_paper j) \<or> has_key at_trade i (j_attempts j)"

text \<open>The volume a caller passes, as \<open>Decimal(str(...))\<close> reads it.\<close>

datatype volume_arg = Volume_missing | Volume_boolean | Volume_unreadable | Volume_not_finite | Volume decimal

fun parse_volume :: "volume_arg \<Rightarrow> decimal res" where
  "parse_volume Volume_missing = Inl (value_error ''A positive volume is required'')"
| "parse_volume Volume_boolean = Inl (value_error ''A positive volume is required'')"
| "parse_volume Volume_unreadable = Inl (value_error ''Volume must be a decimal number'')"
| "parse_volume Volume_not_finite = Inl (value_error ''Volume must be a finite positive number'')"
| "parse_volume (Volume d) =
     (if dle d dzero then Inl (value_error ''Volume must be a finite positive number'') else Inr d)"

record send_controls =
  sc_mode :: string
  sc_sources :: "event_source list"

record prepared_send =
  pd_trade :: trade
  pd_event :: capture_event
  pd_symbol :: string
  pd_lots :: decimal
  pd_request :: request

definition trade_sendable :: "journal \<Rightarrow> send_controls \<Rightarrow> string \<Rightarrow> string \<Rightarrow> trade \<Rightarrow> unit res" where
  "trade_sendable j controls i destination t =
     (let v = classify (snapshot j t) in
      if tr_source t \<notin> set (sc_sources controls)
      then Inl (value_error (''Source '' @ source_name (tr_source t) @ '' is not enabled for copying''))
      else if tr_state t \<noteq> Observed \<or> vd_state v \<noteq> ''candidate''
      then Inl (value_error (''Trade is not a candidate (state '' @ state_name (tr_state t) @ '', '' @ vd_state v @ '')''))
      else if tr_broker_order_id t \<noteq> [] \<or> tr_broker_position_id t \<noteq> []
      then Inl (value_error ''Trade already has a destination order'')
      else if tr_destination t \<noteq> [] \<and> tr_destination t \<noteq> destination
      then Inl (value_error ''Trade already belongs to another destination'')
      else if already_sent j i
      then Inl (value_error ''This trade was already sent once; it will not be sent again'')
      else Inr ())"

definition event_sendable :: "capture_event \<Rightarrow> unit res" where
  "event_sendable e =
     (if \<not> ev_brackets_absolute e
      then Inl (value_error ''Offset brackets require an explicit absolute-price conversion'')
      else if ev_order_type e \<notin> set send_order_types
      then Inl (value_error ''Unsupported order type; stop-limit is not silently converted'')
      else if ev_side e \<notin> {''BUY'', ''SELL''} then Inl (value_error ''Missing side'')
      else Inr ())"

definition mapped_symbol :: "route_config option \<Rightarrow> capture_event \<Rightarrow> string" where
  "mapped_symbol route e =
     (case route of
        None \<Rightarrow> ev_symbol e
      | Some r \<Rightarrow> (case map_of (rc_symbols r) (ev_symbol e) of Some m \<Rightarrow> sr_destination m | None \<Rightarrow> ev_symbol e))"

definition send_request :: "string \<Rightarrow> decimal \<Rightarrow> capture_event \<Rightarrow> request" where
  "send_request symbol lots e =
     \<lparr>rq_method = (if ev_order_type e = ''MARKET'' then ''open_position'' else ''create_pending_order''),
      rq_instrument = symbol, rq_side = ev_side e, rq_id = [],
      rq_type = (if ev_order_type e = ''MARKET'' then [] else ev_order_type e), rq_volume = Some lots,
      rq_price = (if ev_order_type e = ''MARKET'' then None else Some (ev_price e)), rq_sl = Some (ev_sl e),
      rq_tp = Some (ev_tp e)\<rparr>"

definition prepare_send ::
  "journal \<Rightarrow> send_controls \<Rightarrow> string \<Rightarrow> volume_arg \<Rightarrow> string \<Rightarrow> route_config option \<Rightarrow> prepared_send res" where
  "prepare_send j controls i volume destination route =
     bindE (of_option (value_error ''Unknown trade'') (find_trade j i)) (\<lambda>t.
     bindE (trade_sendable j controls i destination t) (\<lambda>_.
     bindE (of_option (value_error ''No accepted CREATE signal is on record for this trade'') (candidate_event j i)) (\<lambda>e.
     bindE (event_sendable e) (\<lambda>_.
     bindE (parse_volume volume) (\<lambda>lots.
       let symbol = mapped_symbol route e
       in if symbol = [] then Inl (value_error ''Signal carries no instrument'')
          else Inr \<lparr>pd_trade = t, pd_event = e, pd_symbol = symbol, pd_lots = lots,
                    pd_request = send_request symbol lots e\<rparr>)))))"

record send_reply =
  sy_trade :: string
  sy_mode :: string
  sy_status :: string
  sy_reason :: string
  sy_request :: request
  sy_order :: string
  sy_position :: string

definition paper_reason :: string where
  "paper_reason = ''Paper mode: exact broker request recorded; nothing was sent''"

definition send_paper :: "prepared_send \<Rightarrow> string \<Rightarrow> int \<Rightarrow> journal \<Rightarrow> send_reply res \<times> journal" where
  "send_paper p destination now j =
     (let row = \<lparr>ps_trade = tr_id (pd_trade p), ps_source = tr_source (pd_trade p), ps_destination = destination,
                 ps_request = pd_request p, ps_lots = pd_lots p, ps_verdict = ''would_send'',
                 ps_reason = paper_reason, ps_at = now\<rparr>
      in case insert_paper row j of
           Inl x \<Rightarrow> (Inl x, j)
         | Inr j' \<Rightarrow>
             (Inr \<lparr>sy_trade = tr_id (pd_trade p), sy_mode = ''paper'', sy_status = ''paper'', sy_reason = paper_reason,
                    sy_request = pd_request p, sy_order = [], sy_position = []\<rparr>, j'))"

definition send_update :: "prepared_send \<Rightarrow> operation \<Rightarrow> trade_update res" where
  "send_update p r =
     (if truthy (op_status r) \<and> op_status r \<noteq> Some ''OK'' then Inl (unverified ''Unrecognized broker status'')
      else if \<not> truthy (op_order_id r) \<and> \<not> truthy (op_position_id r)
      then Inl (unverified ''Broker identity missing after submission'')
      else Inr (no_update\<lparr>up_state := Some (if ev_order_type (pd_event p) = ''MARKET'' then Opened else Pending),
                         up_broker_order := Some (opt_str (op_order_id r)),
                         up_broker_position := (if truthy (op_position_id r) then op_position_id r else None)\<rparr>))"

definition send_live ::
  "router_env \<Rightarrow> prepared_send \<Rightarrow> broker_api \<Rightarrow> string \<Rightarrow> journal \<Rightarrow> send_reply res \<times> journal" where
  "send_live env p api i j =
     (let now = en_now env;
          (landed, j1) =
            (case bindE (ba_write api (pd_request p)) (send_update p) of
               Inl x \<Rightarrow> record_failure (en_failure_fault env) i ''CREATE'' x now j
             | Inr u \<Rightarrow>
                 (case persist_accepted (en_accept_fault env) i ''CREATE'' u now j of
                    (Inl x, j') \<Rightarrow> record_failure (en_failure_fault env) i ''CREATE'' x now j'
                  | (Inr _, j') \<Rightarrow> (Inr (''accepted'', ''Broker accepted the mapped action''), j')))
      in case landed of
           Inl x \<Rightarrow> (Inl x, j1)
         | Inr (status, why) \<Rightarrow>
             (let j2 = notify_stream j1; t = find_trade j2 i
              in (Inr \<lparr>sy_trade = i, sy_mode = ''live'', sy_status = status, sy_reason = why, sy_request = pd_request p,
                       sy_order = (case t of Some x \<Rightarrow> tr_broker_order_id x | None \<Rightarrow> []),
                       sy_position = (case t of Some x \<Rightarrow> tr_broker_position_id x | None \<Rightarrow> [])\<rparr>, j2)))"

text \<open>The request on the destination's price grid; a failed read is a refusal, not a dispatch.\<close>

definition regrid :: "prepared_send \<Rightarrow> capture_event \<Rightarrow> request" where
  "regrid p g =
     (pd_request p)\<lparr>rq_sl := Some (ev_sl g), rq_tp := Some (ev_tp g),
       rq_price := (if rq_price (pd_request p) = None then None else Some (ev_price g))\<rparr>"

definition preflight_send :: "broker_api \<Rightarrow> prepared_send \<Rightarrow> prepared_send res" where
  "preflight_send api p =
     (case validate_instrument (ba_instruments api) (pd_symbol p) (pd_lots p) (pd_event p) of
        Inr g \<Rightarrow> Inr (p\<lparr>pd_request := regrid p g\<rparr>)
      | Inl x \<Rightarrow> if is_value_error x then Inl x
                 else Inl (value_error (''Preflight instrument read failed ('' @ exn_type x @
                            ''); no broker write attempted'')))"

definition send_dispatch_update :: "prepared_send \<Rightarrow> string \<Rightarrow> trade_update" where
  "send_dispatch_update p destination =
     (let e = pd_event p in
      no_update\<lparr>up_destination := Some destination, up_symbol := Some (pd_symbol p), up_side := Some (ev_side e),
        up_lots := Some (Some (pd_lots p)), up_order_type := Some (ev_order_type e),
        up_last_request := Some (ev_request_id e), up_last_event_at := Some (ev_emitted_at e)\<rparr>)"

definition send ::
  "router_env \<Rightarrow> send_controls \<Rightarrow> string \<Rightarrow> volume_arg \<Rightarrow> broker_api option \<Rightarrow> string \<Rightarrow> route_config option \<Rightarrow> journal
    \<Rightarrow> send_reply res \<times> journal \<times> write_log" where
  "send env controls i volume api destination route j =
     (case prepare_send j controls i volume destination route of
        Inl x \<Rightarrow> (Inl x, j, [])
      | Inr p \<Rightarrow>
          if sc_mode controls = ''paper''
          then (let (r, j1) = send_paper p destination (en_now env) j in (r, j1, []))
          else (case api of
              None \<Rightarrow> (Inl (value_error ''Connect the destination account before sending live''), j, [])
            | Some a \<Rightarrow>
                (case preflight_send a p of
                   Inl x \<Rightarrow> (Inl x, j, [])
                 | Inr q \<Rightarrow>
                     (let e = pd_event q;
                          (granted, j1) = claim i ''CREATE'' (Some (ev_request_id e, ev_action e, destination, pd_request q))
                                            (en_now env) j
                      in if \<not> granted
                         then (Inl (value_error ''Action already attempted; it will not be sent again''), j1, [])
                         else (let j2 = store_update i (send_dispatch_update q destination) (en_now env) j1;
                                   (r, j3) = send_live env q a i j2
                               in (r, j3, [((i, ''CREATE''), pd_request q)]))))))"

subsection \<open>Claims\<close>

lemma claimed_notify [simp]: "attempt_claimed (notify_stream j) k = attempt_claimed j k"
  by (simp add: attempt_claimed_def notify_stream_def)

lemma claimed_send_live: "attempt_claimed (snd (send_live env p api i j)) k = attempt_claimed j k"
proof -
  define r where "r = (case bindE (ba_write api (pd_request p)) (send_update p) of
               Inl x \<Rightarrow> record_failure (en_failure_fault env) i ''CREATE'' x (en_now env) j
             | Inr u \<Rightarrow>
                 (case persist_accepted (en_accept_fault env) i ''CREATE'' u (en_now env) j of
                    (Inl x, j') \<Rightarrow> record_failure (en_failure_fault env) i ''CREATE'' x (en_now env) j'
                  | (Inr _, j') \<Rightarrow> (Inr (''accepted'', ''Broker accepted the mapped action''), j')))"
  have "attempt_claimed (snd r) k = attempt_claimed j k"
  proof (cases "bindE (ba_write api (pd_request p)) (send_update p)")
    case (Inl x)
    then show ?thesis by (simp add: r_def claimed_record_failure)
  next
    case (Inr u)
    obtain o' j1 where p: "persist_accepted (en_accept_fault env) i ''CREATE'' u (en_now env) j = (o', j1)"
      by (metis prod.exhaust)
    then have "attempt_claimed j1 k = attempt_claimed j k" using claimed_persist by (metis snd_conv)
    with Inr p show ?thesis by (cases o') (simp_all add: r_def claimed_record_failure)
  qed
  moreover have "send_live env p api i j = (case fst r of
           Inl x \<Rightarrow> (Inl x, snd r)
         | Inr (status, why) \<Rightarrow>
             (let j2 = notify_stream (snd r); t = find_trade j2 i
              in (Inr \<lparr>sy_trade = i, sy_mode = ''live'', sy_status = status, sy_reason = why, sy_request = pd_request p,
                       sy_order = (case t of Some x \<Rightarrow> tr_broker_order_id x | None \<Rightarrow> []),
                       sy_position = (case t of Some x \<Rightarrow> tr_broker_position_id x | None \<Rightarrow> [])\<rparr>, j2)))"
    unfolding send_live_def Let_def r_def[symmetric] by (simp add: split_beta)
  ultimately show ?thesis by (auto simp: Let_def split: sum.splits)
qed

lemma send_cases:
  obtains (silent) r j1 where "send env controls i volume api destination route j = (r, j1, [])" "j_attempts j1 = j_attempts j"
  | (sent) p a q j1 r j3 where "prepare_send j controls i volume destination route = Inr p" "api = Some a"
      "sc_mode controls \<noteq> ''paper''" "preflight_send a p = Inr q"
      "claim i ''CREATE'' (Some (ev_request_id (pd_event q), ev_action (pd_event q), destination, pd_request q))
         (en_now env) j = (True, j1)"
      "send_live env q a i (store_update i (send_dispatch_update q destination) (en_now env) j1) = (r, j3)"
      "send env controls i volume api destination route j = (r, j3, [((i, ''CREATE''), pd_request q)])"
proof (cases "prepare_send j controls i volume destination route")
  case (Inl x)
  then show ?thesis using silent[of "Inl x" j] by (simp add: send_def)
next
  case prep: (Inr p)
  show ?thesis
  proof (cases "sc_mode controls = ''paper''")
    case True
    obtain r j1 where s: "send_paper p destination (en_now env) j = (r, j1)" by (metis prod.exhaust)
    then have "j_attempts j1 = j_attempts j"
      by (auto simp: send_paper_def Let_def attempts_insert_paper split: sum.splits)
    then show ?thesis using silent[of r j1] prep True s by (simp add: send_def)
  next
    case live: False
    show ?thesis
    proof (cases api)
      case None
      then show ?thesis using silent[of "Inl (value_error ''Connect the destination account before sending live'')" j] prep live
        by (simp add: send_def)
    next
      case (Some a)
      show ?thesis
      proof (cases "preflight_send a p")
        case (Inl x)
        then show ?thesis using silent[of "Inl x" j] prep live Some by (simp add: send_def)
      next
        case (Inr q)
        let ?act = "Some (ev_request_id (pd_event q), ev_action (pd_event q), destination, pd_request q)"
        obtain g j1 where c: "claim i ''CREATE'' ?act (en_now env) j = (g, j1)" by (metis prod.exhaust)
        show ?thesis
        proof (cases g)
          case False
          then have "j1 = j" using claim_refused[of i "''CREATE''" ?act "en_now env" j] c by simp
          then show ?thesis using silent[of _ j1] prep live Some Inr c False by (simp add: send_def Let_def)
        next
          case True
          obtain r j3 where l: "send_live env q a i (store_update i (send_dispatch_update q destination) (en_now env) j1) = (r, j3)"
            by (metis prod.exhaust)
          show ?thesis by (rule sent[of p a q j1 r j3]) (use prep live Some Inr c True l in \<open>simp_all add: send_def Let_def\<close>)
        qed
      qed
    qed
  qed
qed

lemma send_claimed:
  assumes "send env controls i volume api destination route j = (r, j', ws)"
  shows "(attempt_claimed j' k \<longleftrightarrow> attempt_claimed j k \<or> k \<in> set (map fst ws)) \<and>
    (k \<in> set (map fst ws) \<longrightarrow> \<not> attempt_claimed j k) \<and> distinct (map fst ws)"
proof (cases rule: send_cases[of env controls i volume api destination route j])
  case (silent r1 j1)
  with assms show ?thesis by (simp add: attempt_claimed_def)
next
  case (sent p a q j1 r1 j3)
  let ?act = "Some (ev_request_id (pd_event q), ev_action (pd_event q), destination, pd_request q)"
  have c: "attempt_claimed j1 y \<longleftrightarrow> attempt_claimed j y \<or> y = (i, ''CREATE'')" for y
    using claim_attempts[of i "''CREATE''" ?act "en_now env" j y] sent(5) by simp
  have fresh: "\<not> attempt_claimed j (i, ''CREATE'')"
    using claim_granted_iff[of i "''CREATE''" ?act "en_now env" j] sent(5) by auto
  have "attempt_claimed j3 y = attempt_claimed j1 y" for y
    using claimed_send_live[of env q a i _ y] sent(6) by (metis claimed_store_update snd_conv)
  with c fresh sent(7) assms show ?thesis by auto
qed

end
