(* ===== verification/Unwind.thy ===== *)
theory Unwind
  imports ManualSend
begin

text \<open>
  Removing exposure the owner created (capture/unwind.py). The instant in one refusal text is left out: a cancelled or closed lifecycle cancels the
  pending order, or closes the position, that was sent for it. Nothing here opens anything.
\<close>

text \<open>\<open>repr\<close> of a text: quoted, with its backslashes, quotes and unprintable characters escaped.\<close>

definition hex_digit :: "nat \<Rightarrow> char" where
  "hex_digit n = ''0123456789abcdef'' ! (n mod 16)"

definition repr_char :: "char \<Rightarrow> char \<Rightarrow> string" where
  "repr_char q c =
     (if c = q \<or> c = CHR 0x5C then [CHR 0x5C, c]
      else if c = CHR 0x0A then [CHR 0x5C, CHR ''n''] else if c = CHR 0x0D then [CHR 0x5C, CHR ''r'']
      else if c = CHR 0x09 then [CHR 0x5C, CHR ''t'']
      else if code_in 0 31 c \<or> code_in 127 160 c \<or> c = CHR 0xAD
      then [CHR 0x5C, CHR ''x'', hex_digit ((of_char c :: nat) div 16), hex_digit (of_char c)]
      else [c])"

definition py_repr :: "string \<Rightarrow> string" where
  "py_repr s =
     (let q = (if CHR 0x27 \<in> set s \<and> CHR 0x22 \<notin> set s then CHR 0x22 else CHR 0x27)
      in [q] @ concat (map (repr_char q) s) @ [q])"

fun join :: "string \<Rightarrow> string list \<Rightarrow> string" where
  "join sep [] = []"
| "join sep [x] = x"
| "join sep (x # xs) = x @ sep @ join sep xs"

fun contains :: "string \<Rightarrow> string \<Rightarrow> bool" where
  "contains p [] = (p = [])"
| "contains p (c # s) = (take (length p) (c # s) = p \<or> contains p s)"

record unwind_signal =
  us_kind :: string
  us_machine :: string
  us_event :: string
  us_label :: string
  us_symbol :: string
  us_time :: int

definition cancel_kinds :: "string list" where
  "cancel_kinds = [''cancelled'', ''cancel'']"

definition unwind_kinds :: "string list" where
  "unwind_kinds = cancel_kinds @ [''closed'']"

datatype unwind_action = Unwind_cancel | Unwind_close

definition action_of :: "unwind_signal \<Rightarrow> unwind_action" where
  "action_of s = (if us_kind s \<in> set cancel_kinds then Unwind_cancel else Unwind_close)"

fun unwind_name :: "unwind_action \<Rightarrow> string" where
  "unwind_name Unwind_cancel = ''CANCEL''"
| "unwind_name Unwind_close = ''CLOSE''"

fun unwind_verb :: "unwind_action \<Rightarrow> string" where
  "unwind_verb Unwind_cancel = ''cancel''"
| "unwind_verb Unwind_close = ''close''"

fun unwind_event :: "unwind_action \<Rightarrow> event_action" where
  "unwind_event Unwind_cancel = A_CANCEL"
| "unwind_event Unwind_close = A_CLOSE"

text \<open>The broker session: its reads and writes, its account and whether its client may write.\<close>

record unwind_api =
  ua_broker :: broker_api
  ua_account :: "string option"
  ua_writes :: bool

definition pending_order_request :: "order_row list res \<Rightarrow> string \<Rightarrow> request \<Rightarrow> request res" where
  "pending_order_request orders i stored =
     bindE orders (\<lambda>os. case filter (\<lambda>r. od_id r = i) os of
       [r] \<Rightarrow>
         if (od_symbol r, od_side r, od_type r) \<noteq> (rq_instrument stored, rq_side stored, rq_type stored)
         then Inl (value_error ''Broker order does not match the stored copy'')
         else Inr \<lparr>rq_method = ''cancel_pending_order'', rq_instrument = od_symbol r, rq_side = od_side r,
                   rq_id = od_id r, rq_type = od_type r, rq_volume = None, rq_price = None, rq_sl = None,
                   rq_tp = None\<rparr>
     | _ \<Rightarrow> Inl (value_error ''Linked order is no longer pending; no position is closed''))"

text \<open>The trades whose ACCEPTED CREATE signal carries this machine and label, in order of first sight.\<close>

definition linked_trades :: "journal \<Rightarrow> string \<Rightarrow> string \<Rightarrow> trade list" where
  "linked_trades j machine label =
     (if machine = [] \<or> label = [] then []
      else List.map_filter (find_trade j)
        (rev (remdups (rev (List.map_filter er_trade
           (filter (\<lambda>r. ev_kind (er_payload r) = K_ACCEPTED \<and> ev_action (er_payload r) = A_CREATE \<and>
                        ev_machine (er_payload r) = machine \<and> ev_label (er_payload r) = label) (j_events j)))))))"

text \<open>Why preparation stops: a local check with its code, or an exception.\<close>

datatype stop = Refused string string | Failed exn

record prepared_unwind =
  pu_request :: request
  pu_update :: trade_update
  pu_summary :: string

definition dash :: "string \<Rightarrow> string" where
  "dash s = str_or s ''-''"

text \<open>The CREATE request as it was sent, else what the trade row says.\<close>

definition stored_copy :: "journal \<Rightarrow> trade \<Rightarrow> request" where
  "stored_copy j t =
     (case find (\<lambda>a. action_key_of a = (tr_id t, ''CREATE'')) (j_actions j) of
        Some a \<Rightarrow> ah_request a
      | None \<Rightarrow> \<lparr>rq_method = [], rq_instrument = tr_symbol t, rq_side = tr_side t, rq_id = [], rq_type = tr_order_type t,
                 rq_volume = None, rq_price = None, rq_sl = None, rq_tp = None\<rparr>)"

definition prepare_cancel_order ::
  "journal \<Rightarrow> trade \<Rightarrow> broker_api \<Rightarrow> string \<Rightarrow> string \<Rightarrow> int \<Rightarrow> stop + prepared_unwind" where
  "prepare_cancel_order j t api label because now =
     (case pending_order_request (ba_active_orders api) (tr_broker_order_id t) (stored_copy j t) of
        Inl x \<Rightarrow>
          if is_value_error x
          then Inl (Refused (if contains ''does not match'' (exn_msg x) then ''OrderMismatch'' else ''OrderNotPending'')
                 (exn_msg x @ '' (trade '' @ tr_id t @ '', broker order '' @ tr_broker_order_id t @ '', lifecycle '' @
                  py_repr label @ '')''))
          else Inl (Failed x)
      | Inr req \<Rightarrow>
          Inr \<lparr>pu_request = req,
               pu_update = (if ids j (tr_id t) Destination_leg Position_link \<noteq> []
                            then no_update\<lparr>up_state := Some Opened\<rparr>
                            else no_update\<lparr>up_state := Some Resolved, up_resolved_at := Some now\<rparr>),
               pu_summary = ''Broker accepted the cancel of pending order '' @ tr_broker_order_id t @ '' for trade '' @
                 tr_id t @ '' on the source's '' @ because @ '' of lifecycle '' @ py_repr label\<rparr>)"

definition unwind_related :: "trade \<Rightarrow> broker_position list \<Rightarrow> broker_position list" where
  "unwind_related t ps =
     filter (\<lambda>b. bp_symbol b = tr_symbol t \<and> bp_side b = tr_side t)
       (filter (\<lambda>b. (tr_broker_position_id t \<noteq> [] \<and> bp_id b = tr_broker_position_id t) \<or>
                    (tr_broker_order_id t \<noteq> [] \<and> bp_order_id b = Some (tr_broker_order_id t))) ps)"

definition close_request :: "broker_position \<Rightarrow> request" where
  "close_request b =
     \<lparr>rq_method = ''close_position'', rq_instrument = bp_symbol b, rq_side = bp_side b, rq_id = bp_id b, rq_type = [],
      rq_volume = Some (bp_volume b), rq_price = None, rq_sl = None, rq_tp = None\<rparr>"

definition guard_stop :: "(string \<Rightarrow> string) \<Rightarrow> journal \<Rightarrow> string \<Rightarrow> stop + unit" where
  "guard_stop text j i = (case guard_position j i of Inl x \<Rightarrow> Inl (Refused ''PositionGuard'' (text (exn_msg x))) | Inr _ \<Rightarrow> Inr ())"

text \<open>The steps after the related positions were read and recorded.\<close>

definition close_related ::
  "journal \<Rightarrow> trade \<Rightarrow> broker_api \<Rightarrow> string \<Rightarrow> broker_position list \<Rightarrow> int \<Rightarrow> (stop + prepared_unwind) \<times> journal" where
  "close_related j t api label related now =
     (case related of
        [] \<Rightarrow>
          if tr_broker_order_id t \<noteq> []
          then (prepare_cancel_order j t api label ''close (the copy was still a resting order)'' now, j)
          else (Inl (Refused ''NothingOpen'' (''Broker returned no open position '' @ tr_broker_position_id t @
                  '' for trade '' @ tr_id t @ '' ('' @ tr_symbol t @ '' '' @ tr_side t @
                  ''); it may already be closed - reconcile closed history for lifecycle '' @ py_repr label)), j)
      | [b] \<Rightarrow>
          (Inr \<lparr>pu_request = close_request b,
                pu_update = no_update\<lparr>up_state := Some Resolved, up_resolved_at := Some now\<rparr>,
                pu_summary = ''Broker accepted the close of position '' @ bp_id b @ '' ('' @ dec_str (bp_volume b) @
                  '' lots) for trade '' @ tr_id t @ '' on the source's close of lifecycle '' @ py_repr label\<rparr>,
           if tr_broker_position_id t = []
           then store_update (tr_id t) (no_update\<lparr>up_broker_position := Some (bp_id b)\<rparr>) now j else j)
      | _ \<Rightarrow>
          (Inl (Refused ''AmbiguousPosition'' (''Broker returned '' @ int_str (int (length related)) @ '' positions ('' @
             join '', '' (map bp_id related) @ '') for trade '' @ tr_id t @ ''; no unambiguous position to close for lifecycle '' @ py_repr label)), j))"

definition prepare_close ::
  "journal \<Rightarrow> trade \<Rightarrow> broker_api \<Rightarrow> string \<Rightarrow> string \<Rightarrow> int \<Rightarrow> (stop + prepared_unwind) \<times> journal" where
  "prepare_close j t api destination label now =
     (case guard_stop (\<lambda>m. m @ ''; trade '' @ tr_id t @ '' (position '' @ dash (tr_broker_position_id t) @
              '') was not closed for lifecycle '' @ py_repr label) j (tr_id t) of
        Inl s \<Rightarrow> (Inl s, j)
      | Inr _ \<Rightarrow>
          (case ba_open_positions api of
             Inl x \<Rightarrow> (Inl (Failed x), j)
           | Inr gs \<Rightarrow>
               (let related = unwind_related t (flat_positions gs);
                    j1 = (if related \<noteq> [] then observe_positions (tr_id t) destination now related j else j)
                in case (if related \<noteq> []
                         then guard_stop (\<lambda>m. m @ ''; trade '' @ tr_id t @ '' was not closed'') j1 (tr_id t) else Inr ()) of
                     Inl s \<Rightarrow> (Inl s, j1)
                   | Inr _ \<Rightarrow> close_related j1 t api label related now)))"

text \<open>The local checks before any read of the broker, in order.\<close>

definition unwind_checks ::
  "journal \<Rightarrow> trade \<Rightarrow> unwind_signal \<Rightarrow> unwind_api option \<Rightarrow> string \<Rightarrow> bool \<Rightarrow> stop + unwind_api" where
  "unwind_checks j t s api destination verified =
     (let verb = unwind_verb (action_of s); e = candidate_event j (tr_id t) in
      if (case e of Some x \<Rightarrow> us_symbol s \<noteq> [] \<and> ev_symbol x \<noteq> [] \<and> ev_symbol x \<noteq> us_symbol s | None \<Rightarrow> False)
      then Inl (Refused ''LabelSymbolMismatch'' (''Lifecycle '' @ py_repr (us_label s) @ '' matched trade '' @ tr_id t @
             '' but the signal names '' @ py_repr (us_symbol s) @ '' while the captured order is '' @
             py_repr (case e of Some x \<Rightarrow> ev_symbol x | None \<Rightarrow> []) @ ''; nothing was sent''))
      else if tr_broker_order_id t = [] \<and> tr_broker_position_id t = []
      then Inl (Refused ''LifecycleEndedBeforeSend'' (''Lifecycle '' @ py_repr (us_label s) @ '' ended at the source but trade '' @
             tr_id t @ '' was '' @ (if has_key ps_trade (tr_id t) (j_paper j) then ''sent in paper mode only'' else ''never sent live'') @
             '' and holds no broker order or position id; nothing exists at the broker to '' @ verb))
      else if tr_destination t \<noteq> destination
      then Inl (Refused ''OtherDestination'' (''Trade '' @ tr_id t @ '' was sent to account '' @ py_repr (tr_destination t) @
             '', not the selected '' @ py_repr destination @ ''; select that account so the '' @ verb @ '' can act''))
      else if tr_state t = Uncertain \<or> tr_state t = Dispatching
      then Inl (Refused ''TradeUncertain'' (''Trade '' @ tr_id t @ '' is '' @ state_name (tr_state t) @ '' (order '' @
             dash (tr_broker_order_id t) @ '', position '' @ dash (tr_broker_position_id t) @
             ''); reconcile it before any further broker action''))
      else if tr_state t = Resolved
      then Inl (Refused ''AlreadyResolved'' (''Trade '' @ tr_id t @ '' was already resolved; nothing left to '' @ verb))
      else let offline = Refused ''DestinationNotConnected'' (''Account '' @ py_repr destination @ '' is not connected; the '' @
             verb @ '' for trade '' @ tr_id t @ '' (order '' @ dash (tr_broker_order_id t) @ '', position '' @
             dash (tr_broker_position_id t) @ '') was not sent'') in
        (case api of
             None \<Rightarrow> Inl offline
           | Some a \<Rightarrow>
               if \<not> verified
               then Inl offline
               else if ua_account a \<noteq> Some destination
               then Inl (Refused ''AccountMismatch'' ''The broker connection belongs to a different account; nothing was sent'')
               else if \<not> ua_writes a
               then Inl (Refused ''WritesDisabled'' (''Broker writes are disabled for this dashboard process (enable writes for this broker in your local .env); the '' @ verb @ '' for trade '' @ tr_id t @ '' was not sent''))
               else Inr a))"

definition prepare_unwind ::
  "journal \<Rightarrow> trade \<Rightarrow> unwind_signal \<Rightarrow> unwind_api option \<Rightarrow> string \<Rightarrow> bool \<Rightarrow> int
    \<Rightarrow> (stop + prepared_unwind) \<times> journal" where
  "prepare_unwind j t s api destination verified now =
     (case unwind_checks j t s api destination verified of
        Inl x \<Rightarrow> (Inl x, j)
      | Inr a \<Rightarrow>
          if action_of s = Unwind_cancel
          then if tr_broker_order_id t = []
               then (Inl (Refused ''NoBrokerOrderId'' (''Trade '' @ tr_id t @ '' holds position '' @ tr_broker_position_id t @
                       '' and no pending order; a cancel never closes a filled position, so nothing was sent for lifecycle '' @
                       py_repr (us_label s))), j)
               else (prepare_cancel_order j t (ua_broker a) (us_label s) ''cancel'' now, j)
          else prepare_close j t (ua_broker a) destination (us_label s) now)"

subsection \<open>Acting on a signal\<close>

record unwind_outcome =
  uo_decision :: string
  uo_reason :: string
  uo_trade :: "string option"
  uo_request :: "request option"
  uo_answer :: "operation res option"

definition held_outcome :: "string \<Rightarrow> string option \<Rightarrow> unwind_outcome" where
  "held_outcome m i = \<lparr>uo_decision = ''held'', uo_reason = m, uo_trade = i, uo_request = None, uo_answer = None\<rparr>"

definition correlation_of :: "unwind_signal \<Rightarrow> string" where
  "correlation_of s =
     us_kind s @ '' signal '' @ us_machine s @ '':'' @ us_event s @ '' for lifecycle '' @ py_repr (us_label s)"

definition unwind_key :: "unwind_signal \<Rightarrow> string" where
  "unwind_key s = unwind_name (action_of s) @ '':signal:'' @ us_event s"

definition keep_reason :: "string \<Rightarrow> string \<Rightarrow> string \<Rightarrow> reason \<Rightarrow> int \<Rightarrow> journal \<Rightarrow> journal" where
  "keep_reason i k result r now j = committed j (record_reason i k 1 result r now j)"

definition refuse :: "unwind_signal \<Rightarrow> string \<Rightarrow> string \<Rightarrow> int \<Rightarrow> string \<Rightarrow> journal \<Rightarrow> journal" where
  "refuse s code message now i j =
     notify_stream (keep_reason i (unwind_key s) ''held''
       \<lparr>rs_origin = ''local'', rs_code = code, rs_summary = message,
        rs_evidence = ''local pre-check before any broker write; '' @ correlation_of s\<rparr> now j)"

definition unwind_accepted ::
  "router_env \<Rightarrow> (request \<Rightarrow> string) \<Rightarrow> unwind_signal \<Rightarrow> string \<Rightarrow> prepared_unwind \<Rightarrow> journal \<Rightarrow> unit res \<times> journal" where
  "unwind_accepted env shown s i p j =
     (case persist_accepted (en_accept_fault env) i (unwind_key s) (pu_update p) (en_now env) j of
        (Inl x, j1) \<Rightarrow> (Inl x, j1)
      | (Inr _, j1) \<Rightarrow>
          (Inr (), keep_reason i (unwind_key s) ''accepted''
             \<lparr>rs_origin = ''broker'', rs_code = ''OK'', rs_summary = pu_summary p,
              rs_evidence = ''broker write response status OK; request '' @ shown (pu_request p) @ ''; '' @ correlation_of s\<rparr>
             (en_now env) j1))"

text \<open>Our own client refused before the wire: the trade is released and the attempt held.\<close>

definition writes_disabled_text :: "unwind_signal \<Rightarrow> string \<Rightarrow> string" where
  "writes_disabled_text s i =
     ''Broker writes are disabled for this dashboard process (enable writes for this broker in your local .env); the '' @
     unwind_verb (action_of s) @ '' for trade '' @ i @ '' was not sent''"

definition release_unsent ::
  "unwind_signal \<Rightarrow> trade \<Rightarrow> exn \<Rightarrow> int \<Rightarrow> journal \<Rightarrow> journal" where
  "release_unsent s t x now j =
     (let i = tr_id t; j1 = store_update i (no_update\<lparr>up_state := Some (tr_state t)\<rparr>) now j;
          j2 = committed j1 (finish i (unwind_key s) At_held now j1)
      in notify_stream (keep_reason i (unwind_key s) ''held''
           \<lparr>rs_origin = ''local'', rs_code = exn_type x, rs_summary = writes_disabled_text s i,
            rs_evidence = ''client refused the write before any network activity; '' @ correlation_of s\<rparr> now j2))"

definition unwind_failed ::
  "router_env \<Rightarrow> unwind_signal \<Rightarrow> string \<Rightarrow> exn \<Rightarrow> journal \<Rightarrow> string res \<times> journal" where
  "unwind_failed env s i x j =
     (case record_failure (en_failure_fault env) i (unwind_key s) x (en_now env) j of
        (Inl y, j1) \<Rightarrow> (Inl y, j1)
      | (Inr (d, why), j1) \<Rightarrow>
          (Inr (why @ '': '' @ exn_type x @ '' during '' @ correlation_of s @ ''; see outcome_reasons for trade '' @ i), j1))"

definition unwind_write ::
  "router_env \<Rightarrow> (request \<Rightarrow> string) \<Rightarrow> unwind_signal \<Rightarrow> trade \<Rightarrow> unwind_api \<Rightarrow> prepared_unwind \<Rightarrow> journal
    \<Rightarrow> unwind_outcome res \<times> journal" where
  "unwind_write env shown s t api p j =
     (let i = tr_id t; answer = ba_write (ua_broker api) (pu_request p);
          uncertain = (\<lambda>x. case unwind_failed env s i x j of
             (Inl y, j1) \<Rightarrow> (Inl y, j1)
           | (Inr why, j1) \<Rightarrow> (Inr \<lparr>uo_decision = ''uncertain'', uo_reason = why, uo_trade = Some i,
                                  uo_request = Some (pu_request p), uo_answer = Some answer\<rparr>, notify_stream j1))
      in case answer of
           Inl x \<Rightarrow>
             if exn_type x = ''WritesDisabledError''
             then (Inr ((held_outcome (writes_disabled_text s i) (Some i))\<lparr>uo_request := Some (pu_request p)\<rparr>),
                   release_unsent s t x (en_now env) j)
             else uncertain x
         | Inr r \<Rightarrow>
             if op_status r \<noteq> Some ''OK'' then uncertain (unverified ''Explicit completion status required'')
             else (case unwind_accepted env shown s i p j of
                     (Inr _, j1) \<Rightarrow> (Inr \<lparr>uo_decision = ''accepted'', uo_reason = pu_summary p, uo_trade = Some i,
                                        uo_request = Some (pu_request p), uo_answer = Some answer\<rparr>, notify_stream j1)
                   | (Inl x, j1) \<Rightarrow>
                       (case unwind_failed env s i x j1 of
                          (Inl y, j2) \<Rightarrow> (Inl y, j2)
                        | (Inr why, j2) \<Rightarrow> (Inr \<lparr>uo_decision = ''uncertain'', uo_reason = why, uo_trade = Some i,
                                               uo_request = Some (pu_request p), uo_answer = Some answer\<rparr>,
                                            notify_stream j2))))"

definition preflight_failed :: "unwind_signal \<Rightarrow> string \<Rightarrow> exn \<Rightarrow> int \<Rightarrow> journal \<Rightarrow> unwind_outcome res \<times> journal" where
  "preflight_failed s i x now j =
     (let r = (case exn_reason x of Some y \<Rightarrow> y
               | None \<Rightarrow> local_reason x (''preflight failed before a broker write; '' @ correlation_of s))
      in case record_reason i (unwind_key s) 1 ''held'' r now j of
           Inl y \<Rightarrow> (Inl y, j)
         | Inr j1 \<Rightarrow> (Inr (held_outcome (''Preflight failed with '' @ exn_type x @ ''; no broker write was attempted'') (Some i)),
                     notify_stream j1))"

definition unwind_one ::
  "router_env \<Rightarrow> (request \<Rightarrow> string) \<Rightarrow> unwind_signal \<Rightarrow> trade \<Rightarrow> unwind_api option \<Rightarrow> string \<Rightarrow> bool \<Rightarrow> journal
    \<Rightarrow> unwind_outcome res \<times> journal \<times> write_log" where
  "unwind_one env shown s t api destination verified j =
     (let i = tr_id t; now = en_now env in
      case prepare_unwind j t s api destination verified now of
        (Inl (Refused code message), j1) \<Rightarrow>
          (Inr (held_outcome message (Some i)), refuse s code message now i j1, [])
      | (Inl (Failed x), j1) \<Rightarrow> (let (r, j2) = preflight_failed s i x now j1 in (r, j2, []))
      | (Inr p, j1) \<Rightarrow>
          (let (granted, j2) = claim i (unwind_key s)
                 (Some (us_event s, unwind_event (action_of s), destination, pu_request p)) now j1;
               message = ''Trade '' @ i @ '' already has an attempt in flight or recorded; no second write for '' @ correlation_of s
           in case (granted, api) of
                (True, Some a) \<Rightarrow>
                  (let j3 = store_update i (no_update\<lparr>up_last_request := Some (us_event s), up_last_event_at := Some (us_time s)\<rparr>) now j2;
                       (r, j4) = unwind_write env shown s t a p j3
                   in (r, j4, [((i, unwind_key s), pu_request p)]))
              | _ \<Rightarrow> (Inr (held_outcome message (Some i)), refuse s ''AlreadyAttempted'' message now i j2, [])))"

definition unwind_apply ::
  "router_env \<Rightarrow> (request \<Rightarrow> string) \<Rightarrow> unwind_signal \<Rightarrow> string option \<Rightarrow> unwind_api option \<Rightarrow> string \<Rightarrow> bool \<Rightarrow> journal
    \<Rightarrow> unwind_outcome option res \<times> journal \<times> write_log" where
  "unwind_apply env shown s trade_id api destination verified j =
     (let matches = (if truthy trade_id then (case find_trade j (opt_str trade_id) of Some t \<Rightarrow> [t] | None \<Rightarrow> [])
                     else linked_trades j (us_machine s) (us_label s))
      in case matches of
           [] \<Rightarrow> (Inr None, j, [])
         | [t] \<Rightarrow> (case unwind_one env shown s t api destination verified j of
                    (r, j1, ws) \<Rightarrow> (map_sum id Some r, j1, ws))
         | _ \<Rightarrow>
             (let message = int_str (int (length matches)) @ '' sent trades share lifecycle '' @ py_repr (us_label s) @ '' on '' @
                    us_machine s @ ''; the '' @ unwind_verb (action_of s) @ '' is ambiguous and nothing was sent''
              in (Inr (Some (held_outcome message None)),
                  fold (\<lambda>t. refuse s ''AmbiguousLifecycle'' message (en_now env) (tr_id t)) matches j, [])))"

subsection \<open>Claims\<close>

lemma claimed_keep_reason [simp]: "attempt_claimed (keep_reason i k result r now j) x = attempt_claimed j x"
  by (auto simp: keep_reason_def committed_def attempt_claimed_def dest: attempts_record_reason split: sum.splits)

lemma claimed_refuse [simp]: "attempt_claimed (refuse s code m now i j) x = attempt_claimed j x"
  by (simp add: refuse_def)

lemma claimed_observe_positions [simp]: "attempt_claimed (observe_positions i d now ps j) x = attempt_claimed j x"
  by (simp add: attempt_claimed_def)

lemma claimed_unwind_failed: "attempt_claimed (snd (unwind_failed env s i x j)) k = attempt_claimed j k"
  using claimed_record_failure[of "en_failure_fault env" i "unwind_key s" x "en_now env" j k]
  by (auto simp: unwind_failed_def split: prod.splits sum.splits)

lemma claimed_unwind_accepted: "attempt_claimed (snd (unwind_accepted env shown s i p j)) k = attempt_claimed j k"
  using claimed_persist[of "en_accept_fault env" i "unwind_key s" "pu_update p" "en_now env" j k]
  by (auto simp: unwind_accepted_def split: prod.splits sum.splits)

lemma claimed_committed_finish [simp]: "attempt_claimed (committed j (finish i k st now j)) x = attempt_claimed j x"
  by (cases "finish i k st now j") (simp_all add: claimed_finish)

lemma claimed_release [simp]: "attempt_claimed (release_unsent s t x now j) k = attempt_claimed j k"
  by (simp add: release_unsent_def Let_def)

lemma claimed_unwind_write: "attempt_claimed (snd (unwind_write env shown s t api p j)) k = attempt_claimed j k"
proof -
  have f: "\<And>x j'. unwind_failed env s (tr_id t) x j = (r, j') \<Longrightarrow> attempt_claimed j' k = attempt_claimed j k" for r j
    using claimed_unwind_failed by (metis snd_conv)
  have a: "unwind_accepted env shown s (tr_id t) p j = (r, j') \<Longrightarrow> attempt_claimed j' k = attempt_claimed j k" for r j'
    using claimed_unwind_accepted by (metis snd_conv)
  show ?thesis
    by (auto simp: unwind_write_def Let_def split: sum.splits prod.splits dest!: f a)
qed

lemma claimed_prepare_close: "attempt_claimed (snd (prepare_close j t api destination label now)) k = attempt_claimed j k"
  by (auto simp: prepare_close_def close_related_def Let_def split: sum.splits list.splits)

lemma claimed_prepare: "attempt_claimed (snd (prepare_unwind j t s api destination verified now)) k = attempt_claimed j k"
  by (auto simp: prepare_unwind_def claimed_prepare_close split: sum.splits)

lemma claimed_preflight_failed: "attempt_claimed (snd (preflight_failed s i x now j)) k = attempt_claimed j k"
  by (auto simp: preflight_failed_def Let_def attempt_claimed_def notify_stream_def dest: attempts_record_reason split: sum.splits)

lemma unwind_one_cases:
  obtains (silent) r j1 where "unwind_one env shown s t api destination verified j = (r, j1, [])"
      "\<And>k. attempt_claimed j1 k = attempt_claimed j k"
  | (sent) p j1 j2 a r j4 where "prepare_unwind j t s api destination verified (en_now env) = (Inr p, j1)" "api = Some a"
      "claim (tr_id t) (unwind_key s) (Some (us_event s, unwind_event (action_of s), destination, pu_request p)) (en_now env) j1
        = (True, j2)"
      "unwind_write env shown s t a p (store_update (tr_id t)
         (no_update\<lparr>up_last_request := Some (us_event s), up_last_event_at := Some (us_time s)\<rparr>) (en_now env) j2) = (r, j4)"
      "unwind_one env shown s t api destination verified j = (r, j4, [((tr_id t, unwind_key s), pu_request p)])"
proof -
  obtain x j1 where p: "prepare_unwind j t s api destination verified (en_now env) = (x, j1)" by (metis prod.exhaust)
  have j1: "attempt_claimed j1 k = attempt_claimed j k" for k
    using claimed_prepare[of j t s api destination verified "en_now env" k] p by simp
  show ?thesis
  proof (cases x)
    case (Inl st)
    then show ?thesis
    proof (cases st)
      case (Refused code m)
      then show ?thesis using silent[of _ "refuse s code m (en_now env) (tr_id t) j1"] p Inl j1 by (simp add: unwind_one_def Let_def)
    next
      case (Failed e)
      obtain r j2 where f: "preflight_failed s (tr_id t) e (en_now env) j1 = (r, j2)" by (metis prod.exhaust)
      have "attempt_claimed j2 k = attempt_claimed j k" for k
        using claimed_preflight_failed[of s "tr_id t" e "en_now env" j1 k] f j1 by simp
      then show ?thesis using silent[of r j2] p Inl Failed f by (simp add: unwind_one_def Let_def)
    qed
  next
    case (Inr q)
    let ?act = "Some (us_event s, unwind_event (action_of s), destination, pu_request q)"
    obtain g j2 where c: "claim (tr_id t) (unwind_key s) ?act (en_now env) j1 = (g, j2)" by (metis prod.exhaust)
    have api: "\<exists>a. api = Some a"
    proof (cases api)
      case None
      then have "\<exists>y. prepare_unwind j t s api destination verified (en_now env) = (Inl y, j)"
        by (auto simp: prepare_unwind_def unwind_checks_def Let_def split: sum.splits)
      with p Inr show ?thesis by simp
    qed simp
    show ?thesis
    proof (cases g)
      case True
      obtain a where a: "api = Some a" using api by blast
      obtain r j4 where "unwind_write env shown s t a q (store_update (tr_id t)
         (no_update\<lparr>up_last_request := Some (us_event s), up_last_event_at := Some (us_time s)\<rparr>) (en_now env) j2) = (r, j4)"
        by (metis prod.exhaust)
      then show ?thesis using sent[of q j1 a j2 r j4] p Inr c True a by (simp add: unwind_one_def Let_def)
    next
      case False
      then have "j2 = j1" using claim_refused[of "tr_id t" "unwind_key s" ?act "en_now env" j1] c by simp
      then show ?thesis using silent p Inr c False j1 api by (auto simp: unwind_one_def Let_def)
    qed
  qed
qed

lemma unwind_one_claimed:
  assumes "unwind_one env shown s t api destination verified j = (r, j', ws)"
  shows "(attempt_claimed j' k \<longleftrightarrow> attempt_claimed j k \<or> k \<in> set (map fst ws)) \<and>
    (k \<in> set (map fst ws) \<longrightarrow> \<not> attempt_claimed j k) \<and> distinct (map fst ws)"
proof (cases rule: unwind_one_cases[of env shown s t api destination verified j])
  case (silent r1 j1)
  with assms show ?thesis by simp
next
  case (sent p j1 j2 a r1 j4)
  let ?act = "Some (us_event s, unwind_event (action_of s), destination, pu_request p)"
  have j1: "attempt_claimed j1 y = attempt_claimed j y" for y
    using claimed_prepare[of j t s api destination verified "en_now env" y] sent(1) by simp
  have c: "attempt_claimed j2 y \<longleftrightarrow> attempt_claimed j1 y \<or> y = (tr_id t, unwind_key s)" for y
    using claim_attempts[of "tr_id t" "unwind_key s" ?act "en_now env" j1 y] sent(3) by simp
  have fresh: "\<not> attempt_claimed j1 (tr_id t, unwind_key s)"
    using claim_granted_iff[of "tr_id t" "unwind_key s" ?act "en_now env" j1] sent(3) by auto
  have "attempt_claimed j4 y = attempt_claimed j2 y" for y
    using claimed_unwind_write[of env shown s t a p _ y] sent(4) by (metis claimed_store_update snd_conv)
  with j1 c fresh sent(5) assms show ?thesis by auto
qed

lemma claimed_fold_refuse:
  "attempt_claimed (fold (\<lambda>t. refuse s code m now (tr_id t)) ts j) k = attempt_claimed j k"
  by (induction ts arbitrary: j) simp_all

lemma unwind_apply_claimed:
  assumes "unwind_apply env shown s trade_id api destination verified j = (r, j', ws)"
  shows "(attempt_claimed j' k \<longleftrightarrow> attempt_claimed j k \<or> k \<in> set (map fst ws)) \<and>
    (k \<in> set (map fst ws) \<longrightarrow> \<not> attempt_claimed j k) \<and> distinct (map fst ws)"
proof -
  define ms where "ms = (if truthy trade_id then (case find_trade j (opt_str trade_id) of Some t \<Rightarrow> [t] | None \<Rightarrow> [])
                     else linked_trades j (us_machine s) (us_label s))"
  show ?thesis
  proof (cases ms rule: remdups_adj.cases)
    case 1
    with assms show ?thesis by (simp add: unwind_apply_def ms_def[symmetric])
  next
    case (2 t)
    obtain r1 j1 w where "unwind_one env shown s t api destination verified j = (r1, j1, w)" by (metis prod.exhaust)
    with assms 2 unwind_one_claimed[OF this] show ?thesis by (simp add: unwind_apply_def ms_def[symmetric])
  next
    case (3 x y xs)
    with assms have "ws = []" "\<exists>m. j' = fold (\<lambda>t. refuse s ''AmbiguousLifecycle'' m (en_now env) (tr_id t)) ms j"
      by (auto simp: unwind_apply_def ms_def[symmetric] Let_def)
    then show ?thesis by (auto simp: claimed_fold_refuse)
  qed
qed

end
