(* ===== verification/WritePaths.thy ===== *)
theory WritePaths
  imports Unwind RouterProps
begin

text \<open>
  Every path that writes to the broker on a captured trade, together: the armed router
  (capture/router.py), the one-time send (capture/manual_send.py) and the unwinding of an ended
  lifecycle (capture/unwind.py), over one journal, with restarts.
\<close>

datatype write_input =
    Routed router_env string router "broker_api option" string capture_event
  | Sent router_env send_controls string volume_arg "broker_api option" string "route_config option"
  | Unwound router_env unwind_signal "string option" "unwind_api option" string bool
  | Restarted string int

fun write_step ::
  "(capture_event \<Rightarrow> string) \<Rightarrow> (request \<Rightarrow> string) \<Rightarrow> write_input \<Rightarrow> journal \<Rightarrow> journal \<times> (string \<times> string) list" where
  "write_step digest shown (Routed env uid rt api destination e) j =
     (case receive env digest uid rt api destination e j of (_, j', ws) \<Rightarrow> (j', map fst ws))"
| "write_step digest shown (Sent env controls i volume api destination route) j =
     (case send env controls i volume api destination route j of (_, j', ws) \<Rightarrow> (j', map fst ws))"
| "write_step digest shown (Unwound env s trade_id api destination verified) j =
     (case unwind_apply env shown s trade_id api destination verified j of (_, j', ws) \<Rightarrow> (j', map fst ws))"
| "write_step digest shown (Restarted broker now) j = (committed j (open_store broker now j), [])"

lemma write_step_claimed:
  "(attempt_claimed (fst (write_step digest shown a j)) k \<longleftrightarrow>
      attempt_claimed j k \<or> k \<in> set (snd (write_step digest shown a j))) \<and>
   (k \<in> set (snd (write_step digest shown a j)) \<longrightarrow> \<not> attempt_claimed j k) \<and>
   distinct (snd (write_step digest shown a j))"
proof (cases a)
  case (Routed env uid rt api destination e)
  obtain r j' ws where r: "receive env digest uid rt api destination e j = (r, j', ws)" by (metis prod.exhaust)
  then show ?thesis using receive_claimed[OF r] Routed by simp
next
  case (Sent env controls i volume api destination route)
  obtain r j' ws where r: "send env controls i volume api destination route j = (r, j', ws)" by (metis prod.exhaust)
  then show ?thesis using send_claimed[OF r] Sent by simp
next
  case (Unwound env s trade_id api destination verified)
  obtain r j' ws where r: "unwind_apply env shown s trade_id api destination verified j = (r, j', ws)" by (metis prod.exhaust)
  then show ?thesis using unwind_apply_claimed[OF r] Unwound by simp
next
  case (Restarted broker now)
  then show ?thesis by (cases "open_store broker now j") (simp_all add: claimed_open_store)
qed

interpretation write_runs: claimed_writes "write_step digest shown" attempt_claimed for digest shown
  by unfold_locales (use write_step_claimed in blast)+

subsection \<open>Properties\<close>

text \<open>
  Across every write path and any restarts, each attempt's broker write is sent at most once: a
  trade is opened by at most one order, whether the router, the bridge or an operator sends it, and
  an attempt on record is never sent again.
\<close>

theorem one_write_per_attempt:
  "distinct (snd (run_emits (write_step digest shown) ins j)) \<and>
   {k. attempt_claimed j k} \<inter> set (snd (run_emits (write_step digest shown) ins j)) = {}"
  using write_runs.run_at_most_once write_runs.run_fresh by blast

text \<open>
  C22: a one-time send writes only for an enabled source, a trade still observed, classified a
  candidate, without broker identity and never sent before, in paper or live, and never in paper
  mode.
\<close>

theorem send_writes_candidates:
  assumes "send env controls i volume api destination route j = (r, j', ws)" "w \<in> set ws"
  shows "fst w = (i, ''CREATE'') \<and> sc_mode controls \<noteq> ''paper'' \<and> \<not> already_sent j i \<and>
     (\<exists>t. find_trade j i = Some t \<and> tr_source t \<in> set (sc_sources controls) \<and> tr_state t = Observed \<and>
        vd_state (classify (snapshot j t)) = ''candidate'' \<and> tr_broker_order_id t = [] \<and> tr_broker_position_id t = [] \<and>
        (tr_destination t = [] \<or> tr_destination t = destination))"
proof (cases rule: send_cases[of env controls i volume api destination route j])
  case (silent r1 j1)
  with assms show ?thesis by simp
next
  case (sent p a q j1 r1 j3)
  from sent(1) obtain t where t: "find_trade j i = Some t" "trade_sendable j controls i destination t = Inr ()"
    by (auto simp: prepare_send_def bindE_Inr of_option_Inr)
  have "w = ((i, ''CREATE''), pd_request q)" using sent(7) assms by simp
  then show ?thesis using t sent(3) by (auto simp: trade_sendable_def Let_def split: if_splits)
qed

definition removes_exposure :: "trade \<Rightarrow> broker_api \<Rightarrow> request \<Rightarrow> bool" where
  "removes_exposure t api q \<longleftrightarrow>
     (rq_method q = ''cancel_pending_order'' \<and> tr_broker_order_id t \<noteq> [] \<and> rq_id q = tr_broker_order_id t) \<or>
     (rq_method q = ''close_position'' \<and>
        (\<exists>gs b. ba_open_positions api = Inr gs \<and> b \<in> set (unwind_related t (flat_positions gs)) \<and> rq_id q = bp_id b \<and>
           rq_volume q = Some (bp_volume b)))"

lemma pending_order_request_Inr:
  assumes "pending_order_request orders i stored = Inr q"
  shows "rq_method q = ''cancel_pending_order'' \<and> rq_id q = i"
proof -
  from assms obtain os where os: "orders = Inr os" by (auto simp: pending_order_request_def bindE_Inr)
  show ?thesis
  proof (cases "filter (\<lambda>r. od_id r = i) os" rule: remdups_adj.cases)
    case (2 r)
    then have "r \<in> set (filter (\<lambda>r. od_id r = i) os)" by simp
    then have "od_id r = i" by simp
    with assms os 2 show ?thesis by (auto simp: pending_order_request_def split: if_splits)
  qed (use assms os in \<open>auto simp: pending_order_request_def\<close>)
qed

lemma prepare_cancel_removes:
  assumes "prepare_cancel_order j t api label because now = Inr p" "tr_broker_order_id t \<noteq> []"
  shows "removes_exposure t api (pu_request p)"
proof -
  from assms(1) obtain q where "pending_order_request (ba_active_orders api) (tr_broker_order_id t) (stored_copy j t) = Inr q"
    "pu_request p = q"
    by (auto simp: prepare_cancel_order_def split: sum.splits if_splits)
  then show ?thesis using pending_order_request_Inr assms(2) by (auto simp: removes_exposure_def)
qed

lemma prepare_close_removes:
  assumes "prepare_close j t api destination label now = (Inr p, j1)"
  shows "removes_exposure t api (pu_request p)"
proof -
  from assms obtain gs where gs: "ba_open_positions api = Inr gs"
    by (auto simp: prepare_close_def split: sum.splits)
  define related where "related = unwind_related t (flat_positions gs)"
  from assms gs obtain j2 where c: "close_related j2 t api label related now = (Inr p, j1)"
    unfolding prepare_close_def by (auto simp: Let_def related_def[symmetric] split: sum.splits if_splits)
  show ?thesis
  proof (cases related rule: remdups_adj.cases)
    case 1
    with c have "prepare_cancel_order j2 t api label ''close (the copy was still a resting order)'' now = Inr p"
      "tr_broker_order_id t \<noteq> []" by (auto simp: close_related_def split: if_splits)
    then show ?thesis by (rule prepare_cancel_removes)
  next
    case (2 b)
    with c have "pu_request p = close_request b" by (auto simp: close_related_def)
    moreover have "b \<in> set related" using 2 by simp
    ultimately show ?thesis using gs by (auto simp: removes_exposure_def close_request_def related_def)
  next
    case (3 x y xs)
    with c show ?thesis by (auto simp: close_related_def)
  qed
qed

text \<open>
  C23: unwinding only removes exposure: every write cancels the trade's own recorded broker order or
  closes one position the broker returned for it, and only for a trade sent to the selected
  destination that is neither in flight, uncertain nor resolved.
\<close>

theorem unwind_only_removes:
  assumes "unwind_one env shown s t api destination verified j = (r, j', ws)" "w \<in> set ws"
  shows "\<exists>a. api = Some a \<and> verified \<and> ua_account a = Some destination \<and> ua_writes a \<and> tr_destination t = destination \<and>
     tr_state t \<notin> {Uncertain, Dispatching, Resolved} \<and> removes_exposure t (ua_broker a) (snd w)"
proof (cases rule: unwind_one_cases[of env shown s t api destination verified j])
  case (silent r1 j1)
  with assms show ?thesis by simp
next
  case (sent p j1 j2 a r1 j4)
  obtain b where b: "unwind_checks j t s api destination verified = Inr b"
    using sent(1) by (auto simp: prepare_unwind_def split: sum.splits)
  then have chk: "api = Some b" "verified" "ua_account b = Some destination" "ua_writes b" "tr_destination t = destination"
    "tr_state t \<notin> {Uncertain, Dispatching, Resolved}"
    by (auto simp: unwind_checks_def Let_def split: if_splits option.splits)
  have "removes_exposure t (ua_broker b) (pu_request p)"
    using sent(1) b prepare_cancel_removes prepare_close_removes
    by (auto simp: prepare_unwind_def split: if_splits)
  moreover have "w = ((tr_id t, unwind_key s), pu_request p)" using sent(5) assms by simp
  ultimately show ?thesis using chk by auto
qed

subsection \<open>Concrete runs\<close>

definition sample_journal :: journal where
  "sample_journal =
     committed (empty_journal ''B'')
       (bindE (record_event ev_symbol ''t1'' 0 sample_order (empty_journal ''B'')) (\<lambda>(_, j). Inr j))"

definition sample_controls :: send_controls where
  "sample_controls = \<lparr>sc_mode = ''live'', sc_sources = [S_P01]\<rparr>"

definition sample_send :: "send_reply res \<times> journal \<times> write_log" where
  "sample_send =
     send sample_env sample_controls ''t1'' (Volume (Dec 1 0)) (Some (sample_broker sample_confirmed)) ''A'' None sample_journal"

lemma sample_send_run: "case sample_send of (r, j', [(k, q)]) \<Rightarrow> True | _ \<Rightarrow> False"
  by code_simp

theorem send_writes_candidates_witness:
  "\<exists>r j' w. sample_send = (r, j', [w]) \<and> fst w = (''t1'', ''CREATE'')"
proof -
  obtain r j' ws where r: "sample_send = (r, j', ws)" by (metis prod.exhaust)
  have "case ws of [_] \<Rightarrow> True | _ \<Rightarrow> False"
    using sample_send_run unfolding r by (simp split: list.splits prod.splits)
  then obtain w where w: "ws = [w]" by (cases ws rule: remdups_adj.cases) auto
  with r have "send sample_env sample_controls ''t1'' (Volume (Dec 1 0)) (Some (sample_broker sample_confirmed)) ''A'' None
      sample_journal = (r, j', [w])" by (simp add: sample_send_def)
  from send_writes_candidates[OF this, of w] have "fst w = (''t1'', ''CREATE'')" by simp
  then show ?thesis using r w by blast
qed

definition sample_open_trade :: trade where
  "sample_open_trade =
     (new_trade ''t1'' 0 sample_order)\<lparr>tr_destination := ''A'', tr_broker_order_id := ''b1'', tr_state := Pending,
        tr_symbol := ''EURUSD'', tr_side := ''BUY'', tr_order_type := ''LIMIT''\<rparr>"

definition sample_unwind_api :: unwind_api where
  "sample_unwind_api =
     \<lparr>ua_broker = (sample_broker sample_confirmed)\<lparr>ba_active_orders := Inr
        [\<lparr>od_id = ''b1'', od_symbol = ''EURUSD'', od_side = ''BUY'', od_type = ''LIMIT'', od_volume = Dec 1 0,
          od_activation = Dec 9 0, od_stop_loss = None, od_take_profit = None\<rparr>]\<rparr>,
      ua_account = Some ''A'', ua_writes = True\<rparr>"

definition sample_cancel :: unwind_signal where
  "sample_cancel =
     \<lparr>us_kind = ''cancelled'', us_machine = ''m'', us_event = ''x1'', us_label = ''L1'', us_symbol = [], us_time = 5\<rparr>"

definition sample_unwind :: "unwind_outcome res \<times> journal \<times> write_log" where
  "sample_unwind =
     unwind_one sample_env rq_method sample_cancel sample_open_trade (Some sample_unwind_api) ''A'' True
       ((empty_journal ''B'')\<lparr>j_trades := [sample_open_trade]\<rparr>)"

lemma sample_unwind_run: "case sample_unwind of (r, j', [(k, q)]) \<Rightarrow> True | _ \<Rightarrow> False"
  by code_simp

theorem unwind_only_removes_witness:
  "\<exists>r j' w. sample_unwind = (r, j', [w]) \<and> removes_exposure sample_open_trade (ua_broker sample_unwind_api) (snd w)"
proof -
  obtain r j' ws where r: "sample_unwind = (r, j', ws)" by (metis prod.exhaust)
  have "case ws of [_] \<Rightarrow> True | _ \<Rightarrow> False"
    using sample_unwind_run unfolding r by (simp split: list.splits prod.splits)
  then obtain w where w: "ws = [w]" by (cases ws rule: remdups_adj.cases) auto
  with r have "unwind_one sample_env rq_method sample_cancel sample_open_trade (Some sample_unwind_api) ''A'' True
       ((empty_journal ''B'')\<lparr>j_trades := [sample_open_trade]\<rparr>) = (r, j', [w])" by (simp add: sample_unwind_def)
  from unwind_only_removes[OF this, of w] have "removes_exposure sample_open_trade (ua_broker sample_unwind_api) (snd w)" by simp
  then show ?thesis using r w by blast
qed

end
