(* ===== verification/StopLimit.thy ===== *)
theory StopLimit
  imports BrokerApi
begin

text \<open>
  Client-side STOP_LIMIT emulation (orders/stop_limit.py): the trigger decision for one quote and the
  watcher that drives one plan to a terminal state. The clock, the quote and the broker are arguments
  of a poll; \<open>jf\<close> says whether the journal callback raises when a state is recorded.
\<close>

datatype watch_state = W_armed | W_dispatching | W_working | W_filled | W_held | W_cancelled | W_expired

datatype route = R_wait | R_market | R_rest_limit | R_hold

record stop_plan =
  sp_instrument :: string
  sp_side :: string
  sp_volume :: decimal
  sp_stop :: decimal
  sp_limit :: decimal
  sp_sl :: decimal
  sp_tp :: decimal
  sp_expire_after :: decimal

definition validation_error :: exn where
  "validation_error = Exn ''ValidationError'' ''validation error'' None"

definition make_stop_plan :: "stop_plan \<Rightarrow> stop_plan res" where
  "make_stop_plan p =
     (if sp_instrument p = [] \<or> sp_side p \<notin> {''BUY'', ''SELL''} \<or> dle (sp_volume p) dzero \<or> dle (sp_stop p) dzero \<or>
         dle (sp_limit p) dzero \<or> dlt (sp_sl p) dzero \<or> dlt (sp_tp p) dzero \<or> dlt (sp_expire_after p) dzero
      then Inl validation_error
      else if sp_side p = ''BUY'' \<and> buy_brackets_wrong (sp_limit p) (sp_sl p) (sp_tp p)
      then Inl (Exn ''ValidationError'' ''BUY brackets are on the wrong side of the limit price'' None)
      else if sp_side p = ''SELL'' \<and> sell_brackets_wrong (sp_limit p) (sp_sl p) (sp_tp p)
      then Inl (Exn ''ValidationError'' ''SELL brackets are on the wrong side of the limit price'' None)
      else Inr p)"

record stop_decision =
  sd_route :: route
  sd_reason :: string
  sd_price :: "decimal option"

record market_quote =
  mq_bid :: decimal
  mq_ask :: decimal

definition trigger_price :: "string \<Rightarrow> market_quote \<Rightarrow> decimal" where
  "trigger_price side q = (if side = ''BUY'' then mq_ask q else mq_bid q)"

definition stop_decide :: "stop_plan \<Rightarrow> market_quote \<Rightarrow> decimal \<Rightarrow> stop_decision" where
  "stop_decide p q stops_level =
     (let market = trigger_price (sp_side p) q; buy = (sp_side p = ''BUY'') in
      if (if buy then dlt market (sp_stop p) else dlt (sp_stop p) market)
      then \<lparr>sd_route = R_wait,
            sd_reason = (if buy then ''Ask has not reached the stop price'' else ''Bid has not reached the stop price''),
            sd_price = None\<rparr>
      else if (if buy then dle market (sp_limit p) else dle (sp_limit p) market)
      then \<lparr>sd_route = R_market, sd_reason = ''Triggered inside the limit price'', sd_price = Some market\<rparr>
      else if dtrue stops_level \<and>
              dlt (if buy then dsub market (sp_limit p) else dsub (sp_limit p) market) stops_level
      then \<lparr>sd_route = R_hold, sd_reason = ''Limit price is inside the broker stops level'', sd_price = Some (sp_limit p)\<rparr>
      else \<lparr>sd_route = R_rest_limit, sd_reason = ''Triggered beyond the limit price'', sd_price = Some (sp_limit p)\<rparr>)"

subsection \<open>The watcher\<close>

record watcher =
  wt_plan :: stop_plan
  wt_state :: watch_state
  wt_order :: "string option"
  wt_reason :: string
  wt_stops_level :: decimal

definition new_watcher :: "stop_plan \<Rightarrow> watcher" where
  "new_watcher p = \<lparr>wt_plan = p, wt_state = W_armed, wt_order = None, wt_reason = [], wt_stops_level = dzero\<rparr>"

definition load_limits :: "(instrument_row \<times> decimal option) list res \<Rightarrow> watcher \<Rightarrow> watcher res" where
  "load_limits rows w =
     bindE rows (\<lambda>rs. case filter (\<lambda>r. in_symbol (fst r) = sp_instrument (wt_plan w)) rs of
       [r] \<Rightarrow> Inr (w\<lparr>wt_stops_level := (case snd r of Some d \<Rightarrow> d | None \<Rightarrow> dzero)\<rparr>)
     | _ \<Rightarrow> Inl (value_error ''Destination instrument is not uniquely available''))"

text \<open>\<open>_record\<close> sets the state first; a raising journal leaves it set.\<close>

definition record_state ::
  "(watch_state \<Rightarrow> exn option) \<Rightarrow> watch_state \<Rightarrow> string \<Rightarrow> watcher \<Rightarrow> watch_state res \<times> watcher" where
  "record_state jf s why w =
     ((case jf s of Some x \<Rightarrow> Inl x | None \<Rightarrow> Inr s), w\<lparr>wt_state := s, wt_reason := why\<rparr>)"

definition watcher_reason :: "watcher \<Rightarrow> exn \<Rightarrow> reason" where
  "watcher_reason w e =
     (case exn_reason e of
        Some r \<Rightarrow>
          if rs_origin r \<noteq> [] \<and> rs_code r \<noteq> [] \<and> rs_evidence r \<noteq> [] then r
          else unconfirmed_reason e (sp_instrument (wt_plan w) @ ''/'' @ sp_side (wt_plan w) @ '' stop-limit watcher'')
      | None \<Rightarrow> unconfirmed_reason e (sp_instrument (wt_plan w) @ ''/'' @ sp_side (wt_plan w) @ '' stop-limit watcher''))"

definition held_text :: "reason \<Rightarrow> string" where
  "held_text r =
     ''Dispatch outcome unverified ('' @ rs_origin r @ ''/'' @ rs_code r @ ''): '' @
     str_or (str_or (rs_summary r) (rs_evidence r)) ''no further detail available''"

definition market_request :: "stop_plan \<Rightarrow> request" where
  "market_request p =
     \<lparr>rq_method = ''open_position'', rq_instrument = sp_instrument p, rq_side = sp_side p, rq_id = [], rq_type = [],
      rq_volume = Some (sp_volume p), rq_price = None, rq_sl = Some (sp_sl p), rq_tp = Some (sp_tp p)\<rparr>"

definition rest_request :: "stop_plan \<Rightarrow> request" where
  "rest_request p =
     (market_request p)\<lparr>rq_method := ''create_pending_order'', rq_type := ''LIMIT'', rq_price := Some (sp_limit p)\<rparr>"

definition first_id :: "string option \<Rightarrow> string option \<Rightarrow> string option" where
  "first_id a b = (if truthy a then a else b)"

text \<open>
  An operation response has no \<open>id\<close> field of its own, so \<open>orderId or id\<close> is the order id or none.
  The states a poll reports when the write returned or raised; the journal cannot change them.\<close>

definition after_write :: "(watch_state \<Rightarrow> exn option) \<Rightarrow> route \<Rightarrow> operation res \<Rightarrow> watcher \<Rightarrow> watch_state \<times> watcher" where
  "after_write jf r answer w =
     (case answer of
        Inl e \<Rightarrow> (W_held, snd (record_state jf W_held (held_text (watcher_reason w e)) w))
      | Inr op \<Rightarrow>
          if r = R_market
          then (W_filled, snd (record_state jf W_filled ''Filled at market within the limit price''
                  (w\<lparr>wt_order := first_id (op_position_id op) (op_order_id op)\<rparr>)))
          else (W_working, snd (record_state jf W_working ''Resting LIMIT placed after the trigger''
                  (w\<lparr>wt_order := first_id (op_order_id op) None\<rparr>))))"

definition poll ::
  "(watch_state \<Rightarrow> exn option) \<Rightarrow> decimal \<Rightarrow> market_quote res \<Rightarrow> (request \<Rightarrow> operation res) \<Rightarrow> watcher
    \<Rightarrow> watch_state res \<times> watcher \<times> request list" where
  "poll jf elapsed quote_read wr w =
     (let p = wt_plan w in
      if wt_state w \<noteq> W_armed then (Inr (wt_state w), w, [])
      else if dtrue (sp_expire_after p) \<and> dlt (sp_expire_after p) elapsed
      then (case record_state jf W_expired ''Trigger window elapsed before the stop price'' w of (r, w1) \<Rightarrow> (r, w1, []))
      else case quote_read of
        Inl x \<Rightarrow> (Inl x, w, [])
      | Inr q \<Rightarrow>
          (let d = stop_decide p q (wt_stops_level w) in
           case sd_route d of
             R_wait \<Rightarrow> (Inr W_armed, w, [])
           | R_hold \<Rightarrow> (case record_state jf W_held (sd_reason d) w of (r, w1) \<Rightarrow> (r, w1, []))
           | rt \<Rightarrow>
               (case record_state jf W_dispatching (sd_reason d) w of
                  (Inl x, w1) \<Rightarrow> (Inl x, w1, [])
                | (Inr _, w1) \<Rightarrow>
                    (let req = (if rt = R_market then market_request p else rest_request p);
                         (s, w2) = after_write jf rt (wr req) w1
                     in (Inr s, w2, [req])))))"

text \<open>\<open>cancel\<close> names only the instrument and the id of the resting order.\<close>

definition cancel_request :: "watcher \<Rightarrow> request" where
  "cancel_request w =
     \<lparr>rq_method = ''cancel_pending_order'', rq_instrument = sp_instrument (wt_plan w), rq_side = [],
      rq_id = opt_str (wt_order w), rq_type = [], rq_volume = None, rq_price = None, rq_sl = None, rq_tp = None\<rparr>"

definition cancel_watch ::
  "(watch_state \<Rightarrow> exn option) \<Rightarrow> (request \<Rightarrow> operation res) \<Rightarrow> watcher \<Rightarrow> watch_state res \<times> watcher" where
  "cancel_watch jf wr w =
     (if wt_state w = W_armed then record_state jf W_cancelled ''Cancelled before the stop price was reached'' w
      else if wt_state w = W_working \<and> truthy (wt_order w)
      then (case wr (cancel_request w) of
              Inl x \<Rightarrow> (Inl x, w)
            | Inr _ \<Rightarrow> record_state jf W_cancelled ''Resting LIMIT cancelled at the broker'' w)
      else (Inr (wt_state w), w))"

subsection \<open>The broker facade checks each request\<close>

text \<open>
  The request models (models/*_request.py): the facade validates a request before anything is sent.
\<close>

text \<open>The models strip white space from both ends of the instrument and the id before they check them.\<close>

definition trim :: "string \<Rightarrow> string" where
  "trim s = (let sp = (\<lambda>c. of_char c \<in> {9::nat, 10, 11, 12, 13, 32, 0x85, 0xA0})
             in rev (dropWhile sp (rev (dropWhile sp s))))"

definition trimmed :: "request \<Rightarrow> request" where
  "trimmed q = q\<lparr>rq_instrument := trim (rq_instrument q), rq_id := trim (rq_id q)\<rparr>"

definition order_side_ok :: "request \<Rightarrow> bool" where
  "order_side_ok q \<longleftrightarrow> rq_side q \<in> {''BUY'', ''SELL''}"

definition positive_of :: "decimal option \<Rightarrow> bool" where
  "positive_of d = (case d of Some x \<Rightarrow> coef x > 0 | None \<Rightarrow> False)"

definition bracket_ok :: "decimal option \<Rightarrow> bool" where
  "bracket_ok d = (case d of Some x \<Rightarrow> coef x \<ge> 0 | None \<Rightarrow> True)"

definition valid_open_position :: "request \<Rightarrow> bool" where
  "valid_open_position q \<longleftrightarrow>
     rq_instrument q \<noteq> [] \<and> order_side_ok q \<and> positive_of (rq_volume q) \<and> bracket_ok (rq_sl q) \<and> bracket_ok (rq_tp q)"

definition valid_create_pending :: "request \<Rightarrow> bool" where
  "valid_create_pending q \<longleftrightarrow>
     valid_open_position q \<and> positive_of (rq_price q) \<and> rq_type q \<in> {''LIMIT'', ''STOP''}"

definition valid_edit_pending :: "request \<Rightarrow> bool" where
  "valid_edit_pending q \<longleftrightarrow> valid_create_pending q \<and> rq_id q \<noteq> []"

definition valid_edit_position :: "request \<Rightarrow> bool" where
  "valid_edit_position q \<longleftrightarrow> valid_open_position q \<and> rq_id q \<noteq> []"

definition valid_close_position :: "request \<Rightarrow> bool" where
  "valid_close_position q \<longleftrightarrow>
     rq_id q \<noteq> [] \<and> rq_instrument q \<noteq> [] \<and> order_side_ok q \<and> positive_of (rq_volume q)"

definition valid_partial_close :: "request \<Rightarrow> bool" where
  "valid_partial_close q \<longleftrightarrow>
     rq_id q \<noteq> [] \<and> positive_of (rq_volume q) \<and> rq_instrument q \<noteq> [] \<and> order_side_ok q"

definition valid_cancel :: "request \<Rightarrow> bool" where
  "valid_cancel q \<longleftrightarrow>
     rq_instrument q \<noteq> [] \<and> rq_id q \<noteq> [] \<and> order_side_ok q \<and> rq_type q \<in> {''LIMIT'', ''STOP''}"

definition valid_request :: "request \<Rightarrow> bool" where
  "valid_request q \<longleftrightarrow>
     (if rq_method q = ''open_position'' then valid_open_position q
      else if rq_method q = ''create_pending_order'' then valid_create_pending q
      else if rq_method q = ''edit_pending_order'' then valid_edit_pending q
      else if rq_method q = ''edit_position'' then valid_edit_position q
      else if rq_method q = ''close_position'' then valid_close_position q
      else if rq_method q = ''partial_close'' then valid_partial_close q
      else if rq_method q = ''cancel_pending_order'' then valid_cancel q
      else False)"

definition facade :: "(request \<Rightarrow> operation res) \<Rightarrow> request \<Rightarrow> operation res" where
  "facade wire q = (if valid_request (trimmed q) then wire (trimmed q) else Inl validation_error)"

subsection \<open>Runs of a watcher\<close>

datatype watch_input = Polled "watch_state \<Rightarrow> exn option" decimal "market_quote res" "request \<Rightarrow> operation res"
  | Cancelled "watch_state \<Rightarrow> exn option" "request \<Rightarrow> operation res"

text \<open>The step reports the opening write a poll sent, under one key: the plan is dispatched once.\<close>

fun watch_step :: "watch_input \<Rightarrow> watcher \<Rightarrow> watcher \<times> unit list" where
  "watch_step (Polled jf elapsed q wr) w =
     (case poll jf elapsed q wr w of (_, w1, ws) \<Rightarrow> (w1, map (\<lambda>_. ()) ws))"
| "watch_step (Cancelled jf wr) w = (snd (cancel_watch jf wr w), [])"

definition dispatched :: "watcher \<Rightarrow> unit \<Rightarrow> bool" where
  "dispatched w k \<longleftrightarrow> wt_state w \<noteq> W_armed"

lemma record_state_snd [simp]: "snd (record_state jf s why w) = w\<lparr>wt_state := s, wt_reason := why\<rparr>"
  by (simp add: record_state_def)

lemma after_write_state: "after_write jf r a w = (s, w') \<Longrightarrow> wt_state w' = s \<and> s \<in> {W_held, W_filled, W_working}"
  by (auto simp: after_write_def split: sum.splits if_splits)

lemma poll_cases:
  obtains (idle) r where "poll jf el q wr w = (r, w, [])"
  | (ended) r s why where "poll jf el q wr w = (r, w\<lparr>wt_state := s, wt_reason := why\<rparr>, [])" "s \<noteq> W_armed" "wt_state w = W_armed"
  | (wrote) qt d req s w2 where "wt_state w = W_armed" "q = Inr qt" "d = stop_decide (wt_plan w) qt (wt_stops_level w)"
      "sd_route d = R_market \<and> req = market_request (wt_plan w) \<or> sd_route d = R_rest_limit \<and> req = rest_request (wt_plan w)"
      "after_write jf (sd_route d) (wr req) (w\<lparr>wt_state := W_dispatching, wt_reason := sd_reason d\<rparr>) = (s, w2)"
      "poll jf el q wr w = (Inr s, w2, [req])"
proof (cases "wt_state w = W_armed")
  case False
  then show ?thesis by (intro idle[of "Inr (wt_state w)"]) (simp add: poll_def Let_def)
next
  case armed: True
  show ?thesis
  proof (cases "dtrue (sp_expire_after (wt_plan w)) \<and> dlt (sp_expire_after (wt_plan w)) el")
    case True
    then show ?thesis using armed
      by (intro ended[where s = W_expired]) (simp_all add: poll_def Let_def record_state_def)
  next
    case live: False
    show ?thesis
    proof (cases q)
      case (Inl x)
      then show ?thesis using armed live by (intro idle[of "Inl x"]) (auto simp: poll_def Let_def)
    next
      case (Inr qt)
      define d where "d = stop_decide (wt_plan w) qt (wt_stops_level w)"
      have go: ?thesis if rt: "sd_route d = R_market \<or> sd_route d = R_rest_limit"
      proof (cases "jf W_dispatching")
        case (Some x)
        then show ?thesis using armed live Inr rt
          by (intro ended[where s = W_dispatching and why = "sd_reason d"]) (auto simp: poll_def Let_def d_def record_state_def)
      next
        case None
        define req where "req = (if sd_route d = R_market then market_request (wt_plan w) else rest_request (wt_plan w))"
        obtain s w2 where a: "after_write jf (sd_route d) (wr req) (w\<lparr>wt_state := W_dispatching, wt_reason := sd_reason d\<rparr>) = (s, w2)"
          by (metis prod.exhaust)
        have "poll jf el q wr w = (Inr s, w2, [req])"
          using armed live Inr rt None a by (auto simp: poll_def Let_def d_def[symmetric] record_state_def req_def)
        then show ?thesis using wrote[of qt d req s w2] armed Inr d_def rt a by (auto simp: req_def)
      qed
      show ?thesis
      proof (cases "sd_route d")
        case R_wait
        then show ?thesis using armed live Inr by (intro idle[of "Inr W_armed"]) (auto simp: poll_def Let_def d_def)
      next
        case R_hold
        then show ?thesis using armed live Inr
          by (intro ended[where s = W_held and why = "sd_reason d"]) (auto simp: poll_def Let_def d_def record_state_def)

      qed (use go in simp_all)
    qed
  qed
qed

lemma poll_step:
  assumes "poll jf el q wr w = (r, w', ws)"
  shows "ws = [] \<or> (wt_state w = W_armed \<and> wt_state w' \<noteq> W_armed \<and> length ws = 1)"
    and "wt_state w \<noteq> W_armed \<Longrightarrow> w' = w"
  using assms by (cases rule: poll_cases[of jf el q wr w]; auto dest: after_write_state)+

interpretation watch_runs: claimed_writes watch_step dispatched
proof
  fix a :: watch_input and w :: watcher and k :: unit
  show "k \<in> set (snd (watch_step a w)) \<Longrightarrow> \<not> dispatched w k"
    by (cases a) (auto simp: dispatched_def split: prod.splits dest: poll_step)
  show "k \<in> set (snd (watch_step a w)) \<Longrightarrow> dispatched (fst (watch_step a w)) k"
    by (cases a) (auto simp: dispatched_def split: prod.splits dest: poll_step)
  show "distinct (snd (watch_step a w))"
  proof (cases a)
    case (Polled jf el q wr)
    obtain r w' ws where p: "poll jf el q wr w = (r, w', ws)" by (metis prod.exhaust)
    show ?thesis using poll_step(1)[OF p] p Polled by (cases ws) auto
  qed simp
  show "dispatched w k \<Longrightarrow> dispatched (fst (watch_step a w)) k"
    by (cases a) (auto simp: dispatched_def cancel_watch_def record_state_def split: prod.splits sum.splits dest: poll_step)
qed

subsection \<open>Properties\<close>

text \<open>
  Whatever quotes, answers, journal failures and cancels a watcher sees, its plan sends at most one
  opening write, and none at all once it has left ARMED: a recorded DISPATCHING state is never retried.
\<close>

theorem plan_dispatched_once:
  "length (snd (run_emits watch_step ins w)) \<le> 1 \<and>
   (wt_state w \<noteq> W_armed \<longrightarrow> snd (run_emits watch_step ins w) = [])"
proof -
  have "distinct (snd (run_emits watch_step ins w))" by (rule watch_runs.run_at_most_once)
  then have "length (snd (run_emits watch_step ins w)) = card (set (snd (run_emits watch_step ins w)))"
    by (simp add: distinct_card)
  also have "\<dots> \<le> card {()}" by (rule card_mono) auto
  finally have one: "length (snd (run_emits watch_step ins w)) \<le> 1" by simp
  have "snd (run_emits watch_step ins w) = []" if "wt_state w \<noteq> W_armed"
    using watch_runs.run_fresh[of _ ins w] that by (metis dispatched_def last_in_set)
  with one show ?thesis by simp
qed

definition sample_stop_plan :: stop_plan where
  "sample_stop_plan =
     \<lparr>sp_instrument = ''EURUSD'', sp_side = ''BUY'', sp_volume = Dec 1 0, sp_stop = Dec 5 0, sp_limit = Dec 6 0,
      sp_sl = Dec 4 0, sp_tp = Dec 8 0, sp_expire_after = dzero\<rparr>"

definition sample_operation :: operation where
  "sample_operation = \<lparr>op_status = Some ''OK'', op_order_id = Some ''o1'', op_position_id = None\<rparr>"

theorem plan_dispatched_once_witness:
  "length (snd (run_emits watch_step
     [Polled (\<lambda>_. None) dzero (Inr \<lparr>mq_bid = Dec 5 0, mq_ask = Dec 5 0\<rparr>) (\<lambda>_. Inr sample_operation)]
     ((new_watcher sample_stop_plan)\<lparr>wt_state := W_held\<rparr>))) = 0"
  using plan_dispatched_once[of "[Polled (\<lambda>_. None) dzero (Inr \<lparr>mq_bid = Dec 5 0, mq_ask = Dec 5 0\<rparr>) (\<lambda>_. Inr sample_operation)]"
      "(new_watcher sample_stop_plan)\<lparr>wt_state := W_held\<rparr>"] by simp

lemma dlt_not_dle: "dlt a b \<longleftrightarrow> \<not> dle b a"
  by (auto simp: dec_simps)

lemma coef_sign: "dval d < 0 \<longleftrightarrow> coef d < 0" "dval d \<le> 0 \<longleftrightarrow> coef d \<le> 0"
  by (auto simp: dval_def mult_less_0_iff mult_le_0_iff)

lemma made_plan_requests_valid:
  assumes "make_stop_plan p = Inr p" "trim (sp_instrument p) \<noteq> []"
  shows "valid_request (trimmed (market_request p)) \<and> valid_request (trimmed (rest_request p))"
  using assms by (auto simp: trimmed_def make_stop_plan_def valid_request_def market_request_def rest_request_def valid_open_position_def
      valid_create_pending_def order_side_ok_def positive_of_def bracket_ok_def dec_simps coef_sign not_less not_le split: if_splits)

text \<open>
  C9: a plan that the constructor accepted opens only after the executable price reached its stop:
  at market when that price is within the limit, otherwise as a LIMIT order at the limit price and
  never closer to the market than the broker's stops level; the facade accepts the request of a plan whose instrument is not blank.
\<close>

theorem stop_write_on_terms:
  assumes "poll jf el q wr w = (r, w', ws)" "req \<in> set ws" "make_stop_plan (wt_plan w) = Inr (wt_plan w)"
    "trim (sp_instrument (wt_plan w)) \<noteq> []"
  shows "\<exists>qt. q = Inr qt \<and> wt_state w = W_armed \<and> valid_request (trimmed req) \<and>
     (let p = wt_plan w; m = trigger_price (sp_side p) qt; buy = (sp_side p = ''BUY'') in
      (if buy then dle (sp_stop p) m else dle m (sp_stop p)) \<and>
      (if (if buy then dle m (sp_limit p) else dle (sp_limit p) m) then req = market_request p
       else req = rest_request p \<and>
         (dtrue (wt_stops_level w) \<longrightarrow>
            dle (wt_stops_level w) (if buy then dsub m (sp_limit p) else dsub (sp_limit p) m))))"
proof (cases rule: poll_cases[of jf el q wr w])
  case (wrote qt d req1 s w2)
  have "req = req1" using wrote(6) assms(1,2) by simp
  then show ?thesis
    using wrote(1-4) made_plan_requests_valid[OF assms(3,4)]
    by (auto simp: stop_decide_def Let_def dlt_not_dle split: if_splits)
qed (use assms in auto)

theorem stop_write_on_terms_witness:
  "\<exists>w'. poll (\<lambda>_. None) dzero (Inr \<lparr>mq_bid = Dec 5 0, mq_ask = Dec 5 0\<rparr>) (\<lambda>_. Inr sample_operation)
     (new_watcher sample_stop_plan) = (Inr W_filled, w', [market_request sample_stop_plan]) \<and>
   valid_request (trimmed (market_request sample_stop_plan))"
proof -
  have m: "make_stop_plan sample_stop_plan = Inr sample_stop_plan" by code_simp
  have n: "trim (sp_instrument sample_stop_plan) \<noteq> []" by code_simp
  have "case poll (\<lambda>_. None) dzero (Inr \<lparr>mq_bid = Dec 5 0, mq_ask = Dec 5 0\<rparr>) (\<lambda>_. Inr sample_operation)
     (new_watcher sample_stop_plan) of (r, w', ws) \<Rightarrow> r = Inr W_filled \<and> ws = [market_request sample_stop_plan]"
    by code_simp
  then obtain w' where p: "poll (\<lambda>_. None) dzero (Inr \<lparr>mq_bid = Dec 5 0, mq_ask = Dec 5 0\<rparr>) (\<lambda>_. Inr sample_operation)
     (new_watcher sample_stop_plan) = (Inr W_filled, w', [market_request sample_stop_plan])"
    by (auto split: prod.splits)
  have "wt_plan (new_watcher sample_stop_plan) = sample_stop_plan" by (simp add: new_watcher_def)
  with stop_write_on_terms[OF p, of "market_request sample_stop_plan"] m n p show ?thesis by auto
qed

text \<open>
  Once the write was sent its outcome alone fixes the state: an answer that raises leaves the plan
  HELD and is never a fill, an answer that returned leaves it FILLED or WORKING with the broker's
  identity, and a journal that fails afterwards changes neither.
\<close>

theorem write_outcome_kept:
  assumes "poll jf el (Inr qt) wr w = (r, w', [req])"
  shows "r = Inr (wt_state w') \<and>
    (case wr req of
       Inl e \<Rightarrow> wt_state w' = W_held \<and> wt_order w' = wt_order w
     | Inr op \<Rightarrow>
         if req = market_request (wt_plan w)
         then wt_state w' = W_filled \<and> wt_order w' = first_id (op_position_id op) (op_order_id op)
         else wt_state w' = W_working \<and> wt_order w' = first_id (op_order_id op) None)"
proof (cases rule: poll_cases[of jf el "Inr qt" wr w])
  case (wrote qt' d req1 s w2)
  have e: "req = req1" "r = Inr s" "w' = w2" using wrote(6) assms by auto
  have ne: "market_request (wt_plan w) \<noteq> rest_request (wt_plan w)" by (simp add: market_request_def rest_request_def)
  show ?thesis
    using wrote(4,5) ne unfolding e by (auto simp: after_write_def split: sum.splits if_splits)
qed (use assms in auto)

theorem write_outcome_kept_witness:
  "case poll (\<lambda>s. if s = W_filled then Some validation_error else None) dzero (Inr \<lparr>mq_bid = Dec 5 0, mq_ask = Dec 5 0\<rparr>)
     (\<lambda>_. Inr sample_operation) (new_watcher sample_stop_plan) of
     (r, w', ws) \<Rightarrow> r = Inr W_filled \<and> wt_order w' = Some ''o1''"
proof -
  have "case poll (\<lambda>s. if s = W_filled then Some validation_error else None) dzero (Inr \<lparr>mq_bid = Dec 5 0, mq_ask = Dec 5 0\<rparr>)
     (\<lambda>_. Inr sample_operation) (new_watcher sample_stop_plan) of
     (r, w', ws) \<Rightarrow> ws = [market_request (wt_plan (new_watcher sample_stop_plan))]" by code_simp
  moreover obtain r w' ws where p: "poll (\<lambda>s. if s = W_filled then Some validation_error else None) dzero
     (Inr \<lparr>mq_bid = Dec 5 0, mq_ask = Dec 5 0\<rparr>) (\<lambda>_. Inr sample_operation) (new_watcher sample_stop_plan) = (r, w', ws)"
    by (metis prod.exhaust)
  ultimately have "ws = [market_request (wt_plan (new_watcher sample_stop_plan))]" by simp
  from write_outcome_kept[OF p[unfolded this]] show ?thesis
    unfolding p by (simp add: sample_operation_def first_id_def truthy_def)
qed

text \<open>
  Cancelling a WORKING plan through the checking facade never reaches the broker: the request names
  neither the order side nor its type, both of which the cancel model requires, so the call raises and
  the resting order stays.
\<close>

theorem working_cancel_rejected:
  assumes "wt_state w = W_working" "truthy (wt_order w)"
  shows "cancel_watch jf (facade wire) w = (Inl validation_error, w)"
  using assms
  by (simp add: cancel_watch_def facade_def cancel_request_def valid_request_def valid_cancel_def order_side_ok_def trimmed_def)

theorem working_cancel_rejected_witness:
  "cancel_watch (\<lambda>_. None) (facade (\<lambda>_. Inr sample_operation))
     ((new_watcher sample_stop_plan)\<lparr>wt_state := W_working, wt_order := Some ''o1''\<rparr>) =
   (Inl validation_error, (new_watcher sample_stop_plan)\<lparr>wt_state := W_working, wt_order := Some ''o1''\<rparr>)"
  by (rule working_cancel_rejected) (simp_all add: truthy_def)

end
