(* ===== verification/Signals.thy ===== *)
theory Signals
  imports BrokerApi
begin

text \<open>
  Typed signals and the lane they are copied by: signals/shapes.py (the base shape and one shape per
  sender), signals/symbols.py (the symbol map) and the configurations of dashboard/copy_configs.py.
\<close>

subsection \<open>Signals\<close>

record signal =
  sg_event :: string
  sg_machine :: string
  sg_source :: string
  sg_connection :: string
  sg_account :: string
  sg_kind :: string
  sg_label :: string
  sg_time :: int
  sg_symbol :: string
  sg_side :: string
  sg_entry :: decimal
  sg_stop :: decimal
  sg_target :: decimal
  sg_order_type :: string
  sg_origin :: string
  sg_detail :: string
  sg_grade :: string
  sg_stamp :: string
  sg_rfx :: string
  sg_arm :: string

datatype shape = Base_shape | P01_shape | Chain_shape | R01_shape

definition shape_table :: "(string \<times> shape) list" where
  "shape_table =
     [(''P01_LOG'', P01_shape), (''panel'', P01_shape), (''chain'', Chain_shape),
      (''R01'', R01_shape), (''r01'', R01_shape), (''r01Auto'', R01_shape)]"

definition shape_of :: "string \<Rightarrow> shape" where
  "shape_of source = (case map_of shape_table source of Some s \<Rightarrow> s | None \<Rightarrow> Base_shape)"

definition lower_text :: "string \<Rightarrow> string" where
  "lower_text s = map lower s"

definition side_names :: "(string \<times> string) list" where
  "side_names =
     [(''long'', ''BUY''), (''short'', ''SELL''), (''buy'', ''BUY''), (''sell'', ''SELL''), (''0'', ''BUY''),
      (''1'', ''SELL'')]"

definition normalize_side :: "string option \<Rightarrow> string" where
  "normalize_side v =
     (case v of None \<Rightarrow> []
      | Some s \<Rightarrow> (case map_of side_names (lower_text s) of Some x \<Rightarrow> x | None \<Rightarrow> s))"

text \<open>The field constraints of the base shape; the decimals are finite by their type.\<close>

definition base_signal_valid :: "signal \<Rightarrow> bool" where
  "base_signal_valid s \<longleftrightarrow>
     str_between 1 200 (sg_event s) \<and> str_between 1 100 (sg_machine s) \<and> str_between 1 100 (sg_source s) \<and>
     str_between 0 200 (sg_connection s) \<and> str_between 0 200 (sg_account s) \<and> str_between 1 100 (sg_kind s) \<and>
     str_between 0 200 (sg_label s) \<and> str_between 0 100 (sg_symbol s) \<and> str_between 0 20 (sg_side s) \<and>
     dec_nonneg (sg_entry s) \<and> dec_nonneg (sg_stop s) \<and> dec_nonneg (sg_target s) \<and>
     sg_order_type s \<in> {'''', ''MARKET'', ''LIMIT'', ''STOP''}"

definition shape_fields_valid :: "signal \<Rightarrow> bool" where
  "shape_fields_valid s \<longleftrightarrow>
     (case shape_of (sg_source s) of
        Base_shape \<Rightarrow> True
      | P01_shape \<Rightarrow> str_between 0 40 (sg_origin s)
      | Chain_shape \<Rightarrow> str_between 0 400 (sg_detail s)
      | R01_shape \<Rightarrow> str_between 0 40 (sg_grade s) \<and> str_between 0 20 (sg_stamp s) \<and> str_between 0 40 (sg_rfx s) \<and>
                     str_between 0 120 (sg_arm s) \<and> str_between 0 400 (sg_detail s))"

text \<open>
  The fields a shape does not declare are dropped (\<open>extra='ignore'\<close>): they read as empty.
\<close>

definition shape_projection :: "signal \<Rightarrow> signal" where
  "shape_projection s =
     (case shape_of (sg_source s) of
        Base_shape \<Rightarrow> s\<lparr>sg_origin := [], sg_detail := [], sg_grade := [], sg_stamp := [], sg_rfx := [], sg_arm := []\<rparr>
      | P01_shape \<Rightarrow> s\<lparr>sg_detail := [], sg_grade := [], sg_stamp := [], sg_rfx := [], sg_arm := []\<rparr>
      | Chain_shape \<Rightarrow> s\<lparr>sg_origin := [], sg_grade := [], sg_stamp := [], sg_rfx := [], sg_arm := []\<rparr>
      | R01_shape \<Rightarrow> s\<lparr>sg_origin := []\<rparr>)"

definition parse_signal :: "signal \<Rightarrow> signal res" where
  "parse_signal raw =
     (let s = shape_projection (raw\<lparr>sg_side := normalize_side (Some (sg_side raw)),
                                 sg_order_type := map (\<lambda>c. if code_in 97 122 c then char_of ((of_char c :: nat) - 32) else c)
                                                    (sg_order_type raw)\<rparr>)
      in if base_signal_valid s \<and> shape_fields_valid s then Inr s
         else Inl (Exn ''ValidationError'' ''validation error'' None))"

definition signal_scope :: "signal \<Rightarrow> string list" where
  "signal_scope s = [sg_machine s, sg_source s, sg_account s, sg_connection s, sg_symbol s, sg_label s]"

subsection \<open>Attribution\<close>

text \<open>
  \<open>^(P01RR_\d+_\d+|[LM]:(?:low|high|beyond)@\S+)$\<close>; \<open>$\<close> also matches before a final line feed.
\<close>

definition panel_label_body :: "string \<Rightarrow> bool" where
  "panel_label_body s \<longleftrightarrow>
     starts_with ''P01RR_'' s \<and>
     (let r = drop 6 s; d1 = takeWhile is_digit r; r2 = dropWhile is_digit r
      in d1 \<noteq> [] \<and> (case r2 of c # d2 \<Rightarrow> c = CHR ''_'' \<and> d2 \<noteq> [] \<and> list_all is_digit d2 | [] \<Rightarrow> False))"

definition level_label_body :: "string \<Rightarrow> bool" where
  "level_label_body s \<longleftrightarrow>
     (case s of
        c # d # r \<Rightarrow> (c = CHR ''L'' \<or> c = CHR ''M'') \<and> d = CHR '':'' \<and>
          list_ex (\<lambda>edge. starts_with edge r \<and> drop (length edge) r \<noteq> [] \<and>
                          list_all not_space (drop (length edge) r)) [''low@'', ''high@'', ''beyond@'']
      | _ \<Rightarrow> False)"

definition p01_label :: "string \<Rightarrow> bool" where
  "p01_label s \<longleftrightarrow>
     (let b = (if s \<noteq> [] \<and> last s = CHR 0x0A then butlast s else s)
      in panel_label_body b \<or> level_label_body b)"

definition from_x17 :: "signal \<Rightarrow> bool" where
  "from_x17 s \<longleftrightarrow> starts_with ''x17-spine '' (lower_text (sg_detail s))"

definition check_attribution :: "bool \<Rightarrow> signal \<Rightarrow> unit res" where
  "check_attribution x17_only s =
     (case shape_of (sg_source s) of
        P01_shape \<Rightarrow>
          if sg_source s = ''panel'' \<and> \<not> starts_with ''P01RR_'' (sg_label s)
          then Inl (value_error ''Panel intent is not identified as manual P01'')
          else if sg_source s = ''P01_LOG'' \<and> \<not> p01_label (sg_label s)
          then Inl (value_error ''P01 log intent does not carry a recognised lifecycle label'')
          else Inr ()
      | Chain_shape \<Rightarrow>
          if x17_only \<and> \<not> from_x17 s then Inl (value_error ''Chain intent is not identified as X17'') else Inr ()
      | _ \<Rightarrow> Inr ())"

definition detail_types :: "(string \<times> string) list" where
  "detail_types =
     [(''resting limit at range edge'', ''LIMIT''), (''resting stop at beyond edge'', ''STOP''),
      (''resting stop-limit at beyond edge, limit at trigger'', ''STOP'')]"

text \<open>The order type the sender states: R01 states it in its detail text.\<close>

definition stated_type :: "signal \<Rightarrow> string" where
  "stated_type s =
     (if sg_order_type s \<noteq> [] then sg_order_type s
      else if shape_of (sg_source s) = R01_shape
      then (case map_of detail_types (sg_detail s) of Some t \<Rightarrow> t | None \<Rightarrow> [])
      else [])"

subsection \<open>Symbol map and lane\<close>

record symbol_mapping =
  sm_destination :: string
  sm_lots :: decimal
  sm_order_type :: string

definition symbol_mapping_valid :: "symbol_mapping \<Rightarrow> bool" where
  "symbol_mapping_valid m \<longleftrightarrow>
     str_between 1 100 (sm_destination m) \<and> coef (sm_lots m) > 0 \<and>
     sm_order_type m \<in> {''MARKET'', ''LIMIT'', ''STOP'', ''SOURCE'', ''ENTRY''}"

type_synonym symbol_map = "(string \<times> symbol_mapping) list"

definition lookup_symbol :: "symbol_map \<Rightarrow> string \<Rightarrow> symbol_mapping option" where
  "lookup_symbol m s = map_of m s"

text \<open>A lane: a saved configuration, or the settings of a signal lane (which has \<open>risk_usd\<close>).\<close>

record lane =
  ln_id :: string
  ln_name :: string
  ln_machine :: string
  ln_source :: string
  ln_connection :: string
  ln_additional :: "string list"
  ln_x17_only :: bool
  ln_broker :: string
  ln_destination :: string
  ln_grades :: "string list"
  ln_retract :: bool
  ln_sizing :: "string option"
  ln_sizing_value :: "decimal option"
  ln_risk_usd :: "decimal option"
  ln_min_box :: decimal
  ln_min_box_enabled :: bool
  ln_mode :: string
  ln_enabled :: bool

definition lane_matches :: "lane \<Rightarrow> string \<Rightarrow> string \<Rightarrow> bool" where
  "lane_matches l machine source \<longleftrightarrow> machine = ln_machine l \<and> source \<in> insert (ln_source l) (set (ln_additional l))"

text \<open>\<open>CopyConfigStore\<close>: the configurations under unique ids, in insertion order.\<close>

definition upsert_config :: "lane \<Rightarrow> lane list \<Rightarrow> lane list res" where
  "upsert_config c cs =
     (if length cs \<ge> 25 \<and> \<not> has_key ln_id (ln_id c) cs
      then Inl (value_error ''Configure at most 25 copy configurations'')
      else Inr (upsert ln_id (\<lambda>_ new. new) c cs))"

definition delete_config :: "string \<Rightarrow> lane list \<Rightarrow> lane list res" where
  "delete_config i cs =
     (if has_key ln_id i cs then Inr (filter (\<lambda>c. ln_id c \<noteq> i) cs)
      else Inl (value_error ''Unknown copy configuration''))"

definition set_config_state :: "string \<Rightarrow> string option \<Rightarrow> bool option \<Rightarrow> lane list \<Rightarrow> lane list res" where
  "set_config_state i mode enabled cs =
     (if has_key ln_id i cs
      then Inr (tupdate (\<lambda>c. ln_id c = i)
             (\<lambda>c. c\<lparr>ln_mode := opt_set mode (ln_mode c), ln_enabled := opt_set enabled (ln_enabled c)\<rparr>) cs)
      else Inl (value_error ''Unknown copy configuration''))"

definition matching_configs :: "string \<Rightarrow> string \<Rightarrow> lane list \<Rightarrow> lane list" where
  "matching_configs machine source cs = filter (\<lambda>c. ln_enabled c \<and> lane_matches c machine source) cs"

subsection \<open>Configurations keep their ids\<close>

definition committed_list :: "'a list \<Rightarrow> 'a list res \<Rightarrow> 'a list" where
  "committed_list xs r = (case r of Inr ys \<Rightarrow> ys | Inl _ \<Rightarrow> xs)"

datatype config_op = Config_upsert lane | Config_delete string | Config_state string "string option" "bool option"

fun config_step :: "config_op \<Rightarrow> lane list \<Rightarrow> lane list" where
  "config_step (Config_upsert c) cs = committed_list cs (upsert_config c cs)"
| "config_step (Config_delete i) cs = committed_list cs (delete_config i cs)"
| "config_step (Config_state i mode enabled) cs = committed_list cs (set_config_state i mode enabled cs)"

definition configs_ok :: "lane list \<Rightarrow> bool" where
  "configs_ok cs \<longleftrightarrow> unique_key ln_id cs \<and> length cs \<le> 25"

lemma length_upsert: "length (upsert key merge r rows) = (if has_key key (key r) rows then length rows else Suc (length rows))"
  by (simp add: upsert_def)

lemma config_step_ok: "configs_ok cs \<Longrightarrow> configs_ok (config_step a cs)"
proof (cases a)
  case (Config_upsert c)
  assume "configs_ok cs"
  with Config_upsert show ?thesis
    by (auto simp: committed_list_def upsert_config_def configs_ok_def unique_upsert length_upsert)
next
  case (Config_delete i)
  assume ok: "configs_ok cs"
  then have "length (filter (\<lambda>c. ln_id c \<noteq> i) cs) \<le> 25"
    by (auto simp: configs_ok_def intro: order.trans[OF length_filter_le])
  with ok Config_delete show ?thesis
    by (auto simp: committed_list_def delete_config_def configs_ok_def unique_filter)
next
  case (Config_state i mode enabled)
  assume "configs_ok cs"
  with Config_state show ?thesis
    by (auto simp: committed_list_def set_config_state_def configs_ok_def unique_tupdate)
qed

interpretation configs: kept_invariant config_step configs_ok
  by unfold_locales (rule config_step_ok)

text \<open>
  Over any sequence of edits the saved copy configurations have distinct ids and number at most
  twenty-five, so a wire signal selects each configuration at most once.
\<close>

theorem configurations_bounded:
  "unique_key ln_id (fold config_step ops []) \<and> length (fold config_step ops []) \<le> 25 \<and>
   distinct (map ln_id (matching_configs machine source (fold config_step ops [])))"
proof -
  have ok: "configs_ok (fold config_step ops [])"
    by (rule configs.run_inv) (simp add: configs_ok_def)
  then have "unique_key ln_id (matching_configs machine source (fold config_step ops []))"
    unfolding matching_configs_def configs_ok_def by (intro unique_filter) blast
  with ok show ?thesis by (simp add: configs_ok_def unique_key_def)
qed

end
