(* ===== verification/SignalEngine.thy ===== *)
theory SignalEngine
  imports Signals
begin

text \<open>
  The one place an intent becomes an order, or is refused with a reason (signals/engine.py), and the
  broker call (signals/dispatch.py). A refusal is an exception of class Refusal; any other exception
  is one the arithmetic or the broker reads raise.
\<close>

definition refusal :: "string \<Rightarrow> exn" where
  "refusal m = Exn ''Refusal'' m None"

record quote_row =
  qt_symbol :: string
  qt_bid :: decimal
  qt_ask :: decimal
  qt_sec :: "int option"
  qt_ms :: "int option"

record signal_api =
  sa_instruments :: "(instrument_row \<times> decimal option) list res"
  sa_quotes :: "string \<Rightarrow> quote_row list res"
  sa_equity :: "decimal res"
  sa_write :: "request \<Rightarrow> operation res"
  sa_active_orders :: "order_row list res"
  sa_account :: "string option"

record engine_context =
  cx_mode :: "string option"
  cx_armed :: bool
  cx_armed_at :: "int option"
  cx_now :: int
  cx_destination :: string
  cx_api :: "signal_api option"
  cx_verified :: bool
  cx_ended_in_batch :: bool
  cx_later_end :: bool
  cx_attempted :: bool
  cx_bridge_request :: bool

definition cx_paper :: "engine_context \<Rightarrow> bool" where
  "cx_paper c \<longleftrightarrow> cx_mode c = Some ''paper''"

record order_plan =
  pl_instrument :: string
  pl_side :: string
  pl_type :: string
  pl_volume :: decimal
  pl_price :: "decimal option"
  pl_sl :: decimal
  pl_tp :: decimal
  pl_label :: string
  pl_scope :: "string list"

definition plan_method :: "order_plan \<Rightarrow> string" where
  "plan_method p = (if pl_type p = ''MARKET'' then ''open_position'' else ''create_pending_order'')"

definition plan_request :: "order_plan \<Rightarrow> request" where
  "plan_request p =
     \<lparr>rq_method = plan_method p, rq_instrument = pl_instrument p, rq_side = pl_side p, rq_id = [],
      rq_type = (if pl_type p = ''MARKET'' then [] else pl_type p), rq_volume = Some (pl_volume p),
      rq_price = (if pl_type p = ''MARKET'' then None else pl_price p), rq_sl = Some (pl_sl p),
      rq_tp = Some (pl_tp p)\<rparr>"

subsection \<open>Checks\<close>

definition check_brackets :: "string \<Rightarrow> decimal \<Rightarrow> decimal \<Rightarrow> decimal \<Rightarrow> unit res" where
  "check_brackets side entry sl tp =
     (if (side = ''BUY'' \<and> \<not> (dlt sl entry \<and> dlt entry tp)) \<or> (side = ''SELL'' \<and> \<not> (dlt tp entry \<and> dlt entry sl))
      then Inl (refusal ''Intent bracket prices do not match its side'') else Inr ())"

text \<open>The quote is fresh: stamped, at most five seconds ahead and ten behind the clock.\<close>

definition quote_stamp :: "quote_row \<Rightarrow> int" where
  "quote_stamp q =
     (case qt_ms q of
        Some m \<Rightarrow> if m \<noteq> 0 then m else (case qt_sec q of Some s \<Rightarrow> s * 1000 | None \<Rightarrow> 0)
      | None \<Rightarrow> (case qt_sec q of Some s \<Rightarrow> s * 1000 | None \<Rightarrow> 0))"

definition quote_fresh :: "int \<Rightarrow> quote_row \<Rightarrow> bool" where
  "quote_fresh now q \<longleftrightarrow>
     quote_stamp q \<noteq> 0 \<and> -5000000 \<le> now - quote_stamp q * 1000 \<and> now - quote_stamp q * 1000 \<le> 10000000"

definition pending_type_from_quote ::
  "signal \<Rightarrow> symbol_mapping \<Rightarrow> string \<Rightarrow> engine_context \<Rightarrow> signal_api \<Rightarrow> string res" where
  "pending_type_from_quote s m side c api =
     bindE (sa_quotes api (sm_destination m)) (\<lambda>qs.
       case filter (\<lambda>q. qt_symbol q = sm_destination m) qs of
         [q] \<Rightarrow>
           if \<not> (dlt dzero (qt_bid q) \<and> dle (qt_bid q) (qt_ask q)) then Inl (refusal ''Destination quote is invalid'')
           else if \<not> quote_fresh (cx_now c) q then Inl (refusal ''A fresh timestamped broker quote is required'')
           else (let reference = (if side = ''BUY'' then qt_ask q else qt_bid q)
                 in if deq (sg_entry s) reference
                    then Inl (refusal ''Entry equals current quote; pending type is ambiguous'')
                    else let below = dlt (sg_entry s) reference
                         in Inr (if (if side = ''BUY'' then below else \<not> below) then ''LIMIT'' else ''STOP''))
       | _ \<Rightarrow> Inl (refusal ''A unique destination quote is required for pending entry''))"

definition order_type_of ::
  "signal \<Rightarrow> symbol_mapping \<Rightarrow> string \<Rightarrow> engine_context \<Rightarrow> string res" where
  "order_type_of s m side c =
     (let stated = stated_type s;
          t1 = (if sm_order_type m = ''SOURCE'' then stated else sm_order_type m);
          t2 = (if t1 = ''ENTRY'' \<and> (stated = ''LIMIT'' \<or> stated = ''STOP'') then stated else t1)
      in bindE (if t2 = ''ENTRY''
                then if cx_paper c
                     then Inl (refusal ''Paper preview needs an explicit source Limit or Stop order type'')
                     else bindE (of_option (Exn ''AttributeError'' ''no broker connection'' None) (cx_api c))
                            (pending_type_from_quote s m side c)
                else Inr t2) (\<lambda>t.
           if t \<in> {''MARKET'', ''LIMIT'', ''STOP''} then Inr t
           else Inl (refusal ''Source intent has no supported order type'')))"

definition engine_instrument :: "signal_api \<Rightarrow> string \<Rightarrow> (instrument_row \<times> decimal option) res" where
  "engine_instrument api symbol =
     bindE (sa_instruments api) (\<lambda>rows. case filter (\<lambda>r. in_symbol (fst r) = symbol) rows of
       [r] \<Rightarrow> Inr r
     | _ \<Rightarrow> Inl (refusal ''Destination instrument is not uniquely available''))"

definition engine_grid :: "instrument_row \<Rightarrow> decimal \<Rightarrow> decimal res" where
  "engine_grid i v = (case in_price_precision i of None \<Rightarrow> Inr v | Some p \<Rightarrow> grid p v)"

definition min_box :: "lane \<Rightarrow> decimal" where
  "min_box l = (if ln_min_box_enabled l \<and> dtrue (ln_min_box l) then ln_min_box l else dzero)"

definition sizing_mode :: "lane \<Rightarrow> string" where
  "sizing_mode l =
     (case ln_sizing l of
        Some m \<Rightarrow> m
      | None \<Rightarrow> (case ln_risk_usd l of Some r \<Rightarrow> if dtrue r then ''dollar'' else ''lots'' | None \<Rightarrow> ''lots''))"

definition account_equity :: "signal_api \<Rightarrow> decimal res" where
  "account_equity api =
     (case sa_equity api of
        Inl _ \<Rightarrow> Inl (refusal ''Percent sizing needs the account equity; the balance read failed'')
      | Inr q \<Rightarrow> if dle q dzero then Inl (refusal ''Percent sizing needs a positive account equity'') else Inr q)"

text \<open>The lots of a plan: fixed, or a risk divided by the stop distance in contract units.\<close>

definition sizing_value :: "lane \<Rightarrow> decimal option" where
  "sizing_value l = (case ln_sizing_value l of Some v \<Rightarrow> Some v | None \<Rightarrow> ln_risk_usd l)"

definition risk_of :: "lane \<Rightarrow> decimal option \<Rightarrow> decimal res" where
  "risk_of l equity =
     (case sizing_value l of
        None \<Rightarrow> Inl (refusal ''This config's sizing needs a positive dollar amount or percent'')
      | Some v \<Rightarrow>
          if dle v dzero then Inl (refusal ''This config's sizing needs a positive dollar amount or percent'')
          else if sizing_mode l = ''percent''
          then (case equity of
                  Some q \<Rightarrow> ddiv (dmul q v) (Dec 100 0)
                | None \<Rightarrow> Inl (Exn ''TypeError'' ''unsupported operand type(s)'' None))
          else Inr v)"

definition contract_size :: "decimal option \<Rightarrow> decimal" where
  "contract_size c = (case c of Some x \<Rightarrow> if dtrue x then x else Dec 1 0 | None \<Rightarrow> Dec 1 0)"

definition size_lots ::
  "lane \<Rightarrow> symbol_mapping \<Rightarrow> signal \<Rightarrow> instrument_row \<Rightarrow> decimal option \<Rightarrow> decimal option \<Rightarrow> decimal res" where
  "size_lots l m s i contract equity =
     (if sizing_mode l = ''lots'' then Inr (sm_lots m)
      else
        bindE (risk_of l equity) (\<lambda>risk.
        bindE (limit_of (in_volume_step i)) (\<lambda>step.
        bindE (limit_of (in_volume_min i)) (\<lambda>minimum.
          let c = contract_size contract; distance = dabs (dsub (sg_entry s) (sg_stop s))
          in if dle distance dzero \<or> dle c dzero
             then Inl (refusal ''Risk sizing needs a positive stop distance'')
             else bindE (ddiv risk (dmul distance c)) (\<lambda>raw.
                  bindE (quantize round_down raw step) (\<lambda>lots. Inr (dmax lots minimum)))))))"

definition check_limits :: "instrument_row \<Rightarrow> decimal \<Rightarrow> string \<Rightarrow> unit res" where
  "check_limits i lots side =
     bindE (limit_of (in_volume_min i)) (\<lambda>lo.
     bindE (limit_of (in_volume_max i)) (\<lambda>hi.
     bindE (limit_of (in_volume_step i)) (\<lambda>step.
       if dle step dzero \<or> \<not> (dle lo lots \<and> dle lots hi)
       then Inl (refusal ''Quantity violates destination lot limits/step'')
       else bindE (drem lots step) (\<lambda>r.
         if \<not> deq r dzero then Inl (refusal ''Quantity violates destination lot limits/step'')
         else if in_close_only i then Inl (refusal ''Destination instrument is close-only'')
         else if in_long_only i \<and> side = ''SELL'' then Inl (refusal ''Destination instrument is long-only'')
         else Inr ()))))"

definition level_through :: "string \<Rightarrow> string \<Rightarrow> decimal \<Rightarrow> quote_row \<Rightarrow> bool" where
  "level_through side order_type level q \<longleftrightarrow>
     (if order_type = ''STOP'' then (if side = ''BUY'' then dle level (qt_ask q) else dle (qt_bid q) level)
      else (if side = ''BUY'' then dle (qt_ask q) level else dle level (qt_bid q)))"

text \<open>Judged on a fresh quote of the symbol only; without exactly one, the check stands down.\<close>

definition check_not_through_market ::
  "engine_context \<Rightarrow> signal_api \<Rightarrow> string \<Rightarrow> string \<Rightarrow> string \<Rightarrow> decimal \<Rightarrow> unit res" where
  "check_not_through_market c api symbol side order_type level =
     (case sa_quotes api symbol of
        Inl _ \<Rightarrow> Inr ()
      | Inr qs \<Rightarrow>
          (case filter (\<lambda>q. qt_symbol q = symbol) qs of
             [q] \<Rightarrow>
               if quote_fresh (cx_now c) q \<and> level_through side order_type level q
               then Inl (refusal (''Level '' @ dec_str level @ '' is already through the market ('' @ dec_str (qt_bid q) @
                      ''/'' @ dec_str (qt_ask q) @ ''); a resting order would execute on contact''))
               else Inr ()
           | _ \<Rightarrow> Inr ()))"

subsection \<open>The decision\<close>

definition lane_checks :: "lane option \<Rightarrow> signal \<Rightarrow> engine_context \<Rightarrow> lane res" where
  "lane_checks cfg s c =
     (case cfg of
        None \<Rightarrow> Inl (refusal ''Live signal copying is off'')
      | Some l \<Rightarrow>
          if \<not> cx_armed c then Inl (refusal ''Live signal copying is off'')
          else if cx_destination c \<noteq> ln_destination l \<or> (\<not> cx_paper c \<and> (cx_api c = None \<or> \<not> cx_verified c))
          then Inl (refusal ''Connect the configured authenticated destination'')
          else if \<not> lane_matches l (sg_machine s) (sg_source s)
          then Inl (refusal ''Signal does not match the configured machine/source'')
          else if ln_connection l \<noteq> [] \<and> sg_source s \<noteq> ''panel'' \<and> sg_connection s \<noteq> ln_connection l
          then Inl (refusal ''Signal does not match the configured chart connection'')
          else if (case cx_armed_at c of None \<Rightarrow> True | Some a \<Rightarrow> sg_time s < a) \<or>
                  \<not> (-5000000 \<le> cx_now c - sg_time s \<and> cx_now c - sg_time s \<le> 30000000)
          then Inl (refusal ''Signal is stale or predates enabling live mode; no replay'')
          else Inr l)"

definition as_refusal :: "unit res \<Rightarrow> unit res" where
  "as_refusal r =
     (case r of Inr u \<Rightarrow> Inr u | Inl e \<Rightarrow> if is_value_error e then Inl (refusal (exn_msg e)) else Inl e)"

definition lifecycle_checks :: "lane \<Rightarrow> signal \<Rightarrow> engine_context \<Rightarrow> unit res" where
  "lifecycle_checks l s c =
     (if cx_bridge_request c then Inl (refusal ''This lifecycle already has a bridge request; no second order'')
      else if sg_label s = [] then Inl (refusal ''A labeled lifecycle is required for copying'')
      else bindE (as_refusal (check_attribution (ln_x17_only l) s)) (\<lambda>_.
        if cx_ended_in_batch c then Inl (refusal ''This batch already contains an ended lifecycle'')
        else if cx_later_end c then Inl (refusal ''A later ended lifecycle was already recorded'')
        else if cx_attempted c
        then Inl (refusal ''This scoped lifecycle already has a broker attempt; no duplicate order'')
        else if ln_grades l \<noteq> [] \<and> sg_grade s \<noteq> [] \<and> sg_grade s \<notin> set (ln_grades l)
        then Inl (refusal (''Grade '' @ sg_grade s @ '' is not accepted by the lane''))
        else Inr ()))"

definition price_checks :: "lane \<Rightarrow> symbol_map \<Rightarrow> signal \<Rightarrow> symbol_mapping res" where
  "price_checks l symbols s =
     (case lookup_symbol symbols (sg_symbol s) of
        None \<Rightarrow> Inl (refusal ''No configured symbol mapping'')
      | Some m \<Rightarrow>
          if sg_side s \<notin> {''BUY'', ''SELL''} \<or> dle (dmin (dmin (sg_entry s) (sg_stop s)) (sg_target s)) dzero
          then Inl (refusal ''Intent needs a side and positive entry, stop and target'')
          else bindE (check_brackets (sg_side s) (sg_entry s) (sg_stop s) (sg_target s)) (\<lambda>_.
            let box = dabs (dsub (sg_target s) (sg_stop s)); floor = min_box l
            in if dtrue floor \<and> dlt box floor
               then Inl (refusal (''Box '' @ dec_str box @ '' is below the '' @ dec_str floor @
                      '' minimum box set on this copy; tight boxes stop out on entry noise''))
               else Inr m))"

text \<open>The live half: prices on the grid, brackets again, lots, limits, and not through the market.\<close>

definition live_terms ::
  "lane \<Rightarrow> symbol_mapping \<Rightarrow> signal \<Rightarrow> string \<Rightarrow> engine_context \<Rightarrow> signal_api
    \<Rightarrow> (decimal \<times> decimal \<times> decimal \<times> decimal) res" where
  "live_terms l m s order_type c api =
     bindE (engine_instrument api (sm_destination m)) (\<lambda>(i, contract).
     bindE (engine_grid i (sg_entry s)) (\<lambda>entry.
     bindE (engine_grid i (sg_stop s)) (\<lambda>sl.
     bindE (engine_grid i (sg_target s)) (\<lambda>tp.
     bindE (check_brackets (sg_side s) entry sl tp) (\<lambda>_.
     bindE (if sizing_mode l = ''percent'' then map_sum id Some (account_equity api) else Inr None) (\<lambda>equity.
     bindE (size_lots l m s i contract equity) (\<lambda>lots.
     bindE (check_limits i lots (sg_side s)) (\<lambda>_.
     bindE (if order_type \<noteq> ''MARKET''
            then check_not_through_market c api (sm_destination m) (sg_side s) order_type entry else Inr ()) (\<lambda>_.
       Inr (lots, entry, sl, tp))))))))))"

text \<open>Paper keeps the source prices and the map's lots: it never reads the broker.\<close>

definition order_terms ::
  "lane \<Rightarrow> symbol_mapping \<Rightarrow> signal \<Rightarrow> string \<Rightarrow> engine_context \<Rightarrow> (decimal \<times> decimal \<times> decimal \<times> decimal) res" where
  "order_terms l m s order_type c =
     (if cx_paper c then Inr (sm_lots m, sg_entry s, sg_stop s, sg_target s)
      else bindE (of_option (Exn ''AttributeError'' ''no broker connection'' None) (cx_api c))
             (live_terms l m s order_type c))"

definition decide :: "lane option \<Rightarrow> symbol_map \<Rightarrow> signal \<Rightarrow> engine_context \<Rightarrow> order_plan res" where
  "decide cfg symbols s c =
     bindE (lane_checks cfg s c) (\<lambda>l.
     bindE (lifecycle_checks l s c) (\<lambda>_.
     bindE (price_checks l symbols s) (\<lambda>m.
     bindE (order_type_of s m (sg_side s) c) (\<lambda>order_type.
     bindE (order_terms l m s order_type c) (\<lambda>(lots, entry, sl, tp).
       Inr \<lparr>pl_instrument = sm_destination m, pl_side = sg_side s, pl_type = order_type, pl_volume = lots,
            pl_price = (if order_type = ''MARKET'' then None else Some entry), pl_sl = sl, pl_tp = tp,
            pl_label = sg_label s, pl_scope = signal_scope s\<rparr>)))))"

subsection \<open>The broker call\<close>

record outcome =
  oc_decision :: string
  oc_request :: request
  oc_answer :: "operation res"
  oc_reason :: string

definition unconfirmed_text :: "exn \<Rightarrow> string \<Rightarrow> string" where
  "unconfirmed_text e correlation =
     ''Copy write outcome unconfirmed after '' @ exn_type e @
     ''; broker state not verified, no automatic retry (signal '' @ correlation @ '')''"

definition call_broker ::
  "(operation \<Rightarrow> bool) \<Rightarrow> string \<Rightarrow> request \<Rightarrow> signal_api \<Rightarrow> string \<Rightarrow> outcome" where
  "call_broker accepted ok req api correlation =
     (let answer = sa_write api req in
      case answer of
        Inl e \<Rightarrow> \<lparr>oc_decision = ''uncertain'', oc_request = req, oc_answer = answer,
                  oc_reason = unconfirmed_text e correlation\<rparr>
      | Inr r \<Rightarrow> if accepted r
                 then \<lparr>oc_decision = ''accepted'', oc_request = req, oc_answer = answer, oc_reason = ok\<rparr>
                 else \<lparr>oc_decision = ''uncertain'', oc_request = req, oc_answer = answer,
                       oc_reason = ''Unrecognized write response; no automatic retry''\<rparr>)"

definition open_accepted :: "operation \<Rightarrow> bool" where
  "open_accepted r \<longleftrightarrow>
     (\<not> truthy (op_status r) \<or> op_status r = Some ''OK'') \<and> (truthy (op_order_id r) \<or> truthy (op_position_id r))"

definition send_plan :: "order_plan \<Rightarrow> signal_api \<Rightarrow> string \<Rightarrow> outcome" where
  "send_plan p api correlation =
     call_broker open_accepted ''MatchTrader accepted the configured copy request'' (plan_request p) api correlation"

definition send_cancel :: "request \<Rightarrow> signal_api \<Rightarrow> string \<Rightarrow> outcome" where
  "send_cancel req api correlation =
     call_broker (\<lambda>r. op_status r = Some ''OK'') ''MatchTrader accepted the cancellation'' req api correlation"

subsection \<open>What each check establishes\<close>

definition brackets_ordered :: "string \<Rightarrow> decimal \<Rightarrow> decimal \<Rightarrow> decimal \<Rightarrow> bool" where
  "brackets_ordered side entry sl tp \<longleftrightarrow>
     (side = ''BUY'' \<and> dval sl < dval entry \<and> dval entry < dval tp) \<or>
     (side = ''SELL'' \<and> dval tp < dval entry \<and> dval entry < dval sl)"

lemma check_brackets_Inr [err_simps]:
  "side \<in> {''BUY'', ''SELL''} \<Longrightarrow> check_brackets side entry sl tp = Inr u \<longleftrightarrow> brackets_ordered side entry sl tp"
  by (auto simp: check_brackets_def brackets_ordered_def dec_simps)

lemma lane_checks_Inr:
  assumes "lane_checks cfg s c = Inr l"
  shows "cfg = Some l" "cx_armed c" "cx_destination c = ln_destination l" "cx_paper c \<or> cx_api c \<noteq> None \<and> cx_verified c"
    "lane_matches l (sg_machine s) (sg_source s)" "\<exists>a. cx_armed_at c = Some a \<and> a \<le> sg_time s"
    "cx_now c - sg_time s \<le> 30000000" "sg_time s - cx_now c \<le> 5000000"
  using assms by (auto simp: lane_checks_def split: option.splits if_splits)

lemma as_refusal_Inr [simp]: "as_refusal r = Inr () \<longleftrightarrow> r = Inr ()"
  by (auto simp: as_refusal_def split: sum.splits)

lemma lifecycle_checks_Inr:
  assumes "lifecycle_checks l s c = Inr u"
  shows "\<not> cx_bridge_request c" "sg_label s \<noteq> []" "check_attribution (ln_x17_only l) s = Inr ()"
    "\<not> cx_ended_in_batch c" "\<not> cx_later_end c" "\<not> cx_attempted c"
  using assms by (auto simp: lifecycle_checks_def bindE_Inr split: if_splits)

lemma price_checks_Inr:
  assumes "price_checks l symbols s = Inr m"
  shows "lookup_symbol symbols (sg_symbol s) = Some m" "sg_side s \<in> {''BUY'', ''SELL''}"
    "brackets_ordered (sg_side s) (sg_entry s) (sg_stop s) (sg_target s)"
    "0 < dval (sg_entry s)" "0 < dval (sg_stop s)" "0 < dval (sg_target s)"
proof -
  obtain m' where m: "lookup_symbol symbols (sg_symbol s) = Some m'"
    using assms by (cases "lookup_symbol symbols (sg_symbol s)") (auto simp: price_checks_def)
  have side: "sg_side s \<in> {''BUY'', ''SELL''}" and pos: "\<not> dle (dmin (dmin (sg_entry s) (sg_stop s)) (sg_target s)) dzero"
    using assms m by (auto simp: price_checks_def split: if_splits)
  have b: "check_brackets (sg_side s) (sg_entry s) (sg_stop s) (sg_target s) = Inr ()" and eq: "m' = m"
    using assms m side pos by (auto simp: price_checks_def Let_def bindE_Inr split: if_splits)
  show "lookup_symbol symbols (sg_symbol s) = Some m" using m eq by simp
  show "sg_side s \<in> {''BUY'', ''SELL''}" by (rule side)
  show "brackets_ordered (sg_side s) (sg_entry s) (sg_stop s) (sg_target s)" using b side by (simp add: check_brackets_Inr)
  show "0 < dval (sg_entry s)" "0 < dval (sg_stop s)" "0 < dval (sg_target s)"
    using pos by (auto simp: dec_simps)
qed

lemma check_limits_Inr:
  assumes "check_limits i lots side = Inr u"
  shows "\<exists>lo hi step r. in_volume_min i = Some lo \<and> in_volume_max i = Some hi \<and> in_volume_step i = Some step \<and>
     dval lo \<le> dval lots \<and> dval lots \<le> dval hi \<and> 0 < dval step \<and> drem lots step = Inr r \<and> dval r = 0"
    and "\<not> in_close_only i" "in_long_only i \<Longrightarrow> side \<noteq> ''SELL''"
proof -
  from assms obtain lo hi step where f: "in_volume_min i = Some lo" "in_volume_max i = Some hi" "in_volume_step i = Some step"
    by (auto simp: check_limits_def limit_of_def bindE_Inr of_option_Inr)
  with assms have b: "\<not> (dle step dzero \<or> \<not> (dle lo lots \<and> dle lots hi))"
    by (auto simp: check_limits_def limit_of_def split: if_splits)
  with assms f obtain r where r: "drem lots step = Inr r"
    by (cases "drem lots step") (auto simp: check_limits_def limit_of_def)
  with assms f b have z: "deq r dzero" "\<not> in_close_only i" "\<not> (in_long_only i \<and> side = ''SELL'')"
    by (auto simp: check_limits_def limit_of_def split: if_splits)
  show "\<exists>lo hi step r. in_volume_min i = Some lo \<and> in_volume_max i = Some hi \<and> in_volume_step i = Some step \<and>
     dval lo \<le> dval lots \<and> dval lots \<le> dval hi \<and> 0 < dval step \<and> drem lots step = Inr r \<and> dval r = 0"
    using f b r z by (auto simp: dec_simps)
  show "\<not> in_close_only i" "in_long_only i \<Longrightarrow> side \<noteq> ''SELL''" using z by auto
qed

lemma live_terms_Inr:
  assumes "live_terms l m s t c api = Inr (lots, entry, sl, tp)"
  obtains i contract equity where "engine_instrument api (sm_destination m) = Inr (i, contract)"
    "engine_grid i (sg_entry s) = Inr entry" "engine_grid i (sg_stop s) = Inr sl" "engine_grid i (sg_target s) = Inr tp"
    "check_brackets (sg_side s) entry sl tp = Inr ()" "size_lots l m s i contract equity = Inr lots"
    "check_limits i lots (sg_side s) = Inr ()"
    "t \<noteq> ''MARKET'' \<Longrightarrow> check_not_through_market c api (sm_destination m) (sg_side s) t entry = Inr ()"
proof -
  from assms obtain i contract where 1: "engine_instrument api (sm_destination m) = Inr (i, contract)"
    unfolding live_terms_def bindE_Inr by auto
  from assms 1 obtain equity where 2: "engine_grid i (sg_entry s) = Inr entry" "engine_grid i (sg_stop s) = Inr sl"
    "engine_grid i (sg_target s) = Inr tp" "check_brackets (sg_side s) entry sl tp = Inr ()"
    "size_lots l m s i contract equity = Inr lots" "check_limits i lots (sg_side s) = Inr ()"
    "(if t \<noteq> ''MARKET'' then check_not_through_market c api (sm_destination m) (sg_side s) t entry else Inr ()) = Inr ()"
    by (simp add: live_terms_def bindE_Inr) blast
  show ?thesis by (rule that[OF 1 2(1-6)]) (use 2(7) in simp)
qed

lemma engine_grid_on_grid: "engine_grid i v = Inr r \<Longrightarrow> in_price_precision i = Some g \<Longrightarrow> on_grid g r"
  by (simp add: engine_grid_def grid_on_grid)

lemma order_type_Inr: "order_type_of s m side c = Inr t \<Longrightarrow> t \<in> {''MARKET'', ''LIMIT'', ''STOP''}"
  by (auto simp: order_type_of_def Let_def bindE_Inr split: if_splits)

lemma decide_Inr:
  assumes "decide cfg symbols s c = Inr p"
  obtains l m e where "lane_checks cfg s c = Inr l" "lifecycle_checks l s c = Inr ()" "price_checks l symbols s = Inr m"
    "order_type_of s m (sg_side s) c = Inr (pl_type p)"
    "order_terms l m s (pl_type p) c = Inr (pl_volume p, e, pl_sl p, pl_tp p)"
    "pl_price p = (if pl_type p = ''MARKET'' then None else Some e)" "pl_instrument p = sm_destination m"
    "pl_side p = sg_side s" "pl_label p = sg_label s" "pl_scope p = signal_scope s"
proof -
  from assms obtain l m t lots e sl tp where *: "lane_checks cfg s c = Inr l" "lifecycle_checks l s c = Inr ()"
    "price_checks l symbols s = Inr m" "order_type_of s m (sg_side s) c = Inr t"
    "order_terms l m s t c = Inr (lots, e, sl, tp)"
    "p = \<lparr>pl_instrument = sm_destination m, pl_side = sg_side s, pl_type = t, pl_volume = lots,
            pl_price = (if t = ''MARKET'' then None else Some e), pl_sl = sl, pl_tp = tp,
            pl_label = sg_label s, pl_scope = signal_scope s\<rparr>"
    unfolding decide_def bindE_Inr by auto
  show ?thesis by (rule that[of l m e]) (use * in simp_all)
qed

lemma order_terms_Inr:
  assumes "order_terms l m s t c = Inr (lots, e, sl, tp)"
  obtains (paper) "cx_paper c" "lots = sm_lots m" "e = sg_entry s" "sl = sg_stop s" "tp = sg_target s"
  | (live) api where "\<not> cx_paper c" "cx_api c = Some api" "live_terms l m s t c api = Inr (lots, e, sl, tp)"
  using assms by (auto simp: order_terms_def bindE_Inr of_option_Inr split: if_splits)

subsection \<open>Properties\<close>

text \<open>
  C20: an intent becomes an order only for an armed lane that matches its machine and source, on the
  configured destination (verified unless paper), fresh and after arming, with a label, an
  attribution its shape proves, no end of its lifecycle and no earlier attempt for it.
\<close>

theorem decided_signal_is_eligible:
  assumes "decide cfg symbols s c = Inr p"
  shows "\<exists>l. cfg = Some l \<and> cx_armed c \<and> cx_destination c = ln_destination l \<and> (cx_paper c \<or> cx_verified c) \<and>
     lane_matches l (sg_machine s) (sg_source s) \<and> (\<exists>a. cx_armed_at c = Some a \<and> a \<le> sg_time s) \<and>
     cx_now c - sg_time s \<le> 30000000 \<and> sg_label s \<noteq> [] \<and> check_attribution (ln_x17_only l) s = Inr () \<and>
     \<not> cx_ended_in_batch c \<and> \<not> cx_later_end c \<and> \<not> cx_attempted c \<and> \<not> cx_bridge_request c"
proof (rule decide_Inr[OF assms])
  fix l m e assume "lane_checks cfg s c = Inr l" "lifecycle_checks l s c = Inr ()"
  then show ?thesis using lane_checks_Inr[of cfg s c l] lifecycle_checks_Inr[of l s c] by blast
qed

text \<open>
  C8: a plan's stop, entry and target are in the order its side demands, on the very prices that are
  sent, and the order type is one the broker supports.
\<close>

theorem planned_brackets_ordered:
  assumes "decide cfg symbols s c = Inr p"
  shows "pl_type p \<in> {''MARKET'', ''LIMIT'', ''STOP''} \<and>
     (\<exists>entry. (pl_price p = Some entry \<or> pl_type p = ''MARKET'' \<and> pl_price p = None) \<and>
        brackets_ordered (pl_side p) entry (pl_sl p) (pl_tp p))"
proof (rule decide_Inr[OF assms])
  fix l m e assume d: "price_checks l symbols s = Inr m" "order_type_of s m (sg_side s) c = Inr (pl_type p)"
    "order_terms l m s (pl_type p) c = Inr (pl_volume p, e, pl_sl p, pl_tp p)"
    "pl_price p = (if pl_type p = ''MARKET'' then None else Some e)" "pl_side p = sg_side s"
  have side: "sg_side s \<in> {''BUY'', ''SELL''}" by (rule price_checks_Inr(2)[OF d(1)])
  from d(3) have "brackets_ordered (sg_side s) e (pl_sl p) (pl_tp p)"
  proof (cases rule: order_terms_Inr)
    case paper
    then show ?thesis using price_checks_Inr(3)[OF d(1)] by simp
  next
    case (live api)
    show ?thesis by (rule live_terms_Inr[OF live(3)]) (simp add: check_brackets_Inr[OF side])
  qed
  then show ?thesis using order_type_Inr[OF d(2)] d(4,5) by auto
qed

text \<open>A price as the destination takes it: on its grid, at most half a step from the one given; as given without a grid.\<close>

definition price_on_terms :: "instrument_row \<Rightarrow> decimal \<Rightarrow> decimal \<Rightarrow> bool" where
  "price_on_terms i given sent \<longleftrightarrow>
     (case in_price_precision i of
        None \<Rightarrow> sent = given
      | Some g \<Rightarrow> on_grid g sent \<and> \<bar>dval sent - dval given\<bar> \<le> 10 powi (- g) / 2)"

lemma engine_grid_on_terms: "engine_grid i v = Inr r \<Longrightarrow> price_on_terms i v r"
  using grid_on_grid[of _ v r] grid_close[of _ v r] by (auto simp: engine_grid_def price_on_terms_def split: option.splits)

text \<open>
  C21: a live plan is on the destination's terms. Its lots are within the instrument's limits and a whole number
  of its positive step; the instrument is not close-only, and not sold when it is long-only. Its entry (sent
  unless it is a market order), its stop and its target are the signal's, on the instrument's price grid and
  at most half a grid step away. A pending order rests: its entry passed the check against the market.
\<close>

theorem live_plan_on_terms:
  assumes "decide cfg symbols s c = Inr p" "\<not> cx_paper c"
  shows "\<exists>api i contract lo hi step r. cx_api c = Some api \<and> engine_instrument api (pl_instrument p) = Inr (i, contract) \<and>
     in_volume_min i = Some lo \<and> in_volume_max i = Some hi \<and> in_volume_step i = Some step \<and> 0 < dval step \<and>
     dval lo \<le> dval (pl_volume p) \<and> dval (pl_volume p) \<le> dval hi \<and> drem (pl_volume p) step = Inr r \<and> dval r = 0 \<and>
     \<not> in_close_only i \<and> (in_long_only i \<longrightarrow> pl_side p \<noteq> ''SELL'') \<and> pl_side p = sg_side s \<and>
     price_on_terms i (sg_stop s) (pl_sl p) \<and> price_on_terms i (sg_target s) (pl_tp p) \<and>
     (case pl_price p of
        None \<Rightarrow> pl_type p = ''MARKET''
      | Some e \<Rightarrow> pl_type p \<noteq> ''MARKET'' \<and> price_on_terms i (sg_entry s) e \<and>
          check_not_through_market c api (pl_instrument p) (pl_side p) (pl_type p) e = Inr ())"
proof (rule decide_Inr[OF assms(1)])
  fix l m e assume d: "order_terms l m s (pl_type p) c = Inr (pl_volume p, e, pl_sl p, pl_tp p)"
    "pl_instrument p = sm_destination m" "pl_price p = (if pl_type p = ''MARKET'' then None else Some e)" "pl_side p = sg_side s"
  from d(1) show ?thesis
  proof (cases rule: order_terms_Inr)
    case paper
    with assms(2) show ?thesis by simp
  next
    case (live api)
    show ?thesis
    proof (rule live_terms_Inr[OF live(3)])
      fix i contract equity assume t: "engine_instrument api (sm_destination m) = Inr (i, contract)"
        "engine_grid i (sg_entry s) = Inr e" "engine_grid i (sg_stop s) = Inr (pl_sl p)" "engine_grid i (sg_target s) = Inr (pl_tp p)"
        "check_limits i (pl_volume p) (sg_side s) = Inr ()"
        "pl_type p \<noteq> ''MARKET'' \<Longrightarrow> check_not_through_market c api (sm_destination m) (sg_side s) (pl_type p) e = Inr ()"
      obtain lo hi step r where "in_volume_min i = Some lo" "in_volume_max i = Some hi" "in_volume_step i = Some step" "0 < dval step"
        "dval lo \<le> dval (pl_volume p)" "dval (pl_volume p) \<le> dval hi" "drem (pl_volume p) step = Inr r" "dval r = 0"
        using check_limits_Inr(1)[OF t(5)] by blast
      with t check_limits_Inr(2,3)[OF t(5)] live(2) d(2-4) engine_grid_on_terms
      show ?thesis by (intro exI[of _ api] exI[of _ i] exI[of _ contract] exI[of _ lo] exI[of _ hi] exI[of _ step] exI[of _ r]) auto
    qed
  qed
qed

text \<open>
  Paper never reads the broker: the decision is the same whatever connection there is.
\<close>

theorem paper_ignores_broker:
  assumes "cx_mode c = Some ''paper''"
  shows "decide cfg symbols s (c\<lparr>cx_api := api\<rparr>) = decide cfg symbols s c"
proof -
  have p: "cx_paper c" "cx_paper (c\<lparr>cx_api := api\<rparr>)" using assms by (simp_all add: cx_paper_def)
  have "lane_checks cfg s (c\<lparr>cx_api := api\<rparr>) = lane_checks cfg s c" by (simp add: lane_checks_def p split: option.split)
  moreover have "lifecycle_checks l s (c\<lparr>cx_api := api\<rparr>) = lifecycle_checks l s c" for l
    by (simp add: lifecycle_checks_def)
  moreover have "order_type_of s m side (c\<lparr>cx_api := api\<rparr>) = order_type_of s m side c" for m side
    by (simp add: order_type_of_def p)
  moreover have "order_terms l m s t (c\<lparr>cx_api := api\<rparr>) = order_terms l m s t c" for l m t
    by (simp add: order_terms_def p)
  ultimately show ?thesis by (simp add: decide_def)
qed

text \<open>
  Risk sizing never rounds up: the lots are at most the risk divided by the stop distance in
  contract units, or they are the instrument's minimum.
\<close>

theorem risk_lots_bounded:
  assumes "size_lots l m s i contract equity = Inr lots" "sizing_mode l \<noteq> ''lots''"
  shows "\<exists>risk raw minimum. risk_of l equity = Inr risk \<and> in_volume_min i = Some minimum \<and>
     ddiv risk (dmul (dabs (dsub (sg_entry s) (sg_stop s))) (contract_size contract)) = Inr raw \<and>
     dval minimum \<le> dval lots \<and> (dval raw \<ge> 0 \<longrightarrow> dval lots \<le> max (dval raw) (dval minimum))"
proof -
  from assms obtain risk step minimum raw q where
    1: "risk_of l equity = Inr risk" "in_volume_step i = Some step" "in_volume_min i = Some minimum" and
    2: "ddiv risk (dmul (dabs (dsub (sg_entry s) (sg_stop s))) (contract_size contract)) = Inr raw"
      "quantize round_down raw step = Inr q" "lots = dmax q minimum"
    unfolding size_lots_def Let_def bindE_Inr limit_of_def of_option_Inr
    by (simp add: bindE_Inr of_option_Inr split: if_splits) blast
  have "dval raw \<ge> 0 \<Longrightarrow> dval q \<le> dval raw" using quantize_down_bounds(2)[OF 2(2)] by blast
  then show ?thesis using 1 2 by (auto simp: dec_simps)
qed

text \<open>
  The pending type chosen from a fresh quote is the one that rests: the entry it is sent with is
  not through that quote.
\<close>

theorem chosen_pending_type_rests:
  assumes "pending_type_from_quote s m side c api = Inr t" "side \<in> {''BUY'', ''SELL''}"
  shows "\<exists>q. qt_symbol q = sm_destination m \<and> quote_fresh (cx_now c) q \<and> t \<in> {''LIMIT'', ''STOP''} \<and>
     \<not> level_through side t (sg_entry s) q"
proof -
  from assms(1) obtain qs where qs: "sa_quotes api (sm_destination m) = Inr qs"
    by (auto simp: pending_type_from_quote_def bindE_Inr)
  show ?thesis
  proof (cases "filter (\<lambda>q. qt_symbol q = sm_destination m) qs" rule: remdups_adj.cases)
    case (2 q)
    then have "q \<in> set (filter (\<lambda>q. qt_symbol q = sm_destination m) qs)" by simp
    then have sym: "qt_symbol q = sm_destination m" by simp
    have "quote_fresh (cx_now c) q \<and> t \<in> {''LIMIT'', ''STOP''} \<and> \<not> level_through side t (sg_entry s) q"
      using assms qs 2 by (auto simp: pending_type_from_quote_def level_through_def Let_def dec_simps split: if_splits)
    with sym show ?thesis by blast
  qed (use assms qs in \<open>auto simp: pending_type_from_quote_def\<close>)
qed

subsection \<open>A concrete decision\<close>

definition sample_lane :: lane where
  "sample_lane =
     \<lparr>ln_id = ''c1'', ln_name = ''R01'', ln_machine = ''m'', ln_source = ''r01'', ln_connection = [], ln_additional = [],
      ln_x17_only = False, ln_broker = [], ln_destination = ''A'', ln_grades = [], ln_retract = True,
      ln_sizing = Some ''dollar'', ln_sizing_value = Some (Dec 5 0), ln_risk_usd = None, ln_min_box = Dec 0 0,
      ln_min_box_enabled = False, ln_mode = ''live'', ln_enabled = True\<rparr>"

definition sample_signal :: signal where
  "sample_signal =
     \<lparr>sg_event = ''s1'', sg_machine = ''m'', sg_source = ''r01'', sg_connection = [], sg_account = [],
      sg_kind = ''intent'', sg_label = ''L1'', sg_time = 0, sg_symbol = ''ES'', sg_side = ''BUY'', sg_entry = Dec 5 0,
      sg_stop = Dec 4 0, sg_target = Dec 9 0, sg_order_type = ''LIMIT'', sg_origin = [], sg_detail = [],
      sg_grade = [], sg_stamp = [], sg_rfx = [], sg_arm = []\<rparr>"

definition sample_signal_row :: instrument_row where
  "sample_signal_row =
     \<lparr>in_symbol = ''US'', in_price_precision = Some 0, in_volume_min = Some (Dec 1 0), in_volume_max = Some (Dec 9 0),
      in_volume_step = Some (Dec 1 0), in_close_only = False, in_long_only = False\<rparr>"

definition sample_quote :: quote_row where
  "sample_quote = \<lparr>qt_symbol = ''US'', qt_bid = Dec 6 0, qt_ask = Dec 7 0, qt_sec = Some 1, qt_ms = None\<rparr>"

definition sample_signal_api :: "operation res \<Rightarrow> signal_api" where
  "sample_signal_api answer =
     \<lparr>sa_instruments = Inr [(sample_signal_row, None)], sa_quotes = (\<lambda>_. Inr [sample_quote]),
      sa_equity = Inr (Dec 9 0), sa_write = (\<lambda>_. answer), sa_active_orders = Inr [], sa_account = Some ''A''\<rparr>"

definition sample_context :: engine_context where
  "sample_context =
     \<lparr>cx_mode = Some ''live'', cx_armed = True, cx_armed_at = Some 0, cx_now = 1000000, cx_destination = ''A'',
      cx_api = Some (sample_signal_api (Inl (value_error ''x''))), cx_verified = True, cx_ended_in_batch = False,
      cx_later_end = False, cx_attempted = False, cx_bridge_request = False\<rparr>"

definition sample_symbols :: symbol_map where
  "sample_symbols = [(''ES'', \<lparr>sm_destination = ''US'', sm_lots = Dec 1 0, sm_order_type = ''ENTRY''\<rparr>)]"

lemma sample_decision:
  "case decide (Some sample_lane) sample_symbols sample_signal sample_context of
     Inr p \<Rightarrow> pl_type p = ''LIMIT'' \<and> pl_volume p = Dec 5 0 \<and> pl_instrument p = ''US'' | Inl _ \<Rightarrow> False"
  by code_simp

lemma sample_decision_cases:
  obtains p where "decide (Some sample_lane) sample_symbols sample_signal sample_context = Inr p" "pl_type p = ''LIMIT''"
    "pl_instrument p = ''US''"
  using sample_decision by (auto split: sum.splits)

theorem decided_signal_is_eligible_witness: "lane_matches sample_lane ''m'' ''r01'' \<and> \<not> cx_attempted sample_context"
proof (rule sample_decision_cases)
  fix p assume "decide (Some sample_lane) sample_symbols sample_signal sample_context = Inr p"
  from decided_signal_is_eligible[OF this] show ?thesis by (simp add: sample_signal_def)
qed

theorem planned_brackets_ordered_witness:
  "\<exists>p e. decide (Some sample_lane) sample_symbols sample_signal sample_context = Inr p \<and>
     pl_price p = Some e \<and> brackets_ordered (pl_side p) e (pl_sl p) (pl_tp p)"
proof (rule sample_decision_cases)
  fix p assume d: "decide (Some sample_lane) sample_symbols sample_signal sample_context = Inr p" "pl_type p = ''LIMIT''"
  from planned_brackets_ordered[OF d(1)] d show ?thesis by auto
qed

theorem live_plan_on_terms_witness:
  "\<exists>p. decide (Some sample_lane) sample_symbols sample_signal sample_context = Inr p \<and> dval (pl_volume p) \<le> 9"
proof (rule sample_decision_cases)
  fix p assume d: "decide (Some sample_lane) sample_symbols sample_signal sample_context = Inr p"
    "pl_instrument p = ''US''"
  have "\<not> cx_paper sample_context" by (simp add: cx_paper_def sample_context_def)
  from live_plan_on_terms[OF d(1) this] d(2) have "dval (pl_volume p) \<le> dval (Dec 9 0)"
    by (auto simp: sample_context_def sample_signal_api_def engine_instrument_def sample_signal_row_def bindE_Inr)
  with d(1) show ?thesis by (auto simp: dval_def)
qed

theorem paper_ignores_broker_witness:
  "decide (Some sample_lane) sample_symbols sample_signal (sample_context\<lparr>cx_mode := Some ''paper'', cx_api := None\<rparr>)
   = decide (Some sample_lane) sample_symbols sample_signal (sample_context\<lparr>cx_mode := Some ''paper''\<rparr>)"
  using paper_ignores_broker[of "sample_context\<lparr>cx_mode := Some ''paper''\<rparr>"] by simp

theorem risk_lots_bounded_witness:
  "\<exists>lots. size_lots sample_lane \<lparr>sm_destination = ''US'', sm_lots = Dec 1 0, sm_order_type = ''LIMIT''\<rparr> sample_signal
     sample_signal_row None None = Inr lots \<and> dval (Dec 1 0) \<le> dval lots"
proof -
  have "case size_lots sample_lane \<lparr>sm_destination = ''US'', sm_lots = Dec 1 0, sm_order_type = ''LIMIT''\<rparr> sample_signal
     sample_signal_row None None of Inr _ \<Rightarrow> True | Inl _ \<Rightarrow> False" by code_simp
  then obtain lots where l: "size_lots sample_lane \<lparr>sm_destination = ''US'', sm_lots = Dec 1 0, sm_order_type = ''LIMIT''\<rparr>
     sample_signal sample_signal_row None None = Inr lots" by (auto split: sum.splits)
  have "sizing_mode sample_lane \<noteq> ''lots''" by (simp add: sizing_mode_def sample_lane_def)
  from risk_lots_bounded[OF l this] l show ?thesis by (auto simp: sample_signal_row_def)
qed

theorem chosen_pending_type_rests_witness:
  "\<exists>t. pending_type_from_quote sample_signal \<lparr>sm_destination = ''US'', sm_lots = Dec 1 0, sm_order_type = ''ENTRY''\<rparr> ''BUY''
     sample_context (sample_signal_api (Inl (value_error ''x''))) = Inr t \<and> t \<in> {''LIMIT'', ''STOP''}"
proof -
  have "case pending_type_from_quote sample_signal \<lparr>sm_destination = ''US'', sm_lots = Dec 1 0, sm_order_type = ''ENTRY''\<rparr>
     ''BUY'' sample_context (sample_signal_api (Inl (value_error ''x''))) of Inr _ \<Rightarrow> True | Inl _ \<Rightarrow> False" by code_simp
  then obtain t where t: "pending_type_from_quote sample_signal \<lparr>sm_destination = ''US'', sm_lots = Dec 1 0,
     sm_order_type = ''ENTRY''\<rparr> ''BUY'' sample_context (sample_signal_api (Inl (value_error ''x''))) = Inr t"
    by (auto split: sum.splits)
  from chosen_pending_type_rests[OF t] t show ?thesis by blast
qed

end
