(* ===== verification/SignalCopy.thy ===== *)
theory SignalCopy
  imports SignalEngine Unwind
begin

text \<open>
  One copy lane (dashboard/signal_copy.py): signals are recorded, decided once through the engine,
  dispatched once and remembered; a cancel or closed signal unwinds what the lane or the ledger sent.
  A raw signal is given by its fields, a missing one being empty. The two SHA-256 digests are
  arguments, each signal of a batch comes with the moment it is handled at, and the broker session
  is one argument that the engine and the unwind read in their own views.
\<close>

record hashes =
  hs_key :: "string \<Rightarrow> string \<Rightarrow> string"
  hs_digest :: "signal \<Rightarrow> string"

record signal_row =
  sr_id :: string
  sr_client :: string
  sr_machine :: string
  sr_source :: string
  sr_label :: string
  sr_kind :: string
  sr_emitted :: int
  sr_received :: int
  sr_digest :: string
  sr_payload :: signal
  sr_decision :: string
  sr_reason :: string
  sr_destination :: "string option"
  sr_request :: "request option"
  sr_answer :: "operation res option"

record appearance =
  ap_signal :: string
  ap_received :: int
  ap_payload :: signal
  ap_conflict :: bool

record copy_lane =
  cl_rows :: "signal_row list"
  cl_seen :: "appearance list"
  cl_config :: "lane option"
  cl_symbols :: symbol_map
  cl_armed :: bool
  cl_mode :: "string option"
  cl_armed_at :: "int option"
  cl_ledger :: "journal option"

record copy_session =
  cs_signal :: signal_api
  cs_unwind :: unwind_api

text \<open>The writes of a lane, by what they are for: openings and cancels of its own, and the ledger's.\<close>

datatype copy_key = Open_key "string list" string | Cancel_key "string list" string | Ledger_key "string \<times> string"

subsection \<open>The record\<close>

text \<open>At start nothing is armed, and a write that was interrupted is uncertain.\<close>

definition open_lane :: "copy_lane \<Rightarrow> copy_lane" where
  "open_lane st =
     st\<lparr>cl_rows := tupdate (\<lambda>r. sr_decision r = ''dispatching'')
                     (\<lambda>r. r\<lparr>sr_decision := ''uncertain'', sr_reason := ''Interrupted write; no automatic retry''\<rparr>)
                     (cl_rows st),
        cl_armed := False, cl_mode := None, cl_armed_at := None\<rparr>"

definition set_row :: "string \<Rightarrow> (signal_row \<Rightarrow> signal_row) \<Rightarrow> copy_lane \<Rightarrow> copy_lane" where
  "set_row key f st = st\<lparr>cl_rows := tupdate (\<lambda>r. sr_id r = key) f (cl_rows st)\<rparr>"

definition related_rows :: "signal \<Rightarrow> signal_row list \<Rightarrow> signal_row list" where
  "related_rows raw rows =
     filter (\<lambda>r. sr_machine r = sg_machine raw \<and> sr_source r = sg_source raw \<and> sr_label r = sg_label raw \<and>
                 signal_scope (sr_payload r) = signal_scope raw) rows"

definition sent_to :: "string \<Rightarrow> signal_row \<Rightarrow> bool" where
  "sent_to destination r \<longleftrightarrow> sr_request r \<noteq> None \<and> sr_destination r = Some destination"

definition legacy_copy :: "signal \<Rightarrow> string \<Rightarrow> copy_lane \<Rightarrow> bool" where
  "legacy_copy raw destination st \<longleftrightarrow>
     (\<exists>r \<in> set (related_rows raw (cl_rows st)). sr_kind r = ''intent'' \<and> sent_to destination r)"

definition live_copy :: "signal \<Rightarrow> string \<Rightarrow> copy_lane \<Rightarrow> bool" where
  "live_copy raw destination st \<longleftrightarrow>
     (\<exists>r \<in> set (related_rows raw (cl_rows st)).
        sr_kind r = ''intent'' \<and> sent_to destination r \<and> sr_decision r = ''accepted'')"

subsection \<open>Settings\<close>

record signal_settings =
  st_lane :: lane
  st_symbols :: symbol_map
  st_p01_log :: bool

definition settings_checks :: "signal_settings \<Rightarrow> copy_lane \<Rightarrow> unit res" where
  "settings_checks v st =
     (if st_p01_log v \<and> ''panel'' \<in> set (ln_additional (st_lane v))
      then Inl (value_error ''Use either P01 local log or structured panel signals, not both'')
      else if st_p01_log v \<and> ln_source (st_lane v) \<noteq> ''P01_LOG''
      then Inl (value_error ''P01 log routing requires source P01_LOG'')
      else if st_p01_log v \<and> (\<exists>m \<in> set (st_symbols v). sm_order_type (snd m) \<noteq> ''SOURCE'')
      then Inl (value_error ''P01 log routing must preserve the source Limit/Stop order type'')
      else if st_symbols v = [] \<and> cl_symbols st = []
      then Inl (value_error ''At least one symbol mapping is required'')
      else if cl_armed st \<and> cl_mode st \<noteq> Some ''paper''
      then Inl (value_error ''Turn live signal copying off before editing settings'')
      else Inr ())"

definition configure :: "signal_settings \<Rightarrow> copy_lane \<Rightarrow> copy_lane res" where
  "configure v st =
     bindE (settings_checks v st) (\<lambda>_.
       Inr (st\<lparr>cl_symbols := (if st_symbols v \<noteq> [] then st_symbols v else cl_symbols st),
               cl_config := Some (st_lane v)\<rparr>))"

definition configure_symbols :: "symbol_map \<Rightarrow> copy_lane \<Rightarrow> copy_lane res" where
  "configure_symbols m st =
     (if m = [] then Inl (value_error ''At least one symbol mapping is required'')
      else if cl_armed st \<and> cl_mode st \<noteq> Some ''paper''
      then Inl (value_error ''Turn live signal copying off before editing settings'')
      else Inr (st\<lparr>cl_symbols := m\<rparr>))"

definition arm :: "bool \<Rightarrow> int \<Rightarrow> copy_lane \<Rightarrow> copy_lane" where
  "arm enabled now st = st\<lparr>cl_armed := enabled, cl_armed_at := (if enabled then Some now else None)\<rparr>"

subsection \<open>Opening\<close>

definition bridge_requested :: "signal \<Rightarrow> copy_lane \<Rightarrow> bool" where
  "bridge_requested s st \<longleftrightarrow>
     cl_mode st \<noteq> None \<and>
     (case cl_ledger st of
        None \<Rightarrow> False
      | Some j \<Rightarrow> \<exists>t \<in> set (linked_trades j (sg_machine s) (sg_label s)). already_sent j (tr_id t))"

definition context_of ::
  "signal \<Rightarrow> signal \<Rightarrow> string list list \<Rightarrow> copy_session option \<Rightarrow> string \<Rightarrow> bool \<Rightarrow> int \<Rightarrow> copy_lane
    \<Rightarrow> engine_context" where
  "context_of s raw ended session destination verified now st =
     (let related = related_rows raw (cl_rows st) in
      \<lparr>cx_mode = cl_mode st, cx_armed = cl_armed st, cx_armed_at = cl_armed_at st, cx_now = now,
       cx_destination = destination, cx_api = map_option cs_signal session, cx_verified = verified,
       cx_ended_in_batch = (signal_scope raw \<in> set ended \<or> [sg_machine s, sg_source s, sg_label s] \<in> set ended),
       cx_later_end = (\<exists>r \<in> set related. sr_kind r \<in> set unwind_kinds \<and> sg_time s \<le> sr_emitted r),
       cx_attempted = (\<exists>r \<in> set related. sr_kind r = ''intent'' \<and> sent_to destination r),
       cx_bridge_request = bridge_requested s st\<rparr>)"

definition land_outcome :: "string \<Rightarrow> outcome \<Rightarrow> copy_lane \<Rightarrow> copy_lane" where
  "land_outcome key o' =
     set_row key (\<lambda>r. r\<lparr>sr_decision := oc_decision o', sr_reason := oc_reason o', sr_answer := Some (oc_answer o')\<rparr>)"

definition commit_attempt :: "string \<Rightarrow> string \<Rightarrow> request \<Rightarrow> copy_lane \<Rightarrow> copy_lane" where
  "commit_attempt key destination q =
     set_row key (\<lambda>r. r\<lparr>sr_decision := ''dispatching'', sr_destination := Some destination, sr_request := Some q\<rparr>)"

definition hold_row :: "string \<Rightarrow> string \<Rightarrow> copy_lane \<Rightarrow> copy_lane" where
  "hold_row key why = set_row key (\<lambda>r. r\<lparr>sr_decision := ''held'', sr_reason := why\<rparr>)"

definition open_copy ::
  "string \<Rightarrow> signal \<Rightarrow> signal \<Rightarrow> string list list \<Rightarrow> copy_session option \<Rightarrow> string \<Rightarrow> bool \<Rightarrow> int \<Rightarrow> copy_lane
    \<Rightarrow> unit res \<times> copy_lane \<times> copy_key list" where
  "open_copy key s raw ended session destination verified now st =
     (case decide (cl_config st) (cl_symbols st) s (context_of s raw ended session destination verified now st) of
        Inl e \<Rightarrow>
          (Inr (),
           hold_row key (if exn_type e = ''Refusal'' then exn_msg e
                         else ''Processing interrupted by '' @ exn_type e @ ''; no automatic retry'') st, [])
      | Inr p \<Rightarrow>
          if cl_mode st = Some ''paper''
          then (Inr (),
                set_row key (\<lambda>r. r\<lparr>sr_decision := ''paper'', sr_destination := Some destination,
                                   sr_request := Some (plan_request p),
                                   sr_reason := ''Paper: broker request recorded; nothing sent''\<rparr>) st, [])
          else (let st1 = commit_attempt key destination (plan_request p) st in
                case session of
                  None \<Rightarrow> (Inl (Exn ''AttributeError'' ''no broker connection'' None), st1, [])
                | Some a \<Rightarrow> (Inr (), land_outcome key (send_plan p (cs_signal a) key) st1,
                             [Open_key (signal_scope raw) destination])))"

subsection \<open>Unwinding\<close>

definition prepare_own_cancel ::
  "signal \<Rightarrow> signal \<Rightarrow> copy_session option \<Rightarrow> string \<Rightarrow> bool \<Rightarrow> copy_lane \<Rightarrow> request res" where
  "prepare_own_cancel s raw session destination verified st =
     (let related = related_rows raw (cl_rows st);
          opens = filter (\<lambda>r. sr_kind r = ''intent'' \<and> sent_to destination r) related in
      case session of
        None \<Rightarrow> Inl (value_error ''Connect the authenticated destination before cancelling its pending order'')
      | Some a \<Rightarrow>
          if \<not> verified
          then Inl (value_error ''Connect the authenticated destination before cancelling its pending order'')
          else if ua_account (cs_unwind a) \<noteq> Some destination
          then Inl (value_error ''The broker connection belongs to a different account'')
          else if sg_label s = [] then Inl (value_error ''Cancellation requires the original label'')
          else if \<exists>r \<in> set related. sr_kind r \<in> set cancel_kinds \<and> sent_to destination r
          then Inl (value_error ''Cancellation already attempted; no automatic retry'')
          else (case opens of
                  [r] \<Rightarrow>
                    if sr_decision r \<noteq> ''accepted''
                    then Inl (value_error ''No unique accepted copy is linked to this cancellation'')
                    else (case (sr_request r, sr_answer r) of
                            (Some q, Some (Inr op)) \<Rightarrow>
                              if \<not> truthy (op_order_id op) \<or> rq_type q \<notin> {''LIMIT'', ''STOP''}
                              then Inl (value_error ''The linked copy is not a pending order'')
                              else pending_order_request (sa_active_orders (cs_signal a)) (opt_str (op_order_id op)) q
                          | (_, Some (Inl _)) \<Rightarrow> Inl (value_error ''The linked copy is not a pending order'')
                          | _ \<Rightarrow> Inl (Exn ''TypeError'' ''no stored response'' None))
                | _ \<Rightarrow> Inl (value_error ''No unique accepted copy is linked to this cancellation'')))"

definition cancel_own_copy ::
  "string \<Rightarrow> signal \<Rightarrow> signal \<Rightarrow> copy_session option \<Rightarrow> string \<Rightarrow> bool \<Rightarrow> copy_lane
    \<Rightarrow> unit res \<times> copy_lane \<times> copy_key list" where
  "cancel_own_copy key s raw session destination verified st =
     (case prepare_own_cancel s raw session destination verified st of
        Inl e \<Rightarrow> if is_value_error e then (Inr (), hold_row key (exn_msg e) st, []) else (Inl e, st, [])
      | Inr q \<Rightarrow>
          (let st1 = commit_attempt key destination q st in
           case session of
             None \<Rightarrow> (Inl (Exn ''AttributeError'' ''no broker connection'' None), st1, [])
           | Some a \<Rightarrow> (Inr (), land_outcome key (send_cancel q (cs_signal a) key) st1,
                        [Cancel_key (signal_scope raw) destination])))"

definition unwind_signal_of :: "signal \<Rightarrow> unwind_signal" where
  "unwind_signal_of s =
     \<lparr>us_kind = sg_kind s, us_machine = sg_machine s, us_event = sg_event s, us_label = sg_label s,
      us_symbol = sg_symbol s, us_time = sg_time s\<rparr>"

definition interrupted_unwind :: "signal \<Rightarrow> exn \<Rightarrow> unwind_outcome" where
  "interrupted_unwind s e =
     \<lparr>uo_decision = ''uncertain'',
      uo_reason = ''Unwind processing interrupted by '' @ exn_type e @
        ''; completion is unconfirmed. Check the capture journal for lifecycle '' @ py_repr (sg_label s) @
        '' and reconcile broker state before any retry'',
      uo_trade = None, uo_request = None, uo_answer = None\<rparr>"

definition nothing_to_unwind :: "signal \<Rightarrow> string" where
  "nothing_to_unwind s =
     (let verb = unwind_verb (action_of (unwind_signal_of s)) in
      if sg_label s = [] then ''Signal carries no lifecycle label; nothing to '' @ verb
      else ''No sent trade is linked to lifecycle '' @ py_repr (sg_label s) @ '' from '' @ sg_machine s @
           ''; nothing to '' @ verb)"

definition record_unwind :: "string \<Rightarrow> string \<Rightarrow> unwind_outcome \<Rightarrow> copy_lane \<Rightarrow> copy_lane" where
  "record_unwind key destination u =
     set_row key (\<lambda>r. r\<lparr>sr_decision := uo_decision u, sr_reason := uo_reason u, sr_destination := Some destination,
                        sr_request := uo_request u, sr_answer := uo_answer u\<rparr>)"

definition unwind_ledger ::
  "router_env \<Rightarrow> (request \<Rightarrow> string) \<Rightarrow> string \<Rightarrow> signal \<Rightarrow> copy_session option \<Rightarrow> string \<Rightarrow> bool \<Rightarrow> copy_lane
    \<Rightarrow> unwind_outcome option \<times> copy_lane \<times> copy_key list" where
  "unwind_ledger env shown key s session destination verified st =
     (case cl_ledger st of
        None \<Rightarrow> (None, st, [])
      | Some j \<Rightarrow>
          if sg_label s = [] then (None, st, [])
          else (case unwind_apply env shown (unwind_signal_of s) None (map_option cs_unwind session) destination verified j of
                  (r, j1, ws) \<Rightarrow>
                    ((case r of Inl e \<Rightarrow> Some (interrupted_unwind s e) | Inr u \<Rightarrow> u),
                     st\<lparr>cl_ledger := Some j1\<rparr>, map (\<lambda>w. Ledger_key (fst w)) ws)))"

definition unwind_copy ::
  "router_env \<Rightarrow> (request \<Rightarrow> string) \<Rightarrow> string \<Rightarrow> signal \<Rightarrow> signal \<Rightarrow> copy_session option \<Rightarrow> string \<Rightarrow> bool \<Rightarrow> copy_lane
    \<Rightarrow> unit res \<times> copy_lane \<times> copy_key list" where
  "unwind_copy env shown key s raw session destination verified st =
     (if sg_kind s \<in> set cancel_kinds \<and> legacy_copy raw destination st
      then cancel_own_copy key s raw session destination verified st
      else (case unwind_ledger env shown key s session destination verified st of
              (Some u, st1, ws) \<Rightarrow> (Inr (), record_unwind key destination u st1, ws)
            | (None, st1, ws) \<Rightarrow>
                (Inr (), set_row key (\<lambda>r. r\<lparr>sr_decision := ''captured'', sr_reason := nothing_to_unwind s\<rparr>) st1, ws)))"

subsection \<open>Receiving\<close>

record copy_result =
  cr_event :: string
  cr_row :: "signal_row option"
  cr_status :: string
  cr_reason :: string
  cr_duplicate :: bool

definition row_result :: "bool \<Rightarrow> signal_row \<Rightarrow> copy_result" where
  "row_result duplicate r =
     \<lparr>cr_event = sr_client r, cr_row = Some r, cr_status = sr_decision r, cr_reason = sr_reason r,
      cr_duplicate = duplicate\<rparr>"

definition invalid_result :: "signal \<Rightarrow> copy_result" where
  "invalid_result raw =
     \<lparr>cr_event = sg_event raw, cr_row = None, cr_status = ''invalid'',
      cr_reason = ''Invalid signal identity, timestamp, or numeric fields; no copy attempted'', cr_duplicate = False\<rparr>"

definition repeated_result :: "bool \<Rightarrow> signal_row \<Rightarrow> copy_result" where
  "repeated_result conflict r =
     (if conflict
      then (row_result True r)\<lparr>cr_status := ''held'',
             cr_reason := ''Repeated identity has conflicting signal fields; no new order attempted''\<rparr>
      else row_result True r)"

definition new_signal_row :: "hashes \<Rightarrow> string \<Rightarrow> signal \<Rightarrow> signal \<Rightarrow> int \<Rightarrow> signal_row" where
  "new_signal_row hs key s raw now =
     \<lparr>sr_id = key, sr_client = sg_event s, sr_machine = sg_machine s, sr_source = sg_source s, sr_label = sg_label s,
      sr_kind = sg_kind s, sr_emitted = sg_time s, sr_received = now, sr_digest = hs_digest hs s, sr_payload = raw,
      sr_decision = ''captured'', sr_reason = ''Local logging; no copy attempted'', sr_destination = None,
      sr_request = None, sr_answer = None\<rparr>"

definition act_on_signal ::
  "router_env \<Rightarrow> (request \<Rightarrow> string) \<Rightarrow> string \<Rightarrow> signal \<Rightarrow> signal \<Rightarrow> string list list \<Rightarrow> copy_session option \<Rightarrow> string
    \<Rightarrow> bool \<Rightarrow> copy_lane \<Rightarrow> unit res \<times> copy_lane \<times> copy_key list" where
  "act_on_signal env shown key s raw ended session destination verified st =
     (if sg_kind s = ''intent'' then open_copy key s raw ended session destination verified (en_now env) st
      else if cl_mode st \<noteq> None \<and> sg_kind s = ''closed'' then (Inr (), st, [])
      else if cl_mode st = Some ''paper'' \<and> sg_kind s \<in> set cancel_kinds \<and> \<not> live_copy raw destination st
      then (Inr (), st, [])
      else if sg_kind s \<in> set unwind_kinds then unwind_copy env shown key s raw session destination verified st
      else (Inr (), st, []))"

definition receive_signal ::
  "hashes \<Rightarrow> (request \<Rightarrow> string) \<Rightarrow> string list list \<Rightarrow> copy_session option \<Rightarrow> string \<Rightarrow> bool \<Rightarrow> router_env \<Rightarrow> signal \<Rightarrow> signal
    \<Rightarrow> copy_lane \<Rightarrow> copy_result res \<times> copy_lane \<times> copy_key list" where
  "receive_signal hs shown ended session destination verified env raw s st =
     (let key = hs_key hs (sg_machine s) (sg_event s);
          previous = find (\<lambda>r. sr_id r = key) (cl_rows st);
          conflict = (case previous of Some r \<Rightarrow> sr_digest r \<noteq> hs_digest hs s | None \<Rightarrow> False);
          st1 = st\<lparr>cl_seen := cl_seen st @ [\<lparr>ap_signal = key, ap_received = en_now env, ap_payload = raw,
                                             ap_conflict = conflict\<rparr>]\<rparr>
      in case previous of
           Some r \<Rightarrow> (Inr (repeated_result conflict r), st1, [])
         | None \<Rightarrow>
             (let st2 = st1\<lparr>cl_rows := cl_rows st1 @ [new_signal_row hs key s raw (en_now env)]\<rparr>;
                  (r, st3, ws) = act_on_signal env shown key s raw ended session destination verified st2
              in (case r of
                    Inl e \<Rightarrow> Inl e
                  | Inr _ \<Rightarrow> of_option (Exn ''TypeError'' ''no row'' None)
                              (map_option (row_result False) (find (\<lambda>r. sr_id r = key) (cl_rows st3))),
                  st3, ws)))"

text \<open>A signal that does not parse, or a \<open>ValueError\<close> on the way, is answered as invalid.\<close>

fun receive_all ::
  "hashes \<Rightarrow> (request \<Rightarrow> string) \<Rightarrow> string list list \<Rightarrow> copy_session option \<Rightarrow> string \<Rightarrow> bool \<Rightarrow> (router_env \<times> signal) list
    \<Rightarrow> copy_lane \<Rightarrow> copy_result list res \<times> copy_lane \<times> copy_key list" where
  "receive_all hs shown ended session destination verified [] st = (Inr [], st, [])"
| "receive_all hs shown ended session destination verified ((env, raw) # rest) st =
     (let (r, st1, ws) = (case parse_signal raw of
              Inl e \<Rightarrow> (Inl e, st, [])
            | Inr s \<Rightarrow> receive_signal hs shown ended session destination verified env raw s st)
      in case (case r of Inl e \<Rightarrow> if is_value_error e then Inr (invalid_result raw) else Inl e | Inr x \<Rightarrow> Inr x) of
           Inl e \<Rightarrow> (Inl e, st1, ws)
         | Inr x \<Rightarrow>
             (let (rs, st2, ws2) = receive_all hs shown ended session destination verified rest st1
              in (bindE rs (\<lambda>xs. Inr (x # xs)), st2, ws @ ws2)))"

definition ended_scopes :: "signal list \<Rightarrow> string list list" where
  "ended_scopes raws = map signal_scope (filter (\<lambda>p. sg_kind p \<in> set unwind_kinds \<and> sg_label p \<noteq> []) raws)"

definition receive_batch ::
  "hashes \<Rightarrow> (request \<Rightarrow> string) \<Rightarrow> copy_session option \<Rightarrow> string \<Rightarrow> bool \<Rightarrow> (router_env \<times> signal) list \<Rightarrow> copy_lane
    \<Rightarrow> copy_result list res \<times> copy_lane \<times> copy_key list" where
  "receive_batch hs shown session destination verified batch st =
     (if batch = [] \<or> length batch > 100
      then (Inl (value_error ''Expected an array of 1 to 100 signal objects''), st, [])
      else receive_all hs shown (ended_scopes (map snd batch)) session destination verified batch st)"

subsection \<open>Claims\<close>

text \<open>
  A lane holds a claim on an opening or a cancel of a lifecycle when a row of that lifecycle records a
  request to that destination, and on a ledger write when the ledger holds the attempt.
\<close>

definition row_in :: "string list \<Rightarrow> signal_row \<Rightarrow> bool" where
  "row_in sc r \<longleftrightarrow> signal_scope (sr_payload r) = sc \<and> sr_machine r = sc ! 0 \<and> sr_source r = sc ! 1 \<and> sr_label r = sc ! 5"

fun lane_claimed :: "copy_lane \<Rightarrow> copy_key \<Rightarrow> bool" where
  "lane_claimed st (Open_key sc d) =
     (\<exists>r \<in> set (cl_rows st). row_in sc r \<and> sr_kind r = ''intent'' \<and> sent_to d r)"
| "lane_claimed st (Cancel_key sc d) =
     (\<exists>r \<in> set (cl_rows st). row_in sc r \<and> sr_kind r \<in> set cancel_kinds \<and> sent_to d r)"
| "lane_claimed st (Ledger_key k) = (case cl_ledger st of Some j \<Rightarrow> attempt_claimed j k | None \<Rightarrow> False)"

abbreviation once_law :: "copy_lane \<Rightarrow> copy_lane \<Rightarrow> copy_key list \<Rightarrow> bool" where
  "once_law \<equiv> once lane_claimed"

lemma related_rows_set:
  "r \<in> set (related_rows raw rows) \<longleftrightarrow> r \<in> set rows \<and> row_in (signal_scope raw) r"
  by (auto simp: related_rows_def row_in_def signal_scope_def)

definition pending_row :: "string \<Rightarrow> signal \<Rightarrow> signal \<Rightarrow> copy_lane \<Rightarrow> bool" where
  "pending_row key s raw st \<longleftrightarrow>
     (\<forall>r \<in> set (cl_rows st). sr_id r = key \<longrightarrow> sr_request r = None) \<and>
     (\<exists>r \<in> set (cl_rows st). sr_id r = key \<and> row_in (signal_scope raw) r \<and> sr_kind r = sg_kind s)"

lemma set_row_claims:
  assumes "pending_row key s raw st" "lane_claimed st k"
  shows "lane_claimed (set_row key f st) k"
proof (cases k)
  case (Open_key sc d)
  with assms obtain r where r: "r \<in> set (cl_rows st)" "row_in sc r" "sr_kind r = ''intent''" "sent_to d r" by auto
  then have "sr_id r \<noteq> key" using assms(1) by (auto simp: pending_row_def sent_to_def)
  then have "r \<in> set (cl_rows (set_row key f st))" using r(1) by (force simp: set_row_def tupdate_def)
  with r Open_key show ?thesis by auto
next
  case (Cancel_key sc d)
  with assms obtain r where r: "r \<in> set (cl_rows st)" "row_in sc r" "sr_kind r \<in> set cancel_kinds" "sent_to d r" by auto
  then have "sr_id r \<noteq> key" using assms(1) by (auto simp: pending_row_def sent_to_def)
  then have "r \<in> set (cl_rows (set_row key f st))" using r(1) by (force simp: set_row_def tupdate_def)
  with r Cancel_key show ?thesis by auto
next
  case (Ledger_key x)
  with assms show ?thesis by (simp add: set_row_def)
qed

lemma set_row_law: "pending_row key s raw st \<Longrightarrow> once_law st (set_row key f st) []"
  using set_row_claims by (simp add: once_def)

lemma hold_row_law: "pending_row key s raw st \<Longrightarrow> once_law st (hold_row key why st) []"
  unfolding hold_row_def by (rule set_row_law)

lemma bex_tupdate: "(\<And>r. Q (f r) = Q r) \<Longrightarrow> (\<exists>r \<in> set (tupdate P f rows). Q r) \<longleftrightarrow> (\<exists>r \<in> set rows. Q r)"
  by (induction rows) auto

lemma land_claims [simp]: "lane_claimed (land_outcome key oc st) k = lane_claimed st k"
  by (cases k) (simp_all add: land_outcome_def set_row_def, (subst bex_tupdate; simp add: row_in_def sent_to_def)+)

lemma commit_row:
  assumes "pending_row key s raw st"
  shows "\<exists>r \<in> set (cl_rows (commit_attempt key d q st)). row_in (signal_scope raw) r \<and> sr_kind r = sg_kind s \<and> sent_to d r"
proof -
  from assms obtain r where r: "r \<in> set (cl_rows st)" "sr_id r = key" "row_in (signal_scope raw) r" "sr_kind r = sg_kind s"
    by (auto simp: pending_row_def)
  let ?r = "r\<lparr>sr_decision := ''dispatching'', sr_destination := Some d, sr_request := Some q\<rparr>"
  have "?r \<in> set (cl_rows (commit_attempt key d q st))"
    using r(1,2) by (force simp: commit_attempt_def set_row_def tupdate_def)
  then show ?thesis using r by (intro bexI[of _ ?r]) (auto simp: row_in_def sent_to_def)
qed

lemma commit_law:
  assumes "pending_row key s raw st" "\<not> lane_claimed st k"
    "k = Open_key (signal_scope raw) d \<and> sg_kind s = ''intent'' \<or>
     k = Cancel_key (signal_scope raw) d \<and> sg_kind s \<in> set cancel_kinds"
  shows "once_law st (land_outcome key oc (commit_attempt key d q st)) [k]"
proof -
  have "lane_claimed (commit_attempt key d q st) k" using commit_row[OF assms(1), of d q] assms(3) by (elim disjE bexE) (auto intro!: bexI)
  moreover have "lane_claimed st x \<Longrightarrow> lane_claimed (commit_attempt key d q st) x" for x
    unfolding commit_attempt_def by (rule set_row_claims[OF assms(1)])
  ultimately show ?thesis using assms(2) by (simp add: once_def)
qed

lemma open_copy_law:
  assumes "open_copy key s raw ended session d verified now st = (r, st', ks)" "pending_row key s raw st"
    "sg_kind s = ''intent''"
  shows "once_law st st' ks"
proof (cases "decide (cl_config st) (cl_symbols st) s (context_of s raw ended session d verified now st)")
  case (Inl e)
  with assms show ?thesis by (auto simp: open_copy_def hold_row_law)
next
  case (Inr p)
  show ?thesis
  proof (cases "cl_mode st = Some ''paper''")
    case True
    with assms Inr show ?thesis by (auto simp: open_copy_def set_row_law)
  next
    case live: False
    have "\<not> cx_attempted (context_of s raw ended session d verified now st)"
      by (rule decide_Inr[OF Inr]) (rule lifecycle_checks_Inr(6))
    then have "\<not> lane_claimed st (Open_key (signal_scope raw) d)"
      by (auto simp: context_of_def Let_def related_rows_set)
    then have law: "once_law st (land_outcome key oc (commit_attempt key d (plan_request p) st)) [Open_key (signal_scope raw) d]" for oc
      using commit_law[OF assms(2)] assms(3) by blast
    show ?thesis
    proof (cases session)
      case None
      have "once_law st (commit_attempt key d (plan_request p) st) []"
        unfolding commit_attempt_def by (rule set_row_law[OF assms(2)])
      with assms(1) Inr live None show ?thesis by (auto simp: open_copy_def Let_def)
    next
      case (Some a)
      with assms(1) Inr live law show ?thesis by (auto simp: open_copy_def Let_def)
    qed
  qed
qed

lemma own_cancel_fresh:
  assumes "prepare_own_cancel s raw session d verified st = Inr q"
  shows "\<not> lane_claimed st (Cancel_key (signal_scope raw) d) \<and> session \<noteq> None"
  using assms by (auto simp: prepare_own_cancel_def Let_def related_rows_set split: option.splits if_splits)

lemma cancel_own_copy_law:
  assumes "cancel_own_copy key s raw session d verified st = (r, st', ks)" "pending_row key s raw st"
    "sg_kind s \<in> set cancel_kinds"
  shows "once_law st st' ks"
proof (cases "prepare_own_cancel s raw session d verified st")
  case (Inl e)
  with assms show ?thesis by (auto simp: cancel_own_copy_def hold_row_law split: if_splits)
next
  case (Inr q)
  then obtain a where a: "session = Some a" using own_cancel_fresh by fastforce
  have "once_law st (land_outcome key (send_cancel q (cs_signal a) key) (commit_attempt key d q st)) [Cancel_key (signal_scope raw) d]"
    using commit_law[OF assms(2)] own_cancel_fresh[OF Inr] assms(3) by blast
  with assms(1) Inr a show ?thesis by (auto simp: cancel_own_copy_def Let_def)
qed

lemma unwind_ledger_law:
  assumes "unwind_ledger env shown key s session d verified st = (u, st', ks)"
  shows "once_law st st' ks \<and> cl_rows st' = cl_rows st"
proof (cases "cl_ledger st = None \<or> sg_label s = []")
  case True
  with assms show ?thesis by (auto simp: unwind_ledger_def split: option.splits)
next
  case False
  then obtain j where j: "cl_ledger st = Some j" "sg_label s \<noteq> []" by auto
  obtain x j1 ws where a: "unwind_apply env shown (unwind_signal_of s) None (map_option cs_unwind session) d verified j = (x, j1, ws)"
    by (metis prod.exhaust)
  have st': "st' = st\<lparr>cl_ledger := Some j1\<rparr>" "ks = map (\<lambda>w. Ledger_key (fst w)) ws"
    using assms j a by (auto simp: unwind_ledger_def)
  have rows: "lane_claimed st' k = lane_claimed st k" if "\<forall>x. k \<noteq> Ledger_key x" for k
    using that st' by (cases k) auto
  have stay: "lane_claimed st k \<Longrightarrow> lane_claimed st' k" for k
  proof (cases k)
    case (Ledger_key x)
    assume "lane_claimed st k"
    with Ledger_key show ?thesis using unwind_apply_claimed[OF a, of x] st' j by auto
  qed (use st' in simp_all)
  have new: "\<not> lane_claimed st k \<and> lane_claimed st' k" if "k \<in> set ks" for k
  proof -
    from that st'(2) obtain w where w: "w \<in> set ws" "k = Ledger_key (fst w)" by (auto simp del: split_paired_All)
    define x where "x = fst w"
    have x: "k = Ledger_key x" "x \<in> set (map fst ws)" using w by (simp_all add: x_def)
    with unwind_apply_claimed[OF a, of x] st'(1) j show ?thesis by simp
  qed
  have "distinct ks"
    using unwind_apply_claimed[OF a] st' by (auto simp: distinct_map inj_on_def)
  with stay new show ?thesis using st' by (auto simp: once_def)
qed

lemma pending_ledger: "cl_rows st' = cl_rows st \<Longrightarrow> pending_row key s raw st' = pending_row key s raw st"
  by (simp add: pending_row_def)

lemma unwind_copy_law:
  assumes "unwind_copy env shown key s raw session d verified st = (r, st', ks)" "pending_row key s raw st"
  shows "once_law st st' ks"
proof (cases "sg_kind s \<in> set cancel_kinds \<and> legacy_copy raw d st")
  case True
  then have "cancel_own_copy key s raw session d verified st = (r, st', ks)" using assms(1) by (simp add: unwind_copy_def)
  from cancel_own_copy_law[OF this assms(2)] True show ?thesis by blast
next
  case False
  obtain u st1 ws where u: "unwind_ledger env shown key s session d verified st = (u, st1, ws)" by (metis prod.exhaust)
  have law: "once_law st st1 ws" and p: "pending_row key s raw st1"
    using unwind_ledger_law[OF u] assms(2) pending_ledger[of st1 st] by auto
  have "\<exists>f. st' = set_row key f st1" "ks = ws"
    using assms(1) False u by (auto simp: unwind_copy_def record_unwind_def split: option.splits)
  with once_trans[OF law set_row_law[OF p]] show ?thesis by auto
qed

lemma ifE: "(if c then x else y) = z \<Longrightarrow> (c \<Longrightarrow> x = z \<Longrightarrow> P) \<Longrightarrow> (\<not> c \<Longrightarrow> y = z \<Longrightarrow> P) \<Longrightarrow> P"
  by (cases c) simp_all

lemma act_on_signal_law:
  assumes "act_on_signal env shown key s raw ended session d verified st = (r, st', ks)" "pending_row key s raw st"
  shows "once_law st st' ks"
proof (cases "sg_kind s = ''intent''")
  case True
  then have "open_copy key s raw ended session d verified (en_now env) st = (r, st', ks)"
    using assms(1) by (simp add: act_on_signal_def)
  from open_copy_law[OF this assms(2) True] show ?thesis .
next
  case False
  then have "st' = st \<and> ks = [] \<or> unwind_copy env shown key s raw session d verified st = (r, st', ks)"
    using assms(1)[unfolded act_on_signal_def if_not_P[OF False]]
    by (elim ifE) simp_all
  then show ?thesis
  proof
    assume "unwind_copy env shown key s raw session d verified st = (r, st', ks)"
    from unwind_copy_law[OF this assms(2)] show ?thesis .
  qed simp
qed

lemma parse_scope:
  assumes "parse_signal raw = Inr s"
  shows "sg_machine s = sg_machine raw" "sg_source s = sg_source raw" "sg_label s = sg_label raw" "sg_kind s = sg_kind raw"
  using assms by (auto simp: parse_signal_def Let_def shape_projection_def split: if_splits shape.splits)

lemma new_row_pending:
  assumes "parse_signal raw = Inr s" "find (\<lambda>r. sr_id r = key) (cl_rows st) = None"
  shows "pending_row key s raw (st\<lparr>cl_rows := cl_rows st @ [new_signal_row hs key s raw now]\<rparr>)"
  using assms parse_scope[OF assms(1)]
  by (auto simp: pending_row_def new_signal_row_def row_in_def signal_scope_def find_None_iff)

lemma append_row_law: "sr_request r = None \<Longrightarrow> once_law st (st\<lparr>cl_rows := cl_rows st @ [r]\<rparr>) []"
  unfolding once_def
proof (intro conjI allI impI)
  fix k assume "sr_request r = None" "lane_claimed st k"
  then show "lane_claimed (st\<lparr>cl_rows := cl_rows st @ [r]\<rparr>) k" by (cases k) auto
qed simp_all

lemma seen_claims [simp]: "lane_claimed (st\<lparr>cl_seen := x\<rparr>) k = lane_claimed st k"
  by (cases k) simp_all

lemma receive_signal_law:
  assumes "receive_signal hs shown ended session d verified env raw s st = (r, st', ks)" "parse_signal raw = Inr s"
  shows "once_law st st' ks"
proof -
  define key where "key = hs_key hs (sg_machine s) (sg_event s)"
  define prev where "prev = find (\<lambda>r. sr_id r = key) (cl_rows st)"
  define st1 where "st1 = st\<lparr>cl_seen := cl_seen st @ [\<lparr>ap_signal = key, ap_received = en_now env, ap_payload = raw,
     ap_conflict = (case prev of Some r \<Rightarrow> sr_digest r \<noteq> hs_digest hs s | None \<Rightarrow> False)\<rparr>]\<rparr>"
  have seen: "once_law st st1 []" by (simp add: once_def st1_def)
  note unf = receive_signal_def Let_def key_def[symmetric] prev_def[symmetric] st1_def[symmetric]
  show ?thesis
  proof (cases prev)
    case (Some x)
    with assms(1) seen show ?thesis unfolding unf by auto
  next
    case None
    define st2 where "st2 = st1\<lparr>cl_rows := cl_rows st1 @ [new_signal_row hs key s raw (en_now env)]\<rparr>"
    have "find (\<lambda>r. sr_id r = key) (cl_rows st1) = None" using None by (simp add: st1_def prev_def)
    then have p: "pending_row key s raw st2" unfolding st2_def by (rule new_row_pending[OF assms(2)])
    have new: "once_law st1 st2 []" unfolding st2_def by (rule append_row_law) (simp add: new_signal_row_def)
    obtain r1 st3 ws where act: "act_on_signal env shown key s raw ended session d verified st2 = (r1, st3, ws)"
      by (metis prod.exhaust)
    have "st' = st3" "ks = ws" using assms(1) None act unfolding unf st2_def[symmetric] by auto
    with once_trans[OF once_trans[OF seen new] act_on_signal_law[OF act p]] show ?thesis by simp
  qed
qed

lemma receive_all_law:
  "receive_all hs shown ended session d verified batch st = (r, st', ks) \<Longrightarrow> once_law st st' ks"
proof (induction batch arbitrary: st r st' ks)
  case Nil
  then show ?case by simp
next
  case (Cons b rest)
  obtain env raw where b: "b = (env, raw)" by (cases b)
  define one where "one = (case parse_signal raw of
              Inl e \<Rightarrow> (Inl e, st, [])
            | Inr s \<Rightarrow> receive_signal hs shown ended session d verified env raw s st)"
  obtain r1 st1 ws where o: "one = (r1, st1, ws)" by (metis prod.exhaust)
  have law: "once_law st st1 ws"
  proof (cases "parse_signal raw")
    case (Inr s)
    with o receive_signal_law[OF _ Inr] show ?thesis by (simp add: one_def)
  qed (use o in \<open>simp add: one_def\<close>)
  define ans where "ans = (case r1 of Inl e \<Rightarrow> if is_value_error e then Inr (invalid_result raw) else Inl e | Inr x \<Rightarrow> Inr x)"
  obtain rs st2 ws2 where rest: "receive_all hs shown ended session d verified rest st1 = (rs, st2, ws2)"
    by (metis prod.exhaust)
  have step: "receive_all hs shown ended session d verified (b # rest) st =
    (case ans of Inl e \<Rightarrow> (Inl e, st1, ws) | Inr x \<Rightarrow> (bindE rs (\<lambda>xs. Inr (x # xs)), st2, ws @ ws2))"
    by (simp add: b one_def[symmetric] o ans_def[symmetric] rest split: sum.splits)
  show ?case
  proof (cases ans)
    case (Inl e)
    with Cons.prems step law show ?thesis by simp
  next
    case (Inr x)
    with Cons.prems step once_trans[OF law Cons.IH[OF rest]] show ?thesis by simp
  qed
qed

subsection \<open>Runs of a lane\<close>

datatype lane_op =
    Lane_batch "copy_session option" string bool "(router_env \<times> signal) list"
  | Lane_settings signal_settings
  | Lane_symbols symbol_map
  | Lane_arm bool int
  | Lane_mode "string option" bool "int option"
  | Lane_restart

fun lane_step :: "hashes \<Rightarrow> (request \<Rightarrow> string) \<Rightarrow> lane_op \<Rightarrow> copy_lane \<Rightarrow> copy_lane \<times> copy_key list" where
  "lane_step hs shown (Lane_batch session d verified batch) st =
     (case receive_batch hs shown session d verified batch st of (_, st', ks) \<Rightarrow> (st', ks))"
| "lane_step hs shown (Lane_settings v) st = ((case configure v st of Inr st' \<Rightarrow> st' | Inl _ \<Rightarrow> st), [])"
| "lane_step hs shown (Lane_symbols m) st = ((case configure_symbols m st of Inr st' \<Rightarrow> st' | Inl _ \<Rightarrow> st), [])"
| "lane_step hs shown (Lane_arm enabled now) st = (arm enabled now st, [])"
| "lane_step hs shown (Lane_mode mode armed since) st =
     (st\<lparr>cl_mode := mode, cl_armed := armed, cl_armed_at := since\<rparr>, [])"
| "lane_step hs shown Lane_restart st = (open_lane st, [])"

lemma open_lane_claims: "lane_claimed (open_lane st) k = lane_claimed st k"
  by (cases k) (simp_all add: open_lane_def, (subst bex_tupdate; simp add: row_in_def sent_to_def)+)

lemma same_claims:
  "cl_rows st' = cl_rows st \<Longrightarrow> cl_ledger st' = cl_ledger st \<Longrightarrow> lane_claimed st' k = lane_claimed st k"
  by (cases k) simp_all

lemma same_law:
  "cl_rows st' = cl_rows st \<Longrightarrow> cl_ledger st' = cl_ledger st \<Longrightarrow> ks = [] \<Longrightarrow> once_law st st' ks"
  using same_claims[of st' st] unfolding once_def by auto

lemma lane_step_law: "once_law st (fst (lane_step hs shown a st)) (snd (lane_step hs shown a st))"
proof (cases a)
  case (Lane_batch session d verified batch)
  obtain r st' ks where b: "receive_batch hs shown session d verified batch st = (r, st', ks)" by (metis prod.exhaust)
  then have "once_law st st' ks"
    using receive_all_law by (auto simp: receive_batch_def split: if_splits)
  with b Lane_batch show ?thesis by simp
next
  case Lane_restart
  then show ?thesis by (simp add: once_def open_lane_claims)
next
  case (Lane_settings v)
  show ?thesis
  proof (cases "settings_checks v st")
    case (Inr u)
    then show ?thesis using Lane_settings by (intro same_law) (simp_all add: configure_def)
  qed (use Lane_settings in \<open>simp add: configure_def\<close>)
next
  case (Lane_symbols m)
  then show ?thesis by (intro same_law) (simp_all add: configure_symbols_def)
qed (simp_all add: same_law arm_def)

interpretation lane_runs: claimed_writes "lane_step hs shown" lane_claimed for hs shown
  by (rule claimed_writes_once) (rule lane_step_law)

subsection \<open>Properties\<close>

text \<open>
  Over any batches, settings, mode changes and restarts a lane sends each write once: one opening
  and one cancel of a lifecycle per destination and one write per ledger attempt, and none that is
  already on record.
\<close>

theorem lane_writes_once:
  "distinct (snd (run_emits (lane_step hs shown) ops st)) \<and>
   {k. lane_claimed st k} \<inter> set (snd (run_emits (lane_step hs shown) ops st)) = {}"
  using lane_runs.run_at_most_once lane_runs.run_fresh by blast

lemma open_copy_paper:
  "cl_mode st = Some ''paper'' \<Longrightarrow> \<exists>st'. open_copy key s raw ended session d verified now st = (Inr (), st', [])"
  by (auto simp: open_copy_def split: sum.splits)

lemma cancel_own_copy_writes:
  "cancel_own_copy key s raw session d verified st = (r, st', ks) \<Longrightarrow> ks = [] \<or> ks = [Cancel_key (signal_scope raw) d]"
  by (auto simp: cancel_own_copy_def Let_def split: sum.splits option.splits if_splits)

lemma live_is_legacy: "live_copy raw d st \<Longrightarrow> legacy_copy raw d st"
  by (auto simp: live_copy_def legacy_copy_def)

lemma act_on_signal_paper:
  assumes "cl_mode st = Some ''paper''" "act_on_signal env shown key s raw ended session d verified st = (r, st', ks)"
  shows "ks = [] \<or> (ks = [Cancel_key (signal_scope raw) d] \<and> sg_kind s \<in> set cancel_kinds \<and> live_copy raw d st)"
proof (cases "sg_kind s = ''intent'' \<or> sg_kind s = ''closed'' \<or> \<not> live_copy raw d st \<or> sg_kind s \<notin> set cancel_kinds")
  case True
  have "set unwind_kinds = insert ''closed'' (set cancel_kinds)" by (simp add: unwind_kinds_def)
  with True assms open_copy_paper[OF assms(1), of key s raw ended session d verified "en_now env"]
  show ?thesis by (auto simp: act_on_signal_def elim!: ifE)
next
  case False
  then have "cancel_own_copy key s raw session d verified st = (r, st', ks)"
    using assms live_is_legacy[of raw d st] by (auto simp: act_on_signal_def unwind_copy_def unwind_kinds_def)
  with cancel_own_copy_writes[OF this] False show ?thesis by blast
qed

lemma live_copy_append:
  "sr_request x = None \<Longrightarrow> live_copy raw d (st\<lparr>cl_seen := a, cl_rows := cl_rows st @ [x]\<rparr>) = live_copy raw d st"
  by (auto simp: live_copy_def related_rows_def sent_to_def)

text \<open>
  In paper mode a signal makes no broker write, whatever its kind, except the one cancel of a
  lifecycle whose live copy the broker had accepted.
\<close>

theorem paper_lane_only_cancels:
  assumes "cl_mode st = Some ''paper''" "receive_signal hs shown ended session d verified env raw s st = (r, st', ks)"
  shows "ks = [] \<or> (ks = [Cancel_key (signal_scope raw) d] \<and> sg_kind s \<in> set cancel_kinds \<and> live_copy raw d st)"
proof -
  define key where "key = hs_key hs (sg_machine s) (sg_event s)"
  show ?thesis
  proof (cases "find (\<lambda>r. sr_id r = key) (cl_rows st)")
    case (Some x)
    with assms(2) show ?thesis by (auto simp: receive_signal_def Let_def key_def)
  next
    case None
    define st2 where "st2 = st\<lparr>cl_seen := cl_seen st @ [\<lparr>ap_signal = key, ap_received = en_now env, ap_payload = raw,
      ap_conflict = False\<rparr>], cl_rows := cl_rows st @ [new_signal_row hs key s raw (en_now env)]\<rparr>"
    obtain r1 st3 ws where act: "act_on_signal env shown key s raw ended session d verified st2 = (r1, st3, ws)"
      by (metis prod.exhaust)
    have "ks = ws" using assms(2) None act by (auto simp: receive_signal_def Let_def key_def st2_def)
    moreover have "cl_mode st2 = Some ''paper''" using assms(1) by (simp add: st2_def)
    moreover have "live_copy raw d st2 = live_copy raw d st"
      unfolding st2_def by (rule live_copy_append) (simp add: new_signal_row_def)
    ultimately show ?thesis using act_on_signal_paper[OF _ act] by simp
  qed
qed

text \<open>
  When the read of the pending orders fails with anything but a value error while an own copy is
  cancelled, the failure leaves the whole batch: the rest of the batch is neither recorded nor
  answered, and the cancel stays captured, so that its redelivery is answered as a duplicate.
\<close>

theorem failed_cancel_read_drops_batch:
  assumes "parse_signal raw = Inr s" "key = hs_key hs (sg_machine s) (sg_event s)"
    "find (\<lambda>r. sr_id r = key) (cl_rows st) = None" "sg_kind s \<in> set cancel_kinds" "live_copy raw d st"
    "\<And>a. prepare_own_cancel s raw session d verified
       (st\<lparr>cl_seen := a, cl_rows := cl_rows st @ [new_signal_row hs key s raw (en_now env)]\<rparr>) = Inl e"
    "\<not> is_value_error e"
  shows "\<exists>st'. receive_all hs shown ended session d verified ((env, raw) # rest) st = (Inl e, st', []) \<and>
    cl_rows st' = cl_rows st @ [new_signal_row hs key s raw (en_now env)] \<and>
    (\<exists>x. receive_signal hs shown ended session d verified env raw s st' =
       (Inr (repeated_result False (new_signal_row hs key s raw (en_now env))), x, []))"
proof -
  let ?row = "new_signal_row hs key s raw (en_now env)"
  define st2 where "st2 = st\<lparr>cl_seen := cl_seen st @ [\<lparr>ap_signal = key, ap_received = en_now env, ap_payload = raw,
      ap_conflict = False\<rparr>], cl_rows := cl_rows st @ [?row]\<rparr>"
  have live: "live_copy raw d st2"
    unfolding st2_def using assms(5) by (subst live_copy_append) (simp_all add: new_signal_row_def)
  have k: "sg_kind s \<noteq> ''intent''" "sg_kind s \<noteq> ''closed''" "sg_kind s \<in> set unwind_kinds"
    using assms(4) by (auto simp: cancel_kinds_def unwind_kinds_def)
  have p: "prepare_own_cancel s raw session d verified st2 = Inl e" unfolding st2_def by (rule assms(6))
  have "act_on_signal env shown key s raw ended session d verified st2 = (Inl e, st2, [])"
    using k live live_is_legacy[OF live] assms(4,7) p
    by (simp add: act_on_signal_def unwind_copy_def cancel_own_copy_def)
  then have r: "receive_signal hs shown ended session d verified env raw s st = (Inl e, st2, [])"
    using assms(2,3) by (simp add: receive_signal_def Let_def st2_def)
  have "find (\<lambda>r. sr_id r = key) (cl_rows st2) = Some ?row"
    using assms(3) by (simp add: st2_def find_append new_signal_row_def)
  then have again: "\<exists>x. receive_signal hs shown ended session d verified env raw s st2 = (Inr (repeated_result False ?row), x, [])"
    using assms(2) by (simp add: receive_signal_def Let_def) (simp add: new_signal_row_def)
  have "receive_all hs shown ended session d verified ((env, raw) # rest) st = (Inl e, st2, [])"
    using r assms(1,7) by simp
  with again show ?thesis by (intro exI[of _ st2]) (simp add: st2_def)
qed

subsection \<open>A concrete lane\<close>

definition sample_hashes :: hashes where
  "sample_hashes = \<lparr>hs_key = (\<lambda>m e. m @ '':'' @ e), hs_digest = sg_label\<rparr>"

definition sample_moment :: router_env where
  "sample_moment = \<lparr>en_now = 0, en_accept_fault = None, en_failure_fault = None\<rparr>"

text \<open>A copy that was accepted as a pending order, and its lane.\<close>

definition sample_copied :: signal_row where
  "sample_copied =
     (new_signal_row sample_hashes ''m:s1'' sample_signal sample_signal 0)
       \<lparr>sr_decision := ''accepted'', sr_destination := Some ''A'',
        sr_request := Some \<lparr>rq_method = ''create_pending_order'', rq_instrument = ''US'', rq_side = ''BUY'', rq_id = [],
          rq_type = ''LIMIT'', rq_volume = Some (Dec 5 0), rq_price = Some (Dec 5 0), rq_sl = None, rq_tp = None\<rparr>,
        sr_answer := Some (Inr \<lparr>op_status = Some ''OK'', op_order_id = Some ''o1'', op_position_id = None\<rparr>)\<rparr>"

definition sample_copy_lane :: copy_lane where
  "sample_copy_lane =
     \<lparr>cl_rows = [sample_copied], cl_seen = [], cl_config = Some sample_lane, cl_symbols = sample_symbols, cl_armed = True,
      cl_mode = Some ''paper'', cl_armed_at = Some 0, cl_ledger = None\<rparr>"

definition sample_cancel_signal :: signal where
  "sample_cancel_signal = sample_signal\<lparr>sg_event := ''s2'', sg_kind := ''cancelled''\<rparr>"

definition sample_session :: "order_row list res \<Rightarrow> copy_session" where
  "sample_session orders =
     \<lparr>cs_signal = (sample_signal_api (Inr \<lparr>op_status = Some ''OK'', op_order_id = Some ''o1'', op_position_id = None\<rparr>))
        \<lparr>sa_active_orders := orders\<rparr>,
      cs_unwind = \<lparr>ua_broker = undefined, ua_account = Some ''A'', ua_writes = True\<rparr>\<rparr>"

definition sample_resting :: order_row where
  "sample_resting =
     \<lparr>od_id = ''o1'', od_symbol = ''US'', od_side = ''BUY'', od_type = ''LIMIT'', od_volume = Dec 5 0,
      od_activation = Dec 5 0, od_stop_loss = None, od_take_profit = None\<rparr>"

lemma sample_paper_run:
  "case receive_signal sample_hashes (\<lambda>_. []) [] (Some (sample_session (Inr [sample_resting]))) ''A'' True sample_moment
     sample_cancel_signal sample_cancel_signal sample_copy_lane of (r, st', ks) \<Rightarrow> ks \<noteq> []"
  by code_simp

theorem paper_lane_only_cancels_witness:
  "snd (snd (receive_signal sample_hashes (\<lambda>_. []) [] (Some (sample_session (Inr [sample_resting]))) ''A'' True sample_moment
     sample_cancel_signal sample_cancel_signal sample_copy_lane)) = [Cancel_key (signal_scope sample_cancel_signal) ''A'']"
proof -
  obtain r st' ks where r: "receive_signal sample_hashes (\<lambda>_. []) [] (Some (sample_session (Inr [sample_resting]))) ''A'' True
     sample_moment sample_cancel_signal sample_cancel_signal sample_copy_lane = (r, st', ks)"
    by (metis prod.exhaust)
  have "cl_mode sample_copy_lane = Some ''paper''" by (simp add: sample_copy_lane_def)
  from paper_lane_only_cancels[OF this r] have "ks = [] \<or> ks = [Cancel_key (signal_scope sample_cancel_signal) ''A'']" by blast
  moreover have "ks \<noteq> []" using sample_paper_run unfolding r by simp
  ultimately show ?thesis using r by simp
qed

definition sample_failure :: exn where
  "sample_failure = Exn ''ConnectTimeout'' ''read timed out'' None"

lemma sample_cancel_facts:
  "parse_signal sample_cancel_signal = Inr sample_cancel_signal"
  "sg_kind sample_cancel_signal \<in> set cancel_kinds"
  "find (\<lambda>r. sr_id r = hs_key sample_hashes (sg_machine sample_cancel_signal) (sg_event sample_cancel_signal))
     (cl_rows sample_copy_lane) = None"
  "live_copy sample_cancel_signal ''A'' sample_copy_lane"
  "\<not> is_value_error sample_failure"
  by code_simp+

lemma prepare_own_cancel_rows:
  "cl_rows st = cl_rows st' \<Longrightarrow>
   prepare_own_cancel s raw session d verified st = prepare_own_cancel s raw session d verified st'"
  by (simp add: prepare_own_cancel_def)

lemma sample_read_fails:
  "prepare_own_cancel sample_cancel_signal sample_cancel_signal (Some (sample_session (Inl sample_failure))) ''A'' True
     (sample_copy_lane\<lparr>cl_rows := cl_rows sample_copy_lane @
        [new_signal_row sample_hashes ''m:s2'' sample_cancel_signal sample_cancel_signal 0]\<rparr>) = Inl sample_failure"
  by code_simp

theorem failed_cancel_read_drops_batch_witness:
  "\<exists>st'. receive_all sample_hashes (\<lambda>_. []) [] (Some (sample_session (Inl sample_failure))) ''A'' True
     [(sample_moment, sample_cancel_signal), (sample_moment, sample_signal)] sample_copy_lane = (Inl sample_failure, st', [])"
proof -
  have key: "hs_key sample_hashes (sg_machine sample_cancel_signal) (sg_event sample_cancel_signal) = ''m:s2''"
    "en_now sample_moment = 0"
    by (simp_all add: sample_hashes_def sample_cancel_signal_def sample_signal_def sample_moment_def)
  have "prepare_own_cancel sample_cancel_signal sample_cancel_signal (Some (sample_session (Inl sample_failure))) ''A'' True
     (sample_copy_lane\<lparr>cl_seen := a, cl_rows := cl_rows sample_copy_lane @
        [new_signal_row sample_hashes ''m:s2'' sample_cancel_signal sample_cancel_signal 0]\<rparr>) = Inl sample_failure" for a
    by (rule trans[OF prepare_own_cancel_rows sample_read_fails]) simp
  from failed_cancel_read_drops_batch[OF sample_cancel_facts(1) refl sample_cancel_facts(3) sample_cancel_facts(2,4),
      of "Some (sample_session (Inl sample_failure))" True sample_moment sample_failure "\<lambda>_. []" "[]"
        "[(sample_moment, sample_signal)]", unfolded key, OF this sample_cancel_facts(5)]
  show ?thesis by blast
qed

end
