(* ===== verification/PaperBook.thy ===== *)
theory PaperBook
  imports StopLimit Unwind
begin

text \<open>
  Paper execution of ledger intents (orders/paper_stop_limit.py): the sizing, the plans and the book
  that drives them over ledger rows and quotes. An event names its plan by id, since the record that
  is stored with it is the plan as the whole row or quote left it. Clock readings in seconds are
  rationals, with the text a reason shows them by; a price of a ledger row is the outcome of reading it.
\<close>

definition order_types :: "(string \<times> string) list" where
  "order_types =
     [(''resting limit at range edge'', ''LIMIT''),
      (''resting stop at beyond edge'', ''STOP_LIMIT''),
      (''resting stop-limit at beyond edge, limit at trigger'', ''STOP_LIMIT'')]"

definition paper_lots ::
  "decimal \<Rightarrow> decimal \<Rightarrow> decimal \<Rightarrow> decimal \<Rightarrow> decimal \<Rightarrow> decimal \<Rightarrow> decimal \<Rightarrow> decimal res" where
  "paper_lots risk entry sl contract step minimum maximum =
     (let distance = dabs (dsub entry sl) in
      if dle distance dzero then Inl (value_error ''Stop distance must be positive'')
      else bindE (ddiv risk (dmul distance contract)) (\<lambda>raw.
           bindE (quantize round_down raw step) (\<lambda>lots. Inr (dmin (dmax lots minimum) maximum))))"

datatype plan_state = P_armed | P_working | P_filled | P_closed | P_cancelled | P_expired | P_held

definition terminal :: "plan_state \<Rightarrow> bool" where
  "terminal s \<longleftrightarrow> s \<in> {P_cancelled, P_expired, P_held, P_closed}"

datatype mark = Armed_mono rat | Triggered rat string | Modified int string | Regraded int string string
  | Cancel_ignored int plan_state | Intent_while_open int int

record paper_plan =
  pp_id :: string
  pp_label :: string
  pp_side :: string
  pp_kind :: string
  pp_entry :: decimal
  pp_sl :: decimal
  pp_tp :: decimal
  pp_limit :: decimal
  pp_grade :: string
  pp_stamp :: string
  pp_lots :: decimal
  pp_detail :: string
  pp_line :: int
  pp_armed_at :: int
  pp_state :: plan_state
  pp_reason :: string
  pp_duplicates :: nat
  pp_triggered_at :: "int option"
  pp_fill_at :: "int option"
  pp_fill_price :: "decimal option"
  pp_fill_quote :: "market_quote option"
  pp_touched_at :: "string option"
  pp_exit_at :: "int option"
  pp_exit_price :: "decimal option"
  pp_exit_quote :: "market_quote option"
  pp_exit_reason :: "string option"
  pp_pnl :: "decimal option"
  pp_history :: "mark list"

record book_config =
  bc_symbol :: string
  bc_risk :: decimal
  bc_tolerance :: decimal
  bc_grades :: "string list"
  bc_arm_ttl :: rat
  bc_arm_text :: string
  bc_touch_ttl :: rat
  bc_touch_text :: string
  bc_contract :: decimal
  bc_step :: decimal
  bc_minimum :: decimal
  bc_maximum :: decimal
  bc_stops_level :: decimal

record paper_book =
  bk_plans :: "paper_plan list"
  bk_done :: "paper_plan list"

record ledger_row =
  lr_symbol :: "string option"
  lr_label :: "string option"
  lr_kind :: "string option"
  lr_detail :: "string option"
  lr_side :: "string option"
  lr_entry :: "decimal res"
  lr_sl :: "decimal res"
  lr_tp :: "decimal res"
  lr_grade :: "string option"
  lr_stamp :: "string option"
  lr_utc :: "string option"

datatype book_event = Ignored string string | Moved string string

definition plan_sign :: "paper_plan \<Rightarrow> decimal" where
  "plan_sign p = (if pp_side p = ''BUY'' then Dec 1 0 else Dec (-1) 0)"

definition plan_limit :: "book_config \<Rightarrow> string \<Rightarrow> string \<Rightarrow> decimal \<Rightarrow> decimal" where
  "plan_limit c kind side entry =
     (if kind = ''LIMIT'' then entry
      else if side = ''BUY'' then dadd entry (bc_tolerance c) else dsub entry (bc_tolerance c))"

definition plan_lots :: "book_config \<Rightarrow> decimal \<Rightarrow> decimal \<Rightarrow> decimal res" where
  "plan_lots c entry sl =
     paper_lots (bc_risk c) entry sl (bc_contract c) (bc_step c) (bc_minimum c) (bc_maximum c)"

definition plan_order :: "book_config \<Rightarrow> paper_plan \<Rightarrow> stop_plan res" where
  "plan_order c p =
     make_stop_plan
       \<lparr>sp_instrument = bc_symbol c, sp_side = pp_side p,
        sp_volume = (if dtrue (pp_lots p) then pp_lots p else Dec 1 (-2)), sp_stop = pp_entry p, sp_limit = pp_limit p,
        sp_sl = pp_sl p, sp_tp = pp_tp p, sp_expire_after = dzero\<rparr>"

subsection \<open>Moves of one plan\<close>

definition finished :: "plan_state \<Rightarrow> string \<Rightarrow> int \<Rightarrow> paper_plan \<Rightarrow> paper_plan" where
  "finished s why now p =
     p\<lparr>pp_state := s, pp_reason := why, pp_exit_at := (if s \<noteq> P_closed then Some now else pp_exit_at p)\<rparr>"

definition filled :: "decimal \<Rightarrow> market_quote \<Rightarrow> int \<Rightarrow> string \<Rightarrow> paper_plan \<Rightarrow> paper_plan" where
  "filled price q now why p =
     p\<lparr>pp_state := P_filled, pp_fill_at := Some now, pp_fill_price := Some price, pp_fill_quote := Some q, pp_reason := why\<rparr>"

fun plan_state_name :: "plan_state \<Rightarrow> string" where
  "plan_state_name P_armed = ''armed''"
| "plan_state_name P_working = ''working''"
| "plan_state_name P_filled = ''filled''"
| "plan_state_name P_closed = ''closed''"
| "plan_state_name P_cancelled = ''cancelled''"
| "plan_state_name P_expired = ''expired''"
| "plan_state_name P_held = ''held''"

definition moved :: "paper_plan \<Rightarrow> book_event" where
  "moved p = Moved (plan_state_name (pp_state p)) (pp_id p)"

definition mono_marked :: "rat \<Rightarrow> paper_plan \<Rightarrow> paper_plan" where
  "mono_marked tick p =
     (case pp_history p of
        Armed_mono m # h \<Rightarrow> p
      | h \<Rightarrow> p\<lparr>pp_history := Armed_mono tick # h\<rparr>)"

definition plan_age :: "rat \<Rightarrow> paper_plan \<Rightarrow> rat" where
  "plan_age tick p = (case pp_history p of Armed_mono m # h \<Rightarrow> tick - m | _ \<Rightarrow> 0)"

text \<open>A move answers the exception it raised, the plan, and whether anything is reported.\<close>

definition drive_armed ::
  "book_config \<Rightarrow> market_quote \<Rightarrow> int \<Rightarrow> rat \<Rightarrow> paper_plan \<Rightarrow> exn option \<times> paper_plan \<times> bool" where
  "drive_armed c q now tick p0 =
     (let p = mono_marked tick p0; buy = (pp_side p = ''BUY'') in
      if bc_arm_ttl c \<noteq> 0 \<and> plan_age tick p > bc_arm_ttl c
      then (None, finished P_expired (''not reached within '' @ bc_arm_text c @ ''s'') now p, True)
      else if pp_kind p = ''LIMIT''
      then (if (if buy then dle (mq_ask q) (pp_entry p) else dle (pp_entry p) (mq_bid q))
            then (None, filled (pp_entry p) q now ''resting LIMIT reached'' p, True)
            else (None, p, False))
      else case plan_order c p of
        Inl x \<Rightarrow> (Some x, p, False)
      | Inr o' \<Rightarrow>
          (let d = stop_decide o' q (bc_stops_level c) in
           if sd_route d = R_wait then (None, p, False)
           else (let p1 = p\<lparr>pp_triggered_at := Some now, pp_history := pp_history p @ [Triggered tick (sd_reason d)]\<rparr> in
                 case sd_route d of
                   R_market \<Rightarrow> (None, filled (case sd_price d of Some x \<Rightarrow> x | None \<Rightarrow> dzero) q now
                                       ''triggered inside the limit; market fill'' p1, True)
                 | R_hold \<Rightarrow> (None, finished P_held (sd_reason d) now p1, True)
                 | _ \<Rightarrow> (None, p1\<lparr>pp_state := P_working\<rparr>, True))))"

definition trigger_time :: "rat \<Rightarrow> paper_plan \<Rightarrow> rat" where
  "trigger_time tick p =
     (case List.map_filter (\<lambda>m. case m of Triggered t _ \<Rightarrow> Some t | _ \<Rightarrow> None) (pp_history p) of
        t # _ \<Rightarrow> t | [] \<Rightarrow> tick)"

definition drive_working ::
  "book_config \<Rightarrow> market_quote \<Rightarrow> int \<Rightarrow> rat \<Rightarrow> paper_plan \<Rightarrow> exn option \<times> paper_plan \<times> bool" where
  "drive_working c q now tick p =
     (if (if pp_side p = ''BUY'' then dle (mq_ask q) (pp_limit p) else dle (pp_limit p) (mq_bid q))
      then (None, filled (pp_limit p) q now ''resting LIMIT at the limit price reached'' p, True)
      else if bc_touch_ttl c \<noteq> 0 \<and> tick - trigger_time tick p > bc_touch_ttl c
      then (None, finished P_expired (''triggered but unfilled after '' @ bc_touch_text c @ ''s'') now p, True)
      else (None, p, False))"

definition drive_open :: "book_config \<Rightarrow> market_quote \<Rightarrow> int \<Rightarrow> paper_plan \<Rightarrow> exn option \<times> paper_plan \<times> bool" where
  "drive_open c q now p =
     (let buy = (pp_side p = ''BUY''); m = (if buy then mq_bid q else mq_ask q);
          hit_sl = (if buy then dle m (pp_sl p) else dle (pp_sl p) m);
          hit_tp = (if buy then dle (pp_tp p) m else dle m (pp_tp p))
      in if \<not> (hit_sl \<or> hit_tp) then (None, p, False)
         else (let price = (if hit_sl then pp_sl p else pp_tp p);
                   fill = (case pp_fill_price p of Some x \<Rightarrow> x | None \<Rightarrow> dzero);
                   why = (if hit_sl then ''SL'' else ''TP'')
               in (None,
                   finished P_closed
                     (why @ '' at '' @ dec_str price @ ''; quote '' @ dec_str (mq_bid q) @ ''/'' @ dec_str (mq_ask q)) now
                     (p\<lparr>pp_exit_at := Some now, pp_exit_price := Some price, pp_exit_quote := Some q,
                        pp_exit_reason := Some why,
                        pp_pnl := Some (dmul (dmul (dmul (dsub price fill) (plan_sign p)) (pp_lots p)) (bc_contract c))\<rparr>),
                   True)))"

definition drive :: "book_config \<Rightarrow> market_quote \<Rightarrow> int \<Rightarrow> rat \<Rightarrow> paper_plan \<Rightarrow> exn option \<times> paper_plan \<times> bool" where
  "drive c q now tick p =
     (case pp_state p of
        P_armed \<Rightarrow> drive_armed c q now tick p
      | P_working \<Rightarrow> drive_working c q now tick p
      | P_filled \<Rightarrow> drive_open c q now p
      | _ \<Rightarrow> (None, p, False))"

text \<open>A plan goes back into the book, or among the finished ones when its move ended it.\<close>

definition put_plan :: "paper_plan \<Rightarrow> paper_book \<Rightarrow> paper_book" where
  "put_plan p b =
     (if terminal (pp_state p)
      then b\<lparr>bk_plans := filter (\<lambda>x. pp_label x \<noteq> pp_label p) (bk_plans b), bk_done := bk_done b @ [p]\<rparr>
      else b\<lparr>bk_plans := tupdate (\<lambda>x. pp_label x = pp_label p) (\<lambda>_. p) (bk_plans b)\<rparr>)"

fun quote_plans ::
  "book_config \<Rightarrow> market_quote \<Rightarrow> int \<Rightarrow> rat \<Rightarrow> paper_plan list \<Rightarrow> paper_book \<Rightarrow> book_event list res \<times> paper_book" where
  "quote_plans c q now tick [] b = (Inr [], b)"
| "quote_plans c q now tick (p # ps) b =
     (case drive c q now tick p of
        (Some x, p1, _) \<Rightarrow> (Inl x, put_plan p1 b)
      | (None, p1, report) \<Rightarrow>
          (let (r, b1) = quote_plans c q now tick ps (put_plan p1 b)
           in (bindE r (\<lambda>es. Inr ((if report then [moved p1] else []) @ es)), b1)))"

definition on_quote ::
  "book_config \<Rightarrow> market_quote \<Rightarrow> int \<Rightarrow> rat \<Rightarrow> paper_book \<Rightarrow> book_event list res \<times> paper_book" where
  "on_quote c q now tick b = quote_plans c q now tick (bk_plans b) b"

subsection \<open>Ledger rows\<close>

definition row_text :: "string option \<Rightarrow> string" where
  "row_text x = opt_str x"

definition side_of_row :: "ledger_row \<Rightarrow> string" where
  "side_of_row r =
     (if lr_side r = Some ''long'' then ''BUY'' else if lr_side r = Some ''short'' then ''SELL'' else [])"

definition row_prices :: "ledger_row \<Rightarrow> (decimal \<times> decimal \<times> decimal) res" where
  "row_prices r = bindE (lr_entry r) (\<lambda>e. bindE (lr_sl r) (\<lambda>sl. bindE (lr_tp r) (\<lambda>tp. Inr (e, sl, tp))))"

definition find_plan :: "string \<Rightarrow> paper_book \<Rightarrow> paper_plan option" where
  "find_plan label b = find (\<lambda>p. pp_label p = label) (bk_plans b)"

definition brackets_fit :: "string \<Rightarrow> decimal \<Rightarrow> decimal \<Rightarrow> decimal \<Rightarrow> bool" where
  "brackets_fit side entry sl tp \<longleftrightarrow>
     side \<noteq> [] \<and> (side = ''BUY'' \<longrightarrow> dlt sl entry \<and> dlt entry tp) \<and> (side = ''SELL'' \<longrightarrow> dlt tp entry \<and> dlt entry sl)"

definition fresh_plan ::
  "ledger_row \<Rightarrow> string \<Rightarrow> string \<Rightarrow> decimal \<times> decimal \<times> decimal \<Rightarrow> int \<Rightarrow> int \<Rightarrow> paper_plan" where
  "fresh_plan r label kind prices line now =
     (case prices of (entry, sl, tp) \<Rightarrow>
      \<lparr>pp_id = label @ ''@'' @ int_str line, pp_label = label, pp_side = side_of_row r, pp_kind = kind, pp_entry = entry,
       pp_sl = sl, pp_tp = tp, pp_limit = entry, pp_grade = row_text (lr_grade r), pp_stamp = row_text (lr_stamp r),
       pp_lots = dzero, pp_detail = row_text (lr_detail r), pp_line = line, pp_armed_at = now, pp_state = P_armed,
       pp_reason = [], pp_duplicates = 0, pp_triggered_at = None, pp_fill_at = None, pp_fill_price = None,
       pp_fill_quote = None, pp_touched_at = None, pp_exit_at = None, pp_exit_price = None, pp_exit_quote = None,
       pp_exit_reason = None, pp_pnl = None, pp_history = []\<rparr>)"

definition held_plan :: "string \<Rightarrow> paper_plan \<Rightarrow> paper_plan" where
  "held_plan why p = p\<lparr>pp_state := P_held, pp_reason := why\<rparr>"

text \<open>A new intent becomes an armed plan, or a held one with the reason; other exceptions escape.\<close>

definition build_plan :: "book_config \<Rightarrow> paper_plan \<Rightarrow> paper_plan res" where
  "build_plan c p =
     (if \<not> brackets_fit (pp_side p) (pp_entry p) (pp_sl p) (pp_tp p)
      then Inr (held_plan ''brackets do not match the side'' p)
      else case plan_lots c (pp_entry p) (pp_sl p) of
        Inl x \<Rightarrow> if is_value_error x then Inr (held_plan (exn_msg x) p) else Inl x
      | Inr lots \<Rightarrow>
          (let p1 = p\<lparr>pp_lots := lots, pp_limit := plan_limit c (pp_kind p) (pp_side p) (pp_entry p)\<rparr> in
           if pp_kind p = ''STOP_LIMIT''
           then (case plan_order c p1 of
                   Inl x \<Rightarrow> Inr (held_plan (''stop-limit plan rejected: '' @ exn_msg x) p1)
                 | Inr _ \<Rightarrow> Inr p1)
           else Inr p1))"

definition place_plan :: "paper_plan \<Rightarrow> paper_book \<Rightarrow> paper_book" where
  "place_plan p b =
     (if terminal (pp_state p) then b\<lparr>bk_done := bk_done b @ [p]\<rparr> else b\<lparr>bk_plans := bk_plans b @ [p]\<rparr>)"

definition new_intent ::
  "book_config \<Rightarrow> ledger_row \<Rightarrow> string \<Rightarrow> string \<Rightarrow> decimal \<times> decimal \<times> decimal \<Rightarrow> int \<Rightarrow> int \<Rightarrow> paper_book
    \<Rightarrow> book_event list res \<times> paper_book" where
  "new_intent c r label kind prices line now b =
     (let grade = row_text (lr_grade r) in
      if grade \<notin> set (bc_grades c) then (Inr [Ignored label (''grade '' @ grade @ '' not accepted'')], b)
      else case build_plan c (fresh_plan r label kind prices line now) of
        Inl x \<Rightarrow> (Inl x, b)
      | Inr p \<Rightarrow> (Inr [moved p], place_plan p b))"

definition repeated_intent ::
  "book_config \<Rightarrow> ledger_row \<Rightarrow> string \<Rightarrow> string \<Rightarrow> decimal \<times> decimal \<times> decimal \<Rightarrow> int \<Rightarrow> int \<Rightarrow> paper_plan \<Rightarrow> paper_book
    \<Rightarrow> book_event list res \<times> paper_book" where
  "repeated_intent c r label kind prices line now live b =
     (case prices of (entry, sl, tp) \<Rightarrow>
      if pp_state live = P_filled
      then (Inr [Moved ''held-duplicate'' (pp_id live)],
            put_plan (live\<lparr>pp_history := pp_history live @ [Intent_while_open now line]\<rparr>) b)
      else if deq (pp_entry live) entry \<and> deq (pp_sl live) sl \<and> deq (pp_tp live) tp \<and> pp_side live = side_of_row r
      then (Inr [], put_plan (live\<lparr>pp_duplicates := Suc (pp_duplicates live)\<rparr>) b)
      else new_intent c r label kind prices line now
             (put_plan (finished P_cancelled ''replaced by a re-priced intent for the same label'' now live) b))"

definition intent_row ::
  "book_config \<Rightarrow> ledger_row \<Rightarrow> string \<Rightarrow> int \<Rightarrow> int \<Rightarrow> paper_book \<Rightarrow> book_event list res \<times> paper_book" where
  "intent_row c r label line now b =
     (case map_of order_types (row_text (lr_detail r)) of
        None \<Rightarrow> (Inr [Ignored label (''unknown intent detail '' @
                        (case lr_detail r of Some d \<Rightarrow> py_repr d | None \<Rightarrow> ''None''))], b)
      | Some kind \<Rightarrow>
          (case row_prices r of
             Inl x \<Rightarrow> (Inl x, b)
           | Inr prices \<Rightarrow>
               (case find_plan label b of
                  None \<Rightarrow> new_intent c r label kind prices line now b
                | Some live \<Rightarrow> repeated_intent c r label kind prices line now live b)))"

text \<open>A change of the prices of an armed plan; a failing size leaves the new prices in place.\<close>

definition modify_plan :: "book_config \<Rightarrow> ledger_row \<Rightarrow> int \<Rightarrow> paper_plan \<Rightarrow> exn option \<times> paper_plan" where
  "modify_plan c r now p =
     (case row_prices r of
        Inl x \<Rightarrow> (Some x, p)
      | Inr (entry, sl, tp) \<Rightarrow>
          (let p1 = p\<lparr>pp_entry := entry, pp_sl := sl, pp_tp := tp, pp_limit := plan_limit c (pp_kind p) (pp_side p) entry\<rparr>
           in case plan_lots c entry sl of
                Inl x \<Rightarrow> (Some x, p1)
              | Inr lots \<Rightarrow> (None, p1\<lparr>pp_lots := lots, pp_history := pp_history p1 @ [Modified now (dec_str entry)]\<rparr>)))"

definition regrade_plan :: "book_config \<Rightarrow> ledger_row \<Rightarrow> int \<Rightarrow> paper_plan \<Rightarrow> paper_plan" where
  "regrade_plan c r now p =
     (let grade = (case lr_grade r of Some g \<Rightarrow> g | None \<Rightarrow> pp_grade p) in
      if grade = pp_grade p then p
      else (let p1 = p\<lparr>pp_history := pp_history p @ [Regraded now (pp_grade p) grade], pp_grade := grade,
                        pp_stamp := (case lr_stamp r of Some s \<Rightarrow> s | None \<Rightarrow> pp_stamp p)\<rparr>
            in if grade \<notin> set (bc_grades c) \<and> pp_state p \<in> {P_armed, P_working}
               then finished P_expired (''retracted on downgrade to '' @ grade) now p1 else p1))"

definition update_row ::
  "book_config \<Rightarrow> ledger_row \<Rightarrow> int \<Rightarrow> paper_plan \<Rightarrow> paper_book \<Rightarrow> book_event list res \<times> paper_book" where
  "update_row c r now live b =
     (let change = (lr_kind r = Some ''modified'' \<and> pp_state live = P_armed);
          (x, p1) = (if change then modify_plan c r now live else (None, live))
      in case x of
           Some e \<Rightarrow> (Inl e, put_plan p1 b)
         | None \<Rightarrow>
             (let p2 = regrade_plan c r now p1
              in (Inr ((if change then [Moved ''modified'' (pp_id live)] else []) @
                       (if terminal (pp_state p2) then [moved p2] else [])),
                  put_plan p2 b)))"

definition cancelled_row :: "ledger_row \<Rightarrow> int \<Rightarrow> paper_plan \<Rightarrow> paper_book \<Rightarrow> book_event list \<times> paper_book" where
  "cancelled_row r now live b =
     (if pp_state live \<in> {P_armed, P_working}
      then (let p = finished P_cancelled (''R01 cancelled: '' @ row_text (lr_detail r)) now live in ([moved p], put_plan p b))
      else ([], put_plan (live\<lparr>pp_history := pp_history live @ [Cancel_ignored now (pp_state live)]\<rparr>) b))"

definition touched_row :: "ledger_row \<Rightarrow> paper_plan \<Rightarrow> paper_book \<Rightarrow> book_event list \<times> paper_book" where
  "touched_row r live b =
     ([Moved ''r01-touched'' (pp_id live)],
      put_plan (live\<lparr>pp_touched_at := (if truthy (pp_touched_at live) then pp_touched_at live else lr_utc r)\<rparr>) b)"

definition apply_row ::
  "book_config \<Rightarrow> ledger_row \<Rightarrow> int \<Rightarrow> int \<Rightarrow> paper_book \<Rightarrow> book_event list res \<times> paper_book" where
  "apply_row c r line now b =
     (if lr_symbol r \<noteq> Some (bc_symbol c) \<or> \<not> truthy (lr_label r) then (Inr [], b)
      else (let label = opt_str (lr_label r) in
            if lr_kind r = Some ''intent'' then intent_row c r label line now b
            else case find_plan label b of
              None \<Rightarrow> (Inr [], b)
            | Some live \<Rightarrow>
                if lr_kind r \<in> {Some ''regrade'', Some ''modified''} then update_row c r now live b
                else if lr_kind r = Some ''cancelled'' then map_prod Inr id (cancelled_row r now live b)
                else if lr_kind r = Some ''touched'' then map_prod Inr id (touched_row r live b)
                else (Inr [], b)))"

subsection \<open>What the book keeps\<close>

definition within_limit :: "paper_plan \<Rightarrow> decimal \<Rightarrow> bool" where
  "within_limit p f \<longleftrightarrow> (if pp_side p = ''BUY'' then dle f (pp_limit p) else dle (pp_limit p) f)"

definition plan_ok :: "paper_plan \<Rightarrow> bool" where
  "plan_ok p \<longleftrightarrow>
     (pp_kind p = ''LIMIT'' \<longrightarrow> pp_limit p = pp_entry p) \<and>
     (\<forall>f. pp_fill_price p = Some f \<longrightarrow> within_limit p f \<and> pp_state p \<in> {P_filled, P_closed}) \<and>
     (pp_state p \<in> {P_filled, P_closed} \<longrightarrow> pp_fill_price p \<noteq> None)"

definition book_ok :: "paper_book \<Rightarrow> bool" where
  "book_ok b \<longleftrightarrow>
     unique_key pp_label (bk_plans b) \<and>
     (\<forall>p \<in> set (bk_plans b). plan_ok p \<and> \<not> terminal (pp_state p)) \<and>
     (\<forall>p \<in> set (bk_done b). plan_ok p \<and> terminal (pp_state p))"

lemma dle_refl [simp]: "dle a a"
  by (simp add: dec_simps)

lemma put_plan_ok: "book_ok b \<Longrightarrow> plan_ok p \<Longrightarrow> book_ok (put_plan p b)"
  by (auto simp: book_ok_def put_plan_def unique_filter unique_tupdate set_tupdate split: if_splits)

lemma place_plan_ok: "book_ok b \<Longrightarrow> plan_ok p \<Longrightarrow> find_plan (pp_label p) b = None \<Longrightarrow> book_ok (place_plan p b)"
  by (auto simp: book_ok_def place_plan_def find_plan_def find_None_iff unique_key_def)

lemma find_plan_ok: "book_ok b \<Longrightarrow> find_plan label b = Some p \<Longrightarrow> plan_ok p \<and> \<not> terminal (pp_state p) \<and> pp_label p = label"
  by (auto simp: book_ok_def find_plan_def dest: find_Some_mem)

lemma mono_marked_sel [simp]:
  "pp_kind (mono_marked t p) = pp_kind p" "pp_limit (mono_marked t p) = pp_limit p" "pp_entry (mono_marked t p) = pp_entry p"
  "pp_fill_price (mono_marked t p) = pp_fill_price p" "pp_state (mono_marked t p) = pp_state p"
  "pp_side (mono_marked t p) = pp_side p" "pp_label (mono_marked t p) = pp_label p"
  by (simp_all add: mono_marked_def split: list.splits mark.splits)

lemma make_stop_plan_id: "make_stop_plan p = Inr p' \<Longrightarrow> p' = p"
  by (auto simp: make_stop_plan_def split: if_splits)

lemma market_within:
  assumes "sd_route (stop_decide p q lvl) = R_market"
  shows "\<exists>m. sd_price (stop_decide p q lvl) = Some m \<and>
    (if sp_side p = ''BUY'' then dle m (sp_limit p) else dle (sp_limit p) m)"
  using assms by (auto simp: stop_decide_def Let_def split: if_splits)

lemma drive_armed_ok:
  assumes "plan_ok p" "pp_state p = P_armed" "drive_armed c q now t p = (x, p', r)"
  shows "plan_ok p' \<and> pp_label p' = pp_label p"
proof -
  have nf: "pp_fill_price p = None" using assms(1,2) by (cases "pp_fill_price p") (auto simp: plan_ok_def)
  consider (expired) why where "p' = finished P_expired why now (mono_marked t p)"
    | (rests) "p' = mono_marked t p"
    | (limit) why where "pp_kind p = ''LIMIT''" "p' = filled (pp_entry p) q now why (mono_marked t p)"
    | (moves) o' d h f where "plan_order c (mono_marked t p) = Inr o'" "d = stop_decide o' q (bc_stops_level c)"
        "p' = f ((mono_marked t p)\<lparr>pp_triggered_at := Some now, pp_history := h\<rparr>)"
        "(sd_route d = R_market \<and> f = filled (case sd_price d of Some x \<Rightarrow> x | None \<Rightarrow> dzero) q now
            ''triggered inside the limit; market fill'') \<or>
         f = finished P_held (sd_reason d) now \<or> f = (\<lambda>p. p\<lparr>pp_state := P_working\<rparr>)"
        "pp_kind p \<noteq> ''LIMIT''"
    using assms(3) by (auto simp: drive_armed_def Let_def split: if_splits sum.splits route.splits)
  then show ?thesis
  proof cases
    case expired
    with assms(1,2) nf show ?thesis by (simp add: plan_ok_def finished_def)
  next
    case rests
    with assms(1,2) nf show ?thesis by (simp add: plan_ok_def)
  next
    case limit
    with assms(1) show ?thesis by (simp add: plan_ok_def filled_def within_limit_def)
  next
    case moves
    from moves(1) have o': "sp_limit o' = pp_limit p" "sp_side o' = pp_side p"
      by (auto simp: plan_order_def dest!: make_stop_plan_id)
    from moves(4) show ?thesis
    proof (elim disjE conjE)
      assume m: "sd_route d = R_market" "f = filled (case sd_price d of Some x \<Rightarrow> x | None \<Rightarrow> dzero) q now
            ''triggered inside the limit; market fill''"
      from market_within[OF m(1)[unfolded moves(2)]] obtain y where "sd_price d = Some y"
        "if sp_side o' = ''BUY'' then dle y (sp_limit o') else dle (sp_limit o') y" unfolding moves(2) by blast
      with m moves o' show ?thesis by (simp add: plan_ok_def filled_def within_limit_def split: if_splits)
    next
      assume "f = finished P_held (sd_reason d) now"
      with moves nf assms(1,2) show ?thesis by (simp add: plan_ok_def finished_def)
    next
      assume "f = (\<lambda>p. p\<lparr>pp_state := P_working\<rparr>)"
      with moves nf assms(1,2) show ?thesis by (simp add: plan_ok_def)
    qed
  qed
qed

lemma drive_ok:
  assumes "plan_ok p" "drive c q now t p = (x, p', r)"
  shows "plan_ok p' \<and> pp_label p' = pp_label p"
proof (cases "pp_state p")
  case P_armed
  with assms drive_armed_ok show ?thesis by (auto simp: drive_def)
next
  case P_working
  then have "pp_fill_price p = None" using assms(1) by (cases "pp_fill_price p") (auto simp: plan_ok_def)
  then show ?thesis using assms P_working
    by (auto simp: drive_def drive_working_def plan_ok_def filled_def finished_def within_limit_def split: if_splits)
next
  case P_filled
  with assms show ?thesis
    by (auto simp: drive_def drive_open_def Let_def plan_ok_def finished_def within_limit_def split: if_splits)
qed (use assms in \<open>simp_all add: drive_def\<close>)

lemma quote_plans_ok:
  "book_ok b \<Longrightarrow> \<forall>p \<in> set ps. plan_ok p \<Longrightarrow> book_ok (snd (quote_plans c q now t ps b))"
proof (induction ps arbitrary: b)
  case (Cons p ps)
  obtain x p1 r where d: "drive c q now t p = (x, p1, r)" by (metis prod.exhaust)
  have "plan_ok p1" using drive_ok[OF _ d] Cons.prems(2) by simp
  then have ok: "book_ok (put_plan p1 b)" using Cons.prems(1) by (rule put_plan_ok[rotated])
  show ?case
  proof (cases x)
    case None
    have "book_ok (snd (quote_plans c q now t ps (put_plan p1 b)))" using Cons ok by simp
    with None d show ?thesis by (simp add: split_beta Let_def)
  qed (use d ok in simp)
qed simp

lemma on_quote_ok: "book_ok b \<Longrightarrow> book_ok (snd (on_quote c q now t b))"
  unfolding on_quote_def by (rule quote_plans_ok) (auto simp: book_ok_def)

lemma build_plan_ok:
  assumes "build_plan c p = Inr p'" "pp_fill_price p = None" "pp_state p = P_armed" "pp_limit p = pp_entry p"
  shows "plan_ok p' \<and> pp_label p' = pp_label p"
  using assms by (auto simp: build_plan_def Let_def plan_ok_def held_plan_def plan_limit_def split: if_splits sum.splits)

lemma fresh_plan_sel [simp]:
  "pp_fill_price (fresh_plan r label kind prices line now) = None" "pp_state (fresh_plan r label kind prices line now) = P_armed"
  "pp_limit (fresh_plan r label kind prices line now) = pp_entry (fresh_plan r label kind prices line now)"
  "pp_label (fresh_plan r label kind prices line now) = label"
  by (simp_all add: fresh_plan_def split: prod.splits)

lemma new_intent_ok:
  assumes "book_ok b" "find_plan label b = None"
  shows "book_ok (snd (new_intent c r label kind prices line now b))"
proof (cases "build_plan c (fresh_plan r label kind prices line now)")
  case (Inr p)
  from build_plan_ok[OF Inr] have "plan_ok p" "pp_label p = label" by simp_all
  with assms have "book_ok (place_plan p b)" by (auto intro: place_plan_ok)
  with assms(1) Inr show ?thesis by (simp add: new_intent_def Let_def)
qed (use assms in \<open>simp add: new_intent_def Let_def\<close>)

lemma finished_ok: "plan_ok p \<Longrightarrow> s \<notin> {P_filled, P_closed} \<Longrightarrow> pp_state p \<notin> {P_filled, P_closed} \<Longrightarrow> plan_ok (finished s why now p)"
  by (auto simp: plan_ok_def finished_def)

lemma find_finished: "find_plan (pp_label p) (put_plan (finished P_cancelled why now p) b) = None"
  by (auto simp: find_plan_def put_plan_def finished_def terminal_def find_None_iff)

lemma plan_ok_cong:
  "plan_ok p \<Longrightarrow> pp_kind p' = pp_kind p \<Longrightarrow> pp_limit p' = pp_limit p \<Longrightarrow> pp_entry p' = pp_entry p \<Longrightarrow>
   pp_fill_price p' = pp_fill_price p \<Longrightarrow> pp_state p' = pp_state p \<Longrightarrow> pp_side p' = pp_side p \<Longrightarrow> plan_ok p'"
  by (simp add: plan_ok_def within_limit_def)

lemma intent_row_ok:
  assumes "book_ok b"
  shows "book_ok (snd (intent_row c r label line now b))"
proof (cases "map_of order_types (row_text (lr_detail r))")
  case (Some kind)
  show ?thesis
  proof (cases "row_prices r")
    case (Inr prices)
    show ?thesis
    proof (cases "find_plan label b")
      case None
      with Some Inr new_intent_ok[OF assms None] show ?thesis by (simp add: intent_row_def)
    next
      case live: (Some live)
      note l = find_plan_ok[OF assms live]
      have dup: "book_ok (put_plan (live\<lparr>pp_duplicates := n\<rparr>) b)" "book_ok (put_plan (live\<lparr>pp_history := h\<rparr>) b)" for n h
        using l by (auto intro!: put_plan_ok[OF assms] elim: plan_ok_cong)
      have "book_ok (snd (new_intent c r label kind prices line now (put_plan (finished P_cancelled why now live) b)))"
        if "pp_state live \<noteq> P_filled" for why
        using l that find_finished[of live why now b]
        by (intro new_intent_ok put_plan_ok[OF assms] finished_ok) (auto simp: terminal_def)
      with Some Inr live dup show ?thesis by (cases prices) (simp add: intent_row_def repeated_intent_def)
    qed
  qed (use Some assms in \<open>simp add: intent_row_def\<close>)
qed (use assms in \<open>simp add: intent_row_def\<close>)

lemma modify_plan_ok:
  assumes "plan_ok p" "pp_state p = P_armed" "modify_plan c r now p = (x, p')"
  shows "plan_ok p' \<and> pp_state p' = P_armed \<and> pp_label p' = pp_label p"
proof -
  have "pp_fill_price p = None" using assms(1,2) by (cases "pp_fill_price p") (auto simp: plan_ok_def)
  with assms show ?thesis
    by (auto simp: modify_plan_def Let_def plan_ok_def plan_limit_def split: sum.splits)
qed

lemma regrade_plan_ok: "plan_ok p \<Longrightarrow> plan_ok (regrade_plan c r now p)"
proof -
  assume p: "plan_ok p"
  then have q: "plan_ok (p\<lparr>pp_history := h, pp_grade := g, pp_stamp := s\<rparr>)" for h g s
    by (rule plan_ok_cong) simp_all
  have "pp_state p \<in> {P_armed, P_working} \<Longrightarrow> plan_ok (finished P_expired why now (p\<lparr>pp_history := h, pp_grade := g, pp_stamp := s\<rparr>))"
    for why h g s by (rule finished_ok[OF q]) auto
  with p q show ?thesis by (simp add: regrade_plan_def Let_def)
qed

lemma update_row_ok:
  assumes "book_ok b" "plan_ok live"
  shows "book_ok (snd (update_row c r now live b))"
proof -
  obtain x p1 where m: "(if lr_kind r = Some ''modified'' \<and> pp_state live = P_armed then modify_plan c r now live else (None, live)) = (x, p1)"
    by (metis prod.exhaust)
  have "plan_ok p1"
  proof (cases "lr_kind r = Some ''modified'' \<and> pp_state live = P_armed")
    case True
    with m have "modify_plan c r now live = (x, p1)" by simp
    from modify_plan_ok[OF assms(2) _ this] True show ?thesis by blast
  next
    case False
    from m[unfolded if_not_P[OF False]] assms(2) show ?thesis by simp
  qed
  then have "book_ok (put_plan p1 b)" "book_ok (put_plan (regrade_plan c r now p1) b)"
    using put_plan_ok[OF assms(1)] regrade_plan_ok by blast+
  with m show ?thesis by (simp add: update_row_def Let_def split: option.splits)
qed

lemma apply_row_ok:
  assumes "book_ok b"
  shows "book_ok (snd (apply_row c r line now b))"
proof (cases "lr_symbol r \<noteq> Some (bc_symbol c) \<or> \<not> truthy (lr_label r) \<or> lr_kind r = Some ''intent''")
  case True
  with assms intent_row_ok[OF assms] show ?thesis by (auto simp: apply_row_def Let_def)
next
  case False
  show ?thesis
  proof (cases "find_plan (opt_str (lr_label r)) b")
    case (Some live)
    note l = find_plan_ok[OF assms Some]
    have u: "book_ok (snd (update_row c r now live b))" using update_row_ok[OF assms] l by blast
    have "book_ok (snd (cancelled_row r now live b))"
      using l by (auto simp: cancelled_row_def Let_def terminal_def intro!: put_plan_ok[OF assms] finished_ok elim: plan_ok_cong)
    moreover have "book_ok (snd (touched_row r live b))"
      using l by (auto simp: touched_row_def intro!: put_plan_ok[OF assms] elim: plan_ok_cong)
    ultimately show ?thesis using False Some u assms by (simp add: apply_row_def Let_def)
  qed (use False assms in \<open>simp add: apply_row_def Let_def\<close>)
qed

datatype book_op = Book_row ledger_row int int | Book_quote market_quote int rat

fun book_step :: "book_config \<Rightarrow> book_op \<Rightarrow> paper_book \<Rightarrow> paper_book" where
  "book_step c (Book_row r line now) b = snd (apply_row c r line now b)"
| "book_step c (Book_quote q now tick) b = snd (on_quote c q now tick b)"

interpretation book_runs: kept_invariant "book_step c" book_ok for c
proof
  fix b a assume "book_ok b"
  then show "book_ok (book_step c a b)" by (cases a) (simp_all add: apply_row_ok on_quote_ok)
qed

subsection \<open>Properties\<close>

text \<open>
  C25: over any ledger rows and quotes, failing ones included, the book holds at most one live plan per
  label, live and finished plans are in live and terminal states, and a plan has a fill price exactly
  when it is filled or closed, never beyond its limit price.
\<close>

theorem paper_fills_within_limit:
  "book_ok (fold (book_step c) ops \<lparr>bk_plans = [], bk_done = []\<rparr>)"
  by (rule book_runs.run_inv) (simp add: book_ok_def unique_key_def)

text \<open>
  The lots of a plan lie within the configured volumes, and unless the minimum forces more, a
  stop-out at the planned prices loses no more than the risk (up to the rounding of the division).
\<close>

theorem paper_lots_bounded:
  assumes "paper_lots risk entry sl contract step minimum maximum = Inr lots" "dle minimum maximum"
  shows "dle minimum lots \<and> dle lots maximum \<and> dlt dzero (dabs (dsub entry sl)) \<and>
    (\<exists>raw. ddiv risk (dmul (dabs (dsub entry sl)) contract) = Inr raw \<and> (dle dzero raw \<longrightarrow> dle lots raw \<or> dle lots minimum))"
proof -
  from assms(1) obtain raw q where q: "ddiv risk (dmul (dabs (dsub entry sl)) contract) = Inr raw"
    "quantize round_down raw step = Inr q" "lots = dmin (dmax q minimum) maximum" "\<not> dle (dabs (dsub entry sl)) dzero"
    by (auto simp: paper_lots_def Let_def bindE_Inr split: if_splits)
  have "0 \<le> dval raw \<Longrightarrow> dval q \<le> dval raw" using quantize_down_bounds(2)[OF q(2)] by blast
  with q assms(2) show ?thesis by (auto simp: dec_simps)
qed

theorem paper_lots_bounded_witness:
  "paper_lots (Dec 6 0) (Dec 5 0) (Dec 3 0) (Dec 1 0) (Dec 1 0) (Dec 1 0) (Dec 9 0) = Inr (Dec 3 0) \<and> dle (Dec 3 0) (Dec 9 0)"
proof -
  have "paper_lots (Dec 6 0) (Dec 5 0) (Dec 3 0) (Dec 1 0) (Dec 1 0) (Dec 1 0) (Dec 9 0) = Inr (Dec 3 0)" by code_simp
  moreover have "dle (Dec 1 0) (Dec 9 0)" by code_simp
  ultimately show ?thesis using paper_lots_bounded by blast
qed

end
