(* ===== verification/Reconcile.thy ===== *)
theory Reconcile
  imports Unwind
begin

text \<open>
  Reconciliation of sent trades with the broker's positions and closed history (capture/reconcile.py).
  The two reads are the broker's, the positions are given; \<open>now\<close> is the time of the pass.
\<close>

definition open_trades :: "journal \<Rightarrow> string \<Rightarrow> trade list" where
  "open_trades j destination =
     filter (\<lambda>t. tr_destination t = destination \<and> tr_state t \<noteq> Observed \<and> tr_state t \<noteq> Resolved) (j_trades j)"

text \<open>One trade against the positions: it is seen open, or answered as missing.\<close>

definition seen_update :: "trade \<Rightarrow> broker_position \<Rightarrow> trade_update" where
  "seen_update t p =
     no_update\<lparr>up_broker_position := Some (bp_id p),
               up_state := (if tr_state t \<noteq> Uncertain then Some Opened else None)\<rparr>"

definition reconcile_open ::
  "string \<Rightarrow> int \<Rightarrow> string list \<Rightarrow> broker_position list \<Rightarrow> trade \<Rightarrow> journal \<Rightarrow> bool \<times> journal" where
  "reconcile_open destination now pending positions t j =
     (let candidates = unwind_related t positions;
          j1 = observe_positions (tr_id t) destination now candidates j
      in case candidates of
           [p] \<Rightarrow> (False, store_update (tr_id t) (seen_update t p) now j1)
         | _ \<Rightarrow> (tr_broker_order_id t \<notin> set pending \<and> tr_broker_position_id t \<noteq> [], j1))"

fun reconcile_opens ::
  "string \<Rightarrow> int \<Rightarrow> string list \<Rightarrow> broker_position list \<Rightarrow> trade list \<Rightarrow> journal \<Rightarrow> trade list \<times> journal" where
  "reconcile_opens destination now pending positions [] j = ([], j)"
| "reconcile_opens destination now pending positions (t # ts) j =
     (let (missing, j1) = reconcile_open destination now pending positions t j;
          (ms, j2) = reconcile_opens destination now pending positions ts j1
      in ((if missing then t # ms else ms), j2))"

text \<open>One missing trade against the closed history; a trade without lots (the empty text) is no decimal.\<close>

definition closed_matches :: "trade \<Rightarrow> closed_trade list \<Rightarrow> closed_trade list" where
  "closed_matches t history =
     filter (\<lambda>c. ct_id c = tr_broker_position_id t \<and> ct_symbol c = tr_symbol t \<and> ct_side c = tr_side t) history"

definition resolve_closed ::
  "string \<Rightarrow> int \<Rightarrow> closed_trade list \<Rightarrow> trade \<Rightarrow> journal \<Rightarrow> unit res \<times> journal" where
  "resolve_closed destination now history t j =
     (case guard_position j (tr_id t) of
        Inl e \<Rightarrow> (if is_value_error e then Inr () else Inl e, j)
      | Inr _ \<Rightarrow>
          (let found = closed_matches t history in
           if found = [] then (Inr (), j)
           else (let j1 = observe_closed (tr_id t) destination now found j in
                 case tr_lots t of
                   None \<Rightarrow> (Inl (decimal_error ''InvalidOperation''), j1)
                 | Some lots \<Rightarrow>
                     if dle lots (dsum (map ct_volume found))
                     then (Inr (), store_update (tr_id t)
                             (no_update\<lparr>up_state := Some Resolved, up_resolved_at := Some now\<rparr>) now j1)
                     else (Inr (), j1))))"

fun resolve_all ::
  "string \<Rightarrow> int \<Rightarrow> closed_trade list \<Rightarrow> trade list \<Rightarrow> journal \<Rightarrow> unit res \<times> journal" where
  "resolve_all destination now history [] j = (Inr (), j)"
| "resolve_all destination now history (t # ts) j =
     (case resolve_closed destination now history t j of
        (Inl e, j1) \<Rightarrow> (Inl e, j1)
      | (Inr _, j1) \<Rightarrow> resolve_all destination now history ts j1)"

definition reconcile ::
  "broker_api \<Rightarrow> string \<Rightarrow> position_tree list \<Rightarrow> int \<Rightarrow> journal \<Rightarrow> unit res \<times> journal" where
  "reconcile api destination trees now j =
     (let trades = open_trades j destination in
      if trades = [] then (Inr (), j)
      else case ba_active_orders api of
        Inl e \<Rightarrow> (Inl e, j)
      | Inr orders \<Rightarrow>
          (let (missing, j1) = reconcile_opens destination now (map od_id orders) (flat_positions trees) trades j in
           if missing = [] then (Inr (), j1)
           else case ba_closed_positions api of
             Inl e \<Rightarrow> (Inl e, j1)
           | Inr history \<Rightarrow> resolve_all destination now history missing j1))"

subsection \<open>What a pass may change\<close>

definition state_of :: "journal \<Rightarrow> string \<Rightarrow> trade_state option" where
  "state_of j k = map_option tr_state (find_trade j k)"

lemma core_observe_one [simp]:
  "same_core j (observe_one_position i s now p j)" "same_core j (observe_one_closed i s now c j)"
  by (simp_all add: observe_one_position_def observe_one_closed_def)

lemma trades_fold: "(\<And>x j. same_core j (f x j)) \<Longrightarrow> j_trades (fold f xs j) = j_trades j"
  by (induction xs arbitrary: j) (simp_all add: same_coreD(1))

lemma trades_observe: "j_trades (observe_positions i d now ps j) = j_trades j" "j_trades (observe_closed i d now cs j) = j_trades j"
  by (simp_all add: observe_positions_def observe_closed_def trades_fold)

lemma state_of_observe [simp]:
  "state_of (observe_positions i d now ps j) k = state_of j k" "state_of (observe_closed i d now cs j) k = state_of j k"
  by (simp_all add: state_of_def find_trade_def trades_observe)

lemma state_of_update:
  "state_of (store_update i u now j) k =
     (case up_state u of Some s \<Rightarrow> if i = k \<and> state_of j k \<noteq> None then Some s else state_of j k | None \<Rightarrow> state_of j k)"
proof (cases "find_trade j k")
  case (Some t)
  then have "tr_id t = k" by (auto simp: find_trade_def dest: find_Some_mem)
  with Some show ?thesis by (auto simp: state_of_def find_store_update_any apply_update_def opt_set_def split: option.splits)
qed (simp add: state_of_def find_store_update_any split: option.splits)

lemma reconcile_open_state:
  assumes "reconcile_open d now pending ps t j = (m, j')"
  shows "state_of j' k = state_of j k \<or> (state_of j' k = Some Opened \<and> tr_id t = k \<and> tr_state t \<noteq> Uncertain)"
proof (cases "unwind_related t ps" rule: remdups_adj.cases)
  case (2 p)
  with assms show ?thesis
    by (auto simp: reconcile_open_def Let_def state_of_update seen_update_def no_update_def split: if_splits)
qed (use assms in \<open>auto simp: reconcile_open_def Let_def\<close>)

lemma reconcile_opens_state:
  "reconcile_opens d now pending ps ts j = (ms, j') \<Longrightarrow>
     set ms \<subseteq> set ts \<and>
     (state_of j' k = state_of j k \<or>
      (state_of j' k = Some Opened \<and> (\<exists>t \<in> set ts. tr_id t = k \<and> tr_state t \<noteq> Uncertain)))"
proof (induction ts arbitrary: j ms j')
  case Nil
  then show ?case by simp
next
  case (Cons t ts)
  obtain m j1 where o: "reconcile_open d now pending ps t j = (m, j1)" by (metis prod.exhaust)
  obtain ms2 j2 where r: "reconcile_opens d now pending ps ts j1 = (ms2, j2)" by (metis prod.exhaust)
  have "j' = j2" "ms = (if m then t # ms2 else ms2)" using Cons.prems o r by simp_all
  with Cons.IH[OF r] reconcile_open_state[OF o, of k] show ?case by auto
qed

definition fully_closed_in :: "trade \<Rightarrow> closed_trade list \<Rightarrow> bool" where
  "fully_closed_in t history \<longleftrightarrow>
     (\<exists>lots. tr_lots t = Some lots \<and> dle lots (dsum (map ct_volume (closed_matches t history))) \<and> closed_matches t history \<noteq> [])"

lemma resolve_closed_state:
  assumes "resolve_closed d now history t j = (r, j')"
  shows "state_of j' k = state_of j k \<or>
    (state_of j' k = Some Resolved \<and> tr_id t = k \<and> fully_closed_in t history \<and> guard_position j k = Inr ())"
  using assms
  by (auto simp: resolve_closed_def Let_def state_of_update no_update_def fully_closed_in_def
      split: sum.splits if_splits option.splits)

lemma resolve_all_state:
  "resolve_all d now history ts j = (r, j') \<Longrightarrow>
     state_of j' k = state_of j k \<or>
     (state_of j' k = Some Resolved \<and> (\<exists>t \<in> set ts. tr_id t = k \<and> fully_closed_in t history))"
proof (induction ts arbitrary: j)
  case (Cons t ts)
  obtain x j1 where o: "resolve_closed d now history t j = (x, j1)" by (metis prod.exhaust)
  show ?case
  proof (cases x)
    case (Inl e)
    with Cons.prems o have "j' = j1" by simp
    with resolve_closed_state[OF o, of k] show ?thesis by auto
  next
    case (Inr u)
    with Cons.prems o have "resolve_all d now history ts j1 = (r, j')" by simp
    from Cons.IH[OF this] resolve_closed_state[OF o, of k] show ?thesis by auto
  qed
qed simp

text \<open>
  C12: a reconciliation pass resolves a trade only when the broker's closed history holds closings of
  its own position, symbol and side that add up to its lots; a partial close, a missing position or a
  failed read never resolves anything, and a trade whose outcome is uncertain is never called open.
\<close>

theorem resolved_needs_closed_volume:
  assumes "reconcile api d trees now j = (r, j')" "state_of j' k \<noteq> state_of j k"
  shows "(state_of j' k = Some Opened \<and> (\<exists>t \<in> set (open_trades j d). tr_id t = k \<and> tr_state t \<noteq> Uncertain)) \<or>
    (state_of j' k = Some Resolved \<and>
     (\<exists>t history. t \<in> set (open_trades j d) \<and> tr_id t = k \<and> ba_closed_positions api = Inr history \<and> fully_closed_in t history))"
proof -
  have "open_trades j d \<noteq> []" using assms by (auto simp: reconcile_def)
  then obtain orders where os: "ba_active_orders api = Inr orders" using assms by (cases "ba_active_orders api") (auto simp: reconcile_def)
  obtain ms j1 where m: "reconcile_opens d now (map od_id orders) (flat_positions trees) (open_trades j d) j = (ms, j1)"
    by (metis prod.exhaust)
  note first = reconcile_opens_state[OF m, of k]
  show ?thesis
  proof (cases "ms = [] \<or> (\<exists>e. ba_closed_positions api = Inl e)")
    case True
    with assms os m \<open>open_trades j d \<noteq> []\<close> have "j' = j1"
      by (auto simp: reconcile_def Let_def split: if_splits)
    with first assms(2) show ?thesis by simp
  next
    case False
    then obtain history where h: "ba_closed_positions api = Inr history" "ms \<noteq> []" by (cases "ba_closed_positions api") auto
    with assms(1) os m \<open>open_trades j d \<noteq> []\<close> have "resolve_all d now history ms j1 = (r, j')" by (simp add: reconcile_def Let_def)
    from resolve_all_state[OF this, of k] first assms(2) h show ?thesis by (metis subsetD)
  qed
qed

definition sample_sent :: trade where
  "sample_sent =
     \<lparr>tr_id = ''t1'', tr_source_key = [], tr_source = S_P01, tr_source_order_id = [], tr_source_position_id = [],
      tr_destination = ''A'', tr_broker_order_id = [], tr_broker_position_id = ''p1'', tr_state = Opened, tr_updated_at = 0,
      tr_resolved_at = None, tr_last_request = [], tr_lots = Some (Dec 2 0), tr_symbol = ''ES'', tr_side = ''BUY'',
      tr_order_type = ''MARKET'', tr_scope = [], tr_last_event_at = None, tr_source_quantity = None, tr_source_state = []\<rparr>"

definition sample_closing :: "string \<Rightarrow> decimal \<Rightarrow> closed_trade" where
  "sample_closing uid v =
     \<lparr>ct_id = ''p1'', ct_symbol = ''ES'', ct_side = ''BUY'', ct_volume = v, ct_open_price = Dec 1 0, ct_open_time = [],
      ct_time = [], ct_uid = Some uid, ct_closing_order = None, ct_reason = None\<rparr>"

definition sample_history :: "closed_trade list \<Rightarrow> broker_api" where
  "sample_history cs =
     \<lparr>ba_instruments = Inr [], ba_active_orders = Inr [], ba_open_positions = Inr [], ba_closed_positions = Inr cs,
      ba_write = (\<lambda>_. Inl (value_error ''no write''))\<rparr>"

definition sample_sent_journal :: journal where
  "sample_sent_journal = (empty_journal ''B'')\<lparr>j_trades := [sample_sent]\<rparr>"

lemma sample_pass:
  "state_of (snd (reconcile (sample_history [sample_closing ''u1'' (Dec 1 0), sample_closing ''u2'' (Dec 1 0)]) ''A'' [] 5
     sample_sent_journal)) ''t1'' = Some Resolved" "state_of sample_sent_journal ''t1'' = Some Opened"
  "state_of (snd (reconcile (sample_history [sample_closing ''u1'' (Dec 1 0)]) ''A'' [] 5 sample_sent_journal)) ''t1'' = Some Opened"
  by code_simp+

theorem resolved_needs_closed_volume_witness:
  "fully_closed_in sample_sent [sample_closing ''u1'' (Dec 1 0), sample_closing ''u2'' (Dec 1 0)]"
proof -
  obtain r j' where r: "reconcile (sample_history [sample_closing ''u1'' (Dec 1 0), sample_closing ''u2'' (Dec 1 0)]) ''A'' [] 5
     sample_sent_journal = (r, j')" by (metis prod.exhaust)
  have s: "state_of j' ''t1'' = Some Resolved" "state_of j' ''t1'' \<noteq> state_of sample_sent_journal ''t1''"
    using sample_pass(1,2) r by simp_all
  from resolved_needs_closed_volume[OF r s(2)] s(1) show ?thesis
    by (auto simp: sample_history_def open_trades_def sample_sent_journal_def empty_journal_def split: if_splits)
qed

end
