(* ===== verification/CopyDesk.thy ===== *)
theory CopyDesk
  imports SignalCopy WritePaths Reconcile
begin

text \<open>
  The controller that owns the selected account, the native router and the copy lanes
  (dashboard/controller.py): its state, the account and session operations, the switches and settings.
  A session is named by the account it is logged in to; what the broker answers on it is an argument
  of each operation. The journal and the symbol map belong to the controller and are lent to a lane
  while the lane works.
\<close>

datatype lane_id = Main_lane | R01_lane | Config_lane string

record episode =
  ep_label :: string
  ep_id :: string
  ep_prices :: "string list"
  ep_grade :: string
  ep_duplicates :: nat

text \<open>A row of the R01 ledger: its cells, and the numbers and the instant that they read as.\<close>

record r01_row =
  rr_kind :: string
  rr_label :: string
  rr_symbol :: string
  rr_side :: string
  rr_utc :: string
  rr_time :: int
  rr_prices :: "string list"
  rr_entry :: decimal
  rr_stop :: decimal
  rr_target :: decimal
  rr_grade :: string
  rr_stamp :: string
  rr_rfx :: string
  rr_detail :: string
  rr_extra :: "string list"

record lane_answer =
  la_status :: string
  la_reason :: string

datatype feed_entry =
    Wire_entry string string signal copy_result int
  | Ledger_entry nat r01_row "lane_answer option" int

record desk =
  dk_running :: bool
  dk_generation :: nat
  dk_selected :: string
  dk_accounts :: "string list"
  dk_session :: "string option"
  dk_connection :: string
  dk_profiles :: "(string \<times> string option) list"
  dk_orders :: "order_row list option"
  dk_positions :: "broker_position list option"
  dk_writes :: bool
  dk_interactive :: bool
  dk_native :: router
  dk_limit :: nat
  dk_journal :: journal
  dk_symbols :: symbol_map
  dk_lane :: "lane_id \<Rightarrow> copy_lane"
  dk_open :: "string list"
  dk_episodes :: "episode list"
  dk_configs :: "lane list"
  dk_since :: "(string \<times> int) list"
  dk_p01_log :: bool
  dk_controls :: send_controls
  dk_mode_since :: int
  dk_feed :: "feed_entry list"
  dk_shadow :: "(int \<times> nat \<times> r01_row \<times> lane_answer option) list"

text \<open>The writes of the controller: openings and cancels by lane, and the ledger's attempts.\<close>

datatype desk_key =
    Lane_open lane_id "string list" string
  | Lane_cancel lane_id "string list" string
  | Trade_write "string \<times> string"

fun key_on :: "lane_id \<Rightarrow> copy_key \<Rightarrow> desk_key" where
  "key_on i (Open_key sc a) = Lane_open i sc a"
| "key_on i (Cancel_key sc a) = Lane_cancel i sc a"
| "key_on i (Ledger_key k) = Trade_write k"

fun desk_claimed :: "desk \<Rightarrow> desk_key \<Rightarrow> bool" where
  "desk_claimed d (Lane_open i sc a) = lane_claimed (dk_lane d i) (Open_key sc a)"
| "desk_claimed d (Lane_cancel i sc a) = lane_claimed (dk_lane d i) (Cancel_key sc a)"
| "desk_claimed d (Trade_write k) = attempt_claimed (dk_journal d) k"

type_synonym 'r desk_run = "'r res \<times> desk \<times> desk_key list"

subsection \<open>Sessions\<close>

type_synonym broker_world = "string \<Rightarrow> copy_session"

definition session_on :: "broker_world \<Rightarrow> string \<Rightarrow> copy_session" where
  "session_on bk a =
     (bk a)\<lparr>cs_signal := (cs_signal (bk a))\<lparr>sa_account := Some a\<rparr>, cs_unwind := (cs_unwind (bk a))\<lparr>ua_account := Some a\<rparr>\<rparr>"

definition primary_api :: "broker_world \<Rightarrow> desk \<Rightarrow> copy_session option" where
  "primary_api bk d = map_option (session_on bk) (dk_session d)"

definition destination_verified :: "desk \<Rightarrow> bool" where
  "destination_verified d \<longleftrightarrow> dk_connection d = ''connected'' \<and> dk_session d = Some (dk_selected d)"

definition primary_name :: string where
  "primary_name = ''primary''"

definition session_for :: "broker_world \<Rightarrow> string \<Rightarrow> desk \<Rightarrow> copy_session option" where
  "session_for bk a d =
     (if a = [] then None
      else if dk_connection d = ''connected'' \<and> dk_session d = Some a then Some (session_on bk a)
      else if \<exists>p \<in> set (dk_profiles d). fst p \<noteq> primary_name \<and> snd p = Some a then Some (session_on bk a)
      else None)"

definition lane_target :: "broker_world \<Rightarrow> copy_lane \<Rightarrow> desk \<Rightarrow> copy_session option \<times> string \<times> bool" where
  "lane_target bk st d =
     (let dest = (case cl_config st of Some c \<Rightarrow> ln_destination c | None \<Rightarrow> []); api = session_for bk dest d
      in (api, dest, api \<noteq> None))"

text \<open>\<open>BrokerSession.require\<close>\<close>

definition require_session :: "broker_world \<Rightarrow> string \<Rightarrow> desk \<Rightarrow> copy_session res" where
  "require_session bk a d =
     (if dk_session d = Some a then Inr (session_on bk a)
      else Inl (value_error ''Connect the selected broker account first''))"

subsection \<open>Lending the journal to a lane\<close>

definition lent :: "lane_id \<Rightarrow> desk \<Rightarrow> copy_lane" where
  "lent i d = (dk_lane d i)\<lparr>cl_symbols := dk_symbols d, cl_ledger := Some (dk_journal d)\<rparr>"

definition returned :: "lane_id \<Rightarrow> copy_lane \<Rightarrow> desk \<Rightarrow> desk" where
  "returned i st d =
     d\<lparr>dk_lane := (dk_lane d)(i := st), dk_symbols := cl_symbols st,
       dk_journal := (case cl_ledger st of Some j \<Rightarrow> j | None \<Rightarrow> dk_journal d)\<rparr>"

definition on_lane :: "lane_id \<Rightarrow> (copy_lane \<Rightarrow> 'r res \<times> copy_lane \<times> copy_key list) \<Rightarrow> desk \<Rightarrow> 'r desk_run" where
  "on_lane i f d = (case f (lent i d) of (r, st, ks) \<Rightarrow> (r, returned i st d, map (key_on i) ks))"

definition set_lane :: "lane_id \<Rightarrow> (copy_lane \<Rightarrow> copy_lane) \<Rightarrow> desk \<Rightarrow> desk" where
  "set_lane i f d = d\<lparr>dk_lane := (dk_lane d)(i := f (dk_lane d i))\<rparr>"

definition disarm :: "desk \<Rightarrow> desk" where
  "disarm d = set_lane Main_lane (arm False 0) (d\<lparr>dk_native := (dk_native d)\<lparr>rt_armed := False\<rparr>\<rparr>)"

subsection \<open>Accounts and sessions\<close>

definition select_account :: "string \<Rightarrow> desk \<Rightarrow> desk res" where
  "select_account a d =
     (if a \<notin> set (dk_accounts d) then Inl (value_error ''Select a configured or broker-discovered account'')
      else if a = dk_selected d then Inr d
      else if dk_running d then Inl (value_error ''Stop capture before changing accounts'')
      else Inr (disarm (d\<lparr>dk_session := None, dk_selected := a, dk_connection := ''disconnected'', dk_orders := None,
                          dk_positions := None\<rparr>)))"

text \<open>What a login answers: the account of the session and the accounts found, with their demo mark.\<close>

datatype login = Login_failed exn | Logged_in string "(string \<times> bool) list"

definition demo_account :: "string \<Rightarrow> (string \<times> bool) list \<Rightarrow> bool" where
  "demo_account a found \<longleftrightarrow> (a, True) \<in> set found"

definition connect :: "string \<Rightarrow> login \<Rightarrow> desk \<Rightarrow> desk res" where
  "connect a answer d =
     bindE (select_account a d) (\<lambda>d1.
       let d2 = disarm (d1\<lparr>dk_orders := None, dk_positions := None\<rparr>);
           d3 = d2\<lparr>dk_native := (dk_native d2)\<lparr>rt_demo_verified := False\<rparr>\<rparr>
       in Inr (case answer of
                 Logged_in account found \<Rightarrow>
                   d3\<lparr>dk_accounts := map fst found, dk_session := Some account, dk_connection := ''connected'',
                      dk_native := (dk_native d3)\<lparr>rt_demo_verified := demo_account a found\<rparr>\<rparr>
               | Login_failed _ \<Rightarrow>
                   d3\<lparr>dk_connection := (if dk_session d3 \<noteq> None then ''connected'' else ''error'')\<rparr>))"

definition refresh_session :: "login \<Rightarrow> desk \<Rightarrow> desk res" where
  "refresh_session answer d =
     (if dk_session d = None then Inl (value_error ''Connect to the broker before refreshing the token'')
      else Inr (case answer of
                  Logged_in account found \<Rightarrow>
                    (let ok = demo_account (dk_selected d) found;
                         d1 = d\<lparr>dk_accounts := map fst found, dk_native := (dk_native d)\<lparr>rt_demo_verified := ok\<rparr>\<rparr>;
                         d2 = (if ok then d1 else disarm d1)
                     in d2\<lparr>dk_session := Some account, dk_connection := ''connected''\<rparr>)
                | Login_failed _ \<Rightarrow> d))"

text \<open>Opening the observed ledger may fail; the account was selected before.\<close>

definition start :: "string option \<Rightarrow> exn option \<Rightarrow> desk \<Rightarrow> unit desk_run" where
  "start a ledger_fault d =
     (if dk_running d
      then (if a \<noteq> None \<and> a \<noteq> Some (dk_selected d)
            then Inl (value_error ''Stop capture before changing accounts'') else Inr (), d, [])
      else case (case a of Some x \<Rightarrow> select_account x d | None \<Rightarrow> Inr d) of
             Inl e \<Rightarrow> (Inl e, d, [])
           | Inr d1 \<Rightarrow>
               (case ledger_fault of
                  Some e \<Rightarrow> (Inl e, d1, [])
                | None \<Rightarrow> (Inr (), d1\<lparr>dk_generation := Suc (dk_generation d1), dk_running := True\<rparr>, [])))"

definition stop_capture :: "desk \<Rightarrow> desk" where
  "stop_capture d = (disarm (d\<lparr>dk_running := False\<rparr>))\<lparr>dk_session := None, dk_connection := ''disconnected''\<rparr>"

text \<open>A read error of the observed ledger stops the observer (\<open>_watch\<close>).\<close>

definition observer_failed :: "desk \<Rightarrow> desk" where
  "observer_failed d = disarm (d\<lparr>dk_running := False\<rparr>)"

definition refresh_orders :: "broker_world \<Rightarrow> desk \<Rightarrow> unit desk_run" where
  "refresh_orders bk d =
     (case primary_api bk d of
        None \<Rightarrow> (Inl (value_error ''Connect to the broker before requesting active orders''), d, [])
      | Some a \<Rightarrow>
          (case ba_active_orders (ua_broker (cs_unwind a)) of
             Inl _ \<Rightarrow> (Inl (value_error ''Active-order read failed. No current broker snapshot is available.''),
                       d\<lparr>dk_orders := None\<rparr>, [])
           | Inr os \<Rightarrow> (Inr (), d\<lparr>dk_orders := Some os\<rparr>, [])))"

definition refresh_positions :: "broker_world \<Rightarrow> int \<Rightarrow> desk \<Rightarrow> unit desk_run" where
  "refresh_positions bk now d =
     (case primary_api bk d of
        None \<Rightarrow> (Inl (value_error ''Connect before requesting open positions''), d, [])
      | Some a \<Rightarrow>
          (let b = ua_broker (cs_unwind a);
               failed = Inl (value_error ''Open-position read failed; no current snapshot available'') in
           case ba_open_positions b of
             Inl _ \<Rightarrow> (failed, d\<lparr>dk_positions := None\<rparr>, [])
           | Inr trees \<Rightarrow>
               (case reconcile b (dk_selected d) trees now (dk_journal d) of
                  (Inl _, j) \<Rightarrow> (failed, d\<lparr>dk_positions := None, dk_journal := j\<rparr>, [])
                | (Inr _, j) \<Rightarrow> (Inr (), d\<lparr>dk_positions := Some (flat_positions trees), dk_journal := j\<rparr>, []))))"

text \<open>The pass of the observer every fifteen seconds; a failure is only reported.\<close>

definition watch_reconcile :: "broker_world \<Rightarrow> int \<Rightarrow> desk \<Rightarrow> unit desk_run" where
  "watch_reconcile bk now d =
     (case (dk_running d, primary_api bk d, rt_route (dk_native d)) of
        (True, Some a, Some _) \<Rightarrow>
          (case ba_open_positions (ua_broker (cs_unwind a)) of
             Inl _ \<Rightarrow> (Inr (), d, [])
           | Inr trees \<Rightarrow>
               (case reconcile (ua_broker (cs_unwind a)) (dk_selected d) trees now (dk_journal d) of
                  (_, j) \<Rightarrow> (Inr (), d\<lparr>dk_journal := j\<rparr>, [])))
      | _ \<Rightarrow> (Inr (), d, []))"

subsection \<open>Switches and settings\<close>

text \<open>Arming the native router is refused whatever the state; only the disarming half is left.\<close>

definition dispatch_disabled :: string where
  "dispatch_disabled =
     ''Automatic dispatch is disabled: POST /api/copying enabled=true (DashboardController.set_copying) '' @
     ''can no longer arm the capture router, so captured signals are never sent on arrival. Trades are '' @
     ''sent individually from the Verified trades page (POST /api/trades/send) after the source's copy '' @
     ''control is switched on. Disabling (enabled=false) still works.''"

definition set_copying :: "bool \<Rightarrow> desk \<Rightarrow> desk res" where
  "set_copying enabled d =
     (if enabled then Inl (value_error dispatch_disabled)
      else Inr (d\<lparr>dk_native := (dk_native d)\<lparr>rt_armed := False, rt_armed_at := None\<rparr>\<rparr>))"

definition unresolved_copies :: "journal \<Rightarrow> bool" where
  "unresolved_copies j \<longleftrightarrow> (\<exists>t \<in> set (j_trades j). tr_destination t \<noteq> [] \<and> tr_state t \<noteq> Resolved)"

definition configure_copying :: "route_config \<Rightarrow> nat \<Rightarrow> desk \<Rightarrow> desk res" where
  "configure_copying route limit d =
     (if \<not> dk_interactive d then Inl (value_error ''Interactive settings are not enabled'')
      else if rt_armed (dk_native d) then Inl (value_error ''Stop copying before changing settings'')
      else if rt_route (dk_native d) \<noteq> None \<and> rt_route (dk_native d) \<noteq> Some route \<and> unresolved_copies (dk_journal d)
      then Inl (value_error ''Resolve existing copied trades before changing their route'')
      else Inr (d\<lparr>dk_native := (dk_native d)\<lparr>rt_route := Some route\<rparr>, dk_limit := limit\<rparr>))"

definition configure_lane :: "lane_id \<Rightarrow> signal_settings \<Rightarrow> desk \<Rightarrow> unit desk_run" where
  "configure_lane i v =
     on_lane i (\<lambda>st. case configure v st of Inl e \<Rightarrow> (Inl e, st, []) | Inr st' \<Rightarrow> (Inr (), st', []))"

definition configure_signals :: "signal_settings \<Rightarrow> desk \<Rightarrow> unit desk_run" where
  "configure_signals v d =
     (if \<not> dk_interactive d then (Inl (value_error ''Interactive copying is disabled''), d, [])
      else then_do (configure_lane Main_lane v d) (\<lambda>_ d1. (Inr (), d1\<lparr>dk_p01_log := st_p01_log v\<rparr>, [])))"

definition configure_r01 :: "signal_settings \<Rightarrow> desk \<Rightarrow> unit desk_run" where
  "configure_r01 v d =
     (if \<not> dk_interactive d then (Inl (value_error ''Interactive copying is disabled''), d, [])
      else if ln_source (st_lane v) \<noteq> ''R01''
      then (Inl (value_error ''The R01 lane copies R01 ledger intents only; source must be R01''), d, [])
      else if st_p01_log v \<or> ln_additional (st_lane v) \<noteq> []
      then (Inl (value_error ''The R01 lane accepts no P01 or panel sources''), d, [])
      else configure_lane R01_lane (v\<lparr>st_symbols := []\<rparr>) d)"

definition set_signal_copying :: "bool \<Rightarrow> int \<Rightarrow> desk \<Rightarrow> desk res" where
  "set_signal_copying enabled now d =
     (let config = cl_config (dk_lane d Main_lane);
          ready = (dk_interactive d \<and> destination_verified d \<and>
                   (case config of Some c \<Rightarrow> ln_destination c = dk_selected d | None \<Rightarrow> False) \<and> \<not> rt_armed (dk_native d))
      in if enabled \<and> \<not> ready
         then Inl (value_error ''Connect the configured destination account and turn native copying off first'')
         else Inr (set_lane Main_lane (arm enabled now)
                     (if enabled then d else d\<lparr>dk_native := (dk_native d)\<lparr>rt_armed := False\<rparr>\<rparr>)))"

definition configure_copy_controls :: "send_controls \<Rightarrow> int \<Rightarrow> desk \<Rightarrow> desk" where
  "configure_copy_controls v now d =
     d\<lparr>dk_controls := v, dk_mode_since := (if sc_mode v \<noteq> sc_mode (dk_controls d) then now else dk_mode_since d)\<rparr>"

text \<open>\<open>load_controls\<close>: the saved sources, and paper whatever the file says.\<close>

definition load_controls :: "send_controls \<Rightarrow> send_controls" where
  "load_controls saved = saved\<lparr>sc_mode := ''paper''\<rparr>"

subsection \<open>Configurations\<close>

text \<open>A lane of a configuration is opened once and kept; its record outlives it on disk.\<close>

definition lane_for :: "lane \<Rightarrow> desk \<Rightarrow> desk" where
  "lane_for c d =
     (let i = Config_lane (ln_id c);
          d1 = (if ln_id c \<in> set (dk_open d) then d
                else (set_lane i (\<lambda>st. open_lane st) d)\<lparr>dk_open := ln_id c # dk_open d\<rparr>)
      in set_lane i (\<lambda>st. st\<lparr>cl_config := Some c\<rparr>) d1)"

definition mark_since :: "string \<Rightarrow> int \<Rightarrow> desk \<Rightarrow> desk" where
  "mark_since i now d = d\<lparr>dk_since := (i, now) # filter (\<lambda>p. fst p \<noteq> i) (dk_since d)\<rparr>"

definition notify_desk :: "desk \<Rightarrow> desk" where
  "notify_desk d = d\<lparr>dk_journal := notify_stream (dk_journal d)\<rparr>"

definition configure_copy_config :: "lane \<Rightarrow> int \<Rightarrow> desk \<Rightarrow> desk res" where
  "configure_copy_config c now d =
     (if \<not> dk_interactive d then Inl (value_error ''Interactive copying is disabled'')
      else bindE (upsert_config c (dk_configs d)) (\<lambda>cs.
             let d1 = lane_for c (d\<lparr>dk_configs := cs\<rparr>)
             in Inr (notify_desk (if ln_enabled c then mark_since (ln_id c) now d1 else d1))))"

definition set_copy_config_state :: "string \<Rightarrow> string option \<Rightarrow> bool option \<Rightarrow> int \<Rightarrow> desk \<Rightarrow> desk res" where
  "set_copy_config_state i mode enabled now d =
     (if i = [] then Inl (value_error ''A config id is required'')
      else if (case mode of Some m \<Rightarrow> m \<noteq> ''paper'' \<and> m \<noteq> ''live'' | None \<Rightarrow> False)
      then Inl (value_error ''mode must be paper or live'')
      else bindE (set_config_state i mode enabled (dk_configs d)) (\<lambda>cs.
             let d1 = d\<lparr>dk_configs := cs\<rparr>
             in Inr (notify_desk (if \<exists>c \<in> set cs. ln_id c = i \<and> ln_enabled c then mark_since i now d1 else d1))))"

definition delete_copy_config :: "string \<Rightarrow> desk \<Rightarrow> desk res" where
  "delete_copy_config i d =
     (if i = [] then Inl (value_error ''A config id is required'')
      else bindE (delete_config i (dk_configs d)) (\<lambda>cs.
             Inr (notify_desk (d\<lparr>dk_configs := cs, dk_open := filter (\<lambda>x. x \<noteq> i) (dk_open d),
                                 dk_since := filter (\<lambda>p. fst p \<noteq> i) (dk_since d)\<rparr>))))"

subsection \<open>The explicit send\<close>

definition send_trade ::
  "router_env \<Rightarrow> broker_world \<Rightarrow> string \<Rightarrow> volume_arg \<Rightarrow> desk \<Rightarrow> send_reply desk_run" where
  "send_trade env bk i volume d =
     (if i = [] then (Inl (value_error ''A trade id is required''), d, [])
      else case (if sc_mode (dk_controls d) = ''live''
                 then (if \<not> dk_writes d then Inl (value_error ''Broker writes are disabled for this dashboard session'')
                       else if \<not> destination_verified d
                       then Inl (value_error ''Connect the destination account before sending live'')
                       else bindE (require_session bk (dk_selected d) d) (\<lambda>a. Inr (Some a)))
                 else Inr None) of
             Inl e \<Rightarrow> (Inl e, d, [])
           | Inr api \<Rightarrow>
               (case send env (dk_controls d) i volume (map_option (\<lambda>a. ua_broker (cs_unwind a)) api) (dk_selected d)
                       (rt_route (dk_native d)) (dk_journal d) of
                  (r, j, ws) \<Rightarrow> (r, d\<lparr>dk_journal := j\<rparr>, map (\<lambda>w. Trade_write (fst w)) ws)))"

subsection \<open>The claims of the controller\<close>

lemma lent_claims [simp]:
  "lane_claimed (lent i d) (Open_key sc a) = lane_claimed (dk_lane d i) (Open_key sc a)"
  "lane_claimed (lent i d) (Cancel_key sc a) = lane_claimed (dk_lane d i) (Cancel_key sc a)"
  "lane_claimed (lent i d) (Ledger_key k) = attempt_claimed (dk_journal d) k"
  by (simp_all add: lent_def)

lemma lent_claimed: "desk_claimed d (key_on i k) = lane_claimed (lent i d) k"
  by (cases k) (simp_all del: lane_claimed.simps)

lemma key_on_inj: "key_on i k = key_on i k' \<longleftrightarrow> k = k'"
  by (cases k; cases k') auto

lemma returned_claimed: "cl_ledger st \<noteq> None \<Longrightarrow> desk_claimed (returned i st d) (key_on i k) = lane_claimed st k"
  by (cases k) (auto simp: returned_def simp del: lane_claimed.simps(1,2))

lemma other_lane_claimed:
  "\<nexists>k. x = key_on i k \<Longrightarrow> desk_claimed (returned i st d) x = desk_claimed d x"
proof (cases x)
  case (Lane_open l sc a)
  moreover assume "\<nexists>k. x = key_on i k"
  ultimately have "l \<noteq> i" by (metis key_on.simps(1))
  with Lane_open show ?thesis by (simp add: returned_def)
next
  case (Lane_cancel l sc a)
  moreover assume "\<nexists>k. x = key_on i k"
  ultimately have "l \<noteq> i" by (metis key_on.simps(2))
  with Lane_cancel show ?thesis by (simp add: returned_def)
next
  case (Trade_write k)
  moreover assume "\<nexists>k. x = key_on i k"
  ultimately have False by (metis key_on.simps(3))
  then show ?thesis ..
qed

lemma on_lane_lawful:
  assumes "\<And>st r st' ks. cl_ledger st \<noteq> None \<Longrightarrow> f st = (r, st', ks) \<Longrightarrow> once_law st st' ks \<and> cl_ledger st' \<noteq> None"
  shows "lawful desk_claimed d (on_lane i f d)"
proof -
  obtain r st ks where f: "f (lent i d) = (r, st, ks)" by (metis prod.exhaust)
  have "cl_ledger (lent i d) \<noteq> None" by (simp add: lent_def)
  then have law: "once_law (lent i d) st ks" and l: "cl_ledger st \<noteq> None" using assms f by blast+
  have before: "desk_claimed d (key_on i k) = lane_claimed (lent i d) k" for k by (rule lent_claimed)
  have after: "desk_claimed (returned i st d) (key_on i k) = lane_claimed st k" for k by (rule returned_claimed[OF l])
  have "once desk_claimed d (returned i st d) (map (key_on i) ks)"
    unfolding once_def
  proof (intro conjI allI impI ballI)
    fix x assume x: "desk_claimed d x"
    show "desk_claimed (returned i st d) x"
    proof (cases "\<exists>k. x = key_on i k")
      case True
      with x before after law show ?thesis unfolding once_def by blast
    next
      case False
      with x other_lane_claimed show ?thesis by blast
    qed
  next
    fix x assume "x \<in> set (map (key_on i) ks)"
    then obtain k where "x = key_on i k" "k \<in> set ks" by auto
    with before after law show "\<not> desk_claimed d x" "desk_claimed (returned i st d) x" unfolding once_def by blast+
  next
    show "distinct (map (key_on i) ks)"
      using law by (auto simp: once_def distinct_map inj_on_def key_on_inj)
  qed
  then show ?thesis using f by (simp add: on_lane_def lawful_def)
qed

lemma desk_same_claims:
  assumes "\<And>i. cl_rows (dk_lane d' i) = cl_rows (dk_lane d i)" "j_attempts (dk_journal d') = j_attempts (dk_journal d)"
  shows "desk_claimed d' k = desk_claimed d k"
  using assms by (cases k) (simp_all add: attempt_claimed_def)

definition same_record :: "desk \<Rightarrow> desk \<Rightarrow> bool" where
  "same_record d d' \<longleftrightarrow> (\<forall>k. desk_claimed d' k = desk_claimed d k)"

lemma same_record_refl [simp]: "same_record d d"
  by (simp add: same_record_def)

lemma same_record_trans: "same_record a b \<Longrightarrow> same_record b c \<Longrightarrow> same_record a c"
  by (simp add: same_record_def)

lemma same_record_rows:
  "(\<And>i. cl_rows (dk_lane d' i) = cl_rows (dk_lane d i)) \<Longrightarrow> j_attempts (dk_journal d') = j_attempts (dk_journal d) \<Longrightarrow>
   same_record d d'"
  using desk_same_claims unfolding same_record_def by blast

lemma same_record_claims: "same_record d d' \<Longrightarrow> desk_claimed d' k = desk_claimed d k"
  by (simp add: same_record_def)

lemma same_record_set_lane:
  assumes "\<And>st k. lane_claimed (f st) k = lane_claimed st k"
  shows "same_record d (set_lane i f d)"
  unfolding same_record_def
proof
  fix k
  show "desk_claimed (set_lane i f d) k = desk_claimed d k"
    by (cases k) (simp_all add: set_lane_def assms del: lane_claimed.simps)
qed

lemma same_record_set_rows: "(\<And>st. cl_rows (f st) = cl_rows st) \<Longrightarrow> same_record d (set_lane i f d)"
  by (rule same_record_rows) (simp_all add: set_lane_def)

lemma journal_lawful:
  assumes "\<And>k. (attempt_claimed j' k \<longleftrightarrow> attempt_claimed (dk_journal d) k \<or> k \<in> set (map fst ws)) \<and>
      (k \<in> set (map fst ws) \<longrightarrow> \<not> attempt_claimed (dk_journal d) k) \<and> distinct (map fst ws)"
  shows "lawful desk_claimed d (r, d\<lparr>dk_journal := j'\<rparr>, map (\<lambda>w. Trade_write (fst w)) ws)"
proof -
  let ?ks = "map Trade_write (map fst ws)"
  have "once desk_claimed d (d\<lparr>dk_journal := j'\<rparr>) ?ks"
    unfolding once_def
  proof (intro conjI allI impI ballI)
    fix k assume "desk_claimed d k"
    then show "desk_claimed (d\<lparr>dk_journal := j'\<rparr>) k" using assms by (cases k) auto
  next
    fix k assume "k \<in> set ?ks"
    then have "k \<in> Trade_write ` set (map fst ws)" by (simp only: set_map)
    then obtain x where x: "k = Trade_write x" "x \<in> set (map fst ws)" by blast
    with assms[of x] show "\<not> desk_claimed d k" "desk_claimed (d\<lparr>dk_journal := j'\<rparr>) k" by auto
  next
    show "distinct ?ks" using assms by (simp add: distinct_map inj_on_def)
  qed
  then show ?thesis by (simp add: lawful_def comp_def)
qed

end
