(* ===== verification/LaneBatches.thy ===== *)
theory LaneBatches
  imports SignalCopy
begin

text \<open>
  A whole batch on a copy lane (dashboard/signal_copy.py): what it leaves alone, which writes it can
  make at all, and which it can make in paper mode.
\<close>

definition same_setup :: "copy_lane \<Rightarrow> copy_lane \<Rightarrow> bool" where
  "same_setup st st' \<longleftrightarrow>
     cl_mode st' = cl_mode st \<and> cl_armed st' = cl_armed st \<and> cl_armed_at st' = cl_armed_at st \<and>
     cl_config st' = cl_config st \<and> cl_symbols st' = cl_symbols st \<and> (cl_ledger st' = None \<longleftrightarrow> cl_ledger st = None)"

lemma same_setup_refl [simp]: "same_setup st st"
  by (simp add: same_setup_def)

lemma same_setup_trans: "same_setup a b \<Longrightarrow> same_setup b c \<Longrightarrow> same_setup a c"
  by (simp add: same_setup_def)

lemma same_setup_rows [simp]:
  "same_setup st (set_row k f st)" "same_setup st (hold_row k w st)" "same_setup st (commit_attempt k d q st)"
  "same_setup st (land_outcome k oc st)" "same_setup st (record_unwind k d u st)" "same_setup st (st\<lparr>cl_seen := s\<rparr>)"
  "same_setup st (st\<lparr>cl_rows := rs\<rparr>)" "same_setup st (st\<lparr>cl_seen := s, cl_rows := rs\<rparr>)"
  by (simp_all add: same_setup_def set_row_def hold_row_def commit_attempt_def land_outcome_def record_unwind_def)

lemma same_setup_land: "same_setup st (land_outcome k oc (commit_attempt k d q st))"
  by (rule same_setup_trans[of _ "commit_attempt k d q st"]) simp_all

text \<open>What one signal may do to a lane and send: an opening needs an armed lane outside paper.\<close>

definition key_allowed :: "copy_lane \<Rightarrow> copy_key \<Rightarrow> bool" where
  "key_allowed st k \<longleftrightarrow>
     (case k of
        Open_key sc d \<Rightarrow> cl_armed st \<and> cl_mode st \<noteq> Some ''paper''
      | Cancel_key sc d \<Rightarrow> True
      | Ledger_key x \<Rightarrow> cl_mode st \<noteq> Some ''paper'')"

definition bounded_run :: "copy_lane \<Rightarrow> 'r \<times> copy_lane \<times> copy_key list \<Rightarrow> bool" where
  "bounded_run st m \<longleftrightarrow> same_setup st (fst (snd m)) \<and> (\<forall>k \<in> set (snd (snd m)). key_allowed st k)"

lemma same_setup_keys: "same_setup st st' \<Longrightarrow> key_allowed st' k = key_allowed st k"
  by (cases k) (simp_all add: same_setup_def key_allowed_def)

lemma bounded_run_trans:
  assumes "same_setup st st1" "bounded_run st1 m"
  shows "bounded_run st m"
  using assms same_setup_trans same_setup_keys[OF assms(1)] by (auto simp: bounded_run_def)

lemma open_copy_bounded: "bounded_run st (open_copy key s raw ended session d verified now st)"
proof (cases "decide (cl_config st) (cl_symbols st) s (context_of s raw ended session d verified now st)")
  case (Inl e)
  then show ?thesis by (simp add: open_copy_def bounded_run_def)
next
  case (Inr p)
  have "cx_armed (context_of s raw ended session d verified now st)"
    by (rule decide_Inr[OF Inr]) (rule lane_checks_Inr(2))
  then have "cl_armed st" by (simp add: context_of_def Let_def)
  with Inr show ?thesis
    by (auto simp: open_copy_def bounded_run_def key_allowed_def Let_def same_setup_land split: option.splits)
qed

lemma cancel_own_copy_bounded: "bounded_run st (cancel_own_copy key s raw session d verified st)"
  by (auto simp: cancel_own_copy_def bounded_run_def key_allowed_def Let_def same_setup_land split: sum.splits option.splits)

lemma unwind_copy_bounded:
  assumes "cl_mode st = Some ''paper'' \<Longrightarrow> sg_kind s \<in> set cancel_kinds \<and> legacy_copy raw d st"
  shows "bounded_run st (unwind_copy env shown key s raw session d verified st)"
proof (cases "sg_kind s \<in> set cancel_kinds \<and> legacy_copy raw d st")
  case True
  then show ?thesis using cancel_own_copy_bounded by (simp add: unwind_copy_def)
next
  case False
  then have live: "cl_mode st \<noteq> Some ''paper''" using assms by blast
  obtain u st1 ws where u: "unwind_ledger env shown key s session d verified st = (u, st1, ws)" by (metis prod.exhaust)
  have same: "same_setup st st1" and ks: "\<forall>k \<in> set ws. \<exists>x. k = Ledger_key x"
    using u by (auto simp: unwind_ledger_def same_setup_def split: option.splits if_splits prod.splits)
  have "\<forall>k \<in> set ws. key_allowed st k" using ks live by (auto simp: key_allowed_def)
  moreover have "\<exists>f. unwind_copy env shown key s raw session d verified st = (Inr (), set_row key f st1, ws)"
    using False u by (auto simp: unwind_copy_def record_unwind_def split: option.splits)
  ultimately show ?thesis using same_setup_trans[OF same same_setup_rows(1)] by (auto simp: bounded_run_def)
qed

lemma act_on_signal_bounded: "bounded_run st (act_on_signal env shown key s raw ended session d verified st)"
proof -
  have id: "bounded_run st (Inr (), st, [])" by (simp add: bounded_run_def)
  show ?thesis
  proof (cases "sg_kind s = ''intent''")
    case True
    then show ?thesis using open_copy_bounded by (simp add: act_on_signal_def)
  next
    case False
    note rest = act_on_signal_def if_not_P[OF False]
    consider (quiet) "act_on_signal env shown key s raw ended session d verified st = (Inr (), st, [])"
      | (unwind) "act_on_signal env shown key s raw ended session d verified st = unwind_copy env shown key s raw session d verified st"
        "\<not> (cl_mode st \<noteq> None \<and> sg_kind s = ''closed'')"
        "\<not> (cl_mode st = Some ''paper'' \<and> sg_kind s \<in> set cancel_kinds \<and> \<not> live_copy raw d st)" "sg_kind s \<in> set unwind_kinds"
      unfolding rest by argo
    then show ?thesis
    proof cases
      case quiet
      with id show ?thesis by simp
    next
      case unwind
      have "sg_kind s \<in> set cancel_kinds \<and> legacy_copy raw d st" if "cl_mode st = Some ''paper''"
        using unwind(2-4) that live_is_legacy by (auto simp: unwind_kinds_def)
      then show ?thesis using unwind(1) unwind_copy_bounded by simp
    qed
  qed
qed

lemma receive_signal_bounded: "bounded_run st (receive_signal hs shown ended session d verified env raw s st)"
proof -
  define key where "key = hs_key hs (sg_machine s) (sg_event s)"
  define prev where "prev = find (\<lambda>r. sr_id r = key) (cl_rows st)"
  define st1 where "st1 = st\<lparr>cl_seen := cl_seen st @ [\<lparr>ap_signal = key, ap_received = en_now env, ap_payload = raw,
     ap_conflict = (case prev of Some r \<Rightarrow> sr_digest r \<noteq> hs_digest hs s | None \<Rightarrow> False)\<rparr>]\<rparr>"
  note unf = receive_signal_def Let_def key_def[symmetric] prev_def[symmetric] st1_def[symmetric]
  show ?thesis
  proof (cases prev)
    case (Some x)
    then show ?thesis unfolding unf by (simp add: bounded_run_def st1_def)
  next
    case None
    define st2 where "st2 = st1\<lparr>cl_rows := cl_rows st1 @ [new_signal_row hs key s raw (en_now env)]\<rparr>"
    obtain r st3 ws where act: "act_on_signal env shown key s raw ended session d verified st2 = (r, st3, ws)"
      by (metis prod.exhaust)
    have "same_setup st st2" by (simp add: st1_def st2_def)
    moreover have "bounded_run st2 (r, st3, ws)" using act_on_signal_bounded act by metis
    ultimately have "bounded_run st (r, st3, ws)" by (rule bounded_run_trans)
    then show ?thesis using None act unfolding unf st2_def[symmetric] by (simp add: bounded_run_def)
  qed
qed

lemma receive_all_bounded: "bounded_run st (receive_all hs shown ended session d verified batch st)"
proof (induction batch arbitrary: st)
  case Nil
  then show ?case by (simp add: bounded_run_def)
next
  case (Cons b rest)
  obtain env raw where b: "b = (env, raw)" by (cases b)
  define one where "one = (case parse_signal raw of
              Inl e \<Rightarrow> (Inl e, st, [])
            | Inr s \<Rightarrow> receive_signal hs shown ended session d verified env raw s st)"
  obtain r1 st1 ws where o: "one = (r1, st1, ws)" by (metis prod.exhaust)
  have "bounded_run st one"
    using receive_signal_bounded by (cases "parse_signal raw") (simp_all add: one_def bounded_run_def)
  then have first: "same_setup st st1" "\<forall>k \<in> set ws. key_allowed st k" using o by (simp_all add: bounded_run_def)
  obtain rs st2 ws2 where rest: "receive_all hs shown ended session d verified rest st1 = (rs, st2, ws2)"
    by (metis prod.exhaust)
  from Cons.IH[of st1] rest have "bounded_run st1 (rs, st2, ws2)" by simp
  then have "bounded_run st (rs, st2, ws2)" by (rule bounded_run_trans[OF first(1)])
  then have more: "same_setup st st2" "\<forall>k \<in> set ws2. key_allowed st k" by (simp_all add: bounded_run_def)
  define ans where "ans = (case r1 of Inl e \<Rightarrow> if is_value_error e then Inr (invalid_result raw) else Inl e | Inr x \<Rightarrow> Inr x)"
  have step: "receive_all hs shown ended session d verified (b # rest) st =
    (case ans of Inl e \<Rightarrow> (Inl e, st1, ws) | Inr x \<Rightarrow> (bindE rs (\<lambda>xs. Inr (x # xs)), st2, ws @ ws2))"
    by (simp add: b one_def[symmetric] o ans_def[symmetric] rest split: sum.splits)
  show ?case unfolding step using first more by (cases ans) (auto simp: bounded_run_def)
qed

lemma receive_batch_bounded: "bounded_run st (receive_batch hs shown session d verified batch st)"
  using receive_all_bounded by (auto simp: receive_batch_def bounded_run_def)

lemma receive_batch_law:
  "receive_batch hs shown session d verified batch st = (r, st', ks) \<Longrightarrow> once_law st st' ks"
  using receive_all_law by (auto simp: receive_batch_def split: if_splits)

lemma receive_batch_ledger:
  "receive_batch hs shown session d verified batch st = (r, st', ks) \<Longrightarrow> cl_ledger st \<noteq> None \<Longrightarrow> cl_ledger st' \<noteq> None"
  using receive_batch_bounded[of st hs shown session d verified batch] by (simp add: bounded_run_def same_setup_def)

subsection \<open>Without a session\<close>

lemma unwind_one_unlinked: "snd (snd (unwind_one env shown s t None d v j)) = []"
proof -
  have "\<exists>x. unwind_checks j t s None d v = Inl x" for j by (auto simp: unwind_checks_def Let_def)
  then have "\<exists>x j1. prepare_unwind j t s None d v now = (Inl x, j1)" for j now
    unfolding prepare_unwind_def by (metis (no_types) sum.case(1))
  then show ?thesis
    by (cases rule: unwind_one_cases[of env shown s t None d v j]) auto
qed

lemma unwind_apply_unlinked: "snd (snd (unwind_apply env shown s i None d v j)) = []"
  using unwind_one_unlinked by (auto simp: unwind_apply_def Let_def split_beta split: list.splits)

lemma receive_signal_unlinked: "snd (snd (receive_signal hs shown ended None d v env raw s st)) = []"
proof -
  have o: "snd (snd (open_copy key s raw ended None d v now st)) = []" for key now st
    by (auto simp: open_copy_def Let_def split: sum.splits)
  have "\<exists>e. prepare_own_cancel s raw None d v st = Inl e" for st
    using own_cancel_fresh[of s raw None d v st] by (cases "prepare_own_cancel s raw None d v st") auto
  then have c: "snd (snd (cancel_own_copy key s raw None d v st)) = []" for key st
    by (auto simp: cancel_own_copy_def split: sum.splits)
  have l: "snd (snd (unwind_ledger env shown key s None d v st)) = []" for key st
    using unwind_apply_unlinked[of env shown "unwind_signal_of s" None d v]
    by (auto simp: unwind_ledger_def split: option.splits prod.splits) (metis snd_conv)+
  have u: "snd (snd (unwind_copy env shown key s raw None d v st)) = []" for key st
    using c l[of key st] by (auto simp: unwind_copy_def split: prod.splits option.splits)
  have "snd (snd (act_on_signal env shown key s raw ended None d v st)) = []" for key st
    using o u unfolding act_on_signal_def by auto
  then show ?thesis
    by (auto simp: receive_signal_def Let_def split_beta split: option.splits)
qed

lemma receive_all_unlinked: "snd (snd (receive_all hs shown ended None d v batch st)) = []"
proof (induction batch arbitrary: st)
  case (Cons b rest)
  obtain env raw where b: "b = (env, raw)" by (cases b)
  have "snd (snd (case parse_signal raw of Inl e \<Rightarrow> (Inl e, st, [])
      | Inr s \<Rightarrow> receive_signal hs shown ended None d v env raw s st)) = []"
    using receive_signal_unlinked by (auto split: sum.splits)
  with Cons b show ?case by (auto simp: Let_def split_beta split: sum.splits)
qed simp

lemma receive_batch_unlinked: "snd (snd (receive_batch hs shown None d v batch st)) = []"
  using receive_all_unlinked by (simp add: receive_batch_def)

end
