(* ===== verification/DeskRuns.thy ===== *)
theory DeskRuns
  imports CopyDesk LaneBatches
begin

text \<open>
  What reaches the controller from outside (dashboard/controller.py, capture/automatic.py): wire
  batches and their routing to the configurations, native bridge events, rows of the R01 ledger and
  of the P01 log. Digests, the machine's name and the broker's answers are arguments.
\<close>

record desk_tools =
  dt_hashes :: hashes
  dt_shown :: "request \<Rightarrow> string"
  dt_digest :: "capture_event \<Rightarrow> string"
  dt_sha :: "string list \<Rightarrow> string"
  dt_node :: string

text \<open>The classes the lanes' callers swallow; what the HTTP client and the SDK raise is not among them.\<close>

definition swallowed :: "exn \<Rightarrow> bool" where
  "swallowed e \<longleftrightarrow>
     is_value_error e \<or>
     exn_type e \<in> {''OSError'', ''ConnectionError'', ''TimeoutError'', ''FileNotFoundError'', ''PermissionError'',
       ''KeyError'', ''TypeError'', ''ArithmeticError'', ''ZeroDivisionError'', ''OverflowError'',
       ''InvalidOperation'', ''DivisionByZero''}"

definition arm_lane :: "lane_id \<Rightarrow> string \<Rightarrow> bool \<Rightarrow> int \<Rightarrow> desk \<Rightarrow> desk" where
  "arm_lane i mode armed since =
     set_lane i (\<lambda>st. st\<lparr>cl_mode := Some mode, cl_armed := armed, cl_armed_at := Some since\<rparr>)"

definition lane_receive ::
  "desk_tools \<Rightarrow> lane_id \<Rightarrow> copy_session option \<Rightarrow> string \<Rightarrow> bool \<Rightarrow> (router_env \<times> signal) list \<Rightarrow> desk
    \<Rightarrow> copy_result list desk_run" where
  "lane_receive T i session dest verified batch =
     on_lane i (receive_batch (dt_hashes T) (dt_shown T) session dest verified batch)"

subsection \<open>The feed of source signals\<close>

fun entry_id :: "feed_entry \<Rightarrow> string" where
  "entry_id (Wire_entry i code raw r now) = i"
| "entry_id (Ledger_entry offset row r now) = ''csv:'' @ digits_str offset"

definition push_feed :: "feed_entry \<Rightarrow> feed_entry list \<Rightarrow> feed_entry list" where
  "push_feed e xs = (let ys = xs @ [e] in drop (length ys - 200) ys)"

definition wire_identity :: "signal \<Rightarrow> string" where
  "wire_identity raw = ''signal:'' @ sg_machine raw @ '':'' @ sg_event raw"

definition upper_text :: "string \<Rightarrow> string" where
  "upper_text = map (\<lambda>c. if code_in 97 122 c then char_of ((of_char c :: nat) - 32) else c)"

definition wire_code :: "signal \<Rightarrow> string" where
  "wire_code raw =
     (let name = upper_text (sg_source raw) in
      if name = ''PANEL'' \<and> starts_with ''P01RR_'' (sg_label raw) then ''P01''
      else if contains ''x17-spine'' (lower_text (sg_detail raw)) \<or> name = ''X17'' then ''X17''
      else if name = ''R01'' \<or> starts_with ''R01'' (sg_label raw) then ''R01'' else ''UNKNOWN'')"

definition note_wire :: "int \<Rightarrow> signal \<times> copy_result \<Rightarrow> feed_entry list \<Rightarrow> feed_entry list" where
  "note_wire now x xs =
     (case x of (raw, r) \<Rightarrow>
        if cr_status r = ''invalid'' \<or> wire_identity raw \<in> set (map entry_id xs) \<or> sg_source raw = ''P01_LOG'' then xs
        else push_feed (Wire_entry (wire_identity raw) (wire_code raw) raw r now) xs)"

definition note_batch :: "(router_env \<times> signal) list \<Rightarrow> copy_result list \<Rightarrow> desk \<Rightarrow> desk" where
  "note_batch batch rs d =
     notify_desk (d\<lparr>dk_feed := fold (\<lambda>((env, raw), r). note_wire (en_now env) (raw, r)) (zip batch rs) (dk_feed d)\<rparr>)"

subsection \<open>Wire batches\<close>

definition config_since :: "lane \<Rightarrow> desk \<Rightarrow> desk" where
  "config_since c d =
     (if map_of (dk_since d) (ln_id c) = None then d\<lparr>dk_since := (ln_id c, dk_mode_since d) # dk_since d\<rparr> else d)"

definition since_of :: "lane \<Rightarrow> desk \<Rightarrow> int" where
  "since_of c d = (case map_of (dk_since d) (ln_id c) of Some t \<Rightarrow> t | None \<Rightarrow> dk_mode_since d)"

definition matching_signals :: "lane \<Rightarrow> (router_env \<times> signal) list \<Rightarrow> (router_env \<times> signal) list" where
  "matching_signals c batch = filter (\<lambda>x. lane_matches c (sg_machine (snd x)) (sg_source (snd x))) batch"

definition ready_config :: "lane \<Rightarrow> desk \<Rightarrow> desk" where
  "ready_config c d =
     (let d1 = config_since c (lane_for c d) in arm_lane (Config_lane (ln_id c)) (ln_mode c) True (since_of c d1) d1)"

definition route_one ::
  "desk_tools \<Rightarrow> broker_world \<Rightarrow> (router_env \<times> signal) list \<Rightarrow> lane \<Rightarrow> desk \<Rightarrow> unit desk_run" where
  "route_one T bk batch c d =
     (let subset = matching_signals c batch in
      if \<not> ln_enabled c \<or> subset = [] then (Inr (), d, [])
      else (let d1 = ready_config c d; api = session_for bk (ln_destination c) d1 in
            handled (\<lambda>e. if swallowed e then Some () else None)
              (then_do (lane_receive T (Config_lane (ln_id c)) api (ln_destination c) (api \<noteq> None) subset d1)
                 (\<lambda>_ d2. (Inr (), d2, [])))))"

fun route_each ::
  "desk_tools \<Rightarrow> broker_world \<Rightarrow> (router_env \<times> signal) list \<Rightarrow> lane list \<Rightarrow> desk \<Rightarrow> unit desk_run" where
  "route_each T bk batch [] d = (Inr (), notify_desk d, [])"
| "route_each T bk batch (c # cs) d = then_do (route_one T bk batch c d) (\<lambda>_. route_each T bk batch cs)"

definition route_to_configs :: "desk_tools \<Rightarrow> broker_world \<Rightarrow> (router_env \<times> signal) list \<Rightarrow> desk \<Rightarrow> unit desk_run" where
  "route_to_configs T bk batch d =
     (if dk_running d then route_each T bk batch (dk_configs d) d else (Inr (), d, []))"

text \<open>The main lane follows the master switch and is armed while capture runs.\<close>

definition arm_main :: "desk \<Rightarrow> desk" where
  "arm_main d =
     arm_lane Main_lane (sc_mode (dk_controls d)) (cl_config (dk_lane d Main_lane) \<noteq> None \<and> dk_running d)
       (dk_mode_since d) d"

definition main_receive ::
  "desk_tools \<Rightarrow> broker_world \<Rightarrow> (router_env \<times> signal) list \<Rightarrow> desk \<Rightarrow> copy_result list desk_run" where
  "main_receive T bk batch d =
     lane_receive T Main_lane (primary_api bk d) (dk_selected d) (destination_verified d) batch d"

definition receive_signals ::
  "desk_tools \<Rightarrow> broker_world \<Rightarrow> (router_env \<times> signal) list \<Rightarrow> desk \<Rightarrow> copy_result list desk_run" where
  "receive_signals T bk batch d =
     then_do (main_receive T bk batch (arm_main d)) (\<lambda>rs d1.
     then_do (route_to_configs T bk batch (if dk_running d1 then note_batch batch rs d1 else d1)) (\<lambda>_ d2.
       (Inr rs, d2, [])))"

subsection \<open>Native bridge events\<close>

record auto_reply =
  au_event :: string
  au_trade :: "string option"
  au_status :: string
  au_reason :: string
  au_duplicate :: bool
  au_request :: "request option"

definition reply_of :: "response \<Rightarrow> auto_reply" where
  "reply_of r =
     \<lparr>au_event = rp_event r, au_trade = rp_trade r, au_status = rp_status r, au_reason = rp_reason r,
      au_duplicate = rp_duplicate r, au_request = None\<rparr>"

definition answered :: "string \<Rightarrow> string \<Rightarrow> request option \<Rightarrow> auto_reply \<Rightarrow> auto_reply" where
  "answered status why q r = r\<lparr>au_status := status, au_reason := why, au_request := q\<rparr>"

text \<open>The rows of the main lane that record a request for this machine and label.\<close>

definition bridge_copies :: "capture_event \<Rightarrow> desk \<Rightarrow> signal_row list" where
  "bridge_copies e d =
     (if ev_label e = [] then []
      else filter (\<lambda>r. sr_machine r = ev_machine e \<and> sr_label r = ev_label e \<and> sr_kind r = ''intent'' \<and>
                       sent_to (dk_selected d) r) (cl_rows (dk_lane d Main_lane)))"

definition bridge_cancel :: "desk_tools \<Rightarrow> capture_event \<Rightarrow> signal \<Rightarrow> signal" where
  "bridge_cancel T e raw =
     raw\<lparr>sg_kind := ''cancelled'', sg_time := ev_emitted_at e,
         sg_event := ''bridge-cancel-'' @ dt_sha T (ev_scope e @ [ev_id e])\<rparr>"

definition bridge_unwind :: "capture_event \<Rightarrow> unwind_signal" where
  "bridge_unwind e =
     \<lparr>us_kind = ''cancelled'', us_machine = ev_machine e, us_event = ev_id e, us_label = ev_label e,
      us_symbol = ev_symbol e, us_time = ev_emitted_at e\<rparr>"

definition auto_unwind ::
  "desk_tools \<Rightarrow> router_env \<Rightarrow> broker_world \<Rightarrow> capture_event \<Rightarrow> string \<Rightarrow> desk
    \<Rightarrow> (string \<times> string \<times> request option) desk_run" where
  "auto_unwind T env bk e i d =
     (case unwind_apply env (dt_shown T) (bridge_unwind e) (Some i) (map_option cs_unwind (primary_api bk d))
             (dk_selected d) (destination_verified d) (dk_journal d) of
        (r, j, ws) \<Rightarrow>
          (case r of
             Inl x \<Rightarrow> Inl x
           | Inr None \<Rightarrow> Inl (Exn ''TypeError'' ''no outcome'' None)
           | Inr (Some u) \<Rightarrow> Inr (uo_decision u, uo_reason u, uo_request u),
           d\<lparr>dk_journal := j\<rparr>, map (\<lambda>w. Trade_write (fst w)) ws))"

definition auto_cancel ::
  "desk_tools \<Rightarrow> router_env \<Rightarrow> broker_world \<Rightarrow> capture_event \<Rightarrow> string \<Rightarrow> desk
    \<Rightarrow> (string \<times> string \<times> request option) desk_run" where
  "auto_cancel T env bk e i d =
     (if sc_mode (dk_controls d) \<noteq> ''live''
      then (Inr (''paper'', ''Paper: cancellation recorded; nothing sent'', None), d, [])
      else (case find_trade (dk_journal d) i of
              None \<Rightarrow> (Inl (Exn ''TypeError'' ''no trade'' None), d, [])
            | Some t \<Rightarrow>
                if tr_broker_order_id t = [] \<and> tr_broker_position_id t = [] \<and> bridge_copies e d \<noteq> []
                then (case bridge_copies e d of
                        [c] \<Rightarrow>
                          then_do (receive_signals T bk [(env, bridge_cancel T e (sr_payload c))] d) (\<lambda>rs d1.
                            (case rs of
                               [] \<Rightarrow> Inl (Exn ''IndexError'' ''no result'' None)
                             | r # _ \<Rightarrow>
                                 (case cr_row r of
                                    None \<Rightarrow> Inl (Exn ''KeyError'' ''copy_request'' None)
                                  | Some x \<Rightarrow> Inr (cr_status r, cr_reason r, sr_request x)),
                             d1, []))
                      | _ \<Rightarrow> (Inl (value_error ''More than one signal request shares this label; cancellation is ambiguous''), d, []))
                else auto_unwind T env bk e i d))"

definition create_lots :: "symbol_route \<Rightarrow> capture_event \<Rightarrow> decimal" where
  "create_lots m e = (case sr_fixed_lots m of Some l \<Rightarrow> l | None \<Rightarrow> dmul (ev_quantity e) (sr_multiplier m))"

text \<open>The checks of a bridge order, in order, up to the volume.\<close>

definition create_checks :: "capture_event \<Rightarrow> int \<Rightarrow> desk \<Rightarrow> (route_config \<times> decimal) res" where
  "create_checks e now d =
     (if bridge_copies e d \<noteq> [] then Inl (value_error ''This lifecycle already has a signal request; no second order'')
      else bindE (of_option (value_error ''Save the bridge source, destination and symbol mapping first'')
                    (rt_route (dk_native d))) (\<lambda>route.
           bindE (route_match route e) (\<lambda>m.
             if dk_selected d \<noteq> rc_destination_account route
             then Inl (value_error ''Select the configured destination account'')
             else if ev_snapshot e \<or> ev_emitted_at e < dk_mode_since d \<or>
                     \<not> (-5000000 \<le> now - ev_emitted_at e \<and> now - ev_emitted_at e \<le> 30000000)
             then Inl (value_error ''Old or snapshot trade; no replay'')
             else if sc_mode (dk_controls d) = ''live'' \<and> (\<not> dk_writes d \<or> \<not> destination_verified d)
             then Inl (value_error ''Connect the destination broker account before sending live'')
             else if \<not> (dlt dzero (create_lots m e) \<and> dle (create_lots m e) (sr_max_lots m))
             then Inl (value_error ''Order volume is outside the saved limit'')
             else Inr (route, create_lots m e))))"

definition auto_create ::
  "desk_tools \<Rightarrow> router_env \<Rightarrow> broker_world \<Rightarrow> capture_event \<Rightarrow> string \<Rightarrow> desk
    \<Rightarrow> (string \<times> string \<times> request option) desk_run" where
  "auto_create T env bk e i d =
     (case create_checks e (en_now env) d of
        Inl x \<Rightarrow> (Inl x, d, [])
      | Inr (route, lots) \<Rightarrow>
          (let mode = sc_mode (dk_controls d);
               api = (if mode = ''live'' then primary_api bk d else None) in
           case send env \<lparr>sc_mode = mode, sc_sources = rc_sources route\<rparr> i (Volume lots)
                  (map_option (\<lambda>a. ua_broker (cs_unwind a)) api) (dk_selected d) (Some route) (dk_journal d) of
             (r, j, ws) \<Rightarrow>
               (bindE r (\<lambda>y. Inr (sy_status y, sy_reason y, Some (sy_request y))),
                d\<lparr>dk_journal := j\<rparr>, map (\<lambda>w. Trade_write (fst w)) ws)))"

definition auto_failure :: "exn \<Rightarrow> (string \<times> string \<times> request option) option" where
  "auto_failure x =
     Some (if is_value_error x then (''held'', exn_msg x, None)
           else (''uncertain'', ''Processing interrupted ('' @ exn_type x @ ''); inspect the journal before retrying'', None))"

definition record_auto :: "capture_event \<Rightarrow> auto_reply \<Rightarrow> desk \<Rightarrow> auto_reply desk_run" where
  "record_auto e r d =
     (case find (\<lambda>x. er_key x = event_key e) (j_events (dk_journal d)) of
        None \<Rightarrow> (Inl (Exn ''TypeError'' ''no event row'' None), d, [])
      | Some row \<Rightarrow> (Inr r, d\<lparr>dk_journal := decision (er_seq row) (au_status r) (au_reason r) (dk_journal d)\<rparr>, []))"

definition native_receive :: "desk_tools \<Rightarrow> router_env \<Rightarrow> string \<Rightarrow> capture_event \<Rightarrow> desk \<Rightarrow> response desk_run" where
  "native_receive T env uid e d =
     (case receive env (dt_digest T) uid (dk_native d) None (dk_selected d) e (dk_journal d) of
        (r, j, ws) \<Rightarrow> (r, d\<lparr>dk_journal := j\<rparr>, map (\<lambda>w. Trade_write (fst w)) ws))"

definition auto_receive ::
  "desk_tools \<Rightarrow> router_env \<Rightarrow> broker_world \<Rightarrow> string \<Rightarrow> capture_event \<Rightarrow> desk \<Rightarrow> auto_reply desk_run" where
  "auto_receive T env bk uid e d =
     then_do (native_receive T env uid e d) (\<lambda>r d1.
       let identity = opt_str (rp_trade r) in
       if rp_duplicate r \<or> ev_kind e \<noteq> K_ACCEPTED \<or> ev_action e \<notin> {A_CREATE, A_CANCEL} \<or> identity = []
       then (Inr (reply_of r), d1, [])
       else then_do
         (handled auto_failure
            (if ev_action e = A_CANCEL then auto_cancel T env bk e identity d1 else auto_create T env bk e identity d1))
         (\<lambda>(status, why, q) d2. record_auto e (answered status why q (reply_of r)) d2))"

definition receive_native ::
  "desk_tools \<Rightarrow> router_env \<Rightarrow> broker_world \<Rightarrow> string \<Rightarrow> nat option \<Rightarrow> capture_event \<Rightarrow> desk \<Rightarrow> auto_reply desk_run" where
  "receive_native T env bk uid generation e d =
     (if \<not> dk_running d \<or> (generation \<noteq> None \<and> generation \<noteq> Some (dk_generation d))
      then (Inl (value_error ''Capture is stopped''), d, [])
      else auto_receive T env bk uid e d)"

end
