(* ===== verification/DeskFeeds.thy ===== *)
theory DeskFeeds
  imports DeskRuns
begin

text \<open>
  The two feeds the observer thread reads (dashboard/controller.py): rows of the R01 ledger, which drive
  the R01 lane through episodes, and intents and releases of the P01 log, which drive the main lane.
\<close>

subsection \<open>The R01 lane\<close>

definition r01_signal :: "desk_tools \<Rightarrow> r01_row \<Rightarrow> string \<Rightarrow> string \<Rightarrow> string \<Rightarrow> signal" where
  "r01_signal T row e kind reason =
     \<lparr>sg_event = ''r01-'' @ take 32 (dt_sha T [e, kind, rr_utc row, reason]), sg_machine = dt_node T, sg_source = ''R01'',
      sg_connection = [], sg_account = [], sg_kind = kind, sg_label = e, sg_time = rr_time row, sg_symbol = rr_symbol row,
      sg_side = rr_side row, sg_entry = rr_entry row, sg_stop = rr_stop row, sg_target = rr_target row,
      sg_order_type = [], sg_origin = [], sg_detail = rr_detail row, sg_grade = rr_grade row, sg_stamp = rr_stamp row,
      sg_rfx = rr_rfx row, sg_arm = (case rr_extra row of x # _ \<Rightarrow> x | [] \<Rightarrow> [])\<rparr>"

definition find_episode :: "string \<Rightarrow> episode list \<Rightarrow> episode option" where
  "find_episode label eps = find (\<lambda>e. ep_label e = label) eps"

definition put_episode :: "episode \<Rightarrow> episode list \<Rightarrow> episode list" where
  "put_episode e eps = upsert ep_label (\<lambda>_ new. new) e eps"

definition drop_episode :: "string \<Rightarrow> episode list \<Rightarrow> episode list" where
  "drop_episode label eps = filter (\<lambda>e. ep_label e \<noteq> label) eps"

definition new_episode :: "r01_row \<Rightarrow> episode" where
  "new_episode row =
     \<lparr>ep_label = rr_label row, ep_id = rr_label row @ ''#'' @ rr_utc row, ep_prices = rr_prices row, ep_grade = rr_grade row,
      ep_duplicates = 0\<rparr>"

datatype r01_plan = R01_ignore | R01_answer lane_answer | R01_send "signal list"

text \<open>A row against the episodes: what it does to them, and the signals it sends.\<close>

definition plan_r01_row :: "desk_tools \<Rightarrow> lane \<Rightarrow> r01_row \<Rightarrow> episode list \<Rightarrow> r01_plan \<times> episode list" where
  "plan_r01_row T config row eps =
     (let kind = rr_kind row; current = find_episode (rr_label row) eps; fresh = new_episode row in
      if kind = ''intent''
      then (case current of
              Some c \<Rightarrow>
                if ep_prices c = rr_prices row
                then (R01_answer \<lparr>la_status = ''duplicate'',
                        la_reason = ''Same level already armed for this label (another R01 instance)''\<rparr>,
                      put_episode (c\<lparr>ep_duplicates := Suc (ep_duplicates c)\<rparr>) eps)
                else (R01_send [r01_signal T row (ep_id c) ''cancelled'' ''re-priced by a new intent'',
                                r01_signal T row (ep_id fresh) ''intent'' []], put_episode fresh eps)
            | None \<Rightarrow> (R01_send [r01_signal T row (ep_id fresh) ''intent'' []], put_episode fresh eps))
      else (case current of
              None \<Rightarrow> (R01_ignore, eps)
            | Some c \<Rightarrow>
                if kind = ''cancelled''
                then (R01_send [r01_signal T row (ep_id c) ''cancelled'' (rr_detail row)], drop_episode (rr_label row) eps)
                else if kind = ''modified''
                then (R01_send [r01_signal T row (ep_id c) ''cancelled'' ''modified upstream'',
                                r01_signal T row (ep_id fresh) ''intent'' []], put_episode fresh eps)
                else if ln_grades config \<noteq> [] \<and> rr_grade row \<notin> set (ln_grades config) \<and> ln_retract config
                then (R01_send [r01_signal T row (ep_id c) ''cancelled'' (''retracted on downgrade to '' @ rr_grade row)],
                      drop_episode (rr_label row) eps)
                else (R01_answer \<lparr>la_status = ''observed'', la_reason = ''regrade to '' @ rr_grade row @ ''; copy unchanged''\<rparr>,
                      put_episode (c\<lparr>ep_grade := rr_grade row\<rparr>) eps)))"

definition r01_kinds :: "string list" where
  "r01_kinds = [''intent'', ''cancelled'', ''modified'', ''regrade'']"

definition lane_summary :: "signal list \<Rightarrow> copy_result list \<Rightarrow> lane_answer" where
  "lane_summary signals rs =
     (let final = last rs in
      if length rs = 1 then \<lparr>la_status = cr_status final, la_reason = cr_reason final\<rparr>
      else \<lparr>la_status = cr_status final,
            la_reason = join ''; '' (map (\<lambda>(s, r). sg_kind s @ '' '' @ cr_status r @ '': '' @ cr_reason r) (zip signals rs))\<rparr>)"

definition r01_failure :: "exn \<Rightarrow> lane_answer option" where
  "r01_failure x =
     (if swallowed x then Some \<lparr>la_status = ''uncertain'', la_reason = ''R01 lane processing failed ('' @ exn_type x @ '')''\<rparr>
      else None)"

definition arm_r01 :: "desk \<Rightarrow> desk" where
  "arm_r01 d = arm_lane R01_lane (sc_mode (dk_controls d)) (dk_running d) (dk_mode_since d) d"

definition send_r01 ::
  "desk_tools \<Rightarrow> router_env \<Rightarrow> broker_world \<Rightarrow> signal list \<Rightarrow> desk \<Rightarrow> lane_answer desk_run" where
  "send_r01 T env bk signals d =
     (let (api, dest, verified) = lane_target bk (dk_lane d R01_lane) d in
      handled r01_failure
        (then_do (lane_receive T R01_lane api dest verified (map (\<lambda>s. (env, s)) signals) d)
           (\<lambda>rs d1. (Inr (lane_summary signals rs), d1, []))))"

definition copy_r01_row ::
  "desk_tools \<Rightarrow> router_env \<Rightarrow> broker_world \<Rightarrow> r01_row \<Rightarrow> desk \<Rightarrow> lane_answer option desk_run" where
  "copy_r01_row T env bk row d =
     (case cl_config (dk_lane d R01_lane) of
        None \<Rightarrow> (Inr None, d, [])
      | Some config \<Rightarrow>
          if ln_source config \<noteq> ''R01'' \<or> rr_label row = [] \<or> rr_symbol row = [] \<or> rr_kind row \<notin> set r01_kinds
          then (Inr None, d, [])
          else (let d1 = arm_r01 d; (p, eps) = plan_r01_row T config row (dk_episodes d1); d2 = d1\<lparr>dk_episodes := eps\<rparr> in
                case p of
                  R01_ignore \<Rightarrow> (Inr None, d2, [])
                | R01_answer a \<Rightarrow> (Inr (Some a), d2, [])
                | R01_send signals \<Rightarrow> then_do (send_r01 T env bk signals d2) (\<lambda>a d3. (Inr (Some a), d3, []))))"

text \<open>The row is decided on, then observed: in the shadow journal of the account, or in the feed.\<close>

definition observe_ledger_row ::
  "desk_tools \<Rightarrow> router_env \<Rightarrow> broker_world \<Rightarrow> nat \<Rightarrow> r01_row \<Rightarrow> desk \<Rightarrow> unit desk_run" where
  "observe_ledger_row T env bk offset row d =
     then_do (copy_r01_row T env bk row d) (\<lambda>a d1.
       (Inr (), notify_desk
          (if dk_selected d1 \<noteq> [] then d1\<lparr>dk_shadow := dk_shadow d1 @ [(en_now env, offset, row, a)]\<rparr>
           else d1\<lparr>dk_feed := push_feed (Ledger_entry offset row a (en_now env)) (dk_feed d1)\<rparr>), []))"

definition watch_row ::
  "desk_tools \<Rightarrow> router_env \<Rightarrow> broker_world \<Rightarrow> nat \<Rightarrow> r01_row \<Rightarrow> desk \<Rightarrow> unit desk_run" where
  "watch_row T env bk offset row d =
     (if \<not> dk_running d then (Inr (), d, [])
      else (case observe_ledger_row T env bk offset row d of
              (Inl _, d1, ks) \<Rightarrow> (Inr (), observer_failed d1, ks)
            | (Inr _, d1, ks) \<Rightarrow> (Inr (), d1, ks)))"

subsection \<open>The P01 log\<close>

text \<open>
  A drained row of the log; \<open>pg_signal\<close> is the signal that joins it with the current state file, or the
  failure of that join.
\<close>

record p01_row =
  pg_id :: string
  pg_trade :: string
  pg_action :: string
  pg_emitted :: string
  pg_time :: int
  pg_signal :: "signal res"

fun text_le :: "string \<Rightarrow> string \<Rightarrow> bool" where
  "text_le [] b = True"
| "text_le (x # a) [] = False"
| "text_le (x # a) (y # b) =
     ((of_char x :: nat) < of_char y \<or> x = y \<and> text_le a b)"

definition ended_since :: "p01_row \<Rightarrow> p01_row list \<Rightarrow> bool" where
  "ended_since row recent \<longleftrightarrow>
     (\<exists>e \<in> set recent. pg_action e \<in> {''RELEASE'', ''REMOVE'', ''CLOSE_CANCEL_INTENT''} \<and> text_le (pg_emitted row) (pg_emitted e) \<and>
        (pg_trade e = pg_trade row \<or> pg_action e = ''CLOSE_CANCEL_INTENT''))"

definition p01_held :: "exn \<Rightarrow> lane_answer option" where
  "p01_held x =
     (if swallowed x
      then Some \<lparr>la_status = ''held'', la_reason = ''P01 state unavailable, mismatched or lifecycle ended; no copy''\<rparr>
      else None)"

definition first_answer :: "copy_result list \<Rightarrow> desk \<Rightarrow> lane_answer desk_run" where
  "first_answer rs d =
     (case rs of
        [] \<Rightarrow> Inl (Exn ''IndexError'' ''no result'' None)
      | r # _ \<Rightarrow> Inr \<lparr>la_status = cr_status r, la_reason = cr_reason r\<rparr>, d, [])"

definition copy_p01_row ::
  "desk_tools \<Rightarrow> router_env \<Rightarrow> broker_world \<Rightarrow> p01_row list \<Rightarrow> p01_row \<Rightarrow> desk \<Rightarrow> lane_answer desk_run" where
  "copy_p01_row T env bk recent row d =
     handled p01_held
       (if ended_since row recent
        then (Inl (value_error ''P01 intent already removed or released; no copy''), d, [])
        else (case pg_signal row of
                Inl x \<Rightarrow> (Inl x, d, [])
              | Inr s \<Rightarrow> then_do (main_receive T bk [(env, s)] d) first_answer))"

fun copy_p01_rows ::
  "desk_tools \<Rightarrow> router_env \<Rightarrow> broker_world \<Rightarrow> p01_row list \<Rightarrow> p01_row list \<Rightarrow> desk \<Rightarrow> unit desk_run" where
  "copy_p01_rows T env bk recent [] d = (Inr (), d, [])"
| "copy_p01_rows T env bk recent (r # rows) d =
     then_do (copy_p01_row T env bk recent r d) (\<lambda>_. copy_p01_rows T env bk recent rows)"

definition copy_p01_intents ::
  "desk_tools \<Rightarrow> router_env \<Rightarrow> broker_world \<Rightarrow> p01_row list \<Rightarrow> p01_row list \<Rightarrow> desk \<Rightarrow> unit desk_run" where
  "copy_p01_intents T env bk recent rows d =
     (if cl_config (dk_lane d Main_lane) = None \<or> \<not> dk_p01_log d then (Inr (), d, [])
      else if \<not> dk_running d then (Inr (), arm_main d, [])
      else copy_p01_rows T env bk recent rows (arm_main d))"

definition p01_row_of :: "desk_tools \<Rightarrow> string \<Rightarrow> string \<Rightarrow> desk \<Rightarrow> signal_row \<Rightarrow> bool" where
  "p01_row_of T kind label d r \<longleftrightarrow>
     sr_machine r = dt_node T \<and> sr_source r = ''P01_LOG'' \<and> sr_kind r = kind \<and> sr_label r = label \<and> sent_to (dk_selected d) r"

definition p01_live_labels :: "desk_tools \<Rightarrow> desk \<Rightarrow> string list" where
  "p01_live_labels T d =
     (let rows = cl_rows (dk_lane d Main_lane);
          labels = map sr_label (filter (\<lambda>r. p01_row_of T ''intent'' (sr_label r) d r) rows)
      in rev (remdups (rev (filter (\<lambda>l. \<not> list_ex (p01_row_of T ''cancelled'' l d) rows) labels))))"

definition p01_cancel :: "desk_tools \<Rightarrow> p01_row \<Rightarrow> string \<Rightarrow> signal \<Rightarrow> signal" where
  "p01_cancel T row label raw =
     raw\<lparr>sg_kind := ''cancelled'', sg_time := pg_time row,
         sg_event := ''p01-cancel-'' @ dt_sha T [label, pg_emitted row, pg_id row]\<rparr>"

definition p01_uncertain :: "exn \<Rightarrow> lane_answer option" where
  "p01_uncertain x =
     (if swallowed x then Some \<lparr>la_status = ''uncertain'', la_reason = ''Cancel processing failed ('' @ exn_type x @ '')''\<rparr>
      else None)"

definition release_label ::
  "desk_tools \<Rightarrow> router_env \<Rightarrow> broker_world \<Rightarrow> p01_row \<Rightarrow> string \<Rightarrow> desk \<Rightarrow> lane_answer option desk_run" where
  "release_label T env bk row label d =
     (case rev (filter (p01_row_of T ''intent'' label d) (cl_rows (dk_lane d Main_lane))) of
        [] \<Rightarrow> (Inr None, d, [])
      | sent # _ \<Rightarrow>
          then_do
            (handled p01_uncertain
               (then_do (main_receive T bk [(env, p01_cancel T row label (sr_payload sent))] d) first_answer))
            (\<lambda>a d1. (Inr (Some a), d1, [])))"

fun release_labels ::
  "desk_tools \<Rightarrow> router_env \<Rightarrow> broker_world \<Rightarrow> p01_row \<Rightarrow> string list \<Rightarrow> desk \<Rightarrow> unit desk_run" where
  "release_labels T env bk row [] d = (Inr (), d, [])"
| "release_labels T env bk row (l # ls) d =
     then_do (release_label T env bk row l d) (\<lambda>_. release_labels T env bk row ls)"

fun release_rows ::
  "desk_tools \<Rightarrow> router_env \<Rightarrow> broker_world \<Rightarrow> p01_row list \<Rightarrow> desk \<Rightarrow> unit desk_run" where
  "release_rows T env bk [] d = (Inr (), d, [])"
| "release_rows T env bk (r # rows) d =
     then_do (release_labels T env bk r (if pg_trade r \<noteq> [] then [pg_trade r] else p01_live_labels T d) d)
       (\<lambda>_. release_rows T env bk rows)"

definition unwind_p01_releases ::
  "desk_tools \<Rightarrow> router_env \<Rightarrow> broker_world \<Rightarrow> p01_row list \<Rightarrow> desk \<Rightarrow> unit desk_run" where
  "unwind_p01_releases T env bk rows d =
     (if rows = [] \<or> cl_config (dk_lane d Main_lane) = None \<or> \<not> dk_p01_log d then (Inr (), d, [])
      else release_rows T env bk rows
             (set_lane Main_lane (\<lambda>st. st\<lparr>cl_mode := Some (sc_mode (dk_controls d))\<rparr>) d))"

text \<open>One turn of the observer on the P01 log; a failure that is not swallowed stops it.\<close>

definition watch_p01 ::
  "desk_tools \<Rightarrow> router_env \<Rightarrow> broker_world \<Rightarrow> p01_row list \<Rightarrow> p01_row list \<Rightarrow> p01_row list \<Rightarrow> desk \<Rightarrow> unit desk_run" where
  "watch_p01 T env bk recent intents releases d =
     (if \<not> dk_running d then (Inr (), d, [])
      else (case then_do (copy_p01_intents T env bk recent intents d) (\<lambda>_. unwind_p01_releases T env bk releases) of
              (Inl _, d1, ks) \<Rightarrow> (Inr (), observer_failed d1, ks)
            | (Inr _, d1, ks) \<Rightarrow> (Inr (), notify_desk d1, ks)))"

end
