(* ===== verification/DeskProps.thy ===== *)
theory DeskProps
  imports DeskFeeds
begin

text \<open>
  The controller's operations as one step function, the claims and switches every operation respects,
  and what follows for whole runs: each write at most once over every lane and path, none in paper but
  cancels, no opening while capture is stopped.
\<close>

subsection \<open>Operations\<close>

datatype desk_op =
    Op_wire "(router_env \<times> signal) list"
  | Op_native router_env string "nat option" capture_event
  | Op_row router_env nat r01_row
  | Op_p01 router_env "p01_row list" "p01_row list" "p01_row list"
  | Op_send router_env string volume_arg
  | Op_connect string login
  | Op_refresh login
  | Op_start "string option" "exn option"
  | Op_stop
  | Op_orders
  | Op_positions int
  | Op_reconcile int
  | Op_copying bool
  | Op_route route_config nat
  | Op_signals signal_settings
  | Op_r01 signal_settings
  | Op_symbols symbol_map
  | Op_signal_copying bool int
  | Op_controls send_controls int
  | Op_config lane int
  | Op_config_state string "string option" "bool option" int
  | Op_config_delete string
  | Op_profiles "(string \<times> string option) list"
  | Op_restart string int "string list" string

definition quiet_step :: "desk res \<Rightarrow> desk \<Rightarrow> unit desk_run" where
  "quiet_step r d = (case r of Inr d' \<Rightarrow> (Inr (), d', []) | Inl e \<Rightarrow> (Inl e, d, []))"

definition configure_desk_symbols :: "symbol_map \<Rightarrow> desk \<Rightarrow> unit desk_run" where
  "configure_desk_symbols m =
     on_lane Main_lane (\<lambda>st. case configure_symbols m st of Inl e \<Rightarrow> (Inl e, st, []) | Inr st' \<Rightarrow> (Inr (), st', []))"

text \<open>
  A new process over the same data: nothing is connected, armed or live, the lanes are reopened, the
  records stay.
\<close>

definition restart_desk :: "string \<Rightarrow> int \<Rightarrow> string list \<Rightarrow> string \<Rightarrow> desk \<Rightarrow> desk res" where
  "restart_desk broker now accounts account d =
     bindE (open_store broker now (dk_journal d)) (\<lambda>j.
       let lanes = (dk_lane d)(Main_lane := open_lane (dk_lane d Main_lane), R01_lane := open_lane (dk_lane d R01_lane))
       in Inr (d\<lparr>dk_running := False, dk_generation := 0, dk_selected := account, dk_accounts := accounts,
                 dk_session := None, dk_connection := ''disconnected'', dk_profiles := [], dk_orders := None,
                 dk_positions := None,
                 dk_native := (dk_native d)\<lparr>rt_armed := False, rt_armed_at := None, rt_demo_verified := False\<rparr>,
                 dk_journal := j, dk_lane := lanes, dk_open := [], dk_episodes := [], dk_since := [],
                 dk_controls := load_controls (dk_controls d), dk_mode_since := now, dk_feed := []\<rparr>))"

definition no_answer :: "'r desk_run \<Rightarrow> unit desk_run" where
  "no_answer m = then_do m (\<lambda>_ d. (Inr (), d, []))"

fun desk_do :: "desk_tools \<Rightarrow> broker_world \<Rightarrow> desk_op \<Rightarrow> desk \<Rightarrow> unit desk_run" where
  "desk_do T bk (Op_wire batch) d = no_answer (receive_signals T bk batch d)"
| "desk_do T bk (Op_native env uid generation e) d = no_answer (receive_native T env bk uid generation e d)"
| "desk_do T bk (Op_row env offset row) d = watch_row T env bk offset row d"
| "desk_do T bk (Op_p01 env recent intents releases) d = watch_p01 T env bk recent intents releases d"
| "desk_do T bk (Op_send env i volume) d = no_answer (send_trade env bk i volume d)"
| "desk_do T bk (Op_connect a answer) d = quiet_step (connect a answer d) d"
| "desk_do T bk (Op_refresh answer) d = quiet_step (refresh_session answer d) d"
| "desk_do T bk (Op_start a fault) d = start a fault d"
| "desk_do T bk Op_stop d = (Inr (), stop_capture d, [])"
| "desk_do T bk Op_orders d = refresh_orders bk d"
| "desk_do T bk (Op_positions now) d = refresh_positions bk now d"
| "desk_do T bk (Op_reconcile now) d = watch_reconcile bk now d"
| "desk_do T bk (Op_copying enabled) d = quiet_step (set_copying enabled d) d"
| "desk_do T bk (Op_route route limit) d = quiet_step (configure_copying route limit d) d"
| "desk_do T bk (Op_signals v) d = configure_signals v d"
| "desk_do T bk (Op_r01 v) d = configure_r01 v d"
| "desk_do T bk (Op_symbols m) d = configure_desk_symbols m d"
| "desk_do T bk (Op_signal_copying enabled now) d = quiet_step (set_signal_copying enabled now d) d"
| "desk_do T bk (Op_controls v now) d = (Inr (), configure_copy_controls v now d, [])"
| "desk_do T bk (Op_config c now) d = quiet_step (configure_copy_config c now d) d"
| "desk_do T bk (Op_config_state i mode enabled now) d = quiet_step (set_copy_config_state i mode enabled now d) d"
| "desk_do T bk (Op_config_delete i) d = quiet_step (delete_copy_config i d) d"
| "desk_do T bk (Op_profiles ps) d = (Inr (), d\<lparr>dk_profiles := ps\<rparr>, [])"
| "desk_do T bk (Op_restart broker now accounts account) d = quiet_step (restart_desk broker now accounts account d) d"

definition desk_step :: "desk_tools \<Rightarrow> broker_world \<times> desk_op \<Rightarrow> desk \<Rightarrow> desk \<times> desk_key list" where
  "desk_step T x d = snd (desk_do T (fst x) (snd x) d)"

subsection \<open>Switches and allowed writes\<close>

text \<open>
  The switches a write depends on: an opening needs running capture and a live switch, the master's for
  the main and R01 lanes and its own for a configuration; a write of the ledger needs the master switch
  live, or running capture and a live configuration. Every write needs a session.
\<close>

definition same_switches :: "desk \<Rightarrow> desk \<Rightarrow> bool" where
  "same_switches d d' \<longleftrightarrow>
     dk_running d' = dk_running d \<and> dk_controls d' = dk_controls d \<and> dk_configs d' = dk_configs d \<and>
     rt_armed (dk_native d') = rt_armed (dk_native d) \<and> dk_session d' = dk_session d \<and> dk_profiles d' = dk_profiles d"

definition connected :: "desk \<Rightarrow> bool" where
  "connected d \<longleftrightarrow> dk_session d \<noteq> None \<or> (\<exists>p \<in> set (dk_profiles d). snd p \<noteq> None)"

definition master_live :: "desk \<Rightarrow> bool" where
  "master_live d \<longleftrightarrow> sc_mode (dk_controls d) \<noteq> ''paper''"

definition config_live :: "desk \<Rightarrow> string \<Rightarrow> bool" where
  "config_live d i \<longleftrightarrow> (\<exists>c \<in> set (dk_configs d). ln_id c = i \<and> ln_enabled c \<and> ln_mode c \<noteq> ''paper'')"

fun lane_live :: "desk \<Rightarrow> lane_id \<Rightarrow> bool" where
  "lane_live d Main_lane = master_live d"
| "lane_live d R01_lane = master_live d"
| "lane_live d (Config_lane i) = config_live d i"

fun write_allowed :: "desk \<Rightarrow> desk_key \<Rightarrow> bool" where
  "write_allowed d (Lane_open i sc a) \<longleftrightarrow> connected d \<and> dk_running d \<and> lane_live d i"
| "write_allowed d (Lane_cancel i sc a) \<longleftrightarrow> connected d"
| "write_allowed d (Trade_write k) \<longleftrightarrow> connected d \<and> (master_live d \<or> dk_running d \<and> (\<exists>i. config_live d i))"

definition sound :: "desk \<Rightarrow> 'r desk_run \<Rightarrow> bool" where
  "sound d m \<longleftrightarrow>
     lawful desk_claimed d m \<and> same_switches d (fst (snd m)) \<and> (\<forall>k \<in> set (snd (snd m)). write_allowed d k)"

lemma same_switches_refl [simp]: "same_switches d d"
  by (simp add: same_switches_def)

lemma same_switches_trans: "same_switches a b \<Longrightarrow> same_switches b c \<Longrightarrow> same_switches a c"
  by (simp add: same_switches_def)

lemma live_same:
  "same_switches d d' \<Longrightarrow> master_live d' = master_live d \<and> config_live d' i = config_live d i \<and> connected d' = connected d"
  by (simp add: same_switches_def master_live_def config_live_def connected_def)

lemma lane_live_same: "same_switches d d' \<Longrightarrow> lane_live d' i = lane_live d i"
  by (cases i) (simp_all add: same_switches_def master_live_def config_live_def)

lemma write_allowed_same: "same_switches d d' \<Longrightarrow> write_allowed d' k = write_allowed d k"
  using lane_live_same[of d d'] live_same[of d d'] by (cases k) (auto simp: same_switches_def)

lemma sound_then:
  assumes "sound d m" "\<And>x d1. fst m = Inr x \<Longrightarrow> fst (snd m) = d1 \<Longrightarrow> sound d1 (f x d1)"
  shows "sound d (then_do m f)"
proof -
  obtain r d1 ks where m: "m = (r, d1, ks)" by (metis prod.exhaust)
  have law: "lawful desk_claimed d (then_do m f)"
    by (rule lawful_then) (use assms in \<open>auto simp: sound_def\<close>)
  show ?thesis
  proof (cases r)
    case (Inl e)
    with assms(1) m law show ?thesis by (simp add: sound_def then_do_def)
  next
    case (Inr x)
    obtain q d2 ks2 where f: "f x d1 = (q, d2, ks2)" by (metis prod.exhaust)
    have one: "same_switches d d1" "\<forall>k \<in> set ks. write_allowed d k" using assms(1) m by (simp_all add: sound_def)
    have two: "same_switches d1 d2" "\<forall>k \<in> set ks2. write_allowed d1 k"
      using assms(2)[of x d1] m Inr f by (simp_all add: sound_def)
    have "same_switches d d2" using one two same_switches_trans by blast
    moreover have "\<forall>k \<in> set ks2. write_allowed d k" using two(2) write_allowed_same[OF one(1)] by blast
    ultimately show ?thesis using m Inr f one law by (auto simp: sound_def then_do_def)
  qed
qed

lemma sound_handled [simp]: "sound d (handled h m) = sound d m"
  by (cases m; cases "fst m") (auto simp: sound_def handled_def lawful_def)

lemma sound_still: "same_record d d' \<Longrightarrow> same_switches d d' \<Longrightarrow> sound d (r, d', [])"
  by (simp add: sound_def lawful_same same_record_claims)

lemma sound_refl [simp]: "sound d (r, d, [])"
  by (simp add: sound_def)

lemma sound_from:
  assumes "same_record d d1" "same_switches d d1" "sound d1 m"
  shows "sound d m"
proof -
  have "lawful desk_claimed d m"
    using assms(1,3) lawful_from[of desk_claimed d1 d m] same_record_claims by (auto simp: sound_def)
  then show ?thesis
    using assms(2,3) same_switches_trans write_allowed_same[OF assms(2)] by (auto simp: sound_def)
qed

lemma sound_if: "(b \<Longrightarrow> sound d x) \<Longrightarrow> (\<not> b \<Longrightarrow> sound d y) \<Longrightarrow> sound d (if b then x else y)"
  by simp

subsection \<open>Each part is sound\<close>

lemma switches_set_lane [simp]: "same_switches d (set_lane i f d)"
  by (simp add: same_switches_def set_lane_def)

lemma record_arm_lane [simp]: "same_record d (arm_lane i mode armed since d)"
  unfolding arm_lane_def by (rule same_record_set_rows) simp

lemma switches_arm_lane [simp]: "same_switches d (arm_lane i mode armed since d)"
  by (simp add: arm_lane_def)

lemma record_notify [simp]: "same_record d (notify_desk d)"
  by (rule same_record_rows) (simp_all add: notify_desk_def notify_stream_def)

lemma switches_notify [simp]: "same_switches d (notify_desk d)"
  by (simp add: same_switches_def notify_desk_def)

lemma record_lane_for [simp]: "same_record d (lane_for c d)"
proof -
  let ?i = "Config_lane (ln_id c)"
  let ?d1 = "if ln_id c \<in> set (dk_open d) then d else (set_lane ?i open_lane d)\<lparr>dk_open := ln_id c # dk_open d\<rparr>"
  have "same_record d (set_lane ?i open_lane d)"
    by (rule same_record_set_lane) (rule open_lane_claims)
  moreover have "same_record (set_lane ?i open_lane d) ((set_lane ?i open_lane d)\<lparr>dk_open := ln_id c # dk_open d\<rparr>)"
    by (rule same_record_rows) simp_all
  ultimately have "same_record d ?d1" by (auto intro: same_record_trans)
  moreover have "same_record ?d1 (set_lane ?i (\<lambda>st. st\<lparr>cl_config := Some c\<rparr>) ?d1)"
    by (rule same_record_set_rows) simp
  ultimately show ?thesis unfolding lane_for_def Let_def by (rule same_record_trans)
qed

lemma switches_lane_for [simp]: "same_switches d (lane_for c d)"
  by (simp add: same_switches_def lane_for_def set_lane_def Let_def)

lemma same_config_since [simp]: "same_record d (config_since c d)" "same_switches d (config_since c d)"
  by (auto simp: config_since_def same_switches_def intro: same_record_rows)

lemma same_ready_config [simp]: "same_record d (ready_config c d)" "same_switches d (ready_config c d)"
proof -
  let ?d1 = "config_since c (lane_for c d)"
  have "same_record d ?d1" "same_switches d ?d1"
    using same_record_trans[OF record_lane_for same_config_since(1)]
      same_switches_trans[OF switches_lane_for same_config_since(2)] by blast+
  moreover have "same_record ?d1 (ready_config c d)" "same_switches ?d1 (ready_config c d)"
    by (simp_all add: ready_config_def Let_def)
  ultimately show "same_record d (ready_config c d)" "same_switches d (ready_config c d)"
    using same_record_trans same_switches_trans by blast+
qed

lemma lane_receive_sound:
  assumes "cl_armed (dk_lane d i) \<and> cl_mode (dk_lane d i) \<noteq> Some ''paper'' \<Longrightarrow> dk_running d"
    "cl_mode (dk_lane d i) \<noteq> Some ''paper'' \<Longrightarrow> lane_live d i \<and> (master_live d \<or> dk_running d)"
    "session \<noteq> None \<Longrightarrow> connected d"
  shows "sound d (lane_receive T i session dest verified batch d)"
proof -
  define f :: "copy_lane \<Rightarrow> copy_result list res \<times> copy_lane \<times> copy_key list"
    where "f = receive_batch (dt_hashes T) (dt_shown T) session dest verified batch"
  obtain r st ks where run: "f (lent i d) = (r, st, ks)" by (metis prod.exhaust)
  have "lawful desk_claimed d (on_lane i f d)"
    by (rule on_lane_lawful) (auto simp: f_def dest: receive_batch_law receive_batch_ledger)
  moreover have "\<forall>k \<in> set ks. write_allowed d (key_on i k)"
  proof
    fix k assume k: "k \<in> set ks"
    then have "key_allowed (lent i d) k"
      using receive_batch_bounded[of "lent i d" "dt_hashes T" "dt_shown T" session dest verified batch] run
      by (simp add: f_def bounded_run_def)
    moreover have "connected d"
    proof (rule assms(3))
      show "session \<noteq> None"
        using k receive_batch_unlinked[of "dt_hashes T" "dt_shown T" dest verified batch "lent i d"] run
        unfolding f_def by (cases session) auto
    qed
    ultimately show "write_allowed d (key_on i k)" using assms(1,2) by (cases k; cases i) (auto simp: key_allowed_def lent_def)
  qed
  moreover have "same_switches d (returned i st d)" by (simp add: same_switches_def returned_def)
  ultimately show ?thesis using run by (simp add: lane_receive_def f_def[symmetric] sound_def on_lane_def)
qed

lemma session_connected:
  "primary_api bk d \<noteq> None \<Longrightarrow> connected d" "session_for bk a d \<noteq> None \<Longrightarrow> connected d"
  by (auto simp: primary_api_def session_for_def connected_def split: if_splits)

lemma main_receive_sound:
  assumes "cl_armed (dk_lane d Main_lane) \<Longrightarrow> dk_running d"
    "cl_mode (dk_lane d Main_lane) = Some (sc_mode (dk_controls d))"
  shows "sound d (main_receive T bk batch d)"
  unfolding main_receive_def
  by (rule lane_receive_sound) (use assms session_connected(1) in \<open>auto simp: master_live_def\<close>)

lemma same_arm_main [simp]: "same_record d (arm_main d)" "same_switches d (arm_main d)"
  by (simp_all add: arm_main_def)

lemma arm_main_lane [simp]:
  "cl_armed (dk_lane (arm_main d) Main_lane) = (cl_config (dk_lane d Main_lane) \<noteq> None \<and> dk_running d)"
  "cl_mode (dk_lane (arm_main d) Main_lane) = Some (sc_mode (dk_controls d))"
  "dk_running (arm_main d) = dk_running d" "dk_controls (arm_main d) = dk_controls d"
  by (simp_all add: arm_main_def arm_lane_def set_lane_def)

lemma armed_receive_sound: "sound d (main_receive T bk batch (arm_main d))"
  by (rule sound_from[of d "arm_main d"], simp, simp, rule main_receive_sound) simp_all

lemma ready_config_lane:
  "cl_mode (dk_lane (ready_config c d) (Config_lane (ln_id c))) = Some (ln_mode c)"
  by (simp add: ready_config_def Let_def arm_lane_def set_lane_def)

lemma route_one_sound:
  assumes "dk_running d" "c \<in> set (dk_configs d)"
  shows "sound d (route_one T bk batch c d)"
proof -
  have same: "same_switches d (ready_config c d)" by simp
  let ?d1 = "ready_config c d"
  have "sound ?d1 (lane_receive T (Config_lane (ln_id c)) (session_for bk a ?d1) dest v b ?d1)"
    if "ln_enabled c" for a dest v b
  proof (rule lane_receive_sound)
    show run: "dk_running ?d1" using same assms(1) by (simp add: same_switches_def)
    assume "cl_mode (dk_lane ?d1 (Config_lane (ln_id c))) \<noteq> Some ''paper''"
    then have "lane_live d (Config_lane (ln_id c))"
      using assms(2) that by (auto simp: ready_config_lane config_live_def)
    then show "lane_live ?d1 (Config_lane (ln_id c)) \<and> (master_live ?d1 \<or> dk_running ?d1)"
      using lane_live_same[OF same] run by blast
  qed (rule session_connected(2))
  then have "ln_enabled c \<Longrightarrow> sound d (lane_receive T (Config_lane (ln_id c)) (session_for bk a ?d1) dest v b ?d1)" for a dest v b
    by (intro sound_from[of d ?d1]) simp_all
  then show ?thesis unfolding route_one_def Let_def by (auto intro!: sound_then)
qed

lemma route_each_sound:
  "dk_running d \<Longrightarrow> set cs \<subseteq> set (dk_configs d) \<Longrightarrow> sound d (route_each T bk batch cs d)"
proof (induction cs arbitrary: d)
  case Nil
  then show ?case by (simp add: sound_still)
next
  case (Cons c cs)
  have one: "sound d (route_one T bk batch c d)" using Cons.prems by (intro route_one_sound) simp_all
  have "sound (fst (snd (route_one T bk batch c d))) (route_each T bk batch cs (fst (snd (route_one T bk batch c d))))"
    by (rule Cons.IH) (use Cons.prems one in \<open>simp_all add: sound_def same_switches_def\<close>)
  with one show ?case by (auto intro: sound_then)
qed

lemma route_to_configs_sound: "sound d (route_to_configs T bk batch d)"
  by (simp add: route_to_configs_def route_each_sound)

lemma same_note_batch [simp]: "same_record d (note_batch batch rs d)" "same_switches d (note_batch batch rs d)"
  by (auto simp: note_batch_def notify_desk_def notify_stream_def same_switches_def intro!: same_record_rows)

lemma receive_signals_sound: "sound d (receive_signals T bk batch d)"
proof -
  have "sound d1 (then_do (route_to_configs T bk batch (if b then note_batch batch rs d1 else d1)) (\<lambda>_ d2. (Inr rs, d2, [])))"
    for d1 rs b
    by (intro sound_then) (auto intro: sound_from[OF same_note_batch route_to_configs_sound] route_to_configs_sound)
  then show ?thesis unfolding receive_signals_def by (intro sound_then[OF armed_receive_sound])
qed

lemma journal_sound:
  assumes "\<And>k. (attempt_claimed j' k \<longleftrightarrow> attempt_claimed (dk_journal d) k \<or> k \<in> set (map fst ws)) \<and>
      (k \<in> set (map fst ws) \<longrightarrow> \<not> attempt_claimed (dk_journal d) k) \<and> distinct (map fst ws)"
    "ws \<noteq> [] \<Longrightarrow> connected d \<and> master_live d"
  shows "sound d (r, d\<lparr>dk_journal := j'\<rparr>, map (\<lambda>w. Trade_write (fst w)) ws)"
proof -
  have one: "write_allowed d (Trade_write x)" if "ws \<noteq> []" for x
    using assms(2)[OF that] by simp
  have "\<forall>k \<in> set (map (\<lambda>w. Trade_write (fst w)) ws). write_allowed d k"
  proof
    fix k assume "k \<in> set (map (\<lambda>w. Trade_write (fst w)) ws)"
    then have "ws \<noteq> []" "k \<in> Trade_write ` set (map fst ws)" by (auto simp: image_image)
    with one show "write_allowed d k" by blast
  qed
  then show ?thesis using journal_lawful[OF assms(1)] by (simp add: sound_def same_switches_def)
qed

lemma quiet_journal_sound:
  "j_attempts j' = j_attempts (dk_journal d) \<Longrightarrow> sound d (r, d\<lparr>dk_journal := j'\<rparr>, [])"
  by (rule sound_still) (simp_all add: same_record_rows same_switches_def)

text \<open>The native router is given no connection, so that it records and answers but writes nothing.\<close>

lemma unlinked_router_silent:
  assumes "receive env digest uid rt None destination e j = (r, j', ws)"
  shows "ws = []"
proof (rule ccontr)
  assume "ws \<noteq> []"
  then obtain w where w: "w \<in> set ws" by (cases ws) auto
  obtain row :: event_row and j1 res j2 where "dispatch env rt None destination (er_trade row) e j1 = (res, j2, ws)"
    by (rule receive_writes[OF assms w])
  moreover have "\<exists>x. preflight rt (en_now env) None destination (er_trade row) e j1 = Inl x"
    by (cases "preflight rt (en_now env) None destination (er_trade row) e j1")
       (auto simp: preflight_def bindE_Inr err_simps)
  ultimately show False using \<open>ws \<noteq> []\<close> by (auto simp: dispatch_def)
qed

lemma native_receive_sound: "sound d (native_receive T env uid e d)"
proof -
  obtain r j ws where run: "receive env (dt_digest T) uid (dk_native d) None (dk_selected d) e (dk_journal d) = (r, j, ws)"
    by (metis prod.exhaust)
  have "sound d (r, d\<lparr>dk_journal := j\<rparr>, map (\<lambda>w. Trade_write (fst w)) ws)"
    using receive_claimed[OF run] unlinked_router_silent[OF run] by (intro journal_sound) auto
  then show ?thesis using run by (simp add: native_receive_def)
qed

lemma auto_unwind_sound:
  assumes "master_live d"
  shows "sound d (auto_unwind T env bk e i d)"
proof -
  obtain r j ws where run: "unwind_apply env (dt_shown T) (bridge_unwind e) (Some i) (map_option cs_unwind (primary_api bk d))
             (dk_selected d) (destination_verified d) (dk_journal d) = (r, j, ws)" by (metis prod.exhaust)
  have "primary_api bk d = None \<Longrightarrow> ws = []"
    using unwind_apply_unlinked[of env "dt_shown T" "bridge_unwind e" "Some i" "dk_selected d" "destination_verified d" "dk_journal d"] run
    by simp
  then have "sound d (x, d\<lparr>dk_journal := j\<rparr>, map (\<lambda>w. Trade_write (fst w)) ws)" for x
    using unwind_apply_claimed[OF run] assms session_connected(1)[of bk d] by (intro journal_sound) auto
  then show ?thesis using run by (simp add: auto_unwind_def)
qed

lemma auto_cancel_sound: "sound d (auto_cancel T env bk e i d)"
proof (cases "sc_mode (dk_controls d) = ''live''")
  case False
  then show ?thesis by (simp add: auto_cancel_def)
next
  case True
  then have "master_live d" by (simp add: master_live_def)
  then have "sound d (auto_unwind T env bk e i d)" by (rule auto_unwind_sound)
  moreover have "sound d (then_do (receive_signals T bk b d) (\<lambda>rs d1. (g rs, d1, [])))" for b g
    by (rule sound_then[OF receive_signals_sound]) simp
  ultimately show ?thesis
    using True by (auto simp: auto_cancel_def split: option.splits list.splits)
qed

lemma send_paper_silent: "sc_mode controls = ''paper'' \<Longrightarrow> send env controls i v api dest route j = (r, j', ws) \<Longrightarrow> ws = []"
  by (auto simp: send_def Let_def split: sum.splits prod.splits)

lemma send_unlinked: "send env controls i v None dest route j = (r, j', ws) \<Longrightarrow> ws = []"
  by (auto simp: send_def Let_def split: sum.splits prod.splits if_splits)

lemma send_sound:
  assumes "send env controls i v api dest route (dk_journal d) = (r, j, ws)" "sc_mode controls = sc_mode (dk_controls d)"
    "api \<noteq> None \<Longrightarrow> connected d"
  shows "sound d (x, d\<lparr>dk_journal := j\<rparr>, map (\<lambda>w. Trade_write (fst w)) ws)"
proof (rule journal_sound)
  assume ws: "ws \<noteq> []"
  have "api \<noteq> None"
  proof
    assume "api = None"
    with assms(1) have "send env controls i v None dest route (dk_journal d) = (r, j, ws)" by simp
    from send_unlinked[OF this] ws show False by simp
  qed
  with ws show "connected d \<and> master_live d"
    using send_paper_silent[OF _ assms(1)] assms(2,3) by (auto simp: master_live_def)
qed (use send_claimed[OF assms(1)] in blast)

lemma auto_create_sound: "sound d (auto_create T env bk e i d)"
proof (cases "create_checks e (en_now env) d")
  case (Inl x)
  then show ?thesis by (simp add: auto_create_def)
next
  case (Inr y)
  obtain route lots where y: "y = (route, lots)" by (cases y)
  define api where "api = (if sc_mode (dk_controls d) = ''live'' then primary_api bk d else None)"
  obtain r j ws where run: "send env \<lparr>sc_mode = sc_mode (dk_controls d), sc_sources = rc_sources route\<rparr> i (Volume lots)
      (map_option (\<lambda>a. ua_broker (cs_unwind a)) api) (dk_selected d) (Some route) (dk_journal d) = (r, j, ws)"
    by (metis prod.exhaust)
  have "map_option (\<lambda>a. ua_broker (cs_unwind a)) api \<noteq> None \<Longrightarrow> connected d"
    using session_connected(1)[of bk d] by (auto simp: api_def split: if_splits)
  from send_sound[OF run _ this, of "bindE r (\<lambda>y. Inr (sy_status y, sy_reason y, Some (sy_request y)))"]
  show ?thesis using Inr y run by (simp add: auto_create_def Let_def api_def)
qed

lemma record_auto_sound: "sound d (record_auto e r d)"
  by (auto simp: record_auto_def quiet_journal_sound split: option.splits)

lemma auto_receive_sound: "sound d (auto_receive T env bk uid e d)"
  unfolding auto_receive_def Let_def
  by (intro sound_then sound_if native_receive_sound)
     (auto simp: auto_cancel_sound auto_create_sound record_auto_sound)

lemma receive_native_sound: "sound d (receive_native T env bk uid generation e d)"
  by (simp add: receive_native_def auto_receive_sound)

lemma send_trade_sound: "sound d (send_trade env bk i volume d)"
proof -
  have "sound d (case send env (dk_controls d) i volume api (dk_selected d) (rt_route (dk_native d)) (dk_journal d) of
                  (r, j, ws) \<Rightarrow> (r, d\<lparr>dk_journal := j\<rparr>, map (\<lambda>w. Trade_write (fst w)) ws))"
    if "api \<noteq> None \<Longrightarrow> connected d" for api
  proof -
    obtain r j ws where run: "send env (dk_controls d) i volume api (dk_selected d) (rt_route (dk_native d)) (dk_journal d) = (r, j, ws)"
      by (metis prod.exhaust)
    from send_sound[OF run refl that] show ?thesis by (simp add: run)
  qed
  then show ?thesis
    unfolding send_trade_def by (auto simp: bindE_Inr require_session_def connected_def split: sum.splits if_splits)
qed

subsubsection \<open>The feeds\<close>

lemma send_r01_sound:
  assumes "cl_armed (dk_lane d R01_lane) \<Longrightarrow> dk_running d" "cl_mode (dk_lane d R01_lane) = Some (sc_mode (dk_controls d))"
  shows "sound d (send_r01 T env bk signals d)"
proof -
  have "sound d (lane_receive T R01_lane (session_for bk a d) dest v b d)" for a dest v b
    by (rule lane_receive_sound) (use assms session_connected(2) in \<open>auto simp: master_live_def\<close>)
  then show ?thesis by (auto simp: send_r01_def lane_target_def Let_def intro!: sound_then)
qed

lemma copy_r01_row_sound: "sound d (copy_r01_row T env bk row d)"
proof (cases "cl_config (dk_lane d R01_lane)")
  case None
  then show ?thesis by (simp add: copy_r01_row_def)
next
  case (Some config)
  obtain p eps where p: "plan_r01_row T config row (dk_episodes (arm_r01 d)) = (p, eps)" by (metis prod.exhaust)
  define d2 where "d2 = (arm_r01 d)\<lparr>dk_episodes := eps\<rparr>"
  have "same_record (arm_r01 d) d2" by (rule same_record_rows) (simp_all add: d2_def)
  then have rec: "same_record d d2" using same_record_trans[of d "arm_r01 d" d2] by (simp add: arm_r01_def)
  have sw: "same_switches d d2"
    by (rule same_switches_trans[of d "arm_r01 d"]) (simp_all add: arm_r01_def, simp add: d2_def same_switches_def arm_r01_def)
  have "sound d2 (send_r01 T env bk signals d2)" for signals
    by (rule send_r01_sound) (simp_all add: d2_def arm_r01_def arm_lane_def set_lane_def)
  then have "sound d2 (then_do (send_r01 T env bk signals d2) (\<lambda>a d3. (Inr (Some a), d3, [])))" for signals
    by (rule sound_then) simp
  from sound_from[OF rec sw this]
  have send: "sound d (then_do (send_r01 T env bk signals d2) (\<lambda>a d3. (Inr (Some a), d3, [])))" for signals .
  have quiet: "sound d (x, d2, [])" for x by (rule sound_still[OF rec sw])
  show ?thesis
    unfolding copy_r01_row_def Some option.case Let_def p prod.case d2_def[symmetric]
    by (rule sound_if) (simp, cases p, simp_all add: send quiet)
qed

lemma observe_ledger_row_sound: "sound d (observe_ledger_row T env bk offset row d)"
  unfolding observe_ledger_row_def
proof (rule sound_then[OF copy_r01_row_sound])
  fix a and d1 :: desk
  let ?d2 = "if dk_selected d1 \<noteq> [] then d1\<lparr>dk_shadow := dk_shadow d1 @ [(en_now env, offset, row, a)]\<rparr>
             else d1\<lparr>dk_feed := push_feed (Ledger_entry offset row a (en_now env)) (dk_feed d1)\<rparr>"
  have "same_record d1 ?d2" "same_switches d1 ?d2" by (auto simp: same_switches_def intro: same_record_rows)
  then show "sound d1 (Inr (), notify_desk ?d2, [])"
    using same_record_trans[OF _ record_notify] same_switches_trans[OF _ switches_notify] by (intro sound_still) blast+
qed

definition main_ready :: "desk \<Rightarrow> bool" where
  "main_ready d \<longleftrightarrow>
     (cl_armed (dk_lane d Main_lane) \<longrightarrow> dk_running d) \<and> cl_mode (dk_lane d Main_lane) = Some (sc_mode (dk_controls d))"

lemma main_receive_ready:
  assumes "main_ready d"
  shows "sound d (main_receive T bk batch d) \<and> main_ready (fst (snd (main_receive T bk batch d)))"
proof
  show "sound d (main_receive T bk batch d)" using assms by (intro main_receive_sound) (simp_all add: main_ready_def)
  define f :: "copy_lane \<Rightarrow> copy_result list res \<times> copy_lane \<times> copy_key list"
    where "f = receive_batch (dt_hashes T) (dt_shown T) (primary_api bk d) (dk_selected d) (destination_verified d) batch"
  obtain r st ks where run: "f (lent Main_lane d) = (r, st, ks)" by (metis prod.exhaust)
  have "same_setup (lent Main_lane d) st"
    using receive_batch_bounded[of "lent Main_lane d"] run unfolding f_def bounded_run_def by (metis fst_conv snd_conv)
  then have "main_ready (returned Main_lane st d)"
    using assms by (simp add: main_ready_def same_setup_def lent_def returned_def)
  then show "main_ready (fst (snd (main_receive T bk batch d)))"
    using run by (simp add: main_receive_def lane_receive_def on_lane_def f_def[symmetric])
qed

text \<open>\<open>guided d m\<close>: the run is sound and leaves the main lane ready again.\<close>

definition guided :: "desk \<Rightarrow> 'r desk_run \<Rightarrow> bool" where
  "guided d m \<longleftrightarrow> sound d m \<and> main_ready (fst (snd m))"

lemma guided_then:
  assumes "guided d m" "\<And>x d1. main_ready d1 \<Longrightarrow> guided d1 (f x d1)"
  shows "guided d (then_do m f)"
proof -
  obtain r d1 ks where m: "m = (r, d1, ks)" by (metis prod.exhaust)
  have "sound d (then_do m f)"
    by (rule sound_then) (use assms m in \<open>auto simp: guided_def\<close>)
  moreover have "main_ready (fst (snd (then_do m f)))"
  proof (cases r)
    case (Inl e)
    with assms(1) m show ?thesis by (simp add: then_do_def guided_def)
  next
    case (Inr x)
    from assms(1) m have "main_ready d1" by (simp add: guided_def)
    from assms(2)[OF this, of x] show ?thesis
      using m Inr by (auto simp: then_do_def guided_def split: prod.splits)
  qed
  ultimately show ?thesis by (simp add: guided_def)
qed

lemma guided_handled [simp]: "guided d (handled h m) = guided d m"
  by (cases m; cases "fst m") (auto simp: guided_def handled_def sound_def lawful_def)

lemma guided_refl [simp]: "main_ready d \<Longrightarrow> guided d (r, d, [])"
  by (simp add: guided_def)

lemma guided_receive: "main_ready d \<Longrightarrow> guided d (main_receive T bk batch d)"
  using main_receive_ready by (simp add: guided_def)

lemma guided_first: "main_ready d \<Longrightarrow> guided d (first_answer rs d)"
  by (simp add: first_answer_def)

lemma guided_p01_row: "main_ready d \<Longrightarrow> guided d (copy_p01_row T env bk recent row d)"
  by (auto simp: copy_p01_row_def split: sum.splits intro!: guided_then guided_receive guided_first)

lemma guided_p01_rows: "main_ready d \<Longrightarrow> guided d (copy_p01_rows T env bk recent rows d)"
  by (induction rows arbitrary: d) (auto intro!: guided_then guided_p01_row)

lemma guided_release_label: "main_ready d \<Longrightarrow> guided d (release_label T env bk row l d)"
  by (auto simp: release_label_def split: list.splits intro!: guided_then guided_receive guided_first)

lemma guided_release_labels: "main_ready d \<Longrightarrow> guided d (release_labels T env bk row ls d)"
  by (induction ls arbitrary: d) (auto intro!: guided_then guided_release_label)

lemma guided_release_rows: "main_ready d \<Longrightarrow> guided d (release_rows T env bk rows d)"
  by (induction rows arbitrary: d) (auto simp del: release_labels.simps intro!: guided_then guided_release_labels)

lemma guided_from:
  "same_record d d1 \<Longrightarrow> same_switches d d1 \<Longrightarrow> guided d1 m \<Longrightarrow> guided d m"
  unfolding guided_def by (blast intro: sound_from)

lemma arm_main_ready [simp]: "main_ready (arm_main d)"
  by (simp add: main_ready_def)

lemma watch_body_sound:
  assumes "dk_running d"
  shows "sound d (then_do (copy_p01_intents T env bk recent intents d) (\<lambda>_. unwind_p01_releases T env bk releases))"
proof -
  let ?mode = "\<lambda>d::desk. set_lane Main_lane (\<lambda>st. st\<lparr>cl_mode := Some (sc_mode (dk_controls d))\<rparr>) d"
  have mode: "same_record d (?mode d)" for d by (rule same_record_set_rows) simp
  have release: "sound d1 (unwind_p01_releases T env bk releases d1)" if "dk_running d1" for d1
  proof -
    have "main_ready (?mode d1)" using that by (simp add: main_ready_def set_lane_def)
    then have "sound (?mode d1) (release_rows T env bk releases (?mode d1))" using guided_release_rows by (auto simp: guided_def)
    from sound_from[OF mode switches_set_lane this] show ?thesis by (simp add: unwind_p01_releases_def)
  qed
  have "guided d (copy_p01_rows T env bk recent intents (arm_main d))"
    by (rule guided_from[of d "arm_main d"]) (simp_all add: guided_p01_rows)
  then have copy: "sound d (copy_p01_intents T env bk recent intents d)"
    using assms by (simp add: copy_p01_intents_def guided_def)
  show ?thesis
  proof (rule sound_then[OF copy])
    fix x d1 assume "fst (snd (copy_p01_intents T env bk recent intents d)) = d1"
    then have "dk_running d1" using copy assms by (auto simp: sound_def same_switches_def)
    then show "sound d1 (unwind_p01_releases T env bk releases d1)" by (rule release)
  qed
qed

subsubsection \<open>Settings and the step\<close>

lemma configure_rows: "configure v st = Inr st' \<Longrightarrow> cl_rows st' = cl_rows st \<and> cl_ledger st' = cl_ledger st"
  by (auto simp: configure_def bindE_Inr)

lemma configure_symbols_rows: "configure_symbols m st = Inr st' \<Longrightarrow> cl_rows st' = cl_rows st \<and> cl_ledger st' = cl_ledger st"
  by (auto simp: configure_symbols_def split: if_splits)

lemma configuring_lawful:
  assumes "\<And>st st'. g st = Inr st' \<Longrightarrow> cl_rows st' = cl_rows st \<and> cl_ledger st' = cl_ledger st"
  shows "lawful desk_claimed d (on_lane i (\<lambda>st. case g st of Inl e \<Rightarrow> (Inl e, st, []) | Inr st' \<Rightarrow> (Inr (), st', [])) d)"
proof (rule on_lane_lawful)
  fix st r st' and ks :: "copy_key list"
  assume l: "cl_ledger st \<noteq> None" and run: "(case g st of Inl e \<Rightarrow> (Inl e, st, []) | Inr st' \<Rightarrow> (Inr (), st', [])) = (r, st', ks)"
  then have "cl_rows st' = cl_rows st" "cl_ledger st' = cl_ledger st" "ks = []"
    using assms by (auto split: sum.splits)
  with l same_law show "once_law st st' ks \<and> cl_ledger st' \<noteq> None" by simp
qed

lemma configure_lane_lawful: "lawful desk_claimed d (configure_lane i v d)"
  unfolding configure_lane_def by (rule configuring_lawful) (rule configure_rows)

lemma record_disarm [simp]: "same_record d (disarm d)"
proof -
  have "same_record d (d\<lparr>dk_native := (dk_native d)\<lparr>rt_armed := False\<rparr>\<rparr>)" by (rule same_record_rows) simp_all
  then show ?thesis
    unfolding disarm_def by (rule same_record_trans) (rule same_record_set_rows, simp add: arm_def)
qed

definition desk_frame :: "desk \<Rightarrow> (lane_id \<Rightarrow> signal_row list) \<times> attempt list" where
  "desk_frame d = (\<lambda>i. cl_rows (dk_lane d i), j_attempts (dk_journal d))"

lemma frame_record: "desk_frame d' = desk_frame d \<Longrightarrow> same_record d d'"
  by (rule same_record_rows) (simp_all add: desk_frame_def fun_eq_iff)

lemma frame_disarm [simp]: "desk_frame (disarm d) = desk_frame d"
  by (simp add: desk_frame_def disarm_def set_lane_def arm_def fun_eq_iff)

lemma select_frame: "select_account a d = Inr d' \<Longrightarrow> desk_frame d' = desk_frame d"
  by (auto simp: select_account_def desk_frame_def disarm_def set_lane_def arm_def fun_eq_iff split: if_splits)

lemma attempts_reconcile_open: "j_attempts (snd (reconcile_open dest now pending ps t j)) = j_attempts j"
  by (auto simp: reconcile_open_def Let_def split: list.splits)

lemma attempts_reconcile_opens: "j_attempts (snd (reconcile_opens dest now pending ps ts j)) = j_attempts j"
proof (induction ts arbitrary: j)
  case (Cons t ts)
  then show ?case using attempts_reconcile_open by (simp add: Let_def split_beta)
qed simp

lemma attempts_resolve_all: "j_attempts (snd (resolve_all dest now history ts j)) = j_attempts j"
proof (induction ts arbitrary: j)
  case (Cons t ts)
  obtain r j1 where one: "resolve_closed dest now history t j = (r, j1)" by (metis prod.exhaust)
  then have "j_attempts j1 = j_attempts j"
    by (auto simp: resolve_closed_def Let_def split: sum.splits option.splits if_splits)
  with Cons one show ?case by (cases r) simp_all
qed simp

lemma attempts_reconcile: "reconcile api dest trees now j = (r, j') \<Longrightarrow> j_attempts j' = j_attempts j"
  using attempts_reconcile_opens[of dest now _ "flat_positions trees" "open_trades j dest" j]
    attempts_resolve_all[of dest now]
  by (auto simp: reconcile_def Let_def split_beta split: sum.splits if_splits) (metis snd_conv)+

lemma connect_frame: "connect a answer d = Inr d' \<Longrightarrow> desk_frame d' = desk_frame d"
proof -
  assume c: "connect a answer d = Inr d'"
  then obtain d1 where d1: "select_account a d = Inr d1" by (auto simp: connect_def bindE_Inr)
  with c have "desk_frame d' = desk_frame d1"
    by (auto simp: connect_def Let_def desk_frame_def disarm_def set_lane_def arm_def fun_eq_iff split: login.splits)
  with select_frame[OF d1] show ?thesis by simp
qed

lemma refresh_frame: "refresh_session answer d = Inr d' \<Longrightarrow> desk_frame d' = desk_frame d"
  by (auto simp: refresh_session_def Let_def desk_frame_def disarm_def set_lane_def arm_def fun_eq_iff
      split: login.splits if_splits)

lemma quiet_lawful: "(\<And>d'. r = Inr d' \<Longrightarrow> same_record d d') \<Longrightarrow> lawful desk_claimed d (quiet_step r d)"
  by (auto simp: quiet_step_def lawful_same same_record_claims split: sum.splits)

lemma frame_lawful: "(\<And>d'. r = Inr d' \<Longrightarrow> desk_frame d' = desk_frame d) \<Longrightarrow> lawful desk_claimed d (quiet_step r d)"
  by (rule quiet_lawful) (auto intro: frame_record)

lemma start_lawful: "lawful desk_claimed d (start a fault d)"
proof (cases "case a of Some x \<Rightarrow> select_account x d | None \<Rightarrow> Inr d")
  case (Inl e)
  then show ?thesis by (simp add: start_def)
next
  case (Inr d1)
  then have "desk_frame d1 = desk_frame d" by (auto split: option.splits dest: select_frame)
  then have "same_record d d1" "same_record d (d1\<lparr>dk_generation := Suc (dk_generation d1), dk_running := True\<rparr>)"
    by (rule frame_record, intro frame_record) (simp add: desk_frame_def)
  with Inr show ?thesis by (auto simp: start_def lawful_same same_record_claims split: option.splits)
qed

lemma record_mark [simp]: "same_record d (mark_since i now d)"
  by (rule same_record_rows) (simp_all add: mark_since_def)

lemma record_configs [simp]: "same_record d (d\<lparr>dk_configs := cs\<rparr>)"
  by (rule same_record_rows) simp_all

lemma record_marked: "same_record d d1 \<Longrightarrow> same_record d (notify_desk (if b then mark_since i now d1 else d1))"
  using same_record_trans[OF _ record_mark] same_record_trans[OF _ record_notify] by (cases b) auto

lemma config_record: "configure_copy_config c now d = Inr d' \<Longrightarrow> same_record d d'"
proof (cases "upsert_config c (dk_configs d)")
  case (Inr cs)
  assume "configure_copy_config c now d = Inr d'"
  then have d': "d' = notify_desk (if ln_enabled c then mark_since (ln_id c) now (lane_for c (d\<lparr>dk_configs := cs\<rparr>))
      else lane_for c (d\<lparr>dk_configs := cs\<rparr>))"
    using Inr by (cases "dk_interactive d") (simp_all only: configure_copy_config_def Let_def bindE_def if_True if_False
        not_True_eq_False not_False_eq_True sum.case sum.inject sum.distinct)
  have "same_record d (lane_for c (d\<lparr>dk_configs := cs\<rparr>))" by (rule same_record_trans[OF record_configs record_lane_for])
  then show ?thesis unfolding d' by (rule record_marked)
qed (simp add: configure_copy_config_def bindE_def split: if_splits)

lemma config_state_record: "set_copy_config_state i mode enabled now d = Inr d' \<Longrightarrow> same_record d d'"
proof (cases "set_config_state i mode enabled (dk_configs d)")
  case (Inr cs)
  let ?d1 = "d\<lparr>dk_configs := cs\<rparr>"
  have marked: "same_record d (notify_desk (if b then mark_since i now ?d1 else ?d1))" for b by (rule record_marked) simp
  assume "set_copy_config_state i mode enabled now d = Inr d'"
  then have "d' = notify_desk (if \<exists>c \<in> set cs. ln_id c = i \<and> ln_enabled c then mark_since i now ?d1 else ?d1)"
    unfolding set_copy_config_state_def Let_def Inr bindE_def sum.case by (elim ifE) (simp_all only: sum.inject sum.distinct)
  with marked show ?thesis by (simp only:)
qed (auto simp: set_copy_config_state_def bindE_def elim!: ifE)

lemma config_delete_record: "delete_copy_config i d = Inr d' \<Longrightarrow> same_record d d'"
  by (rule same_record_rows)
     (auto simp: delete_copy_config_def bindE_Inr notify_desk_def notify_stream_def split: if_splits)

lemma restart_record: "restart_desk broker now accounts account d = Inr d' \<Longrightarrow> same_record d d'"
  unfolding same_record_def
proof
  fix k assume r: "restart_desk broker now accounts account d = Inr d'"
  then obtain j where j: "open_store broker now (dk_journal d) = Inr j" "dk_journal d' = j"
    and lanes: "dk_lane d' = (dk_lane d)(Main_lane := open_lane (dk_lane d Main_lane), R01_lane := open_lane (dk_lane d R01_lane))"
    by (auto simp: restart_desk_def bindE_Inr Let_def)
  show "desk_claimed d' k = desk_claimed d k"
    using claimed_open_store[OF j(1)] open_lane_claims j(2) lanes by (cases k) (simp_all del: lane_claimed.simps)
qed

lemma reads_lawful:
  "lawful desk_claimed d (refresh_orders bk d)"
  "lawful desk_claimed d (refresh_positions bk now d)"
  "lawful desk_claimed d (watch_reconcile bk now d)"
proof -
  have same: "same_record d d'" if "dk_lane d' = dk_lane d" "j_attempts (dk_journal d') = j_attempts (dk_journal d)" for d'
    by (rule same_record_rows) (simp_all add: that)
  show "lawful desk_claimed d (refresh_orders bk d)"
    by (auto simp: refresh_orders_def split: option.splits sum.splits intro!: lawful_same same_record_claims same)
  show "lawful desk_claimed d (refresh_positions bk now d)"
    by (auto simp: refresh_positions_def Let_def attempts_reconcile split: option.splits sum.splits prod.splits
        intro!: lawful_same same_record_claims same)
  show "lawful desk_claimed d (watch_reconcile bk now d)"
    by (auto simp: watch_reconcile_def attempts_reconcile split: option.splits sum.splits prod.splits bool.splits
        intro!: lawful_same same_record_claims same)
qed

text \<open>The operations that can write at all, and the ones that only read or set.\<close>

fun submits :: "desk_op \<Rightarrow> bool" where
  "submits (Op_wire b) = True"
| "submits (Op_native env uid generation e) = True"
| "submits (Op_row env offset row) = True"
| "submits (Op_p01 env recent intents releases) = True"
| "submits (Op_send env i volume) = True"
| "submits _ = False"

lemma sound_no_answer: "sound d m \<Longrightarrow> sound d (no_answer m)"
  unfolding no_answer_def by (rule sound_then) simp_all

lemma observer_failed_record: "same_record d (observer_failed d)"
  by (rule frame_record) (simp add: desk_frame_def observer_failed_def disarm_def set_lane_def arm_def fun_eq_iff)

definition not_armed_by :: "desk \<Rightarrow> desk \<Rightarrow> bool" where
  "not_armed_by d d' \<longleftrightarrow> (rt_armed (dk_native d') \<longrightarrow> rt_armed (dk_native d))"

lemma disarm_armed [simp]: "\<not> rt_armed (dk_native (disarm d))"
  by (simp add: disarm_def set_lane_def)

text \<open>A turn of the observer: its writes are sound, whether it goes on or stops.\<close>

definition writes_sound :: "desk \<Rightarrow> 'r desk_run \<Rightarrow> bool" where
  "writes_sound d m \<longleftrightarrow>
     lawful desk_claimed d m \<and> (\<forall>k \<in> set (snd (snd m)). write_allowed d k) \<and> not_armed_by d (fst (snd m))"

lemma observer_turn:
  assumes "sound d m" "\<And>d1. same_record d1 (g d1) \<and> not_armed_by d1 (g d1)"
  shows "writes_sound d (case m of (Inl _, d1, ks) \<Rightarrow> (Inr (), observer_failed d1, ks) | (Inr _, d1, ks) \<Rightarrow> (Inr (), g d1, ks))"
proof -
  obtain r d1 ks where m: "m = (r, d1, ks)" by (metis prod.exhaust)
  have "once desk_claimed d d1 ks" "\<forall>k \<in> set ks. write_allowed d k" and armed: "not_armed_by d d1"
    using assms(1) m by (simp_all add: sound_def lawful_def same_switches_def not_armed_by_def)
  moreover have "once desk_claimed d d2 ks" if "same_record d1 d2" for d2
    using calculation(1) same_record_claims[OF that] by (simp add: once_def)
  moreover have "not_armed_by d (observer_failed d1)" "not_armed_by d (g d1)"
    using armed assms(2)[of d1] by (auto simp: not_armed_by_def observer_failed_def)
  ultimately show ?thesis using m observer_failed_record assms(2) by (cases r) (simp_all add: writes_sound_def lawful_def)
qed

lemma notify_native: "dk_native (notify_desk d) = dk_native d"
  by (simp add: notify_desk_def)

lemma submits_sound: "submits a \<Longrightarrow> writes_sound d (desk_do T bk a d)"
proof (induction T bk a d rule: desk_do.induct)
  case (3 T bk env offset row d)
  have "writes_sound d (Inr (), d, [])" by (simp add: writes_sound_def not_armed_by_def)
  moreover have "writes_sound d (case observe_ledger_row T env bk offset row d of
      (Inl _, d1, ks) \<Rightarrow> (Inr (), observer_failed d1, ks) | (Inr _, d1, ks) \<Rightarrow> (Inr (), d1, ks))"
    by (rule observer_turn[OF observe_ledger_row_sound]) (simp add: not_armed_by_def)
  ultimately show ?case by (simp add: watch_row_def)
next
  case (4 T bk env recent intents releases d)
  have "writes_sound d (Inr (), d, [])" by (simp add: writes_sound_def not_armed_by_def)
  moreover have "dk_running d \<Longrightarrow> writes_sound d
      (case then_do (copy_p01_intents T env bk recent intents d) (\<lambda>_. unwind_p01_releases T env bk releases) of
        (Inl _, d1, ks) \<Rightarrow> (Inr (), observer_failed d1, ks) | (Inr _, d1, ks) \<Rightarrow> (Inr (), notify_desk d1, ks))"
    by (rule observer_turn[OF watch_body_sound]) (simp_all add: not_armed_by_def notify_native)
  ultimately show ?case by (simp add: watch_p01_def)
qed (use sound_no_answer[OF receive_signals_sound] sound_no_answer[OF receive_native_sound] sound_no_answer[OF send_trade_sound]
     in \<open>simp_all add: writes_sound_def sound_def same_switches_def not_armed_by_def\<close>)

lemma configuring_silent:
  "snd (snd (on_lane i (\<lambda>st. case g st of Inl e \<Rightarrow> (Inl e, st, []) | Inr st' \<Rightarrow> (Inr (), st', [])) d)) = []"
  by (auto simp: on_lane_def split: sum.splits)

lemma others_silent: "\<not> submits a \<Longrightarrow> snd (snd (desk_do T bk a d)) = []"
  by (cases a)
     (auto simp: quiet_step_def start_def refresh_orders_def refresh_positions_def watch_reconcile_def Let_def
        configure_signals_def configure_r01_def configure_lane_def configure_desk_symbols_def then_do_def on_lane_def
        split: sum.splits option.splits prod.splits bool.splits)

lemma configure_signals_lawful: "lawful desk_claimed d (configure_signals v d)"
proof -
  have "lawful desk_claimed d1 (Inr (), d1\<lparr>dk_p01_log := b\<rparr>, [])" for d1 b
    by (rule lawful_same) (rule same_record_claims, rule same_record_rows, simp_all)
  then show ?thesis unfolding configure_signals_def by (auto intro!: lawful_then configure_lane_lawful)
qed

lemma others_lawful: "\<not> submits a \<Longrightarrow> lawful desk_claimed d (desk_do T bk a d)"
proof (cases a)
  case (Op_copying b)
  then show ?thesis by (auto simp: set_copying_def desk_frame_def intro: frame_lawful)
next
  case (Op_route r l)
  then show ?thesis by (auto simp: configure_copying_def desk_frame_def intro!: frame_lawful elim!: ifE)
next
  case (Op_signal_copying b now)
  then show ?thesis
    by (auto simp: set_signal_copying_def Let_def desk_frame_def set_lane_def arm_def fun_eq_iff intro!: frame_lawful split: if_splits)
next
  case (Op_stop)
  have "same_record d (stop_capture d)"
    by (rule frame_record) (simp add: desk_frame_def stop_capture_def disarm_def set_lane_def arm_def fun_eq_iff)
  then show ?thesis using Op_stop by (simp add: lawful_same same_record_claims)
next
  case (Op_controls v now)
  have "same_record d (configure_copy_controls v now d)" by (rule frame_record) (simp add: desk_frame_def configure_copy_controls_def)
  then show ?thesis using Op_controls by (simp add: lawful_same same_record_claims)
next
  case (Op_profiles ps)
  have "same_record d (d\<lparr>dk_profiles := ps\<rparr>)" by (rule frame_record) (simp add: desk_frame_def)
  then show ?thesis using Op_profiles by (simp add: lawful_same same_record_claims)
next
  case (Op_symbols m)
  then show ?thesis
    unfolding configure_desk_symbols_def[abs_def] by (simp add: configure_desk_symbols_def configuring_lawful configure_symbols_rows)
next
  case (Op_r01 v)
  then show ?thesis by (simp add: configure_r01_def configure_lane_lawful)
qed (auto simp: start_lawful reads_lawful configure_signals_lawful config_record config_state_record config_delete_record restart_record
       intro!: quiet_lawful intro: frame_record[OF connect_frame] frame_record[OF refresh_frame])

lemma desk_step_once: "once desk_claimed d (fst (desk_step T x d)) (snd (desk_step T x d))"
proof -
  have "lawful desk_claimed d (desk_do T (fst x) (snd x) d)"
    using submits_sound others_lawful by (cases "submits (snd x)") (auto simp: writes_sound_def)
  then show ?thesis by (simp add: lawful_def desk_step_def)
qed

interpretation desk_runs: claimed_writes "desk_step T" desk_claimed for T
  by (rule claimed_writes_once) (rule desk_step_once)

subsection \<open>Properties\<close>

text \<open>
  Over any operations of the controller, with restarts, connections, settings and every feed in any
  order, each broker write is sent at most once: one opening and one cancel of a lifecycle per lane and
  destination, one write per attempt of the ledger whichever path makes it, and none already on record.
\<close>

theorem desk_writes_once:
  "distinct (snd (run_emits (desk_step T) xs d)) \<and>
   {k. desk_claimed d k} \<inter> set (snd (run_emits (desk_step T) xs d)) = {}"
  using desk_runs.run_at_most_once desk_runs.run_fresh by blast

text \<open>
  C3: an operation opens a copy only while capture runs and the lane's own switch is live (the master
  switch for the main and R01 lanes, its enabled configuration for a configuration's lane), and writes
  on a captured trade only with the master switch live or, while capture runs, a live configuration.
\<close>

theorem desk_writes_follow_switches: "set (snd (desk_step T x d)) \<subseteq> {k. write_allowed d k}"
  using submits_sound[of "snd x" d T "fst x"] others_silent[of "snd x" T "fst x" d]
  by (cases "submits (snd x)") (auto simp: desk_step_def writes_sound_def)

lemma desk_step_allowed: "k \<in> set (snd (desk_step T x d)) \<Longrightarrow> write_allowed d k"
  using submits_sound[of "snd x" d T "fst x"] others_silent[of "snd x" T "fst x" d]
  by (cases "submits (snd x)") (auto simp: desk_step_def writes_sound_def)

lemma select_armed: "select_account a d = Inr d' \<Longrightarrow> not_armed_by d d'"
  by (auto simp: select_account_def not_armed_by_def split: if_splits)

lemma start_armed: "not_armed_by d (fst (snd (start a fault d)))"
  by (auto simp: start_def not_armed_by_def split: option.splits sum.splits dest: select_armed)

lemma quiet_armed: "(\<And>d'. r = Inr d' \<Longrightarrow> not_armed_by d d') \<Longrightarrow> not_armed_by d (fst (snd (quiet_step r d)))"
  by (auto simp: quiet_step_def not_armed_by_def split: sum.splits)

lemma on_lane_armed: "dk_native (fst (snd (on_lane i f d))) = dk_native d"
  by (simp add: on_lane_def returned_def split: prod.splits)

lemma reads_armed:
  "dk_native (fst (snd (refresh_orders bk d))) = dk_native d"
  "dk_native (fst (snd (refresh_positions bk now d))) = dk_native d"
  "dk_native (fst (snd (watch_reconcile bk now d))) = dk_native d"
  by (auto simp: refresh_orders_def refresh_positions_def watch_reconcile_def Let_def
      split: option.splits sum.splits prod.splits bool.splits)

lemma native_kept [simp]:
  "dk_native (notify_desk d) = dk_native d" "dk_native (lane_for c d) = dk_native d"
  "dk_native (mark_since i now d) = dk_native d" "dk_native (if b then mark_since i now d else d) = dk_native d"
  by (simp_all add: notify_desk_def lane_for_def set_lane_def mark_since_def Let_def)

lemma setting_armed:
  "connect a l d = Inr d' \<Longrightarrow> not_armed_by d d'"
  "refresh_session l d = Inr d' \<Longrightarrow> not_armed_by d d'"
  "set_copying b d = Inr d' \<Longrightarrow> not_armed_by d d'"
  "configure_copying route limit d = Inr d' \<Longrightarrow> not_armed_by d d'"
  "set_signal_copying b now d = Inr d' \<Longrightarrow> not_armed_by d d'"
  "configure_copy_config c now d = Inr d' \<Longrightarrow> not_armed_by d d'"
  "set_copy_config_state i mode enabled now d = Inr d' \<Longrightarrow> not_armed_by d d'"
  "delete_copy_config i d = Inr d' \<Longrightarrow> not_armed_by d d'"
  "restart_desk broker now accounts account d = Inr d' \<Longrightarrow> not_armed_by d d'"
  by (auto simp: connect_def refresh_session_def set_copying_def configure_copying_def set_signal_copying_def
      configure_copy_config_def set_copy_config_state_def delete_copy_config_def restart_desk_def bindE_def Let_def
      not_armed_by_def set_lane_def disarm_def
      split: login.splits sum.splits if_split_asm elim!: ifE)

lemma others_armed: "\<not> submits a \<Longrightarrow> not_armed_by d (fst (snd (desk_do T bk a d)))"
proof (cases a)
  case (Op_signals v)
  have "dk_native (fst (snd (configure_signals v d))) = dk_native d"
    using on_lane_armed[of Main_lane "\<lambda>st. case configure v st of Inl e \<Rightarrow> (Inl e, st, []) | Inr st' \<Rightarrow> (Inr (), st', [])" d]
    by (auto simp: configure_signals_def configure_lane_def then_do_def split: prod.split sum.split)
  then show ?thesis using Op_signals by (simp add: not_armed_by_def)
next
  case (Op_r01 v)
  then show ?thesis by (simp add: configure_r01_def configure_lane_def on_lane_armed not_armed_by_def)
next
  case (Op_symbols m)
  then show ?thesis by (simp add: configure_desk_symbols_def on_lane_armed not_armed_by_def)
next
  case Op_stop
  then show ?thesis by (simp add: stop_capture_def not_armed_by_def)
next
  case (Op_controls v now)
  then show ?thesis by (simp add: configure_copy_controls_def not_armed_by_def)
qed (auto intro!: quiet_armed start_armed dest: setting_armed simp: reads_armed not_armed_by_def[of _ "_\<lparr>dk_profiles := _\<rparr>"],
     simp_all add: not_armed_by_def reads_armed)

lemma desk_step_armed: "not_armed_by d (fst (desk_step T x d))"
  using submits_sound[of "snd x" d T "fst x"] others_armed[of "snd x" d T "fst x"]
  by (cases "submits (snd x)") (simp_all add: desk_step_def writes_sound_def)

interpretation unarmed_runs: kept_invariant "\<lambda>x d. fst (desk_step T x d)" "\<lambda>d. \<not> rt_armed (dk_native d)" for T
  by unfold_locales (use desk_step_armed in \<open>unfold not_armed_by_def, blast\<close>)

text \<open>
  No operation arms the native router, so from an unarmed start a captured event is never dispatched
  on arrival: after any operations the router is unarmed, and its own receipt of an event writes nothing.
\<close>

theorem captured_events_never_dispatched:
  assumes "\<not> rt_armed (dk_native d)" "d' = fst (run_emits (desk_step T) xs d)"
  shows "\<not> rt_armed (dk_native d') \<and> snd (snd (native_receive T env uid e d')) = []"
proof
  show "\<not> rt_armed (dk_native d')" using unarmed_runs.run_inv[OF assms(1)] assms(2) by (simp add: run_emits_fst)
  show "snd (snd (native_receive T env uid e d')) = []"
    using unlinked_router_silent by (auto simp: native_receive_def split: prod.splits)
qed

text \<open>
  A restart comes back unconnected, stopped, unarmed and in paper whatever was saved, and the first
  operation after it, whatever it is, writes nothing to a broker.
\<close>

theorem restart_resumes_nothing:
  assumes "restart_desk broker now accounts account d = Inr d'"
  shows "\<not> dk_running d' \<and> \<not> rt_armed (dk_native d') \<and> sc_mode (dk_controls d') = ''paper'' \<and> snd (desk_step T x d') = []"
proof -
  have "\<not> connected d'"
    using assms by (auto simp: restart_desk_def bindE_Inr Let_def connected_def)
  then have "\<not> write_allowed d' k" for k by (cases k) simp_all
  then have none: "k \<notin> set (snd (desk_step T x d'))" for k using desk_step_allowed[of k T x d'] by blast
  have "snd (desk_step T x d') = []"
  proof (cases "snd (desk_step T x d')")
    case (Cons k ks)
    with none[of k] show ?thesis by simp
  qed
  then show ?thesis
    using assms by (auto simp: restart_desk_def bindE_Inr Let_def load_controls_def)
qed

lemma auto_create_view:
  assumes "\<And>i. (\<forall>c. i \<noteq> Config_lane c) \<Longrightarrow> l i = dk_lane d i"
  shows "fst (auto_create T env bk e i (d\<lparr>dk_lane := l\<rparr>)) = fst (auto_create T env bk e i d) \<and>
     snd (snd (auto_create T env bk e i (d\<lparr>dk_lane := l\<rparr>))) = snd (snd (auto_create T env bk e i d))"
proof -
  let ?d = "d\<lparr>dk_lane := l\<rparr>"
  have "l Main_lane = dk_lane d Main_lane" using assms by simp
  then have "create_checks e now ?d = create_checks e now d" for now
    by (simp add: create_checks_def bridge_copies_def destination_verified_def cong: if_cong)
  moreover have "primary_api bk ?d = primary_api bk d" by (simp add: primary_api_def)
  ultimately show ?thesis by (auto simp: auto_create_def Let_def split: sum.splits prod.splits)
qed

text \<open>
  Whether a bridge order is sent does not depend on what the configurations' lanes have sent: with
  any record in those lanes the answer and the writes are the same, so a lifecycle that a configuration
  already copied to the account is ordered a second time.
\<close>

theorem bridge_ignores_config_lanes:
  "fst (auto_create T env bk e i (d\<lparr>dk_lane := (dk_lane d)(Config_lane c := st)\<rparr>)) = fst (auto_create T env bk e i d) \<and>
   snd (snd (auto_create T env bk e i (d\<lparr>dk_lane := (dk_lane d)(Config_lane c := st)\<rparr>))) = snd (snd (auto_create T env bk e i d))"
  by (rule auto_create_view) simp

text \<open>
  A failure of one configuration's lane leaves the routing only when it is of a class that is not
  swallowed, and then the later configurations are not routed to at all.
\<close>

theorem config_failure_escapes:
  assumes "route_one T bk batch c d = (Inl e, d', ks)"
  shows "\<not> swallowed e \<and> ln_enabled c \<and> matching_signals c batch \<noteq> [] \<and>
    route_each T bk batch (c # cs) d = (Inl e, d', ks)"
proof -
  have "\<not> swallowed e"
  proof
    assume s: "swallowed e"
    define m where "m = then_do (lane_receive T (Config_lane (ln_id c)) (session_for bk (ln_destination c) (ready_config c d))
      (ln_destination c) (session_for bk (ln_destination c) (ready_config c d) \<noteq> None) (matching_signals c batch)
      (ready_config c d)) (\<lambda>_ d2. (Inr (), d2, []))"
    from assms have "handled (\<lambda>e. if swallowed e then Some () else None) m = (Inl e, d', ks)"
      by (auto simp: route_one_def Let_def m_def split: if_splits)
    with s show False by (auto simp: handled_def split: prod.splits sum.splits if_splits)
  qed
  moreover have "ln_enabled c \<and> matching_signals c batch \<noteq> []"
    using assms by (auto simp: route_one_def Let_def split: if_splits)
  ultimately show ?thesis using assms by (simp add: then_do_def)
qed

subsection \<open>A concrete controller\<close>

definition sample_tools :: desk_tools where
  "sample_tools =
     \<lparr>dt_hashes = sample_hashes, dt_shown = (\<lambda>_. []), dt_digest = ev_symbol, dt_sha = concat, dt_node = ''m''\<rparr>"

definition sample_world :: "order_row list res \<Rightarrow> broker_world" where
  "sample_world orders = (\<lambda>_. sample_session orders)"

definition sample_desk :: desk where
  "sample_desk =
     \<lparr>dk_running = True, dk_generation = 1, dk_selected = ''A'', dk_accounts = [''A''], dk_session = Some ''A'',
      dk_connection = ''connected'', dk_profiles = [], dk_orders = None, dk_positions = None, dk_writes = True,
      dk_interactive = True,
      dk_native = \<lparr>rt_armed = False, rt_route = None, rt_armed_at = None, rt_demo_verified = True\<rparr>, dk_limit = 1000,
      dk_journal = empty_journal ''B'', dk_symbols = sample_symbols, dk_lane = (\<lambda>_. sample_copy_lane),
      dk_open = [ln_id sample_lane], dk_episodes = [], dk_configs = [sample_lane], dk_since = [], dk_p01_log = False,
      dk_controls = \<lparr>sc_mode = ''live'', sc_sources = []\<rparr>, dk_mode_since = 0, dk_feed = [], dk_shadow = []\<rparr>"

theorem captured_events_never_dispatched_witness:
  "\<not> rt_armed (dk_native (fst (run_emits (desk_step sample_tools)
      [(sample_world (Inr []), Op_copying True), (sample_world (Inr []), Op_connect ''A'' (Logged_in ''A'' [(''A'', True)]))]
      sample_desk)))"
  using captured_events_never_dispatched[of sample_desk, OF _ refl, of sample_tools
      "[(sample_world (Inr []), Op_copying True), (sample_world (Inr []), Op_connect ''A'' (Logged_in ''A'' [(''A'', True)]))]"]
  by (simp add: sample_desk_def)

definition is_run :: "'a res \<Rightarrow> bool" where
  "is_run r \<longleftrightarrow> (case r of Inr _ \<Rightarrow> True | Inl _ \<Rightarrow> False)"

lemma sample_restart: "is_run (restart_desk ''B'' 5 [''A''] ''A'' sample_desk)"
  by code_simp

theorem restart_resumes_nothing_witness:
  "\<exists>d'. restart_desk ''B'' 5 [''A''] ''A'' sample_desk = Inr d' \<and>
     snd (desk_step sample_tools (sample_world (Inr []), Op_wire [(sample_moment, sample_signal)]) d') = []"
proof -
  obtain d' where d': "restart_desk ''B'' 5 [''A''] ''A'' sample_desk = Inr d'"
    using sample_restart by (auto simp: is_run_def split: sum.splits)
  from restart_resumes_nothing[OF d'] d' show ?thesis by blast
qed

lemma sample_routing:
  "case route_one sample_tools (sample_world (Inl sample_failure)) [(sample_moment, sample_cancel_signal)] sample_lane sample_desk of
     (Inl e, _, _) \<Rightarrow> exn_type e = ''ConnectTimeout'' | _ \<Rightarrow> False"
  by code_simp

theorem config_failure_escapes_witness:
  "\<exists>e d' ks. route_each sample_tools (sample_world (Inl sample_failure)) [(sample_moment, sample_cancel_signal)]
     [sample_lane, sample_lane] sample_desk = (Inl e, d', ks)"
proof -
  obtain e d' ks where r: "route_one sample_tools (sample_world (Inl sample_failure)) [(sample_moment, sample_cancel_signal)]
      sample_lane sample_desk = (Inl e, d', ks)"
    using sample_routing by (auto split: prod.splits sum.splits)
  from config_failure_escapes[OF r, of "[sample_lane]"] show ?thesis by blast
qed

end
