(* ===== verification/DecimalText.thy ===== *)
theory DecimalText
  imports ManualSend
begin

text \<open>
  The text of a decimal and its reading: \<open>str(d)\<close> and \<open>Decimal(text)\<close>, through which the volume of a
  one-time send passes (capture/manual_send.py) and the quantities of the journal are stored and read
  back (capture/store.py, capture/mapping.py). The reading follows the grammar of the constructor.
\<close>

definition digit_val :: "char \<Rightarrow> nat" where
  "digit_val c = of_char c - 48"

definition digits_val :: "string \<Rightarrow> nat" where
  "digits_val s = foldl (\<lambda>n c. 10 * n + digit_val c) 0 s"

definition read_sign :: "string \<Rightarrow> bool \<times> string" where
  "read_sign s =
     (case s of
        c # r \<Rightarrow> if c = CHR ''-'' then (True, r) else if c = CHR ''+'' then (False, r) else (False, s)
      | [] \<Rightarrow> (False, s))"

text \<open>Digits with at most one point; the digits and how many follow the point.\<close>

definition read_mantissa :: "string \<Rightarrow> (string \<times> nat) option" where
  "read_mantissa m =
     (let ip = takeWhile is_digit m; r = dropWhile is_digit m in
      case r of
        [] \<Rightarrow> if ip = [] then None else Some (ip, 0)
      | c # fp \<Rightarrow>
          if c = CHR ''.'' \<and> list_all is_digit fp \<and> ip @ fp \<noteq> [] then Some (ip @ fp, length fp) else None)"

definition read_exponent :: "string \<Rightarrow> int option" where
  "read_exponent s =
     (case s of
        [] \<Rightarrow> Some 0
      | c # r \<Rightarrow>
          (let (neg, ds) = read_sign r in
           if ds = [] \<or> \<not> list_all is_digit ds then None
           else Some ((if neg then -1 else 1) * int (digits_val ds))))"

definition is_exp :: "char \<Rightarrow> bool" where
  "is_exp c \<longleftrightarrow> c = CHR ''E'' \<or> c = CHR ''e''"

definition read_finite :: "string \<Rightarrow> decimal option" where
  "read_finite s =
     (let (neg, r) = read_sign s in
      case read_mantissa (takeWhile (\<lambda>c. \<not> is_exp c) r) of
        None \<Rightarrow> None
      | Some (ds, k) \<Rightarrow>
          (case read_exponent (dropWhile (\<lambda>c. \<not> is_exp c) r) of
             None \<Rightarrow> None
           | Some x \<Rightarrow> Some (Dec ((if neg then -1 else 1) * int (digits_val ds)) (x - int k))))"

text \<open>Spaces at the ends and underscores are dropped first.\<close>

definition plain_text :: "string \<Rightarrow> string" where
  "plain_text s = filter (\<lambda>c. c \<noteq> CHR ''_'') (strip s)"

definition special_names :: "string list" where
  "special_names = [''inf'', ''infinity'', ''nan'', ''snan'']"

definition lower_ascii :: "string \<Rightarrow> string" where
  "lower_ascii = map (\<lambda>c. if code_in 65 90 c then char_of ((of_char c :: nat) + 32) else c)"

text \<open>A NaN may carry a payload of digits; none of the special values is finite.\<close>

definition is_special :: "string \<Rightarrow> bool" where
  "is_special s \<longleftrightarrow>
     (let w = lower_ascii (snd (read_sign s)); body = takeWhile (\<lambda>c. \<not> is_digit c) w; tail = dropWhile (\<lambda>c. \<not> is_digit c) w
      in body \<in> set special_names \<and> list_all is_digit tail \<and> (tail \<noteq> [] \<longrightarrow> body = ''nan'' \<or> body = ''snan''))"

definition volume_of_text :: "string \<Rightarrow> volume_arg" where
  "volume_of_text s =
     (case read_finite (plain_text s) of
        Some d \<Rightarrow> Volume d
      | None \<Rightarrow> if is_special (plain_text s) then Volume_not_finite else Volume_unreadable)"

subsection \<open>Digits\<close>

lemma digit_char:
  assumes "d < (10::nat)"
  shows "is_digit (char_of (48 + d)) \<and> digit_val (char_of (48 + d)) = d"
proof -
  have lt: "48 + d < 256" using assms by linarith
  have "of_char (char_of (48 + d) :: char) = (48 + d) mod 256" by (rule of_char_of)
  then have eq: "of_char (char_of (48 + d) :: char) = 48 + d" by (simp only: mod_less[OF lt])
  show ?thesis unfolding is_digit_def code_in_def digit_val_def eq using assms by (intro conjI) linarith+
qed

lemma digits_val_append: "digits_val (a @ b) = digits_val a * 10 ^ length b + digits_val b"
proof -
  have "foldl (\<lambda>n c. 10 * n + digit_val c) x b = x * 10 ^ length b + foldl (\<lambda>n c. 10 * n + digit_val c) 0 b" for x
  proof (induction b arbitrary: x)
    case (Cons c b)
    show ?case
      unfolding foldl_Cons Cons[of "10 * x + digit_val c"] Cons[of "10 * 0 + digit_val c"]
      by (simp add: distrib_right)
  qed simp
  then show ?thesis unfolding digits_val_def foldl_append by blast
qed

lemma digits_str_read: "digits_val (digits_str n) = n \<and> list_all is_digit (digits_str n) \<and> digits_str n \<noteq> []"
proof (induction n rule: digits_str.induct)
  case (1 n)
  show ?case
  proof (cases "n < 10")
    case True
    then show ?thesis using digit_char by (subst (1 2 3) digits_str.simps) (simp add: digits_val_def)
  next
    case False
    have last: "digits_val [char_of (48 + n mod 10)] = n mod 10" "is_digit (char_of (48 + n mod 10))"
      using digit_char[of "n mod 10"] by (simp_all add: digits_val_def)
    from 1[OF False] False last show ?thesis
      by (subst (1 2 3) digits_str.simps) (simp add: digits_val_append)
  qed
qed

lemma digits_val_zeros: "digits_val (replicate k (CHR ''0'') @ s) = digits_val s"
proof -
  have "digits_val (replicate k (CHR ''0'')) = 0"
    by (induction k) (simp_all add: digits_val_def digit_val_def)
  then show ?thesis by (simp add: digits_val_append)
qed

lemma zero_digit: "is_digit (CHR ''0'')"
  by (simp add: is_digit_def code_in_def)

lemma digits_all_zeros [simp]: "list_all is_digit (replicate k (CHR ''0''))"
  by (simp add: list_all_iff zero_digit)

lemma digit_not_exp: "is_digit c \<Longrightarrow> \<not> is_exp c \<and> c \<noteq> CHR ''.'' \<and> c \<noteq> CHR ''-'' \<and> c \<noteq> CHR ''+'' \<and> c \<noteq> CHR ''_'' \<and> \<not> is_space c"
  by (auto simp: is_digit_def code_in_def is_exp_def is_space_def)

subsection \<open>Reading what was written\<close>

lemma read_mantissa_plain: "list_all is_digit s \<Longrightarrow> s \<noteq> [] \<Longrightarrow> read_mantissa s = Some (s, 0)"
  by (simp add: read_mantissa_def list_all_iff takeWhile_eq_all_conv[THEN iffD2] dropWhile_eq_Nil_conv[THEN iffD2])

lemma read_mantissa_point:
  assumes "list_all is_digit a" "list_all is_digit b" "a @ b \<noteq> []"
  shows "read_mantissa (a @ ''.'' @ b) = Some (a @ b, length b)"
proof -
  have a: "\<forall>x \<in> set a. is_digit x" using assms(1) by (simp add: list_all_iff)
  have p: "\<not> is_digit (CHR ''.'')" by (simp add: is_digit_def code_in_def)
  have "takeWhile is_digit (a @ ''.'' @ b) = a" "dropWhile is_digit (a @ ''.'' @ b) = ''.'' @ b"
    using a p by (simp_all add: takeWhile_append dropWhile_append)
  with assms show ?thesis by (simp add: read_mantissa_def)
qed

lemma read_exponent_signed: "read_exponent (''E'' @ signed_str i) = Some i"
  using digits_str_read[of "nat (- i)"] digits_str_read[of "nat i"]
  by (cases "i < 0") (simp_all add: read_exponent_def signed_str_def read_sign_def)

text \<open>The mantissa and the exponent that the text of a decimal is made of.\<close>

definition mantissa_of :: "decimal \<Rightarrow> int \<Rightarrow> string" where
  "mantissa_of d dot =
     (let s = digits_str (nat \<bar>coef d\<bar>) in
      if dot \<le> 0 then ''0.'' @ replicate (nat (- dot)) (CHR ''0'') @ s
      else if dot \<ge> int (length s) then s @ replicate (nat (dot - int (length s))) (CHR ''0'')
      else take (nat dot) s @ ''.'' @ drop (nat dot) s)"

definition point_of :: "decimal \<Rightarrow> int" where
  "point_of d =
     (let left = expo d + int (length (digits_str (nat \<bar>coef d\<bar>)))
      in if expo d \<le> 0 \<and> left > -6 then left else 1)"

lemma dec_str_parts:
  "dec_str d =
     (let left = expo d + int (length (digits_str (nat \<bar>coef d\<bar>))) in
      (if coef d < 0 then ''-'' else []) @ mantissa_of d (point_of d) @
      (if left = point_of d then [] else ''E'' @ signed_str (left - point_of d)))"
  by (simp add: dec_str_def mantissa_of_def point_of_def Let_def)

lemma mantissa_read:
  "\<exists>ds k. read_mantissa (mantissa_of d (point_of d)) = Some (ds, k) \<and> digits_val ds = nat \<bar>coef d\<bar> \<and>
     int k = int (length (digits_str (nat \<bar>coef d\<bar>))) - point_of d"
proof -
  define s where "s = digits_str (nat \<bar>coef d\<bar>)"
  have s: "digits_val s = nat \<bar>coef d\<bar>" "list_all is_digit s" "s \<noteq> []"
    using digits_str_read[of "nat \<bar>coef d\<bar>"] by (simp_all add: s_def)
  define p where "p = point_of d"
  consider (small) "p \<le> 0" | (whole) "p = int (length s)" "0 < p" | (inner) "0 < p" "p < int (length s)"
  proof -
    have "p \<le> int (length s)"
      using s(3) by (cases s) (auto simp: p_def point_of_def Let_def s_def[symmetric])
    then show ?thesis using that by linarith
  qed
  then show ?thesis
  proof cases
    case small
    let ?b = "replicate (nat (- p)) (CHR ''0'') @ s"
    have "mantissa_of d p = ''0'' @ ''.'' @ ?b" using small by (simp add: mantissa_of_def s_def Let_def)
    moreover have "read_mantissa (''0'' @ ''.'' @ ?b) = Some (''0'' @ ?b, length ?b)"
      by (rule read_mantissa_point) (simp_all add: s zero_digit)
    moreover have "digits_val (''0'' @ ?b) = nat \<bar>coef d\<bar>"
      using digits_val_zeros[of 1 ?b] digits_val_zeros[of "nat (- p)" s] s(1) by simp
    ultimately show ?thesis using small by (simp add: p_def s_def)
  next
    case whole
    then have "mantissa_of d p = s" by (simp add: mantissa_of_def Let_def s_def)
    with s whole read_mantissa_plain[OF s(2,3)] show ?thesis by (simp add: p_def s_def)
  next
    case inner
    have eq: "mantissa_of d p = take (nat p) s @ ''.'' @ drop (nat p) s"
      using inner by (simp add: mantissa_of_def s_def Let_def)
    have "read_mantissa (take (nat p) s @ ''.'' @ drop (nat p) s) = Some (take (nat p) s @ drop (nat p) s, length (drop (nat p) s))"
      by (rule read_mantissa_point) (use s(2,3) in \<open>auto simp: list_all_iff dest: in_set_takeD in_set_dropD\<close>)
    then show ?thesis using eq s inner by (simp add: p_def s_def)
  qed
qed

lemma mantissa_chars: "\<forall>c \<in> set (mantissa_of d p). is_digit c \<or> c = CHR ''.''"
proof -
  have "\<forall>c \<in> set (digits_str (nat \<bar>coef d\<bar>)). is_digit c"
    using digits_str_read[of "nat \<bar>coef d\<bar>"] by (simp add: list_all_iff)
  then show ?thesis
    by (auto simp: mantissa_of_def Let_def zero_digit dest: in_set_takeD in_set_dropD split: if_splits)
qed

lemma mantissa_start: "\<exists>c r. mantissa_of d (point_of d) = c # r \<and> is_digit c"
proof -
  define s where "s = digits_str (nat \<bar>coef d\<bar>)"
  obtain c r where s: "s = c # r" "is_digit c"
    using digits_str_read[of "nat \<bar>coef d\<bar>"] by (cases s) (auto simp: s_def)
  show ?thesis
  proof (cases "point_of d \<le> 0")
    case True
    then show ?thesis by (auto simp: mantissa_of_def Let_def zero_digit)
  next
    case False
    then obtain k where "nat (point_of d) = Suc k" by (cases "nat (point_of d)") auto
    with s False show ?thesis by (simp add: mantissa_of_def Let_def s_def[symmetric])
  qed
qed

lemma read_finite_dec_str: "read_finite (dec_str d) = Some d"
proof -
  let ?m = "mantissa_of d (point_of d)"
  define left where "left = expo d + int (length (digits_str (nat \<bar>coef d\<bar>)))"
  define tail where "tail = (if left = point_of d then [] else ''E'' @ signed_str (left - point_of d))"
  have shape: "dec_str d = (if coef d < 0 then ''-'' else []) @ ?m @ tail"
    by (simp add: dec_str_parts Let_def left_def tail_def)
  obtain c r where c: "?m = c # r" "is_digit c" using mantissa_start by blast
  have sign: "read_sign (dec_str d) = (coef d < 0, ?m @ tail)"
    using c digit_not_exp[OF c(2)] by (simp add: shape read_sign_def)
  have chars: "\<forall>x \<in> set ?m. \<not> is_exp x"
    using mantissa_chars[of d "point_of d"] digit_not_exp by (auto simp: is_exp_def)
  have split: "takeWhile (\<lambda>c. \<not> is_exp c) (?m @ tail) = ?m" "dropWhile (\<lambda>c. \<not> is_exp c) (?m @ tail) = tail"
    using chars by (simp_all add: takeWhile_append dropWhile_append tail_def is_exp_def)
  have ex: "read_exponent tail = Some (left - point_of d)"
  proof (cases "left = point_of d")
    case True
    then show ?thesis by (simp add: tail_def read_exponent_def)
  next
    case False
    then show ?thesis using read_exponent_signed by (simp add: tail_def)
  qed
  obtain ds k where m: "read_mantissa ?m = Some (ds, k)" "digits_val ds = nat \<bar>coef d\<bar>"
    "int k = int (length (digits_str (nat \<bar>coef d\<bar>))) - point_of d"
    using mantissa_read by blast
  have "left - point_of d - int k = expo d" by (simp add: left_def m(3))
  then show ?thesis
    unfolding read_finite_def sign Let_def prod.case split m(1) ex option.case
    by (cases d) (simp add: m(2))
qed

lemma dropWhile_none: "\<forall>c \<in> set s. \<not> P c \<Longrightarrow> dropWhile P s = s"
  by (cases s) simp_all

lemma plain_dec_str: "plain_text (dec_str d) = dec_str d"
proof -
  define P where "P = (\<lambda>c. \<not> is_space c \<and> c \<noteq> CHR ''_'')"
  have digit: "is_digit c \<Longrightarrow> P c" for c using digit_not_exp by (simp add: P_def)
  have marks: "P (CHR ''-'')" "P (CHR ''+'')" "P (CHR ''E'')" "P (CHR ''.'')" by (simp_all add: P_def is_space_def)
  have num: "\<forall>c \<in> set (digits_str n). P c" for n
    using digits_str_read[of n] digit by (auto simp: list_all_iff)
  have "\<forall>c \<in> set (signed_str i). P c" for i using num marks by (auto simp: signed_str_def)
  then have e: "\<forall>c \<in> set (if b then [] else ''E'' @ signed_str i). P c" for b i using marks by auto
  have m: "\<forall>c \<in> set (mantissa_of d (point_of d)). P c" using mantissa_chars[of d "point_of d"] digit marks by auto
  have "\<forall>c \<in> set (if coef d < 0 then ''-'' else []). P c" using marks by simp
  with m e have "\<forall>c \<in> set (dec_str d). P c" unfolding dec_str_parts Let_def set_append ball_Un by blast
  then have "\<forall>c \<in> set (dec_str d). \<not> is_space c \<and> c \<noteq> CHR ''_''" by (simp only: P_def)
  then have all: "\<forall>c \<in> set (dec_str d). \<not> is_space c" "\<forall>c \<in> set (dec_str d). c \<noteq> CHR ''_''" by blast+
  have ends: "dropWhile is_space (dec_str d) = dec_str d" "dropWhile is_space (rev (dec_str d)) = rev (dec_str d)"
    by (rule dropWhile_none, use all(1) in simp)+
  show ?thesis unfolding plain_text_def strip_def ends rev_rev_ident using all(2) by (rule filter_True)
qed

subsection \<open>Properties\<close>

text \<open>
  Every decimal survives its text: the volume that the bridge computes and hands over as a decimal is
  the volume the one-time send reads back, digit for digit, and it is refused only when it is not
  positive.
\<close>

theorem volume_text_roundtrip:
  "volume_of_text (dec_str d) = Volume d \<and>
   parse_volume (volume_of_text (dec_str d)) =
     (if dle d dzero then Inl (value_error ''Volume must be a finite positive number'') else Inr d)"
  by (simp add: volume_of_text_def plain_dec_str read_finite_dec_str)

end
