(* ===== verification/LedgerTail.thy ===== *)
theory LedgerTail
  imports Reasons
begin

text \<open>
  Observation of the R01 ledger (bridge/ledger.py): the complete lines appended after the start, each
  read once at its byte offset, and the CSV record of a line. A file is its identity and its bytes; a
  text is kept as its UTF-8 bytes.
\<close>

definition nl :: char where
  "nl = CHR 0x0A"

definition cr :: char where
  "cr = CHR 0x0D"

subsection \<open>One line\<close>

fun next_line :: "string \<Rightarrow> (string \<times> string) option" where
  "next_line [] = None"
| "next_line (c # s) = (if c = nl then Some ([nl], s) else map_option (\<lambda>(l, r). (c # l, r)) (next_line s))"

text \<open>The validity of UTF-8: lead byte, its continuation bytes and the excluded ranges.\<close>

definition cont :: "char \<Rightarrow> bool" where
  "cont c \<longleftrightarrow> code_in 128 191 c"

fun utf8_ok :: "string \<Rightarrow> bool" where
  "utf8_ok [] = True"
| "utf8_ok (a # s) =
     (if code_in 0 127 a then utf8_ok s
      else if code_in 194 223 a then (case s of b # t \<Rightarrow> cont b \<and> utf8_ok (drop 1 s) | [] \<Rightarrow> False)
      else if code_in 224 239 a
      then (case s of
              b # c # t \<Rightarrow> cont b \<and> cont c \<and> (a = CHR 0xE0 \<longrightarrow> code_in 160 191 b) \<and> (a = CHR 0xED \<longrightarrow> code_in 128 159 b) \<and>
                          utf8_ok (drop 2 s)
            | _ \<Rightarrow> False)
      else if code_in 240 244 a
      then (case s of
              b # c # e # t \<Rightarrow> cont b \<and> cont c \<and> cont e \<and> (a = CHR 0xF0 \<longrightarrow> code_in 144 191 b) \<and>
                              (a = CHR 0xF4 \<longrightarrow> code_in 128 143 b) \<and> utf8_ok (drop 3 s)
            | _ \<Rightarrow> False)
      else False)"

text \<open>The reader of the csv module in its default dialect, as its state machine; one line is its input.\<close>

datatype csv_state = Start_record | Start_field | In_field | In_quoted | Quote_in_quoted | Eat_newline

definition csv_error :: exn where
  "csv_error = Exn ''Error'' ''new-line character seen in unquoted field'' None"

definition line_end :: "char \<Rightarrow> bool" where
  "line_end c \<longleftrightarrow> c = nl \<or> c = cr"

text \<open>\<open>fs\<close> are the fields read, \<open>f\<close> the current one; both are kept in reading order.\<close>

fun csv_scan :: "csv_state \<Rightarrow> string list \<Rightarrow> string \<Rightarrow> string \<Rightarrow> string list res" where
  "csv_scan Start_record fs f [] = Inr fs"
| "csv_scan Eat_newline fs f [] = Inr fs"
| "csv_scan st fs f [] = Inr (fs @ [f])"
| "csv_scan Start_record fs f (c # s) =
     (if line_end c then csv_scan Eat_newline fs f s
      else if c = CHR 0x22 then csv_scan In_quoted fs f s
      else if c = CHR '','' then csv_scan Start_field (fs @ [f]) [] s
      else csv_scan In_field fs (f @ [c]) s)"
| "csv_scan Start_field fs f (c # s) =
     (if line_end c then csv_scan Eat_newline (fs @ [f]) [] s
      else if c = CHR 0x22 then csv_scan In_quoted fs f s
      else if c = CHR '','' then csv_scan Start_field (fs @ [f]) [] s
      else csv_scan In_field fs (f @ [c]) s)"
| "csv_scan In_field fs f (c # s) =
     (if line_end c then csv_scan Eat_newline (fs @ [f]) [] s
      else if c = CHR '','' then csv_scan Start_field (fs @ [f]) [] s
      else csv_scan In_field fs (f @ [c]) s)"
| "csv_scan In_quoted fs f (c # s) =
     (if c = CHR 0x22 then csv_scan Quote_in_quoted fs f s else csv_scan In_quoted fs (f @ [c]) s)"
| "csv_scan Quote_in_quoted fs f (c # s) =
     (if c = CHR 0x22 then csv_scan In_quoted fs (f @ [c]) s
      else if c = CHR '','' then csv_scan Start_field (fs @ [f]) [] s
      else if line_end c then csv_scan Eat_newline (fs @ [f]) [] s
      else csv_scan In_field fs (f @ [c]) s)"
| "csv_scan Eat_newline fs f (c # s) = (if line_end c then csv_scan Eat_newline fs f s else Inl csv_error)"

definition csv_row :: "string \<Rightarrow> string list res" where
  "csv_row line = csv_scan Start_record [] [] line"

record ledger_record =
  lr_fields :: "(string \<times> string option) list"
  lr_extra :: "string list"

text \<open>
  \<open>next(DictReader(...))\<close>: an empty row is skipped, and with no further line the iterator is exhausted.
\<close>

definition dict_row :: "string list \<Rightarrow> string list \<Rightarrow> ledger_record res" where
  "dict_row header row =
     (if row = [] then Inl (Exn ''StopIteration'' [] None)
      else Inr \<lparr>lr_fields = zip header (map Some row @ replicate (length header - length row) None),
                lr_extra = drop (length header) row\<rparr>)"

definition parse_line :: "string list \<Rightarrow> string \<Rightarrow> ledger_record res" where
  "parse_line header line =
     (if \<not> utf8_ok line then Inl (Exn ''UnicodeDecodeError'' ''invalid utf-8'' None)
      else bindE (csv_row line) (dict_row header))"

subsection \<open>The tail\<close>

record file_view =
  fv_id :: nat
  fv_bytes :: string

record ledger_tail =
  lt_id :: nat
  lt_header :: "string list"
  lt_offset :: nat
  lt_skip :: bool

definition required_columns :: "string list" where
  "required_columns = [''utc'', ''kind'', ''label'', ''symbol'', ''side'', ''entry'', ''sl'', ''tp'']"

text \<open>The first line without the byte order mark and the blanks at its end.\<close>

definition header_line :: "string \<Rightarrow> string" where
  "header_line bytes =
     (let l = (case next_line bytes of Some (l, _) \<Rightarrow> l | None \<Rightarrow> bytes);
          t = (if take 3 l = [CHR 0xEF, CHR 0xBB, CHR 0xBF] then drop 3 l else l)
      in rev (dropWhile (\<lambda>c. is_space c \<and> code_in 0 127 c) (rev t)))"

definition open_tail :: "file_view \<Rightarrow> ledger_tail res" where
  "open_tail fv =
     (let h = header_line (fv_bytes fv) in
      if \<not> utf8_ok h then Inl (Exn ''UnicodeDecodeError'' ''invalid utf-8'' None)
      else bindE (csv_row h) (\<lambda>header.
        if \<not> set required_columns \<subseteq> set header then Inl (value_error ''Unrecognized R01 ledger header'')
        else Inr \<lparr>lt_id = fv_id fv, lt_header = header, lt_offset = length (fv_bytes fv),
                  lt_skip = (fv_bytes fv \<noteq> [] \<and> last (fv_bytes fv) \<noteq> nl)\<rparr>))"

text \<open>
  Up to \<open>n\<close> complete lines from the offset. A failing line ends the poll with its exception: the rows read
  before it are lost, and the offset is already behind it.
\<close>

fun read_lines ::
  "nat \<Rightarrow> string list \<Rightarrow> nat \<Rightarrow> bool \<Rightarrow> string \<Rightarrow> (nat \<times> ledger_record) list res \<times> nat \<times> bool" where
  "read_lines 0 header off skip s = (Inr [], off, skip)"
| "read_lines (Suc n) header off skip s =
     (case next_line s of
        None \<Rightarrow> (Inr [], off, skip)
      | Some (l, r) \<Rightarrow>
          if skip then read_lines n header (off + length l) False r
          else (case parse_line header l of
                  Inl e \<Rightarrow> (Inl e, off + length l, False)
                | Inr x \<Rightarrow>
                    (case read_lines n header (off + length l) False r of
                       (rs, off', skip') \<Rightarrow> (bindE rs (\<lambda>xs. Inr ((off, x) # xs)), off', skip'))))"

definition poll_limit :: nat where
  "poll_limit = 1000"

definition poll_tail :: "file_view \<Rightarrow> ledger_tail \<Rightarrow> (nat \<times> ledger_record) list res \<times> ledger_tail" where
  "poll_tail fv t =
     (if length (fv_bytes fv) < lt_offset t \<or> fv_id fv \<noteq> lt_id t
      then (Inl (Exn ''RuntimeError'' ''Ledger rotated or truncated; restart observation from its new EOF'' None), t)
      else (case read_lines poll_limit (lt_header t) (lt_offset t) (lt_skip t) (drop (lt_offset t) (fv_bytes fv)) of
              (rs, off, skip) \<Rightarrow> (rs, t\<lparr>lt_offset := off, lt_skip := skip\<rparr>)))"

text \<open>Polls one after another, each on the file as it is then; the first failure ends the observation.\<close>

fun polls :: "file_view list \<Rightarrow> ledger_tail \<Rightarrow> (nat \<times> ledger_record) list res \<times> ledger_tail" where
  "polls [] t = (Inr [], t)"
| "polls (fv # fvs) t =
     (case poll_tail fv t of
        (Inl e, t1) \<Rightarrow> (Inl e, t1)
      | (Inr xs, t1) \<Rightarrow> (case polls fvs t1 of (rs, t2) \<Rightarrow> (bindE rs (\<lambda>ys. Inr (xs @ ys)), t2)))"

text \<open>
  \<open>observe\<close>: poll until the deadline, sleeping at most a quarter of a second in between. \<open>clock i\<close> is the
  \<open>i\<close>-th reading of the monotonic clock in microseconds; fuel bounds the polls.
\<close>

definition nap :: int where
  "nap = 250000"

fun observe_loop ::
  "nat \<Rightarrow> (nat \<Rightarrow> int) \<Rightarrow> (nat \<Rightarrow> file_view) \<Rightarrow> int \<Rightarrow> nat \<Rightarrow> ledger_tail
    \<Rightarrow> ((nat \<times> ledger_record) list res \<times> ledger_tail) option" where
  "observe_loop 0 clock files deadline i t = None"
| "observe_loop (Suc n) clock files deadline i t =
     (case poll_tail (files i) t of
        (Inl e, t1) \<Rightarrow> Some (Inl e, t1)
      | (Inr xs, t1) \<Rightarrow>
          if deadline - clock i \<le> 0 then Some (Inr xs, t1)
          else map_option (\<lambda>(rs, t2). (bindE rs (\<lambda>ys. Inr (xs @ ys)), t2))
                 (observe_loop n clock files deadline (Suc i) t1))"

definition observe ::
  "nat \<Rightarrow> (nat \<Rightarrow> int) \<Rightarrow> (nat \<Rightarrow> file_view) \<Rightarrow> int \<Rightarrow> file_view \<Rightarrow> int
    \<Rightarrow> ((nat \<times> ledger_record) list res \<times> ledger_tail option) option" where
  "observe fuel clock files begun fv duration =
     (if \<not> (0 < duration \<and> duration \<le> 3600000000)
      then Some (Inl (value_error ''Observation duration must be between 0 and 3600 seconds''), None)
      else (case open_tail fv of
              Inl e \<Rightarrow> Some (Inl e, None)
            | Inr t \<Rightarrow> map_option (\<lambda>(rs, t1). (rs, Some t1)) (observe_loop fuel clock files (begun + duration) 0 t)))"

subsection \<open>Specification: the complete lines behind an offset\<close>

lemma next_line_parts: "next_line s = Some (l, r) \<Longrightarrow> s = l @ r \<and> l \<noteq> []"
  by (induction s arbitrary: l r) (auto split: if_splits)

lemma next_line_shorter: "next_line s = Some (l, r) \<Longrightarrow> length r < length s"
  using next_line_parts[of s l r] by (cases l) auto

function appended :: "nat \<Rightarrow> bool \<Rightarrow> string \<Rightarrow> (nat \<times> string) list" where
  "appended off skip s =
     (case next_line s of
        None \<Rightarrow> []
      | Some (l, r) \<Rightarrow> (if skip then [] else [(off, l)]) @ appended (off + length l) False r)"
  by pat_completeness auto
termination by (relation "measure (\<lambda>(_, _, s). length s)") (auto dest: next_line_shorter)

declare appended.simps [simp del]

lemma next_line_append: "next_line s = Some (l, r) \<Longrightarrow> next_line (s @ t) = Some (l, r @ t)"
  by (induction s arbitrary: l r) (auto split: if_splits)

definition parsed :: "string list \<Rightarrow> (nat \<times> string) list \<Rightarrow> (nat \<times> ledger_record) list \<Rightarrow> bool" where
  "parsed header ls rs \<longleftrightarrow> list_all2 (\<lambda>l r. fst r = fst l \<and> parse_line header (snd l) = Inr (snd r)) ls rs"

lemma read_lines_refines:
  "read_lines n header off skip s = (Inr rs, off', skip') \<Longrightarrow>
     \<exists>ls k. off' = off + k \<and> k \<le> length s \<and> parsed header ls rs \<and>
       (\<forall>t. appended off skip (s @ t) = ls @ appended off' skip' (drop k s @ t))"
proof (induction n arbitrary: off skip s rs off' skip')
  case 0
  then show ?case by (intro exI[of _ "[]"] exI[of _ 0]) (simp add: parsed_def)
next
  case (Suc n)
  show ?case
  proof (cases "next_line s")
    case None
    with Suc.prems show ?thesis by (intro exI[of _ "[]"] exI[of _ 0]) (simp add: parsed_def)
  next
    case (Some lr)
    obtain l r where lr: "next_line s = Some (l, r)" using Some by (cases lr) simp
    have s: "s = l @ r" using next_line_parts[OF lr] by simp
    have step: "appended off skip (s @ t) = (if skip then [] else [(off, l)]) @ appended (off + length l) False (r @ t)" for t
      using next_line_append[OF lr, of t] by (simp add: appended.simps[of off skip])
    obtain xs where rest: "read_lines n header (off + length l) False r = (Inr xs, off', skip')"
      and head: "rs = (if skip then xs else (off, projr (parse_line header l)) # xs)"
        "skip \<or> (\<exists>x. parse_line header l = Inr x)"
      using Suc.prems lr by (auto simp: bindE_Inr split: if_splits sum.splits prod.splits)
    from Suc.IH[OF rest] obtain ls k where ih: "off' = off + length l + k" "k \<le> length r" "parsed header ls xs"
      "\<forall>t. appended (off + length l) False (r @ t) = ls @ appended off' skip' (drop k r @ t)" by auto
    let ?ls = "(if skip then [] else [(off, l)]) @ ls"
    have "parsed header ?ls rs" using ih(3) head by (auto simp: parsed_def)
    moreover have "appended off skip (s @ t) = ?ls @ appended off' skip' (drop (length l + k) s @ t)" for t
      using step[of t] ih(4) s by simp
    ultimately show ?thesis using ih(1,2) s by (intro exI[of _ ?ls] exI[of _ "length l + k"]) simp
  qed
qed

lemma poll_refines:
  assumes "poll_tail fv t = (Inr rs, t')"
  shows "lt_id t' = lt_id t \<and> lt_header t' = lt_header t \<and> lt_offset t \<le> lt_offset t' \<and> lt_offset t' \<le> length (fv_bytes fv) \<and>
    (\<exists>ls. parsed (lt_header t) ls rs \<and>
       (\<forall>more. appended (lt_offset t) (lt_skip t) (drop (lt_offset t) (fv_bytes fv @ more)) =
          ls @ appended (lt_offset t') (lt_skip t') (drop (lt_offset t') (fv_bytes fv @ more))))"
proof -
  have len: "lt_offset t \<le> length (fv_bytes fv)" using assms by (auto simp: poll_tail_def split: if_splits)
  obtain off skip where r: "read_lines poll_limit (lt_header t) (lt_offset t) (lt_skip t) (drop (lt_offset t) (fv_bytes fv)) = (Inr rs, off, skip)"
    "t' = t\<lparr>lt_offset := off, lt_skip := skip\<rparr>"
    using assms by (auto simp: poll_tail_def split: if_splits prod.splits)
  from read_lines_refines[OF r(1)] obtain ls k where k: "off = lt_offset t + k" "k \<le> length (fv_bytes fv) - lt_offset t"
    "parsed (lt_header t) ls rs"
    "\<forall>more. appended (lt_offset t) (lt_skip t) (drop (lt_offset t) (fv_bytes fv) @ more) =
       ls @ appended off skip (drop k (drop (lt_offset t) (fv_bytes fv)) @ more)" by auto
  have "drop (lt_offset t) (fv_bytes fv @ more) = drop (lt_offset t) (fv_bytes fv) @ more"
    "drop off (fv_bytes fv @ more) = drop k (drop (lt_offset t) (fv_bytes fv)) @ more" for more
    using len k(1,2) by (simp_all add: add.commute)
  with k r(2) len show ?thesis by (intro conjI exI[of _ ls]) simp_all
qed

lemma parsed_append: "parsed h a b \<Longrightarrow> parsed h c d \<Longrightarrow> parsed h (a @ c) (b @ d)"
  by (simp add: parsed_def list_all2_appendI)

text \<open>The file only grows: each view extends the one before.\<close>

fun grows :: "string \<Rightarrow> file_view list \<Rightarrow> bool" where
  "grows bytes [] = True"
| "grows bytes (fv # fvs) = (take (length bytes) (fv_bytes fv) = bytes \<and> grows (fv_bytes fv) fvs)"

fun final_bytes :: "string \<Rightarrow> file_view list \<Rightarrow> string" where
  "final_bytes bytes [] = bytes"
| "final_bytes bytes (fv # fvs) = final_bytes (fv_bytes fv) fvs"

lemma grows_extends: "grows bytes fvs \<Longrightarrow> \<exists>more. final_bytes bytes fvs = bytes @ more"
proof (induction fvs arbitrary: bytes)
  case (Cons fv fvs)
  then obtain m where "final_bytes (fv_bytes fv) fvs = fv_bytes fv @ m" by auto
  moreover have "fv_bytes fv = bytes @ drop (length bytes) (fv_bytes fv)"
    using Cons.prems append_take_drop_id[of "length bytes" "fv_bytes fv"] by simp
  ultimately have "final_bytes bytes (fv # fvs) = bytes @ drop (length bytes) (fv_bytes fv) @ m" by simp
  then show ?case by blast
qed simp

subsection \<open>Properties\<close>

text \<open>
  C26: while the file only grows, any polls deliver the complete lines behind the start offset, each once,
  in order, at its byte offset and parsed: what was delivered followed by what the next offset still has
  ahead is the list of complete lines of the whole file, wherever the writes were cut.
\<close>

theorem polls_refine_appended:
  assumes "polls fvs t = (Inr rs, t')" "grows bytes fvs"
  shows "\<exists>ls. parsed (lt_header t) ls rs \<and>
    appended (lt_offset t) (lt_skip t) (drop (lt_offset t) (final_bytes bytes fvs)) =
      ls @ appended (lt_offset t') (lt_skip t') (drop (lt_offset t') (final_bytes bytes fvs))"
  using assms
proof (induction fvs arbitrary: t rs bytes)
  case Nil
  then show ?case by (intro exI[of _ "[]"]) (simp add: parsed_def)
next
  case (Cons fv fvs)
  obtain xs t1 where one: "poll_tail fv t = (Inr xs, t1)" using Cons.prems(1) by (auto split: prod.splits sum.splits)
  then obtain ys where rest: "polls fvs t1 = (Inr ys, t')" "rs = xs @ ys"
    using Cons.prems(1) by (auto simp: bindE_Inr split: prod.splits)
  let ?z = "final_bytes bytes (fv # fvs)"
  obtain more where z: "?z = fv_bytes fv @ more" using grows_extends[of "fv_bytes fv" fvs] Cons.prems(2) by auto
  from poll_refines[OF one] obtain l1 where l1: "parsed (lt_header t) l1 xs" "lt_header t1 = lt_header t"
    "appended (lt_offset t) (lt_skip t) (drop (lt_offset t) ?z) = l1 @ appended (lt_offset t1) (lt_skip t1) (drop (lt_offset t1) ?z)"
    unfolding z by blast
  from Cons.IH[OF rest(1)] Cons.prems(2) obtain l2 where l2: "parsed (lt_header t1) l2 ys"
    "appended (lt_offset t1) (lt_skip t1) (drop (lt_offset t1) ?z) = l2 @ appended (lt_offset t') (lt_skip t') (drop (lt_offset t') ?z)"
    by auto
  show ?case
    using parsed_append[OF l1(1)] l2 l1(2,3) rest(2) by (intro exI[of _ "l1 @ l2"]) simp
qed

lemma read_lines_drains:
  "read_lines n header off skip s = (Inr rs, off', skip') \<Longrightarrow> length (appended off False s) < n \<Longrightarrow>
     \<exists>k. off' = off + k \<and> appended off' skip' (drop k s) = []"
proof (induction n arbitrary: off skip s rs off' skip')
  case (Suc n)
  show ?case
  proof (cases "next_line s")
    case None
    with Suc.prems show ?thesis by (intro exI[of _ 0]) (simp add: appended.simps)
  next
    case (Some lr)
    obtain l r where lr: "next_line s = Some (l, r)" using Some by (cases lr) simp
    have s: "s = l @ r" using next_line_parts[OF lr] by simp
    obtain xs where rest: "read_lines n header (off + length l) False r = (Inr xs, off', skip')"
      using Suc.prems(1) lr by (auto simp: bindE_Inr split: if_splits sum.splits prod.splits)
    have "length (appended (off + length l) False r) < n"
      using Suc.prems(2) lr by (simp add: appended.simps[of off False s])
    from Suc.IH[OF rest this] obtain k where "off' = off + length l + k" "appended off' skip' (drop k r) = []" by auto
    with s show ?thesis by (intro exI[of _ "length l + k"]) simp
  qed
qed simp

text \<open>
  A poll that had fewer than its thousand lines ahead and raised nothing leaves no complete line
  behind: only an unfinished last line waits for its end.
\<close>

theorem poll_leaves_no_line:
  assumes "poll_tail fv t = (Inr rs, t')"
    "length (appended (lt_offset t) False (drop (lt_offset t) (fv_bytes fv))) < 1000"
  shows "appended (lt_offset t') (lt_skip t') (drop (lt_offset t') (fv_bytes fv)) = []"
proof -
  obtain off skip where r: "read_lines poll_limit (lt_header t) (lt_offset t) (lt_skip t) (drop (lt_offset t) (fv_bytes fv)) = (Inr rs, off, skip)"
    "t' = t\<lparr>lt_offset := off, lt_skip := skip\<rparr>"
    using assms(1) by (auto simp: poll_tail_def split: if_splits prod.splits)
  from read_lines_drains[OF r(1)] assms(2) obtain k where "off = lt_offset t + k"
    "appended off skip (drop k (drop (lt_offset t) (fv_bytes fv))) = []" by (auto simp: poll_limit_def)
  then show ?thesis using r(2) by (simp add: add.commute)
qed

lemma observe_loop_ends:
  assumes "\<And>i. clock (Suc i) \<ge> clock i + min nap (deadline - clock i)"
  shows "deadline - clock i \<le> int n * nap \<Longrightarrow> observe_loop (Suc n) clock files deadline i t \<noteq> None"
proof (induction n arbitrary: i t)
  case 0
  then show ?case by (auto split: prod.splits sum.splits)
next
  case (Suc n)
  obtain r t1 where p: "poll_tail (files i) t = (r, t1)" by (metis prod.exhaust)
  show ?case
  proof (cases "deadline - clock i \<le> 0")
    case True
    with p show ?thesis by (auto split: sum.splits)
  next
    case False
    have "deadline - clock (Suc i) \<le> int n * nap"
      using assms[of i] Suc.prems by (auto simp: min_def nap_def split: if_splits)
    with Suc.IH have "observe_loop (Suc n) clock files deadline (Suc i) t1 \<noteq> None" by blast
    then show ?thesis
      using p by (subst observe_loop.simps) (auto simp del: observe_loop.simps split: sum.splits)
  qed
qed

text \<open>
  C27: the observation ends: when every sleep lets the clock pass the quarter of a second, or what is left
  to the deadline, it makes at most four polls for each second asked for and one more, whatever the file
  does.
\<close>

theorem observation_terminates:
  assumes "\<And>i. clock (Suc i) \<ge> clock i + min nap (begun + duration - clock i)" "clock 0 \<ge> begun"
    "4 * duration \<le> int n * 1000000"
  shows "\<exists>r. observe (Suc n) clock files begun fv duration = Some r"
proof -
  have "begun + duration - clock 0 \<le> int n * nap" using assms(2,3) by (simp add: nap_def)
  from observe_loop_ends[of clock "begun + duration", OF assms(1) this]
  have "observe_loop (Suc n) clock files (begun + duration) 0 t \<noteq> None" for t .
  then show ?thesis by (auto simp: observe_def split: sum.splits simp del: observe_loop.simps)
qed

text \<open>
  An empty line is fatal: the poll that meets it raises out of the record reader, returns none of the
  lines read before it, and the offset has already moved past them.
\<close>

theorem blank_line_loses_rows:
  assumes "parse_line h l = Inr x" "next_line s = Some (l, [cr, nl] @ r)"
  shows "read_lines (Suc (Suc n)) h off False s = (Inl (Exn ''StopIteration'' [] None), off + length l + 2, False)"
proof -
  have "next_line ([cr, nl] @ r) = Some ([cr, nl], r)" by (simp add: cr_def nl_def)
  moreover have "parse_line h [cr, nl] = Inl (Exn ''StopIteration'' [] None)"
    by (simp add: parse_line_def csv_row_def dict_row_def cr_def nl_def line_end_def code_in_def bindE_def)
  ultimately show ?thesis using assms by (simp add: bindE_def)
qed

subsection \<open>A concrete ledger\<close>

definition sample_header :: "string list" where
  "sample_header = [''a'', ''b'']"

definition sample_tail :: ledger_tail where
  "sample_tail = \<lparr>lt_id = 1, lt_header = sample_header, lt_offset = 2, lt_skip = False\<rparr>"

text \<open>Two views of a file, the first cut inside a line with a quoted comma.\<close>

definition sample_views :: "file_view list" where
  "sample_views =
     [\<lparr>fv_id = 1, fv_bytes = [CHR ''h'', nl] @ ''1,2'' @ [nl, CHR 0x22] @ ''x''\<rparr>,
      \<lparr>fv_id = 1, fv_bytes = [CHR ''h'', nl] @ ''1,2'' @ [nl, CHR 0x22] @ ''x,y'' @ [CHR 0x22] @ '',3'' @ [nl]\<rparr>]"

lemma sample_polls:
  "fst (polls sample_views sample_tail) =
     Inr [(2, \<lparr>lr_fields = [(''a'', Some ''1''), (''b'', Some ''2'')], lr_extra = []\<rparr>),
          (6, \<lparr>lr_fields = [(''a'', Some ''x,y''), (''b'', Some ''3'')], lr_extra = []\<rparr>)]"
  by code_simp

theorem polls_refine_appended_witness:
  "\<exists>ls (t'::ledger_tail). parsed sample_header ls
       [(2, \<lparr>lr_fields = [(''a'', Some ''1''), (''b'', Some ''2'')], lr_extra = []\<rparr>),
        (6, \<lparr>lr_fields = [(''a'', Some ''x,y''), (''b'', Some ''3'')], lr_extra = []\<rparr>)] \<and>
     appended 2 False (drop 2 (final_bytes [] sample_views)) =
       ls @ appended (lt_offset t') (lt_skip t') (drop (lt_offset t') (final_bytes [] sample_views))"
proof -
  have r: "polls sample_views sample_tail = (Inr [(2, \<lparr>lr_fields = [(''a'', Some ''1''), (''b'', Some ''2'')], lr_extra = []\<rparr>),
        (6, \<lparr>lr_fields = [(''a'', Some ''x,y''), (''b'', Some ''3'')], lr_extra = []\<rparr>)], snd (polls sample_views sample_tail))"
    using sample_polls by (metis prod.collapse)
  have g: "grows [] sample_views" by code_simp
  have t: "lt_header sample_tail = sample_header" "lt_offset sample_tail = 2" "lt_skip sample_tail = False"
    by (simp_all add: sample_tail_def)
  from polls_refine_appended[OF r g] obtain ls where ls: "parsed sample_header ls
       [(2, \<lparr>lr_fields = [(''a'', Some ''1''), (''b'', Some ''2'')], lr_extra = []\<rparr>),
        (6, \<lparr>lr_fields = [(''a'', Some ''x,y''), (''b'', Some ''3'')], lr_extra = []\<rparr>)]"
    "appended 2 False (drop 2 (final_bytes [] sample_views)) =
       ls @ appended (lt_offset (snd (polls sample_views sample_tail))) (lt_skip (snd (polls sample_views sample_tail)))
              (drop (lt_offset (snd (polls sample_views sample_tail))) (final_bytes [] sample_views))"
    unfolding t by (elim exE conjE)
  show ?thesis
    by (rule exI[of _ ls], rule exI[of _ "snd (polls sample_views sample_tail)"], rule conjI[OF ls])
qed

theorem poll_leaves_no_line_witness:
  "\<exists>t'::ledger_tail. appended (lt_offset t') (lt_skip t') (drop (lt_offset t') (fv_bytes (hd sample_views))) = []"
proof -
  have "case poll_tail (hd sample_views) sample_tail of (Inr rs, _) \<Rightarrow> True | _ \<Rightarrow> False" by code_simp
  then obtain rs t' where "poll_tail (hd sample_views) sample_tail = (Inr rs, t')"
    by (auto split: prod.splits sum.splits)
  moreover have "length (appended (lt_offset sample_tail) False (drop (lt_offset sample_tail) (fv_bytes (hd sample_views)))) < 1000"
    by code_simp
  ultimately have "appended (lt_offset t') (lt_skip t') (drop (lt_offset t') (fv_bytes (hd sample_views))) = []"
    by (rule poll_leaves_no_line)
  then show ?thesis by (rule exI)
qed

theorem observation_terminates_witness:
  "\<exists>r. observe 5 (\<lambda>i. int i * 250000) (\<lambda>_. hd sample_views) 0 (hd sample_views) 1000000 = Some r"
  using observation_terminates[of "\<lambda>i. int i * 250000" 0 1000000 4 "\<lambda>_. hd sample_views" "hd sample_views"]
  by (simp add: nap_def min_def)

theorem blank_line_loses_rows_witness:
  "read_lines 2 sample_header 0 False (''1,2'' @ [nl, cr, nl]) = (Inl (Exn ''StopIteration'' [] None), 6, False)"
proof -
  have "parse_line sample_header (''1,2'' @ [nl]) = Inr \<lparr>lr_fields = [(''a'', Some ''1''), (''b'', Some ''2'')], lr_extra = []\<rparr>"
    by code_simp
  moreover have "next_line (''1,2'' @ [nl, cr, nl]) = Some (''1,2'' @ [nl], [cr, nl] @ [])" by code_simp
  ultimately have "read_lines (Suc (Suc 0)) sample_header 0 False (''1,2'' @ [nl, cr, nl]) =
      (Inl (Exn ''StopIteration'' [] None), 0 + length (''1,2'' @ [nl]) + 2, False)"
    by (rule blank_line_loses_rows)
  then show ?thesis by (simp add: numeral_2_eq_2)
qed

end
