(* ===== verification/Bridge.thy ===== *)
theory Bridge
  imports MappingLedger
begin

text \<open>
  The shadow bridge: the sender contract (bridge/event.py), the previews of requests (bridge/planner.py),
  the durable deduplication (bridge/journal.py) and the facade with its authenticated ingress
  (bridge/api.py, bridge/server.py). Nothing here reaches a broker.
\<close>

subsection \<open>The event\<close>

datatype order_verb = V_CREATE | V_EDIT | V_CANCEL

record order_event =
  oe_machine :: string
  oe_strategy :: string
  oe_id :: string
  oe_order :: string
  oe_revision :: int
  oe_emitted :: int
  oe_account :: string
  oe_action :: order_verb
  oe_instrument :: string
  oe_side :: string
  oe_type :: string
  oe_volume :: "decimal option"
  oe_price :: "decimal option"
  oe_trigger :: "decimal option"
  oe_sl :: "decimal option"
  oe_tp :: "decimal option"

definition sender_char :: "char \<Rightarrow> bool" where
  "sender_char c \<longleftrightarrow>
     (let n = (of_char c :: nat) in
      65 \<le> n \<and> n \<le> 90 \<or> 97 \<le> n \<and> n \<le> 122 \<or> 48 \<le> n \<and> n \<le> 57 \<or> c \<in> {CHR ''_'', CHR ''.'', CHR '':'', CHR ''-''})"

definition sender_name :: "string \<Rightarrow> bool" where
  "sender_name s \<longleftrightarrow> str_between 1 160 s \<and> list_all sender_char s"

text \<open>White space of the field pattern; the separators 0x1C to 0x1F are none there.\<close>

definition white_space :: "char \<Rightarrow> bool" where
  "white_space c \<longleftrightarrow> c \<in> {CHR '' '', CHR 0x09, CHR 0x0A, CHR 0x0B, CHR 0x0C, CHR 0x0D, CHR 0x85, CHR 0xA0}"

definition positive_opt :: "decimal option \<Rightarrow> bool" where
  "positive_opt x \<longleftrightarrow> (case x of Some d \<Rightarrow> coef d > 0 | None \<Rightarrow> True)"

definition nonneg_opt :: "decimal option \<Rightarrow> bool" where
  "nonneg_opt x \<longleftrightarrow> (case x of Some d \<Rightarrow> coef d \<ge> 0 | None \<Rightarrow> True)"

definition fields_valid :: "order_event \<Rightarrow> bool" where
  "fields_valid e \<longleftrightarrow>
     sender_name (oe_machine e) \<and> sender_name (oe_strategy e) \<and> sender_name (oe_id e) \<and> sender_name (oe_order e) \<and>
     oe_revision e \<ge> 1 \<and> sender_name (oe_account e) \<and> str_between 1 64 (oe_instrument e) \<and>
     list_all (\<lambda>c. \<not> white_space c) (oe_instrument e) \<and> oe_side e \<in> {''BUY'', ''SELL''} \<and>
     oe_type e \<in> {''MARKET'', ''LIMIT'', ''STOP'', ''STOP_LIMIT''} \<and> positive_opt (oe_volume e) \<and> positive_opt (oe_price e) \<and>
     positive_opt (oe_trigger e) \<and> nonneg_opt (oe_sl e) \<and> nonneg_opt (oe_tp e)"

definition complete_state :: "order_event \<Rightarrow> unit res" where
  "complete_state e =
     (if oe_action e \<noteq> V_CANCEL \<and> (oe_volume e = None \<or> oe_sl e = None \<or> oe_tp e = None)
      then Inl (value_error ''CREATE/EDIT require lot size and explicit SL/TP (zero means unset)'')
      else if oe_action e \<noteq> V_CANCEL \<and> oe_type e \<noteq> ''MARKET'' \<and> oe_price e = None
      then Inl (value_error ''Pending orders require price'')
      else if oe_type e = ''STOP_LIMIT'' \<and> oe_trigger e = None
      then Inl (value_error ''STOP_LIMIT requires a separate trigger price'')
      else if oe_type e \<noteq> ''STOP_LIMIT'' \<and> oe_trigger e \<noteq> None
      then Inl (value_error ''Separate trigger price is only valid for STOP_LIMIT'')
      else if oe_type e = ''MARKET'' \<and> oe_price e \<noteq> None
      then Inl (value_error ''MARKET must not carry a pending entry price'')
      else Inr ())"

definition validate_event :: "order_event \<Rightarrow> order_event res" where
  "validate_event e =
     (if \<not> fields_valid e then Inl (Exn ''ValidationError'' ''validation error'' None)
      else bindE (complete_state e) (\<lambda>_. Inr e))"

definition order_key :: "order_event \<Rightarrow> string list" where
  "order_key e = [oe_machine e, oe_strategy e, oe_account e, oe_order e]"

definition bridge_key :: "order_event \<Rightarrow> string list" where
  "bridge_key e = [oe_machine e, oe_strategy e, oe_account e, oe_id e]"

subsection \<open>Previews\<close>

record preview_request =
  pq_operation :: string
  pq_instrument :: string
  pq_side :: string
  pq_volume :: "decimal option"
  pq_sl :: "decimal option"
  pq_tp :: "decimal option"
  pq_price :: "decimal option"
  pq_type :: "string option"

datatype preview_result = Held string | Preview preview_request

definition bracket_direction :: "order_event \<Rightarrow> decimal \<Rightarrow> decimal \<Rightarrow> decimal \<Rightarrow> bool" where
  "bracket_direction e price sl tp =
     (if oe_side e = ''BUY''
      then (deq sl dzero \<or> dlt sl price) \<and> (deq tp dzero \<or> dlt price tp)
      else (deq sl dzero \<or> dlt price sl) \<and> (deq tp dzero \<or> dlt tp price))"

definition preview_body :: "order_event \<Rightarrow> preview_request" where
  "preview_body e =
     \<lparr>pq_operation = (if oe_type e = ''MARKET'' then ''open_position'' else ''create_pending_order''),
      pq_instrument = oe_instrument e, pq_side = oe_side e, pq_volume = oe_volume e, pq_sl = oe_sl e, pq_tp = oe_tp e,
      pq_price = (if oe_type e = ''MARKET'' then None else oe_price e),
      pq_type = (if oe_type e = ''MARKET'' then None else Some (oe_type e))\<rparr>"

text \<open>Instants in microseconds; brackets of a CREATE are present by the validation of the event.\<close>

definition preview :: "order_event \<Rightarrow> string \<Rightarrow> int \<Rightarrow> int \<Rightarrow> preview_result" where
  "preview e account received max_age =
     (let age = received - oe_emitted e in
      if oe_account e \<noteq> account then Held ''account_mismatch''
      else if age > max_age \<or> age < -5000000 then Held ''stale_or_future_timestamp''
      else if oe_type e = ''STOP_LIMIT'' then Held ''native_stop_limit_not_verified''
      else if oe_action e \<noteq> V_CREATE then Held ''edit_cancel_require_verified_broker_order_mapping''
      else (case (oe_price e, oe_sl e, oe_tp e) of
              (Some p, Some sl, Some tp) \<Rightarrow>
                if bracket_direction e p sl tp then Preview (preview_body e) else Held ''invalid_bracket_direction''
            | _ \<Rightarrow> Preview (preview_body e)))"

subsection \<open>The journal\<close>

record bridge_row =
  br_key :: "string list"
  br_order :: "string list"
  br_revision :: int
  br_event :: order_event
  br_received :: int
  br_result :: preview_result

text \<open>The answer of the bridge: never ready for execution, with no broker identity.\<close>

record bridge_answer =
  ba_result :: preview_result
  ba_received :: "int option"
  ba_duplicate :: bool

definition last_revision :: "string list \<Rightarrow> bridge_row list \<Rightarrow> int option" where
  "last_revision k rows =
     (case filter (\<lambda>r. br_order r = k) rows of [] \<Rightarrow> None | rs \<Rightarrow> Some (Max (br_revision ` set rs)))"

text \<open>Two events are the same payload when they are equal; the code compares their digests.\<close>

definition record_order ::
  "order_event \<Rightarrow> int \<Rightarrow> preview_result \<Rightarrow> bridge_row list \<Rightarrow> bridge_answer \<times> bridge_row list" where
  "record_order e received decided rows =
     (case find (\<lambda>r. br_key r = bridge_key e) rows of
        Some old \<Rightarrow>
          if br_event old \<noteq> e
          then (\<lparr>ba_result = Held ''event_id_payload_conflict'', ba_received = None, ba_duplicate = False\<rparr>, rows)
          else (\<lparr>ba_result = br_result old, ba_received = Some (br_received old), ba_duplicate = True\<rparr>, rows)
      | None \<Rightarrow>
          (let stale = (case last_revision (order_key e) rows of
                          None \<Rightarrow> False | Some l \<Rightarrow> oe_revision e \<le> l \<or> oe_action e = V_CREATE);
               r = (if stale then Held ''stale_revision_or_repeated_create'' else decided)
           in (\<lparr>ba_result = r, ba_received = Some received, ba_duplicate = False\<rparr>,
               rows @ [\<lparr>br_key = bridge_key e, br_order = order_key e, br_revision = oe_revision e, br_event = e,
                        br_received = received, br_result = r\<rparr>])))"

subsection \<open>The facade and the ingress\<close>

text \<open>An observation row: instant, path, byte offset and payload; its id is its position.\<close>

type_synonym observed_line = "int \<times> string \<times> nat \<times> string"

record shadow_bridge =
  sb_account :: string
  sb_max_age :: int
  sb_rows :: "bridge_row list"
  sb_lines :: "observed_line list"

definition strip_text :: "string \<Rightarrow> string" where
  "strip_text s = rev (dropWhile is_space (rev (dropWhile is_space s)))"

text \<open>A bridge on the rows its journal file holds.\<close>

definition open_bridge :: "string \<Rightarrow> int \<Rightarrow> bridge_row list \<Rightarrow> observed_line list \<Rightarrow> shadow_bridge res" where
  "open_bridge account max_age rows lines =
     (if is_blank account \<or> max_age \<le> 0 then Inl (value_error ''Explicit account and positive maximum event age required'')
      else Inr \<lparr>sb_account = strip_text account, sb_max_age = max_age, sb_rows = rows, sb_lines = lines\<rparr>)"

definition observe_line :: "int \<Rightarrow> string \<Rightarrow> nat \<Rightarrow> string \<Rightarrow> shadow_bridge \<Rightarrow> shadow_bridge" where
  "observe_line received path offset payload b = b\<lparr>sb_lines := sb_lines b @ [(received, path, offset, payload)]\<rparr>"

definition receive_order :: "order_event \<Rightarrow> int \<Rightarrow> shadow_bridge \<Rightarrow> bridge_answer res \<times> shadow_bridge" where
  "receive_order e received b =
     (case validate_event e of
        Inl x \<Rightarrow> (Inl x, b)
      | Inr v \<Rightarrow>
          (let (a, rows) = record_order v received (preview v (sb_account b) received (sb_max_age b)) (sb_rows b)
           in (Inr a, b\<lparr>sb_rows := rows\<rparr>)))"

datatype ingress_reply = Unauthorized | Body_too_large | Invalid_event | Captured bridge_answer

text \<open>The body arrives as its length and what it parses to, if it is a JSON object of the event's shape.\<close>

definition ingest ::
  "string \<Rightarrow> nat \<Rightarrow> order_event option \<Rightarrow> string \<Rightarrow> int \<Rightarrow> shadow_bridge \<Rightarrow> ingress_reply \<times> shadow_bridge" where
  "ingest authorization n payload token received b =
     (if authorization \<noteq> ''Bearer '' @ token then (Unauthorized, b)
      else if n > 16384 then (Body_too_large, b)
      else (case payload of
              None \<Rightarrow> (Invalid_event, b)
            | Some e \<Rightarrow>
                (case receive_order e received b of
                   (Inl x, b1) \<Rightarrow> (Invalid_event, b1)
                 | (Inr a, b1) \<Rightarrow> (Captured a, b1))))"

text \<open>The token a server starts with: at least 32 ASCII characters without white space.\<close>

definition token_allowed :: "string \<Rightarrow> bool" where
  "token_allowed t \<longleftrightarrow> 32 \<le> length t \<and> list_all (\<lambda>c. (of_char c :: nat) < 128) t \<and> list_all (\<lambda>c. \<not> is_space c) t"

text \<open>
  A POST: its path, the Content-Length headers read as integers (None when one does not parse), whether
  it has a Transfer-Encoding, its Authorization header, and the body read, None when reading timed out.
\<close>

datatype post_reply = Not_found | Invalid_length | Request_timeout | Ingested ingress_reply

definition body_length :: "int option list \<Rightarrow> int" where
  "body_length lengths = (case lengths of [Some n] \<Rightarrow> n | _ \<Rightarrow> -1)"

definition do_post ::
  "string \<Rightarrow> int option list \<Rightarrow> bool \<Rightarrow> string \<Rightarrow> (nat \<times> order_event option) option \<Rightarrow> string \<Rightarrow> int \<Rightarrow> shadow_bridge \<Rightarrow>
     post_reply \<times> shadow_bridge" where
  "do_post path lengths transfer authorization body token received b =
     (if path \<noteq> ''/events'' then (Not_found, b)
      else if body_length lengths < 0 \<or> body_length lengths > 16384 \<or> transfer then (Invalid_length, b)
      else (case body of
              None \<Rightarrow> (Request_timeout, b)
            | Some (n, payload) \<Rightarrow> (let (r, b1) = ingest authorization n payload token received b in (Ingested r, b1))))"

subsection \<open>One preview per order\<close>

definition bridge_keys_unique :: "bridge_row list \<Rightarrow> bool" where
  "bridge_keys_unique rows \<longleftrightarrow> unique_key br_key rows"

definition is_preview :: "bridge_row \<Rightarrow> bool" where
  "is_preview r \<longleftrightarrow> (case br_result r of Preview _ \<Rightarrow> True | Held _ \<Rightarrow> False)"

text \<open>The rows of an order that preview a request; the first row of an order is the only candidate.\<close>

definition previews_of :: "string list \<Rightarrow> bridge_row list \<Rightarrow> bridge_row list" where
  "previews_of k rows = filter (\<lambda>r. br_order r = k \<and> is_preview r) rows"

definition bridge_ok :: "bridge_row list \<Rightarrow> bool" where
  "bridge_ok rows \<longleftrightarrow>
     bridge_keys_unique rows \<and> (\<forall>k. length (previews_of k rows) \<le> 1) \<and>
     (\<forall>r \<in> set rows. br_order r = order_key (br_event r) \<and> br_key r = bridge_key (br_event r) \<and>
                       br_revision r = oe_revision (br_event r))"

lemma preview_creates: "preview e account received max_age = Preview q \<Longrightarrow> oe_action e = V_CREATE"
  by (auto simp: preview_def Let_def split: if_splits)

lemma last_revision_None: "last_revision k rows = None \<longleftrightarrow> (\<forall>r \<in> set rows. br_order r \<noteq> k)"
proof (cases "filter (\<lambda>r. br_order r = k) rows")
  case Nil
  then show ?thesis by (simp add: last_revision_def filter_empty_conv)
next
  case (Cons x xs)
  have "x \<in> set (filter (\<lambda>r. br_order r = k) rows)" by (simp add: Cons)
  then have "x \<in> set rows \<and> br_order x = k" by simp
  with Cons show ?thesis by (auto simp: last_revision_def simp del: filter_eq_Cons_iff)
qed

lemma previews_none: "\<forall>r \<in> set rows. br_order r \<noteq> k \<Longrightarrow> previews_of k rows = []"
  by (simp add: previews_of_def filter_empty_conv)

lemma record_order_ok:
  assumes "bridge_ok rows" "\<And>q. decided = Preview q \<Longrightarrow> oe_action e = V_CREATE"
  shows "bridge_ok (snd (record_order e received decided rows))"
proof (cases "find (\<lambda>r. br_key r = bridge_key e) rows")
  case (Some old)
  with assms(1) show ?thesis by (simp add: record_order_def)
next
  case None
  define stale where "stale = (case last_revision (order_key e) rows of
                          None \<Rightarrow> False | Some l \<Rightarrow> oe_revision e \<le> l \<or> oe_action e = V_CREATE)"
  define new where "new = \<lparr>br_key = bridge_key e, br_order = order_key e, br_revision = oe_revision e, br_event = e,
                        br_received = received, br_result = (if stale then Held ''stale_revision_or_repeated_create'' else decided)\<rparr>"
  have rows': "snd (record_order e received decided rows) = rows @ [new]"
    using None by (simp add: record_order_def Let_def stale_def new_def)
  have keys: "bridge_keys_unique (rows @ [new])"
    using assms(1) None find_None_has_key[of br_key "bridge_key e" rows]
    by (simp add: bridge_ok_def bridge_keys_unique_def unique_snoc new_def)
  have one: "length (previews_of k (rows @ [new])) \<le> 1" for k
  proof (cases "br_order new = k \<and> is_preview new")
    case True
    then obtain q where q: "\<not> stale" "decided = Preview q" and k: "k = order_key e"
      by (auto simp: new_def is_preview_def split: if_splits preview_result.splits)
    have "last_revision (order_key e) rows = None"
      using q assms(2)[OF q(2)] by (auto simp: stale_def split: option.splits)
    then have "previews_of k rows = []" unfolding k last_revision_None by (rule previews_none)
    then show ?thesis by (simp add: previews_of_def)
  next
    case False
    then have "previews_of k (rows @ [new]) = previews_of k rows" by (auto simp: previews_of_def)
    with assms(1) show ?thesis by (simp add: bridge_ok_def)
  qed
  show ?thesis
    unfolding rows' bridge_ok_def using keys one assms(1) by (auto simp: bridge_ok_def new_def)
qed

lemma receive_order_ok: "bridge_ok (sb_rows b) \<Longrightarrow> bridge_ok (sb_rows (snd (receive_order e received b)))"
proof -
  assume ok: "bridge_ok (sb_rows b)"
  have "bridge_ok (snd (record_order v received (preview v (sb_account b) received (sb_max_age b)) (sb_rows b)))" for v
    by (rule record_order_ok[OF ok]) (rule preview_creates)
  then show ?thesis by (auto simp: receive_order_def ok split: sum.splits prod.splits) (metis snd_conv)
qed

lemma ingest_ok: "bridge_ok (sb_rows b) \<Longrightarrow> bridge_ok (sb_rows (snd (ingest authorization n payload token received b)))"
  using receive_order_ok by (auto simp: ingest_def split: option.splits sum.splits prod.splits, (metis snd_conv)+)

lemma do_post_ok:
  "bridge_ok (sb_rows b) \<Longrightarrow> bridge_ok (sb_rows (snd (do_post path lengths transfer authorization body token received b)))"
  using ingest_ok by (auto simp: do_post_def split: option.splits prod.splits) (metis snd_conv)

datatype bridge_op =
    Post string "int option list" bool string "(nat \<times> order_event option) option" string int
  | Received order_event int
  | Observed int string nat string

fun bridge_step :: "bridge_op \<Rightarrow> shadow_bridge \<Rightarrow> shadow_bridge" where
  "bridge_step (Post path lengths transfer authorization body token received) b =
     snd (do_post path lengths transfer authorization body token received b)"
| "bridge_step (Received e received) b = snd (receive_order e received b)"
| "bridge_step (Observed received path offset payload) b = observe_line received path offset payload b"

lemma bridge_step_ok: "bridge_ok (sb_rows b) \<Longrightarrow> bridge_ok (sb_rows (bridge_step a b))"
  by (cases a) (simp_all add: do_post_ok receive_order_ok observe_line_def)

interpretation bridge_runs: kept_invariant bridge_step "\<lambda>b. bridge_ok (sb_rows b)"
  by unfold_locales (rule bridge_step_ok)

subsection \<open>Properties\<close>

text \<open>
  C28: over any requests to a new bridge an event identity is recorded once and an order is previewed at
  most once: whatever is redelivered, edited or replayed, no two records of one order carry a request.
\<close>

theorem order_previewed_once:
  "unique_key br_key (sb_rows (fold bridge_step ops \<lparr>sb_account = a, sb_max_age = m, sb_rows = [], sb_lines = []\<rparr>)) \<and>
   length (previews_of k (sb_rows (fold bridge_step ops \<lparr>sb_account = a, sb_max_age = m, sb_rows = [], sb_lines = []\<rparr>))) \<le> 1"
proof -
  have "bridge_ok (sb_rows \<lparr>sb_account = a, sb_max_age = m, sb_rows = [], sb_lines = []\<rparr>)"
    by (simp add: bridge_ok_def bridge_keys_unique_def unique_key_def previews_of_def)
  from bridge_runs.run_inv[OF this, of ops] show ?thesis by (simp add: bridge_ok_def bridge_keys_unique_def)
qed

text \<open>
  A redelivered event gets the stored answer: once an event was answered, the same event delivered at
  any later time changes nothing and is answered by what the first delivery was answered, as a duplicate.
\<close>

theorem redelivery_same_answer:
  assumes "record_order e received decided rows = (first, rows')" "ba_result first \<noteq> Held ''event_id_payload_conflict''"
  shows "\<exists>seen. record_order e later other rows' = (\<lparr>ba_result = ba_result first, ba_received = Some seen, ba_duplicate = True\<rparr>, rows')"
proof (cases "find (\<lambda>r. br_key r = bridge_key e) rows")
  case (Some old)
  with assms show ?thesis by (auto simp: record_order_def split: if_splits)
next
  case None
  then have "find (\<lambda>r. br_key r = bridge_key e) rows' = Some
      \<lparr>br_key = bridge_key e, br_order = order_key e, br_revision = oe_revision e, br_event = e, br_received = received,
       br_result = ba_result first\<rparr>"
    using assms(1) by (auto simp: record_order_def Let_def find_append)
  then show ?thesis by (simp add: record_order_def)
qed

text \<open>
  A previewed request is of a valid, fresh CREATE for the bridge's own account, with a positive lot
  size and, for a pending order, a positive price on the right side of every bracket that is set; it
  carries the event's own fields.
\<close>

theorem preview_is_sound:
  assumes "receive_order e received b = (Inr a, b')" "ba_result a = Preview q" "\<not> ba_duplicate a"
  shows "oe_action e = V_CREATE \<and> oe_account e = sb_account b \<and> received - oe_emitted e \<le> sb_max_age b \<and>
    oe_type e \<in> {''MARKET'', ''LIMIT'', ''STOP''} \<and> q = preview_body e \<and>
    (\<exists>v sl tp. oe_volume e = Some v \<and> 0 < coef v \<and> oe_sl e = Some sl \<and> oe_tp e = Some tp \<and>
       (oe_type e \<noteq> ''MARKET'' \<longrightarrow> (\<exists>p. oe_price e = Some p \<and> 0 < coef p \<and> bracket_direction e p sl tp)))"
proof -
  from assms(1) have v: "validate_event e = Inr e" by (auto simp: receive_order_def validate_event_def bindE_Inr split: sum.splits if_splits)
  then have f: "fields_valid e" "complete_state e = Inr ()" by (auto simp: validate_event_def bindE_Inr split: if_splits)
  have p: "preview e (sb_account b) received (sb_max_age b) = Preview q"
    using assms v by (auto simp: receive_order_def record_order_def Let_def split: option.splits if_splits prod.splits)
  then have c: "oe_action e = V_CREATE" by (rule preview_creates)
  have t: "oe_account e = sb_account b" "received - oe_emitted e \<le> sb_max_age b" "oe_type e \<noteq> ''STOP_LIMIT''"
    using p by (auto simp: preview_def Let_def split: if_splits)
  obtain v sl tp where vs: "oe_volume e = Some v" "oe_sl e = Some sl" "oe_tp e = Some tp"
  proof -
    have "oe_volume e \<noteq> None" "oe_sl e \<noteq> None" "oe_tp e \<noteq> None"
      using f(2) c by (auto simp: complete_state_def split: if_splits)
    then show ?thesis using that by blast
  qed
  have "0 < coef v" using f(1) vs by (simp add: fields_valid_def positive_opt_def)
  have q: "q = preview_body e" using p by (auto simp: preview_def Let_def split: if_splits option.splits)
  have "\<exists>p. oe_price e = Some p \<and> 0 < coef p \<and> bracket_direction e p sl tp" if nm: "oe_type e \<noteq> ''MARKET''"
  proof -
    obtain x where x: "oe_price e = Some x" using f(2) c nm by (auto simp: complete_state_def split: if_splits)
    have "0 < coef x" using f(1) x by (simp add: fields_valid_def positive_opt_def)
    moreover have "bracket_direction e x sl tp" using p x vs c t by (auto simp: preview_def Let_def split: if_splits)
    ultimately show ?thesis using x by blast
  qed
  moreover have "oe_type e \<in> {''MARKET'', ''LIMIT'', ''STOP''}" using f(1) t(3) by (auto simp: fields_valid_def)
  ultimately show ?thesis using c t q vs \<open>0 < coef v\<close> by blast
qed

subsection \<open>A concrete bridge\<close>

definition sample_create :: order_event where
  "sample_create =
     \<lparr>oe_machine = ''m'', oe_strategy = ''s'', oe_id = ''e1'', oe_order = ''o1'', oe_revision = 1, oe_emitted = 0,
      oe_account = ''A'', oe_action = V_CREATE, oe_instrument = ''US'', oe_side = ''BUY'', oe_type = ''LIMIT'',
      oe_volume = Some (Dec 1 0), oe_price = Some (Dec 5 0), oe_trigger = None, oe_sl = Some (Dec 4 0), oe_tp = Some (Dec 7 0)\<rparr>"

definition sample_bridge :: shadow_bridge where
  "sample_bridge = \<lparr>sb_account = ''A'', sb_max_age = 30000000, sb_rows = [], sb_lines = []\<rparr>"

lemma sample_receipt:
  "receive_order sample_create 1 sample_bridge =
     (Inr \<lparr>ba_result = Preview (preview_body sample_create), ba_received = Some 1, ba_duplicate = False\<rparr>,
      sample_bridge\<lparr>sb_rows := [\<lparr>br_key = bridge_key sample_create, br_order = order_key sample_create, br_revision = 1,
        br_event = sample_create, br_received = 1, br_result = Preview (preview_body sample_create)\<rparr>]\<rparr>)"
  by code_simp

theorem preview_is_sound_witness: "oe_action sample_create = V_CREATE \<and> oe_account sample_create = ''A''"
  using preview_is_sound[OF sample_receipt, of "preview_body sample_create"] by (simp add: sample_bridge_def)

theorem redelivery_same_answer_witness:
  "\<exists>first rows' seen. record_order sample_create 1 (Preview (preview_body sample_create)) [] = (first, rows') \<and>
     record_order sample_create 9 (Held []) rows' = (\<lparr>ba_result = ba_result first, ba_received = Some seen, ba_duplicate = True\<rparr>, rows')"
proof -
  obtain first rows' where r: "record_order sample_create 1 (Preview (preview_body sample_create)) [] = (first, rows')"
    by (metis prod.exhaust)
  then have "ba_result first = Preview (preview_body sample_create)"
    by (auto simp: record_order_def last_revision_def Let_def)
  then have "ba_result first \<noteq> Held ''event_id_payload_conflict''" by simp
  from redelivery_same_answer[OF r this] r show ?thesis by blast
qed

end
