(* ===== verification/Connections.thy ===== *)
theory Connections
  imports MappingLedger
begin

text \<open>
  Settings and the leased connections (core/settings.py, core/base_connection.py), and the owners that
  lease them (the lifecycle of api.py): one open connection for each identity, shared by its owners.
\<close>

subsection \<open>Settings\<close>

text \<open>The fields the model reads; \<open>st_other\<close> stands for the remaining ones, which only equality sees.\<close>

record rest_settings =
  st_platform :: string
  st_email :: string
  st_password :: string
  st_broker :: string
  st_account :: string
  st_trading :: string
  st_system :: string
  st_cookie_account :: bool
  st_refreshes :: bool
  st_per_minute :: nat
  st_writes :: bool
  st_ws_url :: string
  st_ws_headers :: string
  st_ws_sub :: string
  st_other :: string

text \<open>\<open>str.isalnum\<close> on the characters of HOL, and the characters of a system identifier.\<close>

definition alnum_char :: "char \<Rightarrow> bool" where
  "alnum_char c \<longleftrightarrow>
     (let n = (of_char c :: nat) in
      48 \<le> n \<and> n \<le> 57 \<or> 65 \<le> n \<and> n \<le> 90 \<or> 97 \<le> n \<and> n \<le> 122 \<or> n \<in> {0xAA, 0xB2, 0xB3, 0xB5, 0xB9, 0xBA, 0xBC, 0xBD, 0xBE} \<or>
      0xC0 \<le> n \<and> n \<le> 0xD6 \<or> 0xD8 \<le> n \<and> n \<le> 0xF6 \<or> 0xF8 \<le> n)"

definition system_char :: "char \<Rightarrow> bool" where
  "system_char c \<longleftrightarrow> alnum_char c \<or> c = CHR ''-'' \<or> c = CHR ''_''"

definition safe_system :: "string \<Rightarrow> string res" where
  "safe_system v = (if v \<noteq> [] \<and> \<not> list_all system_char v then Inl (value_error ''Invalid system identifier'') else Inr v)"

subsection \<open>The registry\<close>

datatype conn_class = Rest_class | Stream_class

type_synonym conn_identity = "conn_class \<times> string \<times> string \<times> string \<times> string"

definition identity_of :: "conn_class \<Rightarrow> rest_settings \<Rightarrow> conn_identity" where
  "identity_of c s = (c, st_platform s, st_broker s, st_email s, st_account s)"

record conn_entry =
  ce_settings :: rest_settings
  ce_key :: conn_identity
  ce_leases :: nat
  ce_closed :: bool

text \<open>The connections that were ever made, by number, and the registry of the open ones.\<close>

record pool =
  pl_conns :: "conn_entry list"
  pl_registry :: "(conn_identity \<times> nat) list"

definition configuration_error :: "string \<Rightarrow> exn" where
  "configuration_error m = Exn ''ConfigurationError'' m None"

definition closed_error :: "string \<Rightarrow> exn" where
  "closed_error m = Exn ''ConnectionClosedError'' m None"

text \<open>\<open>kwargs\<close>: dependencies were given; \<open>made\<close>: how the constructor of a new connection ends.\<close>

definition acquire :: "conn_class \<Rightarrow> rest_settings \<Rightarrow> bool \<Rightarrow> unit res \<Rightarrow> pool \<Rightarrow> nat res \<times> pool" where
  "acquire cls s kwargs made p =
     (case map_of (pl_registry p) (identity_of cls s) of
        Some i \<Rightarrow>
          if ce_settings (pl_conns p ! i) \<noteq> s
          then (Inl (configuration_error ''Close this account's connection before changing its settings''), p)
          else if kwargs then (Inl (configuration_error ''Cannot replace dependencies of an active singleton''), p)
          else (Inr i, p\<lparr>pl_conns := (pl_conns p)[i := (pl_conns p ! i)\<lparr>ce_leases := Suc (ce_leases (pl_conns p ! i))\<rparr>]\<rparr>)
      | None \<Rightarrow>
          (case made of
             Inl e \<Rightarrow> (Inl e, p)
           | Inr _ \<Rightarrow>
               (Inr (length (pl_conns p)),
                \<lparr>pl_conns = pl_conns p @ [\<lparr>ce_settings = s, ce_key = identity_of cls s, ce_leases = 1, ce_closed = False\<rparr>],
                 pl_registry = (identity_of cls s, length (pl_conns p)) # pl_registry p\<rparr>)))"

text \<open>\<open>shut\<close>: how the shutdown of the transport ends; the registry forgets the connection in any case.\<close>

definition release :: "nat \<Rightarrow> unit res \<Rightarrow> pool \<Rightarrow> unit res \<times> pool" where
  "release i shut p =
     (let c = pl_conns p ! i in
      if ce_closed c then (Inr (), p)
      else if ce_leases c = 1
      then (shut, \<lparr>pl_conns = (pl_conns p)[i := c\<lparr>ce_leases := 0, ce_closed := True\<rparr>],
                   pl_registry = filter (\<lambda>e. fst e \<noteq> ce_key c) (pl_registry p)\<rparr>)
      else (Inr (), p\<lparr>pl_conns := (pl_conns p)[i := c\<lparr>ce_leases := ce_leases c - 1\<rparr>]\<rparr>))"

definition ensure_open :: "conn_entry \<Rightarrow> unit res" where
  "ensure_open c = (if ce_closed c then Inl (closed_error ''Connection is closed'') else Inr ())"

subsection \<open>Owners\<close>

record owner =
  ow_settings :: rest_settings
  ow_conn :: nat
  ow_stream :: "nat option"
  ow_closed :: bool

record owner_pool =
  os_pool :: pool
  os_owners :: "owner list"

definition open_owner :: "rest_settings \<Rightarrow> bool \<Rightarrow> unit res \<Rightarrow> owner_pool \<Rightarrow> nat res \<times> owner_pool" where
  "open_owner s transport made w =
     (let (r, p) = acquire Rest_class s transport made (os_pool w) in
      case r of
        Inl e \<Rightarrow> (Inl e, w\<lparr>os_pool := p\<rparr>)
      | Inr i \<Rightarrow> (Inr (length (os_owners w)),
                   w\<lparr>os_pool := p, os_owners := os_owners w @ [\<lparr>ow_settings = s, ow_conn = i, ow_stream = None, ow_closed = False\<rparr>]\<rparr>))"

definition close_owner :: "nat \<Rightarrow> unit res \<Rightarrow> unit res \<Rightarrow> owner_pool \<Rightarrow> unit res \<times> owner_pool" where
  "close_owner k stream_shut shut w =
     (let ow = os_owners w ! k in
      if ow_closed ow then (Inr (), w)
      else (let os = (os_owners w)[k := ow\<lparr>ow_closed := True\<rparr>];
                (r1, p1) = (case ow_stream ow of None \<Rightarrow> (Inr (), os_pool w) | Some i \<Rightarrow> release i stream_shut (os_pool w));
                (r2, p2) = release (ow_conn ow) shut p1
            in ((case r2 of Inl e \<Rightarrow> Inl e | Inr _ \<Rightarrow> r1), \<lparr>os_pool = p2, os_owners = os\<rparr>)))"

definition owner_stream :: "nat \<Rightarrow> unit res \<Rightarrow> owner_pool \<Rightarrow> nat res \<times> owner_pool" where
  "owner_stream k made w =
     (let ow = os_owners w ! k in
      if ow_closed ow then (Inl (closed_error ''API owner is closed''), w)
      else (case ow_stream ow of
              Some i \<Rightarrow> (Inr i, w)
            | None \<Rightarrow>
                (let (r, p) = acquire Stream_class (ow_settings ow) False made (os_pool w) in
                 case r of
                   Inl e \<Rightarrow> (Inl e, w\<lparr>os_pool := p\<rparr>)
                 | Inr i \<Rightarrow> (Inr i, \<lparr>os_pool = p, os_owners = (os_owners w)[k := ow\<lparr>ow_stream := Some i\<rparr>]\<rparr>))))"

text \<open>
  The settings of another account: its system and streaming settings are cleared unless overridden.
  \<open>overrides\<close> is the keyword update, \<open>validated\<close> the validation of the settings model.
\<close>

definition account_settings :: "string \<Rightarrow> (rest_settings \<Rightarrow> rest_settings) \<Rightarrow> rest_settings \<Rightarrow> rest_settings" where
  "account_settings account overrides s =
     (overrides (if account \<noteq> st_account s
        then s\<lparr>st_system := [], st_ws_url := [], st_ws_headers := ''{}'', st_ws_sub := []\<rparr>
        else s))\<lparr>st_account := rev (dropWhile is_space (rev (dropWhile is_space account)))\<rparr>"

definition for_account ::
  "nat \<Rightarrow> string \<Rightarrow> (rest_settings \<Rightarrow> rest_settings) \<Rightarrow> (rest_settings \<Rightarrow> rest_settings res) \<Rightarrow> bool \<Rightarrow> unit res \<Rightarrow> owner_pool \<Rightarrow>
     nat res \<times> owner_pool" where
  "for_account k account overrides validated transport made w =
     (let ow = os_owners w ! k in
      if ow_closed ow then (Inl (closed_error ''API owner is closed''), w)
      else if is_blank account
      then (Inl (configuration_error ''An explicit nonempty trading account ID is required''), w)
      else (case validated (account_settings account overrides (ow_settings ow)) of
              Inl e \<Rightarrow> (Inl e, w)
            | Inr s \<Rightarrow> open_owner s transport made w))"

subsection \<open>Leases\<close>

text \<open>\<open>h\<close> counts the leases out on each connection.\<close>

definition pool_ok :: "(nat \<Rightarrow> nat) \<Rightarrow> pool \<Rightarrow> bool" where
  "pool_ok h p \<longleftrightarrow>
     (\<forall>i < length (pl_conns p). ce_leases (pl_conns p ! i) = h i \<and> (ce_closed (pl_conns p ! i) \<longleftrightarrow> h i = 0) \<and>
        (0 < h i \<longrightarrow> map_of (pl_registry p) (ce_key (pl_conns p ! i)) = Some i)) \<and>
     (\<forall>i \<ge> length (pl_conns p). h i = 0) \<and>
     (\<forall>k i. map_of (pl_registry p) k = Some i \<longrightarrow> i < length (pl_conns p) \<and> 0 < h i \<and> ce_key (pl_conns p ! i) = k)"

lemma pool_okD:
  assumes "pool_ok h p" "0 < h i"
  shows "i < length (pl_conns p)" "ce_leases (pl_conns p ! i) = h i" "\<not> ce_closed (pl_conns p ! i)"
    "map_of (pl_registry p) (ce_key (pl_conns p ! i)) = Some i"
proof -
  show i: "i < length (pl_conns p)" using assms by (metis not_le pool_ok_def less_numeral_extra(3))
  show "ce_leases (pl_conns p ! i) = h i" "\<not> ce_closed (pl_conns p ! i)"
    "map_of (pl_registry p) (ce_key (pl_conns p ! i)) = Some i"
    using assms i by (auto simp: pool_ok_def)
qed

lemma acquire_ok:
  assumes "pool_ok h p" "acquire cls s kwargs made p = (r, p')"
  shows "case r of Inl e \<Rightarrow> p' = p | Inr i \<Rightarrow> pool_ok (h(i := Suc (h i))) p'"
proof (cases "map_of (pl_registry p) (identity_of cls s)")
  case (Some i)
  then have i: "i < length (pl_conns p)" "0 < h i" using assms(1) unfolding pool_ok_def by blast+
  show ?thesis
  proof (cases "ce_settings (pl_conns p ! i) \<noteq> s \<or> kwargs")
    case True
    with assms(2) Some show ?thesis by (auto simp: acquire_def split: if_splits)
  next
    case False
    with assms(2) Some have r: "r = Inr i"
      "p' = p\<lparr>pl_conns := (pl_conns p)[i := (pl_conns p ! i)\<lparr>ce_leases := Suc (ce_leases (pl_conns p ! i))\<rparr>]\<rparr>"
      by (auto simp: acquire_def)
    from assms(1) i show ?thesis unfolding r pool_ok_def by (auto simp: nth_list_update)
  qed
next
  case None
  show ?thesis
  proof (cases made)
    case (Inl e)
    with assms(2) None show ?thesis by (auto simp: acquire_def)
  next
    case (Inr u)
    let ?n = "length (pl_conns p)"
    from assms(2) None Inr have r: "r = Inr ?n"
      "p' = \<lparr>pl_conns = pl_conns p @ [\<lparr>ce_settings = s, ce_key = identity_of cls s, ce_leases = 1, ce_closed = False\<rparr>],
                 pl_registry = (identity_of cls s, ?n) # pl_registry p\<rparr>"
      by (auto simp: acquire_def)
    have z: "h ?n = 0" using assms(1) by (simp add: pool_ok_def)
    have other: "ce_key (pl_conns p ! i) \<noteq> identity_of cls s" if "i < ?n" "0 < h i" for i
      using assms(1) that None by (auto simp: pool_ok_def)
    from assms(1) z other show ?thesis unfolding r pool_ok_def by (auto simp: nth_append less_Suc_eq)
  qed
qed

lemma release_ok:
  assumes "pool_ok h p" "0 < h i" "release i shut p = (r, p')"
  shows "pool_ok (h(i := h i - 1)) p'"
proof -
  note d = pool_okD[OF assms(1,2)]
  show ?thesis
  proof (cases "h i = 1")
    case True
    then have p': "p' = \<lparr>pl_conns = (pl_conns p)[i := (pl_conns p ! i)\<lparr>ce_leases := 0, ce_closed := True\<rparr>],
                   pl_registry = filter (\<lambda>e. fst e \<noteq> ce_key (pl_conns p ! i)) (pl_registry p)\<rparr>"
      using assms(3) d by (auto simp: release_def Let_def)
    have other: "ce_key (pl_conns p ! j) \<noteq> ce_key (pl_conns p ! i)" if "0 < h j" "j \<noteq> i" for j
      using pool_okD(4)[OF assms(1) that(1)] d(4) that(2) by auto
    from assms(1) d True other show ?thesis
      unfolding p' pool_ok_def by (auto simp: nth_list_update map_of_forget)
  next
    case False
    then have p': "p' = p\<lparr>pl_conns := (pl_conns p)[i := (pl_conns p ! i)\<lparr>ce_leases := h i - 1\<rparr>]\<rparr>"
      using assms(3) d by (auto simp: release_def Let_def)
    from assms(1,2) d False show ?thesis
      unfolding p' pool_ok_def by (auto simp: nth_list_update)
  qed
qed

subsection \<open>Owners hold the leases\<close>

definition weight :: "nat \<Rightarrow> owner \<Rightarrow> nat" where
  "weight i ow = (if ow_closed ow then 0 else (if ow_conn ow = i then 1 else 0) + (if ow_stream ow = Some i then 1 else 0))"

definition held :: "owner list \<Rightarrow> nat \<Rightarrow> nat" where
  "held os i = sum_list (map (weight i) os)"

definition owners_ok :: "owner_pool \<Rightarrow> bool" where
  "owners_ok w \<longleftrightarrow> pool_ok (held (os_owners w)) (os_pool w)"

lemma held_update: "k < length os \<Longrightarrow> held (os[k := ow]) i + weight i (os ! k) = held os i + weight i ow"
proof -
  assume k: "k < length os"
  then have le: "weight i (os ! k) \<le> sum_list (map (weight i) os)"
    by (intro member_le_sum_list) (auto simp: nth_mem)
  have "map (weight i) (os[k := ow]) = (map (weight i) os)[k := weight i ow]" by (simp add: map_update)
  then show ?thesis using k le by (simp add: held_def sum_list_update)
qed

lemma held_member: "k < length os \<Longrightarrow> weight i (os ! k) \<le> held os i"
  unfolding held_def by (intro member_le_sum_list) (auto simp: nth_mem)

lemma open_owner_ok: "owners_ok w \<Longrightarrow> owners_ok (snd (open_owner s transport made w))"
proof -
  assume ok: "owners_ok w"
  obtain r p where a: "acquire Rest_class s transport made (os_pool w) = (r, p)" by fastforce
  note f = acquire_ok[OF ok[unfolded owners_ok_def] a]
  show ?thesis
  proof (cases r)
    case (Inl e)
    with ok a f show ?thesis by (simp add: open_owner_def owners_ok_def)
  next
    case (Inr i)
    let ?new = "\<lparr>ow_settings = s, ow_conn = i, ow_stream = None, ow_closed = False\<rparr>"
    have "held (os_owners w @ [?new]) = (held (os_owners w))(i := Suc (held (os_owners w) i))"
      by (rule ext) (simp add: held_def weight_def)
    with ok a f Inr show ?thesis by (simp add: open_owner_def owners_ok_def)
  qed
qed

lemma owner_stream_ok: "owners_ok w \<Longrightarrow> k < length (os_owners w) \<Longrightarrow> owners_ok (snd (owner_stream k made w))"
proof -
  assume ok: "owners_ok w" and k: "k < length (os_owners w)"
  let ?ow = "os_owners w ! k"
  show ?thesis
  proof (cases "ow_closed ?ow \<or> ow_stream ?ow \<noteq> None")
    case True
    with ok show ?thesis by (auto simp: owner_stream_def Let_def)
  next
    case False
    obtain r p where a: "acquire Stream_class (ow_settings ?ow) False made (os_pool w) = (r, p)" by fastforce
    note f = acquire_ok[OF ok[unfolded owners_ok_def] a]
    show ?thesis
    proof (cases r)
      case (Inl e)
      with False ok a f show ?thesis by (simp add: owner_stream_def Let_def owners_ok_def)
    next
      case (Inr i)
      have "held ((os_owners w)[k := ?ow\<lparr>ow_stream := Some i\<rparr>]) = (held (os_owners w))(i := Suc (held (os_owners w) i))"
        (is "?l = ?r")
      proof
        fix j
        show "?l j = ?r j" using held_update[OF k, of "?ow\<lparr>ow_stream := Some i\<rparr>" j] False by (auto simp: weight_def split: if_splits)
      qed
      with False ok a f Inr show ?thesis by (simp add: owner_stream_def Let_def owners_ok_def)
    qed
  qed
qed

lemma close_owner_ok: "owners_ok w \<Longrightarrow> k < length (os_owners w) \<Longrightarrow> owners_ok (snd (close_owner k ss shut w))"
proof -
  assume ok: "owners_ok w" and k: "k < length (os_owners w)"
  let ?ow = "os_owners w ! k" and ?h = "held (os_owners w)"
  let ?os = "(os_owners w)[k := ?ow\<lparr>ow_closed := True\<rparr>]"
  show ?thesis
  proof (cases "ow_closed ?ow")
    case True
    with ok show ?thesis by (simp add: close_owner_def Let_def)
  next
    case open_owner: False
    note mem = held_member[OF k]
    have pk: "pool_ok ?h (os_pool w)" using ok by (simp add: owners_ok_def)
    define h1 where "h1 = (case ow_stream ?ow of None \<Rightarrow> ?h | Some i \<Rightarrow> ?h(i := ?h i - 1))"
    obtain r1 p1 where a1: "(case ow_stream ?ow of None \<Rightarrow> (Inr (), os_pool w) | Some i \<Rightarrow> release i ss (os_pool w)) = (r1, p1)"
      by fastforce
    have p1: "pool_ok h1 p1"
    proof (cases "ow_stream ?ow")
      case None
      with a1 pk show ?thesis by (simp add: h1_def)
    next
      case (Some i)
      have "0 < ?h i" using mem[of i] open_owner Some by (simp add: weight_def)
      with release_ok[OF pk this] a1 Some show ?thesis by (simp add: h1_def)
    qed
    obtain r2 p2 where a2: "release (ow_conn ?ow) shut p1 = (r2, p2)" by fastforce
    let ?c = "ow_conn ?ow"
    have c: "0 < h1 ?c" using mem[of ?c] open_owner by (auto simp: h1_def weight_def split: option.splits)
    have "held ?os = h1(?c := h1 ?c - 1)" (is "?l = ?r")
    proof
      fix j
      show "?l j = ?r j"
        using held_update[OF k, of "?ow\<lparr>ow_closed := True\<rparr>" j] open_owner by (auto simp: weight_def h1_def split: if_splits option.splits)
    qed
    with release_ok[OF p1 c a2] a1 a2 open_owner show ?thesis
      by (simp add: close_owner_def Let_def owners_ok_def)
  qed
qed

lemma for_account_ok: "owners_ok w \<Longrightarrow> owners_ok (snd (for_account k account overrides validated transport made w))"
  by (auto simp: for_account_def Let_def open_owner_ok split: sum.splits)

datatype owner_op =
    Open_owner rest_settings bool "unit res"
  | Close_owner nat "unit res" "unit res"
  | Stream_of nat "unit res"
  | For_account nat string "rest_settings \<Rightarrow> rest_settings" "rest_settings \<Rightarrow> rest_settings res" bool "unit res"

text \<open>An operation on an owner that was never made does not happen.\<close>

fun owner_step :: "owner_op \<Rightarrow> owner_pool \<Rightarrow> owner_pool" where
  "owner_step (Open_owner s transport made) w = snd (open_owner s transport made w)"
| "owner_step (Close_owner k ss shut) w = (if k < length (os_owners w) then snd (close_owner k ss shut w) else w)"
| "owner_step (Stream_of k made) w = (if k < length (os_owners w) then snd (owner_stream k made w) else w)"
| "owner_step (For_account k account overrides validated transport made) w =
     (if k < length (os_owners w) then snd (for_account k account overrides validated transport made w) else w)"

definition no_owners :: owner_pool where
  "no_owners = \<lparr>os_pool = \<lparr>pl_conns = [], pl_registry = []\<rparr>, os_owners = []\<rparr>"

lemma owner_step_ok: "owners_ok w \<Longrightarrow> owners_ok (owner_step a w)"
  by (cases a) (simp_all add: open_owner_ok close_owner_ok owner_stream_ok for_account_ok)

interpretation owner_runs: kept_invariant owner_step owners_ok
  by unfold_locales (rule owner_step_ok)

lemma no_owners_ok: "owners_ok no_owners"
  by (simp add: owners_ok_def no_owners_def pool_ok_def held_def)

subsection \<open>Properties\<close>

text \<open>
  C29: whatever owners are opened, closed, given streams or derived for other accounts, with any of the
  constructors and shutdowns failing: an owner that is not closed has open connections, no two open
  connections have one identity, and a connection no open owner holds is closed.
\<close>

theorem leases_keep_connections:
  "let w = fold owner_step ops no_owners; cs = pl_conns (os_pool w) in
     (\<forall>ow \<in> set (os_owners w). ow_closed ow \<or> (\<not> ce_closed (cs ! ow_conn ow) \<and> (\<forall>i. ow_stream ow = Some i \<longrightarrow> \<not> ce_closed (cs ! i)))) \<and>
     (\<forall>i < length cs. \<forall>j < length cs. i \<noteq> j \<and> ce_key (cs ! i) = ce_key (cs ! j) \<longrightarrow> ce_closed (cs ! i) \<or> ce_closed (cs ! j)) \<and>
     (\<forall>i < length cs. ce_closed (cs ! i) \<or> (\<exists>ow \<in> set (os_owners w). \<not> ow_closed ow \<and> (ow_conn ow = i \<or> ow_stream ow = Some i)))"
proof -
  define w where "w = fold owner_step ops no_owners"
  define cs where "cs = pl_conns (os_pool w)"
  have ok: "pool_ok (held (os_owners w)) (os_pool w)"
    using owner_runs.run_inv[OF no_owners_ok, of ops] by (simp add: w_def owners_ok_def)
  have pos: "0 < held (os_owners w) i" if h: "ow \<in> set (os_owners w)" "\<not> ow_closed ow" "ow_conn ow = i \<or> ow_stream ow = Some i" for ow i
  proof -
    obtain k where "k < length (os_owners w)" "os_owners w ! k = ow" using h(1) by (auto simp: in_set_conv_nth)
    with held_member[of k "os_owners w" i] h show ?thesis by (auto simp: weight_def split: if_splits)
  qed
  have one: "\<forall>ow \<in> set (os_owners w). ow_closed ow \<or> (\<not> ce_closed (cs ! ow_conn ow) \<and> (\<forall>i. ow_stream ow = Some i \<longrightarrow> \<not> ce_closed (cs ! i)))"
    unfolding cs_def using pool_okD(3)[OF ok pos] by blast
  have two: "ce_closed (cs ! i) \<or> ce_closed (cs ! j)" if "i < length cs" "j < length cs" "i \<noteq> j" "ce_key (cs ! i) = ce_key (cs ! j)" for i j
    using ok that unfolding pool_ok_def cs_def by (metis option.inject not_gr_zero)
  have three: "\<exists>ow \<in> set (os_owners w). \<not> ow_closed ow \<and> (ow_conn ow = i \<or> ow_stream ow = Some i)"
    if "i < length cs" "\<not> ce_closed (cs ! i)" for i
  proof (rule ccontr)
    assume "\<not> ?thesis"
    then have "\<forall>ow \<in> set (os_owners w). weight i ow = 0" by (auto simp: weight_def)
    then have "held (os_owners w) i = 0" by (simp add: held_def)
    with ok that show False by (simp add: pool_ok_def cs_def)
  qed
  have "(\<forall>i < length cs. \<forall>j < length cs. i \<noteq> j \<and> ce_key (cs ! i) = ce_key (cs ! j) \<longrightarrow> ce_closed (cs ! i) \<or> ce_closed (cs ! j))"
    using two by blast
  moreover have "\<forall>i < length cs. ce_closed (cs ! i) \<or>
      (\<exists>ow \<in> set (os_owners w). \<not> ow_closed ow \<and> (ow_conn ow = i \<or> ow_stream ow = Some i))"
    using three by blast
  ultimately show ?thesis unfolding Let_def w_def[symmetric] cs_def[symmetric] using one by (intro conjI)
qed

subsection \<open>Two owners of one account\<close>

definition sample_settings :: rest_settings where
  "sample_settings =
     \<lparr>st_platform = ''https://b'', st_email = ''me'', st_password = ''pw'', st_broker = ''1'', st_account = ''A'', st_trading = [],
      st_system = ''sys'', st_cookie_account = False, st_refreshes = True, st_per_minute = 60, st_writes = True, st_ws_url = [],
      st_ws_headers = ''{}'', st_ws_sub = [], st_other = []\<rparr>"

definition sample_owner_ops :: "owner_op list" where
  "sample_owner_ops =
     [Open_owner sample_settings False (Inr ()), Open_owner sample_settings False (Inr ()), Stream_of 1 (Inr ()), Close_owner 0 (Inr ()) (Inr ())]"

lemma sample_owners_state:
  "os_owners (fold owner_step sample_owner_ops no_owners) =
     [\<lparr>ow_settings = sample_settings, ow_conn = 0, ow_stream = None, ow_closed = True\<rparr>,
      \<lparr>ow_settings = sample_settings, ow_conn = 0, ow_stream = Some 1, ow_closed = False\<rparr>]"
  by code_simp

theorem leases_keep_connections_witness:
  "\<not> ce_closed (pl_conns (os_pool (fold owner_step sample_owner_ops no_owners)) ! 0) \<and>
   \<not> ce_closed (pl_conns (os_pool (fold owner_step sample_owner_ops no_owners)) ! 1)"
  using leases_keep_connections[of sample_owner_ops] by (simp add: Let_def sample_owners_state)

end
