(* ===== verification/Pacing.thy ===== *)
theory Pacing
  imports Prelude Complex_Main
begin

text \<open>
  The request budget of a broker origin (core/rate_limiter.py): one limiter shared by the sessions of an
  origin, which spaces its permits. Instants and intervals are rational seconds of the monotonic clock;
  the rounding of floats is outside the model.
\<close>

subsection \<open>Limiters\<close>

record limiter =
  lm_interval :: rat
  lm_next :: rat

definition new_limiter :: "nat \<Rightarrow> limiter" where
  "new_limiter per_minute = \<lparr>lm_interval = 60 / of_nat per_minute, lm_next = 0\<rparr>"

text \<open>The limiters that live, by origin: an entry of the weak dictionary lasts while a session holds it.\<close>

type_synonym shared_limiters = "string \<Rightarrow> limiter option"

definition slow_down :: "nat \<Rightarrow> limiter \<Rightarrow> limiter" where
  "slow_down per_minute l = l\<lparr>lm_interval := max (lm_interval l) (60 / of_nat per_minute)\<rparr>"

definition for_origin :: "string \<Rightarrow> nat \<Rightarrow> shared_limiters \<Rightarrow> limiter \<times> shared_limiters" where
  "for_origin origin per_minute shared =
     (let l = (case shared origin of None \<Rightarrow> new_limiter per_minute | Some l \<Rightarrow> slow_down per_minute l)
      in (l, shared(origin \<mapsto> l)))"

text \<open>
  \<open>wait\<close> called at \<open>now\<close>: the sleep lasts at least as long as asked, and \<open>over\<close> is what passes beyond
  it until the clock is read again. The permit is the instant of that second reading.
\<close>

definition limiter_wait :: "rat \<Rightarrow> rat \<Rightarrow> limiter \<Rightarrow> rat \<times> limiter" where
  "limiter_wait now over l =
     (let delay = max 0 (lm_next l - now);
          after = (if delay \<noteq> 0 then now + delay else now) + over
      in (after, l\<lparr>lm_next := max after (lm_next l) + lm_interval l\<rparr>))"

lemma limiter_wait_props:
  assumes "limiter_wait now over l = (p, l')" "0 \<le> over"
  shows "now \<le> p" "lm_next l \<le> p" "lm_next l' = p + lm_interval l" "lm_interval l' = lm_interval l"
  using assms by (auto simp: limiter_wait_def Let_def max_def)

subsection \<open>The permits of an origin\<close>

text \<open>
  What happens to the limiter of an origin: some session waits for a permit after \<open>dt\<close> seconds, or
  another session of the origin joins with its own budget.
\<close>

datatype pace_op = Wait rat rat | Join nat

record pacing =
  pc_limiter :: limiter
  pc_clock :: rat
  pc_permits :: "rat list"

fun pace :: "pace_op \<Rightarrow> pacing \<Rightarrow> pacing" where
  "pace (Wait dt over) s =
     (let (p, l) = limiter_wait (pc_clock s + dt) over (pc_limiter s)
      in s\<lparr>pc_limiter := l, pc_clock := p, pc_permits := pc_permits s @ [p]\<rparr>)"
| "pace (Join n) s = s\<lparr>pc_limiter := slow_down n (pc_limiter s)\<rparr>"

definition first_pacing :: "nat \<Rightarrow> rat \<Rightarrow> pacing" where
  "first_pacing n t = \<lparr>pc_limiter = new_limiter n, pc_clock = t, pc_permits = []\<rparr>"

fun pace_forward :: "pace_op \<Rightarrow> bool" where
  "pace_forward (Wait dt over) \<longleftrightarrow> 0 \<le> dt \<and> 0 \<le> over"
| "pace_forward (Join n) \<longleftrightarrow> True"

text \<open>Permits at least \<open>d\<close> apart.\<close>

definition spaced :: "rat \<Rightarrow> rat list \<Rightarrow> bool" where
  "spaced d ps \<longleftrightarrow> (\<forall>i. Suc i < length ps \<longrightarrow> ps ! i + d \<le> ps ! Suc i)"

lemma spaced_Nil [simp]: "spaced d []"
  by (simp add: spaced_def)

lemma spaced_snoc: "spaced d (ps @ [p]) \<longleftrightarrow> spaced d ps \<and> (ps \<noteq> [] \<longrightarrow> last ps + d \<le> p)"
proof (cases ps rule: rev_cases)
  case Nil
  then show ?thesis by (simp add: spaced_def)
next
  case (snoc qs q)
  have before: "(ps @ [p]) ! i = ps ! i" "(ps @ [p]) ! Suc i = ps ! Suc i" if "Suc i < length ps" for i
    using that by (simp_all add: nth_append)
  have final: "ps ! length qs = q" "(ps @ [p]) ! length qs = q" "(ps @ [p]) ! Suc (length qs) = p" "length ps = Suc (length qs)"
    by (simp_all add: snoc nth_append)
  have "spaced d (ps @ [p]) \<longleftrightarrow> (\<forall>i. Suc i < Suc (length ps) \<longrightarrow> (ps @ [p]) ! i + d \<le> (ps @ [p]) ! Suc i)"
    by (simp add: spaced_def)
  also have "\<dots> \<longleftrightarrow> (\<forall>i. Suc i < length ps \<longrightarrow> (ps @ [p]) ! i + d \<le> (ps @ [p]) ! Suc i) \<and> q + d \<le> p"
    using final by (metis Suc_less_eq less_Suc_eq)
  also have "\<dots> \<longleftrightarrow> spaced d ps \<and> q + d \<le> p" using before by (auto simp: spaced_def)
  finally show ?thesis by (simp add: snoc)
qed

lemma spaced_far:
  assumes "spaced d ps" "i + k < length ps"
  shows "ps ! i + of_nat k * d \<le> ps ! (i + k)"
  using assms(2)
proof (induction k)
  case 0
  then show ?case by simp
next
  case (Suc k)
  then have "ps ! i + of_nat k * d \<le> ps ! (i + k)" by simp
  moreover have "ps ! (i + k) + d \<le> ps ! Suc (i + k)" using assms(1) Suc.prems by (simp add: spaced_def)
  moreover have "of_nat (Suc k) * d = of_nat k * d + d" by (simp add: algebra_simps)
  ultimately show ?case by (simp add: add_Suc_right)
qed

definition paced :: "rat \<Rightarrow> pacing \<Rightarrow> bool" where
  "paced d s \<longleftrightarrow>
     spaced d (pc_permits s) \<and> d \<le> lm_interval (pc_limiter s) \<and>
     (pc_permits s \<noteq> [] \<longrightarrow> last (pc_permits s) + d \<le> lm_next (pc_limiter s))"

lemma pace_paced:
  assumes "paced d s" "pace_forward a"
  shows "paced d (pace a s)"
proof (cases a)
  case (Wait dt over)
  obtain p l where w: "limiter_wait (pc_clock s + dt) over (pc_limiter s) = (p, l)" by fastforce
  from Wait assms(2) have "0 \<le> over" by simp
  note f = limiter_wait_props[OF w this]
  show ?thesis using assms(1) f by (auto simp: Wait w paced_def spaced_snoc)
next
  case (Join n)
  with assms show ?thesis by (auto simp: paced_def slow_down_def)
qed

lemma fold_paced: "paced d s \<Longrightarrow> list_all pace_forward as \<Longrightarrow> paced d (fold pace as s)"
  by (induction as arbitrary: s) (auto intro: pace_paced)

lemma window_bounded:
  assumes "spaced d ps" "of_nat n * d \<ge> w"
  shows "card {i. i < length ps \<and> t \<le> ps ! i \<and> ps ! i < t + w} \<le> n"
proof (cases "{i. i < length ps \<and> t \<le> ps ! i \<and> ps ! i < t + w} = {}")
  case True
  show ?thesis unfolding True by simp
next
  case False
  define S where "S = {i. i < length ps \<and> t \<le> ps ! i \<and> ps ! i < t + w}"
  have fin: "finite S" by (simp add: S_def)
  have ne: "S \<noteq> {}" using False by (simp add: S_def)
  define a where "a = Min S"
  have a: "a \<in> S" unfolding a_def by (rule Min_in[OF fin ne])
  have "S \<subseteq> {a..<a + n}"
  proof
    fix j assume j: "j \<in> S"
    then have "a \<le> j" unfolding a_def by (simp add: fin)
    moreover have "j < a + n"
    proof (rule ccontr)
      assume "\<not> j < a + n"
      then obtain k where k: "j = a + n + k" by (metis le_Suc_ex not_less)
      have "ps ! a + of_nat (n + k) * d \<le> ps ! (a + (n + k))"
        by (rule spaced_far[OF assms(1)]) (use j k in \<open>simp add: S_def add.assoc\<close>)
      moreover have "ps ! (a + (n + k)) < t + w" using j k by (simp add: S_def add.assoc)
      moreover have "t \<le> ps ! a" using a by (simp add: S_def)
      moreover have "w \<le> of_nat (n + k) * d \<or> w \<le> 0"
      proof (cases "0 \<le> d")
        case True
        then have "of_nat n * d \<le> of_nat (n + k) * d" by (simp add: mult_right_mono)
        with assms(2) show ?thesis by linarith
      next
        case False
        then have "of_nat n * d \<le> 0" by (simp add: mult_nonneg_nonpos)
        with assms(2) show ?thesis by linarith
      qed
      moreover have "0 < w"
        using a by (auto simp: S_def)
      ultimately show False by linarith
    qed
    ultimately show "j \<in> {a..<a + n}" by simp
  qed
  then have "card S \<le> card {a..<a + n}" by (rule card_mono[OF finite_atLeastLessThan])
  then show ?thesis by (simp add: S_def)
qed

subsection \<open>Properties\<close>

text \<open>
  C30: the budget of an origin holds: of all the permits its sessions were given, whatever the timing and
  whichever sessions joined, no minute contains more than the first session's requests per minute.
\<close>

theorem permits_within_budget:
  assumes "0 < n" "list_all pace_forward as"
  shows "card {i. i < length (pc_permits (fold pace as (first_pacing n t0))) \<and>
                  t \<le> pc_permits (fold pace as (first_pacing n t0)) ! i \<and>
                  pc_permits (fold pace as (first_pacing n t0)) ! i < t + 60} \<le> n"
proof (rule window_bounded)
  have "paced (60 / of_nat n) (first_pacing n t0)" by (simp add: paced_def first_pacing_def new_limiter_def)
  from fold_paced[OF this assms(2)] show "spaced (60 / of_nat n) (pc_permits (fold pace as (first_pacing n t0)))"
    by (simp add: paced_def)
  show "(60 :: rat) \<le> of_nat n * (60 / of_nat n)" using assms(1) by simp
qed

theorem permits_within_budget_witness:
  "card {i. i < length (pc_permits (fold pace [Wait 0 0, Wait 1 0, Join 6, Wait 2 1] (first_pacing 12 0))) \<and>
            1 \<le> pc_permits (fold pace [Wait 0 0, Wait 1 0, Join 6, Wait 2 1] (first_pacing 12 0)) ! i \<and>
            pc_permits (fold pace [Wait 0 0, Wait 1 0, Join 6, Wait 2 1] (first_pacing 12 0)) ! i < 1 + 60} \<le> 12"
  by (rule permits_within_budget) simp_all

end
