(* ===== verification/RestSession.thy ===== *)
theory RestSession
  imports Connections Pacing Reasons
begin

text \<open>
  The HTTP session of one account (core/rest_connection.py): login and account selection, the tokens a
  trading request carries, bounded refresh, renewal, and the single request with its one safe retry; the
  endpoints that issue requests (endpoints/).
\<close>

subsection \<open>Parsed answers\<close>

text \<open>A number is held as Python prints it; an object as its fields, each name once.\<close>

datatype json = JS_null | JS_bool bool | JS_num string | JS_str string | JS_list "json list" | JS_obj "(string \<times> json) list"

fun truth :: "json \<Rightarrow> bool" where
  "truth JS_null \<longleftrightarrow> False"
| "truth (JS_bool b) \<longleftrightarrow> b"
| "truth (JS_num t) \<longleftrightarrow> t \<notin> {''0'', ''0.0'', ''-0.0''}"
| "truth (JS_str s) \<longleftrightarrow> s \<noteq> []"
| "truth (JS_list xs) \<longleftrightarrow> xs \<noteq> []"
| "truth (JS_obj fs) \<longleftrightarrow> fs \<noteq> []"

definition attribute_error :: exn where
  "attribute_error = Exn ''AttributeError'' [] None"

definition type_error :: exn where
  "type_error = Exn ''TypeError'' [] None"

definition key_error :: exn where
  "key_error = Exn ''KeyError'' [] None"

definition py_or :: "json \<Rightarrow> json \<Rightarrow> json" where
  "py_or a b = (if truth a then a else b)"

fun is_obj :: "json \<Rightarrow> bool" where
  "is_obj (JS_obj fs) \<longleftrightarrow> True"
| "is_obj _ \<longleftrightarrow> False"

text \<open>\<open>d.get(k, default)\<close> and \<open>d[k]\<close>.\<close>

fun py_get :: "json \<Rightarrow> string \<Rightarrow> json \<Rightarrow> json res" where
  "py_get (JS_obj fs) k v = Inr (case map_of fs k of Some x \<Rightarrow> x | None \<Rightarrow> v)"
| "py_get _ k v = Inl attribute_error"

fun py_field :: "json \<Rightarrow> string \<Rightarrow> json res" where
  "py_field (JS_obj fs) k = of_option key_error (map_of fs k)"
| "py_field _ k = Inl type_error"

fun elements :: "json \<Rightarrow> json list res" where
  "elements (JS_list xs) = Inr xs"
| "elements (JS_obj fs) = Inr (map (\<lambda>f. JS_str (fst f)) fs)"
| "elements (JS_str s) = Inr (map (\<lambda>c. JS_str [c]) s)"
| "elements _ = Inl type_error"

text \<open>\<open>xs[0]\<close> of a container of length one.\<close>

fun only_element :: "json \<Rightarrow> json res" where
  "only_element (JS_list xs) = Inr (hd xs)"
| "only_element (JS_str s) = Inr (JS_str s)"
| "only_element _ = Inl key_error"

fun need_text :: "json \<Rightarrow> string res" where
  "need_text (JS_str s) = Inr s"
| "need_text _ = Inl type_error"

text \<open>\<open>all(c.isalnum() or c in '-_' for c in system)\<close>: over the characters of a text, or the elements of a container.\<close>

fun system_item :: "json \<Rightarrow> bool res" where
  "system_item (JS_str s) = Inr (s \<noteq> [] \<and> list_all alnum_char s \<or> s \<in> {[], ''-'', ''_'', ''-_''})"
| "system_item _ = Inl attribute_error"

fun all_items :: "json list \<Rightarrow> bool res" where
  "all_items [] = Inr True"
| "all_items (x # xs) = bindE (system_item x) (\<lambda>b. if b then all_items xs else Inr False)"

definition system_allowed :: "json \<Rightarrow> bool res" where
  "system_allowed v = (if \<not> truth v then Inr False else bindE (elements v) all_items)"

subsection \<open>The session and the wire\<close>

text \<open>
  A message on the wire; \<open>wr_owner\<close> notes, for the theorems, the account the trading token it carries
  was issued for.
\<close>

record wire =
  wr_method :: string
  wr_base :: string
  wr_path :: string
  wr_trading :: bool
  wr_write :: bool
  wr_body :: string
  wr_token :: string
  wr_cookie :: string
  wr_owner :: string

datatype content = No_content | Unreadable exn | Parsed json

datatype http_answer = Wire_failure exn | Answer int content

text \<open>
  What the session meets, by the number of messages already sent: the answer to the next message, how long
  it takes, what a wait oversleeps, and the cookie its jar holds for the origin. \<open>nt_wall\<close> reads the wall
  clock at an instant of the monotonic one, \<open>nt_claims\<close> the expiry claim of a token that has a readable
  one, \<open>nt_show\<close> prints a container.
\<close>

record rest_net =
  nt_answer :: "nat \<Rightarrow> http_answer"
  nt_elapsed :: "nat \<Rightarrow> rat"
  nt_over :: "nat \<Rightarrow> rat"
  nt_cookie :: "nat \<Rightarrow> string option"
  nt_wall :: "rat \<Rightarrow> rat"
  nt_claims :: "string \<Rightarrow> rat option"
  nt_show :: "json \<Rightarrow> string"

text \<open>
  The connection with its clock and limiter. \<open>rc_reserved\<close> and \<open>rc_owner\<close> are notes for the theorems: all
  the renewals ever reserved, and the account the trading token was issued for.
\<close>

record rest =
  rc_settings :: rest_settings
  rc_closed :: bool
  rc_session :: json
  rc_trading :: json
  rc_account_token :: json
  rc_system :: json
  rc_expires :: rat
  rc_identity :: string
  rc_refreshes :: "rat list"
  rc_account :: string
  rc_clock :: rat
  rc_limiter :: limiter
  rc_wire :: "wire list"
  rc_reserved :: "rat list"
  rc_owner :: string

definition new_rest :: "rest_settings \<Rightarrow> limiter \<Rightarrow> rat \<Rightarrow> rest" where
  "new_rest s l now =
     \<lparr>rc_settings = s, rc_closed = False, rc_session = JS_str [], rc_trading = JS_str [], rc_account_token = JS_str [],
      rc_system = JS_str (st_system s), rc_expires = 0, rc_identity = [], rc_refreshes = [], rc_account = [],
      rc_clock = now, rc_limiter = l, rc_wire = [], rc_reserved = [], rc_owner = []\<rparr>"

definition shutdown :: "rest \<Rightarrow> rest" where
  "shutdown r = r\<lparr>rc_closed := True, rc_session := JS_str [], rc_trading := JS_str [], rc_account_token := JS_str []\<rparr>"

type_synonym 'a session_run = "rest \<Rightarrow> 'a res \<times> rest"

definition rbind :: "'a session_run \<Rightarrow> ('a \<Rightarrow> 'b session_run) \<Rightarrow> 'b session_run" where
  "rbind m f r = (case m r of (Inl e, r1) \<Rightarrow> (Inl e, r1) | (Inr x, r1) \<Rightarrow> f x r1)"

definition pure :: "'a res \<Rightarrow> 'a session_run" where
  "pure x r = (x, r)"

definition on_failure :: "'a session_run \<Rightarrow> (exn \<Rightarrow> 'a session_run) \<Rightarrow> 'a session_run" where
  "on_failure m h r = (case m r of (Inl e, r1) \<Rightarrow> h e r1 | (Inr x, r1) \<Rightarrow> (Inr x, r1))"

definition authentication_error :: "string \<Rightarrow> exn" where
  "authentication_error m = Exn ''AuthenticationError'' m None"

definition protocol_error :: "string \<Rightarrow> exn" where
  "protocol_error m = Exn ''ProtocolError'' m None"

fun py_str :: "rest_net \<Rightarrow> json \<Rightarrow> string" where
  "py_str N JS_null = ''None''"
| "py_str N (JS_bool b) = (if b then ''True'' else ''False'')"
| "py_str N (JS_num t) = t"
| "py_str N (JS_str s) = s"
| "py_str N v = nt_show N v"

subsection \<open>One message\<close>

text \<open>\<open>path.replace('SYSTEM_UUID', system)\<close>.\<close>

function fill_system :: "string \<Rightarrow> string \<Rightarrow> string" where
  "fill_system v [] = []"
| "fill_system v (c # s) =
     (if take 11 (c # s) = ''SYSTEM_UUID'' then v @ fill_system v (drop 10 s) else c # fill_system v s)"
  by pat_completeness auto
termination by (relation "measure (\<lambda>(_, s). length s)") auto

text \<open>The path, token and cookie of a message; a trading message needs the tokens of a selected account.\<close>

definition headers_of :: "bool \<Rightarrow> string \<Rightarrow> rest \<Rightarrow> (string \<times> string \<times> string) res" where
  "headers_of trading path r =
     (if \<not> trading then Inr (path, [], [])
      else if \<not> truth (rc_trading r) \<or> \<not> truth (rc_system r)
      then Inl (authentication_error ''Login and select a trading account first'')
      else (let cookie = (if st_cookie_account (rc_settings r) then rc_account_token r else rc_session r) in
        if \<not> truth cookie
        then Inl (authentication_error ''The selected cookie mode has no token; check broker instructions'')
        else bindE (need_text cookie) (\<lambda>ck. bindE (need_text (rc_system r)) (\<lambda>sys.
             bindE (need_text (rc_trading r)) (\<lambda>tok. Inr (fill_system sys path, tok, ck))))))"

fun reason_value :: "rest_net \<Rightarrow> json \<Rightarrow> jval" where
  "reason_value N JS_null = J_null"
| "reason_value N (JS_str s) = J_text s"
| "reason_value N v = J_other (py_str N v)"

fun reason_body :: "rest_net \<Rightarrow> json \<Rightarrow> (string \<times> jval) list option" where
  "reason_body N (JS_obj fs) = Some (map (\<lambda>(k, v). (k, reason_value N v)) fs)"
| "reason_body N _ = None"

fun content_json :: "content \<Rightarrow> json" where
  "content_json (Parsed d) = d"
| "content_json _ = JS_null"

definition history_full :: "string \<Rightarrow> bool \<Rightarrow> string \<Rightarrow> bool \<Rightarrow> json \<Rightarrow> json \<Rightarrow> bool" where
  "history_full method trading path write system data \<longleftrightarrow>
     \<not> write \<and> method = ''POST'' \<and> trading \<and>
     (case system of JS_str v \<Rightarrow> path = ''mtr-api/'' @ v @ ''/closed-positions'' | _ \<Rightarrow> False) \<and>
     (case data of
        JS_obj fs \<Rightarrow> map_of fs ''status'' = Some (JS_str ''FULL'') \<and>
                     (case map_of fs ''operations'' of Some (JS_list _) \<Rightarrow> True | _ \<Rightarrow> False)
      | _ \<Rightarrow> False)"

fun reported_status :: "json \<Rightarrow> string option" where
  "reported_status (JS_obj fs) = (case map_of fs ''status'' of Some (JS_str s) \<Rightarrow> Some s | _ \<Rightarrow> None)"
| "reported_status _ = None"

text \<open>What the answer to a message becomes.\<close>

definition answer_outcome :: "rest_net \<Rightarrow> string \<Rightarrow> bool \<Rightarrow> string \<Rightarrow> bool \<Rightarrow> json \<Rightarrow> http_answer \<Rightarrow> json res" where
  "answer_outcome N method trading path write system answer =
     (case answer of
        Wire_failure e \<Rightarrow>
          if write then Inl (Exn ''UnknownOutcomeError'' ''Mutation transport failure: outcome unknown; reconcile before retry''
                              (Some (transport_reason e None [])))
          else Inl (Exn ''APIError'' ''Request transport failure'' None)
      | Answer status content \<Rightarrow>
          if status = 401 then Inl (authentication_error ''Authentication expired or rejected (401)'')
          else if 300 \<le> status \<and> status \<le> 599
          then Inl (Exn ''APIError'' (http_code status @ '' from Match-Trader'')
                     (Some (broker_reason status (reason_body N (content_json content)))))
          else (case content of
                  No_content \<Rightarrow>
                    Inr (if status = 204 \<and> method = ''POST'' \<and> trading \<and>
                            (case system of JS_str v \<Rightarrow> path = ''mtr-api/'' @ v @ ''/pending-order/cancel'' | _ \<Rightarrow> False)
                         then JS_obj [(''status'', JS_str ''OK'')] else JS_null)
                | Unreadable e \<Rightarrow>
                    if write
                    then Inl (Exn ''UnknownOutcomeError'' ''Mutation returned an unreadable response; reconcile before retry''
                               (Some (local_reason e ''broker returned a complete response that failed JSON parsing'')))
                    else Inl (protocol_error ''Expected a JSON response'')
                | Parsed data \<Rightarrow>
                    if reported_status data \<notin> {None, Some ''OK''} \<and> \<not> history_full method trading path write system data
                    then Inl (Exn ''APIError'' ''Operation did not report OK; inspect broker state before continuing''
                               (Some (broker_reason status (reason_body N data))))
                    else Inr data))"

definition send_message ::
  "rest_net \<Rightarrow> string \<Rightarrow> string \<Rightarrow> bool \<Rightarrow> string \<Rightarrow> bool \<Rightarrow> json session_run" where
  "send_message N method path trading body write r =
     (if rc_closed r then (Inl (closed_error ''Connection is closed''), r)
      else (let n = length (rc_wire r);
                (permit, l) = limiter_wait (rc_clock r) (nt_over N n) (rc_limiter r);
                r1 = r\<lparr>rc_clock := permit, rc_limiter := l\<rparr> in
        case headers_of trading path r1 of
          Inl e \<Rightarrow> (Inl e, r1)
        | Inr (p, token, cookie) \<Rightarrow>
            (answer_outcome N method trading p write (rc_system r1) (nt_answer N n),
             r1\<lparr>rc_clock := permit + nt_elapsed N n,
                rc_wire := rc_wire r1 @
                  [\<lparr>wr_method = method, wr_base = (if trading then str_or (st_trading (rc_settings r)) (st_platform (rc_settings r))
                                                   else st_platform (rc_settings r)),
                    wr_path = p, wr_trading = trading, wr_write = write, wr_body = body, wr_token = token, wr_cookie = cookie,
                    wr_owner = (if trading then rc_owner r1 else [])\<rparr>]\<rparr>)))"

subsection \<open>Adopting a login\<close>

text \<open>The accounts a login answer carries, as the code picks them.\<close>

definition login_accounts :: "json \<Rightarrow> json res" where
  "login_accounts data =
     bindE (py_get data ''tradingAccounts'' JS_null) (\<lambda>ta.
     bindE (py_get data ''accounts'' JS_null) (\<lambda>ac.
     bindE (py_get data ''selectedTradingAccount'' JS_null) (\<lambda>st.
     bindE (py_get data ''selectedAccount'' JS_null) (\<lambda>sa.
       let accounts = py_or (py_or ta ac) (JS_list []); selected = py_or st sa in
       Inr (if truth selected \<and> \<not> truth accounts then JS_list [selected] else accounts)))))"

fun matching :: "rest_net \<Rightarrow> string \<Rightarrow> json list \<Rightarrow> json list res" where
  "matching N account [] = Inr []"
| "matching N account (a # as) =
     bindE (py_get a ''tradingAccountId'' JS_null) (\<lambda>i.
     bindE (matching N account as) (\<lambda>ms. Inr (if py_str N i = account then a # ms else ms)))"

definition choose_account :: "rest_net \<Rightarrow> string \<Rightarrow> json \<Rightarrow> json res" where
  "choose_account N account accounts =
     (if account \<noteq> []
      then bindE (elements accounts) (\<lambda>as. bindE (matching N account as) (\<lambda>ms.
             case ms of [a] \<Rightarrow> Inr a
             | _ \<Rightarrow> Inl (authentication_error ''Configured account ID was not uniquely present in login'')))
      else bindE (elements accounts) (\<lambda>as.
             if length as = 1 then only_element accounts
             else Inl (authentication_error ''Set the broker's ACCOUNT_ID: login did not return exactly one account'')))"

definition login_system :: "string \<Rightarrow> json \<Rightarrow> json res" where
  "login_system configured account =
     (if configured \<noteq> [] then Inr (JS_str configured)
      else bindE (py_get account ''offer'' (JS_obj [])) (\<lambda>offer.
           bindE (py_get offer ''system'' (JS_obj [])) (\<lambda>sys. py_get sys ''uuid'' (JS_str []))))"

text \<open>Everything \<open>_adopt\<close> checks before it changes the session: the session token, the account and its system.\<close>

definition adoptable :: "rest_net \<Rightarrow> rest_settings \<Rightarrow> json \<Rightarrow> (json \<times> json \<times> json \<times> json) res" where
  "adoptable N s data =
     (if \<not> is_obj data then Inl (protocol_error ''Login response has no session token'')
      else bindE (py_get data ''token'' JS_null) (\<lambda>token.
        if \<not> truth token then Inl (protocol_error ''Login response has no session token'')
        else bindE (login_accounts data) (\<lambda>accounts.
             bindE (choose_account N (st_account s) accounts) (\<lambda>account.
             bindE (login_system (st_system s) account) (\<lambda>sys.
             bindE (system_allowed sys) (\<lambda>allowed.
               if \<not> allowed then Inl (protocol_error ''Login returned an invalid system identifier'')
               else bindE (py_get account ''tradingApiToken'' JS_null) (\<lambda>trading.
                 if \<not> truth trading then Inl (protocol_error ''Selected account has no trading API token'')
                 else Inr (token, account, sys, trading))))))))"

text \<open>
  \<open>_adopt\<close>: the assignments in their order; the account token and the account id can still fail, after
  the session and trading tokens are set.
\<close>

definition adopt :: "rest_net \<Rightarrow> json \<Rightarrow> string \<Rightarrow> unit session_run" where
  "adopt N data identity r =
     (case adoptable N (rc_settings r) data of
        Inl e \<Rightarrow> (Inl e, r)
      | Inr (token, account, sys, trading) \<Rightarrow>
          (let owner = (case py_get account ''tradingAccountId'' JS_null of Inr i \<Rightarrow> py_str N i | Inl _ \<Rightarrow> []);
               r1 = r\<lparr>rc_session := token, rc_trading := trading, rc_owner := owner\<rparr> in
           case bindE (py_get account ''tradingAccountToken'' JS_null) (\<lambda>t. py_get (py_or t (JS_obj [])) ''token'' (JS_str [])) of
             Inl e \<Rightarrow> (Inl e, r1)
           | Inr atok \<Rightarrow>
               (let r2 = r1\<lparr>rc_account_token := atok, rc_system := sys\<rparr> in
                case py_field account ''tradingAccountId'' of
                  Inl e \<Rightarrow> (Inl e, r2)
                | Inr i \<Rightarrow> (Inr (), r2\<lparr>rc_account := py_str N i, rc_identity := identity, rc_expires := rc_clock r2 + 900\<rparr>))))"

subsection \<open>Login\<close>

text \<open>The body of a login: the configured credentials, or a request with the email it names, if any.\<close>

datatype login_body = Own_credentials | Given_body "string option" string

text \<open>The broker id of a login with the configured credentials; the platform is asked for it when none is set.\<close>

definition login_broker :: "rest_net \<Rightarrow> unit session_run" where
  "login_broker N r =
     (if st_broker (rc_settings r) \<noteq> [] then (Inr (), r)
      else rbind (send_message N ''GET'' ''manager/platform-details'' False [] False)
             (\<lambda>platform. pure (if \<not> is_obj platform then Inl (protocol_error ''Platform details has no partnerId'')
                               else bindE (py_get platform ''partnerId'' JS_null) (\<lambda>p.
                                 if truth p then Inr () else Inl (protocol_error ''Platform details has no partnerId'')))) r)"

definition own_credentials :: "rest_net \<Rightarrow> unit session_run" where
  "own_credentials N r =
     (if st_email (rc_settings r) = [] \<or> st_password (rc_settings r) = []
      then (Inl (authentication_error ''Set the broker's EMAIL and PASSWORD in your local .env''), r)
      else login_broker N r)"

definition clear_tokens :: "unit session_run" where
  "clear_tokens r = (Inr (), r\<lparr>rc_session := JS_str [], rc_trading := JS_str [], rc_account_token := JS_str []\<rparr>)"

definition session_login :: "rest_net \<Rightarrow> login_body \<Rightarrow> bool \<Rightarrow> bool \<Rightarrow> json session_run" where
  "session_login N body one_time discover_only r =
     rbind (case body of Own_credentials \<Rightarrow> own_credentials N | Given_body _ _ \<Rightarrow> pure (Inr ())) (\<lambda>_ r0.
       let identity = (case body of Given_body (Some email) _ \<Rightarrow> email | _ \<Rightarrow> st_email (rc_settings r0)) in
       if truth (rc_session r0) \<and> (one_time \<or> rc_identity r0 \<noteq> identity)
       then (Inl (configuration_error ''Close the active session before logging in as another identity''), r0)
       else rbind (send_message N ''POST'' (if one_time then ''manager/login/co/with-token'' else ''manager/mtr-login'') False
                     (case body of Given_body _ text \<Rightarrow> text | Own_credentials \<Rightarrow> []) False) (\<lambda>data.
              if discover_only then pure (Inr data)
              else rbind clear_tokens (\<lambda>_. rbind (adopt N data identity) (\<lambda>_. pure (Inr data)))) r0) r"

definition discover_accounts :: "rest_net \<Rightarrow> json session_run" where
  "discover_accounts N r =
     (if rc_closed r then (Inl (closed_error ''Connection is closed''), r)
      else if st_account (rc_settings r) \<noteq> [] \<or> truth (rc_session r)
      then (Inl (configuration_error ''Account discovery requires an unselected session''), r)
      else session_login N Own_credentials False True r)"

definition adopt_login :: "rest_net \<Rightarrow> json \<Rightarrow> unit session_run" where
  "adopt_login N data r =
     (if rc_closed r then (Inl (closed_error ''Connection is closed''), r)
      else if st_account (rc_settings r) = []
      then (Inl (configuration_error ''Select an account before adopting a login''), r)
      else adopt N data (st_email (rc_settings r)) r)"

subsection \<open>Expiry\<close>

text \<open>The expiry claim of the session token; a token that is no text has no method to read it by.\<close>

definition session_expiry :: "rest_net \<Rightarrow> rest \<Rightarrow> rat option res" where
  "session_expiry N r =
     (if rc_closed r \<or> \<not> truth (rc_session r) then Inr None
      else (case rc_session r of JS_str t \<Rightarrow> Inr (nt_claims N t) | _ \<Rightarrow> Inl attribute_error))"

definition renewal_due :: "rest_net \<Rightarrow> rat \<Rightarrow> rest \<Rightarrow> bool res" where
  "renewal_due N margin r =
     (if rc_closed r \<or> \<not> truth (rc_session r) then Inr False
      else bindE (session_expiry N r) (\<lambda>expiry. Inr
        (case expiry of
           Some e \<Rightarrow> e - nt_wall N (rc_clock r) \<le> margin
         | None \<Rightarrow> rc_expires r \<le> rc_clock r)))"

definition renewal_delay :: "rest_net \<Rightarrow> rat \<Rightarrow> rest \<Rightarrow> rat option res" where
  "renewal_delay N margin r =
     (if rc_closed r \<or> \<not> truth (rc_session r) then Inr None
      else bindE (session_expiry N r) (\<lambda>expiry. Inr (Some
        (case expiry of
           Some e \<Rightarrow> max 0 (e - nt_wall N (rc_clock r) - margin)
         | None \<Rightarrow> max 0 (rc_expires r - rc_clock r)))))"

subsection \<open>Renewal\<close>

text \<open>Four attempts an hour.\<close>

definition reserve_renewal :: "unit session_run" where
  "reserve_renewal r =
     (let now = rc_clock r; recent = dropWhile (\<lambda>t. t \<le> now - 3600) (rc_refreshes r) in
      if 4 \<le> length recent
      then (Inl (authentication_error ''Refresh limit reached (four attempts/hour); check credentials or wait''),
            r\<lparr>rc_refreshes := recent\<rparr>)
      else (Inr (), r\<lparr>rc_refreshes := recent @ [now], rc_reserved := rc_reserved r @ [now]\<rparr>))"

text \<open>A failure leaves the session due at once.\<close>

definition expire_now :: "exn \<Rightarrow> 'a session_run" where
  "expire_now e r = (Inl e, r\<lparr>rc_expires := 0\<rparr>)"

text \<open>The token of a refresh answer with its fields; without one the cookie jar is read.\<close>

definition refreshed_token :: "json \<Rightarrow> (json \<times> (string \<times> json) list) option" where
  "refreshed_token data =
     (case data of
        JS_obj fs \<Rightarrow> (case map_of fs ''token'' of Some t \<Rightarrow> if truth t then Some (t, fs) else None | None \<Rightarrow> None)
      | _ \<Rightarrow> None)"

definition adopt_refresh :: "rest_net \<Rightarrow> json \<Rightarrow> unit session_run" where
  "adopt_refresh N data r =
     (case refreshed_token data of
        Some (t, fs) \<Rightarrow>
          if list_ex (\<lambda>k. map_of fs k \<noteq> None) [''accounts'', ''tradingAccounts'', ''selectedAccount'', ''selectedTradingAccount'']
          then adopt N data (rc_identity r) r
          else (Inr (), r\<lparr>rc_session := t\<rparr>)
      | None \<Rightarrow>
          (Inr (), r\<lparr>rc_session := (case nt_cookie N (length (rc_wire r)) of Some c \<Rightarrow> JS_str c | None \<Rightarrow> rc_session r)\<rparr>))"

definition extend_expiry :: "unit session_run" where
  "extend_expiry r = (Inr (), r\<lparr>rc_expires := rc_clock r + 900\<rparr>)"

definition refresh :: "rest_net \<Rightarrow> json session_run" where
  "refresh N r =
     (if \<not> truth (rc_session r) then (Inl (authentication_error ''Login before refreshing the session''), r)
      else rbind reserve_renewal (\<lambda>_.
             on_failure
               (rbind (send_message N ''POST'' ''manager/refresh-token'' False [] False) (\<lambda>data.
                rbind (adopt_refresh N data) (\<lambda>_. rbind extend_expiry (\<lambda>_. pure (Inr data)))))
               expire_now) r)"

definition falls_back :: "exn \<Rightarrow> bool" where
  "falls_back e \<longleftrightarrow> exn_type e \<in> {''APIError'', ''UnknownOutcomeError'', ''AuthenticationError'', ''ProtocolError''}"

definition renew :: "rest_net \<Rightarrow> json session_run" where
  "renew N r =
     (if st_refreshes (rc_settings r)
      then on_failure (refresh N) (\<lambda>e r1.
             if falls_back e \<and> rc_identity r1 \<noteq> [] \<and> rc_identity r1 = st_email (rc_settings r1) \<and> st_account (rc_settings r1) \<noteq> []
             then session_login N Own_credentials False False r1
             else (Inl e, r1)) r
      else if \<not> truth (rc_session r) then (Inl (authentication_error ''Login before renewing the session''), r)
      else if rc_identity r \<noteq> st_email (rc_settings r)
      then (Inl (configuration_error ''Automatic login requires the active identity's configured credentials''), r)
      else rbind reserve_renewal (\<lambda>_. on_failure (session_login N Own_credentials False False) expire_now) r)"

definition renew_if_due :: "rest_net \<Rightarrow> rat \<Rightarrow> bool session_run" where
  "renew_if_due N margin r =
     rbind (\<lambda>r. (renewal_due N margin r, r)) (\<lambda>due.
       if \<not> due then pure (Inr False) else rbind (renew N) (\<lambda>_. pure (Inr True))) r"

subsection \<open>Requests\<close>

datatype request_action = No_action | Act_login "string option" | Act_one_time "string option" | Act_refresh

text \<open>The login or renewal a trading request makes first; whether it renewed.\<close>

definition ready_session :: "rest_net \<Rightarrow> bool \<Rightarrow> bool session_run" where
  "ready_session N trading r =
     (if \<not> trading then (Inr False, r)
      else if \<not> truth (rc_session r) then rbind (session_login N Own_credentials False False) (\<lambda>_. pure (Inr False)) r
      else if rc_expires r \<le> rc_clock r then rbind (renew N) (\<lambda>_. pure (Inr True)) r
      else (Inr False, r))"

definition send_or_retry ::
  "rest_net \<Rightarrow> string \<Rightarrow> string \<Rightarrow> bool \<Rightarrow> string \<Rightarrow> bool \<Rightarrow> bool \<Rightarrow> bool \<Rightarrow> json session_run" where
  "send_or_retry N method path trading body write safe_read refreshed =
     on_failure (send_message N method path trading body write) (\<lambda>e.
       if exn_type e \<noteq> ''AuthenticationError'' \<or> \<not> trading \<or> \<not> safe_read \<or> refreshed then pure (Inl e)
       else rbind (renew N) (\<lambda>_. send_message N method path trading body write))"

definition http_request ::
  "rest_net \<Rightarrow> string \<Rightarrow> string \<Rightarrow> bool \<Rightarrow> string \<Rightarrow> bool \<Rightarrow> bool \<Rightarrow> request_action \<Rightarrow> json session_run" where
  "http_request N method path trading body write safe_read action r =
     (if rc_closed r then (Inl (closed_error ''Connection is closed''), r)
      else if write \<and> \<not> st_writes (rc_settings r)
      then (Inl (Exn ''WritesDisabledError'' ''Enable writes for this broker in your local .env to use mutation endpoints'' None), r)
      else (case action of
              Act_login email \<Rightarrow> session_login N (if body = [] then Own_credentials else Given_body email body) False False r
            | Act_one_time email \<Rightarrow> session_login N (if body = [] then Own_credentials else Given_body email body) True False r
            | Act_refresh \<Rightarrow> refresh N r
            | No_action \<Rightarrow>
                rbind (ready_session N trading) (\<lambda>refreshed. send_or_retry N method path trading body write safe_read refreshed) r))"

subsection \<open>Endpoints\<close>

datatype endpoint_call = No_call | Call_login | Call_one_time | Call_refresh

record endpoint =
  ep_method :: string
  ep_path :: string
  ep_trading :: bool
  ep_write :: bool
  ep_safe_read :: bool
  ep_action :: endpoint_call
  ep_collection :: "string option"
  ep_single :: bool
  ep_model :: bool
  ep_allow_empty :: bool

definition active_orders_endpoint :: endpoint where
  "active_orders_endpoint =
     \<lparr>ep_method = ''GET'', ep_path = ''mtr-api/SYSTEM_UUID/active-orders'', ep_trading = True, ep_write = False,
      ep_safe_read = True, ep_action = No_call, ep_collection = Some ''orders'',
      ep_single = False, ep_model = True, ep_allow_empty = False\<rparr>"

definition balance_endpoint :: endpoint where
  "balance_endpoint =
     \<lparr>ep_method = ''GET'', ep_path = ''mtr-api/SYSTEM_UUID/balance'', ep_trading = True, ep_write = False,
      ep_safe_read = True, ep_action = No_call, ep_collection = None,
      ep_single = False, ep_model = True, ep_allow_empty = False\<rparr>"

definition cancel_pending_order_endpoint :: endpoint where
  "cancel_pending_order_endpoint =
     \<lparr>ep_method = ''POST'', ep_path = ''mtr-api/SYSTEM_UUID/pending-order/cancel'', ep_trading = True, ep_write = True,
      ep_safe_read = False, ep_action = No_call, ep_collection = None,
      ep_single = False, ep_model = True, ep_allow_empty = False\<rparr>"

definition candles_endpoint :: endpoint where
  "candles_endpoint =
     \<lparr>ep_method = ''GET'', ep_path = ''mtr-api/SYSTEM_UUID/candles'', ep_trading = True, ep_write = False,
      ep_safe_read = True, ep_action = No_call, ep_collection = Some ''candles'',
      ep_single = False, ep_model = True, ep_allow_empty = False\<rparr>"

definition close_position_endpoint :: endpoint where
  "close_position_endpoint =
     \<lparr>ep_method = ''POST'', ep_path = ''mtr-api/SYSTEM_UUID/position/close'', ep_trading = True, ep_write = True,
      ep_safe_read = False, ep_action = No_call, ep_collection = None,
      ep_single = False, ep_model = True, ep_allow_empty = False\<rparr>"

definition closed_positions_endpoint :: endpoint where
  "closed_positions_endpoint =
     \<lparr>ep_method = ''POST'', ep_path = ''mtr-api/SYSTEM_UUID/closed-positions'', ep_trading = True, ep_write = False,
      ep_safe_read = True, ep_action = No_call, ep_collection = Some ''operations'',
      ep_single = False, ep_model = True, ep_allow_empty = False\<rparr>"

definition create_pending_order_endpoint :: endpoint where
  "create_pending_order_endpoint =
     \<lparr>ep_method = ''POST'', ep_path = ''mtr-api/SYSTEM_UUID/pending-order/create'', ep_trading = True, ep_write = True,
      ep_safe_read = False, ep_action = No_call, ep_collection = None,
      ep_single = False, ep_model = True, ep_allow_empty = False\<rparr>"

definition edit_pending_order_endpoint :: endpoint where
  "edit_pending_order_endpoint =
     \<lparr>ep_method = ''POST'', ep_path = ''mtr-api/SYSTEM_UUID/pending-order/edit'', ep_trading = True, ep_write = True,
      ep_safe_read = False, ep_action = No_call, ep_collection = None,
      ep_single = False, ep_model = False, ep_allow_empty = False\<rparr>"

definition edit_position_endpoint :: endpoint where
  "edit_position_endpoint =
     \<lparr>ep_method = ''POST'', ep_path = ''mtr-api/SYSTEM_UUID/position/edit'', ep_trading = True, ep_write = True,
      ep_safe_read = False, ep_action = No_call, ep_collection = None,
      ep_single = False, ep_model = True, ep_allow_empty = False\<rparr>"

definition instruments_endpoint :: endpoint where
  "instruments_endpoint =
     \<lparr>ep_method = ''GET'', ep_path = ''mtr-api/SYSTEM_UUID/effective-instruments'', ep_trading = True, ep_write = False,
      ep_safe_read = True, ep_action = No_call, ep_collection = Some ''instruments'',
      ep_single = True, ep_model = True, ep_allow_empty = False\<rparr>"

definition login_endpoint :: endpoint where
  "login_endpoint =
     \<lparr>ep_method = ''POST'', ep_path = ''manager/mtr-login'', ep_trading = False, ep_write = False,
      ep_safe_read = False, ep_action = Call_login, ep_collection = None,
      ep_single = False, ep_model = True, ep_allow_empty = False\<rparr>"

definition login_with_token_endpoint :: endpoint where
  "login_with_token_endpoint =
     \<lparr>ep_method = ''POST'', ep_path = ''manager/login/co/with-token'', ep_trading = False, ep_write = False,
      ep_safe_read = False, ep_action = Call_one_time, ep_collection = None,
      ep_single = False, ep_model = True, ep_allow_empty = False\<rparr>"

definition open_position_endpoint :: endpoint where
  "open_position_endpoint =
     \<lparr>ep_method = ''POST'', ep_path = ''mtr-api/SYSTEM_UUID/position/open'', ep_trading = True, ep_write = True,
      ep_safe_read = False, ep_action = No_call, ep_collection = None,
      ep_single = False, ep_model = True, ep_allow_empty = False\<rparr>"

definition open_positions_endpoint :: endpoint where
  "open_positions_endpoint =
     \<lparr>ep_method = ''GET'', ep_path = ''mtr-api/SYSTEM_UUID/open-positions'', ep_trading = True, ep_write = False,
      ep_safe_read = True, ep_action = No_call, ep_collection = Some ''positions'',
      ep_single = False, ep_model = True, ep_allow_empty = False\<rparr>"

definition partial_close_endpoint :: endpoint where
  "partial_close_endpoint =
     \<lparr>ep_method = ''POST'', ep_path = ''mtr-api/SYSTEM_UUID/position/close-partially'', ep_trading = True, ep_write = True,
      ep_safe_read = False, ep_action = No_call, ep_collection = None,
      ep_single = False, ep_model = True, ep_allow_empty = False\<rparr>"

definition platform_details_endpoint :: endpoint where
  "platform_details_endpoint =
     \<lparr>ep_method = ''GET'', ep_path = ''manager/platform-details'', ep_trading = False, ep_write = False,
      ep_safe_read = True, ep_action = No_call, ep_collection = None,
      ep_single = False, ep_model = True, ep_allow_empty = False\<rparr>"

definition quotes_endpoint :: endpoint where
  "quotes_endpoint =
     \<lparr>ep_method = ''GET'', ep_path = ''mtr-api/SYSTEM_UUID/quotations'', ep_trading = True, ep_write = False,
      ep_safe_read = True, ep_action = No_call, ep_collection = Some ''body'',
      ep_single = False, ep_model = True, ep_allow_empty = False\<rparr>"

definition refresh_token_endpoint :: endpoint where
  "refresh_token_endpoint =
     \<lparr>ep_method = ''POST'', ep_path = ''manager/refresh-token'', ep_trading = False, ep_write = False,
      ep_safe_read = False, ep_action = Call_refresh, ep_collection = None,
      ep_single = False, ep_model = True, ep_allow_empty = True\<rparr>"

definition register_endpoint :: endpoint where
  "register_endpoint =
     \<lparr>ep_method = ''POST'', ep_path = ''manager/user'', ep_trading = False, ep_write = True,
      ep_safe_read = False, ep_action = No_call, ep_collection = None,
      ep_single = False, ep_model = True, ep_allow_empty = False\<rparr>"

text \<open>The endpoints of the interface.\<close>

definition endpoints :: "endpoint list" where
  "endpoints =
     [active_orders_endpoint, balance_endpoint, cancel_pending_order_endpoint, candles_endpoint, close_position_endpoint, closed_positions_endpoint, create_pending_order_endpoint, edit_pending_order_endpoint, edit_position_endpoint, instruments_endpoint, login_endpoint, login_with_token_endpoint, open_position_endpoint, open_positions_endpoint, partial_close_endpoint, platform_details_endpoint, quotes_endpoint, refresh_token_endpoint, register_endpoint]"

lemmas endpoint_defs =
  active_orders_endpoint_def
  balance_endpoint_def
  cancel_pending_order_endpoint_def
  candles_endpoint_def
  close_position_endpoint_def
  closed_positions_endpoint_def
  create_pending_order_endpoint_def
  edit_pending_order_endpoint_def
  edit_position_endpoint_def
  instruments_endpoint_def
  login_endpoint_def
  login_with_token_endpoint_def
  open_position_endpoint_def
  open_positions_endpoint_def
  partial_close_endpoint_def
  platform_details_endpoint_def
  quotes_endpoint_def
  refresh_token_endpoint_def
  register_endpoint_def

text \<open>\<open>email\<close>: the email of a login request.\<close>

definition endpoint_action :: "endpoint \<Rightarrow> string option \<Rightarrow> request_action" where
  "endpoint_action e email =
     (case ep_action e of Call_login \<Rightarrow> Act_login email | Call_one_time \<Rightarrow> Act_one_time email | Call_refresh \<Rightarrow> Act_refresh
      | No_call \<Rightarrow> No_action)"

text \<open>The rows a collection endpoint reads from an answer.\<close>

definition collect_rows :: "endpoint \<Rightarrow> string \<Rightarrow> json \<Rightarrow> json list res" where
  "collect_rows e name result =
     bindE (case result of
              JS_obj fs \<Rightarrow>
                (case map_of fs name of
                   Some v \<Rightarrow> Inr v
                 | None \<Rightarrow> if ep_single e then Inr (JS_list [result])
                           else Inl (protocol_error ''Expected response collection is absent''))
            | _ \<Rightarrow> Inr result) (\<lambda>v.
       case v of JS_list xs \<Rightarrow> Inr xs | _ \<Rightarrow> Inl (protocol_error ''Expected a list response''))"

fun validated_rows :: "(json \<Rightarrow> 'a option) \<Rightarrow> json list \<Rightarrow> 'a list option" where
  "validated_rows valid [] = Some []"
| "validated_rows valid (x # xs) =
     (case valid x of None \<Rightarrow> None | Some y \<Rightarrow> map_option (Cons y) (validated_rows valid xs))"

datatype 'a answer = Raw json | One 'a | Many "'a list"

text \<open>\<open>request\<close> is the text of the validated request; \<open>valid\<close> the response model of the endpoint.\<close>

definition read_answer :: "(json \<Rightarrow> 'a option) \<Rightarrow> endpoint \<Rightarrow> json \<Rightarrow> 'a answer res" where
  "read_answer valid e result =
     (let mismatch = Inl (protocol_error ''Response does not match the documented model'') in
      if \<not> ep_model e \<or> (result = JS_null \<and> ep_allow_empty e) then Inr (Raw result)
      else (case ep_collection e of
              Some name \<Rightarrow> bindE (collect_rows e name result) (\<lambda>xs.
                case validated_rows valid xs of Some ys \<Rightarrow> Inr (Many ys) | None \<Rightarrow> mismatch)
            | None \<Rightarrow> (case valid result of Some y \<Rightarrow> Inr (One y) | None \<Rightarrow> mismatch)))"

definition execute ::
  "rest_net \<Rightarrow> (json \<Rightarrow> 'a option) \<Rightarrow> endpoint \<Rightarrow> string option \<Rightarrow> string res \<Rightarrow> 'a answer session_run" where
  "execute N valid e email request =
     rbind (pure request) (\<lambda>body.
     rbind (http_request N (ep_method e) (ep_path e) (ep_trading e) body (ep_write e)
              (ep_safe_read e) (endpoint_action e email)) (\<lambda>result.
       pure (read_answer valid e result)))"

end
