(* ===== verification/SessionLaws.thy ===== *)
theory SessionLaws
  imports RestSession
begin

text \<open>
  What every run of a session keeps: the lifting of a law over login, refresh, renewal and requests, once,
  and its two uses, the messages that write and the invariant of tokens and renewals.
\<close>

subsection \<open>Laws of a run\<close>

definition keeps :: "(rest \<Rightarrow> bool) \<Rightarrow> 'a session_run \<Rightarrow> bool" where
  "keeps P m \<longleftrightarrow> (\<forall>r. P r \<longrightarrow> P (snd (m r)))"

lemma keepsI: "(\<And>r. P r \<Longrightarrow> P (snd (m r))) \<Longrightarrow> keeps P m"
  by (simp add: keeps_def)

lemma keepsD: "keeps P m \<Longrightarrow> P r \<Longrightarrow> P (snd (m r))"
  by (simp add: keeps_def)

lemma keeps_pure [simp]: "keeps P (pure x)"
  by (simp add: keeps_def pure_def)

lemma keeps_rbind: "keeps P m \<Longrightarrow> (\<And>x. keeps P (f x)) \<Longrightarrow> keeps P (rbind m f)"
  unfolding keeps_def rbind_def by (auto split: prod.splits sum.splits)

lemma keeps_on_failure: "keeps P m \<Longrightarrow> (\<And>e. keeps P (h e)) \<Longrightarrow> keeps P (on_failure m h)"
  unfolding keeps_def on_failure_def by (auto split: prod.splits sum.splits)

lemma keeps_read: "keeps P (\<lambda>r. (f r, r))"
  by (simp add: keeps_def)

text \<open>A law kept by every message that does not write and by every change of the session.\<close>

locale session_law =
  fixes N :: rest_net and P :: "rest \<Rightarrow> bool"
  assumes message: "\<And>method path trading body. keeps P (send_message N method path trading body False)"
    and adopts: "\<And>data identity. keeps P (adopt N data identity)"
    and adopts_refresh: "\<And>data. keeps P (adopt_refresh N data)"
    and clears: "keeps P clear_tokens"
    and reserves: "keeps P reserve_renewal"
    and extends: "keeps P extend_expiry"
    and expires: "\<And>e. keeps P (expire_now e :: json session_run)"
begin

lemma broker_keeps: "keeps P (login_broker N)"
proof (rule keepsI)
  fix r assume "P r"
  moreover have "keeps P (rbind (send_message N ''GET'' ''manager/platform-details'' False [] False)
             (\<lambda>platform. pure (if \<not> is_obj platform then Inl (protocol_error ''Platform details has no partnerId'')
                               else bindE (py_get platform ''partnerId'' JS_null) (\<lambda>p.
                                 if truth p then Inr () else Inl (protocol_error ''Platform details has no partnerId'')))))"
    by (intro keeps_rbind message keeps_pure)
  ultimately show "P (snd (login_broker N r))" by (simp add: login_broker_def keepsD)
qed

lemma credentials_keep: "keeps P (own_credentials N)"
  using broker_keeps by (simp add: keeps_def own_credentials_def)

lemma login_keeps: "keeps P (session_login N body one_time discover_only)"
proof -
  define start where "start = (case body of Own_credentials \<Rightarrow> own_credentials N | Given_body _ _ \<Rightarrow> pure (Inr ()))"
  have "keeps P start" by (auto simp: start_def credentials_keep split: login_body.split)
  moreover
  define rest_of where "rest_of = (\<lambda>r0. let identity = (case body of Given_body (Some email) _ \<Rightarrow> email | _ \<Rightarrow> st_email (rc_settings r0)) in
       if truth (rc_session r0) \<and> (one_time \<or> rc_identity r0 \<noteq> identity)
       then (Inl (configuration_error ''Close the active session before logging in as another identity''), r0)
       else rbind (send_message N ''POST'' (if one_time then ''manager/login/co/with-token'' else ''manager/mtr-login'') False
                     (case body of Given_body _ text \<Rightarrow> text | Own_credentials \<Rightarrow> []) False) (\<lambda>data.
              if discover_only then pure (Inr data)
              else rbind clear_tokens (\<lambda>_. rbind (adopt N data identity) (\<lambda>_. pure (Inr data)))) r0)"
  have "keeps P rest_of"
  proof (rule keepsI, unfold rest_of_def Let_def, goal_cases)
    case (1 r0)
    have "keeps P (rbind (send_message N ''POST'' m False t False) (\<lambda>data.
              if discover_only then pure (Inr data)
              else rbind clear_tokens (\<lambda>_. rbind (adopt N data i) (\<lambda>_. pure (Inr data)))))" for m t i
      by (intro keeps_rbind message) (auto intro!: keeps_rbind clears adopts)
    with 1 show ?case by (auto simp: keepsD)
  qed
  ultimately have "keeps P (rbind start (\<lambda>_. rest_of))" by (rule keeps_rbind)
  then show ?thesis unfolding keeps_def session_login_def start_def rest_of_def .
qed

lemma refresh_keeps: "keeps P (refresh N)"
proof -
  have "keeps P (rbind reserve_renewal (\<lambda>_.
             on_failure
               (rbind (send_message N ''POST'' ''manager/refresh-token'' False [] False) (\<lambda>data.
                rbind (adopt_refresh N data) (\<lambda>_. rbind extend_expiry (\<lambda>_. pure (Inr data)))))
               expire_now))"
    by (intro keeps_rbind keeps_on_failure message adopts_refresh reserves extends expires keeps_pure)
  then show ?thesis by (simp add: keeps_def refresh_def)
qed

lemma renew_keeps: "keeps P (renew N)"
proof -
  have a: "keeps P (on_failure (refresh N) (\<lambda>e r1.
             if falls_back e \<and> rc_identity r1 \<noteq> [] \<and> rc_identity r1 = st_email (rc_settings r1) \<and> st_account (rc_settings r1) \<noteq> []
             then session_login N Own_credentials False False r1
             else (Inl e, r1)))"
    by (intro keeps_on_failure refresh_keeps keepsI) (auto simp: login_keeps keepsD)
  have b: "keeps P (rbind reserve_renewal (\<lambda>_. on_failure (session_login N Own_credentials False False) expire_now))"
    by (intro keeps_rbind keeps_on_failure reserves login_keeps expires)
  show ?thesis using a b by (simp add: keeps_def renew_def)
qed

lemma renew_if_due_keeps: "keeps P (renew_if_due N margin)"
proof -
  have "keeps P (rbind (\<lambda>r. (renewal_due N margin r, r)) (\<lambda>due.
       if \<not> due then pure (Inr False) else rbind (renew N) (\<lambda>_. pure (Inr True))))"
    by (rule keeps_rbind[OF keeps_read]) (auto intro!: keeps_rbind renew_keeps)
  then show ?thesis unfolding keeps_def renew_if_due_def .
qed

lemma ready_keeps: "keeps P (ready_session N trading)"
proof -
  have "keeps P (rbind (session_login N Own_credentials False False) (\<lambda>_. pure (Inr False)))"
    "keeps P (rbind (renew N) (\<lambda>_. pure (Inr True)))"
    by (intro keeps_rbind login_keeps renew_keeps keeps_pure)+
  then show ?thesis by (simp add: keeps_def ready_session_def)
qed

lemma discover_keeps: "keeps P (discover_accounts N)"
  using login_keeps[of Own_credentials False True] by (simp add: keeps_def discover_accounts_def)

lemma adopt_login_keeps: "keeps P (adopt_login N data)"
  using adopts by (simp add: keeps_def adopt_login_def)

end

subsection \<open>Messages that write\<close>

definition writes_of :: "rest \<Rightarrow> wire list" where
  "writes_of r = filter wr_write (rc_wire r)"

text \<open>Nothing was written since \<open>r0\<close>, and the connection is configured and open as it was.\<close>

definition quiet_since :: "rest \<Rightarrow> rest \<Rightarrow> bool" where
  "quiet_since r0 r \<longleftrightarrow> writes_of r = writes_of r0 \<and> rc_settings r = rc_settings r0 \<and> rc_closed r = rc_closed r0"

lemma quiet_refl [simp]: "quiet_since r r"
  by (simp add: quiet_since_def)

lemma adopt_fields:
  assumes "adopt N data identity r = (x, r')"
  shows "rc_wire r' = rc_wire r" "rc_settings r' = rc_settings r" "rc_closed r' = rc_closed r" "rc_clock r' = rc_clock r"
    "rc_refreshes r' = rc_refreshes r" "rc_reserved r' = rc_reserved r" "rc_limiter r' = rc_limiter r"
  using assms by (auto simp: adopt_def Let_def split: sum.splits prod.splits)

lemma adopt_refresh_fields:
  assumes "adopt_refresh N data r = (x, r')"
  shows "rc_wire r' = rc_wire r" "rc_settings r' = rc_settings r" "rc_closed r' = rc_closed r" "rc_clock r' = rc_clock r"
    "rc_refreshes r' = rc_refreshes r" "rc_reserved r' = rc_reserved r" "rc_limiter r' = rc_limiter r"
  using assms adopt_fields by (auto simp: adopt_refresh_def split: option.splits prod.splits if_splits)

lemma send_message_cases:
  assumes "send_message N method path trading body write r = (x, r')"
  obtains (closed_conn) "rc_closed r" "x = Inl (closed_error ''Connection is closed'')" "r' = r"
  | (unsent) permit l e where "\<not> rc_closed r" "limiter_wait (rc_clock r) (nt_over N (length (rc_wire r))) (rc_limiter r) = (permit, l)"
      "headers_of trading path (r\<lparr>rc_clock := permit, rc_limiter := l\<rparr>) = Inl e" "x = Inl e" "r' = r\<lparr>rc_clock := permit, rc_limiter := l\<rparr>"
  | (sent) permit l p w where "\<not> rc_closed r" "limiter_wait (rc_clock r) (nt_over N (length (rc_wire r))) (rc_limiter r) = (permit, l)"
      "wr_write w = write" "wr_trading w = trading" "wr_body w = body" "wr_method w = method" "wr_owner w = (if trading then rc_owner r else [])"
      "trading \<Longrightarrow> truth (rc_trading r)" "wr_path w = p"
      "x = answer_outcome N method trading p write (rc_system r) (nt_answer N (length (rc_wire r)))"
      "r' = r\<lparr>rc_clock := permit + nt_elapsed N (length (rc_wire r)), rc_limiter := l, rc_wire := rc_wire r @ [w]\<rparr>"
proof -
  obtain permit l where lw: "limiter_wait (rc_clock r) (nt_over N (length (rc_wire r))) (rc_limiter r) = (permit, l)" by fastforce
  let ?r1 = "r\<lparr>rc_clock := permit, rc_limiter := l\<rparr>"
  consider (c) "rc_closed r" | (u) e where "\<not> rc_closed r" "headers_of trading path ?r1 = Inl e"
    | (s) p token cookie where "\<not> rc_closed r" "headers_of trading path ?r1 = Inr (p, token, cookie)"
    by (metis prod_cases3 sum.exhaust)
  then show ?thesis
  proof cases
    case c
    with assms have "x = Inl (closed_error ''Connection is closed'')" "r' = r" by (simp_all add: send_message_def)
    then show ?thesis by (rule closed_conn[OF c])
  next
    case u
    with assms lw have "x = Inl e" "r' = ?r1" by (simp_all add: send_message_def Let_def)
    then show ?thesis by (rule unsent[OF u(1) lw u(2)])
  next
    case s
    have tt: "truth (rc_trading r)" if t: "trading" using s(2) t by (auto simp: headers_of_def split: if_splits)
    define w where "w = \<lparr>wr_method = method,
        wr_base = (if trading then str_or (st_trading (rc_settings r)) (st_platform (rc_settings r)) else st_platform (rc_settings r)),
        wr_path = p, wr_trading = trading, wr_write = write, wr_body = body, wr_token = token, wr_cookie = cookie,
        wr_owner = (if trading then rc_owner r else [])\<rparr>"
    have "x = answer_outcome N method trading p write (rc_system r) (nt_answer N (length (rc_wire r)))"
      "r' = r\<lparr>rc_clock := permit + nt_elapsed N (length (rc_wire r)), rc_limiter := l, rc_wire := rc_wire r @ [w]\<rparr>"
      using assms s lw by (cases trading; auto simp: send_message_def Let_def w_def)+
    then show ?thesis
      by (intro sent[OF s(1) lw, of w]) (simp_all add: w_def tt)
  qed
qed

lemma message_quiet: "keeps (quiet_since r0) (send_message N method path trading body False)"
proof (rule keepsI)
  fix r assume q: "quiet_since r0 r"
  obtain x r' where m: "send_message N method path trading body False r = (x, r')" by fastforce
  then have "quiet_since r0 r'"
    by (cases rule: send_message_cases) (use q in \<open>auto simp: quiet_since_def writes_of_def\<close>)
  with m show "quiet_since r0 (snd (send_message N method path trading body False r))" by simp
qed

lemma keeps_byI: "(\<And>r x r'. P r \<Longrightarrow> m r = (x, r') \<Longrightarrow> P r') \<Longrightarrow> keeps P m"
  unfolding keeps_def by (metis prod.collapse)

interpretation quiet: session_law N "quiet_since r0" for N r0
proof
  show "keeps (quiet_since r0) (adopt N data identity)" for data identity
    by (rule keeps_byI) (simp add: adopt_fields quiet_since_def writes_of_def)
  show "keeps (quiet_since r0) (adopt_refresh N data)" for data
    by (rule keeps_byI) (simp add: adopt_refresh_fields quiet_since_def writes_of_def)
qed (rule message_quiet, simp_all add: keeps_def quiet_since_def writes_of_def clear_tokens_def reserve_renewal_def
      extend_expiry_def expire_now_def Let_def)

subsection \<open>Known outcomes\<close>

definition known :: "'a res \<Rightarrow> bool" where
  "known x \<longleftrightarrow> (case x of Inl e \<Rightarrow> exn_type e \<noteq> ''UnknownOutcomeError'' | Inr _ \<Rightarrow> True)"

definition known_run :: "'a session_run \<Rightarrow> bool" where
  "known_run m \<longleftrightarrow> (\<forall>r. known (fst (m r)))"

lemma known_simps [simp]:
  "known (Inr x)" "known (Inl (authentication_error m))" "known (Inl (protocol_error m))" "known (Inl (configuration_error m))"
  "known (Inl (closed_error m))" "known (Inl attribute_error)" "known (Inl type_error)" "known (Inl key_error)"
  by (simp_all add: known_def authentication_error_def protocol_error_def configuration_error_def closed_error_def
      attribute_error_def type_error_def key_error_def)

lemma known_Inl: "known (Inl e) \<longleftrightarrow> exn_type e \<noteq> ''UnknownOutcomeError''"
  by (simp add: known_def)

lemma knownD: "known x \<Longrightarrow> x = Inl e \<Longrightarrow> exn_type e \<noteq> ''UnknownOutcomeError''"
  by (simp add: known_def)

lemma known_bindE: "known m \<Longrightarrow> (\<And>x. m = Inr x \<Longrightarrow> known (f x)) \<Longrightarrow> known (bindE m f)"
  by (cases m) (simp_all add: known_def)

lemma known_if: "(b \<Longrightarrow> known x) \<Longrightarrow> (\<not> b \<Longrightarrow> known y) \<Longrightarrow> known (if b then x else y)"
  by simp

lemma known_reads [simp]: "known (py_get d k v)" "known (py_field d k)" "known (elements d)" "known (only_element d)" "known (need_text d)"
  by (cases d; simp add: of_option_def split: option.split)+

lemma known_matching [simp]: "known (matching N account as)"
  by (induction as) (auto intro!: known_bindE)

lemma known_items [simp]: "known (all_items xs)"
proof (induction xs)
  case (Cons x xs)
  have "known (system_item x)" by (cases x) simp_all
  with Cons show ?case by (auto intro!: known_bindE)
qed simp

lemma known_adoptable [simp]: "known (adoptable N s data)"
proof -
  have "known (login_accounts data)" by (auto simp: login_accounts_def Let_def intro!: known_bindE)
  moreover have "known (choose_account N account accounts)" for account accounts
    by (auto simp: choose_account_def intro!: known_bindE split: list.split)
  moreover have "known (login_system c account)" for c account by (auto simp: login_system_def intro!: known_bindE)
  moreover have "known (system_allowed v)" for v by (auto simp: system_allowed_def intro!: known_bindE)
  ultimately show ?thesis by (auto simp: adoptable_def intro!: known_bindE)
qed

lemma known_runD: "known_run m \<Longrightarrow> m r = (x, r') \<Longrightarrow> known x"
  unfolding known_run_def by (metis fst_conv)

lemma known_runI: "(\<And>r x r'. m r = (x, r') \<Longrightarrow> known x) \<Longrightarrow> known_run m"
  unfolding known_run_def by (metis prod.collapse)

lemma known_rbind: "known_run m \<Longrightarrow> (\<And>x. known_run (f x)) \<Longrightarrow> known_run (rbind m f)"
proof (rule known_runI)
  fix r x r' assume m: "known_run m" and f: "\<And>x. known_run (f x)" and e: "rbind m f r = (x, r')"
  show "known x"
    using e known_runD[OF m, of r] known_runD[OF f] by (auto simp: rbind_def known_Inl split: prod.splits sum.splits)
qed

lemma known_on_failure:
  "known_run m \<Longrightarrow> (\<And>e. exn_type e \<noteq> ''UnknownOutcomeError'' \<Longrightarrow> known_run (h e)) \<Longrightarrow> known_run (on_failure m h)"
proof (rule known_runI)
  fix r x r'
  assume m: "known_run m" and h: "\<And>e. exn_type e \<noteq> ''UnknownOutcomeError'' \<Longrightarrow> known_run (h e)" and e: "on_failure m h r = (x, r')"
  obtain y r1 where y: "m r = (y, r1)" by fastforce
  show "known x"
  proof (cases y)
    case (Inl ex)
    then have "exn_type ex \<noteq> ''UnknownOutcomeError''" using known_runD[OF m y] by (simp add: known_Inl)
    from known_runD[OF h[OF this], of r1 x r'] e y Inl show ?thesis by (simp add: on_failure_def)
  next
    case (Inr a)
    with e y show ?thesis by (auto simp: on_failure_def)
  qed
qed

lemma known_pure: "known x \<Longrightarrow> known_run (pure x)"
  by (simp add: known_run_def pure_def)

lemma known_adopt [simp]: "known_run (adopt N data identity)"
proof (rule known_runI)
  fix r x r' assume a: "adopt N data identity r = (x, r')"
  have t: "known (bindE (py_get account ''tradingAccountToken'' JS_null) (\<lambda>t. py_get (py_or t (JS_obj [])) ''token'' (JS_str [])))" for account
    by (auto intro!: known_bindE)
  show "known x"
    using a knownD[OF known_adoptable] knownD[OF known_reads(2)] knownD[OF t]
    by (auto simp: adopt_def Let_def known_Inl split: sum.splits prod.splits)
qed

lemma known_message [simp]: "known_run (send_message N method path trading body False)"
proof -
  have h: "known (headers_of trading path r)" for r by (auto simp: headers_of_def Let_def intro!: known_bindE)
  have o: "known (answer_outcome N method trading p False sys a)" for p sys a
    by (auto simp: answer_outcome_def known_def authentication_error_def protocol_error_def split: http_answer.split content.split)
  show ?thesis
  proof (unfold known_run_def, intro allI)
    fix r
    obtain x r' where m: "send_message N method path trading body False r = (x, r')" by fastforce
    then have "known x"
    proof (cases rule: send_message_cases)
      case (unsent permit l e)
      with h[of "r\<lparr>rc_clock := permit, rc_limiter := l\<rparr>"] show ?thesis by (simp add: known_Inl)
    qed (simp_all add: o)
    with m show "known (fst (send_message N method path trading body False r))" by simp
  qed
qed

lemma known_broker: "known_run (login_broker N)"
proof (rule known_runI)
  fix r x r' assume b: "login_broker N r = (x, r')"
  have "known_run (rbind (send_message N ''GET'' ''manager/platform-details'' False [] False)
             (\<lambda>platform. pure (if \<not> is_obj platform then Inl (protocol_error ''Platform details has no partnerId'')
                               else bindE (py_get platform ''partnerId'' JS_null) (\<lambda>p.
                                 if truth p then Inr () else Inl (protocol_error ''Platform details has no partnerId'')))))"
    by (intro known_rbind known_message known_pure) (auto intro!: known_bindE)
  from known_runD[OF this, of r x r'] b show "known x" by (auto simp: login_broker_def split: if_splits)
qed

lemma known_login [simp]: "known_run (session_login N body one_time discover_only)"
proof (rule known_runI)
  fix r x r' assume l: "session_login N body one_time discover_only r = (x, r')"
  define start where "start = (case body of Own_credentials \<Rightarrow> own_credentials N | Given_body _ _ \<Rightarrow> pure (Inr ()))"
  have s: "known_run start"
  proof (rule known_runI)
    fix r x r' assume e: "start r = (x, r')"
    show "known x"
      using e known_runD[OF known_broker] by (auto simp: start_def own_credentials_def pure_def split: login_body.splits if_splits)
  qed
  have k: "known_run (rbind (send_message N ''POST'' m False t False) (\<lambda>data.
              if discover_only then pure (Inr data)
              else rbind clear_tokens (\<lambda>_. rbind (adopt N data i) (\<lambda>_. pure (Inr data)))))" for m t i
    by (intro known_rbind known_message) (auto intro!: known_rbind known_pure simp: known_run_def[of clear_tokens] clear_tokens_def)
  define rest_of where "rest_of = (\<lambda>r0. let identity = (case body of Given_body (Some email) _ \<Rightarrow> email | _ \<Rightarrow> st_email (rc_settings r0)) in
       if truth (rc_session r0) \<and> (one_time \<or> rc_identity r0 \<noteq> identity)
       then (Inl (configuration_error ''Close the active session before logging in as another identity''), r0)
       else rbind (send_message N ''POST'' (if one_time then ''manager/login/co/with-token'' else ''manager/mtr-login'') False
                     (case body of Given_body _ text \<Rightarrow> text | Own_credentials \<Rightarrow> []) False) (\<lambda>data.
              if discover_only then pure (Inr data)
              else rbind clear_tokens (\<lambda>_. rbind (adopt N data identity) (\<lambda>_. pure (Inr data)))) r0)"
  have "known_run rest_of"
    unfolding known_run_def rest_of_def Let_def using k unfolding known_run_def by simp
  with s have "known_run (rbind start (\<lambda>_. rest_of))" by (rule known_rbind)
  then show "known x" by (rule known_runD) (use l in \<open>unfold session_login_def start_def rest_of_def\<close>)
qed

lemma known_refresh [simp]: "known_run (refresh N)"
proof (rule known_runI)
  fix r x r' assume e: "refresh N r = (x, r')"
  have adopts: "known_run (adopt_refresh N data)" for data
    by (rule known_runI) (auto simp: adopt_refresh_def split: option.splits if_splits prod.splits intro: known_runD[OF known_adopt])
  have expire: "known_run (expire_now ex :: json session_run)" if "exn_type ex \<noteq> ''UnknownOutcomeError''" for ex
    using that by (simp add: known_run_def expire_now_def known_Inl)
  have others: "known_run reserve_renewal" "known_run extend_expiry"
    by (simp_all add: known_run_def reserve_renewal_def extend_expiry_def Let_def)
  have "known_run (rbind reserve_renewal (\<lambda>_.
             on_failure
               (rbind (send_message N ''POST'' ''manager/refresh-token'' False [] False) (\<lambda>data.
                rbind (adopt_refresh N data) (\<lambda>_. rbind extend_expiry (\<lambda>_. pure (Inr data)))))
               expire_now))"
    by (intro known_rbind known_on_failure known_message adopts others expire known_pure) simp_all
  from known_runD[OF this, of r x r'] e show "known x" by (auto simp: refresh_def split: if_splits)
qed

lemma known_renew [simp]: "known_run (renew N)"
proof (rule known_runI)
  fix r x r' assume e: "renew N r = (x, r')"
  have a: "known_run (on_failure (refresh N) (\<lambda>e r1.
             if falls_back e \<and> rc_identity r1 \<noteq> [] \<and> rc_identity r1 = st_email (rc_settings r1) \<and> st_account (rc_settings r1) \<noteq> []
             then session_login N Own_credentials False False r1
             else (Inl e, r1)))"
    using known_login[of N Own_credentials False False]
    by (intro known_on_failure known_refresh) (simp add: known_run_def known_Inl)
  have expire: "known_run (expire_now ex :: json session_run)" if "exn_type ex \<noteq> ''UnknownOutcomeError''" for ex
    using that by (simp add: known_run_def expire_now_def known_Inl)
  have "known_run reserve_renewal" by (simp add: known_run_def reserve_renewal_def Let_def)
  then have b: "known_run (rbind reserve_renewal (\<lambda>_. on_failure (session_login N Own_credentials False False) expire_now))"
    by (intro known_rbind known_on_failure known_login expire)
  show "known x" using known_runD[OF a, of r x r'] known_runD[OF b, of r x r'] e by (auto simp: renew_def split: if_splits)
qed

lemma known_ready: "known_run (ready_session N trading)"
proof (rule known_runI)
  fix r x r' assume e: "ready_session N trading r = (x, r')"
  have a: "known_run (rbind (session_login N Own_credentials False False) (\<lambda>_. pure (Inr False)))"
    "known_run (rbind (renew N) (\<lambda>_. pure (Inr True)))"
    by (intro known_rbind known_login known_renew known_pure known_simps)+
  show "known x" using known_runD[OF a(1), of r x r'] known_runD[OF a(2), of r x r'] e by (auto simp: ready_session_def split: if_splits)
qed

subsection \<open>A request writes once\<close>

lemma retry_write: "send_or_retry N method path trading body True False refreshed = send_message N method path trading body True"
  by (rule ext) (simp add: send_or_retry_def on_failure_def pure_def split: prod.split sum.split)

lemma write_request:
  assumes "http_request N method path trading body True False No_action r = (x, r')"
  shows "(\<exists>e. x = Inl e \<and> exn_type e \<noteq> ''UnknownOutcomeError'' \<and> writes_of r' = writes_of r) \<or>
    (\<exists>w. writes_of r' = writes_of r @ [w] \<and> wr_body w = body \<and> wr_method w = method \<and> \<not> rc_closed r \<and> st_writes (rc_settings r))"
proof -
  consider (c) "rc_closed r" | (d) "\<not> rc_closed r" "\<not> st_writes (rc_settings r)" | (g) "\<not> rc_closed r" "st_writes (rc_settings r)"
    by blast
  then show ?thesis
  proof cases
    case c
    with assms show ?thesis by (auto simp: http_request_def closed_error_def)
  next
    case d
    with assms show ?thesis by (auto simp: http_request_def)
  next
    case g
    obtain y r1 where y: "ready_session N trading r = (y, r1)" by fastforce
    have q: "quiet_since r r1" using keepsD[OF quiet.ready_keeps quiet_refl] y by (metis snd_conv)
    show ?thesis
    proof (cases y)
      case (Inl e)
      with assms g y have "x = Inl e" "r' = r1" by (simp_all add: http_request_def rbind_def)
      with q known_runD[OF known_ready y] Inl show ?thesis by (simp add: quiet_since_def known_Inl)
    next
      case (Inr b)
      with assms g y have m: "send_message N method path trading body True r1 = (x, r')"
        by (simp add: http_request_def rbind_def retry_write)
      then show ?thesis
      proof (cases rule: send_message_cases)
        case closed_conn
        with q g show ?thesis by (simp add: quiet_since_def)
      next
        case (unsent permit l e)
        have "known (headers_of trading path (r1\<lparr>rc_clock := permit, rc_limiter := l\<rparr>))"
          by (auto simp: headers_of_def Let_def intro!: known_bindE)
        with unsent q show ?thesis by (auto simp: known_Inl quiet_since_def writes_of_def)
      next
        case (sent permit l p w)
        with q g show ?thesis by (auto simp: quiet_since_def writes_of_def)
      qed
    qed
  qed
qed

lemma read_request:
  assumes "\<not> write"
  shows "keeps (quiet_since r0) (http_request N method path trading body write safe_read action)"
proof (rule keepsI)
  fix r assume q: "quiet_since r0 r"
  have "keeps (quiet_since r0) (send_or_retry N method path trading body False safe_read refreshed)" for refreshed
    unfolding send_or_retry_def
    by (intro keeps_on_failure message_quiet) (auto intro!: keeps_rbind quiet.renew_keeps message_quiet)
  then have n: "keeps (quiet_since r0) (rbind (ready_session N trading) (\<lambda>refreshed. send_or_retry N method path trading body False safe_read refreshed))"
    by (intro keeps_rbind quiet.ready_keeps)
  show "quiet_since r0 (snd (http_request N method path trading body write safe_read action r))"
    using assms q keepsD[OF n q] keepsD[OF quiet.login_keeps q] keepsD[OF quiet.refresh_keeps q]
    by (auto simp: http_request_def split: request_action.split)
qed

lemma endpoint_writes_unsafe:
  assumes "e \<in> set endpoints" "ep_write e"
  shows "\<not> ep_safe_read e" "endpoint_action e email = No_action"
proof -
  have "list_all (\<lambda>e. ep_write e \<longrightarrow> \<not> ep_safe_read e \<and> ep_action e = No_call) endpoints"
    by (simp add: endpoints_def endpoint_defs)
  then have "\<not> ep_safe_read e \<and> ep_action e = No_call" using assms by (auto simp: list_all_iff)
  then show "\<not> ep_safe_read e" "endpoint_action e email = No_action" by (simp_all add: endpoint_action_def)
qed

subsection \<open>Properties\<close>

text \<open>
  C4: an endpoint call writes at most once: a read, a login or a refresh puts no write on the wire; a write
  endpoint puts its request there once or not at all, only through an open connection with writes enabled,
  and a call that was answered or whose outcome is unknown did put it there.
\<close>

theorem endpoint_writes_once:
  assumes "e \<in> set endpoints" "execute N valid e email (Inr body) r = (x, r')"
  shows "writes_of r' = writes_of r \<and> (\<forall>ex. x = Inl ex \<longrightarrow> ep_write e \<longrightarrow> exn_type ex \<noteq> ''UnknownOutcomeError'') \<and>
           (ep_write e \<longrightarrow> (\<exists>ex. x = Inl ex)) \<or>
         ep_write e \<and> \<not> rc_closed r \<and> st_writes (rc_settings r) \<and> (\<exists>w. writes_of r' = writes_of r @ [w] \<and> wr_body w = body)"
proof -
  let ?m = "http_request N (ep_method e) (ep_path e) (ep_trading e) body (ep_write e)
              (ep_safe_read e) (endpoint_action e email)"
  obtain y r1 where y: "?m r = (y, r1)" by fastforce
  have r1: "r' = r1" and x: "x = (case y of Inl ex \<Rightarrow> Inl ex | Inr v \<Rightarrow> read_answer valid e v)"
    using assms(2) y by (auto simp: execute_def rbind_def pure_def split: sum.splits)
  show ?thesis
  proof (cases "ep_write e")
    case True
    with y endpoint_writes_unsafe(1)[OF assms(1) True] endpoint_writes_unsafe(2)[OF assms(1) True, of email]
    have "http_request N (ep_method e) (ep_path e) (ep_trading e) body True False No_action r = (y, r1)" by simp
    from write_request[OF this] show ?thesis unfolding r1 x using True by auto
  next
    case False
    have "quiet_since r r1"
      using keepsD[OF read_request[OF False] quiet_refl] y by (metis snd_conv)
    with False show ?thesis by (simp add: r1 quiet_since_def)
  qed
qed

subsection \<open>A concrete session\<close>

text \<open>A broker that answers a login first and every later message with OK.\<close>

definition sample_login :: json where
  "sample_login =
     JS_obj [(''token'', JS_str ''T''),
             (''accounts'', JS_list [JS_obj [(''tradingAccountId'', JS_str ''A''), (''tradingApiToken'', JS_str ''K'')]])]"

definition sample_net :: rest_net where
  "sample_net =
     \<lparr>nt_answer = (\<lambda>n. if n = 0 then Answer 200 (Parsed sample_login) else Answer 200 (Parsed (JS_obj [(''status'', JS_str ''OK'')]))),
      nt_elapsed = (\<lambda>n. 0), nt_over = (\<lambda>n. 0), nt_cookie = (\<lambda>n. None), nt_wall = (\<lambda>t. t), nt_claims = (\<lambda>t. None), nt_show = (\<lambda>j. [])\<rparr>"

definition sample_session :: rest where
  "sample_session = new_rest sample_settings (new_limiter 60) 100"

definition sample_call :: "unit answer res \<times> rest" where
  "sample_call = execute sample_net (\<lambda>j. Some ()) open_position_endpoint None (Inr ''buy'') sample_session"

theorem endpoint_writes_once_witness:
  "\<exists>w. writes_of (snd sample_call) = writes_of sample_session @ [w] \<and> wr_body w = ''buy''"
proof -
  have "case fst sample_call of Inr _ \<Rightarrow> True | Inl _ \<Rightarrow> False" by code_simp
  then obtain a where a: "fst sample_call = Inr a" by (auto split: sum.splits)
  have m: "open_position_endpoint \<in> set endpoints" by (simp add: endpoints_def)
  have e: "execute sample_net (\<lambda>j. Some ()) open_position_endpoint None (Inr ''buy'') sample_session = (Inr a, snd sample_call)"
    using a by (simp add: sample_call_def prod_eq_iff)
  have "ep_write open_position_endpoint" by (simp add: open_position_endpoint_def)
  with endpoint_writes_once[OF m e] show ?thesis by simp
qed

end
