(* ===== verification/RestRuns.thy ===== *)
theory RestRuns
  imports SessionLaws
begin

text \<open>
  Runs of a session: the account its trading messages belong to, the budget of its renewals, and when a
  renewal is due.
\<close>

subsection \<open>The invariant\<close>

definition net_forward :: "rest_net \<Rightarrow> bool" where
  "net_forward N \<longleftrightarrow> (\<forall>n. 0 \<le> nt_over N n \<and> 0 \<le> nt_elapsed N n)"

definition owner_ok :: "rest \<Rightarrow> bool" where
  "owner_ok r \<longleftrightarrow>
     st_account (rc_settings r) \<noteq> [] \<longrightarrow>
       (truth (rc_trading r) \<longrightarrow> rc_owner r = st_account (rc_settings r)) \<and>
       (\<forall>w \<in> set (rc_wire r). wr_trading w \<longrightarrow> wr_owner w = st_account (rc_settings r))"

text \<open>Any five reservations in a row span an hour; those forgotten are an hour old.\<close>

definition hourly :: "rat list \<Rightarrow> bool" where
  "hourly ts \<longleftrightarrow> (\<forall>i. i + 4 < length ts \<longrightarrow> ts ! i + 3600 \<le> ts ! (i + 4))"

definition renewals_ok :: "rest \<Rightarrow> bool" where
  "renewals_ok r \<longleftrightarrow>
     (\<exists>old. rc_reserved r = old @ rc_refreshes r \<and> (\<forall>t \<in> set old. t + 3600 \<le> rc_clock r)) \<and> hourly (rc_reserved r)"

lemma hourly_snoc:
  assumes "hourly ts" "\<And>i. i + 4 = length ts \<Longrightarrow> ts ! i + 3600 \<le> t"
  shows "hourly (ts @ [t])"
  using assms by (auto simp: hourly_def nth_append less_Suc_eq)

lemma reserve_renewals_ok:
  assumes "renewals_ok r"
  shows "renewals_ok (snd (reserve_renewal r))"
proof -
  obtain old where old: "rc_reserved r = old @ rc_refreshes r" "\<forall>t \<in> set old. t + 3600 \<le> rc_clock r" and h: "hourly (rc_reserved r)"
    using assms by (auto simp: renewals_ok_def)
  define gone where "gone = takeWhile (\<lambda>t. t \<le> rc_clock r - 3600) (rc_refreshes r)"
  define recent where "recent = dropWhile (\<lambda>t. t \<le> rc_clock r - 3600) (rc_refreshes r)"
  have split: "rc_reserved r = (old @ gone) @ recent" by (simp add: old(1) gone_def recent_def)
  have past: "\<forall>t \<in> set (old @ gone). t + 3600 \<le> rc_clock r" using old(2) set_takeWhileD by (fastforce simp: gone_def)
  show ?thesis
  proof (cases "4 \<le> length recent")
    case True
    then have "snd (reserve_renewal r) = r\<lparr>rc_refreshes := recent\<rparr>" by (simp add: reserve_renewal_def Let_def recent_def)
    with split past h show ?thesis by (auto simp: renewals_ok_def)
  next
    case False
    then have s: "snd (reserve_renewal r) = r\<lparr>rc_refreshes := recent @ [rc_clock r], rc_reserved := rc_reserved r @ [rc_clock r]\<rparr>"
      by (simp add: reserve_renewal_def Let_def recent_def)
    have "hourly (rc_reserved r @ [rc_clock r])"
    proof (rule hourly_snoc[OF h])
      fix i assume "i + 4 = length (rc_reserved r)"
      with False have i: "i < length (old @ gone)" by (simp add: split)
      then have "rc_reserved r ! i = (old @ gone) ! i" by (simp only: split nth_append if_True)
      with past i show "rc_reserved r ! i + 3600 \<le> rc_clock r" by (metis nth_mem)
    qed
    moreover have "rc_reserved r @ [rc_clock r] = (old @ gone) @ (recent @ [rc_clock r])" by (simp add: split)
    ultimately show ?thesis unfolding s renewals_ok_def using past by auto
  qed
qed

lemma reserve_owner_ok: "owner_ok (snd (reserve_renewal r)) \<longleftrightarrow> owner_ok r" "rc_settings (snd (reserve_renewal r)) = rc_settings r"
  by (simp_all add: reserve_renewal_def Let_def owner_ok_def)

lemma renewals_ok_later:
  "renewals_ok r \<Longrightarrow> rc_reserved r' = rc_reserved r \<Longrightarrow> rc_refreshes r' = rc_refreshes r \<Longrightarrow> rc_clock r \<le> rc_clock r' \<Longrightarrow> renewals_ok r'"
  unfolding renewals_ok_def by (metis order_trans)

definition session_ok :: "rest_settings \<Rightarrow> rest \<Rightarrow> bool" where
  "session_ok s r \<longleftrightarrow> rc_settings r = s \<and> owner_ok r \<and> renewals_ok r"

lemma message_ok:
  assumes "net_forward N" "session_ok s r" "send_message N method path trading body write r = (x, r')"
  shows "session_ok s r'"
  using assms(3)
proof (cases rule: send_message_cases)
  case closed_conn
  with assms(2) show ?thesis by simp
next
  case (unsent permit l e)
  have "rc_clock r \<le> permit" using limiter_wait_props(1)[OF unsent(2)] assms(1) by (simp add: net_forward_def)
  with assms(2) unsent(5) show ?thesis by (auto simp: session_ok_def owner_ok_def intro: renewals_ok_later)
next
  case (sent permit l p w)
  have "rc_clock r \<le> permit" using limiter_wait_props(1)[OF sent(2)] assms(1) by (simp add: net_forward_def)
  moreover have "0 \<le> nt_elapsed N (length (rc_wire r))" using assms(1) by (simp add: net_forward_def)
  ultimately have "rc_clock r \<le> rc_clock r'" using sent(11) by simp
  moreover have "owner_ok r'" using assms(2) sent(4,7,8) by (auto simp: sent(11) session_ok_def owner_ok_def)
  ultimately show ?thesis using assms(2) by (auto simp: sent(11) session_ok_def intro: renewals_ok_later)
qed

text \<open>The account a login selects is the configured one.\<close>

lemma matching_member:
  "matching N account as = Inr ms \<Longrightarrow> a \<in> set ms \<Longrightarrow> \<exists>i. py_get a ''tradingAccountId'' JS_null = Inr i \<and> py_str N i = account"
  by (induction as arbitrary: ms) (auto simp: err_simps split: if_splits)

lemma only_match: "(case ms of [a] \<Rightarrow> Inr a | _ \<Rightarrow> Inl e) = Inr b \<longleftrightarrow> ms = [b]"
  by (auto split: list.splits)

lemma adoptable_account:
  assumes "adoptable N s data = Inr (token, account, sys, trading)" "st_account s \<noteq> []"
  shows "\<exists>i. py_get account ''tradingAccountId'' JS_null = Inr i \<and> py_str N i = st_account s"
proof -
  obtain accounts where "choose_account N (st_account s) accounts = Inr account"
    using assms(1) by (auto simp: adoptable_def err_simps split: if_splits)
  then obtain as where "matching N (st_account s) as = Inr [account]"
    using assms(2) by (auto simp: choose_account_def err_simps only_match)
  then show ?thesis by (rule matching_member) simp
qed

lemma adopt_ok:
  assumes "session_ok s r" "adopt N data identity r = (x, r')"
  shows "session_ok s r'"
proof -
  note f = adopt_fields[OF assms(2)]
  have "owner_ok r'"
  proof (cases "adoptable N (rc_settings r) data")
    case (Inl e)
    with assms show ?thesis by (simp add: adopt_def session_ok_def)
  next
    case (Inr t)
    obtain token account sys trading where t: "t = (token, account, sys, trading)" by (metis prod_cases4)
    have "rc_owner r' = (case py_get account ''tradingAccountId'' JS_null of Inr i \<Rightarrow> py_str N i | Inl _ \<Rightarrow> [])"
      using assms(2) Inr t by (auto simp: adopt_def Let_def split: sum.splits)
    with adoptable_account[OF Inr[unfolded t]] have "st_account (rc_settings r) \<noteq> [] \<Longrightarrow> rc_owner r' = st_account (rc_settings r)"
      by auto
    with assms(1) f show ?thesis by (simp add: session_ok_def owner_ok_def)
  qed
  with assms(1) f show ?thesis by (auto simp: session_ok_def intro: renewals_ok_later)
qed

lemma adopt_refresh_ok:
  assumes "session_ok s r" "adopt_refresh N data r = (x, r')"
  shows "session_ok s r'"
proof -
  have c: "session_ok s (r\<lparr>rc_session := t\<rparr>)" for t
    using assms(1) by (simp add: session_ok_def owner_ok_def renewals_ok_def)
  show ?thesis using assms(2) assms(1) adopt_ok[OF assms(1)] c by (auto simp: adopt_refresh_def split: option.splits if_splits prod.splits)
qed

interpretation session_laws: session_law N "\<lambda>r. net_forward N \<longrightarrow> session_ok s r" for N s
proof
  show "keeps (\<lambda>r. net_forward N \<longrightarrow> session_ok s r) (send_message N m path trading body False)" for m path trading body
    by (rule keeps_byI) (auto intro: message_ok)
  show "keeps (\<lambda>r. net_forward N \<longrightarrow> session_ok s r) (adopt N data identity)" for data identity
    by (rule keeps_byI) (auto intro: adopt_ok)
  show "keeps (\<lambda>r. net_forward N \<longrightarrow> session_ok s r) (adopt_refresh N data)" for data
    by (rule keeps_byI) (auto intro: adopt_refresh_ok)
  show "keeps (\<lambda>r. net_forward N \<longrightarrow> session_ok s r) reserve_renewal"
    by (rule keepsI) (simp add: session_ok_def reserve_renewals_ok reserve_owner_ok)
qed (auto simp: keeps_def session_ok_def owner_ok_def renewals_ok_def clear_tokens_def extend_expiry_def expire_now_def)

lemma http_request_ok:
  assumes "net_forward N" "session_ok s r"
  shows "session_ok s (snd (http_request N method path trading body write safe_read action r))"
proof -
  let ?P = "\<lambda>r. net_forward N \<longrightarrow> session_ok s r"
  have m: "keeps ?P (send_message N method path trading body write)" for trading by (rule keeps_byI) (auto intro: message_ok)
  have "keeps ?P (send_or_retry N method path trading body write safe_read refreshed)" for refreshed
    unfolding send_or_retry_def
    by (intro keeps_on_failure m) (auto intro!: keeps_rbind session_laws.renew_keeps m)
  then have n: "keeps ?P (rbind (ready_session N trading) (\<lambda>refreshed. send_or_retry N method path trading body write safe_read refreshed))"
    by (intro keeps_rbind session_laws.ready_keeps)
  have "?P (snd (http_request N method path trading body write safe_read action r))"
    using assms keepsD[OF n, of r] keepsD[OF session_laws.login_keeps, of N s r] keepsD[OF session_laws.refresh_keeps, of N s r]
    by (auto simp: http_request_def split: request_action.split)
  with assms(1) show ?thesis by simp
qed

subsection \<open>Runs\<close>

text \<open>\<open>Pass dt\<close>: time goes by between two operations.\<close>

datatype session_op =
    Request string string bool string bool bool request_action
  | Renew_if_due rat
  | Discover
  | Adopt_login json
  | Shutdown
  | Pass rat

fun session_step :: "rest_net \<Rightarrow> session_op \<Rightarrow> rest \<Rightarrow> rest" where
  "session_step N (Request method path trading body write safe_read action) r =
     snd (http_request N method path trading body write safe_read action r)"
| "session_step N (Renew_if_due margin) r = snd (renew_if_due N margin r)"
| "session_step N Discover r = snd (discover_accounts N r)"
| "session_step N (Adopt_login data) r = snd (adopt_login N data r)"
| "session_step N Shutdown r = shutdown r"
| "session_step N (Pass dt) r = r\<lparr>rc_clock := rc_clock r + max 0 dt\<rparr>"

lemma request_step_ok: "net_forward N \<longrightarrow> session_ok s r \<Longrightarrow>
   net_forward N \<longrightarrow> session_ok s (snd (http_request N method path trading body write safe_read action r))"
  using http_request_ok by blast

lemma session_step_ok: "(net_forward N \<longrightarrow> session_ok s r) \<Longrightarrow> net_forward N \<longrightarrow> session_ok s (session_step N a r)"
proof (cases a)
  case (Renew_if_due margin)
  assume "net_forward N \<longrightarrow> session_ok s r"
  from keepsD[OF session_laws.renew_if_due_keeps this] Renew_if_due show ?thesis by simp
next
  case Discover
  assume "net_forward N \<longrightarrow> session_ok s r"
  from keepsD[OF session_laws.discover_keeps this] Discover show ?thesis by simp
next
  case (Adopt_login data)
  assume "net_forward N \<longrightarrow> session_ok s r"
  from keepsD[OF session_laws.adopt_login_keeps this] Adopt_login show ?thesis by simp
next
  case (Request m p t b w sr ac)
  assume "net_forward N \<longrightarrow> session_ok s r"
  from request_step_ok[OF this] Request show ?thesis by simp
qed (auto simp: session_ok_def owner_ok_def shutdown_def intro: renewals_ok_later)

interpretation session_runs: kept_invariant "session_step N" "\<lambda>r. net_forward N \<longrightarrow> session_ok s r" for N s
  by unfold_locales (rule session_step_ok)

lemma new_rest_ok: "session_ok s (new_rest s l now)"
  by (simp add: session_ok_def owner_ok_def renewals_ok_def new_rest_def hourly_def)

lemma run_session_ok: "net_forward N \<Longrightarrow> session_ok s (fold (session_step N) ops (new_rest s l now))"
  using session_runs.run_inv[of N s "new_rest s l now" ops] new_rest_ok by simp

subsection \<open>When a renewal is due\<close>

text \<open>
  The two readings of the expiry agree: a renewal is due exactly when the delay until it is due is
  zero, a session that is absent or closed has neither, and an unreadable token fails both alike.
\<close>

theorem due_is_no_delay:
  "renewal_due N margin r = (case renewal_delay N margin r of Inl e \<Rightarrow> Inl e | Inr d \<Rightarrow> Inr (d = Some 0))"
proof (cases "rc_closed r \<or> \<not> truth (rc_session r)")
  case True
  then show ?thesis by (auto simp: renewal_due_def renewal_delay_def)
next
  case False
  show ?thesis
  proof (cases "session_expiry N r")
    case (Inl e)
    with False show ?thesis by (auto simp: renewal_due_def renewal_delay_def)
  next
    case (Inr x)
    with False show ?thesis
      by (auto simp: renewal_due_def renewal_delay_def max_def split: option.split)
  qed
qed

text \<open>
  Renewals are budgeted: over any run of a session no five of its reserved renewals lie within one
  hour, whatever fails, however long the answers take and however often it is asked to renew.
\<close>

theorem renewals_within_budget:
  assumes "net_forward N" "i + 4 < length (rc_reserved (fold (session_step N) ops (new_rest s l now)))"
  shows "rc_reserved (fold (session_step N) ops (new_rest s l now)) ! i + 3600 \<le>
         rc_reserved (fold (session_step N) ops (new_rest s l now)) ! (i + 4)"
  using run_session_ok[OF assms(1), of s ops l now] assms(2) by (simp add: session_ok_def renewals_ok_def hourly_def)

text \<open>
  C11: trading messages stay on their account: over any run of a session configured for an account, logins,
  refreshes and adoptions that half fail included, every trading message on the wire carries a trading
  token that was issued for that account.
\<close>

theorem messages_are_for_the_account:
  assumes "net_forward N" "st_account s \<noteq> []" "w \<in> set (rc_wire (fold (session_step N) ops (new_rest s l now)))" "wr_trading w"
  shows "wr_owner w = st_account s"
  using run_session_ok[OF assms(1), of s ops l now] assms(2-4) by (auto simp: session_ok_def owner_ok_def)

text \<open>
  The budget does not bound logins: a session in refresh mode with its own credentials that has used up
  its four renewals of the hour answers the refusal with a login, which no budget counts.
\<close>

theorem exhausted_refresh_logs_in:
  assumes "st_refreshes (rc_settings r)" "truth (rc_session r)" "rc_identity r = st_email (rc_settings r)" "rc_identity r \<noteq> []"
    "st_account (rc_settings r) \<noteq> []" "rc_refreshes r = [a, b, c, d]" "rc_clock r < a + 3600"
  shows "renew N r = session_login N Own_credentials False False r"
proof -
  have "reserve_renewal r =
      (Inl (authentication_error ''Refresh limit reached (four attempts/hour); check credentials or wait''), r\<lparr>rc_refreshes := [a, b, c, d]\<rparr>)"
    using assms(6,7) by (simp add: reserve_renewal_def)
  moreover have "r\<lparr>rc_refreshes := [a, b, c, d]\<rparr> = r" using assms(6) by simp
  ultimately have "refresh N r = (Inl (authentication_error ''Refresh limit reached (four attempts/hour); check credentials or wait''), r)"
    using assms(2) by (simp add: refresh_def rbind_def)
  with assms(1,3-5) show ?thesis by (simp add: renew_def on_failure_def falls_back_def authentication_error_def)
qed

subsection \<open>Concrete runs\<close>

lemma sample_net_forward: "net_forward sample_net"
  by (simp add: net_forward_def sample_net_def)

definition sample_ops :: "session_op list" where
  "sample_ops =
     Request ''GET'' ''mtr-api/SYSTEM_UUID/balance'' True [] False True No_action #
     concat (replicate 5 [Pass 1000, Request ''POST'' ''manager/refresh-token'' False [] False False Act_refresh])"

definition sample_run :: rest where
  "sample_run = fold (session_step sample_net) sample_ops (new_rest sample_settings (new_limiter 60) 100)"

theorem renewals_within_budget_witness: "rc_reserved sample_run ! 0 + 3600 \<le> rc_reserved sample_run ! 4"
proof -
  have "0 + 4 < length (rc_reserved sample_run)" by code_simp
  from renewals_within_budget[OF sample_net_forward this[unfolded sample_run_def]] show ?thesis by (simp add: sample_run_def)
qed

theorem messages_are_for_the_account_witness: "\<exists>w \<in> set (rc_wire sample_run). wr_trading w \<and> wr_owner w = ''A''"
proof -
  have "list_ex wr_trading (rc_wire sample_run)" by code_simp
  then obtain w where w: "w \<in> set (rc_wire sample_run)" "wr_trading w" by (auto simp: list_ex_iff)
  have "st_account sample_settings \<noteq> []" by (simp add: sample_settings_def)
  from messages_are_for_the_account[OF sample_net_forward this w(1)[unfolded sample_run_def] w(2)] w
  show ?thesis by (auto simp: sample_settings_def)
qed

definition exhausted_session :: rest where
  "exhausted_session = sample_session\<lparr>rc_session := JS_str ''T'', rc_identity := ''me'', rc_refreshes := [10, 20, 30, 40]\<rparr>"

theorem exhausted_refresh_logs_in_witness:
  "renew sample_net exhausted_session = session_login sample_net Own_credentials False False exhausted_session"
  by (rule exhausted_refresh_logs_in)
     (simp_all add: exhausted_session_def sample_session_def new_rest_def sample_settings_def, linarith)

end
