(* ===== verification/SessionRenewal.thy ===== *)
theory SessionRenewal
  imports RestRuns
begin

text \<open>
  Keeping sessions alive (dashboard/session_renewal.py and the renewers of dashboard/controller.py): one
  timer for each connection, which fires before its token expires, renews it and arms the next timer. A
  cancelling thread, the firing thread and the users of the connection interleave as steps.
\<close>

subsection \<open>A renewer\<close>

text \<open>Where the thread of a fired timer stands: no thread, before the renewal, after it with its success.\<close>

datatype renewal_phase = Resting | Firing | Renewed bool

text \<open>The timer is the deadline of the one that is pending.\<close>

record renewer =
  rn_name :: string
  rn_margin :: rat
  rn_min :: rat
  rn_backoff :: rat
  rn_max :: rat
  rn_timer :: "rat option"
  rn_cancelled :: bool
  rn_phase :: renewal_phase

definition new_renewer :: "string \<Rightarrow> renewer" where
  "new_renewer name =
     \<lparr>rn_name = name, rn_margin = 120, rn_min = 1, rn_backoff = 60, rn_max = 86400, rn_timer = None, rn_cancelled = False,
      rn_phase = Resting\<rparr>"

definition renewer_delay :: "rest_net \<Rightarrow> renewer \<Rightarrow> rest \<Rightarrow> rat option" where
  "renewer_delay N rn r =
     (case renewal_delay N (rn_margin rn) r of
        Inl e \<Rightarrow> Some (rn_min rn)
      | Inr None \<Rightarrow> None
      | Inr (Some d) \<Rightarrow> Some (min (rn_max rn) (max (rn_min rn) d)))"

definition arm_timer :: "rest_net \<Rightarrow> rat option \<Rightarrow> rest \<Rightarrow> renewer \<Rightarrow> renewer" where
  "arm_timer N delay r rn =
     (if rn_cancelled rn then rn
      else (case (case delay of Some d \<Rightarrow> Some d | None \<Rightarrow> renewer_delay N rn r) of
              None \<Rightarrow> rn\<lparr>rn_timer := None\<rparr>
            | Some d \<Rightarrow> rn\<lparr>rn_timer := Some (rc_clock r + d)\<rparr>))"

definition start_renewer :: "rest_net \<Rightarrow> rest \<Rightarrow> renewer \<Rightarrow> renewer" where
  "start_renewer N r rn = arm_timer N None r rn"

text \<open>A fired timer: it is gone, and its thread goes on unless the renewer was cancelled.\<close>

definition fire_begin :: "renewer \<Rightarrow> renewer" where
  "fire_begin rn = rn\<lparr>rn_timer := None, rn_phase := (if rn_cancelled rn then Resting else Firing)\<rparr>"

text \<open>What is reported: the name, whether a renewal ran, whether it succeeded, and the class of its error.\<close>

type_synonym renewal_report = "string \<times> bool \<times> bool \<times> string"

definition fire_renew :: "rest_net \<Rightarrow> renewer \<Rightarrow> rest \<Rightarrow> renewer \<times> rest \<times> renewal_report" where
  "fire_renew N rn r =
     (case renew_if_due N (rn_margin rn) r of
        (Inr renewed, r1) \<Rightarrow> (rn\<lparr>rn_phase := Renewed True\<rparr>, r1, (rn_name rn, renewed, True, []))
      | (Inl e, r1) \<Rightarrow> (rn\<lparr>rn_phase := Renewed False\<rparr>, r1, (rn_name rn, False, False, exn_type e)))"

definition fire_end :: "rest_net \<Rightarrow> bool \<Rightarrow> rest \<Rightarrow> renewer \<Rightarrow> renewer" where
  "fire_end N ok r rn = arm_timer N (if ok then None else Some (rn_backoff rn)) r (rn\<lparr>rn_phase := Resting\<rparr>)"

definition cancel_renewer :: "renewer \<Rightarrow> renewer" where
  "cancel_renewer rn = rn\<lparr>rn_cancelled := True, rn_timer := None\<rparr>"

subsection \<open>The controller's renewers\<close>

text \<open>Every renewer that was made, the one that is live for a name, and whether the controller is closing.\<close>

record renewal_desk =
  rd_renewers :: "renewer list"
  rd_live :: "string \<Rightarrow> nat option"
  rd_closing :: bool

definition cancel_at :: "nat option \<Rightarrow> renewer list \<Rightarrow> renewer list" where
  "cancel_at i rs = (case i of None \<Rightarrow> rs | Some k \<Rightarrow> rs[k := cancel_renewer (rs ! k)])"

definition start_renewal :: "rest_net \<Rightarrow> string \<Rightarrow> rest \<Rightarrow> renewal_desk \<Rightarrow> renewal_desk" where
  "start_renewal N name r d =
     (if rd_closing d then d
      else (let rs = cancel_at (rd_live d name) (rd_renewers d)
            in d\<lparr>rd_renewers := rs @ [start_renewer N r (new_renewer name)], rd_live := (rd_live d)(name \<mapsto> length rs)\<rparr>))"

definition stop_renewal :: "string \<Rightarrow> renewal_desk \<Rightarrow> renewal_desk" where
  "stop_renewal name d = d\<lparr>rd_renewers := cancel_at (rd_live d name) (rd_renewers d), rd_live := (rd_live d)(name := None)\<rparr>"

definition stop_all_renewals :: "renewal_desk \<Rightarrow> renewal_desk" where
  "stop_all_renewals d =
     d\<lparr>rd_renewers := map (\<lambda>(i, rn). if \<exists>k. rd_live d k = Some i then cancel_renewer rn else rn)
                        (zip [0..<length (rd_renewers d)] (rd_renewers d)),
        rd_live := (\<lambda>k. None)\<rparr>"

definition close_renewals :: "renewal_desk \<Rightarrow> renewal_desk" where
  "close_renewals d = stop_all_renewals (d\<lparr>rd_closing := True\<rparr>)"

text \<open>The message about a report; a token that was not yet due leaves the last message. \<open>stamp\<close> is the time of day.\<close>

definition renewal_message :: "string \<Rightarrow> renewal_report \<Rightarrow> string option" where
  "renewal_message stamp = (\<lambda>(name, renewed, ok, reason).
     if \<not> (renewed \<or> \<not> ok) then None
     else if ok then Some (''Token refreshed automatically at '' @ stamp @ '' for '' @ name @ ''.'')
     else Some (''Automatic token refresh failed at '' @ stamp @ '' for '' @ name @ '' ('' @ reason @ ''); use Refresh token.''))"

text \<open>One pass over the connected owners.\<close>

fun refresh_owners :: "rest_net \<Rightarrow> rat \<Rightarrow> (string \<times> rest) list \<Rightarrow> (string \<times> rest) list \<times> string list \<times> (string \<times> string) list" where
  "refresh_owners N margin [] = ([], [], [])"
| "refresh_owners N margin ((name, r) # rest) =
     (let (x, r1) = renew_if_due N margin r; (os, renewed, failed) = refresh_owners N margin rest in
      ((name, r1) # os,
       (case x of Inr True \<Rightarrow> name # renewed | _ \<Rightarrow> renewed),
       (case x of Inl e \<Rightarrow> (name, exn_type e) # failed | Inr _ \<Rightarrow> failed)))"

subsection \<open>Steps\<close>

record renewal_system =
  sy_renewer :: renewer
  sy_rest :: rest
  sy_reports :: "renewal_report list"

text \<open>
  Time passes, a due timer fires, its thread renews and arms the next timer, anyone cancels, and the
  connection is used or shut down by others.
\<close>

inductive renewal_step :: "rest_net \<Rightarrow> renewal_system \<Rightarrow> renewal_system \<Rightarrow> bool" for N where
  Tick: "0 \<le> dt \<Longrightarrow> renewal_step N s (s\<lparr>sy_rest := (sy_rest s)\<lparr>rc_clock := rc_clock (sy_rest s) + dt\<rparr>\<rparr>)"
| Fire: "rn_timer (sy_renewer s) = Some d \<Longrightarrow> d \<le> rc_clock (sy_rest s) \<Longrightarrow>
     renewal_step N s (s\<lparr>sy_renewer := fire_begin (sy_renewer s)\<rparr>)"
| Renew: "rn_phase (sy_renewer s) = Firing \<Longrightarrow> fire_renew N (sy_renewer s) (sy_rest s) = (rn, r, p) \<Longrightarrow>
     renewal_step N s (s\<lparr>sy_renewer := rn, sy_rest := r, sy_reports := sy_reports s @ [p]\<rparr>)"
| Finish: "rn_phase (sy_renewer s) = Renewed ok \<Longrightarrow>
     renewal_step N s (s\<lparr>sy_renewer := fire_end N ok (sy_rest s) (sy_renewer s)\<rparr>)"
| Cancel: "renewal_step N s (s\<lparr>sy_renewer := cancel_renewer (sy_renewer s)\<rparr>)"
| Use: "renewal_step N s (s\<lparr>sy_rest := session_step N a (sy_rest s)\<rparr>)"

inductive_cases renewal_stepE: "renewal_step N s t"

definition started_system :: "rest_net \<Rightarrow> string \<Rightarrow> rest \<Rightarrow> renewal_system" where
  "started_system N name r = \<lparr>sy_renewer = start_renewer N r (new_renewer name), sy_rest = r, sy_reports = []\<rparr>"

subsection \<open>Invariants of the steps\<close>

text \<open>A pending timer has no thread beside it; a cancelled renewer has no timer.\<close>

definition one_timer :: "renewal_system \<Rightarrow> bool" where
  "one_timer s \<longleftrightarrow>
     (rn_timer (sy_renewer s) \<noteq> None \<longrightarrow> rn_phase (sy_renewer s) = Resting \<and> \<not> rn_cancelled (sy_renewer s))"

lemma fire_renew_fields:
  assumes "fire_renew N rn r = (rn', r', p)"
  shows "rn_cancelled rn' = rn_cancelled rn" "rn_timer rn' = rn_timer rn" "\<exists>ok. rn_phase rn' = Renewed ok"
    "rn_margin rn' = rn_margin rn" "rn_min rn' = rn_min rn" "rn_backoff rn' = rn_backoff rn" "rn_max rn' = rn_max rn"
  using assms by (auto simp: fire_renew_def split: prod.splits sum.splits)

lemma arm_timer_fields:
  "rn_cancelled (arm_timer N delay r rn) = rn_cancelled rn" "rn_phase (arm_timer N delay r rn) = rn_phase rn"
  "rn_margin (arm_timer N delay r rn) = rn_margin rn" "rn_min (arm_timer N delay r rn) = rn_min rn"
  "rn_backoff (arm_timer N delay r rn) = rn_backoff rn" "rn_max (arm_timer N delay r rn) = rn_max rn"
  "rn_cancelled rn \<Longrightarrow> rn_timer (arm_timer N delay r rn) = rn_timer rn"
  by (auto simp: arm_timer_def split: option.split)

lemma fire_end_fields:
  "rn_cancelled (fire_end N ok r rn) = rn_cancelled rn" "rn_phase (fire_end N ok r rn) = Resting"
  "rn_margin (fire_end N ok r rn) = rn_margin rn" "rn_min (fire_end N ok r rn) = rn_min rn"
  "rn_backoff (fire_end N ok r rn) = rn_backoff rn" "rn_max (fire_end N ok r rn) = rn_max rn"
  "rn_cancelled rn \<Longrightarrow> rn_timer (fire_end N ok r rn) = rn_timer rn"
  by (auto simp: fire_end_def arm_timer_fields)

lemma step_one_timer: "renewal_step N s t \<Longrightarrow> one_timer s \<Longrightarrow> one_timer t"
  by (induction rule: renewal_step.induct)
     (auto simp: one_timer_def fire_begin_def cancel_renewer_def fire_end_fields fire_renew_fields)

lemma start_one_timer: "one_timer (started_system N name r)"
  by (simp add: one_timer_def started_system_def start_renewer_def arm_timer_fields new_renewer_def)

text \<open>A cancelled renewer at rest stays as it is, whatever happens around it.\<close>

definition retired :: "renewal_system \<Rightarrow> bool" where
  "retired s \<longleftrightarrow> rn_cancelled (sy_renewer s) \<and> rn_timer (sy_renewer s) = None \<and> rn_phase (sy_renewer s) = Resting"

lemma step_retired: "renewal_step N s t \<Longrightarrow> retired s \<Longrightarrow> retired t \<and> sy_reports t = sy_reports s"
  by (induction rule: renewal_step.induct) (auto simp: retired_def cancel_renewer_def)

lemma steps_retired: "(renewal_step N)\<^sup>*\<^sup>* s t \<Longrightarrow> retired s \<Longrightarrow> retired t \<and> sy_reports t = sy_reports s"
  by (induction rule: rtranclp_induct) (auto dest: step_retired)

text \<open>The renewals a system may still run: none at rest when cancelled, one while its thread is before its renewal.\<close>

definition due_reports :: "renewal_system \<Rightarrow> nat" where
  "due_reports s = (if rn_phase (sy_renewer s) = Firing then 1 else 0)"

lemma step_cancelled:
  "renewal_step N s t \<Longrightarrow> rn_cancelled (sy_renewer s) \<Longrightarrow> rn_timer (sy_renewer s) = None \<Longrightarrow>
     rn_cancelled (sy_renewer t) \<and> rn_timer (sy_renewer t) = None \<and>
     length (sy_reports t) + due_reports t \<le> length (sy_reports s) + due_reports s"
  by (induction rule: renewal_step.induct)
     (auto simp: due_reports_def cancel_renewer_def fire_end_fields fire_begin_def dest: fire_renew_fields)

lemma steps_cancelled:
  "(renewal_step N)\<^sup>*\<^sup>* s t \<Longrightarrow> rn_cancelled (sy_renewer s) \<Longrightarrow> rn_timer (sy_renewer s) = None \<Longrightarrow>
     rn_cancelled (sy_renewer t) \<and> rn_timer (sy_renewer t) = None \<and>
     length (sy_reports t) + due_reports t \<le> length (sy_reports s) + due_reports s"
proof (induction rule: rtranclp_induct)
  case (step t u)
  then show ?case using step_cancelled[OF step.hyps(2)] by (meson order_trans)
qed simp

subsection \<open>One whole firing\<close>

text \<open>
  The timer fires \<open>late\<close> after its deadline, and its thread renews and arms the next one without
  anyone coming between.
\<close>

definition fire_clock :: "rat \<Rightarrow> renewal_system \<Rightarrow> rat" where
  "fire_clock late s = (case rn_timer (sy_renewer s) of Some d \<Rightarrow> d + late | None \<Rightarrow> rc_clock (sy_rest s))"

definition at_fire :: "rat \<Rightarrow> renewal_system \<Rightarrow> rest" where
  "at_fire late s = (sy_rest s)\<lparr>rc_clock := fire_clock late s\<rparr>"

definition firing :: "rest_net \<Rightarrow> rat \<Rightarrow> renewal_system \<Rightarrow> renewal_system" where
  "firing N late s =
     (let (rn, r, p) = fire_renew N (fire_begin (sy_renewer s)) (at_fire late s);
          ok = (case rn_phase rn of Renewed b \<Rightarrow> b | _ \<Rightarrow> False)
      in s\<lparr>sy_renewer := fire_end N ok r rn, sy_rest := r, sy_reports := sy_reports s @ [p]\<rparr>)"

text \<open>It is a run of the steps, when the deadline is not past.\<close>

lemma firing_runs:
  assumes "rn_timer (sy_renewer s) = Some d" "rc_clock (sy_rest s) \<le> d" "0 \<le> late" "\<not> rn_cancelled (sy_renewer s)"
  shows "(renewal_step N)\<^sup>*\<^sup>* s (firing N late s)"
proof -
  let ?s1 = "s\<lparr>sy_rest := (sy_rest s)\<lparr>rc_clock := rc_clock (sy_rest s) + (d + late - rc_clock (sy_rest s))\<rparr>\<rparr>"
  have r1: "sy_rest ?s1 = at_fire late s" using assms(1) by (simp add: at_fire_def fire_clock_def)
  have a: "renewal_step N s ?s1" by (rule Tick) (use assms(2,3) in linarith)
  let ?s2 = "?s1\<lparr>sy_renewer := fire_begin (sy_renewer ?s1)\<rparr>"
  have b: "renewal_step N ?s1 ?s2" by (rule Fire[of _ d]) (use assms(1,3) in simp_all)
  obtain rn r p where f: "fire_renew N (fire_begin (sy_renewer s)) (at_fire late s) = (rn, r, p)" by (metis prod_cases3)
  let ?s3 = "?s2\<lparr>sy_renewer := rn, sy_rest := r, sy_reports := sy_reports s @ [p]\<rparr>"
  have f2: "fire_renew N (sy_renewer ?s2) (sy_rest ?s2) = (rn, r, p)" using f r1 by simp
  have c: "renewal_step N ?s2 ?s3"
    using Renew[OF _ f2] assms(4) by (simp add: fire_begin_def)
  obtain ok where ok: "rn_phase rn = Renewed ok" using fire_renew_fields(3)[OF f] by blast
  have e: "renewal_step N ?s3 (?s3\<lparr>sy_renewer := fire_end N ok (sy_rest ?s3) (sy_renewer ?s3)\<rparr>)"
    by (rule Finish) (simp add: ok)
  have same: "?s3\<lparr>sy_renewer := fire_end N ok (sy_rest ?s3) (sy_renewer ?s3)\<rparr> = firing N late s"
    by (simp add: firing_def f ok)
  show ?thesis
    by (rule converse_rtranclp_into_rtranclp[where r = "renewal_step N", OF a], rule converse_rtranclp_into_rtranclp[where r = "renewal_step N", OF b],
        rule converse_rtranclp_into_rtranclp[where r = "renewal_step N", OF c], rule r_into_rtranclp, rule e[unfolded same])
qed

subsection \<open>Renewal before expiry\<close>

primrec firings :: "rest_net \<Rightarrow> (nat \<Rightarrow> rat) \<Rightarrow> nat \<Rightarrow> renewal_system \<Rightarrow> renewal_system" where
  "firings N late 0 s = s"
| "firings N late (Suc n) s = firings N (\<lambda>k. late (Suc k)) n (firing N (late 0) s)"

definition freshly_armed :: "rest_net \<Rightarrow> string \<Rightarrow> renewal_system \<Rightarrow> bool" where
  "freshly_armed N name s \<longleftrightarrow> sy_renewer s = start_renewer N (sy_rest s) (new_renewer name)"

text \<open>A session whose token says when it expires, on a wall clock that advances with the monotonic one.\<close>

definition expiring :: "rest_net \<Rightarrow> rat \<Rightarrow> rest \<Rightarrow> bool" where
  "expiring N expiry r \<longleftrightarrow>
     \<not> rc_closed r \<and> (\<exists>tok. rc_session r = JS_str tok \<and> tok \<noteq> [] \<and> nt_claims N tok = Some expiry)"

definition steady_wall :: "rest_net \<Rightarrow> bool" where
  "steady_wall N \<longleftrightarrow> (\<forall>t d. nt_wall N (t + d) = nt_wall N t + d)"

lemma expiring_due: "expiring N expiry r \<Longrightarrow> renewal_due N m r = Inr (expiry - nt_wall N (rc_clock r) \<le> m)"
  by (auto simp: expiring_def renewal_due_def session_expiry_def)

lemma expiring_delay: "expiring N expiry r \<Longrightarrow> renewal_delay N m r = Inr (Some (max 0 (expiry - nt_wall N (rc_clock r) - m)))"
  by (auto simp: expiring_def renewal_delay_def session_expiry_def)

lemma fresh_timer:
  assumes "freshly_armed N name s" "expiring N expiry (sy_rest s)"
  shows "sy_renewer s = (new_renewer name)\<lparr>rn_timer := Some (rc_clock (sy_rest s) +
           min 86400 (max 1 (max 0 (expiry - nt_wall N (rc_clock (sy_rest s)) - 120))))\<rparr>"
  using assms by (simp add: freshly_armed_def start_renewer_def arm_timer_def renewer_delay_def expiring_delay new_renewer_def)

lemma fresh_firing:
  assumes "freshly_armed N name s" "expiring N expiry (sy_rest s)" "renewal_due N 120 (at_fire late s) = Inr False"
  shows "freshly_armed N name (firing N late s)" "sy_rest (firing N late s) = at_fire late s"
proof -
  have f: "fire_begin (sy_renewer s) = (new_renewer name)\<lparr>rn_phase := Firing\<rparr>"
    unfolding fresh_timer[OF assms(1,2)] by (simp add: fire_begin_def new_renewer_def)
  have r: "fire_renew N (fire_begin (sy_renewer s)) (at_fire late s) =
      ((new_renewer name)\<lparr>rn_phase := Renewed True\<rparr>, at_fire late s, (name, False, True, []))"
    unfolding f using assms(3) by (simp add: fire_renew_def renew_if_due_def rbind_def pure_def new_renewer_def)
  show "sy_rest (firing N late s) = at_fire late s" by (simp add: firing_def r)
  show "freshly_armed N name (firing N late s)"
    by (simp add: firing_def r freshly_armed_def fire_end_def start_renewer_def new_renewer_def)
qed

lemma renewed_in_time:
  assumes "steady_wall N" "\<And>n. 0 \<le> late n \<and> late n \<le> 119" "freshly_armed N name s" "expiring N expiry (sy_rest s)"
    "120 \<le> expiry - nt_wall N (rc_clock (sy_rest s))" "expiry - nt_wall N (rc_clock (sy_rest s)) \<le> 120 + of_nat m * 86400"
  shows "\<exists>n. (renewal_step N)\<^sup>*\<^sup>* s (firings N late n s) \<and>
             renewal_due N 120 (at_fire (late n) (firings N late n s)) = Inr True \<and>
             nt_wall N (rc_clock (at_fire (late n) (firings N late n s))) \<le> expiry"
  using assms(2-6)
proof (induction m arbitrary: late s)
  case (0 late s)
  let ?c = "rc_clock (sy_rest s)"
  let ?left = "expiry - nt_wall N ?c"
  note t = fresh_timer[OF 0(2,3)]
  have clock: "rc_clock (at_fire (late 0) s) = ?c + (min 86400 (max 1 (max 0 (?left - 120))) + late 0)"
    unfolding at_fire_def fire_clock_def t by simp
  have ex: "expiring N expiry (at_fire (late 0) s)" using 0(3) by (simp add: expiring_def at_fire_def)
  have w: "nt_wall N (rc_clock (at_fire (late 0) s)) = nt_wall N ?c + (min 86400 (max 1 (max 0 (?left - 120))) + late 0)"
    using assms(1) unfolding clock steady_wall_def by blast
  have "renewal_due N 120 (at_fire (late 0) s) = Inr True"
    unfolding expiring_due[OF ex] w using 0(1)[of 0] 0(4,5) by (auto simp: min_def max_def)
  moreover have "nt_wall N (rc_clock (at_fire (late 0) s)) \<le> expiry"
    unfolding w using 0(1)[of 0] 0(4,5) by (auto simp: min_def max_def)
  ultimately show ?case by (intro exI[of _ 0]) simp
next
  case (Suc m late s)
  let ?c = "rc_clock (sy_rest s)"
  let ?left = "expiry - nt_wall N ?c"
  define delay where "delay = min 86400 (max 1 (max 0 (?left - 120)))"
  note t = fresh_timer[OF Suc.prems(2,3), folded delay_def]
  have clock: "rc_clock (at_fire (late 0) s) = ?c + (delay + late 0)"
    unfolding at_fire_def fire_clock_def t by simp
  have ex: "expiring N expiry (at_fire (late 0) s)" using Suc.prems(3) by (simp add: expiring_def at_fire_def)
  have w: "nt_wall N (rc_clock (at_fire (late 0) s)) = nt_wall N ?c + (delay + late 0)"
    using assms(1) unfolding clock steady_wall_def by blast
  have l: "0 \<le> late 0" "late 0 \<le> 119" using Suc.prems(1) by simp_all
  have bound: "nt_wall N (rc_clock (at_fire (late 0) s)) \<le> expiry"
    unfolding w delay_def using l Suc.prems(4) by (auto simp: min_def max_def)
  show ?case
  proof (cases "expiry - nt_wall N (rc_clock (at_fire (late 0) s)) \<le> 120")
    case True
    then show ?thesis using bound by (intro exI[of _ 0]) (simp add: expiring_due[OF ex])
  next
    case False
    then have nd: "renewal_due N 120 (at_fire (late 0) s) = Inr False" by (simp add: expiring_due[OF ex])
    note f = fresh_firing[OF Suc.prems(2,3) nd]
    have "delay = 86400" using False l unfolding w delay_def by (auto simp: min_def max_def split: if_splits)
    then have left: "expiry - nt_wall N (rc_clock (at_fire (late 0) s)) \<le> 120 + of_nat m * 86400"
      using Suc.prems(5) l unfolding w by (simp add: algebra_simps)
    have run: "(renewal_step N)\<^sup>*\<^sup>* s (firing N (late 0) s)"
    proof (rule firing_runs)
      show "rn_timer (sy_renewer s) = Some (?c + delay)" unfolding t by simp
      show "\<not> rn_cancelled (sy_renewer s)" unfolding t by (simp add: new_renewer_def)
    qed (use l in \<open>auto simp: delay_def\<close>)
    have lates: "\<And>n. 0 \<le> late (Suc n) \<and> late (Suc n) \<le> 119" using Suc.prems(1) by simp
    from Suc.IH[of "\<lambda>k. late (Suc k)", OF lates f(1), unfolded f(2), OF ex _ left] False
    obtain n where "(renewal_step N)\<^sup>*\<^sup>* (firing N (late 0) s) (firings N (\<lambda>k. late (Suc k)) n (firing N (late 0) s))"
      "renewal_due N 120 (at_fire (late (Suc n)) (firings N (\<lambda>k. late (Suc k)) n (firing N (late 0) s))) = Inr True"
      "nt_wall N (rc_clock (at_fire (late (Suc n)) (firings N (\<lambda>k. late (Suc k)) n (firing N (late 0) s)))) \<le> expiry"
      by auto
    then show ?thesis by (intro exI[of _ "Suc n"]) (auto intro: rtranclp_trans[OF run])
  qed
qed

subsection \<open>Properties\<close>

text \<open>
  C31: a token is renewed before it expires: a renewer started on a session whose token has two minutes or
  more left runs, when its timers fire at most 119 seconds late and nothing else touches it, to a firing at
  which the renewal is due and the token has not expired, however long the token lives.
\<close>

theorem token_renewed_before_expiry:
  assumes "steady_wall N" "\<And>n. 0 \<le> late n \<and> late n \<le> 119" "expiring N expiry r" "120 \<le> expiry - nt_wall N (rc_clock r)"
  shows "\<exists>n. (renewal_step N)\<^sup>*\<^sup>* (started_system N name r) (firings N late n (started_system N name r)) \<and>
             renewal_due N 120 (at_fire (late n) (firings N late n (started_system N name r))) = Inr True \<and>
             nt_wall N (rc_clock (at_fire (late n) (firings N late n (started_system N name r)))) \<le> expiry"
proof -
  obtain m :: nat where "(expiry - nt_wall N (rc_clock r) - 120) / 86400 \<le> of_nat m"
    using real_arch_simple by blast
  then have "expiry - nt_wall N (rc_clock r) \<le> 120 + of_nat m * 86400" by (simp add: field_simps)
  then show ?thesis
    using renewed_in_time[OF assms(1,2), of name "started_system N name r" expiry m] assms(3,4)
    by (simp add: freshly_armed_def started_system_def)
qed

text \<open>
  Cancelling ends a renewer: from the cancellation on, whatever else happens to it and its connection,
  no timer is ever pending again and at most one renewal, whose thread was already running, is still
  reported; nothing at all when none was.
\<close>

theorem cancelled_renewer_ends:
  assumes "(renewal_step N)\<^sup>*\<^sup>* (s\<lparr>sy_renewer := cancel_renewer (sy_renewer s)\<rparr>) t"
  shows "rn_timer (sy_renewer t) = None \<and>
         length (sy_reports t) \<le> length (sy_reports s) + (if rn_phase (sy_renewer s) = Firing then 1 else 0)"
  using steps_cancelled[OF assms] by (simp add: cancel_renewer_def due_reports_def)

subsection \<open>The controller's renewers stay one for each name\<close>

definition renewals_sound :: "renewal_desk \<Rightarrow> bool" where
  "renewals_sound d \<longleftrightarrow>
     (\<forall>name i. rd_live d name = Some i \<longrightarrow> i < length (rd_renewers d) \<and> rn_name (rd_renewers d ! i) = name) \<and>
     (\<forall>i < length (rd_renewers d). \<not> rn_cancelled (rd_renewers d ! i) \<longrightarrow> rd_live d (rn_name (rd_renewers d ! i)) = Some i) \<and>
     (rd_closing d \<longrightarrow> rd_live d = (\<lambda>k. None))"

lemma cancel_at_fields:
  "length (cancel_at i rs) = length rs"
  "j < length rs \<Longrightarrow> rn_name (cancel_at i rs ! j) = rn_name (rs ! j)"
  "j < length rs \<Longrightarrow> rn_cancelled (cancel_at i rs ! j) \<longleftrightarrow> rn_cancelled (rs ! j) \<or> i = Some j"
proof -
  show "length (cancel_at i rs) = length rs" by (cases i) (simp_all add: cancel_at_def)
  show "rn_name (cancel_at i rs ! j) = rn_name (rs ! j)"
    "rn_cancelled (cancel_at i rs ! j) \<longleftrightarrow> rn_cancelled (rs ! j) \<or> i = Some j" if "j < length rs"
  proof -
    consider "i = None" | "i = Some j" | k where "i = Some k" "k \<noteq> j" by (cases i) auto
    then show "rn_name (cancel_at i rs ! j) = rn_name (rs ! j)"
      "rn_cancelled (cancel_at i rs ! j) \<longleftrightarrow> rn_cancelled (rs ! j) \<or> i = Some j"
      using that by (cases; simp add: cancel_at_def cancel_renewer_def)+
  qed
qed

lemma start_renewer_fields: "rn_name (start_renewer N r (new_renewer name)) = name"
  by (simp add: start_renewer_def arm_timer_def new_renewer_def split: option.split)

lemma start_renewal_sound:
  assumes "renewals_sound d"
  shows "renewals_sound (start_renewal N name r d)"
proof (cases "rd_closing d")
  case True
  with assms show ?thesis by (simp add: start_renewal_def)
next
  case False
  define rs where "rs = cancel_at (rd_live d name) (rd_renewers d)"
  have len: "length rs = length (rd_renewers d)" by (simp add: rs_def cancel_at_fields)
  have d': "start_renewal N name r d =
      d\<lparr>rd_renewers := rs @ [start_renewer N r (new_renewer name)], rd_live := (rd_live d)(name \<mapsto> length rs)\<rparr>"
    using False by (simp add: start_renewal_def rs_def Let_def)
  have names: "rn_name (rs ! i) = rn_name (rd_renewers d ! i)"
    and cancels: "rn_cancelled (rs ! i) \<longleftrightarrow> rn_cancelled (rd_renewers d ! i) \<or> rd_live d name = Some i"
    if "i < length rs" for i using that by (simp_all add: rs_def cancel_at_fields)
  have live: "i < length rs \<and> rn_name (rs ! i) = k" if "rd_live d k = Some i" for k i
    using assms that names len by (simp add: renewals_sound_def)
  have uncancelled: "rd_live d (rn_name (rs ! i)) = Some i \<and> rn_name (rs ! i) \<noteq> name"
    if i: "i < length rs" "\<not> rn_cancelled (rs ! i)" for i
    using assms i names cancels len by (auto simp: renewals_sound_def)
  show ?thesis
    unfolding d' renewals_sound_def using live uncancelled False
    by (auto simp: nth_append start_renewer_fields less_Suc_eq)
qed

lemma stop_renewal_sound:
  assumes "renewals_sound d"
  shows "renewals_sound (stop_renewal name d)"
proof -
  have live: "i < length (rd_renewers d) \<and> rn_name (rd_renewers d ! i) = k" if "rd_live d k = Some i" for k i
    using assms that by (simp add: renewals_sound_def)
  have uncancelled: "rd_live d (rn_name (rd_renewers d ! i)) = Some i"
    if "i < length (rd_renewers d)" "\<not> rn_cancelled (rd_renewers d ! i)" for i
    using assms that by (simp add: renewals_sound_def)
  have closing: "rd_closing d \<Longrightarrow> rd_live d = (\<lambda>k. None)" using assms by (simp add: renewals_sound_def)
  show ?thesis
    unfolding renewals_sound_def stop_renewal_def using live uncancelled closing
    by (auto simp: cancel_at_fields)
qed

lemma stop_all_cancels:
  assumes "renewals_sound d" "i < length (rd_renewers d)"
  shows "rn_cancelled (rd_renewers (stop_all_renewals d) ! i)"
proof (cases "rn_cancelled (rd_renewers d ! i)")
  case True
  with assms(2) show ?thesis by (simp add: stop_all_renewals_def cancel_renewer_def)
next
  case False
  with assms have "rd_live d (rn_name (rd_renewers d ! i)) = Some i" by (simp add: renewals_sound_def)
  with assms(2) show ?thesis by (auto simp: stop_all_renewals_def cancel_renewer_def)
qed

lemma stop_all_fields:
  "length (rd_renewers (stop_all_renewals d)) = length (rd_renewers d)" "rd_live (stop_all_renewals d) = (\<lambda>k. None)"
  by (simp_all add: stop_all_renewals_def)

lemma stop_all_sound: "renewals_sound d \<Longrightarrow> renewals_sound (stop_all_renewals d)"
  unfolding renewals_sound_def[of "stop_all_renewals d"] stop_all_fields using stop_all_cancels by blast

lemma close_sound: "renewals_sound d \<Longrightarrow> renewals_sound (close_renewals d)"
proof -
  assume "renewals_sound d"
  then have "renewals_sound (stop_all_renewals d)" by (rule stop_all_sound)
  moreover have "close_renewals d = (stop_all_renewals d)\<lparr>rd_closing := True\<rparr>"
    by (simp add: close_renewals_def stop_all_renewals_def)
  ultimately show ?thesis by (simp add: renewals_sound_def stop_all_fields)
qed

datatype renewal_op = Start_renewal string rest | Stop_renewal string | Close_renewals

fun renewal_desk_step :: "rest_net \<Rightarrow> renewal_op \<Rightarrow> renewal_desk \<Rightarrow> renewal_desk" where
  "renewal_desk_step N (Start_renewal name r) d = start_renewal N name r d"
| "renewal_desk_step N (Stop_renewal name) d = stop_renewal name d"
| "renewal_desk_step N Close_renewals d = close_renewals d"

interpretation renewal_desk_runs: kept_invariant "renewal_desk_step N" renewals_sound for N
  by unfold_locales (metis renewal_desk_step.simps renewal_op.exhaust start_renewal_sound stop_renewal_sound close_sound)

definition no_renewals :: renewal_desk where
  "no_renewals = \<lparr>rd_renewers = [], rd_live = (\<lambda>k. None), rd_closing = False\<rparr>"

text \<open>Two renewers of one connection are never both uncancelled, and after the close every renewer is cancelled.\<close>

theorem one_renewer_for_each_connection:
  "let d = fold (renewal_desk_step N) ops no_renewals; rs = rd_renewers d in
     (\<forall>i < length rs. \<forall>j < length rs. i \<noteq> j \<and> rn_name (rs ! i) = rn_name (rs ! j) \<longrightarrow> rn_cancelled (rs ! i) \<or> rn_cancelled (rs ! j)) \<and>
     (rd_closing d \<longrightarrow> (\<forall>i < length rs. rn_cancelled (rs ! i)))"
proof -
  have "renewals_sound no_renewals" by (simp add: renewals_sound_def no_renewals_def)
  then have "renewals_sound (fold (renewal_desk_step N) ops no_renewals)" by (rule renewal_desk_runs.run_inv)
  then show ?thesis unfolding renewals_sound_def Let_def by (metis option.distinct(1) option.inject)
qed

subsection \<open>Concrete renewers\<close>

definition dated_net :: rest_net where
  "dated_net = sample_net\<lparr>nt_claims := (\<lambda>t. Some 1000)\<rparr>"

definition dated_session :: rest where
  "dated_session = sample_session\<lparr>rc_session := JS_str ''T''\<rparr>"

theorem token_renewed_before_expiry_witness:
  "\<exists>n. renewal_due dated_net 120 (at_fire 0 (firings dated_net (\<lambda>k. 0) n (started_system dated_net ''primary'' dated_session))) = Inr True"
proof -
  have w: "steady_wall dated_net" by (simp add: steady_wall_def dated_net_def sample_net_def)
  have e: "expiring dated_net 1000 dated_session"
    by (simp add: expiring_def dated_net_def dated_session_def sample_session_def new_rest_def)
  have l: "120 \<le> 1000 - nt_wall dated_net (rc_clock dated_session)"
    by (simp add: dated_net_def sample_net_def dated_session_def sample_session_def new_rest_def)
  from token_renewed_before_expiry[OF w _ e l, of "\<lambda>k. 0" "''primary''"] show ?thesis by auto
qed

definition cancelled_sample :: renewal_system where
  "cancelled_sample =
     (let s = started_system dated_net ''primary'' dated_session in s\<lparr>sy_renewer := cancel_renewer (sy_renewer s)\<rparr>)"

theorem cancelled_renewer_ends_witness:
  "rn_timer (sy_renewer (cancelled_sample\<lparr>sy_rest := (sy_rest cancelled_sample)\<lparr>rc_clock := rc_clock (sy_rest cancelled_sample) + 5\<rparr>\<rparr>)) = None"
proof -
  have "renewal_step dated_net cancelled_sample
      (cancelled_sample\<lparr>sy_rest := (sy_rest cancelled_sample)\<lparr>rc_clock := rc_clock (sy_rest cancelled_sample) + 5\<rparr>\<rparr>)"
    by (rule Tick) simp
  from cancelled_renewer_ends[OF r_into_rtranclp[of "renewal_step dated_net", OF this[unfolded cancelled_sample_def Let_def]]]
  show ?thesis by (simp add: cancelled_sample_def Let_def)
qed

end
