(* ===== verification/RelayStore.thy ===== *)
theory RelayStore
  imports MappingLedger
begin

text \<open>
  The durable archive of relay logs (capture/relay_store.py). A byte is a character. The digest of bytes
  and the form of a stream identity are arguments; a message holds what its JSON carried, its bytes decoded.
\<close>

subsection \<open>Messages and tables\<close>

type_synonym bytes = string

text \<open>\<open>rm_data\<close> is None when the base64 text does not decode.\<close>

record relay_message =
  rm_version :: string
  rm_stream :: string
  rm_machine :: string
  rm_filename :: string
  rm_offset :: int
  rm_sha :: string
  rm_data :: "bytes option"

record relay_ack =
  ra_version :: string
  ra_stream :: string
  ra_offset :: int
  ra_next :: int
  ra_sha :: string
  ra_durable :: bool
  ra_duplicate :: bool

record chunk =
  ck_seq :: nat
  ck_stream :: string
  ck_machine :: string
  ck_filename :: string
  ck_offset :: int
  ck_digest :: string
  ck_payload :: bytes
  ck_received :: int

record stream_row =
  sr_stream :: string
  sr_machine :: string
  sr_filename :: string
  sr_next :: int

record relay_store =
  rs_chunks :: "chunk list"
  rs_streams :: "stream_row list"

definition chunk_bytes :: nat where
  "chunk_bytes = 8192"

definition ends_with :: "string \<Rightarrow> string \<Rightarrow> bool" where
  "ends_with tail s \<longleftrightarrow> length tail \<le> length s \<and> drop (length s - length tail) s = tail"

definition filename_allowed :: "string \<Rightarrow> bool" where
  "filename_allowed f \<longleftrightarrow>
     1 \<le> length f \<and> length f \<le> 240 \<and> CHR ''/'' \<notin> set f \<and> CHR 0x5C \<notin> set f \<and> (ends_with ''.log'' f \<or> ends_with ''.jsonl'' f)"

text \<open>The checks of an envelope, in their order; its bytes.\<close>

definition check_message :: "(bytes \<Rightarrow> string) \<Rightarrow> (string \<Rightarrow> bool) \<Rightarrow> relay_message \<Rightarrow> bytes res" where
  "check_message sha uuid m =
     (if rm_version m \<noteq> ''1.0.0'' then Inl (value_error ''Unsupported relay envelope version'')
      else if \<not> uuid (rm_stream m) then Inl (value_error ''badly formed hexadecimal UUID string'')
      else if \<not> str_between 1 100 (rm_machine m) then Inl (value_error ''Invalid machine'')
      else if \<not> filename_allowed (rm_filename m) then Inl (value_error ''Invalid filename'')
      else if \<not> (0 \<le> rm_offset m \<and> rm_offset m \<le> 2 ^ 63 - int chunk_bytes) then Inl (value_error ''Invalid offset'')
      else (case rm_data m of
              None \<Rightarrow> Inl (value_error ''Invalid log bytes'')
            | Some payload \<Rightarrow>
                if \<not> (1 \<le> length payload \<and> length payload \<le> chunk_bytes) \<or> rm_sha m \<noteq> sha payload
                then Inl (value_error ''Invalid log checksum or size'') else Inr payload))"

definition relay_answer :: "relay_message \<Rightarrow> bytes \<Rightarrow> string \<Rightarrow> bool \<Rightarrow> relay_ack" where
  "relay_answer m payload digest duplicate =
     \<lparr>ra_version = ''1.0.0'', ra_stream = rm_stream m, ra_offset = rm_offset m, ra_next = rm_offset m + int (length payload),
      ra_sha = digest, ra_durable = True, ra_duplicate = duplicate\<rparr>"

text \<open>Inserting a chunk and moving its stream, in one transaction.\<close>

definition insert_chunk :: "relay_message \<Rightarrow> bytes \<Rightarrow> string \<Rightarrow> int \<Rightarrow> relay_store \<Rightarrow> relay_store" where
  "insert_chunk m payload digest now st =
     \<lparr>rs_chunks = rs_chunks st @
        [\<lparr>ck_seq = Suc (length (rs_chunks st)), ck_stream = rm_stream m, ck_machine = rm_machine m, ck_filename = rm_filename m,
          ck_offset = rm_offset m, ck_digest = digest, ck_payload = payload, ck_received = now\<rparr>],
      rs_streams = upsert sr_stream (\<lambda>old new. old\<lparr>sr_next := sr_next new\<rparr>)
        \<lparr>sr_stream = rm_stream m, sr_machine = rm_machine m, sr_filename = rm_filename m, sr_next = rm_offset m + int (length payload)\<rparr>
        (rs_streams st)\<rparr>"

definition accept_chunk ::
  "(bytes \<Rightarrow> string) \<Rightarrow> (string \<Rightarrow> bool) \<Rightarrow> int \<Rightarrow> relay_message \<Rightarrow> relay_store \<Rightarrow> relay_ack res \<times> relay_store" where
  "accept_chunk sha uuid now m st =
     (case check_message sha uuid m of
        Inl e \<Rightarrow> (Inl e, st)
      | Inr payload \<Rightarrow>
          (case find (\<lambda>c. ck_stream c = rm_stream m \<and> ck_offset c = rm_offset m) (rs_chunks st) of
             Some c \<Rightarrow>
               if (ck_machine c, ck_filename c, ck_digest c, ck_payload c) \<noteq> (rm_machine m, rm_filename m, sha payload, payload)
               then (Inl (value_error ''Relay identity conflict''), st)
               else (Inr (relay_answer m payload (sha payload) True), st)
           | None \<Rightarrow>
               (let previous = find (\<lambda>r. sr_stream r = rm_stream m) (rs_streams st) in
                if (case previous of Some r \<Rightarrow> (sr_machine r, sr_filename r) \<noteq> (rm_machine m, rm_filename m) | None \<Rightarrow> False)
                then (Inl (value_error ''Relay stream identity conflict''), st)
                else if rm_offset m \<noteq> (case previous of Some r \<Rightarrow> sr_next r | None \<Rightarrow> 0)
                then (Inl (value_error ''Relay log gap''), st)
                else (Inr (relay_answer m payload (sha payload) False), insert_chunk m payload (sha payload) now st))))"

definition relay_feed :: "int \<Rightarrow> int \<Rightarrow> relay_store \<Rightarrow> (chunk list \<times> int) res" where
  "relay_feed after limit st =
     (if after < 0 \<or> \<not> (1 \<le> limit \<and> limit \<le> 100) then Inl (value_error ''Invalid relay page'')
      else (let rows = take (nat limit) (filter (\<lambda>c. after < int (ck_seq c)) (rs_chunks st))
            in Inr (rows, if rows = [] then after else int (ck_seq (last rows)))))"

definition relay_status :: "relay_store \<Rightarrow> nat \<times> nat \<times> int option \<times> nat" where
  "relay_status st =
     (length (rs_chunks st), sum_list (map (\<lambda>c. length (ck_payload c)) (rs_chunks st)),
      (if rs_chunks st = [] then None else Some (Max (ck_received ` set (rs_chunks st)))), length (rs_streams st))"

definition empty_relay :: relay_store where
  "empty_relay = \<lparr>rs_chunks = [], rs_streams = []\<rparr>"

subsection \<open>What is archived\<close>

text \<open>The bytes of a stream: the payloads of its chunks in the order they were stored.\<close>

definition stream_bytes :: "string \<Rightarrow> relay_store \<Rightarrow> bytes" where
  "stream_bytes s st = concat (map ck_payload (filter (\<lambda>c. ck_stream c = s) (rs_chunks st)))"

text \<open>Every chunk of a stream starts where those before it end.\<close>

fun contiguous :: "int \<Rightarrow> chunk list \<Rightarrow> bool" where
  "contiguous n [] \<longleftrightarrow> True"
| "contiguous n (c # cs) \<longleftrightarrow> ck_offset c = n \<and> ck_payload c \<noteq> [] \<and> contiguous (n + int (length (ck_payload c))) cs"

definition chunks_of :: "string \<Rightarrow> relay_store \<Rightarrow> chunk list" where
  "chunks_of s st = filter (\<lambda>c. ck_stream c = s) (rs_chunks st)"

lemma stream_bytes_chunks: "stream_bytes s st = concat (map ck_payload (chunks_of s st))"
  by (simp add: stream_bytes_def chunks_of_def)

definition relay_ok :: "relay_store \<Rightarrow> bool" where
  "relay_ok st \<longleftrightarrow>
     unique_key sr_stream (rs_streams st) \<and> map ck_seq (rs_chunks st) = [1..<Suc (length (rs_chunks st))] \<and>
     (\<forall>s. contiguous 0 (chunks_of s st) \<and>
          (case find (\<lambda>r. sr_stream r = s) (rs_streams st) of
             None \<Rightarrow> chunks_of s st = []
           | Some r \<Rightarrow> sr_next r = int (length (stream_bytes s st)) \<and>
               (\<forall>c \<in> set (chunks_of s st). ck_machine c = sr_machine r \<and> ck_filename c = sr_filename r)))"

lemma contiguous_append:
  "contiguous n (cs @ [c]) \<longleftrightarrow>
     contiguous n cs \<and> ck_offset c = n + int (length (concat (map ck_payload cs))) \<and> ck_payload c \<noteq> []"
  by (induction cs arbitrary: n) (auto simp: algebra_simps)

lemma chunks_of_insert:
  "chunks_of s (insert_chunk m payload digest now st) =
     chunks_of s st @ (if s = rm_stream m then
       [\<lparr>ck_seq = Suc (length (rs_chunks st)), ck_stream = rm_stream m, ck_machine = rm_machine m, ck_filename = rm_filename m,
         ck_offset = rm_offset m, ck_digest = digest, ck_payload = payload, ck_received = now\<rparr>] else [])"
  by (simp add: chunks_of_def insert_chunk_def)

lemma stream_bytes_insert:
  "stream_bytes s (insert_chunk m payload digest now st) = stream_bytes s st @ (if s = rm_stream m then payload else [])"
  by (simp add: stream_bytes_chunks chunks_of_insert)

lemma find_stream_insert:
  "find (\<lambda>r. sr_stream r = s) (rs_streams (insert_chunk m payload digest now st)) =
     (if s = rm_stream m
      then Some (case find (\<lambda>r. sr_stream r = s) (rs_streams st) of
          Some old \<Rightarrow> old\<lparr>sr_next := rm_offset m + int (length payload)\<rparr>
        | None \<Rightarrow> \<lparr>sr_stream = rm_stream m, sr_machine = rm_machine m, sr_filename = rm_filename m,
                    sr_next = rm_offset m + int (length payload)\<rparr>)
      else find (\<lambda>r. sr_stream r = s) (rs_streams st))"
  by (auto simp: insert_chunk_def find_upsert_key split: option.split)

text \<open>The next offset of a stream is the length of its archive.\<close>

lemma relay_next:
  "relay_ok st \<Longrightarrow>
     (case find (\<lambda>r. sr_stream r = s) (rs_streams st) of Some r \<Rightarrow> sr_next r | None \<Rightarrow> 0) = int (length (stream_bytes s st))"
  unfolding relay_ok_def by (auto simp: stream_bytes_chunks split: option.splits dest!: spec[of _ s])

lemma insert_relay_ok:
  assumes "relay_ok st" "payload \<noteq> []" "rm_offset m = int (length (stream_bytes (rm_stream m) st))"
    "case find (\<lambda>r. sr_stream r = rm_stream m) (rs_streams st) of
       Some r \<Rightarrow> (sr_machine r, sr_filename r) = (rm_machine m, rm_filename m) | None \<Rightarrow> True"
  shows "relay_ok (insert_chunk m payload digest now st)"
proof -
  have u: "unique_key sr_stream (rs_streams (insert_chunk m payload digest now st))"
    using assms(1) by (simp add: insert_chunk_def relay_ok_def unique_upsert)
  have q: "map ck_seq (rs_chunks (insert_chunk m payload digest now st)) = [1..<Suc (length (rs_chunks (insert_chunk m payload digest now st)))]"
    using assms(1) by (simp add: insert_chunk_def relay_ok_def)
  have s: "contiguous 0 (chunks_of s (insert_chunk m payload digest now st)) \<and>
      (case find (\<lambda>r. sr_stream r = s) (rs_streams (insert_chunk m payload digest now st)) of
         None \<Rightarrow> chunks_of s (insert_chunk m payload digest now st) = []
       | Some r \<Rightarrow> sr_next r = int (length (stream_bytes s (insert_chunk m payload digest now st))) \<and>
           (\<forall>c \<in> set (chunks_of s (insert_chunk m payload digest now st)). ck_machine c = sr_machine r \<and> ck_filename c = sr_filename r))" for s
  proof -
    have old: "contiguous 0 (chunks_of s st)"
      "case find (\<lambda>r. sr_stream r = s) (rs_streams st) of None \<Rightarrow> chunks_of s st = []
       | Some r \<Rightarrow> sr_next r = int (length (stream_bytes s st)) \<and>
           (\<forall>c \<in> set (chunks_of s st). ck_machine c = sr_machine r \<and> ck_filename c = sr_filename r)"
      using assms(1) by (simp_all add: relay_ok_def)
    show ?thesis
    proof (cases "s = rm_stream m")
      case True
      show ?thesis
        unfolding True chunks_of_insert find_stream_insert stream_bytes_insert
        using old[unfolded True] assms(2-4)
        by (auto simp: contiguous_append stream_bytes_chunks split: option.splits)
    next
      case False
      show ?thesis unfolding chunks_of_insert find_stream_insert stream_bytes_insert using old False by (auto split: option.splits)
    qed
  qed
  from u q s show ?thesis by (simp add: relay_ok_def)
qed

text \<open>An archived chunk lies at its offset in the archive of its stream.\<close>

lemma contiguous_at:
  assumes "contiguous n cs" "c \<in> set cs"
  shows "n \<le> ck_offset c \<and> take (length (ck_payload c)) (drop (nat (ck_offset c - n)) (concat (map ck_payload cs))) = ck_payload c"
  using assms
proof (induction cs arbitrary: n)
  case (Cons d cs)
  show ?case
  proof (cases "c = d")
    case True
    with Cons.prems show ?thesis by simp
  next
    case False
    with Cons.prems have m: "c \<in> set cs" "contiguous (n + int (length (ck_payload d))) cs" by auto
    note ih = Cons.IH[OF m(2,1)]
    then have "nat (ck_offset c - n) = length (ck_payload d) + nat (ck_offset c - (n + int (length (ck_payload d))))" by linarith
    with ih show ?thesis by simp
  qed
qed simp

lemma contiguous_nonempty: "contiguous n cs \<Longrightarrow> c \<in> set cs \<Longrightarrow> ck_payload c \<noteq> []"
  by (induction cs arbitrary: n) auto

lemma check_message_payload:
  "check_message sha uuid m = Inr payload \<Longrightarrow> payload \<noteq> [] \<and> rm_data m = Some payload \<and> 0 \<le> rm_offset m \<and> rm_sha m = sha payload \<and>
     length payload \<le> chunk_bytes \<and> rm_version m = ''1.0.0''"
  by (auto simp: check_message_def split: if_splits option.splits)

lemma accept_outcomes:
  assumes "relay_ok st" "accept_chunk sha uuid now m st = (x, st')"
  obtains (refused) e where "x = Inl e" "st' = st"
  | (again) payload where "check_message sha uuid m = Inr payload" "x = Inr (relay_answer m payload (sha payload) True)" "st' = st"
      "take (length payload) (drop (nat (rm_offset m)) (stream_bytes (rm_stream m) st)) = payload"
  | (appended) payload where "check_message sha uuid m = Inr payload" "x = Inr (relay_answer m payload (sha payload) False)"
      "st' = insert_chunk m payload (sha payload) now st" "rm_offset m = int (length (stream_bytes (rm_stream m) st))"
      "relay_ok st'"
proof (cases "check_message sha uuid m")
  case (Inl e)
  with assms(2) have "x = Inl e" "st' = st" by (simp_all add: accept_chunk_def)
  then show ?thesis by (rule refused)
next
  case (Inr payload)
  note p = check_message_payload[OF Inr]
  show ?thesis
  proof (cases "find (\<lambda>c. ck_stream c = rm_stream m \<and> ck_offset c = rm_offset m) (rs_chunks st)")
    case (Some c)
    then have c: "c \<in> set (chunks_of (rm_stream m) st)" "ck_offset c = rm_offset m"
      by (auto simp: chunks_of_def dest: find_Some_mem)
    show ?thesis
    proof (cases "(ck_machine c, ck_filename c, ck_digest c, ck_payload c) = (rm_machine m, rm_filename m, sha payload, payload)")
      case True
      have "contiguous 0 (chunks_of (rm_stream m) st)" using assms(1) by (simp add: relay_ok_def)
      from contiguous_at[OF this c(1)] True c(2)
      have "take (length payload) (drop (nat (rm_offset m)) (stream_bytes (rm_stream m) st)) = payload"
        by (simp add: stream_bytes_chunks)
      moreover have "x = Inr (relay_answer m payload (sha payload) True)" "st' = st"
        using assms(2) Inr Some True by (simp_all add: accept_chunk_def)
      ultimately show ?thesis using again[OF Inr] by blast
    next
      case False
      then have "x = Inl (value_error ''Relay identity conflict'')" "st' = st"
        using assms(2) Inr Some by (auto simp: accept_chunk_def)
      then show ?thesis by (rule refused)
    qed
  next
    case None
    let ?prev = "find (\<lambda>r. sr_stream r = rm_stream m) (rs_streams st)"
    let ?clash = "case ?prev of Some r \<Rightarrow> (sr_machine r, sr_filename r) \<noteq> (rm_machine m, rm_filename m) | None \<Rightarrow> False"
    let ?next = "case ?prev of Some r \<Rightarrow> sr_next r | None \<Rightarrow> 0"
    show ?thesis
    proof (cases "?clash \<or> rm_offset m \<noteq> ?next")
      case True
      then obtain e where "x = Inl e" "st' = st"
        using assms(2) Inr None by (auto simp: accept_chunk_def Let_def split: if_splits)
      then show ?thesis by (rule refused)
    next
      case False
      then have off: "rm_offset m = int (length (stream_bytes (rm_stream m) st))" using relay_next[OF assms(1)] by simp
      have e: "x = Inr (relay_answer m payload (sha payload) False)" "st' = insert_chunk m payload (sha payload) now st"
        using assms(2) Inr None False by (auto simp: accept_chunk_def Let_def)
      have "case ?prev of Some r \<Rightarrow> (sr_machine r, sr_filename r) = (rm_machine m, rm_filename m) | None \<Rightarrow> True"
        using False by (auto split: option.splits)
      then have "relay_ok st'" unfolding e(2) using insert_relay_ok[OF assms(1) _ off] p by blast
      then show ?thesis by (rule appended[OF Inr e off])
    qed
  qed
qed

lemma accept_ok: "relay_ok st \<Longrightarrow> relay_ok (snd (accept_chunk sha uuid now m st))"
proof -
  assume ok: "relay_ok st"
  obtain x st' where a: "accept_chunk sha uuid now m st = (x, st')" by fastforce
  from ok a show ?thesis by (cases rule: accept_outcomes) (use ok a in auto)
qed

lemma empty_relay_ok: "relay_ok empty_relay"
  by (simp add: relay_ok_def empty_relay_def chunks_of_def)

interpretation relay_runs: kept_invariant "\<lambda>(now, m) st. snd (accept_chunk sha uuid now m st)" relay_ok for sha uuid
  by unfold_locales (auto intro: accept_ok)

end
