(* ===== verification/RelayCollector.thy ===== *)
theory RelayCollector
  imports RelayStore "HOL-Library.Sublist"
begin

text \<open>
  The mirror of relay log files (capture/relay_collector.py): the collector's checkpoints and pending
  messages, its polls, and the archive (theory RelayStore) it delivers to over a channel that may lose a
  request or its answer.
\<close>

subsection \<open>The collector\<close>

record file_row =
  fr_stream :: string
  fr_identity :: string
  fr_offset :: nat
  fr_prefix :: bytes

text \<open>\<open>cl_fresh\<close> counts the stream identities that were made.\<close>

record collector =
  cl_machine :: string
  cl_files :: "string \<Rightarrow> file_row option"
  cl_pending :: "(string \<times> relay_message) list"
  cl_fresh :: nat

definition new_collector :: "string \<Rightarrow> collector" where
  "new_collector machine = \<lparr>cl_machine = machine, cl_files = (\<lambda>p. None), cl_pending = [], cl_fresh = 0\<rparr>"

definition message_bytes :: "relay_message \<Rightarrow> bytes" where
  "message_bytes m = (case rm_data m of Some d \<Rightarrow> d | None \<Rightarrow> [])"

text \<open>An answer that is no object is None.\<close>

definition ack_valid :: "relay_message \<Rightarrow> relay_ack option \<Rightarrow> bool" where
  "ack_valid m a \<longleftrightarrow>
     (case a of
        None \<Rightarrow> False
      | Some a \<Rightarrow> ra_durable a \<and> ra_version a = rm_version m \<and> ra_stream a = rm_stream m \<and> ra_offset a = rm_offset m \<and>
                  ra_sha a = rm_sha m \<and> ra_next a = rm_offset m + int (length (message_bytes m)))"

text \<open>The checkpoint of an acknowledged message.\<close>

definition checkpoint :: "string \<Rightarrow> relay_message \<Rightarrow> collector \<Rightarrow> collector" where
  "checkpoint path m c =
     c\<lparr>cl_files := (cl_files c)(path := (case cl_files c path of
          Some f \<Rightarrow> Some (if fr_stream f = rm_stream m then f\<lparr>fr_offset := nat (rm_offset m) + length (message_bytes m)\<rparr> else f)
        | None \<Rightarrow> None)),
       cl_pending := filter (\<lambda>e. fst e \<noteq> path) (cl_pending c)\<rparr>"

type_synonym 'w delivery = "relay_message \<Rightarrow> 'w \<Rightarrow> relay_ack option res \<times> 'w"

definition deliver_pending :: "'w delivery \<Rightarrow> string \<Rightarrow> relay_message \<Rightarrow> collector \<Rightarrow> 'w \<Rightarrow> unit res \<times> collector \<times> 'w" where
  "deliver_pending deliver path m c w =
     (case deliver m w of
        (Inl e, w1) \<Rightarrow> (Inl e, c, w1)
      | (Inr a, w1) \<Rightarrow>
          if \<not> ack_valid m a
          then (Inl (value_error ''Invalid durable relay acknowledgement; checkpoint retained''), c, w1)
          else (Inr (), checkpoint path m c, w1))"

text \<open>Delivering messages in turn; a failure ends the poll. The count of those delivered.\<close>

fun deliver_all :: "'w delivery \<Rightarrow> (string \<times> relay_message) list \<Rightarrow> collector \<Rightarrow> 'w \<Rightarrow> nat res \<times> collector \<times> 'w" where
  "deliver_all deliver [] c w = (Inr 0, c, w)"
| "deliver_all deliver ((path, m) # ms) c w =
     (case deliver_pending deliver path m c w of
        (Inl e, c1, w1) \<Rightarrow> (Inl e, c1, w1)
      | (Inr _, c1, w1) \<Rightarrow>
          (case deliver_all deliver ms c1 w1 of
             (Inl e, c2, w2) \<Rightarrow> (Inl e, c2, w2)
           | (Inr n, c2, w2) \<Rightarrow> (Inr (Suc n), c2, w2)))"

text \<open>What is read at an offset: at most a chunk, up to its last line end when it has one.\<close>

definition next_chunk :: "nat \<Rightarrow> bytes \<Rightarrow> bytes" where
  "next_chunk offset text =
     (let p = take chunk_bytes (drop offset text)
      in if CHR 0x0A \<in> set p then rev (dropWhile (\<lambda>c. c \<noteq> CHR 0x0A) (rev p)) else p)"

text \<open>The row of a file as this poll takes it up: the one it has, or a new stream from the start.\<close>

definition take_up :: "(nat \<Rightarrow> string) \<Rightarrow> string \<Rightarrow> string \<Rightarrow> bytes \<Rightarrow> collector \<Rightarrow> file_row \<times> bytes \<times> collector" where
  "take_up uuid_of path identity text c =
     (let lead = take (case cl_files c path of Some f \<Rightarrow> length (fr_prefix f) | None \<Rightarrow> 32) text;
          fresh = \<lparr>fr_stream = uuid_of (cl_fresh c), fr_identity = identity, fr_offset = 0, fr_prefix = lead\<rparr>;
          restarted = c\<lparr>cl_files := (cl_files c)(path \<mapsto> fresh), cl_fresh := Suc (cl_fresh c)\<rparr>
      in case cl_files c path of
           None \<Rightarrow> (fresh, lead, restarted)
         | Some f \<Rightarrow>
             if fr_identity f \<noteq> identity \<or> length text < fr_offset f \<or> lead \<noteq> fr_prefix f
             then (fresh, lead, restarted) else (f, lead, c))"

definition chunk_message :: "(bytes \<Rightarrow> string) \<Rightarrow> string \<Rightarrow> string \<Rightarrow> file_row \<Rightarrow> bytes \<Rightarrow> relay_message" where
  "chunk_message sha machine path f payload =
     \<lparr>rm_version = ''1.0.0'', rm_stream = fr_stream f, rm_machine = machine, rm_filename = path, rm_offset = int (fr_offset f),
      rm_sha = sha payload, rm_data = Some payload\<rparr>"

text \<open>Reserving a message before it is sent; the table holds one for each path.\<close>

definition reserve :: "string \<Rightarrow> relay_message \<Rightarrow> bytes \<Rightarrow> collector \<Rightarrow> collector res" where
  "reserve path m lead c =
     (if has_key fst path (cl_pending c) then Inl (Exn ''IntegrityError'' ''UNIQUE constraint failed: pending.path'' None)
      else Inr (c\<lparr>cl_pending := cl_pending c @ [(path, m)],
                  cl_files := (if lead = [] \<and> rm_offset m = 0
                    then (cl_files c)(path := map_option (\<lambda>f. f\<lparr>fr_prefix := take 32 (message_bytes m)\<rparr>) (cl_files c path))
                    else cl_files c)\<rparr>))"

definition follow_file ::
  "(bytes \<Rightarrow> string) \<Rightarrow> (nat \<Rightarrow> string) \<Rightarrow> 'w delivery \<Rightarrow> string \<Rightarrow> string \<Rightarrow> bytes \<Rightarrow> collector \<Rightarrow> 'w \<Rightarrow> nat res \<times> collector \<times> 'w" where
  "follow_file sha uuid_of deliver path identity text c w =
     (let (f, lead, c1) = take_up uuid_of path identity text c; payload = next_chunk (fr_offset f) text in
      if payload = [] then (Inr 0, c1, w)
      else (let m = chunk_message sha (cl_machine c) path f payload in
        case reserve path m lead c1 of
          Inl e \<Rightarrow> (Inl e, c1, w)
        | Inr c2 \<Rightarrow>
            (case deliver_pending deliver path m c2 w of
               (Inl e, c3, w1) \<Rightarrow> (Inl e, c3, w1)
             | (Inr _, c3, w1) \<Rightarrow> (Inr 1, c3, w1))))"

fun follow_files ::
  "(bytes \<Rightarrow> string) \<Rightarrow> (nat \<Rightarrow> string) \<Rightarrow> 'w delivery \<Rightarrow> (string \<times> string \<times> bytes) list \<Rightarrow> collector \<Rightarrow> 'w \<Rightarrow>
     nat res \<times> collector \<times> 'w" where
  "follow_files sha uuid_of deliver [] c w = (Inr 0, c, w)"
| "follow_files sha uuid_of deliver ((path, identity, text) # es) c w =
     (case follow_file sha uuid_of deliver path identity text c w of
        (Inl e, c1, w1) \<Rightarrow> (Inl e, c1, w1)
      | (Inr n, c1, w1) \<Rightarrow>
          (case follow_files sha uuid_of deliver es c1 w1 of
             (Inl e, c2, w2) \<Rightarrow> (Inl e, c2, w2)
           | (Inr k, c2, w2) \<Rightarrow> (Inr (n + k), c2, w2)))"

text \<open>\<open>Path.suffix\<close> is one of the two log suffixes.\<close>

definition log_suffix :: "string \<Rightarrow> bool" where
  "log_suffix name \<longleftrightarrow> ends_with ''.log'' name \<and> 4 < length name \<or> ends_with ''.jsonl'' name \<and> 6 < length name"

text \<open>A poll over the regular files of the directory, given as name, identity and bytes.\<close>

definition relay_poll ::
  "(bytes \<Rightarrow> string) \<Rightarrow> (nat \<Rightarrow> string) \<Rightarrow> 'w delivery \<Rightarrow> (string \<times> string \<times> bytes) list \<Rightarrow> collector \<Rightarrow> 'w \<Rightarrow>
     nat res \<times> collector \<times> 'w" where
  "relay_poll sha uuid_of deliver entries c w =
     (case deliver_all deliver (sort_key fst (cl_pending c)) c w of
        (Inl e, c1, w1) \<Rightarrow> (Inl e, c1, w1)
      | (Inr n, c1, w1) \<Rightarrow>
          (case follow_files sha uuid_of deliver (sort_key fst (filter (\<lambda>e. log_suffix (fst e)) entries)) c1 w1 of
             (Inl e, c2, w2) \<Rightarrow> (Inl e, c2, w2)
           | (Inr k, c2, w2) \<Rightarrow> (Inr (n + k), c2, w2)))"

subsection \<open>The channel and the files\<close>

datatype fault = No_fault | Lost_request | Lost_answer

text \<open>A delivery to the archive at \<open>now\<close>, with the faults still to come; a refusal is an HTTP error.\<close>

definition post_chunk ::
  "(bytes \<Rightarrow> string) \<Rightarrow> (string \<Rightarrow> bool) \<Rightarrow> int \<Rightarrow> (relay_store \<times> fault list) delivery" where
  "post_chunk sha uuid now m = (\<lambda>(st, faults).
     let fault = (case faults of [] \<Rightarrow> No_fault | f # _ \<Rightarrow> f); rest = tl faults in
     if fault = Lost_request then (Inl (Exn ''OSError'' [] None), st, rest)
     else (case accept_chunk sha uuid now m st of
             (Inl e, st1) \<Rightarrow> (Inl (Exn ''OSError'' [] None), st1, rest)
           | (Inr a, st1) \<Rightarrow> ((if fault = Lost_answer then Inl (Exn ''OSError'' [] None) else Inr (Some a)), st1, rest)))"

text \<open>
  Files by name and identity: the bytes of each identity only grow, and a name shows one identity at a
  time, another one after a rotation.
\<close>

record mirror =
  mi_collector :: collector
  mi_store :: relay_store
  mi_content :: "string \<Rightarrow> string \<Rightarrow> bytes"
  mi_current :: "string \<Rightarrow> string option"
  mi_names :: "string list"

definition mirror_entries :: "mirror \<Rightarrow> (string \<times> string \<times> bytes) list" where
  "mirror_entries s =
     concat (map (\<lambda>p. case mi_current s p of Some i \<Rightarrow> [(p, i, mi_content s p i)] | None \<Rightarrow> []) (mi_names s))"

datatype mirror_op = Grow string bytes | Show string string | Remove string | Poll_files int "fault list"

definition poll_mirror ::
  "(bytes \<Rightarrow> string) \<Rightarrow> (nat \<Rightarrow> string) \<Rightarrow> (string \<Rightarrow> bool) \<Rightarrow> int \<Rightarrow> fault list \<Rightarrow> mirror \<Rightarrow> nat res \<times> mirror" where
  "poll_mirror sha uuid_of uuid now faults s =
     (let (x, c, st, rest) = relay_poll sha uuid_of (post_chunk sha uuid now) (mirror_entries s) (mi_collector s) (mi_store s, faults)
      in (x, s\<lparr>mi_collector := c, mi_store := st\<rparr>))"

fun mirror_step :: "(bytes \<Rightarrow> string) \<Rightarrow> (nat \<Rightarrow> string) \<Rightarrow> (string \<Rightarrow> bool) \<Rightarrow> mirror_op \<Rightarrow> mirror \<Rightarrow> mirror" where
  "mirror_step sha uuid_of uuid (Grow p bs) s =
     (case mi_current s p of
        None \<Rightarrow> s
      | Some i \<Rightarrow> s\<lparr>mi_content := (mi_content s)(p := (mi_content s p)(i := mi_content s p i @ bs))\<rparr>)"
| "mirror_step sha uuid_of uuid (Show p i) s =
     s\<lparr>mi_current := (mi_current s)(p \<mapsto> i), mi_names := (if p \<in> set (mi_names s) then mi_names s else mi_names s @ [p])\<rparr>"
| "mirror_step sha uuid_of uuid (Remove p) s = s\<lparr>mi_current := (mi_current s)(p := None)\<rparr>"
| "mirror_step sha uuid_of uuid (Poll_files now faults) s = snd (poll_mirror sha uuid_of uuid now faults s)"

definition new_mirror :: "string \<Rightarrow> mirror" where
  "new_mirror machine =
     \<lparr>mi_collector = new_collector machine, mi_store = empty_relay, mi_content = (\<lambda>p i. []), mi_current = (\<lambda>p. None), mi_names = []\<rparr>"

subsection \<open>What the mirror keeps\<close>

text \<open>A pending message: the next bytes of the file its row follows.\<close>

definition pending_ok :: "(bytes \<Rightarrow> string) \<Rightarrow> (string \<Rightarrow> string \<Rightarrow> bytes) \<Rightarrow> collector \<Rightarrow> string \<Rightarrow> relay_message \<Rightarrow> bool" where
  "pending_ok sha content c p m \<longleftrightarrow>
     (\<exists>f payload. cl_files c p = Some f \<and> m = chunk_message sha (cl_machine c) p f payload \<and> payload \<noteq> [] \<and>
        length payload \<le> chunk_bytes \<and>
        payload = take (length payload) (drop (fr_offset f) (content p (fr_identity f))))"

text \<open>The message is archived as a chunk of its own.\<close>

definition archived_chunk :: "relay_store \<Rightarrow> relay_message \<Rightarrow> bool" where
  "archived_chunk st m \<longleftrightarrow>
     (\<exists>k \<in> set (chunks_of (rm_stream m) st). ck_offset k = rm_offset m \<and> ck_payload k = message_bytes m \<and>
        ck_digest k = rm_sha m \<and> ck_machine k = rm_machine m \<and> ck_filename k = rm_filename m)"

text \<open>A row: its archive is the start of its file, up to its checkpoint or past its pending message.\<close>

definition row_ok :: "(nat \<Rightarrow> string) \<Rightarrow> (string \<Rightarrow> string \<Rightarrow> bytes) \<Rightarrow> collector \<Rightarrow> relay_store \<Rightarrow> string \<Rightarrow> file_row \<Rightarrow> bool" where
  "row_ok uuid_of content c st p f \<longleftrightarrow>
     fr_offset f \<le> length (content p (fr_identity f)) \<and> prefix (fr_prefix f) (content p (fr_identity f)) \<and>
     (\<exists>k < cl_fresh c. fr_stream f = uuid_of k) \<and>
     (\<exists>n \<le> length (content p (fr_identity f)). stream_bytes (fr_stream f) st = take n (content p (fr_identity f)) \<and>
        (case map_of (cl_pending c) p of
           None \<Rightarrow> n = fr_offset f
         | Some m \<Rightarrow> n = fr_offset f \<or> n = fr_offset f + length (message_bytes m) \<and> archived_chunk st m)) \<and>
     (\<forall>r. find (\<lambda>r. sr_stream r = fr_stream f) (rs_streams st) = Some r \<longrightarrow> sr_machine r = cl_machine c \<and> sr_filename r = p)"

text \<open>Every stream of the archive, of a rotated file too, is the start of a file of its name.\<close>

definition archive_real :: "(string \<Rightarrow> string \<Rightarrow> bytes) \<Rightarrow> relay_store \<Rightarrow> bool" where
  "archive_real content st \<longleftrightarrow>
     (\<forall>s r. find (\<lambda>r. sr_stream r = s) (rs_streams st) = Some r \<longrightarrow> (\<exists>i. prefix (stream_bytes s st) (content (sr_filename r) i)))"

definition mirror_ok :: "(bytes \<Rightarrow> string) \<Rightarrow> (nat \<Rightarrow> string) \<Rightarrow> (string \<Rightarrow> string \<Rightarrow> bytes) \<Rightarrow> collector \<Rightarrow> relay_store \<Rightarrow> bool" where
  "mirror_ok sha uuid_of content c st \<longleftrightarrow>
     relay_ok st \<and> distinct (map fst (cl_pending c)) \<and>
     (\<forall>p m. (p, m) \<in> set (cl_pending c) \<longrightarrow> pending_ok sha content c p m) \<and>
     (\<forall>p f. cl_files c p = Some f \<longrightarrow> row_ok uuid_of content c st p f) \<and>
     (\<forall>p q f g. p \<noteq> q \<longrightarrow> cl_files c p = Some f \<longrightarrow> cl_files c q = Some g \<longrightarrow> fr_stream f \<noteq> fr_stream g) \<and>
     (\<forall>k \<ge> cl_fresh c. find (\<lambda>r. sr_stream r = uuid_of k) (rs_streams st) = None) \<and> archive_real content st"

lemma mirror_okD:
  assumes "mirror_ok sha uuid_of content c st"
  shows "relay_ok st" "distinct (map fst (cl_pending c))"
    "(p, m) \<in> set (cl_pending c) \<Longrightarrow> pending_ok sha content c p m"
    "cl_files c p = Some f \<Longrightarrow> row_ok uuid_of content c st p f"
    "cl_files c p = Some f \<Longrightarrow> cl_files c q = Some g \<Longrightarrow> p \<noteq> q \<Longrightarrow> fr_stream f \<noteq> fr_stream g"
    "cl_fresh c \<le> k \<Longrightarrow> find (\<lambda>r. sr_stream r = uuid_of k) (rs_streams st) = None"
    "archive_real content st"
  using assms unfolding mirror_ok_def by blast+

lemma no_stream_no_bytes: "relay_ok st \<Longrightarrow> find (\<lambda>r. sr_stream r = s) (rs_streams st) = None \<Longrightarrow> stream_bytes s st = []"
  by (auto simp: relay_ok_def stream_bytes_chunks dest!: spec[of _ s])

text \<open>
  A delivery leaves the mirror sound whatever it answers; when it answers, the answer is valid and the
  bytes are archived.
\<close>

lemma post_mirror_ok:
  assumes inj: "inj uuid_of" and ok: "mirror_ok sha uuid_of content c st" and m: "(p, m) \<in> set (cl_pending c)" "cl_files c p = Some f"
    and post: "post_chunk sha uuid now m (st, faults) = (x, st1, faults1)"
  shows "mirror_ok sha uuid_of content c st1"
    and "x = Inr a \<Longrightarrow> ack_valid m a \<and> stream_bytes (fr_stream f) st1 =
      take (fr_offset f + length (message_bytes m)) (content p (fr_identity f))"
proof -
  let ?txt = "content p (fr_identity f)"
  obtain payload where pm: "m = chunk_message sha (cl_machine c) p f payload" "payload \<noteq> []"
    "payload = take (length payload) (drop (fr_offset f) ?txt)"
    using mirror_okD(3)[OF ok m(1)] m(2) by (auto simp: pending_ok_def)
  have mf [simp]: "rm_stream m = fr_stream f" "rm_offset m = int (fr_offset f)" "rm_machine m = cl_machine c" "rm_filename m = p"
    "message_bytes m = payload" "rm_data m = Some payload" "rm_version m = ''1.0.0''" "rm_sha m = sha payload"
    by (simp_all add: pm(1) chunk_message_def message_bytes_def)
  have po: "map_of (cl_pending c) p = Some m" using m(1) mirror_okD(2)[OF ok] by simp
  note row = mirror_okD(4)[OF ok m(2)]
  have len: "fr_offset f + length payload \<le> length ?txt"
  proof -
    have "length payload \<le> length (drop (fr_offset f) ?txt)" by (metis pm(3) length_take min.cobounded1)
    with pm(2) show ?thesis by (cases payload) auto
  qed
  obtain n where n: "n \<le> length ?txt" "stream_bytes (fr_stream f) st = take n ?txt" "n = fr_offset f \<or> n = fr_offset f + length payload"
    using row po by (auto simp: row_ok_def)
  have joined: "take (fr_offset f) ?txt @ payload = take (fr_offset f + length payload) ?txt"
    by (metis pm(3) take_add)
  obtain y st' where acc: "accept_chunk sha uuid now m st = (y, st')" by fastforce
  have both: "mirror_ok sha uuid_of content c st' \<and>
      (\<forall>a. y = Inr a \<longrightarrow> ack_valid m (Some a) \<and> stream_bytes (fr_stream f) st' = take (fr_offset f + length payload) ?txt)"
    using mirror_okD(1)[OF ok] acc
  proof (cases rule: accept_outcomes)
    case (refused e)
    with ok show ?thesis by simp
  next
    case (again pl)
    have pl: "pl = payload" using check_message_payload[OF again(1)] by simp
    have "length payload \<le> length (drop (fr_offset f) (take n ?txt))"
      using again(4) n(2) by (metis pl mf(1,2) nat_int length_take min.cobounded1)
    then have "n = fr_offset f + length payload" using n pm(2) by (cases payload) auto
    moreover have "ack_valid m (Some (relay_answer m payload (sha payload) True))" by (simp add: ack_valid_def relay_answer_def)
    ultimately show ?thesis using again ok n(2) pl by simp
  next
    case (appended pl)
    have pl: "pl = payload" using check_message_payload[OF appended(1)] by simp
    have n': "n = fr_offset f" using appended(4) n(1,2) by simp
    have bytes: "stream_bytes (fr_stream f) st' = take (fr_offset f + length payload) ?txt"
      using appended(3) n(2) joined by (simp add: stream_bytes_insert pl n')
    have chunk: "archived_chunk st' m"
      using appended(3) by (simp add: archived_chunk_def chunks_of_insert pl)
    have others: "chunks_of s st' = chunks_of s st" "stream_bytes s st' = stream_bytes s st" "find (\<lambda>r. sr_stream r = s) (rs_streams st') = find (\<lambda>r. sr_stream r = s) (rs_streams st)"
      if "s \<noteq> fr_stream f" for s
      using that appended(3) by (simp_all add: stream_bytes_insert find_stream_insert chunks_of_insert)
    have mine: "sr_machine r = cl_machine c \<and> sr_filename r = p"
      if "find (\<lambda>r. sr_stream r = fr_stream f) (rs_streams st') = Some r" for r
      using that row appended(3) by (auto simp: find_stream_insert row_ok_def split: option.splits)
    have rows: "row_ok uuid_of content c st' q g" if g: "cl_files c q = Some g" for q g
    proof (cases "q = p")
      case True
      with g m(2) have "g = f" by simp
      with True row mine bytes po len chunk show ?thesis
        by (auto simp: row_ok_def intro!: exI[of _ "fr_offset f + length payload"])
    next
      case False
      then have ne: "fr_stream g \<noteq> fr_stream f" using mirror_okD(5)[OF ok g m(2)] by simp
      have "archived_chunk st' k \<longleftrightarrow> archived_chunk st k" if k: "map_of (cl_pending c) q = Some k" for k
      proof -
        have "pending_ok sha content c q k" using mirror_okD(3)[OF ok] map_of_SomeD[OF k] by blast
        then have "rm_stream k = fr_stream g" using g by (auto simp: pending_ok_def chunk_message_def)
        with others(1)[OF ne] show ?thesis by (simp add: archived_chunk_def)
      qed
      with others[OF ne] mirror_okD(4)[OF ok g] show ?thesis by (auto simp: row_ok_def split: option.splits)
    qed
    have fresh: "find (\<lambda>r. sr_stream r = uuid_of k) (rs_streams st') = None" if "cl_fresh c \<le> k" for k
    proof -
      have "uuid_of k \<noteq> fr_stream f" using row that inj by (auto simp: row_ok_def inj_eq)
      with others mirror_okD(6)[OF ok that] show ?thesis by simp
    qed
    have "archive_real content st'"
      unfolding archive_real_def
    proof (intro allI impI)
      fix s r assume r: "find (\<lambda>r. sr_stream r = s) (rs_streams st') = Some r"
      show "\<exists>i. prefix (stream_bytes s st') (content (sr_filename r) i)"
      proof (cases "s = fr_stream f")
        case True
        with r mine bytes show ?thesis by (auto intro!: exI[of _ "fr_identity f"] simp: take_is_prefix)
      next
        case False
        with r others[OF False] mirror_okD(7)[OF ok] show ?thesis by (simp add: archive_real_def)
      qed
    qed
    then have "mirror_ok sha uuid_of content c st'"
      unfolding mirror_ok_def using appended(5) mirror_okD(2,3,5)[OF ok] rows fresh by blast
    moreover have "ack_valid m (Some (relay_answer m payload (sha payload) False))" by (simp add: ack_valid_def relay_answer_def)
    ultimately show ?thesis using appended(2) bytes pl by simp
  qed
  have cases: "st1 = st \<and> (\<exists>e. x = Inl e) \<or> st1 = st' \<and> (\<forall>a. x = Inr a \<longrightarrow> (\<exists>b. y = Inr b \<and> a = Some b))"
    using post acc by (auto simp: post_chunk_def Let_def split: if_splits sum.splits prod.splits)
  show "mirror_ok sha uuid_of content c st1" using cases both ok by auto
  show "x = Inr a \<Longrightarrow> ack_valid m a \<and> stream_bytes (fr_stream f) st1 =
      take (fr_offset f + length (message_bytes m)) ?txt"
    using cases both by auto
qed

lemma checkpoint_mirror_ok:
  assumes ok: "mirror_ok sha uuid_of content c st" and m: "(p, m) \<in> set (cl_pending c)" "cl_files c p = Some f"
    and b: "stream_bytes (fr_stream f) st = take (fr_offset f + length (message_bytes m)) (content p (fr_identity f))"
  shows "mirror_ok sha uuid_of content (checkpoint p m c) st"
proof -
  let ?txt = "content p (fr_identity f)"
  let ?f = "f\<lparr>fr_offset := fr_offset f + length (message_bytes m)\<rparr>"
  let ?c = "checkpoint p m c"
  obtain payload where pm: "m = chunk_message sha (cl_machine c) p f payload" "payload \<noteq> []"
    "payload = take (length payload) (drop (fr_offset f) ?txt)"
    using mirror_okD(3)[OF ok m(1)] m(2) by (auto simp: pending_ok_def)
  have mb: "message_bytes m = payload" "rm_stream m = fr_stream f" "rm_offset m = int (fr_offset f)"
    by (simp_all add: pm(1) chunk_message_def message_bytes_def)
  have c': "?c = c\<lparr>cl_files := (cl_files c)(p \<mapsto> ?f), cl_pending := filter (\<lambda>e. fst e \<noteq> p) (cl_pending c)\<rparr>"
    by (simp add: checkpoint_def m(2) mb)
  note row = mirror_okD(4)[OF ok m(2)]
  have "length payload \<le> length (drop (fr_offset f) ?txt)" by (metis pm(3) length_take min.cobounded1)
  with pm(2) have len: "fr_offset f + length payload \<le> length ?txt" by (cases payload) auto
  have rows: "row_ok uuid_of content ?c st q g" if g: "cl_files ?c q = Some g" for q g
  proof (cases "q = p")
    case True
    with g have "g = ?f" by (simp add: c')
    with True row b len show ?thesis
      by (auto simp: row_ok_def c' map_of_forget mb intro!: exI[of _ "fr_offset f + length payload"])
  next
    case False
    with g have "cl_files c q = Some g" by (simp add: c')
    from mirror_okD(4)[OF ok this] False show ?thesis by (simp add: row_ok_def c' map_of_forget)
  qed
  have pend: "pending_ok sha content ?c q k" if k: "(q, k) \<in> set (cl_pending ?c)" for q k
  proof -
    from k have "(q, k) \<in> set (cl_pending c)" "q \<noteq> p" by (auto simp: c')
    with mirror_okD(3)[OF ok this(1)] show ?thesis by (simp add: pending_ok_def c')
  qed
  have streams: "fr_stream g \<noteq> fr_stream h" if "cl_files ?c q = Some g" "cl_files ?c r = Some h" "q \<noteq> r" for q r g h
    using that mirror_okD(5)[OF ok] m(2) by (auto simp: c' split: if_splits)
  have "distinct (map fst (cl_pending ?c))" using mirror_okD(2)[OF ok] by (simp add: c' distinct_map_filter)
  moreover have "cl_fresh ?c = cl_fresh c" by (simp add: c')
  ultimately show ?thesis
    unfolding mirror_ok_def using mirror_okD(1,6,7)[OF ok] rows pend streams by metis
qed

subsection \<open>Deliveries keep the mirror\<close>

lemma deliver_pending_mirror:
  assumes inj: "inj uuid_of" and ok: "mirror_ok sha uuid_of content c st" and m: "(p, m) \<in> set (cl_pending c)"
    and d: "deliver_pending (post_chunk sha uuid now) p m c (st, faults) = (x, c1, st1, faults1)"
  shows "mirror_ok sha uuid_of content c1 st1"
    "x = Inr u \<Longrightarrow> cl_pending c1 = filter (\<lambda>e. fst e \<noteq> p) (cl_pending c)" "cl_machine c1 = cl_machine c"
proof -
  obtain f where f: "cl_files c p = Some f" using mirror_okD(3)[OF ok m] by (auto simp: pending_ok_def)
  obtain y st' fl' where post: "post_chunk sha uuid now m (st, faults) = (y, st', fl')" by (metis prod_cases3)
  note k = post_mirror_ok[OF inj ok m f post]
  have "mirror_ok sha uuid_of content c1 st1 \<and> (x = Inr u \<longrightarrow> cl_pending c1 = filter (\<lambda>e. fst e \<noteq> p) (cl_pending c)) \<and>
      cl_machine c1 = cl_machine c"
  proof (cases y)
    case (Inl e)
    with d post k(1) show ?thesis by (auto simp: deliver_pending_def)
  next
    case (Inr a)
    note a = k(2)[OF Inr]
    have "mirror_ok sha uuid_of content (checkpoint p m c) st'"
      by (rule checkpoint_mirror_ok[OF k(1) m f]) (use a in simp)
    with d post Inr a show ?thesis by (auto simp: deliver_pending_def checkpoint_def)
  qed
  then show "mirror_ok sha uuid_of content c1 st1"
    "x = Inr u \<Longrightarrow> cl_pending c1 = filter (\<lambda>e. fst e \<noteq> p) (cl_pending c)" "cl_machine c1 = cl_machine c" by auto
qed

lemma deliver_all_mirror:
  assumes "inj uuid_of" "mirror_ok sha uuid_of content c st" "set ms \<subseteq> set (cl_pending c)" "distinct (map fst ms)"
    "deliver_all (post_chunk sha uuid now) ms c (st, faults) = (x, c1, st1, faults1)"
  shows "mirror_ok sha uuid_of content c1 st1 \<and> cl_machine c1 = cl_machine c \<and>
    (\<forall>n. x = Inr n \<longrightarrow> cl_pending c1 = filter (\<lambda>e. fst e \<notin> fst ` set ms) (cl_pending c))"
  using assms(2-5)
proof (induction ms arbitrary: c st faults x c1 st1 faults1)
  case (Cons pm ms)
  obtain p m where pm: "pm = (p, m)" by force
  obtain y c' st' fl' where d: "deliver_pending (post_chunk sha uuid now) p m c (st, faults) = (y, c', st', fl')"
    by (metis prod_cases4)
  have mem: "(p, m) \<in> set (cl_pending c)" using Cons.prems(2) by (simp add: pm)
  note k = deliver_pending_mirror[OF assms(1) Cons.prems(1) mem d]
  show ?case
  proof (cases y)
    case (Inl e)
    with Cons.prems(4) d k show ?thesis by (auto simp: pm)
  next
    case (Inr u)
    note pend = k(2)[OF Inr]
    obtain z c2 st2 fl2 where r: "deliver_all (post_chunk sha uuid now) ms c' (st', fl') = (z, c2, st2, fl2)"
      by (metis prod_cases4)
    have "set ms \<subseteq> set (cl_pending c')" using Cons.prems(2,3) by (auto simp: pend pm rev_image_eqI)
    moreover have "distinct (map fst ms)" using Cons.prems(3) by (simp add: pm)
    ultimately have ih: "mirror_ok sha uuid_of content c2 st2 \<and> cl_machine c2 = cl_machine c' \<and>
        (\<forall>n. z = Inr n \<longrightarrow> cl_pending c2 = filter (\<lambda>e. fst e \<notin> fst ` set ms) (cl_pending c'))"
      using Cons.IH[OF k(1)] r by blast
    have "x = (case z of Inl e \<Rightarrow> Inl e | Inr n \<Rightarrow> Inr (Suc n))" "c1 = c2" "st1 = st2"
      using Cons.prems(4) d r Inr by (auto simp: pm split: sum.splits)
    with ih k(3) pend show ?thesis by (auto simp: pm filter_filter conj_commute split: sum.splits)
  qed
qed simp

lemma deliver_everything:
  assumes "inj uuid_of" "mirror_ok sha uuid_of content c st"
    "deliver_all (post_chunk sha uuid now) (sort_key fst (cl_pending c)) c (st, faults) = (x, c1, st1, faults1)"
  shows "mirror_ok sha uuid_of content c1 st1" "cl_machine c1 = cl_machine c" "x = Inr n \<Longrightarrow> cl_pending c1 = []"
proof -
  have "distinct (map fst (sort_key fst (cl_pending c)))"
    using mirror_okD(2)[OF assms(2)] by (metis distinct_map distinct_sort set_sort)
  from deliver_all_mirror[OF assms(1,2) _ this assms(3)]
  show "mirror_ok sha uuid_of content c1 st1" "cl_machine c1 = cl_machine c" "x = Inr n \<Longrightarrow> cl_pending c1 = []"
    by (auto simp: filter_empty_conv)
qed

subsection \<open>Following the files keeps the mirror\<close>

lemma next_chunk_props:
  "next_chunk off text = take (length (next_chunk off text)) (drop off text)"
  "length (next_chunk off text) \<le> chunk_bytes"
  "next_chunk off text = [] \<longleftrightarrow> length text \<le> off"
proof -
  define q where "q = take chunk_bytes (drop off text)"
  have cut: "rev (dropWhile P (rev q)) = take (length (rev (dropWhile P (rev q)))) q" for P
  proof -
    have "q = rev (dropWhile P (rev q)) @ rev (takeWhile P (rev q))"
      by (metis rev_append rev_rev_ident takeWhile_dropWhile_id)
    then show ?thesis by (metis append_eq_conv_conj)
  qed
  have n: "next_chunk off text = take (length (next_chunk off text)) q"
  proof (cases "CHR 0x0A \<in> set q")
    case True
    then have e: "next_chunk off text = rev (dropWhile (\<lambda>c. c \<noteq> CHR 0x0A) (rev q))"
      by (simp add: next_chunk_def q_def[symmetric] Let_def)
    show ?thesis unfolding e by (rule cut)
  next
    case False
    then show ?thesis by (simp add: next_chunk_def q_def[symmetric] Let_def)
  qed
  have le: "length (next_chunk off text) \<le> length q" by (metis n length_take min.cobounded1)
  then show "length (next_chunk off text) \<le> chunk_bytes" by (simp add: q_def)
  have "take (length (next_chunk off text)) q = take (length (next_chunk off text)) (drop off text)"
    using le by (simp add: q_def min_absorb1)
  with n show "next_chunk off text = take (length (next_chunk off text)) (drop off text)" by simp
  have "next_chunk off text = [] \<longleftrightarrow> q = []" by (auto simp: next_chunk_def q_def[symmetric] Let_def)
  then show "next_chunk off text = [] \<longleftrightarrow> length text \<le> off" by (simp add: q_def chunk_bytes_def)
qed

lemma take_up_mirror:
  assumes inj: "inj uuid_of" and ok: "mirror_ok sha uuid_of content c st" and none: "cl_pending c = []"
    and t: "take_up uuid_of p i (content p i) c = (f, lead, c1)"
  shows "mirror_ok sha uuid_of content c1 st" "cl_files c1 p = Some f" "fr_identity f = i" "cl_pending c1 = []"
    "cl_machine c1 = cl_machine c" "lead = fr_prefix f"
proof -
  let ?lead = "take (case cl_files c p of Some f \<Rightarrow> length (fr_prefix f) | None \<Rightarrow> 32) (content p i)"
  let ?fresh = "\<lparr>fr_stream = uuid_of (cl_fresh c), fr_identity = i, fr_offset = 0, fr_prefix = ?lead\<rparr>"
  let ?c = "c\<lparr>cl_files := (cl_files c)(p \<mapsto> ?fresh), cl_fresh := Suc (cl_fresh c)\<rparr>"
  have "f = ?fresh \<and> c1 = ?c \<and> lead = ?lead \<or>
      cl_files c p = Some f \<and> c1 = c \<and> fr_identity f = i \<and> lead = fr_prefix f"
    using t by (auto simp: take_up_def Let_def split: option.splits if_splits)
  then show "mirror_ok sha uuid_of content c1 st" "cl_files c1 p = Some f" "fr_identity f = i" "cl_pending c1 = []"
    "cl_machine c1 = cl_machine c" "lead = fr_prefix f"
  proof (atomize (full), elim disjE conjE, goal_cases)
    case 1
    have free: "find (\<lambda>r. sr_stream r = uuid_of (cl_fresh c)) (rs_streams st) = None" using mirror_okD(6)[OF ok] by simp
    have empty: "stream_bytes (uuid_of (cl_fresh c)) st = []" using no_stream_no_bytes[OF mirror_okD(1)[OF ok] free] .
    have rows: "row_ok uuid_of content ?c st q g" if g: "cl_files ?c q = Some g" for q g
    proof (cases "q = p")
      case True
      with g have "g = ?fresh" by simp
      with True free empty none show ?thesis by (auto simp: row_ok_def take_is_prefix)
    next
      case False
      with g have "cl_files c q = Some g" by simp
      from mirror_okD(4)[OF ok this] show ?thesis by (auto simp: row_ok_def none less_Suc_eq)
    qed
    have old: "fr_stream g \<noteq> uuid_of (cl_fresh c)" if "cl_files c q = Some g" for q g
      using mirror_okD(4)[OF ok that] inj by (auto simp: row_ok_def inj_eq)
    have streams: "fr_stream g \<noteq> fr_stream h" if "cl_files ?c q = Some g" "cl_files ?c r = Some h" "q \<noteq> r" for q r g h
      using that mirror_okD(5)[OF ok] old by (auto split: if_splits) (metis old)+
    have "mirror_ok sha uuid_of content ?c st"
      unfolding mirror_ok_def using mirror_okD(1,6,7)[OF ok] none rows streams by auto
    with 1 none show ?case by simp
  next
    case 2
    with ok none show ?case by simp
  qed
qed

lemma reserve_mirror:
  assumes ok: "mirror_ok sha uuid_of content c st" and none: "cl_pending c = []" and f: "cl_files c p = Some f"
    and pay: "payload = next_chunk (fr_offset f) (content p (fr_identity f))" "payload \<noteq> []"
    and m: "m = chunk_message sha (cl_machine c) p f payload" and r: "reserve p m (fr_prefix f) c = x"
  shows "\<exists>c2. x = Inr c2 \<and> mirror_ok sha uuid_of content c2 st \<and> cl_pending c2 = [(p, m)] \<and> cl_machine c2 = cl_machine c \<and>
    cl_fresh c2 = cl_fresh c \<and>
    (\<exists>lead. cl_files c2 = (cl_files c)(p \<mapsto> f\<lparr>fr_prefix := lead\<rparr>))"
proof -
  let ?txt = "content p (fr_identity f)"
  let ?lead = "if fr_prefix f = [] \<and> fr_offset f = 0 then take 32 payload else fr_prefix f"
  let ?f = "f\<lparr>fr_prefix := ?lead\<rparr>"
  let ?c = "c\<lparr>cl_pending := [(p, m)], cl_files := (cl_files c)(p \<mapsto> ?f)\<rparr>"
  have mf: "message_bytes m = payload" "rm_offset m = int (fr_offset f)"
    by (simp_all add: m chunk_message_def message_bytes_def)
  have same: "f\<lparr>fr_prefix := fr_prefix f\<rparr> = f" by simp
  have x: "x = Inr ?c"
    using r none f by (auto simp: reserve_def mf same fun_upd_idem)
  note np = next_chunk_props[of "fr_offset f" ?txt, folded pay(1)]
  note row = mirror_okD(4)[OF ok f]
  have lead: "prefix ?lead ?txt"
  proof (cases "fr_prefix f = [] \<and> fr_offset f = 0")
    case True
    then have "payload = take (length payload) ?txt" using np(1) by simp
    then have "prefix payload ?txt" by (metis take_is_prefix)
    with True show ?thesis by (simp add: prefix_order.order_trans[OF take_is_prefix])
  next
    case False
    with row show ?thesis by (auto simp: row_ok_def)
  qed
  have rows: "row_ok uuid_of content ?c st q g" if g: "cl_files ?c q = Some g" for q g
  proof (cases "q = p")
    case True
    with g have "g = ?f" by simp
    with True row lead none show ?thesis by (auto simp: row_ok_def)
  next
    case False
    with g have "cl_files c q = Some g" by simp
    from mirror_okD(4)[OF ok this] False show ?thesis by (simp add: row_ok_def none)
  qed
  have pend: "pending_ok sha content ?c p m"
    using np(1,2) pay(2) by (auto simp: pending_ok_def m chunk_message_def)
  have streams: "fr_stream g \<noteq> fr_stream h" if "cl_files ?c q = Some g" "cl_files ?c r = Some h" "q \<noteq> r" for q r g h
    using that mirror_okD(5)[OF ok] f by (auto split: if_splits)
  have "mirror_ok sha uuid_of content ?c st"
    unfolding mirror_ok_def using mirror_okD(1,6,7)[OF ok] rows pend streams by auto
  then show ?thesis unfolding x by (intro exI[of _ ?c] conjI exI[of _ ?lead]) simp_all
qed

lemma follow_file_mirror:
  assumes inj: "inj uuid_of" and ok: "mirror_ok sha uuid_of content c st" and none: "cl_pending c = []"
    and d: "follow_file sha uuid_of (post_chunk sha uuid now) p i (content p i) c (st, faults) = (x, c1, st1, faults1)"
  shows "mirror_ok sha uuid_of content c1 st1 \<and> cl_machine c1 = cl_machine c \<and>
    (\<forall>n. x = Inr n \<longrightarrow> cl_pending c1 = []) \<and> (\<forall>q. q \<noteq> p \<longrightarrow> cl_files c1 q = cl_files c q) \<and>
    (x = Inr 0 \<longrightarrow> (\<exists>f. cl_files c1 p = Some f \<and> fr_identity f = i \<and> fr_offset f = length (content p i)))"
proof -
  obtain f lead c' where t: "take_up uuid_of p i (content p i) c = (f, lead, c')" by (metis prod_cases3)
  note u = take_up_mirror[OF inj ok none t]
  have frame: "cl_files c' q = cl_files c q" if "q \<noteq> p" for q
    using t that by (auto simp: take_up_def Let_def split: option.splits if_splits)
  define payload where "payload = next_chunk (fr_offset f) (content p (fr_identity f))"
  show ?thesis
  proof (cases "payload = []")
    case True
    then have "length (content p i) \<le> fr_offset f" using next_chunk_props(3) u(3) by (simp add: payload_def)
    moreover have "fr_offset f \<le> length (content p i)" using mirror_okD(4)[OF u(1,2)] u(3) by (simp add: row_ok_def)
    moreover have "x = Inr 0" "c1 = c'" "st1 = st"
      using d True u(3) by (simp_all add: follow_file_def t payload_def)
    ultimately show ?thesis using u frame by auto
  next
    case False
    define m where "m = chunk_message sha (cl_machine c') p f payload"
    obtain c2 l where c2: "reserve p m (fr_prefix f) c' = Inr c2" "mirror_ok sha uuid_of content c2 st" "cl_pending c2 = [(p, m)]"
      "cl_machine c2 = cl_machine c'" "cl_files c2 = (cl_files c')(p \<mapsto> f\<lparr>fr_prefix := l\<rparr>)"
      using reserve_mirror[OF u(1,4,2) payload_def False m_def refl] by blast
    obtain y c3 st3 fl3 where dp: "deliver_pending (post_chunk sha uuid now) p m c2 (st, faults) = (y, c3, st3, fl3)"
      by (metis prod_cases4)
    have mem: "(p, m) \<in> set (cl_pending c2)" by (simp add: c2(3))
    note k = deliver_pending_mirror[OF inj c2(2) mem dp]
    have r: "x = (case y of Inl e \<Rightarrow> Inl e | Inr _ \<Rightarrow> Inr 1)" "c1 = c3" "st1 = st3"
      using d False u(3,5,6) c2(1) dp by (auto simp: follow_file_def t payload_def m_def split: sum.splits)
    have "cl_files c3 q = cl_files c2 q" if "q \<noteq> p" for q
      using dp that by (auto simp: deliver_pending_def checkpoint_def split: prod.splits sum.splits if_splits)
    then have "cl_files c1 q = cl_files c q" if "q \<noteq> p" for q using that frame by (simp add: r(2) c2(5))
    moreover have "cl_pending c3 = []" if "y = Inr u" for u using k(2)[OF that] by (simp add: c2(3))
    ultimately show ?thesis using k r u(5) c2(4) by (auto split: sum.splits)
  qed
qed

text \<open>After a list of files was followed with nothing to deliver, each of them is at its end.\<close>

definition followed :: "(string \<times> string \<times> bytes) list \<Rightarrow> collector \<Rightarrow> bool" where
  "followed es c \<longleftrightarrow>
     (\<forall>(p, i, text) \<in> set es. \<exists>f. cl_files c p = Some f \<and> fr_identity f = i \<and> fr_offset f = length text)"

lemma follow_files_mirror:
  assumes "inj uuid_of" "mirror_ok sha uuid_of content c st" "cl_pending c = []" "\<forall>(p, i, text) \<in> set es. text = content p i"
    "distinct (map fst es)"
    "follow_files sha uuid_of (post_chunk sha uuid now) es c (st, faults) = (x, c1, st1, faults1)"
  shows "mirror_ok sha uuid_of content c1 st1 \<and> cl_machine c1 = cl_machine c \<and> (\<forall>n. x = Inr n \<longrightarrow> cl_pending c1 = []) \<and>
    (\<forall>q. q \<notin> fst ` set es \<longrightarrow> cl_files c1 q = cl_files c q) \<and> (x = Inr 0 \<longrightarrow> followed es c1)"
  using assms(2-6)
proof (induction es arbitrary: c st faults x c1 st1 faults1)
  case Nil
  then show ?case by (simp add: followed_def)
next
  case (Cons e es)
  obtain p i where e: "e = (p, i, content p i)" using Cons.prems(3) by (cases e) auto
  obtain y c' st' fl' where d: "follow_file sha uuid_of (post_chunk sha uuid now) p i (content p i) c (st, faults) = (y, c', st', fl')"
    by (metis prod_cases4)
  note k = follow_file_mirror[OF assms(1) Cons.prems(1,2) d]
  show ?case
  proof (cases y)
    case (Inl ex)
    with Cons.prems(5) d k show ?thesis by (auto simp: e)
  next
    case (Inr n)
    obtain z c2 st2 fl2 where r: "follow_files sha uuid_of (post_chunk sha uuid now) es c' (st', fl') = (z, c2, st2, fl2)"
      by (metis prod_cases4)
    have ih: "mirror_ok sha uuid_of content c2 st2 \<and> cl_machine c2 = cl_machine c' \<and> (\<forall>n. z = Inr n \<longrightarrow> cl_pending c2 = []) \<and>
        (\<forall>q. q \<notin> fst ` set es \<longrightarrow> cl_files c2 q = cl_files c' q) \<and> (z = Inr 0 \<longrightarrow> followed es c2)"
      by (rule Cons.IH[OF _ _ _ _ r]) (use k Inr Cons.prems(3,4) in auto)
    have x: "x = (case z of Inl e \<Rightarrow> Inl e | Inr k \<Rightarrow> Inr (n + k))" "c1 = c2" "st1 = st2"
      using Cons.prems(5) d r Inr by (auto simp: e split: sum.splits)
    have "followed (e # es) c1" if "x = Inr 0"
    proof -
      from that x have "z = Inr 0" "n = 0" by (auto split: sum.splits)
      moreover have "p \<notin> fst ` set es" using Cons.prems(4) by (simp add: e)
      ultimately show ?thesis using ih k Inr x(2) by (auto simp: followed_def e)
    qed
    with ih k x show ?thesis by (auto simp: e split: sum.splits)
  qed
qed

lemma relay_poll_mirror:
  assumes "inj uuid_of" "mirror_ok sha uuid_of content c st" "\<forall>(p, i, text) \<in> set es. text = content p i" "distinct (map fst es)"
    "relay_poll sha uuid_of (post_chunk sha uuid now) es c (st, faults) = (x, c1, st1, faults1)"
  shows "mirror_ok sha uuid_of content c1 st1" "cl_machine c1 = cl_machine c"
    "x = Inr n \<Longrightarrow> cl_pending c1 = []" "x = Inr 0 \<Longrightarrow> followed (filter (\<lambda>e. log_suffix (fst e)) es) c1"
proof -
  let ?es = "sort_key fst (filter (\<lambda>e. log_suffix (fst e)) es)"
  obtain y c' st' fl' where d: "deliver_all (post_chunk sha uuid now) (sort_key fst (cl_pending c)) c (st, faults) = (y, c', st', fl')"
    by (metis prod_cases4)
  note k = deliver_everything[OF assms(1,2) d]
  have dist: "distinct (map fst ?es)"
    using assms(4) by (metis distinct_map distinct_sort set_sort distinct_map_filter)
  have "mirror_ok sha uuid_of content c1 st1 \<and> cl_machine c1 = cl_machine c \<and> (\<forall>n. x = Inr n \<longrightarrow> cl_pending c1 = []) \<and>
      (x = Inr 0 \<longrightarrow> followed (filter (\<lambda>e. log_suffix (fst e)) es) c1)"
  proof (cases y)
    case (Inl e)
    with assms(5) d k show ?thesis by (auto simp: relay_poll_def)
  next
    case (Inr n)
    obtain z c2 st2 fl2 where r: "follow_files sha uuid_of (post_chunk sha uuid now) ?es c' (st', fl') = (z, c2, st2, fl2)"
      by (metis prod_cases4)
    have "\<forall>(p, i, text) \<in> set ?es. text = content p i" using assms(3) by auto
    note f = follow_files_mirror[OF assms(1) k(1) k(3)[OF Inr] this dist r]
    have "x = (case z of Inl e \<Rightarrow> Inl e | Inr k \<Rightarrow> Inr (n + k))" "c1 = c2" "st1 = st2"
      using assms(5) d r Inr by (auto simp: relay_poll_def split: sum.splits)
    with f k(2) show ?thesis by (auto simp: followed_def split: sum.splits)
  qed
  then show "mirror_ok sha uuid_of content c1 st1" "cl_machine c1 = cl_machine c"
    "x = Inr n \<Longrightarrow> cl_pending c1 = []" "x = Inr 0 \<Longrightarrow> followed (filter (\<lambda>e. log_suffix (fst e)) es) c1" by auto
qed

subsection \<open>Runs of the mirror\<close>

definition mirror_sound :: "(bytes \<Rightarrow> string) \<Rightarrow> (nat \<Rightarrow> string) \<Rightarrow> mirror \<Rightarrow> bool" where
  "mirror_sound sha uuid_of s \<longleftrightarrow>
     distinct (mi_names s) \<and> (inj uuid_of \<longrightarrow> mirror_ok sha uuid_of (mi_content s) (mi_collector s) (mi_store s))"

lemma entries_facts:
  "\<forall>(p, i, text) \<in> set (mirror_entries s). text = mi_content s p i"
  "distinct (mi_names s) \<Longrightarrow> distinct (map fst (mirror_entries s))"
proof -
  show "\<forall>(p, i, text) \<in> set (mirror_entries s). text = mi_content s p i"
    by (auto simp: mirror_entries_def split: option.splits)
  have "map fst (concat (map (\<lambda>p. case mi_current s p of Some i \<Rightarrow> [(p, i, mi_content s p i)] | None \<Rightarrow> []) ps)) =
      filter (\<lambda>p. mi_current s p \<noteq> None) ps" for ps
    by (induction ps) (auto split: option.splits)
  then have names: "map fst (mirror_entries s) = filter (\<lambda>p. mi_current s p \<noteq> None) (mi_names s)"
    by (simp add: mirror_entries_def)
  show "distinct (mi_names s) \<Longrightarrow> distinct (map fst (mirror_entries s))" by (simp add: names)
qed

lemma grown_ok:
  assumes "mirror_ok sha uuid_of content c st" "\<And>p i. prefix (content p i) (content' p i)"
  shows "mirror_ok sha uuid_of content' c st"
proof -
  have grow: "length (content p i) \<le> length (content' p i)" "n \<le> length (content p i) \<Longrightarrow> take n (content' p i) = take n (content p i)"
    "take n (drop k (content p i)) = take n (drop k (content' p i)) \<or> length (content p i) < k + n" for p i n k
    using assms(2)[of p i] by (auto simp: prefix_def)
  have pend: "pending_ok sha content' c p m" if m: "(p, m) \<in> set (cl_pending c)" for p m
  proof -
    obtain f payload where f: "cl_files c p = Some f" "m = chunk_message sha (cl_machine c) p f payload" "payload \<noteq> []"
      "length payload \<le> chunk_bytes" "payload = take (length payload) (drop (fr_offset f) (content p (fr_identity f)))"
      using mirror_okD(3)[OF assms(1) m] by (auto simp: pending_ok_def)
    have "length payload \<le> length (drop (fr_offset f) (content p (fr_identity f)))" by (metis f(5) length_take min.cobounded1)
    with f(3) have "fr_offset f + length payload \<le> length (content p (fr_identity f))" by (cases payload) auto
    with grow(3)[where n = "length payload" and k = "fr_offset f"] f show ?thesis
      unfolding pending_ok_def by (metis not_le)
  qed
  have rows: "row_ok uuid_of content' c st p f" if f: "cl_files c p = Some f" for p f
  proof -
    let ?old = "content p (fr_identity f)" and ?new = "content' p (fr_identity f)"
    note r = mirror_okD(4)[OF assms(1) f, unfolded row_ok_def]
    obtain n where n: "n \<le> length ?old" "stream_bytes (fr_stream f) st = take n ?old"
      "case map_of (cl_pending c) p of None \<Rightarrow> n = fr_offset f
         | Some m \<Rightarrow> n = fr_offset f \<or> n = fr_offset f + length (message_bytes m) \<and> archived_chunk st m"
      using r by blast
    have "n \<le> length ?new" "stream_bytes (fr_stream f) st = take n ?new" using n(1,2) grow(1)[of p "fr_identity f"] grow(2) by simp_all
    moreover have "fr_offset f \<le> length ?new" using r grow(1)[of p "fr_identity f"] by simp
    moreover have "prefix (fr_prefix f) ?new" using r assms(2) prefix_order.order_trans by blast
    ultimately show ?thesis unfolding row_ok_def using r n(3) by blast
  qed
  have "archive_real content' st"
    using mirror_okD(7)[OF assms(1)] assms(2) unfolding archive_real_def by (meson prefix_order.order_trans)
  then show ?thesis unfolding mirror_ok_def using mirror_okD[OF assms(1)] pend rows by blast
qed

lemma mirror_step_sound: "mirror_sound sha uuid_of s \<Longrightarrow> mirror_sound sha uuid_of (mirror_step sha uuid_of uuid a s)"
proof (cases a)
  case (Grow p bs)
  assume "mirror_sound sha uuid_of s"
  with Grow show ?thesis
    by (auto simp: mirror_sound_def split: option.split intro: grown_ok)
next
  case (Poll_files now faults)
  assume s: "mirror_sound sha uuid_of s"
  obtain x c st rest where r: "relay_poll sha uuid_of (post_chunk sha uuid now) (mirror_entries s) (mi_collector s) (mi_store s, faults) = (x, c, st, rest)"
    by (metis prod_cases4)
  have "mirror_ok sha uuid_of (mi_content s) c st" if "inj uuid_of"
    using relay_poll_mirror(1)[OF that _ entries_facts(1) entries_facts(2) r] s that by (simp add: mirror_sound_def)
  with s r show ?thesis by (simp add: Poll_files poll_mirror_def mirror_sound_def)
qed (auto simp: mirror_sound_def)

interpretation mirror_runs: kept_invariant "mirror_step sha uuid_of uuid" "mirror_sound sha uuid_of" for sha uuid_of uuid
  by unfold_locales (rule mirror_step_sound)

lemma new_mirror_sound: "mirror_sound sha uuid_of (new_mirror machine)"
  by (simp add: mirror_sound_def new_mirror_def mirror_ok_def archive_real_def new_collector_def empty_relay_ok) (simp add: empty_relay_def)

lemma run_mirror_ok:
  assumes "inj uuid_of"
  shows "mirror_ok sha uuid_of (mi_content (fold (mirror_step sha uuid_of uuid) ops (new_mirror machine)))
    (mi_collector (fold (mirror_step sha uuid_of uuid) ops (new_mirror machine)))
    (mi_store (fold (mirror_step sha uuid_of uuid) ops (new_mirror machine)))"
  using mirror_runs.run_inv[OF new_mirror_sound, where as = ops] assms by (simp add: mirror_sound_def)


lemma run_names: "mi_current (fold (mirror_step sha uuid_of uuid) ops s) p \<noteq> None \<Longrightarrow> mi_current s p = None \<or> p \<in> set (mi_names s) \<Longrightarrow>
  p \<in> set (mi_names (fold (mirror_step sha uuid_of uuid) ops s))"
proof (induction ops arbitrary: s)
  case (Cons a ops)
  have "mi_current (mirror_step sha uuid_of uuid a s) p = None \<or> p \<in> set (mi_names (mirror_step sha uuid_of uuid a s))"
    using Cons.prems(2) by (cases a) (auto simp: poll_mirror_def split: option.split prod.split)
  with Cons show ?case by simp
qed auto

subsection \<open>Polls without faults\<close>

lemma contiguous_later: "contiguous n cs \<Longrightarrow> c \<in> set cs \<Longrightarrow> n \<le> ck_offset c"
  using contiguous_at by blast

lemma contiguous_one:
  "contiguous n cs \<Longrightarrow> c \<in> set cs \<Longrightarrow> d \<in> set cs \<Longrightarrow> ck_offset c = ck_offset d \<Longrightarrow> c = d"
proof (induction cs arbitrary: n)
  case (Cons e cs)
  have "x \<in> set cs \<Longrightarrow> ck_offset e < ck_offset x" for x
    using Cons.prems(1) contiguous_later[of "n + int (length (ck_payload e))" cs x] by (cases "ck_payload e") auto
  with Cons show ?case by (auto simp: set_ConsD) (metis less_irrefl)+
qed simp

text \<open>What the archive accepts: identities, a machine, names and sizes of its form.\<close>

definition acceptable :: "(nat \<Rightarrow> string) \<Rightarrow> (string \<Rightarrow> bool) \<Rightarrow> string \<Rightarrow> (string \<Rightarrow> string \<Rightarrow> bytes) \<Rightarrow> bool" where
  "acceptable uuid_of uuid machine content \<longleftrightarrow>
     (\<forall>k. uuid (uuid_of k)) \<and> str_between 1 100 machine \<and> (\<forall>p i. int (length (content p i)) \<le> 2 ^ 63 - int chunk_bytes)"

lemma post_accepted:
  assumes inj: "inj uuid_of" and ok: "mirror_ok sha uuid_of content c st" and m: "(p, m) \<in> set (cl_pending c)" "cl_files c p = Some f"
    and acc: "acceptable uuid_of uuid (cl_machine c) content" "filename_allowed p"
  shows "\<exists>a st1. post_chunk sha uuid now m (st, []) = (Inr a, st1, [])"
proof -
  let ?txt = "content p (fr_identity f)"
  obtain payload where pm: "m = chunk_message sha (cl_machine c) p f payload" "payload \<noteq> []" "length payload \<le> chunk_bytes"
    using mirror_okD(3)[OF ok m(1)] m(2) by (auto simp: pending_ok_def)
  have mf [simp]: "rm_stream m = fr_stream f" "rm_offset m = int (fr_offset f)" "rm_machine m = cl_machine c" "rm_filename m = p"
    "message_bytes m = payload" "rm_data m = Some payload" "rm_version m = ''1.0.0''" "rm_sha m = sha payload"
    by (simp_all add: pm(1) chunk_message_def message_bytes_def)
  note row = mirror_okD(4)[OF ok m(2), unfolded row_ok_def]
  have po: "map_of (cl_pending c) p = Some m" using m(1) mirror_okD(2)[OF ok] by simp
  have "uuid (fr_stream f)" using row acc(1) by (auto simp: acceptable_def)
  moreover have "int (fr_offset f) \<le> 2 ^ 63 - int chunk_bytes"
    using row acc(1) unfolding acceptable_def by (meson of_nat_mono order_trans)
  ultimately have check: "check_message sha uuid m = Inr payload"
    using acc pm(2,3) by (auto simp: check_message_def acceptable_def Suc_le_eq)
  have cont: "contiguous 0 (chunks_of (fr_stream f) st)" using mirror_okD(1)[OF ok] by (simp add: relay_ok_def)
  obtain n where n: "n \<le> length ?txt" "stream_bytes (fr_stream f) st = take n ?txt"
    "n = fr_offset f \<or> archived_chunk st m" using row po by auto
  let ?find = "find (\<lambda>c. ck_stream c = rm_stream m \<and> ck_offset c = rm_offset m) (rs_chunks st)"
  have "\<exists>a. fst (accept_chunk sha uuid now m st) = Inr a"
  proof (cases ?find)
    case (Some k)
    then have k: "k \<in> set (chunks_of (fr_stream f) st)" "ck_offset k = int (fr_offset f)"
      by (auto simp: chunks_of_def dest: find_Some_mem)
    have "archived_chunk st m"
    proof (rule ccontr)
      assume "\<not> archived_chunk st m"
      then have "length (stream_bytes (fr_stream f) st) = fr_offset f" using n by auto
      moreover have "ck_payload k \<noteq> []" using cont k(1) by (metis contiguous_nonempty)
      ultimately show False using contiguous_at[OF cont k(1)] k(2) by (simp add: stream_bytes_chunks)
    qed
    then obtain k' where k': "k' \<in> set (chunks_of (fr_stream f) st)" "ck_offset k' = int (fr_offset f)" "ck_payload k' = payload"
      "ck_digest k' = sha payload" "ck_machine k' = cl_machine c" "ck_filename k' = p" by (auto simp: archived_chunk_def)
    have "k = k'" using contiguous_one[OF cont k(1) k'(1)] k(2) k'(2) by simp
    with k' check Some show ?thesis by (simp add: accept_chunk_def)
  next
    case None
    then have "\<not> archived_chunk st m" by (auto simp: archived_chunk_def chunks_of_def find_None_iff)
    then have "length (stream_bytes (fr_stream f) st) = fr_offset f" using n by auto
    then have nx: "(case find (\<lambda>r. sr_stream r = fr_stream f) (rs_streams st) of Some r \<Rightarrow> sr_next r | None \<Rightarrow> 0) = int (fr_offset f)"
      using relay_next[OF mirror_okD(1)[OF ok], of "fr_stream f"] by simp
    have "sr_machine r = cl_machine c \<and> sr_filename r = p" if "find (\<lambda>r. sr_stream r = fr_stream f) (rs_streams st) = Some r" for r
      using row that by blast
    then have "\<not> (case find (\<lambda>r. sr_stream r = fr_stream f) (rs_streams st) of
        Some r \<Rightarrow> (sr_machine r, sr_filename r) \<noteq> (cl_machine c, p) | None \<Rightarrow> False)" by (auto split: option.splits)
    with check None nx show ?thesis by (auto simp: accept_chunk_def Let_def split: option.splits)
  qed
  then show ?thesis by (cases "accept_chunk sha uuid now m st") (auto simp: post_chunk_def)
qed

lemma deliver_pending_accepted:
  assumes inj: "inj uuid_of" and ok: "mirror_ok sha uuid_of content c st" and m: "(p, m) \<in> set (cl_pending c)"
    and acc: "acceptable uuid_of uuid (cl_machine c) content" "filename_allowed p"
  shows "\<exists>st1. deliver_pending (post_chunk sha uuid now) p m c (st, []) = (Inr (), checkpoint p m c, st1, []) \<and>
    mirror_ok sha uuid_of content (checkpoint p m c) st1"
proof -
  obtain f where f: "cl_files c p = Some f" using mirror_okD(3)[OF ok m] by (auto simp: pending_ok_def)
  obtain a st1 where post: "post_chunk sha uuid now m (st, []) = (Inr a, st1, [])" using post_accepted[OF inj ok m f acc] by blast
  note k = post_mirror_ok[OF inj ok m f post]
  have d: "deliver_pending (post_chunk sha uuid now) p m c (st, []) = (Inr (), checkpoint p m c, st1, [])"
    using post k(2)[OF refl] by (simp add: deliver_pending_def)
  from d deliver_pending_mirror(1)[OF inj ok m d] show ?thesis by blast
qed

lemma deliver_all_accepted:
  assumes "inj uuid_of" "mirror_ok sha uuid_of content c st" "set ms \<subseteq> set (cl_pending c)" "distinct (map fst ms)"
    "acceptable uuid_of uuid (cl_machine c) content" "\<forall>p \<in> fst ` set ms. filename_allowed p"
  shows "\<exists>n c1 st1. deliver_all (post_chunk sha uuid now) ms c (st, []) = (Inr n, c1, st1, [])"
  using assms(2-6)
proof (induction ms arbitrary: c st)
  case (Cons pm ms)
  obtain p m where pm: "pm = (p, m)" by force
  have mem: "(p, m) \<in> set (cl_pending c)" using Cons.prems(2) by (simp add: pm)
  obtain st1 where d: "deliver_pending (post_chunk sha uuid now) p m c (st, []) = (Inr (), checkpoint p m c, st1, [])"
    "mirror_ok sha uuid_of content (checkpoint p m c) st1"
    using deliver_pending_accepted[OF assms(1) Cons.prems(1) mem Cons.prems(4)] Cons.prems(5) by (auto simp: pm)
  have "set ms \<subseteq> set (cl_pending (checkpoint p m c))" "cl_machine (checkpoint p m c) = cl_machine c"
    using Cons.prems(2,3) by (auto simp: checkpoint_def pm rev_image_eqI)
  then obtain n c2 st2 where "deliver_all (post_chunk sha uuid now) ms (checkpoint p m c) (st1, []) = (Inr n, c2, st2, [])"
    using Cons.IH[OF d(2)] Cons.prems(3-5) by (auto simp: pm)
  with d(1) show ?case by (simp add: pm)
qed simp

text \<open>The bytes of a file its row has not passed; a row of another identity has passed none.\<close>

definition unread :: "collector \<Rightarrow> string \<times> string \<times> bytes \<Rightarrow> nat" where
  "unread c = (\<lambda>(p, i, text). case cl_files c p of
       Some f \<Rightarrow> if fr_identity f = i then length text - fr_offset f else length text
     | None \<Rightarrow> length text)"

lemma take_up_unread:
  assumes "mirror_ok sha uuid_of content c st" "take_up uuid_of p i (content p i) c = (f, lead, c1)"
  shows "length (content p i) - fr_offset f = unread c (p, i, content p i)"
proof (cases "cl_files c p")
  case None
  with assms(2) show ?thesis by (auto simp: take_up_def Let_def unread_def)
next
  case (Some g)
  show ?thesis
  proof (cases "fr_identity g = i")
    case True
    have r: "fr_offset g \<le> length (content p i)" "prefix (fr_prefix g) (content p i)"
      using mirror_okD(4)[OF assms(1) Some] True by (simp_all add: row_ok_def)
    then have "take (length (fr_prefix g)) (content p i) = fr_prefix g" by (auto simp: prefix_def)
    with True r Some assms(2) show ?thesis by (auto simp: take_up_def Let_def unread_def)
  next
    case False
    with Some assms(2) show ?thesis by (auto simp: take_up_def Let_def unread_def)
  qed
qed

lemma follow_file_accepted:
  assumes inj: "inj uuid_of" and ok: "mirror_ok sha uuid_of content c st" and none: "cl_pending c = []"
    and acc: "acceptable uuid_of uuid (cl_machine c) content" "filename_allowed p"
  shows "\<exists>n c1 st1. follow_file sha uuid_of (post_chunk sha uuid now) p i (content p i) c (st, []) = (Inr n, c1, st1, []) \<and>
    n + unread c1 (p, i, content p i) \<le> unread c (p, i, content p i)"
proof -
  obtain f lead c' where t: "take_up uuid_of p i (content p i) c = (f, lead, c')" by (metis prod_cases3)
  note u = take_up_mirror[OF inj ok none t]
  define payload where "payload = next_chunk (fr_offset f) (content p (fr_identity f))"
  note left = take_up_unread[OF ok t]
  show ?thesis
  proof (cases "payload = []")
    case True
    then have "follow_file sha uuid_of (post_chunk sha uuid now) p i (content p i) c (st, []) = (Inr 0, c', st, [])"
      using u(3) by (simp add: follow_file_def t payload_def)
    moreover have "unread c' (p, i, content p i) = unread c (p, i, content p i)" using u(2,3) left by (simp add: unread_def)
    ultimately show ?thesis by simp
  next
    case False
    define m where "m = chunk_message sha (cl_machine c') p f payload"
    obtain c2 l where c2: "reserve p m (fr_prefix f) c' = Inr c2" "mirror_ok sha uuid_of content c2 st" "cl_pending c2 = [(p, m)]"
      "cl_machine c2 = cl_machine c'" "cl_files c2 = (cl_files c')(p \<mapsto> f\<lparr>fr_prefix := l\<rparr>)"
      using reserve_mirror[OF u(1,4,2) payload_def False m_def refl] by blast
    have mem: "(p, m) \<in> set (cl_pending c2)" by (simp add: c2(3))
    obtain st1 where d: "deliver_pending (post_chunk sha uuid now) p m c2 (st, []) = (Inr (), checkpoint p m c2, st1, [])"
      using deliver_pending_accepted[OF inj c2(2) mem] acc c2(4) u(5) by auto
    have r: "follow_file sha uuid_of (post_chunk sha uuid now) p i (content p i) c (st, []) = (Inr 1, checkpoint p m c2, st1, [])"
      using False u(3,5,6) c2(1) d by (simp add: follow_file_def t payload_def m_def)
    have "fr_offset f < length (content p i)" using False next_chunk_props(3) u(3) by (auto simp: payload_def)
    moreover have "unread (checkpoint p m c2) (p, i, content p i) = length (content p i) - (fr_offset f + length payload)"
      using u(3) by (simp add: unread_def checkpoint_def c2(5) m_def chunk_message_def message_bytes_def)
    ultimately show ?thesis using r left False by (cases payload) auto
  qed
qed

lemma follow_files_accepted:
  assumes "inj uuid_of" "mirror_ok sha uuid_of content c st" "cl_pending c = []" "\<forall>(p, i, text) \<in> set es. text = content p i"
    "distinct (map fst es)" "acceptable uuid_of uuid (cl_machine c) content" "\<forall>p \<in> fst ` set es. filename_allowed p"
  shows "\<exists>n c1 st1. follow_files sha uuid_of (post_chunk sha uuid now) es c (st, []) = (Inr n, c1, st1, []) \<and>
    n + sum_list (map (unread c1) es) \<le> sum_list (map (unread c) es)"
  using assms(2-7)
proof (induction es arbitrary: c st)
  case (Cons e es)
  obtain p i where e: "e = (p, i, content p i)" using Cons.prems(3) by (cases e) auto
  obtain n c' st' where d: "follow_file sha uuid_of (post_chunk sha uuid now) p i (content p i) c (st, []) = (Inr n, c', st', [])"
    "n + unread c' (p, i, content p i) \<le> unread c (p, i, content p i)"
    using follow_file_accepted[OF assms(1) Cons.prems(1,2,5), where p = p and i = i] Cons.prems(6) e by fastforce
  note k = follow_file_mirror[OF assms(1) Cons.prems(1,2) d(1)]
  have nm: "p \<notin> fst ` set es" using Cons.prems(4) by (simp add: e)
  obtain j c2 st2 where r: "follow_files sha uuid_of (post_chunk sha uuid now) es c' (st', []) = (Inr j, c2, st2, [])"
    "j + sum_list (map (unread c2) es) \<le> sum_list (map (unread c') es)"
    using Cons.IH[of c' st'] k Cons.prems(3-6) by auto
  have ih: "cl_files c2 p = cl_files c' p"
    using follow_files_mirror[OF assms(1) _ _ _ _ r(1)] k Cons.prems(3,4) nm by auto
  have same: "map (unread c') es = map (unread c) es"
    using k nm by (intro map_cong refl) (auto simp: unread_def image_iff split: prod.splits)
  have "j + sum_list (map (unread c2) es) \<le> sum_list (map (unread c) es)" using r(2) unfolding same .
  moreover have "unread c2 (p, i, content p i) = unread c' (p, i, content p i)" using ih by (simp add: unread_def)
  ultimately show ?case using d r(1) by (simp add: e)
qed simp

text \<open>Pending messages are of log files that were shown.\<close>

definition pending_shown :: "mirror \<Rightarrow> bool" where
  "pending_shown s \<longleftrightarrow> (\<forall>p \<in> fst ` set (cl_pending (mi_collector s)). p \<in> set (mi_names s) \<and> log_suffix p)"

lemma deliver_pending_paths:
  "deliver_pending deliver p m c w = (x, c1, w1) \<Longrightarrow> set (cl_pending c1) \<subseteq> set (cl_pending c)"
  by (auto simp: deliver_pending_def checkpoint_def split: prod.splits sum.splits if_splits)

lemma deliver_all_paths:
  "deliver_all deliver ms c w = (x, c1, w1) \<Longrightarrow> set (cl_pending c1) \<subseteq> set (cl_pending c)"
proof (induction ms arbitrary: c w x c1 w1)
  case (Cons pm ms)
  obtain p m where pm: "pm = (p, m)" by force
  obtain y c' w' where d: "deliver_pending deliver p m c w = (y, c', w')" by (metis prod_cases3)
  obtain z c2 w2 where r: "deliver_all deliver ms c' w' = (z, c2, w2)" by (metis prod_cases3)
  have "c1 = c' \<or> c1 = c2" using Cons.prems d r by (auto simp: pm split: sum.splits)
  with deliver_pending_paths[OF d] Cons.IH[OF r] show ?case by auto
qed simp

lemma follow_file_paths:
  "follow_file sha uuid_of deliver p i text c w = (x, c1, w1) \<Longrightarrow> fst ` set (cl_pending c1) \<subseteq> insert p (fst ` set (cl_pending c))"
proof -
  assume f: "follow_file sha uuid_of deliver p i text c w = (x, c1, w1)"
  obtain g lead c' where t: "take_up uuid_of p i text c = (g, lead, c')" by (metis prod_cases3)
  have c': "cl_pending c' = cl_pending c" using t by (auto simp: take_up_def Let_def split: option.splits if_splits)
  have c2: "cl_pending c2 = cl_pending c' @ [(p, m)]" if "reserve p m lead c' = Inr c2" for m c2
    using that by (auto simp: reserve_def split: if_splits)
  show ?thesis
    using f by (auto simp: follow_file_def t Let_def c' image_iff dest!: c2 deliver_pending_paths split: if_splits sum.splits prod.splits)
       (metis (no_types, lifting) Un_iff c' empty_iff empty_set fst_conv insertE list.set(2) set_append subsetD)+
qed

lemma follow_files_paths:
  "follow_files sha uuid_of deliver es c w = (x, c1, w1) \<Longrightarrow> fst ` set (cl_pending c1) \<subseteq> fst ` set (cl_pending c) \<union> fst ` set es"
proof (induction es arbitrary: c w x c1 w1)
  case (Cons e es)
  obtain p i body where e: "e = (p, i, body)" by (cases e) auto
  obtain y c' w' where d: "follow_file sha uuid_of deliver p i body c w = (y, c', w')" by (metis prod_cases3)
  obtain z c2 w2 where r: "follow_files sha uuid_of deliver es c' w' = (z, c2, w2)" by (metis prod_cases3)
  have "c1 = c' \<or> c1 = c2" using Cons.prems d r by (auto simp: e split: sum.splits)
  with follow_file_paths[OF d] Cons.IH[OF r] show ?case unfolding e by simp blast
qed simp

lemma step_pending_shown: "pending_shown s \<Longrightarrow> pending_shown (mirror_step sha uuid_of uuid a s)"
proof (cases a)
  case (Poll_files now faults)
  assume s: "pending_shown s"
  let ?es = "sort_key fst (filter (\<lambda>e. log_suffix (fst e)) (mirror_entries s))"
  have es: "p \<in> set (mi_names s) \<and> log_suffix p" if "p \<in> fst ` set ?es" for p
    using that by (auto simp: mirror_entries_def split: option.splits)
  obtain x c st rest where r: "relay_poll sha uuid_of (post_chunk sha uuid now) (mirror_entries s) (mi_collector s) (mi_store s, faults) = (x, c, st, rest)"
    by (metis prod_cases4)
  obtain y c' st' fl' where d: "deliver_all (post_chunk sha uuid now) (sort_key fst (cl_pending (mi_collector s))) (mi_collector s) (mi_store s, faults) = (y, c', st', fl')"
    by (metis prod_cases4)
  obtain z c2 st2 fl2 where f: "follow_files sha uuid_of (post_chunk sha uuid now) ?es c' (st', fl') = (z, c2, st2, fl2)" by (metis prod_cases4)
  have "c = c' \<or> c = c2" using r by (cases y; cases z) (simp_all add: relay_poll_def d f)
  then have sub: "fst ` set (cl_pending c) \<subseteq> fst ` set (cl_pending (mi_collector s)) \<union> fst ` set ?es"
    using deliver_all_paths[OF d] follow_files_paths[OF f] by blast
  have e: "mirror_step sha uuid_of uuid a s = s\<lparr>mi_collector := c, mi_store := st\<rparr>" by (simp add: Poll_files poll_mirror_def r)
  have "\<forall>p \<in> fst ` set (cl_pending c). p \<in> set (mi_names s) \<and> log_suffix p"
    using sub es s[unfolded pending_shown_def] by blast
  then show ?thesis unfolding e pending_shown_def by simp
qed (auto simp: pending_shown_def split: option.split)

interpretation pending_runs: kept_invariant "mirror_step sha uuid_of uuid" pending_shown for sha uuid_of uuid
  by unfold_locales (rule step_pending_shown)

text \<open>A poll without faults answers; what is left to read shrinks by what it delivers once nothing is pending.\<close>

definition sendable :: "(nat \<Rightarrow> string) \<Rightarrow> (string \<Rightarrow> bool) \<Rightarrow> mirror \<Rightarrow> bool" where
  "sendable uuid_of uuid s \<longleftrightarrow>
     acceptable uuid_of uuid (cl_machine (mi_collector s)) (mi_content s) \<and>
     (\<forall>p \<in> set (mi_names s). log_suffix p \<longrightarrow> filename_allowed p)"

definition left_to_read :: "mirror \<Rightarrow> nat" where
  "left_to_read s = sum_list (map (unread (mi_collector s)) (sort_key fst (filter (\<lambda>e. log_suffix (fst e)) (mirror_entries s))))"

lemma poll_accepted:
  assumes inj: "inj uuid_of" and ok: "mirror_sound sha uuid_of s" "pending_shown s" "sendable uuid_of uuid s"
  shows "\<exists>n s1. poll_mirror sha uuid_of uuid now [] s = (Inr n, s1) \<and> cl_pending (mi_collector s1) = [] \<and>
    (cl_pending (mi_collector s) = [] \<longrightarrow> n + left_to_read s1 \<le> left_to_read s) \<and>
    mi_content s1 = mi_content s \<and> mi_current s1 = mi_current s \<and> mi_names s1 = mi_names s \<and> sendable uuid_of uuid s1"
proof -
  let ?c = "mi_collector s" and ?es = "sort_key fst (filter (\<lambda>e. log_suffix (fst e)) (mirror_entries s))"
  have mok: "mirror_ok sha uuid_of (mi_content s) ?c (mi_store s)" "distinct (mi_names s)"
    using ok(1) inj by (simp_all add: mirror_sound_def)
  have names: "filename_allowed p" if "p \<in> fst ` set ?es \<or> p \<in> fst ` set (cl_pending ?c)" for p
    using that ok(2,3) by (auto simp: sendable_def pending_shown_def mirror_entries_def split: option.splits)
  have dist: "distinct (map fst (sort_key fst (cl_pending ?c)))" "distinct (map fst ?es)"
    using mirror_okD(2)[OF mok(1)] entries_facts(2)[OF mok(2)] by (metis distinct_map distinct_sort set_sort distinct_map_filter)+
  have acc: "acceptable uuid_of uuid (cl_machine ?c) (mi_content s)" using ok(3) by (simp add: sendable_def)
  obtain n c1 st1 where d: "deliver_all (post_chunk sha uuid now) (sort_key fst (cl_pending ?c)) ?c (mi_store s, []) = (Inr n, c1, st1, [])"
    using deliver_all_accepted[OF inj mok(1) _ dist(1) acc, of now] names by auto
  note k = deliver_everything[OF inj mok(1) d]
  have "\<forall>(p, i, text) \<in> set ?es. text = mi_content s p i" using entries_facts(1)[of s] by auto
  then obtain j c2 st2 where f: "follow_files sha uuid_of (post_chunk sha uuid now) ?es c1 (st1, []) = (Inr j, c2, st2, [])"
    "j + sum_list (map (unread c2) ?es) \<le> sum_list (map (unread c1) ?es)"
    using follow_files_accepted[OF inj k(1) k(3)[OF refl] _ dist(2) acc[folded k(2)]] names by blast
  let ?s1 = "s\<lparr>mi_collector := c2, mi_store := st2\<rparr>"
  have p: "poll_mirror sha uuid_of uuid now [] s = (Inr (n + j), ?s1)"
    using d f(1) by (simp add: poll_mirror_def relay_poll_def)
  have r: "relay_poll sha uuid_of (post_chunk sha uuid now) (mirror_entries s) ?c (mi_store s, []) = (Inr (n + j), c2, st2, [])"
    using d f(1) by (simp add: relay_poll_def)
  note q = relay_poll_mirror[OF inj mok(1) entries_facts(1) entries_facts(2)[OF mok(2)] r]
  have e: "mirror_entries ?s1 = mirror_entries s" by (simp add: mirror_entries_def cong: option.case_cong)
  have "n + j + left_to_read ?s1 \<le> left_to_read s" if "cl_pending ?c = []"
  proof -
    from that d have "n = 0" "c1 = ?c" by simp_all
    with f(2) e show ?thesis by (simp add: left_to_read_def)
  qed
  with p q(2) q(3)[OF refl] ok(3) show ?thesis by (simp add: sendable_def)
qed

lemma polls_reach_idle:
  assumes inj: "inj uuid_of"
  shows "mirror_sound sha uuid_of s \<Longrightarrow> pending_shown s \<Longrightarrow> sendable uuid_of uuid s \<Longrightarrow> cl_pending (mi_collector s) = [] \<Longrightarrow>
    \<exists>k \<le> left_to_read s. fst (poll_mirror sha uuid_of uuid now [] (fold (mirror_step sha uuid_of uuid) (replicate k (Poll_files now [])) s)) = Inr 0"
proof (induction "left_to_read s" arbitrary: s rule: less_induct)
  case less
  obtain n s1 where p: "poll_mirror sha uuid_of uuid now [] s = (Inr n, s1)" "cl_pending (mi_collector s1) = []"
    "n + left_to_read s1 \<le> left_to_read s" "sendable uuid_of uuid s1"
    using poll_accepted[OF inj less.prems(1-3)] less.prems(4) by blast
  show ?case
  proof (cases n)
    case 0
    with p(1) show ?thesis by (intro exI[of _ 0]) simp
  next
    case (Suc j)
    have s1: "s1 = mirror_step sha uuid_of uuid (Poll_files now []) s" using p(1) by simp
    have sm: "left_to_read s1 < left_to_read s" using p(3) Suc by simp
    obtain k where k: "k \<le> left_to_read s1"
      "fst (poll_mirror sha uuid_of uuid now [] (fold (mirror_step sha uuid_of uuid) (replicate k (Poll_files now [])) s1)) = Inr 0"
      using less.hyps[OF sm] p(2,4) mirror_step_sound[OF less.prems(1)] step_pending_shown[OF less.prems(2)] unfolding s1 by blast
    then show ?thesis using sm by (intro exI[of _ "Suc k"]) (simp add: s1)
  qed
qed

lemma idle_archived:
  assumes "inj uuid_of" and "s = fold (mirror_step sha uuid_of uuid) ops (new_mirror machine)"
    and "poll_mirror sha uuid_of uuid now faults s = (Inr 0, s1)" and "mi_current s p = Some i" and "log_suffix p"
  shows "\<exists>f. cl_files (mi_collector s1) p = Some f \<and> fr_identity f = i \<and>
             stream_bytes (fr_stream f) (mi_store s1) = mi_content s p i"
proof -
  have ok: "mirror_ok sha uuid_of (mi_content s) (mi_collector s) (mi_store s)" unfolding assms(2) by (rule run_mirror_ok[OF assms(1)])
  have d: "distinct (mi_names s)"
    using mirror_runs.run_inv[OF new_mirror_sound, where as = ops] by (simp add: mirror_sound_def assms(2))
  have "p \<in> set (mi_names s)" using run_names[of sha uuid_of uuid ops "new_mirror machine" p] assms(2,4) by (simp add: new_mirror_def)
  then have e: "(p, i, mi_content s p i) \<in> set (mirror_entries s)" using assms(4) by (auto simp: mirror_entries_def intro!: bexI[of _ p])
  obtain c st rest where r: "relay_poll sha uuid_of (post_chunk sha uuid now) (mirror_entries s) (mi_collector s) (mi_store s, faults) = (Inr 0, c, st, rest)"
    and s1: "mi_collector s1 = c" "mi_store s1 = st" using assms(3) by (auto simp: poll_mirror_def split: prod.splits)
  note k = relay_poll_mirror[OF assms(1) ok entries_facts(1) entries_facts(2)[OF d] r]
  obtain f where f: "cl_files c p = Some f" "fr_identity f = i" "fr_offset f = length (mi_content s p i)"
    using k(4)[OF refl] e assms(5) unfolding followed_def by fastforce
  have "stream_bytes (fr_stream f) st = mi_content s p i"
    using mirror_okD(4)[OF k(1) f(1)] f(2,3) k(3)[OF refl] unfolding row_ok_def by auto
  with f s1 show ?thesis by blast
qed

lemma polls_files:
  "mi_content (fold (mirror_step sha uuid_of uuid) (replicate k (Poll_files now faults)) s) = mi_content s \<and>
   mi_current (fold (mirror_step sha uuid_of uuid) (replicate k (Poll_files now faults)) s) = mi_current s"
  by (induction k arbitrary: s) (auto simp: poll_mirror_def split: prod.split)

subsection \<open>The archive is the files\<close>

text \<open>
  C18: the archive holds only what the files hold. Over any polls, growth and rotation of the files, with any
  requests and answers lost, each archived stream is byte for byte the start of one file of its name, and
  the stream a file row follows is the start of that row's file, up to the row's checkpoint or, when a
  message is pending, at most past that message.
\<close>
theorem archive_is_the_files:
  assumes "inj uuid_of" and "s = fold (mirror_step sha uuid_of uuid) ops (new_mirror machine)"
  shows "(\<forall>r \<in> set (rs_streams (mi_store s)).
            \<exists>i. prefix (stream_bytes (sr_stream r) (mi_store s)) (mi_content s (sr_filename r) i)) \<and>
         (\<forall>p f. cl_files (mi_collector s) p = Some f \<longrightarrow>
            (\<exists>n \<le> length (mi_content s p (fr_identity f)).
               stream_bytes (fr_stream f) (mi_store s) = take n (mi_content s p (fr_identity f)) \<and>
               (case map_of (cl_pending (mi_collector s)) p of
                  None \<Rightarrow> n = fr_offset f
                | Some m \<Rightarrow> n = fr_offset f \<or> n = fr_offset f + length (message_bytes m))))"
proof (intro conjI allI impI)
  have ok: "mirror_ok sha uuid_of (mi_content s) (mi_collector s) (mi_store s)" unfolding assms(2) by (rule run_mirror_ok[OF assms(1)])
  have "unique_key sr_stream (rs_streams (mi_store s))" using mirror_okD(1)[OF ok] by (simp add: relay_ok_def)
  then show "\<forall>r \<in> set (rs_streams (mi_store s)).
           \<exists>i. prefix (stream_bytes (sr_stream r) (mi_store s)) (mi_content s (sr_filename r) i)"
    using mirror_okD(7)[OF ok] unfolding archive_real_def by (metis find_unique)
  fix p f assume f: "cl_files (mi_collector s) p = Some f"
  show "\<exists>n \<le> length (mi_content s p (fr_identity f)).
             stream_bytes (fr_stream f) (mi_store s) = take n (mi_content s p (fr_identity f)) \<and>
             (case map_of (cl_pending (mi_collector s)) p of
                None \<Rightarrow> n = fr_offset f
              | Some m \<Rightarrow> n = fr_offset f \<or> n = fr_offset f + length (message_bytes m))"
    using mirror_okD(4)[OF ok f] unfolding row_ok_def by (auto split: option.splits)
qed

text \<open>
  Nothing to deliver means everything is archived. When a poll answers that it delivered nothing, every
  log file then in the directory has a stream whose archive is the whole file, whatever was lost before.
\<close>
theorem idle_poll_archived_all:
  assumes "inj uuid_of" and "s = fold (mirror_step sha uuid_of uuid) ops (new_mirror machine)"
    and "poll_mirror sha uuid_of uuid now faults s = (Inr 0, s1)" and "mi_current s p = Some i" and "log_suffix p"
  shows "\<exists>f. cl_files (mi_collector s1) p = Some f \<and> fr_identity f = i \<and>
             stream_bytes (fr_stream f) (mi_store s1) = mi_content s p i"
  by (rule idle_archived[OF assms])

text \<open>
  C32: every log reaches the archive. After any polls, growth, rotation and losses, polling on without
  further loss ends with each log file in the directory archived whole, when its names, machine, identities
  and sizes are of the form the archive accepts.
\<close>
theorem logs_reach_the_archive:
  assumes "inj uuid_of" and "s = fold (mirror_step sha uuid_of uuid) ops (new_mirror machine)" and "sendable uuid_of uuid s"
  shows "\<exists>k. \<forall>p i. mi_current s p = Some i \<longrightarrow> log_suffix p \<longrightarrow>
           (\<exists>f. cl_files (mi_collector (fold (mirror_step sha uuid_of uuid) (replicate k (Poll_files now [])) s)) p = Some f \<and> fr_identity f = i \<and>
                stream_bytes (fr_stream f) (mi_store (fold (mirror_step sha uuid_of uuid) (replicate k (Poll_files now [])) s)) =
                  mi_content s p i)"
proof -
  let ?step = "mirror_step sha uuid_of uuid" and ?poll = "Poll_files now []"
  have ok: "mirror_sound sha uuid_of s" unfolding assms(2) by (rule mirror_runs.run_inv[OF new_mirror_sound])
  have sh: "pending_shown s"
    unfolding assms(2) by (rule pending_runs.run_inv) (simp add: pending_shown_def new_mirror_def new_collector_def)
  obtain s1 where s1: "s1 = ?step ?poll s" "cl_pending (mi_collector s1) = []" "sendable uuid_of uuid s1"
    using poll_accepted[OF assms(1) ok sh assms(3), of now] by auto
  obtain k where k: "fst (poll_mirror sha uuid_of uuid now [] (fold ?step (replicate k ?poll) s1)) = Inr 0"
    using polls_reach_idle[OF assms(1) mirror_step_sound[OF ok] step_pending_shown[OF sh]] s1 by blast
  define t where "t = fold ?step (replicate (Suc k) ?poll) s"
  have t: "t = fold ?step (ops @ replicate (Suc k) ?poll) (new_mirror machine)" "t = fold ?step (replicate k ?poll) s1"
    by (simp_all add: t_def assms(2) s1(1))
  obtain u where u: "poll_mirror sha uuid_of uuid now [] t = (Inr 0, u)" using k unfolding t(2) by (metis prod.collapse)
  have "fold ?step (replicate (Suc (Suc k)) ?poll) s = ?step ?poll t"
    unfolding t_def by (simp flip: replicate_append_same add: fold_append del: replicate_Suc)
  then have e: "fold ?step (replicate (Suc (Suc k)) ?poll) s = u" using u by simp
  have "mi_content t = mi_content s" "mi_current t = mi_current s" unfolding t_def using polls_files by blast+
  then have "\<exists>f. cl_files (mi_collector u) p = Some f \<and> fr_identity f = i \<and> stream_bytes (fr_stream f) (mi_store u) = mi_content s p i"
    if "mi_current s p = Some i" "log_suffix p" for p i
    using idle_archived[OF assms(1) t(1) u, of p i] that by simp
  then show ?thesis unfolding e[symmetric] by blast
qed

subsection \<open>A log that is mirrored\<close>

text \<open>A line arrives and its first answer is lost.\<close>

definition small_log :: "mirror_op list" where
  "small_log = [Show ''a.log'' ''1'', Grow ''a.log'' ''x'', Poll_files 1 [Lost_answer]]"

definition small_mirror :: mirror where
  "small_mirror = fold (mirror_step (\<lambda>b. ''h'') (\<lambda>k. replicate k CHR ''u'') (\<lambda>_. True)) small_log (new_mirror ''m'')"

lemma inj_unary: "inj (\<lambda>k. replicate k CHR ''u'')"
  by (rule injI) (metis length_replicate)

definition small_message :: relay_message where
  "small_message =
     \<lparr>rm_version = ''1.0.0'', rm_stream = [], rm_machine = ''m'', rm_filename = ''a.log'', rm_offset = 0, rm_sha = ''h'', rm_data = Some ''x''\<rparr>"

lemma small_parts:
  "next_chunk 0 ''x'' = ''x''" "next_chunk (Suc 0) ''x'' = []" "log_suffix ''a.log''" "filename_allowed ''a.log''"
  "check_message (\<lambda>b. ''h'') (\<lambda>_. True) small_message = Inr ''x''"
  by (simp_all add: next_chunk_def chunk_bytes_def log_suffix_def ends_with_def check_message_def str_between_def filename_allowed_def
      small_message_def)

definition small_row :: "nat \<Rightarrow> file_row" where
  "small_row offset = \<lparr>fr_stream = [], fr_identity = ''1'', fr_offset = offset, fr_prefix = ''x''\<rparr>"

definition small_store :: relay_store where
  "small_store = insert_chunk small_message ''x'' ''h'' 1 empty_relay"

lemma small_chunk:
  "chunk_message (\<lambda>b. ''h'') ''m'' ''a.log'' \<lparr>fr_stream = [], fr_identity = ''1'', fr_offset = 0, fr_prefix = ''x''\<rparr> ''x'' = small_message"
  by (simp add: chunk_message_def small_message_def)

lemma small_fields:
  "rm_offset small_message = 0" "message_bytes small_message = ''x''" "rm_stream small_message = []"
  "rm_version small_message = ''1.0.0''" "rm_sha small_message = ''h''" "rm_machine small_message = ''m''" "rm_filename small_message = ''a.log''"
  by (simp_all add: small_message_def message_bytes_def)

lemma small_accept: "accept_chunk (\<lambda>b. ''h'') (\<lambda>_. True) 1 small_message empty_relay = (Inr (relay_answer small_message ''x'' ''h'' False), small_store)"
  by (simp add: accept_chunk_def small_parts empty_relay_def small_store_def small_fields)

lemma small_again: "accept_chunk (\<lambda>b. ''h'') (\<lambda>_. True) now small_message small_store = (Inr (relay_answer small_message ''x'' ''h'' True), small_store)"
  by (simp add: accept_chunk_def small_parts small_store_def insert_chunk_def empty_relay_def small_message_def[symmetric] small_fields)

lemma small_mirror_after:
  "small_mirror =
     \<lparr>mi_collector = \<lparr>cl_machine = ''m'', cl_files = [''a.log'' \<mapsto> small_row 0], cl_pending = [(''a.log'', small_message)], cl_fresh = 1\<rparr>,
      mi_store = small_store, mi_content = (\<lambda>p i. [])(''a.log'' := (\<lambda>i. [])(''1'' := ''x'')), mi_current = [''a.log'' \<mapsto> ''1''],
      mi_names = [''a.log'']\<rparr>"
  unfolding small_mirror_def small_log_def
  by (simp add: new_mirror_def new_collector_def poll_mirror_def relay_poll_def mirror_entries_def small_parts follow_file_def take_up_def
      small_chunk reserve_def has_key_def small_fields deliver_pending_def post_chunk_def small_accept small_row_def Let_def)

definition small_end :: mirror where
  "small_end = small_mirror\<lparr>mi_collector := \<lparr>cl_machine = ''m'', cl_files = [''a.log'' \<mapsto> small_row 1], cl_pending = [], cl_fresh = 1\<rparr>\<rparr>"

lemma small_polled: "poll_mirror (\<lambda>b. ''h'') (\<lambda>k. replicate k CHR ''u'') (\<lambda>_. True) now [] small_mirror = (Inr 1, small_end)"
  by (simp add: small_mirror_after small_end_def poll_mirror_def relay_poll_def mirror_entries_def small_parts deliver_pending_def post_chunk_def
      small_again ack_valid_def relay_answer_def small_fields small_row_def checkpoint_def follow_file_def take_up_def Let_def)

lemma small_idle: "poll_mirror (\<lambda>b. ''h'') (\<lambda>k. replicate k CHR ''u'') (\<lambda>_. True) now [] small_end = (Inr 0, small_end)"
  by (simp add: small_mirror_after small_end_def poll_mirror_def relay_poll_def mirror_entries_def small_parts small_row_def follow_file_def
      take_up_def Let_def)

lemma small_end_run:
  "small_end = fold (mirror_step (\<lambda>b. ''h'') (\<lambda>k. replicate k CHR ''u'') (\<lambda>_. True)) (small_log @ [Poll_files 2 []]) (new_mirror ''m'')"
  by (simp add: small_polled flip: small_mirror_def)

lemma small_sendable: "sendable (\<lambda>k. replicate k CHR ''u'') (\<lambda>_. True) small_mirror"
  by (simp add: sendable_def acceptable_def small_mirror_after small_parts str_between_def chunk_bytes_def)

theorem archive_is_the_files_witness:
  "(\<exists>n \<le> 1. stream_bytes [] (mi_store small_mirror) = take n ''x'' \<and> (n = 0 \<or> n = 1)) \<and> (\<exists>i. prefix ''x'' (mi_content small_mirror ''a.log'' i))"
proof -
  note a = archive_is_the_files[OF inj_unary small_mirror_def]
  have "cl_files (mi_collector small_mirror) ''a.log'' = Some (small_row 0)"
    "map_of (cl_pending (mi_collector small_mirror)) ''a.log'' = Some small_message"
    "mi_content small_mirror ''a.log'' ''1'' = ''x''" by (simp_all add: small_mirror_after)
  with conjunct2[OF a] have one: "\<exists>n \<le> 1. stream_bytes [] (mi_store small_mirror) = take n ''x'' \<and> (n = 0 \<or> n = 1)"
    by (fastforce simp: small_row_def small_fields)
  have rows: "rs_streams (mi_store small_mirror) = [\<lparr>sr_stream = [], sr_machine = ''m'', sr_filename = ''a.log'', sr_next = 1\<rparr>]"
    "stream_bytes [] (mi_store small_mirror) = ''x''"
    by (simp_all add: small_mirror_after small_store_def insert_chunk_def empty_relay_def small_fields upsert_def has_key_def stream_bytes_def)
  from one conjunct1[OF a] rows show ?thesis by simp
qed

theorem idle_poll_archived_all_witness: "stream_bytes [] (mi_store small_end) = ''x''"
  using idle_poll_archived_all[OF inj_unary small_end_run small_idle[of 3], of "''a.log''" "''1''"]
  by (simp add: small_end_def small_mirror_after small_row_def small_parts)

theorem logs_reach_the_archive_witness:
  "\<exists>k f. cl_files (mi_collector (fold (mirror_step (\<lambda>b. ''h'') (\<lambda>k. replicate k CHR ''u'') (\<lambda>_. True)) (replicate k (Poll_files 2 [])) small_mirror)) ''a.log'' = Some f \<and>
     stream_bytes (fr_stream f) (mi_store (fold (mirror_step (\<lambda>b. ''h'') (\<lambda>k. replicate k CHR ''u'') (\<lambda>_. True)) (replicate k (Poll_files 2 [])) small_mirror)) = ''x''"
proof -
  have "mi_current small_mirror ''a.log'' = Some ''1''" "mi_content small_mirror ''a.log'' ''1'' = ''x''"
    by (simp_all add: small_mirror_after)
  with logs_reach_the_archive[OF inj_unary small_mirror_def small_sendable, of 2] small_parts(3) show ?thesis by metis
qed

end
