(* ===== verification/WireProtocol.thy ===== *)
theory WireProtocol
  imports RestSession CaptureEvents
begin

text \<open>
  The envelopes of the capture socket (capture/ws_protocol.py). The JSON value of a frame, without repeated
  keys, its size and the check of an event body are arguments.
\<close>

text \<open>A fault: its code and the identity of the event it is about.\<close>

type_synonym ws_fault = "string \<times> string option"

datatype 'r ws_message = Ready nat bool bool | Nack string "string option" | Ack string bool 'r

definition ws_retryable :: "string \<Rightarrow> bool" where
  "ws_retryable code \<longleftrightarrow> code \<in> {''capture_stopped'', ''busy'', ''sender_busy''}"

text \<open>An empty identity is left out.\<close>

definition ws_nack :: "string \<Rightarrow> string option \<Rightarrow> 'r ws_message" where
  "ws_nack code i = Nack code (case i of Some [] \<Rightarrow> None | _ \<Rightarrow> i)"

definition event_identity :: "(string \<times> json) list \<Rightarrow> string option" where
  "event_identity fs =
     (case map_of fs ''event'' of
        Some (JS_obj ev) \<Rightarrow>
          (case map_of ev ''event_id'' of
             Some (JS_str i) \<Rightarrow> if 0 < length i \<and> length i \<le> 200 then Some i else None
           | _ \<Rightarrow> None)
      | _ \<Rightarrow> None)"

text \<open>A frame of \<open>n\<close> bytes; \<open>parsed\<close> is None when it is no JSON or repeats a key.\<close>

definition ws_decode :: "nat \<Rightarrow> json option \<Rightarrow> ws_fault + (string \<times> json) list" where
  "ws_decode n parsed =
     (if 32768 < n then Inl (''invalid_event'', None)
      else (case parsed of
              Some (JS_obj fs) \<Rightarrow>
                if map_of fs ''transport_version'' \<noteq> Some (JS_str ''1.0.0'')
                then Inl (''unsupported_version'', event_identity fs) else Inr fs
            | _ \<Rightarrow> Inl (''invalid_event'', None)))"

definition exactly_keys :: "string list \<Rightarrow> (string \<times> json) list \<Rightarrow> bool" where
  "exactly_keys ks fs \<longleftrightarrow> set (map fst fs) = set ks"

definition ws_hello :: "(json \<Rightarrow> bool) \<Rightarrow> (string \<times> json) list \<Rightarrow> ws_fault + string" where
  "ws_hello uuid fs =
     (if \<not> exactly_keys [''type'', ''transport_version'', ''event_schema_version'', ''machine'', ''sender_instance_id''] fs \<or>
         map_of fs ''type'' \<noteq> Some (JS_str ''hello'')
      then Inl (''invalid_event'', None)
      else if map_of fs ''event_schema_version'' \<noteq> Some (JS_str ''1.1.0'') then Inl (''unsupported_version'', None)
      else (case map_of fs ''machine'' of
              Some (JS_str m) \<Rightarrow>
                if 1 \<le> length m \<and> length m \<le> 100 \<and> (case map_of fs ''sender_instance_id'' of Some u \<Rightarrow> uuid u | None \<Rightarrow> False)
                then Inr m else Inl (''invalid_event'', None)
            | _ \<Rightarrow> Inl (''invalid_event'', None)))"

definition ws_event ::
  "(json \<Rightarrow> nat) \<Rightarrow> (json \<Rightarrow> capture_event option) \<Rightarrow> (string \<times> json) list \<Rightarrow> string \<Rightarrow> ws_fault + capture_event" where
  "ws_event dump_size validate fs machine =
     (let identity = event_identity fs in
      if \<not> exactly_keys [''type'', ''transport_version'', ''event''] fs \<or> map_of fs ''type'' \<noteq> Some (JS_str ''event'')
      then Inl (''invalid_event'', identity)
      else (case map_of fs ''event'' of
              Some raw \<Rightarrow>
                if 16384 < dump_size raw then Inl (''invalid_event'', identity)
                else (case raw of
                        JS_obj ev \<Rightarrow>
                          if map_of ev ''schema_version'' \<noteq> Some (JS_str ''1.1.0'') then Inl (''unsupported_version'', identity)
                          else (case validate raw of
                                  None \<Rightarrow> Inl (''invalid_event'', identity)
                                | Some e \<Rightarrow>
                                    if ev_machine e \<noteq> machine then Inl (''machine_mismatch'', Some (ev_id e)) else Inr e)
                      | _ \<Rightarrow> Inl (''invalid_event'', identity))
            | None \<Rightarrow> Inl (''invalid_event'', identity)))"

lemma ws_event_machine: "ws_event dump_size validate fs machine = Inr e \<Longrightarrow> ev_machine e = machine"
  by (auto simp: ws_event_def Let_def split: if_splits option.splits json.splits)

end
