(* ===== verification/Admission.thy ===== *)
theory Admission
  imports WireProtocol DeskProps
begin

text \<open>
  The capture socket (capture/ws_ingress.py): its handshake, the clients with their queues of answers, the
  admission of events into a bounded queue, the worker that gives them to the controller one at a time,
  and the stop. The code between two awaits is one step. What JSON, identities and event bodies are worth
  is in the tools; the history fields record admissions, answers and sent messages.
\<close>

subsection \<open>State\<close>

record ws_tools =
  wt_uuid :: "json \<Rightarrow> bool"
  wt_dump_size :: "json \<Rightarrow> nat"
  wt_validate :: "json \<Rightarrow> capture_event option"

text \<open>
  A connection: its machine after the hello, the messages queued for its writer and the one in the writer's
  hands (with whether it releases its event), and its events in flight.
\<close>

record ws_client =
  wc_id :: nat
  wc_machine :: "string option"
  wc_out :: "(auto_reply ws_message \<times> bool) list"
  wc_hand :: "(auto_reply ws_message \<times> bool) option"
  wc_inflight :: "string list"
  wc_closed :: bool
  wc_writer :: bool

record job =
  jb_event :: capture_event
  jb_waiters :: "nat list"
  jb_generation :: nat

type_synonym job_id = "string \<times> string"

definition job_key :: "job \<Rightarrow> job_id" where
  "job_key j = (ev_machine (jb_event j), ev_id (jb_event j))"

text \<open>
  The queue holds keys of pending jobs, and None for the end; \<open>ig_current\<close> is the job the worker took, with
  the controller's answer once it has one.
\<close>

record ingress =
  ig_queue_limit :: nat
  ig_max_inflight :: nat
  ig_accepting :: bool
  ig_stopping :: bool
  ig_pending :: "job list"
  ig_jobs :: "job_id option list"
  ig_current :: "(job_id \<times> auto_reply res option) option"
  ig_worker :: bool
  ig_clients :: "ws_client list"
  ig_next :: nat
  ig_received :: nat
  ig_acknowledged :: nat
  ig_rejected :: nat
  ig_last_error :: "string option"
  ig_desk :: desk
  ig_sent :: "(nat \<times> auto_reply ws_message) list"
  ig_admitted :: "job_id list"
  ig_done :: "(job_id \<times> auto_reply ws_message) list"

definition new_ingress :: "nat \<Rightarrow> nat \<Rightarrow> desk \<Rightarrow> ingress res" where
  "new_ingress queue_limit max_inflight d =
     (if queue_limit < 1 \<or> max_inflight < 1 then Inl (value_error ''Invalid WebSocket receiver limits'')
      else Inr \<lparr>ig_queue_limit = queue_limit, ig_max_inflight = max_inflight, ig_accepting = True, ig_stopping = False,
             ig_pending = [], ig_jobs = [], ig_current = None, ig_worker = True, ig_clients = [], ig_next = 0,
             ig_received = 0, ig_acknowledged = 0, ig_rejected = 0, ig_last_error = None, ig_desk = d, ig_sent = [],
             ig_admitted = [], ig_done = []\<rparr>)"

subsection \<open>Handshake\<close>

record upgrade_request =
  ug_path :: string
  ug_host :: "string option"
  ug_origin :: "string option"
  ug_authorization :: string
  ug_protocols :: "string list"

text \<open>The status that refuses a handshake, or None; \<open>port\<close> is the text of the listening port.\<close>

definition upgrade :: "string \<Rightarrow> string \<Rightarrow> upgrade_request \<Rightarrow> ingress \<Rightarrow> nat option" where
  "upgrade token port q s =
     (if ug_path q \<noteq> ''/capture/ws'' then Some 404
      else if ug_host q \<notin> {Some (''127.0.0.1:'' @ port), Some (''localhost:'' @ port)} \<or> ug_origin q \<noteq> None then Some 403
      else if ug_authorization q \<noteq> ''Bearer '' @ token then Some 401
      else if ''hcamm.capture.v1'' \<notin> set (ug_protocols q) then Some 400
      else if 8 \<le> length (ig_clients s) \<or> \<not> ig_accepting s then Some 503
      else None)"

subsection \<open>Clients\<close>

definition find_client :: "nat \<Rightarrow> ingress \<Rightarrow> ws_client option" where
  "find_client i s = find (\<lambda>c. wc_id c = i) (ig_clients s)"

definition on_client :: "nat \<Rightarrow> (ws_client \<Rightarrow> ws_client) \<Rightarrow> ingress \<Rightarrow> ingress" where
  "on_client i f s = s\<lparr>ig_clients := tupdate (\<lambda>c. wc_id c = i) f (ig_clients s)\<rparr>"

definition leave :: "nat \<Rightarrow> ingress \<Rightarrow> ingress" where
  "leave i s = s\<lparr>ig_clients := filter (\<lambda>c. wc_id c \<noteq> i) (ig_clients s)\<rparr>"

text \<open>A message for a client; a full queue closes it.\<close>

definition offer :: "auto_reply ws_message \<Rightarrow> bool \<Rightarrow> ws_client \<Rightarrow> ws_client" where
  "offer m rel c =
     (if wc_closed c then c
      else if length (wc_out c) < 64 then c\<lparr>wc_out := wc_out c @ [(m, rel)]\<rparr>
      else c\<lparr>wc_closed := True\<rparr>)"

definition reject :: "nat \<Rightarrow> string \<Rightarrow> string option \<Rightarrow> ingress \<Rightarrow> ingress" where
  "reject i code identity s =
     on_client i (offer (ws_nack code identity) False) (s\<lparr>ig_rejected := Suc (ig_rejected s), ig_last_error := Some code\<rparr>)"

definition client_open :: "ingress \<Rightarrow> nat \<Rightarrow> bool" where
  "client_open s i = (case find_client i s of Some c \<Rightarrow> \<not> wc_closed c | None \<Rightarrow> False)"

subsection \<open>Admission\<close>

text \<open>An event joins the pending job of its identity.\<close>

definition join_job :: "nat \<Rightarrow> job \<Rightarrow> ingress \<Rightarrow> ingress" where
  "join_job i j s =
     (let waiters = (if i \<in> set (jb_waiters j) then jb_waiters j else filter (client_open s) (jb_waiters j) @ [i]) in
      on_client i (\<lambda>c. c\<lparr>wc_inflight := List.insert (ev_id (jb_event j)) (wc_inflight c)\<rparr>)
        (s\<lparr>ig_pending := tupdate (\<lambda>x. job_key x = job_key j) (\<lambda>x. x\<lparr>jb_waiters := waiters\<rparr>) (ig_pending s)\<rparr>))"

definition enqueue :: "nat \<Rightarrow> capture_event \<Rightarrow> ingress \<Rightarrow> ingress" where
  "enqueue i e s =
     (let j = \<lparr>jb_event = e, jb_waiters = [i], jb_generation = dk_generation (ig_desk s)\<rparr> in
      on_client i (\<lambda>c. c\<lparr>wc_inflight := List.insert (ev_id e) (wc_inflight c)\<rparr>)
        (s\<lparr>ig_pending := ig_pending s @ [j], ig_jobs := ig_jobs s @ [Some (job_key j)], ig_received := Suc (ig_received s),
           ig_admitted := ig_admitted s @ [job_key j]\<rparr>))"

definition admit :: "nat \<Rightarrow> capture_event \<Rightarrow> ingress \<Rightarrow> ingress" where
  "admit i e s =
     (case find_client i s of
        None \<Rightarrow> s
      | Some c \<Rightarrow>
          if \<not> ig_accepting s \<or> \<not> dk_running (ig_desk s) then reject i ''capture_stopped'' (Some (ev_id e)) s
          else if ig_max_inflight s \<le> length (wc_inflight c) \<and> ev_id e \<notin> set (wc_inflight c)
          then reject i ''busy'' (Some (ev_id e)) s
          else (case find (\<lambda>j. job_key j = (ev_machine e, ev_id e)) (ig_pending s) of
                  Some j \<Rightarrow> if \<not> event_eq (jb_event j) e then reject i ''identity_conflict'' (Some (ev_id e)) s else join_job i j s
                | None \<Rightarrow>
                    if ig_queue_limit s \<le> length (ig_jobs s) then reject i ''busy'' (Some (ev_id e)) s else enqueue i e s))"

subsection \<open>Frames\<close>

datatype ws_frame = Binary | Text nat "json option"

definition dial :: "ingress \<Rightarrow> ingress" where
  "dial s =
     (if 8 \<le> length (ig_clients s) then s
      else s\<lparr>ig_clients := ig_clients s @ [\<lparr>wc_id = ig_next s, wc_machine = None, wc_out = [], wc_hand = None, wc_inflight = [],
                 wc_closed = False, wc_writer = False\<rparr>], ig_next := Suc (ig_next s)\<rparr>)"

text \<open>A message sent outside the queue, by the handler itself, before it closes the connection.\<close>

definition refuse_hello :: "nat \<Rightarrow> string \<Rightarrow> string option \<Rightarrow> ingress \<Rightarrow> ingress" where
  "refuse_hello i code identity s = leave i (s\<lparr>ig_sent := ig_sent s @ [(i, ws_nack code identity)]\<rparr>)"

definition greet :: "ws_tools \<Rightarrow> nat \<Rightarrow> ws_frame \<Rightarrow> ingress \<Rightarrow> ingress" where
  "greet W i frame s =
     (case frame of
        Binary \<Rightarrow> leave i s
      | Text n parsed \<Rightarrow>
          (case bindE (ws_decode n parsed) (ws_hello (wt_uuid W)) of
             Inl (code, identity) \<Rightarrow> refuse_hello i code identity s
           | Inr m \<Rightarrow>
               if \<exists>c \<in> set (ig_clients s). wc_machine c = Some m then refuse_hello i ''sender_busy'' None s
               else on_client i (\<lambda>c. offer (Ready (ig_max_inflight s) (dk_running (ig_desk s)) (rt_armed (dk_native (ig_desk s)))) False
                                        (c\<lparr>wc_machine := Some m, wc_writer := True\<rparr>)) s))"

definition receive_frame :: "ws_tools \<Rightarrow> nat \<Rightarrow> ws_frame \<Rightarrow> ingress \<Rightarrow> ingress" where
  "receive_frame W i frame s =
     (case find_client i s of
        None \<Rightarrow> s
      | Some c \<Rightarrow>
          (case wc_machine c of
             None \<Rightarrow> greet W i frame s
           | Some m \<Rightarrow>
               (case frame of
                  Binary \<Rightarrow> leave i s
                | Text n parsed \<Rightarrow>
                    (case bindE (ws_decode n parsed) (\<lambda>fs. ws_event (wt_dump_size W) (wt_validate W) fs m) of
                       Inl (code, identity) \<Rightarrow> reject i code identity s
                     | Inr e \<Rightarrow> admit i e s))))"

subsection \<open>Writers\<close>

definition take_out :: "nat \<Rightarrow> ingress \<Rightarrow> ingress" where
  "take_out i s =
     on_client i (\<lambda>c. if wc_writer c \<and> wc_hand c = None
       then (case wc_out c of [] \<Rightarrow> c | m # ms \<Rightarrow> c\<lparr>wc_out := ms, wc_hand := Some m\<rparr>) else c) s"

definition message_event :: "auto_reply ws_message \<Rightarrow> string option" where
  "message_event m = (case m of Ready _ _ _ \<Rightarrow> None | Nack _ i \<Rightarrow> i | Ack i _ _ \<Rightarrow> if i = [] then None else Some i)"

text \<open>The end of a send: a sent answer releases its event; a failed send ends the writer.\<close>

definition send_out :: "nat \<Rightarrow> bool \<Rightarrow> ingress \<Rightarrow> ingress" where
  "send_out i ok s =
     (case find_client i s of
        None \<Rightarrow> s
      | Some c \<Rightarrow>
          (case wc_hand c of
             None \<Rightarrow> s
           | Some (m, rel) \<Rightarrow>
               if \<not> ok then on_client i (\<lambda>c. c\<lparr>wc_hand := None, wc_writer := False\<rparr>) s
               else on_client i (\<lambda>c. c\<lparr>wc_hand := None,
                        wc_inflight := (case message_event m of
                            Some e \<Rightarrow> if rel then removeAll e (wc_inflight c) else wc_inflight c
                          | None \<Rightarrow> wc_inflight c)\<rparr>)
                      (s\<lparr>ig_sent := ig_sent s @ [(i, m)]\<rparr>)))"

subsection \<open>The worker\<close>

definition is_nack :: "auto_reply ws_message \<Rightarrow> bool" where
  "is_nack m = (case m of Nack _ _ \<Rightarrow> True | _ \<Rightarrow> False)"

text \<open>The answer goes to every waiter and the job is over.\<close>

definition settle :: "job_id \<Rightarrow> auto_reply ws_message \<Rightarrow> ingress \<Rightarrow> ingress" where
  "settle k m s =
     (case find (\<lambda>j. job_key j = k) (ig_pending s) of
        None \<Rightarrow> s\<lparr>ig_current := None\<rparr>
      | Some j \<Rightarrow>
          s\<lparr>ig_rejected := (if is_nack m then Suc (ig_rejected s) else ig_rejected s),
            ig_pending := filter (\<lambda>j. job_key j \<noteq> k) (ig_pending s),
            ig_clients := tupdate (\<lambda>c. wc_id c \<in> set (jb_waiters j)) (offer m True) (ig_clients s),
            ig_current := None, ig_done := ig_done s @ [(k, m)]\<rparr>)"

definition take_job :: "ingress \<Rightarrow> ingress" where
  "take_job s =
     (if \<not> ig_worker s \<or> ig_current s \<noteq> None then s
      else (case ig_jobs s of
              [] \<Rightarrow> s
            | None # ks \<Rightarrow> s\<lparr>ig_jobs := ks, ig_worker := False\<rparr>
            | Some k # ks \<Rightarrow>
                if ig_stopping s then settle k (ws_nack ''capture_stopped'' (Some (snd k))) (s\<lparr>ig_jobs := ks\<rparr>)
                else s\<lparr>ig_jobs := ks, ig_current := Some (k, None)\<rparr>))"

text \<open>The controller's turn, in a thread of its own.\<close>

definition process_job :: "desk_tools \<Rightarrow> router_env \<Rightarrow> broker_world \<Rightarrow> string \<Rightarrow> ingress \<Rightarrow> ingress \<times> desk_key list" where
  "process_job T env bk uid s =
     (case ig_current s of
        Some (k, None) \<Rightarrow>
          (case find (\<lambda>j. job_key j = k) (ig_pending s) of
             None \<Rightarrow> (s, [])
           | Some j \<Rightarrow>
               (case receive_native T env bk uid (Some (jb_generation j)) (jb_event j) (ig_desk s) of
                  (r, d, ks) \<Rightarrow> (s\<lparr>ig_current := Some (k, Some r), ig_desk := d\<rparr>, ks)))
      | _ \<Rightarrow> (s, []))"

definition answer_job :: "ingress \<Rightarrow> ingress" where
  "answer_job s =
     (case ig_current s of
        Some (k, Some (Inr a)) \<Rightarrow>
          settle k (Ack (au_event a) (au_duplicate a) a) (s\<lparr>ig_acknowledged := Suc (ig_acknowledged s)\<rparr>)
      | Some (k, Some (Inl x)) \<Rightarrow>
          if is_value_error x
          then settle k (ws_nack (if exn_msg x = ''Capture is stopped'' then ''capture_stopped'' else ''identity_conflict'') (Some (snd k))) s
          else settle k (ws_nack ''busy'' (Some (snd k))) (s\<lparr>ig_last_error := Some ''Processing unavailable; journal retained''\<rparr>)
      | _ \<Rightarrow> s)"

subsection \<open>Steps\<close>

text \<open>The stop: the event is set, admission ends, then the end mark is put once the queue has room.\<close>

definition stop_accepting :: "ingress \<Rightarrow> ingress" where
  "stop_accepting s = (if ig_stopping s then s\<lparr>ig_accepting := False\<rparr> else s)"

definition put_end :: "ingress \<Rightarrow> ingress" where
  "put_end s =
     (if \<not> ig_accepting s \<and> length (ig_jobs s) < ig_queue_limit s \<and> None \<notin> set (ig_jobs s) \<and> ig_worker s
      then s\<lparr>ig_jobs := ig_jobs s @ [None]\<rparr> else s)"

datatype ingress_op =
    Dial
  | Frame nat ws_frame
  | Leave nat
  | Take_out nat
  | Send_out nat bool
  | Take_job
  | Process_job router_env broker_world string
  | Answer_job
  | Set_stop
  | Stop_accepting
  | Put_end
  | Controller broker_world desk_op

fun ingress_step :: "desk_tools \<Rightarrow> ws_tools \<Rightarrow> ingress_op \<Rightarrow> ingress \<Rightarrow> ingress \<times> desk_key list" where
  "ingress_step T W Dial s = (dial s, [])"
| "ingress_step T W (Frame i f) s = (receive_frame W i f s, [])"
| "ingress_step T W (Leave i) s = (leave i s, [])"
| "ingress_step T W (Take_out i) s = (take_out i s, [])"
| "ingress_step T W (Send_out i ok) s = (send_out i ok s, [])"
| "ingress_step T W Take_job s = (take_job s, [])"
| "ingress_step T W (Process_job env bk uid) s = process_job T env bk uid s"
| "ingress_step T W Answer_job s = (answer_job s, [])"
| "ingress_step T W Set_stop s = (s\<lparr>ig_stopping := True\<rparr>, [])"
| "ingress_step T W Stop_accepting s = (stop_accepting s, [])"
| "ingress_step T W Put_end s = (put_end s, [])"
| "ingress_step T W (Controller bk a) s = (case desk_step T (bk, a) (ig_desk s) of (d, ks) \<Rightarrow> (s\<lparr>ig_desk := d\<rparr>, ks))"

end
