(* ===== verification/AdmissionLaws.thy ===== *)
theory AdmissionLaws
  imports Admission
begin

text \<open>
  The laws of the capture socket: its queue is bounded and in order, every admitted event is answered once,
  an open client gets the answer of each event it has in flight, and a run of the socket beside any other
  operations of the controller still writes at most once.
\<close>

subsection \<open>The queue\<close>

definition current_keys :: "ingress \<Rightarrow> job_id list" where
  "current_keys s = (case ig_current s of Some (k, _) \<Rightarrow> [k] | None \<Rightarrow> [])"

definition queued_keys :: "ingress \<Rightarrow> job_id list" where
  "queued_keys s = List.map_filter id (ig_jobs s)"

lemma map_filter_id [simp]:
  "List.map_filter id (map Some ks) = ks" "List.map_filter id (xs @ ys) = List.map_filter id xs @ List.map_filter id ys"
  "List.map_filter id (None # xs) = List.map_filter id xs" "List.map_filter id (Some k # xs) = k # List.map_filter id xs"
  "List.map_filter id [] = []"
  by (induction ks) (auto simp: List.map_filter_def)

text \<open>The worker's keys are the pending ones in order; the end mark is last and nothing follows it.\<close>

definition queue_ok :: "ingress \<Rightarrow> bool" where
  "queue_ok s \<longleftrightarrow>
     map job_key (ig_pending s) = current_keys s @ queued_keys s \<and> distinct (map job_key (ig_pending s)) \<and>
     (\<exists>ks. ig_jobs s = map Some ks \<or> ig_jobs s = map Some ks @ [None] \<and> \<not> ig_accepting s) \<and>
     (\<not> ig_worker s \<longrightarrow> ig_jobs s = [] \<and> ig_current s = None \<and> \<not> ig_accepting s) \<and>
     length (ig_jobs s) \<le> ig_queue_limit s \<and>
     ig_admitted s = map fst (ig_done s) @ current_keys s @ queued_keys s"

lemma queue_okD:
  assumes "queue_ok s"
  shows "map job_key (ig_pending s) = current_keys s @ queued_keys s" "distinct (map job_key (ig_pending s))"
    "\<exists>ks. ig_jobs s = map Some ks \<or> ig_jobs s = map Some ks @ [None] \<and> \<not> ig_accepting s"
    "\<not> ig_worker s \<longrightarrow> ig_jobs s = [] \<and> ig_current s = None \<and> \<not> ig_accepting s"
    "length (ig_jobs s) \<le> ig_queue_limit s" "ig_admitted s = map fst (ig_done s) @ current_keys s @ queued_keys s"
  using assms unfolding queue_ok_def by blast+

text \<open>The fields the queue rests on.\<close>

definition same_queue :: "ingress \<Rightarrow> ingress \<Rightarrow> bool" where
  "same_queue s t \<longleftrightarrow>
     map job_key (ig_pending t) = map job_key (ig_pending s) \<and> ig_jobs t = ig_jobs s \<and> current_keys t = current_keys s \<and>
     (ig_current t = None \<longleftrightarrow> ig_current s = None) \<and> ig_worker t = ig_worker s \<and> (ig_accepting t \<longrightarrow> ig_accepting s) \<and>
     ig_queue_limit t = ig_queue_limit s \<and> ig_admitted t = ig_admitted s \<and> map fst (ig_done t) = map fst (ig_done s)"

lemma same_queue_ok: "same_queue s t \<Longrightarrow> queue_ok s \<Longrightarrow> queue_ok t"
  unfolding same_queue_def queue_ok_def queued_keys_def by auto

lemma same_queue_refl [simp]: "same_queue s s"
  by (simp add: same_queue_def)

lemma same_queue_trans: "same_queue s t \<Longrightarrow> same_queue t u \<Longrightarrow> same_queue s u"
  by (auto simp: same_queue_def)

lemma same_queue_clients [simp]:
  "same_queue s (on_client i f s)" "same_queue s (leave i s)" "same_queue s (reject i code x s)" "same_queue s (dial s)"
  "same_queue s (take_out i s)" "same_queue s (send_out i ok s)" "same_queue s (refuse_hello i code x s)"
  by (auto simp: same_queue_def on_client_def leave_def reject_def dial_def take_out_def send_out_def refuse_hello_def current_keys_def
      split: option.split prod.split)

lemma same_queue_greet [simp]: "same_queue s (greet W i frame s)"
  by (auto simp: greet_def split: ws_frame.split sum.split)

lemma same_queue_join_job [simp]: "same_queue s (join_job i j s)"
proof -
  have "map job_key (tupdate (\<lambda>x. job_key x = job_key j) (\<lambda>x. x\<lparr>jb_waiters := w\<rparr>) (ig_pending s)) = map job_key (ig_pending s)" for w
    by (rule tupdate_map_key) (simp add: job_key_def)
  then show ?thesis by (simp add: join_job_def Let_def on_client_def same_queue_def current_keys_def)
qed

lemma enqueue_queue_ok:
  assumes ok: "queue_ok s" and new: "find (\<lambda>j. job_key j = (ev_machine e, ev_id e)) (ig_pending s) = None"
    and room: "length (ig_jobs s) < ig_queue_limit s" "ig_accepting s"
  shows "queue_ok (enqueue i e s)"
proof -
  obtain ks where ks: "ig_jobs s = map Some ks" using ok room(2) by (auto simp: queue_ok_def)
  have w: "ig_worker s" using ok room(2) by (auto simp: queue_ok_def)
  have "(ev_machine e, ev_id e) \<notin> set (map job_key (ig_pending s))" using new by (auto simp: find_None_iff)
  let ?t = "enqueue i e s" and ?k = "(ev_machine e, ev_id e)"
  have t: "map job_key (ig_pending ?t) = map job_key (ig_pending s) @ [?k]" "ig_jobs ?t = map Some (ks @ [?k])"
    "current_keys ?t = current_keys s" "queued_keys ?t = queued_keys s @ [?k]" "ig_worker ?t" "ig_queue_limit ?t = ig_queue_limit s"
    "ig_admitted ?t = ig_admitted s @ [?k]" "ig_done ?t = ig_done s"
    using ks w by (simp_all add: enqueue_def Let_def on_client_def job_key_def current_keys_def queued_keys_def)
  have "distinct (map job_key (ig_pending ?t))"
    unfolding t(1) using \<open>?k \<notin> set (map job_key (ig_pending s))\<close> queue_okD(2)[OF ok] by simp
  moreover have "map job_key (ig_pending ?t) = current_keys ?t @ queued_keys ?t"
    using ok unfolding t queue_ok_def by simp
  moreover have "length (ig_jobs ?t) \<le> ig_queue_limit ?t" using room(1) unfolding t ks by simp
  moreover have "ig_admitted ?t = map fst (ig_done ?t) @ current_keys ?t @ queued_keys ?t"
    using ok unfolding t queue_ok_def by simp
  ultimately show ?thesis using t(2,5) unfolding queue_ok_def by blast
qed

lemma admit_queue_ok: "queue_ok s \<Longrightarrow> queue_ok (admit i e s)"
  by (auto simp: admit_def intro: enqueue_queue_ok same_queue_ok[OF same_queue_join_job] same_queue_ok[OF same_queue_clients(3)]
      split: option.split)

lemma frame_queue_ok: "queue_ok s \<Longrightarrow> queue_ok (receive_frame W i frame s)"
  by (auto simp: receive_frame_def intro: admit_queue_ok same_queue_ok[OF same_queue_greet] same_queue_ok[OF same_queue_clients(2)]
      same_queue_ok[OF same_queue_clients(3)] split: option.split ws_frame.split sum.split)

text \<open>A key that is pending has its job; settling it takes it off the front.\<close>

lemma pending_find:
  assumes "queue_ok s" "k \<in> set (current_keys s @ queued_keys s)"
  obtains j where "find (\<lambda>j. job_key j = k) (ig_pending s) = Some j" "j \<in> set (ig_pending s)" "job_key j = k"
proof -
  have "k \<in> job_key ` set (ig_pending s)" using assms by (metis queue_ok_def set_map)
  then have "find (\<lambda>j. job_key j = k) (ig_pending s) \<noteq> None" by (auto simp: find_None_iff)
  with that find_Some_mem show ?thesis by fastforce
qed

lemma settle_queue_ok:
  assumes keys: "map job_key (ig_pending s) = k # queued_keys s" "distinct (map job_key (ig_pending s))"
    and "\<exists>ks. ig_jobs s = map Some ks \<or> ig_jobs s = map Some ks @ [None] \<and> \<not> ig_accepting s"
    and "ig_worker s" "length (ig_jobs s) \<le> ig_queue_limit s" "ig_admitted s = map fst (ig_done s) @ k # queued_keys s"
  shows "queue_ok (settle k m s)"
proof -
  obtain j js where p: "ig_pending s = j # js" "job_key j = k" using keys(1) by auto
  have "filter (\<lambda>j. job_key j \<noteq> k) js = js" using keys(2) p by (intro filter_True) (auto, metis image_eqI)
  then have t: "ig_pending (settle k m s) = js" "ig_current (settle k m s) = None" "ig_jobs (settle k m s) = ig_jobs s"
    "ig_accepting (settle k m s) = ig_accepting s" "ig_worker (settle k m s) = ig_worker s"
    "ig_queue_limit (settle k m s) = ig_queue_limit s" "ig_admitted (settle k m s) = ig_admitted s"
    "map fst (ig_done (settle k m s)) = map fst (ig_done s) @ [k]"
    using p by (simp_all add: settle_def)
  have keys': "map job_key js = queued_keys s" "distinct (map job_key js)" using keys p by simp_all
  show ?thesis unfolding queue_ok_def queued_keys_def current_keys_def t using assms(3-) keys' by (simp add: queued_keys_def)
qed

lemma take_queue_ok:
  assumes ok: "queue_ok s"
  shows "queue_ok (take_job s)"
proof (cases "ig_worker s \<and> ig_current s = None")
  case idle: True
  show ?thesis
  proof (cases "ig_jobs s")
    case Nil
    with ok show ?thesis by (simp add: take_job_def)
  next
    case (Cons x xs)
    obtain ks where ks: "ig_jobs s = map Some ks \<or> ig_jobs s = map Some ks @ [None] \<and> \<not> ig_accepting s"
      using ok by (auto simp: queue_ok_def)
    show ?thesis
    proof (cases x)
      case None
      with ks Cons have "ks = []" by (cases ks) auto
      with ks Cons None have "xs = []" "\<not> ig_accepting s" by auto
      with ok idle Cons None show ?thesis by (auto simp: take_job_def queue_ok_def current_keys_def queued_keys_def)
    next
      case (Some k)
      with ks Cons obtain ks' where ks': "ks = k # ks'" by (cases ks) auto
      have tl: "\<exists>ks. xs = map Some ks \<or> xs = map Some ks @ [None] \<and> \<not> ig_accepting s"
        using ks Cons ks' by (intro exI[of _ ks']) auto
      have keys: "map job_key (ig_pending s) = k # List.map_filter id xs" "ig_admitted s = map fst (ig_done s) @ k # List.map_filter id xs"
        using ok idle Cons Some by (simp_all add: queue_ok_def current_keys_def queued_keys_def)
      have len: "length xs \<le> ig_queue_limit s" using ok Cons by (simp add: queue_ok_def)
      note d = queue_okD(2)[OF ok]
      show ?thesis
      proof (cases "ig_stopping s")
        case True
        have "queue_ok (settle k m (s\<lparr>ig_jobs := xs\<rparr>))" for m
          by (rule settle_queue_ok) (use keys len d tl idle in \<open>simp_all add: queued_keys_def\<close>)
        with True idle Cons Some show ?thesis by (simp add: take_job_def)
      next
        case False
        with idle Cons Some keys len d tl show ?thesis by (auto simp: take_job_def queue_ok_def current_keys_def queued_keys_def)
      qed
    qed
  qed
next
  case False
  with ok show ?thesis by (auto simp: take_job_def)
qed

lemma answer_queue_ok:
  assumes ok: "queue_ok s"
  shows "queue_ok (answer_job s)"
proof -
  have "queue_ok (settle k m t)"
    if "ig_current s = Some (k, r)" "ig_pending t = ig_pending s" "ig_jobs t = ig_jobs s" "ig_accepting t = ig_accepting s"
      "ig_worker t = ig_worker s" "ig_queue_limit t = ig_queue_limit s" "ig_admitted t = ig_admitted s" "ig_done t = ig_done s" for k r m t
  proof (rule settle_queue_ok)
    have "map job_key (ig_pending s) = k # queued_keys s" "ig_admitted s = map fst (ig_done s) @ k # queued_keys s"
      using ok that(1) by (simp_all add: queue_ok_def current_keys_def)
    then show "map job_key (ig_pending t) = k # queued_keys t" "ig_admitted t = map fst (ig_done t) @ k # queued_keys t"
      using that by (simp_all add: queued_keys_def)
  qed (use queue_okD[OF ok] that in auto)
  with ok show ?thesis by (auto simp: answer_job_def split: option.split prod.split sum.split)
qed

lemma process_queue_ok: "queue_ok s \<Longrightarrow> queue_ok (fst (process_job T env bk uid s))"
  by (rule same_queue_ok[rotated])
     (auto simp: process_job_def same_queue_def current_keys_def split: option.split prod.split)

lemma put_end_queue_ok:
  assumes ok: "queue_ok s"
  shows "queue_ok (put_end s)"
proof (cases "\<not> ig_accepting s \<and> length (ig_jobs s) < ig_queue_limit s \<and> None \<notin> set (ig_jobs s) \<and> ig_worker s")
  case True
  then obtain ks where ks: "ig_jobs s = map Some ks" using queue_okD(3)[OF ok] by auto
  have t: "ig_pending (put_end s) = ig_pending s" "ig_jobs (put_end s) = map Some ks @ [None]" "current_keys (put_end s) = current_keys s"
    "queued_keys (put_end s) = queued_keys s" "ig_worker (put_end s)" "\<not> ig_accepting (put_end s)"
    "ig_queue_limit (put_end s) = ig_queue_limit s" "ig_admitted (put_end s) = ig_admitted s" "ig_done (put_end s) = ig_done s"
    using True ks by (simp_all add: put_end_def current_keys_def queued_keys_def)
  show ?thesis unfolding queue_ok_def t using queue_okD[OF ok] True t(5,6) ks by auto
next
  case False
  then have "put_end s = s" by (auto simp: put_end_def)
  with ok show ?thesis by simp
qed

lemma stop_queue_ok: "queue_ok s \<Longrightarrow> queue_ok (stop_accepting s)"
  by (rule same_queue_ok[rotated]) (auto simp: stop_accepting_def same_queue_def current_keys_def)

lemma step_queue_ok: "queue_ok s \<Longrightarrow> queue_ok (fst (ingress_step T W a s))"
proof (cases a)
  case Set_stop
  assume "queue_ok s"
  then show ?thesis by (rule same_queue_ok[rotated]) (simp add: Set_stop same_queue_def current_keys_def)
next
  case (Controller bk x)
  assume "queue_ok s"
  then show ?thesis
    by (rule same_queue_ok[rotated]) (simp add: Controller same_queue_def current_keys_def split: prod.split)
qed (simp_all add: frame_queue_ok take_queue_ok answer_queue_ok process_queue_ok put_end_queue_ok stop_queue_ok same_queue_ok[OF same_queue_clients(2)]
  same_queue_ok[OF same_queue_clients(4)] same_queue_ok[OF same_queue_clients(5)] same_queue_ok[OF same_queue_clients(6)])

interpretation queue_runs: kept_invariant "\<lambda>a s. fst (ingress_step T W a s)" queue_ok for T W
  by unfold_locales (rule step_queue_ok)

subsection \<open>The clients\<close>

definition client_ok :: "nat \<Rightarrow> ws_client \<Rightarrow> bool" where
  "client_ok limit c \<longleftrightarrow>
     length (wc_out c) \<le> 64 \<and> distinct (wc_inflight c) \<and> length (wc_inflight c) \<le> limit \<and>
     (wc_machine c = None \<longrightarrow> wc_inflight c = [])"

definition clients_ok :: "ingress \<Rightarrow> bool" where
  "clients_ok s \<longleftrightarrow>
     distinct (map wc_id (ig_clients s)) \<and> (\<forall>c \<in> set (ig_clients s). wc_id c < ig_next s \<and> client_ok (ig_max_inflight s) c) \<and>
     length (ig_clients s) \<le> 8 \<and>
     (\<forall>c \<in> set (ig_clients s). \<forall>d \<in> set (ig_clients s). \<forall>m. wc_machine c = Some m \<longrightarrow> wc_machine d = Some m \<longrightarrow> wc_id c = wc_id d)"

lemma clients_okD:
  assumes "clients_ok s"
  shows "distinct (map wc_id (ig_clients s))" "length (ig_clients s) \<le> 8"
    "c \<in> set (ig_clients s) \<Longrightarrow> wc_id c < ig_next s" "c \<in> set (ig_clients s) \<Longrightarrow> client_ok (ig_max_inflight s) c"
    "c \<in> set (ig_clients s) \<Longrightarrow> d \<in> set (ig_clients s) \<Longrightarrow> wc_machine c = Some m \<Longrightarrow> wc_machine d = Some m \<Longrightarrow> wc_id c = wc_id d"
  using assms unfolding clients_ok_def by blast+

lemma clients_tupdate:
  assumes ok: "clients_ok s" and t: "ig_clients t = tupdate P f (ig_clients s)" "ig_next t = ig_next s" "ig_max_inflight t = ig_max_inflight s"
    and f: "\<And>c. c \<in> set (ig_clients s) \<Longrightarrow> P c \<Longrightarrow> client_ok (ig_max_inflight s) c \<Longrightarrow>
      wc_id (f c) = wc_id c \<and> wc_machine (f c) = wc_machine c \<and> client_ok (ig_max_inflight s) (f c)"
  shows "clients_ok t"
proof -
  have each: "client_ok (ig_max_inflight s) c" if "c \<in> set (ig_clients s)" for c using ok that by (simp add: clients_ok_def)
  let ?g = "\<lambda>c. if P c then f c else c"
  have g: "wc_id (?g c) = wc_id c" "wc_machine (?g c) = wc_machine c" "client_ok (ig_max_inflight s) (?g c)" if "c \<in> set (ig_clients s)" for c
    using f[OF that] each[OF that] by simp_all
  have ids: "map wc_id (ig_clients t) = map wc_id (ig_clients s)" unfolding t(1) tupdate_def using g(1) by simp
  have mem: "\<exists>b \<in> set (ig_clients s). c = ?g b" if "c \<in> set (ig_clients t)" for c using that unfolding t(1) set_tupdate by blast
  have one: "wc_id c < ig_next t \<and> client_ok (ig_max_inflight t) c" if "c \<in> set (ig_clients t)" for c
  proof -
    obtain b where b: "b \<in> set (ig_clients s)" "c = ?g b" using mem[OF \<open>c \<in> set (ig_clients t)\<close>] by blast
    show ?thesis unfolding b(2) t(2,3) g(1)[OF b(1)] using clients_okD(3)[OF ok b(1)] g(3)[OF b(1)] by blast
  qed
  have two: "wc_id c = wc_id d" if cd: "c \<in> set (ig_clients t)" "d \<in> set (ig_clients t)" "wc_machine c = Some m" "wc_machine d = Some m" for c d m
  proof -
    obtain a b where z: "a \<in> set (ig_clients s)" "c = ?g a" "b \<in> set (ig_clients s)" "d = ?g b" using mem[OF cd(1)] mem[OF cd(2)] by blast
    have "wc_machine a = Some m" "wc_machine b = Some m" using cd(3,4) g(2)[OF z(1)] g(2)[OF z(3)] unfolding z(2,4) by simp_all
    from clients_okD(5)[OF ok z(1,3) this] show ?thesis unfolding z(2,4) g(1)[OF z(1)] g(1)[OF z(3)] .
  qed
  have "length (ig_clients t) \<le> 8" "distinct (map wc_id (ig_clients t))" using clients_okD(1,2)[OF ok] ids unfolding t(1) by simp_all
  with one two show ?thesis unfolding clients_ok_def by blast
qed

lemma clients_same:
  assumes "clients_ok s" "ig_clients t = ig_clients s" "ig_next t = ig_next s" "ig_max_inflight t = ig_max_inflight s"
  shows "clients_ok t"
  using assms(1) unfolding clients_ok_def assms(2-4) .

lemma offer_fields [simp]:
  "wc_id (offer m rel c) = wc_id c" "wc_machine (offer m rel c) = wc_machine c" "wc_inflight (offer m rel c) = wc_inflight c"
  "wc_hand (offer m rel c) = wc_hand c" "wc_writer (offer m rel c) = wc_writer c"
  "client_ok limit c \<Longrightarrow> client_ok limit (offer m rel c)"
  by (simp_all add: offer_def client_ok_def)

lemma reject_clients: "clients_ok s \<Longrightarrow> clients_ok (reject i code x s)"
  unfolding reject_def on_client_def
  by (rule clients_tupdate[where P = "\<lambda>c. wc_id c = i" and f = "offer (ws_nack code x) False" and s = s]) simp_all

lemma leave_clients: "clients_ok s \<Longrightarrow> clients_ok (leave i s)"
proof -
  assume ok: "clients_ok s"
  have "length (ig_clients (leave i s)) \<le> 8" using clients_okD(2)[OF ok] by (simp add: leave_def order_trans[OF length_filter_le])
  moreover have "distinct (map wc_id (ig_clients (leave i s)))" using clients_okD(1)[OF ok] by (simp add: leave_def distinct_map_filter)
  moreover have "set (ig_clients (leave i s)) \<subseteq> set (ig_clients s)" "ig_next (leave i s) = ig_next s" "ig_max_inflight (leave i s) = ig_max_inflight s"
    by (auto simp: leave_def)
  ultimately show ?thesis using clients_okD(3-5)[OF ok] unfolding clients_ok_def by (metis subsetD)
qed

lemma refuse_clients: "clients_ok s \<Longrightarrow> clients_ok (refuse_hello i code x s)"
  unfolding refuse_hello_def by (rule leave_clients, erule clients_same) simp_all

lemma find_client_facts: "find_client i s = Some c \<Longrightarrow> c \<in> set (ig_clients s) \<and> wc_id c = i"
  by (auto simp: find_client_def dest: find_Some_mem)

lemma same_id: "clients_ok s \<Longrightarrow> c \<in> set (ig_clients s) \<Longrightarrow> d \<in> set (ig_clients s) \<Longrightarrow> wc_id c = wc_id d \<Longrightarrow> c = d"
  by (auto simp: clients_ok_def distinct_map inj_on_def)

lemma inflight_clients:
  assumes ok: "clients_ok s" and c: "find_client i s = Some c" "wc_machine c = Some m"
    and room: "length (wc_inflight c) < ig_max_inflight s \<or> e \<in> set (wc_inflight c)"
    and t: "ig_clients t = tupdate (\<lambda>c. wc_id c = i) (\<lambda>c. c\<lparr>wc_inflight := List.insert e (wc_inflight c)\<rparr>) (ig_clients s)"
      "ig_next t = ig_next s" "ig_max_inflight t = ig_max_inflight s"
  shows "clients_ok t"
proof (rule clients_tupdate[OF ok t])
  fix d assume d: "d \<in> set (ig_clients s)" "wc_id d = i" "client_ok (ig_max_inflight s) d"
  then have "d = c" using same_id[OF ok] find_client_facts[OF c(1)] by simp
  with d(3) room c(2) show "wc_id (d\<lparr>wc_inflight := List.insert e (wc_inflight d)\<rparr>) = wc_id d \<and>
      wc_machine (d\<lparr>wc_inflight := List.insert e (wc_inflight d)\<rparr>) = wc_machine d \<and>
      client_ok (ig_max_inflight s) (d\<lparr>wc_inflight := List.insert e (wc_inflight d)\<rparr>)"
    by (auto simp: client_ok_def List.insert_def)
qed

lemma admit_clients:
  assumes ok: "clients_ok s" and c: "find_client i s = Some c" "wc_machine c = Some (ev_machine e)"
  shows "clients_ok (admit i e s)"
proof (cases "\<not> ig_accepting s \<or> \<not> dk_running (ig_desk s) \<or> ig_max_inflight s \<le> length (wc_inflight c) \<and> ev_id e \<notin> set (wc_inflight c)")
  case True
  with ok c show ?thesis by (auto simp: admit_def reject_clients)
next
  case False
  then have room: "length (wc_inflight c) < ig_max_inflight s \<or> ev_id e \<in> set (wc_inflight c)" by auto
  show ?thesis
  proof (cases "find (\<lambda>j. job_key j = (ev_machine e, ev_id e)) (ig_pending s)")
    case None
    have "clients_ok (enqueue i e s)"
      by (rule inflight_clients[OF ok c room]) (simp_all add: enqueue_def Let_def on_client_def)
    with False c None ok show ?thesis by (auto simp: admit_def reject_clients)
  next
    case (Some j)
    then have "ev_id (jb_event j) = ev_id e" by (auto simp: job_key_def dest: find_Some_mem)
    then have "clients_ok (join_job i j s)"
      using inflight_clients[OF ok c room, of "join_job i j s"] by (simp add: join_job_def Let_def on_client_def)
    with False c Some ok show ?thesis by (auto simp: admit_def reject_clients)
  qed
qed

lemma greet_clients:
  assumes ok: "clients_ok s" and c: "find_client i s = Some c" "wc_machine c = None"
  shows "clients_ok (greet W i frame s)"
proof -
  have "clients_ok (on_client i (\<lambda>c. offer x False (c\<lparr>wc_machine := Some m, wc_writer := True\<rparr>)) s)" (is "clients_ok ?t")
    if free: "\<forall>c \<in> set (ig_clients s). wc_machine c \<noteq> Some m" for x m
  proof -
    let ?f = "\<lambda>c. offer x False (c\<lparr>wc_machine := Some m, wc_writer := True\<rparr>)"
    have ids: "map wc_id (ig_clients ?t) = map wc_id (ig_clients s)" by (auto simp: on_client_def tupdate_map_key)
    have cl: "ig_clients ?t = tupdate (\<lambda>c. wc_id c = i) ?f (ig_clients s)" by (simp add: on_client_def)
    have mem: "\<exists>b \<in> set (ig_clients s). d = (if wc_id b = i then ?f b else b)" if "d \<in> set (ig_clients ?t)" for d
      using that unfolding cl set_tupdate by blast
    have one: "b = c" if "b \<in> set (ig_clients s)" "wc_id b = i" for b using same_id[OF ok that(1)] that(2) find_client_facts[OF c(1)] by simp
    have each: "wc_id d < ig_next s \<and> client_ok (ig_max_inflight s) d" if "d \<in> set (ig_clients ?t)" for d
    proof -
      from that obtain b where b: "b \<in> set (ig_clients s)" "d = (if wc_id b = i then ?f b else b)" using mem by blast
      have "wc_id b < ig_next s" "client_ok (ig_max_inflight s) b" using ok b(1) by (simp_all add: clients_ok_def)
      moreover have "client_ok (ig_max_inflight s) (b\<lparr>wc_machine := Some m, wc_writer := True\<rparr>)"
        using calculation(2) by (simp add: client_ok_def)
      ultimately show ?thesis using b(2) by simp
    qed
    have mach: "wc_id d = wc_id b" if d: "d \<in> set (ig_clients ?t)" "b \<in> set (ig_clients ?t)" "wc_machine d = Some n" "wc_machine b = Some n" for d b n
    proof -
      obtain d0 b0 where z: "d0 \<in> set (ig_clients s)" "d = (if wc_id d0 = i then ?f d0 else d0)"
        "b0 \<in> set (ig_clients s)" "b = (if wc_id b0 = i then ?f b0 else b0)" using mem[OF d(1)] mem[OF d(2)] by blast
      show ?thesis
      proof (cases "wc_id d0 = i \<or> wc_id b0 = i")
        case True
        with z d(3,4) free show ?thesis by (auto split: if_splits)
      next
        case False
        with z d(3,4) clients_okD(5)[OF ok z(1,3)] show ?thesis by simp
      qed
    qed
    have "length (ig_clients ?t) \<le> 8" "ig_next ?t = ig_next s" "ig_max_inflight ?t = ig_max_inflight s"
      using ok by (simp_all add: clients_ok_def on_client_def)
    then show ?thesis unfolding clients_ok_def ids using each mach clients_okD(1)[OF ok] by metis
  qed
  then show ?thesis using ok leave_clients refuse_clients
    by (auto simp: greet_def split: ws_frame.split sum.split)
qed

lemma frame_clients: "clients_ok s \<Longrightarrow> clients_ok (receive_frame W i frame s)"
  by (auto simp: receive_frame_def bindE_Inr split: option.split ws_frame.split sum.split
      intro: greet_clients leave_clients reject_clients dest!: ws_event_machine intro!: admit_clients)

lemma on_client_clients:
  assumes "clients_ok s" "\<And>c. client_ok (ig_max_inflight s) c \<Longrightarrow>
    wc_id (f c) = wc_id c \<and> wc_machine (f c) = wc_machine c \<and> client_ok (ig_max_inflight s) (f c)"
  shows "clients_ok (on_client i f s)"
  by (rule clients_tupdate[OF assms(1), where P = "\<lambda>c. wc_id c = i" and f = f]) (use assms(2) in \<open>simp_all add: on_client_def\<close>)

lemma dial_clients: "clients_ok s \<Longrightarrow> clients_ok (dial s)"
proof (cases "8 \<le> length (ig_clients s)")
  case False
  assume ok: "clients_ok s"
  let ?n = "\<lparr>wc_id = ig_next s, wc_machine = None, wc_out = [], wc_hand = None, wc_inflight = [], wc_closed = False, wc_writer = False\<rparr>"
  have t: "ig_clients (dial s) = ig_clients s @ [?n]" "ig_next (dial s) = Suc (ig_next s)" "ig_max_inflight (dial s) = ig_max_inflight s"
    using False by (simp_all add: dial_def)
  have "ig_next s \<notin> wc_id ` set (ig_clients s)" using clients_okD(3)[OF ok] by fastforce
  then have "distinct (map wc_id (ig_clients (dial s)))" using clients_okD(1)[OF ok] unfolding t by simp
  moreover have "wc_id c < ig_next (dial s) \<and> client_ok (ig_max_inflight (dial s)) c" if "c \<in> set (ig_clients (dial s))" for c
    using that clients_okD(3,4)[OF ok] unfolding t by (auto simp: client_ok_def less_Suc_eq)
  moreover have "wc_id c = wc_id d" if "c \<in> set (ig_clients (dial s))" "d \<in> set (ig_clients (dial s))" "wc_machine c = Some m" "wc_machine d = Some m" for c d m
  proof -
    have "c \<in> set (ig_clients s)" "d \<in> set (ig_clients s)" using that unfolding t by auto
    from clients_okD(5)[OF ok this that(3,4)] show ?thesis .
  qed
  moreover have "length (ig_clients (dial s)) \<le> 8" using False unfolding t by simp
  ultimately show ?thesis unfolding clients_ok_def by blast
qed (simp add: dial_def)

lemma take_out_clients: "clients_ok s \<Longrightarrow> clients_ok (take_out i s)"
  unfolding take_out_def by (erule on_client_clients) (auto simp: client_ok_def split: list.split)

lemma send_out_clients:
  assumes c: "clients_ok s"
  shows "clients_ok (send_out i ok s)"
proof -
  have fail: "clients_ok (on_client i (\<lambda>c. c\<lparr>wc_hand := None, wc_writer := False\<rparr>) s)"
    by (rule on_client_clients[OF c]) (auto simp: client_ok_def)
  have len: "length (removeAll e xs) \<le> length xs" for e and xs :: "string list" by (rule length_removeAll_less_eq)
  have "client_ok l (b\<lparr>wc_hand := None, wc_inflight := removeAll e (wc_inflight b)\<rparr>)" if "client_ok l b" for l b e
    using that order_trans[OF len[of e "wc_inflight b"]] by (auto simp: client_ok_def distinct_removeAll)
  moreover have "clients_ok (s\<lparr>ig_sent := l\<rparr>)" for l by (rule clients_same[OF c]) simp_all
  ultimately have "clients_ok (on_client i (\<lambda>c. c\<lparr>wc_hand := None, wc_inflight := (case x of Some e \<Rightarrow> if rel then removeAll e (wc_inflight c) else wc_inflight c
      | None \<Rightarrow> wc_inflight c)\<rparr>) (s\<lparr>ig_sent := l\<rparr>))" for x rel l
    by (intro on_client_clients) (auto simp: client_ok_def split: option.split)
  with c fail show ?thesis by (auto simp: send_out_def split: option.split)
qed

lemma settle_clients: "clients_ok s \<Longrightarrow> clients_ok (settle k m s)"
proof (cases "find (\<lambda>j. job_key j = k) (ig_pending s)")
  case None
  assume "clients_ok s"
  then show ?thesis by (rule clients_same) (simp_all add: settle_def None)
next
  case (Some j)
  assume ok: "clients_ok s"
  show ?thesis
    by (rule clients_tupdate[OF ok, where P = "\<lambda>c. wc_id c \<in> set (jb_waiters j)" and f = "offer m True"]) (simp_all add: settle_def Some)
qed

lemma take_clients: "clients_ok s \<Longrightarrow> clients_ok (take_job s)"
  by (auto simp: take_job_def intro!: settle_clients intro: clients_same split: list.split option.split)

lemma answer_clients: "clients_ok s \<Longrightarrow> clients_ok (answer_job s)"
  by (auto simp: answer_job_def intro!: settle_clients intro: clients_same split: option.split prod.split sum.split)

lemma step_clients_ok: "clients_ok s \<Longrightarrow> clients_ok (fst (ingress_step T W a s))"
proof (cases a)
  case (Process_job env bk uid)
  assume "clients_ok s"
  then show ?thesis by (rule clients_same) (auto simp: Process_job process_job_def split: option.split prod.split)
next
  case (Controller bk x)
  assume "clients_ok s"
  then show ?thesis by (rule clients_same) (auto simp: Controller split: prod.split)
qed (auto simp: frame_clients leave_clients dial_clients take_out_clients send_out_clients take_clients answer_clients
    stop_accepting_def put_end_def intro: clients_same)

interpretation client_runs: kept_invariant "\<lambda>a s. fst (ingress_step T W a s)" clients_ok for T W
  by unfold_locales (rule step_clients_ok)

subsection \<open>Answers\<close>

text \<open>An event in flight waits in a pending job, or its answer waits to be sent.\<close>

definition waits :: "ingress \<Rightarrow> ws_client \<Rightarrow> string \<Rightarrow> bool" where
  "waits s c e \<longleftrightarrow>
     (\<exists>m. wc_machine c = Some m \<and> (\<exists>j \<in> set (ig_pending s). job_key j = (m, e) \<and> wc_id c \<in> set (jb_waiters j)))"

definition answer_queued :: "ws_client \<Rightarrow> string \<Rightarrow> bool" where
  "answer_queued c e \<longleftrightarrow> (\<exists>x. ((x, True) \<in> set (wc_out c) \<or> wc_hand c = Some (x, True)) \<and> message_event x = Some e)"

definition reachable_client :: "ws_client \<Rightarrow> bool" where
  "reachable_client c \<longleftrightarrow> \<not> wc_closed c \<and> wc_writer c"

definition answers_ok :: "ingress \<Rightarrow> bool" where
  "answers_ok s \<longleftrightarrow>
     (\<forall>j \<in> set (ig_pending s). snd (job_key j) \<noteq> []) \<and>
     (\<forall>k a. ig_current s = Some (k, Some (Inr a)) \<longrightarrow> au_event a = snd k) \<and>
     (\<forall>c \<in> set (ig_clients s). reachable_client c \<longrightarrow> (\<forall>e \<in> set (wc_inflight c). waits s c e \<or> answer_queued c e))"

lemma answers_okD:
  assumes "answers_ok s"
  shows "j \<in> set (ig_pending s) \<Longrightarrow> snd (job_key j) \<noteq> []" "ig_current s = Some (k, Some (Inr a)) \<Longrightarrow> au_event a = snd k"
    "c \<in> set (ig_clients s) \<Longrightarrow> reachable_client c \<Longrightarrow> e \<in> set (wc_inflight c) \<Longrightarrow> waits s c e \<or> answer_queued c e"
  using assms unfolding answers_ok_def by blast+

text \<open>A step that leaves the jobs alone and loses no queued answer of a client.\<close>

lemma answers_clients:
  assumes ok: "answers_ok s" and p: "ig_pending t = ig_pending s" "ig_current t = ig_current s"
    and c: "\<And>d. d \<in> set (ig_clients t) \<Longrightarrow> reachable_client d \<Longrightarrow> wc_inflight d = [] \<or>
      (\<exists>c \<in> set (ig_clients s). reachable_client c \<and> wc_id d = wc_id c \<and> wc_machine d = wc_machine c \<and>
         (\<forall>e \<in> set (wc_inflight d). e \<in> set (wc_inflight c) \<and> (answer_queued c e \<longrightarrow> answer_queued d e)))"
  shows "answers_ok t"
proof -
  have "waits t d e \<or> answer_queued d e" if d: "d \<in> set (ig_clients t)" "reachable_client d" "e \<in> set (wc_inflight d)" for d e
  proof -
    obtain c0 where z: "c0 \<in> set (ig_clients s)" "reachable_client c0" "wc_id d = wc_id c0" "wc_machine d = wc_machine c0"
      "e \<in> set (wc_inflight c0)" "answer_queued c0 e \<longrightarrow> answer_queued d e" using c[OF d(1,2)] d(3) by fastforce
    from answers_okD(3)[OF ok z(1,2,5)] z show ?thesis by (auto simp: waits_def p)
  qed
  then show ?thesis using answers_okD(1,2)[OF ok] unfolding answers_ok_def p by blast
qed

lemma offer_reachable: "reachable_client (offer m rel c) \<Longrightarrow> reachable_client c \<and> wc_out (offer m rel c) = wc_out c @ [(m, rel)]"
  by (auto simp: offer_def reachable_client_def split: if_splits)

lemma offer_answers: "reachable_client (offer m rel c) \<Longrightarrow> answer_queued c e \<Longrightarrow> answer_queued (offer m rel c) e"
  using offer_reachable[of m rel c] by (auto simp: answer_queued_def)

lemma reject_answers: "answers_ok s \<Longrightarrow> answers_ok (reject i code x s)"
proof (erule answers_clients)
  fix d assume d: "d \<in> set (ig_clients (reject i code x s))" "reachable_client d"
  then obtain c where c: "c \<in> set (ig_clients s)" "d = c \<or> d = offer (ws_nack code x) False c"
    by (auto simp: reject_def on_client_def set_tupdate)
  have "reachable_client c \<and> (\<forall>e. answer_queued c e \<longrightarrow> answer_queued d e)"
    using c(2) d(2) offer_reachable offer_answers by blast
  with c show "wc_inflight d = [] \<or>
      (\<exists>c \<in> set (ig_clients s). reachable_client c \<and> wc_id d = wc_id c \<and> wc_machine d = wc_machine c \<and>
         (\<forall>e \<in> set (wc_inflight d). e \<in> set (wc_inflight c) \<and> (answer_queued c e \<longrightarrow> answer_queued d e)))"
    by (intro disjI2 bexI[of _ c]) auto
qed (simp_all add: reject_def on_client_def)

lemma leave_answers: "answers_ok s \<Longrightarrow> answers_ok (leave i s)"
  by (erule answers_clients) (auto simp: leave_def)

lemma refuse_answers: "answers_ok s \<Longrightarrow> answers_ok (refuse_hello i code x s)"
  by (erule answers_clients) (auto simp: refuse_hello_def leave_def)

lemma greet_answers:
  assumes ok: "answers_ok s" "clients_ok s" and c: "find_client i s = Some c" "wc_machine c = None"
  shows "answers_ok (greet W i frame s)"
proof -
  have one: "wc_inflight b = []" if "b \<in> set (ig_clients s)" "wc_id b = i" for b
  proof -
    have "b = c" using same_id[OF ok(2) that(1)] that(2) find_client_facts[OF c(1)] by simp
    then show ?thesis using clients_okD(4)[OF ok(2) that(1)] c(2) by (simp add: client_ok_def)
  qed
  have "answers_ok (on_client i (\<lambda>c. offer x False (c\<lparr>wc_machine := Some m, wc_writer := True\<rparr>)) s)" for x m
    by (rule answers_clients[OF ok(1)]) (auto simp: on_client_def set_tupdate one)
  then show ?thesis using ok(1) leave_answers refuse_answers
    by (auto simp: greet_def split: ws_frame.split sum.split)
qed

lemma take_out_answers: "answers_ok s \<Longrightarrow> answers_ok (take_out i s)"
proof (erule answers_clients)
  fix d assume d: "d \<in> set (ig_clients (take_out i s))" "reachable_client d"
  then obtain c where c: "c \<in> set (ig_clients s)"
    "d = c \<or> wc_writer c \<and> wc_hand c = None \<and> (\<exists>m ms. wc_out c = m # ms \<and> d = c\<lparr>wc_out := ms, wc_hand := Some m\<rparr>)"
    by (auto simp: take_out_def on_client_def set_tupdate split: if_splits list.splits)
  have "answer_queued d e" if "answer_queued c e" for e
    using c(2) that by (auto simp: answer_queued_def)
  moreover have "reachable_client c" "wc_id d = wc_id c" "wc_machine d = wc_machine c" "wc_inflight d = wc_inflight c"
    using c(2) d(2) by (auto simp: reachable_client_def)
  ultimately show "wc_inflight d = [] \<or>
      (\<exists>c \<in> set (ig_clients s). reachable_client c \<and> wc_id d = wc_id c \<and> wc_machine d = wc_machine c \<and>
         (\<forall>e \<in> set (wc_inflight d). e \<in> set (wc_inflight c) \<and> (answer_queued c e \<longrightarrow> answer_queued d e)))"
    using c(1) by (intro disjI2 bexI[of _ c]) auto
qed (simp_all add: take_out_def on_client_def)

lemma send_out_answers:
  assumes ok: "answers_ok s" "clients_ok s"
  shows "answers_ok (send_out i sent s)"
proof (cases "find_client i s")
  case None
  with ok show ?thesis by (simp add: send_out_def)
next
  case (Some c0)
  note c0 = find_client_facts[OF Some]
  show ?thesis
  proof (cases "wc_hand c0")
    case None
    with ok Some show ?thesis by (simp add: send_out_def)
  next
    case (Some h)
    obtain m rel where h: "h = (m, rel)" by force
    let ?f = "if sent then (\<lambda>c. c\<lparr>wc_hand := None, wc_inflight := (case message_event m of
        Some e \<Rightarrow> if rel then removeAll e (wc_inflight c) else wc_inflight c | None \<Rightarrow> wc_inflight c)\<rparr>)
      else (\<lambda>c. c\<lparr>wc_hand := None, wc_writer := False\<rparr>)"
    have cl: "ig_clients (send_out i sent s) = tupdate (\<lambda>c. wc_id c = i) ?f (ig_clients s)"
      using \<open>find_client i s = Some c0\<close> Some h by (simp add: send_out_def on_client_def)
    show ?thesis
    proof (rule answers_clients[OF ok(1)])
      fix d assume d: "d \<in> set (ig_clients (send_out i sent s))" "reachable_client d"
      then obtain c where c: "c \<in> set (ig_clients s)" "d = (if wc_id c = i then ?f c else c)" unfolding cl set_tupdate by blast
      show "wc_inflight d = [] \<or>
        (\<exists>c \<in> set (ig_clients s). reachable_client c \<and> wc_id d = wc_id c \<and> wc_machine d = wc_machine c \<and>
           (\<forall>e \<in> set (wc_inflight d). e \<in> set (wc_inflight c) \<and> (answer_queued c e \<longrightarrow> answer_queued d e)))"
      proof (cases "wc_id c = i")
        case True
        then have "c = c0" using same_id[OF ok(2) c(1)] c0 by simp
        with Some h have hand: "wc_hand c = Some (m, rel)" by simp
        have "sent" using d(2) c(2) True by (auto simp: reachable_client_def split: if_splits)
        with c(2) True have dd: "d = c\<lparr>wc_hand := None, wc_inflight := (case message_event m of
            Some e \<Rightarrow> if rel then removeAll e (wc_inflight c) else wc_inflight c | None \<Rightarrow> wc_inflight c)\<rparr>" by simp
        have "e \<in> set (wc_inflight c) \<and> (answer_queued c e \<longrightarrow> answer_queued d e)" if "e \<in> set (wc_inflight d)" for e
          using that hand unfolding dd by (auto simp: answer_queued_def split: option.splits if_splits)
        moreover have "reachable_client c" using d(2) unfolding dd by (simp add: reachable_client_def)
        ultimately show ?thesis using c(1) dd by (intro disjI2 bexI[of _ c]) auto
      next
        case False
        with c d(2) show ?thesis by (intro disjI2 bexI[of _ c]) auto
      qed
    qed (use \<open>find_client i s = Some c0\<close> Some h in \<open>simp_all add: send_out_def on_client_def\<close>)
  qed
qed

text \<open>An admitted event waits in its job.\<close>

lemma admitted_answers:
  assumes ok: "answers_ok s" "clients_ok s" and c: "find_client i s = Some c" "wc_machine c = Some m"
    and t: "ig_clients t = tupdate (\<lambda>c. wc_id c = i) (\<lambda>c. c\<lparr>wc_inflight := List.insert e (wc_inflight c)\<rparr>) (ig_clients s)"
      "ig_current t = ig_current s"
    and p: "\<And>j. j \<in> set (ig_pending t) \<Longrightarrow> snd (job_key j) \<noteq> []" "\<exists>j \<in> set (ig_pending t). job_key j = (m, e) \<and> i \<in> set (jb_waiters j)"
    and keep: "\<And>d x. d \<in> set (ig_clients s) \<Longrightarrow> reachable_client d \<Longrightarrow> waits s d x \<Longrightarrow> waits t d x"
  shows "answers_ok t"
proof -
  have "waits t d x \<or> answer_queued d x" if d: "d \<in> set (ig_clients t)" "reachable_client d" "x \<in> set (wc_inflight d)" for d x
  proof -
    obtain b where b: "b \<in> set (ig_clients s)" "d = (if wc_id b = i then b\<lparr>wc_inflight := List.insert e (wc_inflight b)\<rparr> else b)"
      using d(1) unfolding t(1) set_tupdate by blast
    have r: "reachable_client b" using d(2) b(2) by (auto simp: reachable_client_def split: if_splits)
    have same: "wc_id d = wc_id b" "wc_machine d = wc_machine b" "answer_queued d x = answer_queued b x"
      using b(2) by (auto simp: answer_queued_def)
    show ?thesis
    proof (cases "x \<in> set (wc_inflight b)")
      case True
      have "waits t d x = waits t b x" using same by (simp add: waits_def)
      with answers_okD(3)[OF ok(1) b(1) r True] keep[OF b(1) r] same(3) show ?thesis by blast
    next
      case False
      with b(2) d(3) have "wc_id b = i" "x = e" by (auto split: if_splits simp: List.insert_def)
      moreover from this(1) have "b = c" using same_id[OF ok(2) b(1)] find_client_facts[OF c(1)] by simp
      ultimately show ?thesis using p(2) c(2) same by (auto simp: waits_def)
    qed
  qed
  then show ?thesis using answers_okD(2)[OF ok(1)] p(1) unfolding answers_ok_def t(2) by blast
qed

lemma open_reachable:
  assumes "clients_ok s" "d \<in> set (ig_clients s)" "reachable_client d"
  shows "client_open s (wc_id d)"
proof -
  have "find (\<lambda>c. wc_id c = wc_id d) (ig_clients s) = Some d"
    by (rule find_unique) (use clients_okD(1)[OF assms(1)] assms(2) in \<open>simp_all add: unique_key_def\<close>)
  with assms(3) show ?thesis by (simp add: client_open_def find_client_def reachable_client_def)
qed

lemma admit_answers:
  assumes ok: "answers_ok s" "clients_ok s" "queue_ok s" and c: "find_client i s = Some c" "wc_machine c = Some (ev_machine e)" "ev_id e \<noteq> []"
  shows "answers_ok (admit i e s)"
proof -
  have new: "answers_ok (enqueue i e s)"
  proof (rule admitted_answers[OF ok(1,2) c(1,2)])
    show "\<exists>j \<in> set (ig_pending (enqueue i e s)). job_key j = (ev_machine e, ev_id e) \<and> i \<in> set (jb_waiters j)"
      by (auto simp: enqueue_def Let_def on_client_def job_key_def)
    show "snd (job_key j) \<noteq> []" if "j \<in> set (ig_pending (enqueue i e s))" for j
      using that c(3) answers_okD(1)[OF ok(1)] by (auto simp: enqueue_def Let_def on_client_def job_key_def)
    show "waits (enqueue i e s) d x" if "waits s d x" for d x
      using that by (auto simp: waits_def enqueue_def Let_def on_client_def)
  qed (simp_all add: enqueue_def Let_def on_client_def)
  have old: "answers_ok (join_job i j s)" if f: "find (\<lambda>j. job_key j = (ev_machine e, ev_id e)) (ig_pending s) = Some j" for j
  proof -
    have j: "j \<in> set (ig_pending s)" "job_key j = (ev_machine e, ev_id e)" "ev_id (jb_event j) = ev_id e"
      using f by (auto simp: job_key_def dest: find_Some_mem)
    let ?w = "if i \<in> set (jb_waiters j) then jb_waiters j else filter (client_open s) (jb_waiters j) @ [i]"
    have pend: "ig_pending (join_job i j s) = tupdate (\<lambda>x. job_key x = job_key j) (\<lambda>x. x\<lparr>jb_waiters := ?w\<rparr>) (ig_pending s)"
      by (simp add: join_job_def Let_def on_client_def)
    have key: "job_key (x\<lparr>jb_waiters := w\<rparr>) = job_key x" for x w by (simp add: job_key_def)
    show ?thesis
    proof (rule admitted_answers[OF ok(1,2) c(1,2)])
      show "\<exists>x \<in> set (ig_pending (join_job i j s)). job_key x = (ev_machine e, ev_id e) \<and> i \<in> set (jb_waiters x)"
        unfolding pend set_tupdate using j by (intro bexI[of _ "j\<lparr>jb_waiters := ?w\<rparr>"]) (auto simp: key image_iff intro!: bexI[of _ j])
      show "snd (job_key x) \<noteq> []" if "x \<in> set (ig_pending (join_job i j s))" for x
      proof -
        obtain b where "b \<in> set (ig_pending s)" "job_key x = job_key b" using \<open>x \<in> set _\<close> unfolding pend set_tupdate by (auto simp: key)
        then show ?thesis using answers_okD(1)[OF ok(1)] by simp
      qed
      show "ig_clients (join_job i j s) = tupdate (\<lambda>c. wc_id c = i) (\<lambda>c. c\<lparr>wc_inflight := List.insert (ev_id e) (wc_inflight c)\<rparr>) (ig_clients s)"
        by (simp add: join_job_def Let_def on_client_def j(3))
      show "waits (join_job i j s) d x" if d: "d \<in> set (ig_clients s)" "reachable_client d" "waits s d x" for d x
      proof -
        obtain m b where w: "wc_machine d = Some m" "b \<in> set (ig_pending s)" "job_key b = (m, x)" "wc_id d \<in> set (jb_waiters b)"
          using d(3) by (auto simp: waits_def)
        show ?thesis
        proof (cases "b = j")
          case True
          have "wc_id d \<in> set ?w" using w(4) True open_reachable[OF ok(2) d(1,2)] by auto
          moreover have "j\<lparr>jb_waiters := ?w\<rparr> \<in> set (ig_pending (join_job i j s))" unfolding pend set_tupdate using j(1) by force
          ultimately show ?thesis using w(1,3) True unfolding waits_def by (intro exI[of _ m] conjI bexI[of _ "j\<lparr>jb_waiters := ?w\<rparr>"]) (auto simp: key)
        next
          case False
          then have "job_key b \<noteq> job_key j" using w(2) j(1) queue_okD(2)[OF ok(3)] by (auto simp: distinct_map inj_on_def)
          then have "b \<in> set (ig_pending (join_job i j s))" unfolding pend set_tupdate using w(2) by force
          with w show ?thesis by (auto simp: waits_def)
        qed
      qed
    qed (simp add: join_job_def Let_def on_client_def)
  qed
  show ?thesis using reject_answers[OF ok(1)] new old ok(1) c(1)
    by (auto simp: admit_def split: option.split)
qed

lemma nack_event: "e \<noteq> [] \<Longrightarrow> message_event (ws_nack code (Some e)) = Some e"
  by (cases e) (simp_all add: message_event_def ws_nack_def)

lemma settle_answers:
  assumes ok: "answers_ok s" "queue_ok s" and k: "message_event m = Some (snd k)"
    and f: "find (\<lambda>j. job_key j = k) (ig_pending s) = Some j"
  shows "answers_ok (settle k m s)"
proof -
  have j: "j \<in> set (ig_pending s)" "job_key j = k" using f by (auto dest: find_Some_mem)
  have t: "ig_clients (settle k m s) = tupdate (\<lambda>c. wc_id c \<in> set (jb_waiters j)) (offer m True) (ig_clients s)"
    "ig_pending (settle k m s) = filter (\<lambda>j. job_key j \<noteq> k) (ig_pending s)" "ig_current (settle k m s) = None"
    by (simp_all add: settle_def f)
  have "waits (settle k m s) d e \<or> answer_queued d e"
    if d: "d \<in> set (ig_clients (settle k m s))" "reachable_client d" "e \<in> set (wc_inflight d)" for d e
  proof -
    obtain c where c: "c \<in> set (ig_clients s)" "d = (if wc_id c \<in> set (jb_waiters j) then offer m True c else c)"
      using d(1) unfolding t(1) set_tupdate by blast
    have r: "reachable_client c" using d(2) c(2) offer_reachable by (auto split: if_splits)
    have same: "wc_id d = wc_id c" "wc_machine d = wc_machine c" "wc_inflight d = wc_inflight c" using c(2) by auto
    from answers_okD(3)[OF ok(1) c(1) r] d(3) same(3) have "waits s c e \<or> answer_queued c e" by simp
    then show ?thesis
    proof
      assume "answer_queued c e"
      then show ?thesis using c(2) d(2) offer_answers by (auto split: if_splits)
    next
      assume "waits s c e"
      then obtain n b where b: "wc_machine c = Some n" "b \<in> set (ig_pending s)" "job_key b = (n, e)" "wc_id c \<in> set (jb_waiters b)"
        by (auto simp: waits_def)
      show ?thesis
      proof (cases "job_key b = k")
        case True
        then have "b = j" using j b(2) queue_okD(2)[OF ok(2)] by (auto simp: distinct_map inj_on_def)
        with c(2) b(4) have dd: "d = offer m True c" by simp
        have "message_event m = Some e" using k True b(3) by auto
        then have "answer_queued d e" using offer_reachable[of m True c] d(2) unfolding dd by (auto simp: answer_queued_def)
        then show ?thesis by blast
      next
        case False
        with b same show ?thesis by (auto simp: waits_def t(2))
      qed
    qed
  qed
  then show ?thesis using answers_okD(1)[OF ok(1)] unfolding answers_ok_def t(2,3) by auto
qed

lemma take_answers:
  assumes ok: "answers_ok s" "queue_ok s"
  shows "answers_ok (take_job s)"
proof (cases "ig_worker s \<and> ig_current s = None")
  case idle: True
  show ?thesis
  proof (cases "\<exists>k ks. ig_jobs s = Some k # ks")
    case True
    then obtain k ks where k: "ig_jobs s = Some k # ks" by blast
    then have "k \<in> set (current_keys s @ queued_keys s)" by (simp add: queued_keys_def)
    then obtain j where j: "find (\<lambda>j. job_key j = k) (ig_pending s) = Some j" "j \<in> set (ig_pending s)" "job_key j = k"
      using pending_find[OF ok(2)] by blast
    have ne: "snd k \<noteq> []" using answers_okD(1)[OF ok(1) j(2)] j(3) by simp
    let ?s = "s\<lparr>ig_jobs := ks\<rparr>"
    have s: "answers_ok ?s" by (rule answers_clients[OF ok(1)]) auto
    have "answers_ok (settle k (ws_nack ''capture_stopped'' (Some (snd k))) ?s)"
    proof -
      have "settle k m ?s = (settle k m s)\<lparr>ig_jobs := ks\<rparr>" for m by (simp add: settle_def j(1))
      moreover have "answers_ok ((settle k m s)\<lparr>ig_jobs := ks\<rparr>)" if "message_event m = Some (snd k)" for m
        by (rule answers_clients[OF settle_answers[OF ok that j(1)]]) auto
      ultimately show ?thesis using nack_event[OF ne] by simp
    qed
    moreover have "answers_ok (s\<lparr>ig_jobs := ks, ig_current := Some (k, None)\<rparr>)"
      using ok(1) by (simp add: answers_ok_def waits_def)
    ultimately show ?thesis using idle k by (simp add: take_job_def)
  next
    case False
    have "answers_ok (s\<lparr>ig_jobs := ks, ig_worker := False\<rparr>)" for ks by (rule answers_clients[OF ok(1)]) auto
    with False idle ok show ?thesis by (auto simp: take_job_def split: list.split option.split)
  qed
next
  case False
  with ok show ?thesis by (auto simp: take_job_def)
qed

lemma receive_event: "fst (receive env digest uid rt api dest e j) = Inr r \<Longrightarrow> rp_event r = ev_id e"
  by (auto simp: receive_def answer_duplicate_def answer_new_def Let_def respond_def split: sum.splits prod.splits bool.splits option.splits if_splits)

lemma receive_native_event: "receive_native T env bk uid g e d = (Inr a, d', ks) \<Longrightarrow> au_event a = ev_id e"
proof -
  have nat: "rp_event r = ev_id e" if "native_receive T env uid e d = (Inr r, d1, ks1)" for r d1 ks1
  proof (rule receive_event)
    show "fst (receive env (dt_digest T) uid (dk_native d) None (dk_selected d) e (dk_journal d)) = Inr r"
      using that by (simp add: native_receive_def split: prod.splits)
  qed
  have auto: "au_event x = ev_id e" if a: "auto_receive T env bk uid e d = (Inr x, d2, ks2)" for x d2 ks2
    using a nat by (auto simp: auto_receive_def then_do_def reply_of_def record_auto_def answered_def Let_def
        split: prod.splits sum.splits if_splits option.splits)
  then show "receive_native T env bk uid g e d = (Inr a, d', ks) \<Longrightarrow> au_event a = ev_id e"
    by (auto simp: receive_native_def split: if_splits)
qed

lemma process_answers:
  assumes "answers_ok s"
  shows "answers_ok (fst (process_job T env bk uid s))"
proof (cases "ig_current s")
  case (Some x)
  obtain k r where x: "x = (k, r)" by (cases x) blast
  show ?thesis
  proof (cases "r = None")
    case True
    then show ?thesis
    proof (cases "find (\<lambda>j. job_key j = k) (ig_pending s)")
      case None
      with True Some x assms show ?thesis by (simp add: process_job_def)
    next
      case (Some j)
      obtain a d ks where n: "receive_native T env bk uid (Some (jb_generation j)) (jb_event j) (ig_desk s) = (a, d, ks)" by (metis prod_cases3)
      have "snd k = ev_id (jb_event j)" using Some by (auto simp: job_key_def dest: find_Some_mem)
      then have "au_event b = snd k" if "a = Inr b" for b using receive_native_event[OF n[unfolded that]] by simp
      then show ?thesis using assms True Some \<open>ig_current s = Some x\<close> x n by (auto simp: process_job_def answers_ok_def waits_def)
    qed
  next
    case False
    with Some x assms show ?thesis by (auto simp: process_job_def)
  qed
qed (use assms in \<open>simp add: process_job_def\<close>)

lemma answer_answers:
  assumes ok: "answers_ok s" "queue_ok s"
  shows "answers_ok (answer_job s)"
proof (cases "ig_current s")
  case (Some x)
  obtain k r where x: "x = (k, r)" by (cases x) blast
  have "k \<in> set (current_keys s @ queued_keys s)" using Some x by (simp add: current_keys_def)
  then obtain j where j: "find (\<lambda>j. job_key j = k) (ig_pending s) = Some j" "j \<in> set (ig_pending s)" "job_key j = k"
    using pending_find[OF ok(2)] by blast
  have ne: "snd k \<noteq> []" using answers_okD(1)[OF ok(1) j(2)] j(3) by simp
  have st: "answers_ok (settle k m t)" if m: "message_event m = Some (snd k)"
    and t: "settle k m t = (settle k m s)\<lparr>ig_acknowledged := a, ig_last_error := b\<rparr>" for m t a b
    unfolding t by (rule answers_clients[OF settle_answers[OF ok m j(1)]]) auto
  have good: "answers_ok (settle k m (s\<lparr>ig_acknowledged := a\<rparr>))" if "message_event m = Some (snd k)" for m a
    by (rule st[OF that, where a = a and b = "ig_last_error s"]) (simp add: settle_def j(1))
  have bad: "answers_ok (settle k m (s\<lparr>ig_last_error := b\<rparr>))" if "message_event m = Some (snd k)" for m b
    by (rule st[OF that, where a = "ig_acknowledged s" and b = b]) (simp add: settle_def j(1))
  have same: "answers_ok (settle k m s)" if "message_event m = Some (snd k)" for m by (rule settle_answers[OF ok that j(1)])
  show ?thesis
  proof (cases r)
    case None
    with Some x ok show ?thesis by (simp add: answer_job_def)
  next
    case (Some q)
    show ?thesis
    proof (cases q)
      case (Inl ex)
      with \<open>ig_current s = Some x\<close> x Some show ?thesis
        using same[OF nack_event[OF ne]] bad[OF nack_event[OF ne]] by (simp add: answer_job_def)
    next
      case (Inr a)
      have "au_event a = snd k" using answers_okD(2)[OF ok(1)] \<open>ig_current s = Some x\<close> x Some Inr by simp
      then have "message_event (Ack (au_event a) (au_duplicate a) a) = Some (snd k)" using ne by (simp add: message_event_def)
      from good[OF this] \<open>ig_current s = Some x\<close> x Some Inr show ?thesis by (simp add: answer_job_def)
    qed
  qed
qed (use ok in \<open>simp add: answer_job_def\<close>)

text \<open>Event bodies that pass the check have an identity.\<close>

definition ids_ok :: "ws_tools \<Rightarrow> bool" where
  "ids_ok W \<longleftrightarrow> (\<forall>x e. wt_validate W x = Some e \<longrightarrow> ev_id e \<noteq> [])"

lemma ws_event_validated: "ws_event n validate fs m = Inr e \<Longrightarrow> \<exists>raw. validate raw = Some e"
  by (auto simp: ws_event_def Let_def split: if_splits option.splits json.splits)

lemma frame_answers:
  assumes ok: "answers_ok s" "clients_ok s" "queue_ok s" and W: "ids_ok W"
  shows "answers_ok (receive_frame W i frame s)"
proof -
  have adm: "answers_ok (admit i e s)" if "find_client i s = Some c" "wc_machine c = Some m"
    "ws_event (wt_dump_size W) (wt_validate W) fs m = Inr e" for c m fs e
    using admit_answers[OF ok that(1)] ws_event_machine[OF that(3)] ws_event_validated[OF that(3)] that(2) W by (auto simp: ids_ok_def)
  show ?thesis
    using ok greet_answers[OF ok(1,2)] leave_answers[OF ok(1)] reject_answers[OF ok(1)] adm
    by (auto simp: receive_frame_def bindE_Inr split: option.split ws_frame.split sum.split)
qed

definition ingress_ok :: "ws_tools \<Rightarrow> ingress \<Rightarrow> bool" where
  "ingress_ok W s \<longleftrightarrow> queue_ok s \<and> clients_ok s \<and> (ids_ok W \<longrightarrow> answers_ok s)"

lemma dial_answers: "answers_ok s \<Longrightarrow> answers_ok (dial s)"
  by (erule answers_clients) (auto simp: dial_def split: if_splits)

lemma step_answers:
  assumes ok: "answers_ok s" "clients_ok s" "queue_ok s" and W: "ids_ok W"
  shows "answers_ok (fst (ingress_step T W a s))"
proof (cases a)
  case Set_stop
  then show ?thesis by (simp, intro answers_clients[OF ok(1)]) auto
next
  case Stop_accepting
  then show ?thesis by (simp, intro answers_clients[OF ok(1)]) (auto simp: stop_accepting_def split: if_splits)
next
  case Put_end
  then show ?thesis by (simp, intro answers_clients[OF ok(1)]) (auto simp: put_end_def split: if_splits)
next
  case (Controller bk x)
  then show ?thesis by (simp split: prod.split, intro allI impI answers_clients[OF ok(1)]) auto
qed (simp_all add: frame_answers[OF ok W] leave_answers ok(1) take_answers[OF ok(1,3)] answer_answers[OF ok(1,3)] process_answers
    take_out_answers send_out_answers[OF ok(1,2)] dial_answers)

interpretation ingress_runs: kept_invariant "\<lambda>a s. fst (ingress_step T W a s)" "ingress_ok W" for T W
  by unfold_locales (simp add: ingress_ok_def step_queue_ok step_clients_ok step_answers)

lemma new_ingress_ok: "new_ingress q m d = Inr s \<Longrightarrow> ingress_ok W s"
  by (auto simp: new_ingress_def ingress_ok_def queue_ok_def clients_ok_def answers_ok_def current_keys_def queued_keys_def split: if_splits)

subsection \<open>Writes\<close>

lemma desk_kept [simp]:
  "ig_desk (on_client i f s) = ig_desk s" "ig_desk (leave i s) = ig_desk s" "ig_desk (reject i code x s) = ig_desk s"
  "ig_desk (refuse_hello i code x s) = ig_desk s" "ig_desk (join_job i j s) = ig_desk s" "ig_desk (enqueue i e s) = ig_desk s"
  "ig_desk (settle k m s) = ig_desk s"
  by (simp_all add: on_client_def leave_def reject_def refuse_hello_def join_job_def enqueue_def settle_def Let_def split: option.split)

lemma desk_kept_frames [simp]:
  "ig_desk (admit i e s) = ig_desk s" "ig_desk (greet W i f s) = ig_desk s"
  by (simp_all add: admit_def greet_def split: option.split ws_frame.split sum.split prod.split)

lemma desk_kept_frame [simp]: "ig_desk (receive_frame W i f s) = ig_desk s"
  by (simp add: receive_frame_def split: option.split ws_frame.split sum.split prod.split)

lemma ingress_step_once: "once (\<lambda>s. desk_claimed (ig_desk s)) s (fst (ingress_step T W a s)) (snd (ingress_step T W a s))"
proof -
  have desk: "once desk_claimed d (fst (desk_step T x d)) (snd (desk_step T x d))" for x d by (rule desk_step_once)
  have native: "once desk_claimed d d' ks" if "receive_native T env bk uid g e d = (r, d', ks)" for env bk uid g e d r d' ks
    using desk[of d "(bk, Op_native env uid g e)"] that
    by (auto simp: desk_step_def no_answer_def then_do_def split: sum.splits)
  have same: "ig_desk t = ig_desk s \<Longrightarrow> once (\<lambda>s. desk_claimed (ig_desk s)) s t []" for t by (rule once_same) simp
  have lift: "once desk_claimed (ig_desk s) (ig_desk t) ks \<Longrightarrow> once (\<lambda>s. desk_claimed (ig_desk s)) s t ks" for t ks
    by (simp add: once_def)
  show ?thesis
  proof (cases a)
    case (Process_job env bk uid)
    then show ?thesis
      using native by (auto simp: process_job_def intro!: lift split: option.split prod.split)
  next
    case (Controller bk x)
    then show ?thesis using desk[of "ig_desk s" "(bk, x)"] by (auto intro!: lift split: prod.split)
  next
    case (Frame i f)
    then show ?thesis by (simp add: same)
  next
    case Take_job
    then show ?thesis by (simp, intro same) (simp add: take_job_def split: list.split option.split)
  next
    case Answer_job
    then show ?thesis by (simp, intro same) (simp add: answer_job_def split: option.split prod.split sum.split)
  next
    case (Send_out i ok)
    then show ?thesis by (simp, intro same) (simp add: send_out_def split: option.split prod.split)
  qed (simp_all add: same dial_def take_out_def stop_accepting_def put_end_def)
qed

interpretation ingress_writes: claimed_writes "ingress_step T W" "\<lambda>s. desk_claimed (ig_desk s)" for T W
  by (rule claimed_writes_once) (rule ingress_step_once)

subsection \<open>Properties\<close>

text \<open>
  C16: admission is bounded and in order: over any connections, frames, sends, stops and other operations of
  the controller, the queue stays within its limit, at most eight clients are connected, each machine
  once and each with its answers and events in flight within their bounds, and the admitted events are
  answered one by one in the order of their admission; when the worker has ended none is left.
\<close>
theorem admitted_events_in_order:
  assumes "new_ingress q m d = Inr s0" and "s = fst (run_emits (ingress_step T W) ops s0)"
  shows "ig_admitted s = map fst (ig_done s) @ map job_key (ig_pending s) \<and> length (ig_jobs s) \<le> ig_queue_limit s \<and>
         length (ig_clients s) \<le> 8 \<and>
         (\<forall>c \<in> set (ig_clients s). length (wc_out c) \<le> 64 \<and> length (wc_inflight c) \<le> ig_max_inflight s) \<and>
         (\<forall>c \<in> set (ig_clients s). \<forall>e \<in> set (ig_clients s). wc_machine c \<noteq> None \<longrightarrow> wc_machine c = wc_machine e \<longrightarrow> c = e) \<and>
         (\<not> ig_worker s \<longrightarrow> ig_pending s = [])"
proof -
  have ok: "ingress_ok W s" unfolding assms(2) run_emits_fold by (rule ingress_runs.run_inv[OF new_ingress_ok[OF assms(1)]])
  then have q: "queue_ok s" and c: "clients_ok s" by (simp_all add: ingress_ok_def)
  note qd = queue_okD[OF q] and cd = clients_okD[OF c]
  have machines: "x = y" if "x \<in> set (ig_clients s)" "y \<in> set (ig_clients s)" "wc_machine x \<noteq> None" "wc_machine x = wc_machine y" for x y
    using that cd(5)[OF that(1,2)] same_id[OF c that(1,2)] by auto
  have "ig_admitted s = map fst (ig_done s) @ map job_key (ig_pending s)" unfolding qd(1) by (rule qd(6))
  moreover have "\<not> ig_worker s \<longrightarrow> ig_pending s = []"
    using qd(1,4) by (auto simp: queued_keys_def current_keys_def)
  moreover have "\<forall>c \<in> set (ig_clients s). length (wc_out c) \<le> 64 \<and> length (wc_inflight c) \<le> ig_max_inflight s"
    using cd(4) by (simp add: client_ok_def)
  ultimately show ?thesis using qd(5) cd(2) machines by blast
qed

text \<open>
  C33: no answer is lost: an event that a connected client has in flight is in a pending job that the client
  waits for, or its answer is queued for the client, as long as the client reads its answers and its
  connection works.
\<close>
theorem in_flight_is_answered:
  assumes "new_ingress q m d = Inr s0" and "s = fst (run_emits (ingress_step T W) ops s0)" and "ids_ok W"
    and "c \<in> set (ig_clients s)" "reachable_client c" "e \<in> set (wc_inflight c)"
  shows "waits s c e \<or> answer_queued c e"
proof -
  have "ingress_ok W s" unfolding assms(2) run_emits_fold by (rule ingress_runs.run_inv[OF new_ingress_ok[OF assms(1)]])
  then have "answers_ok s" using assms(3) by (simp add: ingress_ok_def)
  from answers_okD(3)[OF this assms(4-6)] show ?thesis .
qed

text \<open>
  C1: the socket writes once: whatever senders connect, repeat and race, beside any other operations of the
  controller, each broker write is sent at most once and none that was on record before.
\<close>
theorem socket_writes_once:
  "distinct (snd (run_emits (ingress_step T W) ops s)) \<and>
   {k. desk_claimed (ig_desk s) k} \<inter> set (snd (run_emits (ingress_step T W) ops s)) = {}"
  using ingress_writes.run_at_most_once ingress_writes.run_fresh by blast

subsection \<open>A sender that connects and sends an event\<close>

definition small_tools :: ws_tools where
  "small_tools = \<lparr>wt_uuid = (\<lambda>_. True), wt_dump_size = (\<lambda>_. 1), wt_validate = (\<lambda>_. Some sample_order)\<rparr>"

definition hello_value :: json where
  "hello_value = JS_obj [(''type'', JS_str ''hello''), (''transport_version'', JS_str ''1.0.0''),
     (''event_schema_version'', JS_str ''1.1.0''), (''machine'', JS_str ''m''), (''sender_instance_id'', JS_str ''u'')]"

definition event_value :: json where
  "event_value = JS_obj [(''type'', JS_str ''event''), (''transport_version'', JS_str ''1.0.0''),
     (''event'', JS_obj [(''schema_version'', JS_str ''1.1.0''), (''event_id'', JS_str ''e1'')])]"

lemma small_frames:
  "bindE (ws_decode 10 (Some hello_value)) (ws_hello (wt_uuid small_tools)) = Inr ''m''"
  "bindE (ws_decode 10 (Some event_value)) (\<lambda>fs. ws_event (wt_dump_size small_tools) (wt_validate small_tools) fs ''m'') = Inr sample_order"
  "ev_machine sample_order = ''m''" "ev_id sample_order = ''e1''"
  by (simp_all add: ws_decode_def ws_hello_def ws_event_def exactly_keys_def hello_value_def event_value_def small_tools_def Let_def
      sample_order_def sample_event_def)

definition first_ingress :: ingress where
  "first_ingress = \<lparr>ig_queue_limit = 2, ig_max_inflight = 1, ig_accepting = True, ig_stopping = False,
     ig_pending = [], ig_jobs = [], ig_current = None, ig_worker = True, ig_clients = [], ig_next = 0,
     ig_received = 0, ig_acknowledged = 0, ig_rejected = 0, ig_last_error = None, ig_desk = sample_desk, ig_sent = [],
     ig_admitted = [], ig_done = []\<rparr>"

lemma first_ingress_new: "new_ingress 2 1 sample_desk = Inr first_ingress"
  by (simp add: new_ingress_def first_ingress_def)

definition small_ops :: "ingress_op list" where
  "small_ops = [Dial, Frame 0 (Text 10 (Some hello_value)), Frame 0 (Text 10 (Some event_value))]"

definition small_run :: ingress where
  "small_run = fst (run_emits (ingress_step sample_tools small_tools) small_ops first_ingress)"

lemma small_run_state:
  "ig_clients small_run = [\<lparr>wc_id = 0, wc_machine = Some ''m'', wc_out = [(Ready 1 True False, False)], wc_hand = None, wc_inflight = [''e1''],
     wc_closed = False, wc_writer = True\<rparr>]" "ig_admitted small_run = [(''m'', ''e1'')]"
  by (simp_all add: small_run_def small_ops_def run_emits_fold dial_def receive_frame_def find_client_def greet_def small_frames on_client_def
      offer_def admit_def enqueue_def Let_def job_key_def first_ingress_def sample_desk_def)

theorem admitted_events_in_order_witness:
  "[(''m'', ''e1'')] = map fst (ig_done small_run) @ map job_key (ig_pending small_run)"
  using admitted_events_in_order[OF first_ingress_new small_run_def] by (simp add: small_run_state)

theorem in_flight_is_answered_witness: "\<exists>c. wc_inflight c = [''e1''] \<and> (waits small_run c ''e1'' \<or> answer_queued c ''e1'')"
proof -
  have "ids_ok small_tools" by (simp add: ids_ok_def small_tools_def small_frames(4))
  from in_flight_is_answered[OF first_ingress_new small_run_def this, of "hd (ig_clients small_run)" "''e1''"]
  show ?thesis by (intro exI[of _ "hd (ig_clients small_run)"]) (simp add: small_run_state reachable_client_def)
qed

end
