(* ===== verification/BodyFraming.thy ===== *)
theory BodyFraming
  imports DecimalText Unwind
begin

text \<open>
  The body of a request to be forwarded (dashboard/server.py, \<open>read_forward_body\<close>): a counted body or
  chunks, each with its size in hexadecimal. A byte is a character; the input is what the connection holds.
\<close>

subsection \<open>Reading\<close>

definition max_request :: nat where
  "max_request = 1048576"

text \<open>\<open>readline(n)\<close>: up to the line end, at most \<open>n\<close> bytes; the line and what follows.\<close>

definition read_line :: "nat \<Rightarrow> string \<Rightarrow> string \<times> string" where
  "read_line n inp =
     (let line = take n (takeWhile (\<lambda>c. c \<noteq> CHR 0x0A) inp @ take 1 (dropWhile (\<lambda>c. c \<noteq> CHR 0x0A) inp))
      in (line, drop (length line) inp))"

lemma read_line_parts: "read_line n inp = (line, rest) \<Longrightarrow> rest = drop (length line) inp \<and> length line \<le> length inp"
proof -
  have "length (takeWhile P xs) + length (take 1 (dropWhile P xs)) \<le> length xs" for P and xs :: string
    by (induction xs) auto
  then have "length (take n (takeWhile P xs @ take 1 (dropWhile P xs))) \<le> length xs" for P and xs :: string
    by (metis length_append length_take min.coboundedI1 min.commute)
  then show "read_line n inp = (line, rest) \<Longrightarrow> rest = drop (length line) inp \<and> length line \<le> length inp"
    by (auto simp: read_line_def Let_def)
qed

definition crlf :: string where
  "crlf = [CHR 0x0D, CHR 0x0A]"

definition ends_crlf :: "string \<Rightarrow> bool" where
  "ends_crlf line \<longleftrightarrow> 2 \<le> length line \<and> drop (length line - 2) line = crlf"

definition is_hex :: "char \<Rightarrow> bool" where
  "is_hex c \<longleftrightarrow> is_digit c \<or> code_in 65 70 c \<or> code_in 97 102 c"

definition hex_val :: "char \<Rightarrow> nat" where
  "hex_val c = (if is_digit c then of_char c - 48 else if code_in 65 70 c then of_char c - 55 else of_char c - 87)"

definition hex_number :: "string \<Rightarrow> nat" where
  "hex_number s = foldl (\<lambda>n c. 16 * n + hex_val c) 0 s"

function read_chunks :: "string \<Rightarrow> string \<Rightarrow> string res" where
  "read_chunks body inp =
     (let (line, rest) = read_line 8193 inp; digits = takeWhile (\<lambda>c. c \<noteq> CHR '';'') (take (length line - 2) line) in
      if \<not> ends_crlf line \<or> 8192 < length line then Inl (value_error ''Invalid chunk header'')
      else if digits = [] \<or> \<not> list_all is_hex digits then Inl (value_error ''Invalid chunk size'')
      else if max_request < length body + hex_number digits then Inl (value_error ''Body too large'')
      else if hex_number digits = 0
      then (if fst (read_line 8193 rest) \<noteq> crlf then Inl (value_error ''Request trailers unsupported'') else Inr body)
      else if length (take (hex_number digits) rest) \<noteq> hex_number digits \<or> take 2 (drop (hex_number digits) rest) \<noteq> crlf
      then Inl (value_error ''Incomplete chunk'')
      else read_chunks (body @ take (hex_number digits) rest) (drop 2 (drop (hex_number digits) rest)))"
  by pat_completeness auto
termination
  by (relation "measure (\<lambda>(_, inp). length inp)") (auto simp: ends_crlf_def dest!: sym[of "(_, _)" "read_line _ _"] dest: read_line_parts)

declare read_chunks.simps [simp del]

text \<open>The values of the two framing headers, in their order.\<close>

definition read_forward_body :: "string list \<Rightarrow> string list \<Rightarrow> string \<Rightarrow> string res" where
  "read_forward_body lengths encodings inp =
     (if 1 < length lengths \<or> 1 < length encodings \<or> (lengths \<noteq> [] \<and> encodings \<noteq> [])
      then Inl (value_error ''Ambiguous framing'')
      else (case encodings of
              [] \<Rightarrow>
                (let n = (case lengths of [] \<Rightarrow> ''0'' | x # _ \<Rightarrow> x) in
                 if n = [] \<or> \<not> list_all is_digit n \<or> max_request < digits_val n then Inl (value_error ''Invalid body length'')
                 else if length (take (digits_val n) inp) \<noteq> digits_val n then Inl (value_error ''Incomplete body'')
                 else Inr (take (digits_val n) inp))
            | x # _ \<Rightarrow>
                if lower_ascii x \<noteq> ''chunked'' then Inl (value_error ''Unsupported transfer coding'') else read_chunks [] inp))"

subsection \<open>Writing\<close>

text \<open>A sender's chunk: its size, an optional extension, its bytes.\<close>

fun hex_text :: "nat \<Rightarrow> string" where
  "hex_text n = (if n < 16 then [hex_digit n] else hex_text (n div 16) @ [hex_digit n])"

declare hex_text.simps [simp del]

definition frame_chunk :: "string \<times> string \<Rightarrow> string" where
  "frame_chunk = (\<lambda>(ext, c). hex_text (length c) @ ext @ crlf @ c @ crlf)"

definition extension_ok :: "string \<Rightarrow> bool" where
  "extension_ok ext \<longleftrightarrow> (ext = [] \<or> hd ext = CHR '';'') \<and> CHR 0x0A \<notin> set ext \<and> length ext \<le> 8000"

subsection \<open>Round trip\<close>

lemma list_all_mem: "list_all P xs \<Longrightarrow> x \<in> set xs \<Longrightarrow> P x"
  by (simp add: list_all_iff)

lemma hex_digit_facts:
  "is_hex (hex_digit n)" "hex_val (hex_digit n) = n mod 16" "hex_digit n \<noteq> CHR 0x0A" "hex_digit n \<noteq> CHR '';''"
proof -
  have "n mod 16 \<in> {0..<16}" by simp
  then have "n mod 16 \<in> set [0..<16]" by simp
  moreover have "list_all (\<lambda>k. is_hex (''0123456789abcdef'' ! k) \<and> hex_val (''0123456789abcdef'' ! k) = k \<and>
      ''0123456789abcdef'' ! k \<noteq> CHR 0x0A \<and> ''0123456789abcdef'' ! k \<noteq> CHR '';'') [0..<16]" by code_simp
  ultimately have "is_hex (hex_digit n) \<and> hex_val (hex_digit n) = n mod 16 \<and> hex_digit n \<noteq> CHR 0x0A \<and> hex_digit n \<noteq> CHR '';''"
    unfolding hex_digit_def list_all_iff by blast
  then show "is_hex (hex_digit n)" "hex_val (hex_digit n) = n mod 16" "hex_digit n \<noteq> CHR 0x0A" "hex_digit n \<noteq> CHR '';''" by simp_all
qed

lemma hex_text_facts:
  "hex_number (hex_text n) = n \<and> list_all is_hex (hex_text n) \<and> hex_text n \<noteq> [] \<and> CHR 0x0A \<notin> set (hex_text n) \<and> CHR '';'' \<notin> set (hex_text n)"
proof (induction n rule: hex_text.induct)
  case (1 n)
  show ?case
  proof (cases "n < 16")
    case True
    then show ?thesis using hex_digit_facts[of n] by (auto simp: hex_text.simps[of n] hex_number_def)
  next
    case False
    with 1 show ?thesis using hex_digit_facts[of n] by (auto simp: hex_text.simps[of n] hex_number_def)
  qed
qed

lemma hex_text_length: "n < 16 ^ k \<Longrightarrow> 0 < k \<Longrightarrow> length (hex_text n) \<le> k"
proof (induction k arbitrary: n)
  case (Suc k)
  show ?case
  proof (cases "n < 16")
    case False
    then have "k \<noteq> 0" using Suc.prems by (cases k) auto
    moreover have "n div 16 < 16 ^ k" using Suc.prems(1) by (simp add: div_less_iff_less_mult mult.commute)
    ultimately show ?thesis using Suc.IH[of "n div 16"] False by (simp add: hex_text.simps[of n])
  qed (simp add: hex_text.simps[of n])
qed simp

lemma read_line_crlf:
  assumes "CHR 0x0A \<notin> set l" "length l \<le> 8190"
  shows "read_line 8193 (l @ crlf @ r) = (l @ crlf, r)"
proof -
  have "takeWhile (\<lambda>c. c \<noteq> CHR 0x0A) (l @ crlf @ r) = l @ [CHR 0x0D]" "dropWhile (\<lambda>c. c \<noteq> CHR 0x0A) (l @ crlf @ r) = CHR 0x0A # r"
    using assms(1) by (induction l) (auto simp: crlf_def)
  with assms(2) show ?thesis by (simp add: read_line_def crlf_def)
qed

lemma read_one_chunk:
  assumes "c \<noteq> []" "extension_ok ext" "length body + length c \<le> max_request"
  shows "read_chunks body (frame_chunk (ext, c) @ rest) = read_chunks (body @ c) rest"
proof -
  let ?l = "hex_text (length c) @ ext"
  have "length c < 16 ^ 6" using assms(3) by (simp add: max_request_def)
  then have len: "length ?l \<le> 8190" using hex_text_length[of "length c" 6] assms(2) by (simp add: extension_ok_def)
  note h = hex_text_facts[of "length c"]
  have line: "read_line 8193 (frame_chunk (ext, c) @ rest) = (?l @ crlf, c @ crlf @ rest)"
    using read_line_crlf[of ?l "c @ crlf @ rest"] h len assms(2) by (simp add: frame_chunk_def extension_ok_def)
  have ends: "ends_crlf (?l @ crlf)" by (simp add: ends_crlf_def crlf_def)
  have digits: "takeWhile (\<lambda>x. x \<noteq> CHR '';'') ?l = hex_text (length c)"
  proof (cases ext)
    case (Cons x xs)
    with assms(2) have "x = CHR '';''" by (simp add: extension_ok_def)
    have "CHR '';'' \<notin> set l \<Longrightarrow> takeWhile (\<lambda>x. x \<noteq> CHR '';'') (l @ CHR '';'' # xs) = l" for l by (induction l) auto
    with Cons h \<open>x = CHR '';''\<close> show ?thesis by simp
  qed (use h in \<open>auto simp: takeWhile_eq_all_conv\<close>)
  have two: "length crlf = 2" by (simp add: crlf_def)
  have "length (?l @ crlf) \<le> 8192" using len two by simp
  then show ?thesis
    using h digits ends two assms(1,3) by (subst read_chunks.simps) (simp add: line)
qed

lemma read_many_chunks:
  "\<forall>(x, c) \<in> set parts. c \<noteq> [] \<and> extension_ok x \<Longrightarrow> length body + length (concat (map snd parts)) \<le> max_request \<Longrightarrow>
     read_chunks body (concat (map frame_chunk parts) @ rest) = read_chunks (body @ concat (map snd parts)) rest"
proof (induction parts arbitrary: body)
  case (Cons p parts)
  obtain x c where p: "p = (x, c)" by force
  from Cons.prems p have "read_chunks body (concat (map frame_chunk (p # parts)) @ rest) =
      read_chunks (body @ c) (concat (map frame_chunk parts) @ rest)"
    using read_one_chunk[of c x body "concat (map frame_chunk parts) @ rest"] by simp
  also have "\<dots> = read_chunks ((body @ c) @ concat (map snd parts)) rest"
    by (rule Cons.IH) (use Cons.prems p in auto)
  finally show ?case by (simp add: p)
qed simp

lemma read_last_chunk: "length body \<le> max_request \<Longrightarrow> read_chunks body (''0'' @ crlf @ crlf @ rest) = Inr body"
proof -
  assume b: "length body \<le> max_request"
  have l: "read_line 8193 (''0'' @ crlf @ crlf @ rest) = (''0'' @ crlf, crlf @ rest)" by (rule read_line_crlf) simp_all
  have l2: "read_line 8193 (crlf @ rest) = (crlf, rest)" using read_line_crlf[of "[]" rest] by simp
  have h: "is_hex CHR ''0''" "hex_number ''0'' = 0" by code_simp+
  show ?thesis
    using b l2 h by (subst read_chunks.simps, subst l) (simp add: Let_def ends_crlf_def crlf_def)
qed

subsection \<open>Properties\<close>

text \<open>
  C35: a chunked body reads back: whatever pieces a sender cuts a body of at most a megabyte into, with or
  without chunk extensions, the reader joins them to the body, and so it reads a counted body.
\<close>
theorem forward_body_roundtrip:
  assumes "\<forall>(x, c) \<in> set parts. c \<noteq> [] \<and> extension_ok x" "length (concat (map snd parts)) \<le> max_request" "lower_ascii coding = ''chunked''"
  shows "read_forward_body [] [coding] (concat (map frame_chunk parts) @ ''0'' @ crlf @ crlf @ rest) = Inr (concat (map snd parts)) \<and>
         read_forward_body [digits_str (length (concat (map snd parts)))] [] (concat (map snd parts) @ rest) = Inr (concat (map snd parts))"
proof
  show "read_forward_body [] [coding] (concat (map frame_chunk parts) @ ''0'' @ crlf @ crlf @ rest) = Inr (concat (map snd parts))"
    using assms read_many_chunks[OF assms(1), of "[]" "''0'' @ crlf @ crlf @ rest"] read_last_chunk[of "concat (map snd parts)" rest]
    by (simp add: read_forward_body_def)
  let ?n = "length (concat (map snd parts))"
  have "digits_val (digits_str ?n) = ?n" "list_all is_digit (digits_str ?n)" "digits_str ?n \<noteq> []"
    using digits_str_read by auto
  then show "read_forward_body [digits_str ?n] [] (concat (map snd parts) @ rest) = Inr (concat (map snd parts))"
    using assms(2) by (simp add: read_forward_body_def Let_def)
qed

text \<open>Framing headers that could be read in two ways are refused.\<close>

lemma ambiguous_framing_refused:
  "lengths \<noteq> [] \<and> encodings \<noteq> [] \<or> 1 < length lengths \<or> 1 < length encodings \<Longrightarrow>
     read_forward_body lengths encodings inp = Inl (value_error ''Ambiguous framing'')"
  by (auto simp: read_forward_body_def)

theorem forward_body_roundtrip_witness:
  "read_forward_body [] [''Chunked''] (''3;x=1'' @ crlf @ ''abc'' @ crlf @ ''2'' @ crlf @ ''de'' @ crlf @ ''0'' @ crlf @ crlf) = Inr ''abcde''"
proof -
  have f: "concat (map frame_chunk [('';x=1'', ''abc''), ([], ''de'')]) @ ''0'' @ crlf @ crlf @ [] =
      ''3;x=1'' @ crlf @ ''abc'' @ crlf @ ''2'' @ crlf @ ''de'' @ crlf @ ''0'' @ crlf @ crlf" by code_simp
  have p: "\<forall>(x, c) \<in> set [('';x=1'', ''abc''), ([], ''de'')]. c \<noteq> [] \<and> extension_ok x" by (simp add: extension_ok_def)
  have l: "length (concat (map snd [('';x=1'', ''abc''), ([], ''de'')])) \<le> max_request" by (simp add: max_request_def)
  have c: "lower_ascii ''Chunked'' = ''chunked''" by code_simp
  from forward_body_roundtrip[OF p l c, of "[]"] show ?thesis unfolding f by simp
qed

end
