(* ===== verification/Retention.thy ===== *)
theory Retention
  imports Reasons
begin

text \<open>
  The bounded diagnostics: the volatile raw log (capture/raw_log.py) and the rolling archive of opaque bodies
  (capture/logging_store.py). Texts are of characters up to U+00FF; the size of a row as JSON, digests,
  identities and times are arguments.
\<close>

subsection \<open>The raw log\<close>

text \<open>Bytes are only counted; any other message is its text, or its JSON text.\<close>

datatype raw_message = Raw_bytes nat | Raw_text string

record raw_row =
  rr_id :: nat
  rr_received :: int
  rr_direction :: string
  rr_transport :: string
  rr_raw :: string
  rr_truncated :: bool

record raw_log =
  rl_max_entries :: nat
  rl_max_bytes :: nat
  rl_entries :: "(raw_row \<times> nat) list"
  rl_bytes :: nat
  rl_revision :: nat
  rl_evicted :: nat
  rl_closed :: bool

definition new_raw_log :: "nat \<Rightarrow> nat \<Rightarrow> raw_log" where
  "new_raw_log entries size_limit =
     \<lparr>rl_max_entries = entries, rl_max_bytes = size_limit, rl_entries = [], rl_bytes = 0, rl_revision = 0, rl_evicted = 0,
      rl_closed = False\<rparr>"

text \<open>\<open>text.replace(secret, '[redacted]')\<close>\<close>

definition match_literal :: "string \<Rightarrow> string \<Rightarrow> matcher" where
  "match_literal old new prev s =
     (if old \<noteq> [] \<and> take (length old) s = old then Some (length old - 1, new) else None)"

definition secret_names :: "string list" where
  "secret_names =
     [''password'', ''token'', ''authorization'', ''api_key'', ''apikey'', ''aikey'', ''x-hcamm-key'', ''cookie'', ''secret'']"

text \<open>A secret name in quotes, a colon, and a quoted value: the value goes.\<close>

definition match_field :: matcher where
  "match_field prev s =
     (case s of
        [] \<Rightarrow> None
      | q # r \<Rightarrow>
          (let name = takeWhile (\<lambda>c. c \<noteq> CHR 0x22) r; r1 = drop (length name) r; r2 = skip_spaces (drop 1 r1);
               r3 = skip_spaces (drop 1 r2); body = takeWhile (\<lambda>c. c \<noteq> CHR 0x22) (drop 1 r3);
               lead = length s - length (drop 1 r3) in
           if q = CHR 0x22 \<and> map lower name \<in> set secret_names \<and> r1 \<noteq> [] \<and> take 1 r2 = '':'' \<and> take 1 r3 = [CHR 0x22]
           then Some (lead + length body - 1, take lead s @ ''[redacted]'') else None))"

definition bearer_char :: "char \<Rightarrow> bool" where
  "bearer_char c \<longleftrightarrow> not_space c \<and> c \<noteq> CHR 0x22 \<and> c \<noteq> CHR 0x5C"

definition match_bearer :: matcher where
  "match_bearer prev s =
     (let r = drop 6 s; spaces = takeWhile is_space r; value = takeWhile bearer_char (skip_spaces r) in
      if map lower (take 6 s) = ''bearer'' \<and> spaces \<noteq> [] \<and> value \<noteq> []
      then Some (6 + length spaces + length value - 1, ''Bearer [redacted]'') else None)"

definition redact_raw :: "string \<Rightarrow> string \<Rightarrow> string" where
  "redact_raw secret text =
     re_sub match_bearer None (re_sub match_field None
       (if secret = [] then text else re_sub (match_literal secret ''[redacted]'') None text))"

text \<open>UTF-8: a character above U+007F takes two bytes, and one cut in half is dropped.\<close>

definition utf8_size :: "string \<Rightarrow> nat" where
  "utf8_size s = sum_list (map (\<lambda>c. if (of_char c :: nat) < 128 then 1 else 2) s)"

fun take_utf8 :: "nat \<Rightarrow> string \<Rightarrow> string" where
  "take_utf8 n [] = []"
| "take_utf8 n (c # s) =
     (let k = (if (of_char c :: nat) < 128 then 1 else 2) in if n < k then [] else c # take_utf8 (n - k) s)"

definition raw_text :: "string \<Rightarrow> raw_message \<Rightarrow> string" where
  "raw_text secret m =
     (case m of
        Raw_bytes n \<Rightarrow> ''[Binary message: '' @ digits_str n @ '' bytes; content omitted]''
      | Raw_text t \<Rightarrow> redact_raw secret t)"

fun evict :: "nat \<Rightarrow> nat \<Rightarrow> ('a \<times> nat) list \<Rightarrow> nat \<Rightarrow> nat \<Rightarrow> ('a \<times> nat) list \<times> nat \<times> nat" where
  "evict entries size_limit [] used k = ([], used, k)"
| "evict entries size_limit (e # es) used k =
     (if entries < length (e # es) \<or> size_limit < used then evict entries size_limit es (used - snd e) (Suc k)
      else (e # es, used, k))"

definition raw_append ::
  "(raw_row \<Rightarrow> nat) \<Rightarrow> int \<Rightarrow> string \<Rightarrow> string \<Rightarrow> raw_message \<Rightarrow> string \<Rightarrow> raw_log \<Rightarrow> raw_log" where
  "raw_append row_size now direction transport m secret l =
     (let text = raw_text secret m; i = Suc (rl_revision l);
          row = \<lparr>rr_id = i, rr_received = now, rr_direction = direction, rr_transport = transport,
                 rr_raw = take_utf8 32768 text, rr_truncated = (32768 < utf8_size text)\<rparr>;
          (es, used, gone) = evict (rl_max_entries l) (rl_max_bytes l) (rl_entries l @ [(row, row_size row)])
                                (rl_bytes l + row_size row) (rl_evicted l)
      in l\<lparr>rl_entries := es, rl_bytes := used, rl_revision := i, rl_evicted := gone\<rparr>)"

text \<open>The rows for a reader that has seen a revision, newest first; nothing to read after the close.\<close>

definition raw_snapshot :: "int \<Rightarrow> raw_log \<Rightarrow> (nat \<times> (raw_row list \<times> nat) option) option" where
  "raw_snapshot seen l =
     (if rl_closed l then None
      else Some (rl_revision l,
                 if int (rl_revision l) \<noteq> seen then Some (rev (map fst (rl_entries l)), rl_evicted l) else None))"

definition raw_close :: "raw_log \<Rightarrow> raw_log" where
  "raw_close l = l\<lparr>rl_closed := True\<rparr>"

subsection \<open>The rolling archive\<close>

record observation =
  ob_seq :: nat
  ob_receipt :: string
  ob_received :: int
  ob_content :: string
  ob_digest :: string
  ob_body :: string
  ob_metadata :: string

record logging_store =
  ls_max_records :: nat
  ls_max_bytes :: nat
  ls_rows :: "observation list"
  ls_last :: nat
  ls_evicted :: nat

definition max_log_body :: nat where
  "max_log_body = 65536"

definition open_logging :: "nat \<Rightarrow> nat \<Rightarrow> logging_store res" where
  "open_logging records size_limit =
     (if records < 1 \<or> size_limit < max_log_body then Inl (value_error ''Invalid logging retention limits'')
      else Inr \<lparr>ls_max_records = records, ls_max_bytes = size_limit, ls_rows = [], ls_last = 0, ls_evicted = 0\<rparr>)"

text \<open>The newest row that must go, looking from the newest one; \<open>index\<close> rows of \<open>used\<close> bytes stay so far.\<close>

fun cutoff :: "nat \<Rightarrow> nat \<Rightarrow> nat \<Rightarrow> nat \<Rightarrow> observation list \<Rightarrow> nat option" where
  "cutoff records size_limit index used [] = None"
| "cutoff records size_limit index used (r # rs) =
     (if records \<le> index \<or> size_limit < used + length (ob_body r) then Some (ob_seq r)
      else cutoff records size_limit (Suc index) (used + length (ob_body r)) rs)"

text \<open>The rows are kept in the order of their sequence numbers, which are never used again.\<close>

definition log_accept ::
  "(string \<Rightarrow> string) \<Rightarrow> string \<Rightarrow> int \<Rightarrow> string \<Rightarrow> string \<Rightarrow> string \<Rightarrow> logging_store \<Rightarrow> string res \<times> logging_store" where
  "log_accept sha uid now body content metadata st =
     (if max_log_body < length body then (Inl (value_error ''Logging body exceeds 64 KiB''), st)
      else
        (let row = \<lparr>ob_seq = Suc (ls_last st), ob_receipt = uid, ob_received = now, ob_content = take 200 content,
                    ob_digest = sha body, ob_body = body, ob_metadata = metadata\<rparr>;
             rows = ls_rows st @ [row]
         in (Inr uid,
             (case cutoff (ls_max_records st) (ls_max_bytes st) 0 0 (rev rows) of
                None \<Rightarrow> st\<lparr>ls_rows := rows, ls_last := Suc (ls_last st)\<rparr>
              | Some c \<Rightarrow>
                  st\<lparr>ls_rows := filter (\<lambda>r. c < ob_seq r) rows, ls_last := Suc (ls_last st),
                     ls_evicted := ls_evicted st + length (filter (\<lambda>r. ob_seq r \<le> c) rows)\<rparr>))))"

text \<open>A page of the archive, newest first, with the cursor of the next one.\<close>

definition log_feed :: "int \<Rightarrow> int \<Rightarrow> logging_store \<Rightarrow> (observation list \<times> int \<times> nat \<times> nat \<times> nat) res" where
  "log_feed before limit st =
     (if before < 0 \<or> \<not> (1 \<le> limit \<and> limit \<le> 100) then Inl (value_error ''Invalid logging cursor'')
      else (let rows = take (nat limit) (rev (filter (\<lambda>r. before = 0 \<or> int (ob_seq r) < before) (ls_rows st)))
            in Inr (rows, if rows = [] then before else int (ob_seq (last rows)), length (ls_rows st),
                    sum_list (map (\<lambda>r. length (ob_body r)) (ls_rows st)), ls_evicted st)))"

text \<open>What the page shows of a body: the raw log's redacted text of it.\<close>

definition body_preview :: "string \<Rightarrow> string \<times> bool" where
  "body_preview body =
     (let t = raw_text [] (Raw_text body) in (take_utf8 32768 t, 32768 < utf8_size t))"

subsection \<open>Bounds\<close>

definition raw_log_ok :: "raw_log \<Rightarrow> bool" where
  "raw_log_ok l \<longleftrightarrow>
     length (rl_entries l) \<le> rl_max_entries l \<and> rl_bytes l \<le> rl_max_bytes l \<and>
     rl_bytes l = sum_list (map snd (rl_entries l)) \<and>
     map (rr_id \<circ> fst) (rl_entries l) = [Suc (rl_evicted l)..<Suc (rl_revision l)] \<and> rl_evicted l \<le> rl_revision l"

lemma evict_facts:
  "used = sum_list (map snd es) \<Longrightarrow> evict entries size_limit es used k = (es', used', k') \<Longrightarrow>
     used' = sum_list (map snd es') \<and> length es' \<le> entries \<and> used' \<le> size_limit \<and>
     (\<exists>n \<le> length es. es' = drop n es \<and> k' = k + n)"
proof (induction es arbitrary: used k)
  case (Cons e es)
  show ?case
  proof (cases "entries < length (e # es) \<or> size_limit < used")
    case True
    have "used - snd e = sum_list (map snd es)" using Cons.prems(1) by simp
    moreover have "evict entries size_limit es (used - snd e) (Suc k) = (es', used', k')" using Cons.prems(2) True by auto
    ultimately have ih: "used' = sum_list (map snd es') \<and> length es' \<le> entries \<and> used' \<le> size_limit \<and>
        (\<exists>n \<le> length es. es' = drop n es \<and> k' = Suc k + n)" by (rule Cons.IH)
    then obtain n where "n \<le> length es" "es' = drop n es" "k' = Suc k + n" by blast
    then have "Suc n \<le> length (e # es) \<and> es' = drop (Suc n) (e # es) \<and> k' = k + Suc n" by simp
    with ih show ?thesis by blast
  next
    case False
    with Cons.prems show ?thesis by (auto intro: exI[of _ 0])
  qed
qed auto

lemma raw_append_ok:
  assumes ok: "raw_log_ok l"
  shows "raw_log_ok (raw_append row_size now direction transport m secret l)"
proof -
  define row where "row = \<lparr>rr_id = Suc (rl_revision l), rr_received = now, rr_direction = direction, rr_transport = transport,
     rr_raw = take_utf8 32768 (raw_text secret m), rr_truncated = (32768 < utf8_size (raw_text secret m))\<rparr>"
  let ?es = "rl_entries l @ [(row, row_size row)]"
  obtain es used gone where e: "evict (rl_max_entries l) (rl_max_bytes l) ?es (rl_bytes l + row_size row) (rl_evicted l) = (es, used, gone)"
    by (metis prod_cases3)
  have "rl_bytes l + row_size row = sum_list (map snd ?es)" using ok by (simp add: raw_log_ok_def)
  from evict_facts[OF this e] obtain n where n: "used = sum_list (map snd es)" "length es \<le> rl_max_entries l" "used \<le> rl_max_bytes l"
    "n \<le> length ?es" "es = drop n ?es" "gone = rl_evicted l + n" by blast
  have ids: "map (rr_id \<circ> fst) ?es = [Suc (rl_evicted l)..<Suc (Suc (rl_revision l))]"
    using ok by (simp add: raw_log_ok_def row_def)
  then have len: "length ?es = Suc (rl_revision l) - rl_evicted l" by (metis length_map length_upt diff_Suc_Suc)
  have "map (rr_id \<circ> fst) es = drop n [Suc (rl_evicted l)..<Suc (Suc (rl_revision l))]"
    unfolding n(5) drop_map ids[symmetric] ..
  also have "\<dots> = [Suc gone..<Suc (Suc (rl_revision l))]" by (simp add: n(6) drop_upt del: upt_Suc)
  finally have "map (rr_id \<circ> fst) es = [Suc gone..<Suc (Suc (rl_revision l))]" .
  moreover have "gone \<le> Suc (rl_revision l)" using n(4,6) len ok by (simp add: raw_log_ok_def)
  ultimately show ?thesis
    using n(1-3) e by (simp add: raw_append_def Let_def row_def[symmetric] raw_log_ok_def)
qed

interpretation raw_runs: kept_invariant "\<lambda>(now, direction, transport, m, secret) l. raw_append row_size now direction transport m secret l" raw_log_ok
  for row_size
  by unfold_locales (auto intro: raw_append_ok)

lemma new_raw_log_ok: "raw_log_ok (new_raw_log entries size_limit)"
  by (simp add: raw_log_ok_def new_raw_log_def)

text \<open>The archive keeps its newest rows, in the order they came.\<close>

definition logging_ok :: "logging_store \<Rightarrow> bool" where
  "logging_ok st \<longleftrightarrow>
     map ob_seq (ls_rows st) = [Suc (ls_evicted st)..<Suc (ls_last st)] \<and> ls_evicted st \<le> ls_last st \<and>
     length (ls_rows st) \<le> ls_max_records st \<and> sum_list (map (\<lambda>r. length (ob_body r)) (ls_rows st)) \<le> ls_max_bytes st"

text \<open>The rows above the cutoff are the most that fit.\<close>

lemma cutoff_facts:
  assumes "sorted_wrt (>) (map ob_seq rs)" "used + sum_list (map (\<lambda>r. length (ob_body r)) pre) \<le> size_limit"
    "index + length pre \<le> records"
  shows "case cutoff records size_limit (index + length pre) (used + sum_list (map (\<lambda>r. length (ob_body r)) pre)) rs of
     None \<Rightarrow> index + length pre + length rs \<le> records \<and> used + sum_list (map (\<lambda>r. length (ob_body r)) (pre @ rs)) \<le> size_limit
   | Some c \<Rightarrow> (\<exists>n < length rs. c = ob_seq (rs ! n) \<and> filter (\<lambda>r. c < ob_seq r) rs = take n rs \<and> filter (\<lambda>r. ob_seq r \<le> c) rs = drop n rs \<and>
       index + length pre + n \<le> records \<and> used + sum_list (map (\<lambda>r. length (ob_body r)) (pre @ take n rs)) \<le> size_limit)"
  using assms
proof (induction rs arbitrary: pre)
  case (Cons r rs)
  show ?case
  proof (cases "records \<le> index + length pre \<or> size_limit < used + sum_list (map (\<lambda>r. length (ob_body r)) pre) + length (ob_body r)")
    case True
    have "filter (\<lambda>x. ob_seq r < ob_seq x) (r # rs) = []" "filter (\<lambda>x. ob_seq x \<le> ob_seq r) (r # rs) = r # rs"
      using Cons.prems(1) by (auto simp: filter_empty_conv filter_id_conv)
    with True Cons.prems(2,3) show ?thesis by (auto intro!: exI[of _ 0])
  next
    case False
    have s: "sorted_wrt (>) (map ob_seq rs)" using Cons.prems(1) by simp
    note ih = Cons.IH[of "pre @ [r]", OF s]
    show ?thesis
    proof (cases "cutoff records size_limit (Suc (index + length pre)) (used + sum_list (map (\<lambda>r. length (ob_body r)) pre) + length (ob_body r)) rs")
      case None
      with ih False show ?thesis by (auto simp: algebra_simps)
    next
      case (Some c)
      with ih False obtain n where n: "n < length rs" "c = ob_seq (rs ! n)" "filter (\<lambda>r. c < ob_seq r) rs = take n rs"
        "filter (\<lambda>r. ob_seq r \<le> c) rs = drop n rs" "index + length pre + Suc n \<le> records"
        "used + sum_list (map (\<lambda>r. length (ob_body r)) (pre @ r # take n rs)) \<le> size_limit" by (auto simp: algebra_simps)
      have "c < ob_seq r" using Cons.prems(1) n(1,2) by auto
      with n False Some show ?thesis by (auto intro!: exI[of _ "Suc n"] simp: algebra_simps)
    qed
  qed
qed simp

lemma seqs_sorted: "map ob_seq rows = [a..<b] \<Longrightarrow> sorted_wrt (>) (map ob_seq (rev rows))"
  by (simp add: rev_map[symmetric] sorted_wrt_rev)

lemma log_accept_ok:
  assumes ok: "logging_ok st" and limits: "1 \<le> ls_max_records st" "max_log_body \<le> ls_max_bytes st"
    and a: "log_accept sha uid now body content metadata st = (x, st')"
  shows "logging_ok st' \<and> ls_max_records st' = ls_max_records st \<and> ls_max_bytes st' = ls_max_bytes st \<and>
    (x = Inr uid \<longrightarrow> ls_rows st' \<noteq> [] \<and> ob_receipt (last (ls_rows st')) = uid \<and> ob_body (last (ls_rows st')) = body)"
proof (cases "max_log_body < length body")
  case True
  with ok a show ?thesis by (auto simp: log_accept_def)
next
  case False
  define row where "row = \<lparr>ob_seq = Suc (ls_last st), ob_receipt = uid, ob_received = now, ob_content = take 200 content,
    ob_digest = sha body, ob_body = body, ob_metadata = metadata\<rparr>"
  define rows where "rows = ls_rows st @ [row]"
  have seqs: "map ob_seq rows = [Suc (ls_evicted st)..<Suc (Suc (ls_last st))]" using ok by (simp add: logging_ok_def rows_def row_def)
  have x: "x = Inr uid" and st': "st' = (case cutoff (ls_max_records st) (ls_max_bytes st) 0 0 (rev rows) of
      None \<Rightarrow> st\<lparr>ls_rows := rows, ls_last := Suc (ls_last st)\<rparr>
    | Some c \<Rightarrow> st\<lparr>ls_rows := filter (\<lambda>r. c < ob_seq r) rows, ls_last := Suc (ls_last st),
                 ls_evicted := ls_evicted st + length (filter (\<lambda>r. ob_seq r \<le> c) rows)\<rparr>)"
    using a False unfolding log_accept_def Let_def row_def[symmetric] rows_def[symmetric] by auto
  note cut = cutoff_facts[OF seqs_sorted[OF seqs], where pre = "[]" and used = 0 and index = 0 and size_limit = "ls_max_bytes st"
      and records = "ls_max_records st", simplified]
  show ?thesis
  proof (cases "cutoff (ls_max_records st) (ls_max_bytes st) 0 0 (rev rows)")
    case None
    then have "length rows \<le> ls_max_records st" "sum_list (map (\<lambda>r. length (ob_body r)) rows) \<le> ls_max_bytes st"
      using cut by (simp_all add: rev_map[symmetric])
    with None st' seqs ok x show ?thesis by (simp add: logging_ok_def rows_def row_def)
  next
    case (Some c)
    then obtain n where n: "n < length rows" "c = ob_seq (rev rows ! n)" "filter (\<lambda>r. c < ob_seq r) (rev rows) = take n (rev rows)"
      "filter (\<lambda>r. ob_seq r \<le> c) (rev rows) = drop n (rev rows)" "n \<le> ls_max_records st"
      "sum_list (map (\<lambda>r. length (ob_body r)) (take n (rev rows))) \<le> ls_max_bytes st" using cut by auto
    have keep: "filter (\<lambda>r. c < ob_seq r) rows = drop (length rows - n) rows"
    proof -
      have "rev (filter (\<lambda>r. c < ob_seq r) rows) = rev (drop (length rows - n) rows)"
        unfolding rev_filter n(3) by (rule take_rev)
      then show ?thesis by simp
    qed
    have gone: "length (filter (\<lambda>r. ob_seq r \<le> c) rows) = length rows - n"
    proof -
      have "length (rev (filter (\<lambda>r. ob_seq r \<le> c) rows)) = length (drop n (rev rows))" unfolding rev_filter n(4) ..
      then show ?thesis by simp
    qed
    have bytes: "sum_list (map (\<lambda>r. length (ob_body r)) (drop (length rows - n) rows)) \<le> ls_max_bytes st"
      using n(6) by (simp add: take_rev rev_map[symmetric])
    have n0: "n \<noteq> 0"
    proof
      assume "n = 0"
      then have "c = ob_seq row" using n(2) by (simp add: rows_def)
      moreover have "cutoff (ls_max_records st) (ls_max_bytes st) 0 0 (rev rows) =
          cutoff (ls_max_records st) (ls_max_bytes st) 1 (length body) (rev (ls_rows st))"
        using limits False by (simp add: rows_def row_def)
      moreover have from_rows: "c \<in> ob_seq ` set rs" if "cutoff a b i u rs = Some c" for a b i u rs c
        using that by (induction rs arbitrary: i u) (auto split: if_splits)
      ultimately have "ob_seq row \<in> ob_seq ` set (ls_rows st)"
        using from_rows[of "ls_max_records st" "ls_max_bytes st" 1 "length body" "rev (ls_rows st)" c] Some by simp
      then show False using ok by (auto simp: logging_ok_def row_def simp flip: set_map)
    qed
    have len: "length rows = Suc (ls_last st) - ls_evicted st" using seqs by (metis length_map length_upt diff_Suc_Suc)
    have "map ob_seq (drop (length rows - n) rows) = [Suc (ls_evicted st + (length rows - n))..<Suc (Suc (ls_last st))]"
      unfolding drop_map[symmetric] seqs by (simp add: drop_upt del: upt_Suc)
    moreover have "ls_evicted st + (length rows - n) \<le> Suc (ls_last st)" using len ok n(1) by (auto simp: logging_ok_def)
    moreover have "last (drop (length rows - n) rows) = row" "drop (length rows - n) rows \<noteq> []"
      using n0 n(1) by (simp_all add: rows_def)
    ultimately show ?thesis using Some st' keep gone bytes n(1,5) x by (simp add: logging_ok_def row_def)
  qed
qed

definition bounded_archive :: "logging_store \<Rightarrow> bool" where
  "bounded_archive st \<longleftrightarrow> logging_ok st \<and> 1 \<le> ls_max_records st \<and> max_log_body \<le> ls_max_bytes st"

lemma accept_bounded: "bounded_archive st \<Longrightarrow> bounded_archive (snd (log_accept sha uid now body content metadata st))"
proof -
  assume b: "bounded_archive st"
  obtain x st1 where a: "log_accept sha uid now body content metadata st = (x, st1)" by fastforce
  from log_accept_ok[OF _ _ _ a] b show ?thesis by (simp add: bounded_archive_def a)
qed

interpretation logging_runs: kept_invariant "\<lambda>(uid, now, body, content, metadata) st. snd (log_accept sha uid now body content metadata st)"
  bounded_archive for sha
  by unfold_locales (use accept_bounded in \<open>force split: prod.split\<close>)

lemma open_logging_ok: "open_logging records size_limit = Inr st \<Longrightarrow> bounded_archive st"
  by (auto simp: open_logging_def bounded_archive_def logging_ok_def split: if_splits)

subsection \<open>Properties\<close>

text \<open>
  C34: the diagnostics stay bounded: after any accepted bodies the archive holds at most its records and bytes,
  exactly the newest ones with their numbers in a row, and the body just accepted among them; the raw log
  likewise, after any messages.
\<close>
theorem diagnostics_bounded:
  assumes "open_logging records size_limit = Inr st0"
    and "st = fold (\<lambda>(uid, now, body, content, metadata) st. snd (log_accept sha uid now body content metadata st)) bodies st0"
    and "l = fold (\<lambda>(now, direction, transport, m, secret) l. raw_append row_size now direction transport m secret l) ms (new_raw_log entries bytes)"
  shows "map ob_seq (ls_rows st) = [Suc (ls_evicted st)..<Suc (ls_last st)] \<and> length (ls_rows st) \<le> ls_max_records st \<and>
         sum_list (map (\<lambda>r. length (ob_body r)) (ls_rows st)) \<le> ls_max_bytes st \<and>
         (length body \<le> max_log_body \<longrightarrow>
            (case log_accept sha uid now body content metadata st of (x, st1) \<Rightarrow>
               x = Inr uid \<and> ls_rows st1 \<noteq> [] \<and> ob_body (last (ls_rows st1)) = body)) \<and>
         map (rr_id \<circ> fst) (rl_entries l) = [Suc (rl_evicted l)..<Suc (rl_revision l)] \<and>
         length (rl_entries l) \<le> rl_max_entries l \<and> sum_list (map snd (rl_entries l)) \<le> rl_max_bytes l"
proof -
  have s: "bounded_archive st" unfolding assms(2) by (rule logging_runs.run_inv[OF open_logging_ok[OF assms(1)]])
  have l: "raw_log_ok l" unfolding assms(3) by (rule raw_runs.run_inv[OF new_raw_log_ok])
  obtain x st1 where a: "log_accept sha uid now body content metadata st = (x, st1)" by fastforce
  have "x = Inr uid" if "length body \<le> max_log_body" using a that by (auto simp: log_accept_def Let_def split: option.splits)
  moreover have "logging_ok st" "1 \<le> ls_max_records st" "max_log_body \<le> ls_max_bytes st" using s by (simp_all add: bounded_archive_def)
  note log_accept_ok[OF this a]
  ultimately show ?thesis using a s l by (auto simp: bounded_archive_def logging_ok_def raw_log_ok_def)
qed

theorem diagnostics_bounded_witness:
  "map ob_seq (ls_rows (fold (\<lambda>(uid, now, body, content, metadata) st. snd (log_accept id uid now body content metadata st))
     [(''r1'', 1, ''a'', [], []), (''r2'', 2, ''b'', [], [])]
     \<lparr>ls_max_records = 1, ls_max_bytes = 70000, ls_rows = [], ls_last = 0, ls_evicted = 0\<rparr>)) = [2]"
proof -
  let ?st = "fold (\<lambda>(uid, now, body, content, metadata) st. snd (log_accept id uid now body content metadata st))
     [(''r1'', 1, ''a'', [], []), (''r2'', 2, ''b'', [], [])]
     \<lparr>ls_max_records = 1, ls_max_bytes = 70000, ls_rows = [], ls_last = 0, ls_evicted = 0\<rparr>"
  have o: "open_logging 1 70000 = Inr \<lparr>ls_max_records = 1, ls_max_bytes = 70000, ls_rows = [], ls_last = 0, ls_evicted = 0\<rparr>"
    by (simp add: open_logging_def max_log_body_def)
  have "ls_evicted ?st = 1 \<and> ls_last ?st = 2" by (simp add: log_accept_def max_log_body_def)
  moreover have "map ob_seq (ls_rows ?st) = [Suc (ls_evicted ?st)..<Suc (ls_last ?st)]"
    using diagnostics_bounded[OF o refl refl, where bodies = "[(''r1'', 1, ''a'', [], []), (''r2'', 2, ''b'', [], [])]" and sha = id] by blast
  moreover have "[Suc 1..<Suc 2] = [2]" by (simp add: upt_rec)
  ultimately show ?thesis by (metis (no_types))
qed

end
