(* ===== verification/Forwarder.thy ===== *)
theory Forwarder
  imports Retention RestSession
begin

text \<open>
  The forwarding of TradingBox requests (capture/tradingbox_forwarder.py): its settings, the ticket a request
  takes when it arrives, the decision to send, the answer. Configuring, closing and any number of requests
  interleave; the code under one lock is one step. How a URL splits, the percent decoding and the store that
  records a request are arguments.
\<close>

subsection \<open>Targets and destinations\<close>

text \<open>What \<open>urlsplit\<close> says of a URL; \<open>up_port\<close> is an error when it is no number below 65536.\<close>

record url_parts =
  up_scheme :: string
  up_netloc :: string
  up_path :: string
  up_has_fragment :: bool
  up_host :: "string option"
  up_port :: "nat option res"
  up_user :: "string option"
  up_password :: "string option"

record url_tools =
  ut_split :: "string \<Rightarrow> url_parts res"
  ut_unquote :: "string \<Rightarrow> string"

text \<open>\<open>text.split(c)\<close>.\<close>

fun split_char :: "char \<Rightarrow> string \<Rightarrow> string list" where
  "split_char x [] = [[]]"
| "split_char x (c # s) = (if c = x then [] # split_char x s
     else (case split_char x s of p # ps \<Rightarrow> (c # p) # ps | [] \<Rightarrow> [[c]]))"

definition validate_target :: "url_tools \<Rightarrow> string \<Rightarrow> unit res" where
  "validate_target U target =
     bindE (ut_split U target) (\<lambda>p. let decoded = ut_unquote U (up_path p) in
       if \<not> starts_with ''/api/hcamm/'' target \<or> up_scheme p \<noteq> [] \<or> up_netloc p \<noteq> [] \<or> up_has_fragment p \<or>
          (\<exists>c \<in> set target. \<not> code_in 33 126 c) \<or> \<not> starts_with ''/api/hcamm/'' decoded \<or> CHR 0x5C \<in> set decoded \<or>
          (\<exists>x \<in> set (split_char (CHR ''/'') decoded). x = ''.'' \<or> x = ''..'')
       then Inl (value_error ''Expected an origin-form /api/hcamm/ request target'') else Inr ())"

definition hop_headers :: "string list" where
  "hop_headers = [''host'', ''content-length'', ''connection'', ''keep-alive'', ''proxy-authenticate'', ''proxy-authorization'', ''te'',
     ''trailer'', ''transfer-encoding'', ''upgrade'']"

text \<open>The headers that travel end to end: not the hop headers, nor those a Connection header names.\<close>

definition end_to_end :: "(string \<times> string) list \<Rightarrow> (string \<times> string) list" where
  "end_to_end headers =
     (let named = concat (map (\<lambda>(n, v). if map lower n = ''connection'' then map (\<lambda>x. map lower (strip x)) (split_char (CHR '','') v) else []) headers)
      in filter (\<lambda>(n, v). map lower n \<notin> set hop_headers \<union> set named) headers)"

definition validate_url :: "url_tools \<Rightarrow> string \<Rightarrow> unit res" where
  "validate_url U v =
     bindE (ut_split U v) (\<lambda>p.
       if \<exists>c \<in> set v. code_in 0 32 c \<or> c = CHR 0x7F
       then Inl (value_error ''Forwarding URL must have a valid port and no whitespace or control characters'')
       else bindE (up_port p) (\<lambda>port.
         if port = Some 0 then Inl (value_error ''Forwarding URL must have a valid port and no whitespace or control characters'')
         else if up_scheme p \<noteq> ''https'' \<or> (case up_host p of None \<Rightarrow> True | Some h \<Rightarrow> h = [])
         then Inl (value_error ''Forwarding destination must be an https URL, for example https://example.com/api/hcamm/events'')
         else if (case up_user p of Some (_ # _) \<Rightarrow> True | _ \<Rightarrow> False) \<or> (case up_password p of Some (_ # _) \<Rightarrow> True | _ \<Rightarrow> False)
         then Inl (value_error ''Put credentials in a header, not in the forwarding URL'')
         else if up_has_fragment p then Inl (value_error ''A forwarding destination cannot carry a URL fragment'')
         else Inr ()))"

subsection \<open>The forwarder\<close>

datatype fw_result = Answered_by nat nat bool | Unknown_delivery nat

record forwarder =
  fw_saved :: "string option"
  fw_key :: string
  fw_header :: string
  fw_url :: string
  fw_enabled :: bool
  fw_live :: bool
  fw_generation :: nat
  fw_in_flight :: nat
  fw_sent :: nat
  fw_failed :: nat
  fw_previewed :: nat
  fw_last :: "fw_result option"

text \<open>A start reads the saved URL and leaves forwarding off.\<close>

definition open_forwarder :: "url_tools \<Rightarrow> string option \<Rightarrow> string \<Rightarrow> string \<Rightarrow> forwarder res" where
  "open_forwarder U saved key header =
     (if map lower header \<notin> {''x-hcamm-key'', ''x-api-key'', ''authorization''}
      then Inl (value_error ''Unsupported TradingBox authentication header'')
      else if \<exists>c \<in> set key. \<not> code_in 32 126 c
      then Inl (value_error ''TradingBox key must be a single-line ASCII header value'')
      else bindE (case saved of Some (c # u) \<Rightarrow> bindE (validate_url U (c # u)) (\<lambda>_. Inr (c # u)) | _ \<Rightarrow> Inr []) (\<lambda>url.
        Inr \<lparr>fw_saved = saved, fw_key = key, fw_header = header, fw_url = url, fw_enabled = False, fw_live = False, fw_generation = 0,
             fw_in_flight = 0, fw_sent = 0, fw_failed = 0, fw_previewed = 0, fw_last = None\<rparr>))"

text \<open>An empty or absent value is no URL.\<close>

definition url_value :: "json \<Rightarrow> string res" where
  "url_value v = (case v of JS_str u \<Rightarrow> Inr u | _ \<Rightarrow> if truth v then Inl (Exn ''TypeError'' ''url is no text'' None) else Inr [])"

definition read_url :: "url_tools \<Rightarrow> json \<Rightarrow> string res" where
  "read_url U v = bindE (url_value v) (\<lambda>url. if url = [] then Inr url else bindE (validate_url U url) (\<lambda>_. Inr url))"

definition read_settings :: "url_tools \<Rightarrow> json \<Rightarrow> (string \<times> bool \<times> bool) res" where
  "read_settings U v =
     (case v of
        JS_obj fs \<Rightarrow>
          (if set (map fst fs) \<noteq> {''url'', ''enabled'', ''live''} then Inl (value_error ''Provide URL, forwarding and live flags'')
           else (case (map_of fs ''enabled'', map_of fs ''live'') of
             (Some (JS_bool enabled), Some (JS_bool live)) \<Rightarrow> bindE (read_url U (the (map_of fs ''url''))) (\<lambda>url. Inr (url, enabled, live))
           | _ \<Rightarrow> Inl (value_error ''Forwarding flags must be booleans'')))
      | _ \<Rightarrow> Inl (value_error ''Provide URL, forwarding and live flags''))"

text \<open>Settings that are well formed, against what is on and in flight; \<open>fault\<close> is the failure of the file when there is one.\<close>

definition apply_settings :: "exn option \<Rightarrow> string \<Rightarrow> bool \<Rightarrow> bool \<Rightarrow> forwarder \<Rightarrow> unit res \<times> forwarder" where
  "apply_settings fault url enabled live f =
     (if enabled \<and> url = [] then (Inl (value_error ''Configure the TradingBox URL first''), f)
      else if live \<and> (\<not> enabled \<or> fw_key f = [])
      then (Inl (value_error ''Live requires forwarding enabled and TB_FORWARD_API_KEY configured''), f)
      else if url \<noteq> fw_url f \<and> (fw_enabled f \<or> 0 < fw_in_flight f)
      then (Inl (value_error ''Turn forwarding off and wait for active requests before changing the URL''), f)
      else if url \<noteq> fw_url f \<and> fault \<noteq> None then (Inl (the fault), f)
      else (Inr (), f\<lparr>fw_saved := (if url \<noteq> fw_url f then Some url else fw_saved f), fw_url := url, fw_enabled := enabled,
                     fw_live := live, fw_generation := Suc (fw_generation f)\<rparr>))"

definition configure_forwarding :: "url_tools \<Rightarrow> exn option \<Rightarrow> json \<Rightarrow> forwarder \<Rightarrow> unit res \<times> forwarder" where
  "configure_forwarding U fault v f =
     (case read_settings U v of Inl e \<Rightarrow> (Inl e, f) | Inr (url, enabled, live) \<Rightarrow> apply_settings fault url enabled live f)"

definition forward_authorized :: "(string \<times> string) list \<Rightarrow> forwarder \<Rightarrow> bool" where
  "forward_authorized headers f \<longleftrightarrow>
     (case filter (\<lambda>(n, v). map lower n = map lower (fw_header f)) headers of
        [(n, v)] \<Rightarrow> fw_key f \<noteq> [] \<and> v = fw_key f
      | _ \<Rightarrow> False)"

definition forward_ticket :: "forwarder \<Rightarrow> nat \<times> bool \<times> bool" where
  "forward_ticket f = (fw_generation f, fw_enabled f, fw_live f)"

definition close_forwarder :: "forwarder \<Rightarrow> forwarder" where
  "close_forwarder f = f\<lparr>fw_enabled := False, fw_live := False, fw_generation := Suc (fw_generation f)\<rparr>"

subsection \<open>Requests\<close>

text \<open>A request: its ticket, then recorded, being sent to a URL, replied to while it still counts as in flight, or answered.\<close>

datatype fw_phase = Arrived | Recorded | Sending string | Replied nat | Answered nat

record fw_request =
  fq_ticket :: "nat \<times> bool \<times> bool"
  fq_target :: string
  fq_phase :: fw_phase

definition request_methods :: "string list" where
  "request_methods = [''GET'', ''HEAD'', ''POST'', ''PUT'', ''PATCH'', ''DELETE'', ''OPTIONS'']"

text \<open>\<open>stored\<close> is whether the log took the request; without it nothing is sent.\<close>

definition record_request :: "url_tools \<Rightarrow> string \<Rightarrow> nat \<Rightarrow> bool \<Rightarrow> fw_request \<Rightarrow> fw_request" where
  "record_request U verb size_sent stored q =
     (if fq_phase q \<noteq> Arrived then q
      else (case validate_target U (fq_target q) of
              Inl e \<Rightarrow> q\<lparr>fq_phase := Answered 503\<rparr>
            | Inr _ \<Rightarrow>
                if verb \<notin> set request_methods \<or> 1048576 < size_sent \<or> \<not> stored then q\<lparr>fq_phase := Answered 503\<rparr>
                else q\<lparr>fq_phase := Recorded\<rparr>))"

definition send_decided :: "nat \<times> bool \<times> bool \<Rightarrow> forwarder \<Rightarrow> bool" where
  "send_decided ticket f \<longleftrightarrow> ticket = (fw_generation f, True, True) \<and> fw_enabled f \<and> fw_live f"

definition decide_request :: "url_tools \<Rightarrow> fw_request \<Rightarrow> forwarder \<Rightarrow> fw_request \<times> forwarder" where
  "decide_request U q f =
     (if fq_phase q \<noteq> Recorded then (q, f)
      else if send_decided (fq_ticket q) f
      then (case ut_split U (fw_url f) of
              Inl e \<Rightarrow> (q\<lparr>fq_phase := Answered 503\<rparr>, f\<lparr>fw_in_flight := Suc (fw_in_flight f)\<rparr>)
            | Inr p \<Rightarrow> (q\<lparr>fq_phase := Sending (''https://'' @ up_netloc p @ fq_target q)\<rparr>, f\<lparr>fw_in_flight := Suc (fw_in_flight f)\<rparr>))
      else (q\<lparr>fq_phase := Answered 202\<rparr>, f\<lparr>fw_previewed := Suc (fw_previewed f)\<rparr>))"

text \<open>
  The upstream's answer, or None when its outcome is unknown; \<open>logged\<close> is whether the log took the answer.
  The answer goes back either way, and nothing is sent again.
\<close>

definition finish_request :: "nat \<Rightarrow> nat option \<Rightarrow> bool \<Rightarrow> fw_request \<Rightarrow> forwarder \<Rightarrow> fw_request \<times> forwarder" where
  "finish_request cycle answer logged q f =
     (case fq_phase q of
        Sending _ \<Rightarrow>
          (case answer of
             Some status \<Rightarrow>
               (q\<lparr>fq_phase := Replied status\<rparr>,
                f\<lparr>fw_sent := Suc (fw_sent f), fw_last := Some (Answered_by cycle status (\<not> logged))\<rparr>)
           | None \<Rightarrow>
               (q\<lparr>fq_phase := Replied 502\<rparr>,
                f\<lparr>fw_failed := Suc (fw_failed f), fw_last := Some (Unknown_delivery cycle)\<rparr>))
      | _ \<Rightarrow> (q, f))"

text \<open>The end of a send: it no longer counts, and the answer goes back.\<close>

definition release_request :: "fw_request \<Rightarrow> forwarder \<Rightarrow> fw_request \<times> forwarder" where
  "release_request q f =
     (case fq_phase q of
        Replied status \<Rightarrow> (q\<lparr>fq_phase := Answered status\<rparr>, f\<lparr>fw_in_flight := fw_in_flight f - 1\<rparr>)
      | _ \<Rightarrow> (q, f))"

subsection \<open>Steps\<close>

record forwarding =
  fd_forwarder :: forwarder
  fd_requests :: "fw_request list"

datatype fw_op =
    Arrive "(string \<times> string) list" string
  | Record nat string nat bool
  | Decide nat
  | Finish nat "nat option" bool
  | Release nat
  | Configure json "exn option"
  | Close_forwarding

text \<open>What leaves the machine: the request, the URL and the generation of the settings it left under.\<close>

type_synonym fw_send = "nat \<times> string \<times> nat"

fun forward_step :: "url_tools \<Rightarrow> fw_op \<Rightarrow> forwarding \<Rightarrow> forwarding \<times> fw_send list" where
  "forward_step U (Arrive headers target) s =
     (if forward_authorized headers (fd_forwarder s) \<and> validate_target U target = Inr ()
      then (s\<lparr>fd_requests := fd_requests s @ [\<lparr>fq_ticket = forward_ticket (fd_forwarder s), fq_target = target, fq_phase = Arrived\<rparr>]\<rparr>, [])
      else (s, []))"
| "forward_step U (Record i verb n stored) s =
     (if i < length (fd_requests s)
      then (s\<lparr>fd_requests := (fd_requests s)[i := record_request U verb n stored (fd_requests s ! i)]\<rparr>, []) else (s, []))"
| "forward_step U (Decide i) s =
     (if i < length (fd_requests s)
      then (case decide_request U (fd_requests s ! i) (fd_forwarder s) of
              (q, f) \<Rightarrow> (\<lparr>fd_forwarder = f, fd_requests = (fd_requests s)[i := q]\<rparr>,
                         (case (fq_phase (fd_requests s ! i), fq_phase q) of
                            (Recorded, Sending url) \<Rightarrow> [(i, url, fw_generation f)] | _ \<Rightarrow> [])))
      else (s, []))"
| "forward_step U (Finish i answer logged) s =
     (if i < length (fd_requests s)
      then (case finish_request i answer logged (fd_requests s ! i) (fd_forwarder s) of
              (q, f) \<Rightarrow> (\<lparr>fd_forwarder = f, fd_requests = (fd_requests s)[i := q]\<rparr>, [])) else (s, []))"
| "forward_step U (Release i) s =
     (if i < length (fd_requests s)
      then (case release_request (fd_requests s ! i) (fd_forwarder s) of
              (q, f) \<Rightarrow> (\<lparr>fd_forwarder = f, fd_requests = (fd_requests s)[i := q]\<rparr>, [])) else (s, []))"
| "forward_step U (Configure v fault) s = (s\<lparr>fd_forwarder := snd (configure_forwarding U fault v (fd_forwarder s))\<rparr>, [])"
| "forward_step U Close_forwarding s = (s\<lparr>fd_forwarder := close_forwarder (fd_forwarder s)\<rparr>, [])"

subsection \<open>Laws\<close>

definition in_flight_now :: "fw_request \<Rightarrow> bool" where
  "in_flight_now q \<longleftrightarrow> (case fq_phase q of Sending _ \<Rightarrow> True | Replied _ \<Rightarrow> True | _ \<Rightarrow> False)"

text \<open>Live forwarding has a URL and a key; what is in flight goes to the URL of the settings.\<close>

definition settings_ok :: "url_tools \<Rightarrow> forwarder \<Rightarrow> bool" where
  "settings_ok U f \<longleftrightarrow>
     (fw_url f \<noteq> [] \<longrightarrow> validate_url U (fw_url f) = Inr ()) \<and> (fw_enabled f \<longrightarrow> fw_url f \<noteq> []) \<and>
     (fw_live f \<longrightarrow> fw_enabled f \<and> fw_key f \<noteq> [])"

definition request_ok :: "url_tools \<Rightarrow> forwarder \<Rightarrow> fw_request \<Rightarrow> bool" where
  "request_ok U f q \<longleftrightarrow>
     validate_target U (fq_target q) = Inr () \<and>
     (case fq_phase q of
        Sending url \<Rightarrow> (\<exists>p. ut_split U (fw_url f) = Inr p \<and> url = ''https://'' @ up_netloc p @ fq_target q)
      | _ \<Rightarrow> True)"

definition forwarding_ok :: "url_tools \<Rightarrow> forwarding \<Rightarrow> bool" where
  "forwarding_ok U s \<longleftrightarrow>
     settings_ok U (fd_forwarder s) \<and> (\<forall>q \<in> set (fd_requests s). request_ok U (fd_forwarder s) q) \<and>
     fw_in_flight (fd_forwarder s) = length (filter in_flight_now (fd_requests s))"

lemma read_url_valid:
  "read_url U v = Inr url \<Longrightarrow> url \<noteq> [] \<Longrightarrow> validate_url U url = Inr ()"
  by (auto simp: read_url_def bindE_Inr split: if_splits)

lemma read_settings_valid:
  assumes "read_settings U v = Inr (url, enabled, live)" "url \<noteq> []"
  shows "validate_url U url = Inr ()"
  using assms read_url_valid unfolding read_settings_def
  by (simp add: bindE_Inr split: json.splits option.splits if_split_asm)

lemma apply_settings_facts:
  assumes "settings_ok U f" "url \<noteq> [] \<longrightarrow> validate_url U url = Inr ()"
  shows "settings_ok U (snd (apply_settings fault url enabled live f))"
    and "fw_in_flight (snd (apply_settings fault url enabled live f)) = fw_in_flight f"
    and "0 < fw_in_flight f \<Longrightarrow> fw_url (snd (apply_settings fault url enabled live f)) = fw_url f"
  using assms by (auto simp: settings_ok_def apply_settings_def)

lemma configure_facts:
  assumes c: "configure_forwarding U fault v f = (x, f')" and ok: "settings_ok U f"
  shows "settings_ok U f'" "fw_in_flight f' = fw_in_flight f" "0 < fw_in_flight f \<Longrightarrow> fw_url f' = fw_url f"
proof -
  have "settings_ok U f' \<and> fw_in_flight f' = fw_in_flight f \<and> (0 < fw_in_flight f \<longrightarrow> fw_url f' = fw_url f)"
  proof (cases "read_settings U v")
    case (Inl e)
    with c ok show ?thesis by (simp add: configure_forwarding_def)
  next
    case (Inr r)
    obtain url enabled live where r: "r = (url, enabled, live)" by (cases r)
    have "f' = snd (apply_settings fault url enabled live f)" using c Inr r by (simp add: configure_forwarding_def)
    moreover have "url \<noteq> [] \<longrightarrow> validate_url U url = Inr ()" using read_settings_valid Inr r by blast
    ultimately show ?thesis using apply_settings_facts[OF ok, of url fault enabled live] by simp
  qed
  then show "settings_ok U f'" "fw_in_flight f' = fw_in_flight f" "0 < fw_in_flight f \<Longrightarrow> fw_url f' = fw_url f"
    by simp_all
qed

lemma sending_update:
  "i < length qs \<Longrightarrow> length (filter P (qs[i := q])) + (if P (qs ! i) then 1 else 0) = length (filter P qs) + (if P q then 1 else 0)"
proof (induction qs arbitrary: i)
  case (Cons a qs)
  then show ?case by (cases i) auto
qed simp

lemma request_same_url: "fw_url f' = fw_url f \<Longrightarrow> request_ok U f' q = request_ok U f q"
  by (simp add: request_ok_def cong: fw_phase.case_cong)

lemma idle_request: "\<not> in_flight_now q \<Longrightarrow> request_ok U f q \<Longrightarrow> request_ok U f' q"
  by (auto simp: request_ok_def in_flight_now_def split: fw_phase.splits)

lemma forward_step_ok:
  assumes ok: "forwarding_ok U s"
  shows "forwarding_ok U (fst (forward_step U a s))"
proof -
  let ?f = "fd_forwarder s" and ?qs = "fd_requests s"
  have set: "settings_ok U ?f" and req: "\<And>q. q \<in> set ?qs \<Longrightarrow> request_ok U ?f q" and cnt: "fw_in_flight ?f = length (filter in_flight_now ?qs)"
    using ok by (simp_all add: forwarding_ok_def)
  text \<open>One request changes and the settings stay.\<close>
  have one: "forwarding_ok U \<lparr>fd_forwarder = f, fd_requests = ?qs[i := q]\<rparr>"
    if "i < length ?qs" "settings_ok U f" "fw_url f = fw_url ?f" "request_ok U ?f q"
      "fw_in_flight f + (if in_flight_now (?qs ! i) then 1 else 0) = fw_in_flight ?f + (if in_flight_now q then 1 else 0)" for i q f
  proof -
    have "fw_in_flight f = length (filter in_flight_now (?qs[i := q]))"
      using that(5) cnt sending_update[OF that(1), of in_flight_now q] by (simp split: if_splits)
    moreover have "request_ok U f p" if "p \<in> set (?qs[i := q])" for p
      using set_mp[OF set_update_subset_insert that] req request_same_url[OF \<open>fw_url f = fw_url ?f\<close>] \<open>request_ok U ?f q\<close> by auto
    ultimately show ?thesis using that(2) by (simp add: forwarding_ok_def)
  qed
  show ?thesis
  proof (cases a)
    case (Arrive headers target)
    have "request_ok U ?f \<lparr>fq_ticket = forward_ticket ?f, fq_target = target, fq_phase = Arrived\<rparr>" if "validate_target U target = Inr ()"
      using that by (simp add: request_ok_def)
    with ok Arrive show ?thesis by (simp add: forwarding_ok_def in_flight_now_def)
  next
    case (Record i verb n stored)
    show ?thesis
    proof (cases "i < length ?qs")
      case True
      let ?q = "record_request U verb n stored (?qs ! i)"
      have "request_ok U ?f (?qs ! i)" using req True by simp
      then have "request_ok U ?f ?q" "in_flight_now ?q = in_flight_now (?qs ! i)"
        by (auto simp: record_request_def request_ok_def in_flight_now_def split: sum.split)
      with one[OF True set refl, of ?q] Record True show ?thesis by (simp add: forwarding_ok_def)
    qed (use Record ok in simp)
  next
    case (Decide i)
    show ?thesis
    proof (cases "i < length ?qs")
      case True
      obtain q f where d: "decide_request U (?qs ! i) ?f = (q, f)" by fastforce
      have r: "request_ok U ?f (?qs ! i)" using req True by simp
      have split: "\<exists>p. ut_split U (fw_url ?f) = Inr p" if "send_decided (fq_ticket (?qs ! i)) ?f"
        using that set by (auto simp: send_decided_def settings_ok_def validate_url_def bindE_Inr)
      have "settings_ok U f" "fw_url f = fw_url ?f"
        using d set by (auto simp: decide_request_def settings_ok_def split: if_splits sum.splits)
      moreover have "request_ok U ?f q \<and> fw_in_flight f + (if in_flight_now (?qs ! i) then 1 else 0) = fw_in_flight ?f + (if in_flight_now q then 1 else 0)"
        using d r split by (auto simp: decide_request_def request_ok_def in_flight_now_def split: if_splits sum.splits)
      ultimately show ?thesis using one[OF True, of f q] Decide True d by simp
    qed (use Decide ok in simp)
  next
    case (Finish i answer logged)
    show ?thesis
    proof (cases "i < length ?qs")
      case True
      obtain q f where d: "finish_request i answer logged (?qs ! i) ?f = (q, f)" by fastforce
      have r: "request_ok U ?f (?qs ! i)" using req True by simp
      have "settings_ok U f" "fw_url f = fw_url ?f"
        using d set by (auto simp: finish_request_def settings_ok_def split: fw_phase.splits option.splits)
      moreover have "request_ok U ?f q \<and> fw_in_flight f + (if in_flight_now (?qs ! i) then 1 else 0) = fw_in_flight ?f + (if in_flight_now q then 1 else 0)"
        using d r by (auto simp: finish_request_def request_ok_def in_flight_now_def split: fw_phase.splits option.splits)
      ultimately show ?thesis using one[OF True, of f q] Finish True d by simp
    qed (use Finish ok in simp)
  next
    case (Release i)
    show ?thesis
    proof (cases "i < length ?qs")
      case True
      obtain q f where d: "release_request (?qs ! i) ?f = (q, f)" by fastforce
      have r: "request_ok U ?f (?qs ! i)" using req True by simp
      have pos: "in_flight_now (?qs ! i) \<Longrightarrow> 0 < fw_in_flight ?f"
        using True unfolding cnt by (auto simp: filter_empty_conv)
      have "settings_ok U f" "fw_url f = fw_url ?f"
        using d set by (auto simp: release_request_def settings_ok_def split: fw_phase.splits)
      moreover have "request_ok U ?f q \<and> fw_in_flight f + (if in_flight_now (?qs ! i) then 1 else 0) = fw_in_flight ?f + (if in_flight_now q then 1 else 0)"
        using d r pos by (auto simp: release_request_def request_ok_def in_flight_now_def split: fw_phase.splits)
      ultimately show ?thesis using one[OF True, of f q] Release True d by simp
    qed (use Release ok in simp)
  next
    case (Configure v fault)
    obtain x f where c: "configure_forwarding U fault v ?f = (x, f)" by fastforce
    note cf = configure_facts[OF c set]
    have "request_ok U f q" if q: "q \<in> set ?qs" for q
    proof (cases "in_flight_now q")
      case True
      then have "0 < fw_in_flight ?f" using q unfolding cnt by (auto simp: filter_empty_conv)
      then show ?thesis using req[OF q] request_same_url[OF cf(3)] by simp
    next
      case False
      with req[OF q] show ?thesis by (simp add: idle_request)
    qed
    with cf(1,2) cnt Configure c show ?thesis by (simp add: forwarding_ok_def)
  next
    case Close_forwarding
    with ok show ?thesis by (simp add: forwarding_ok_def settings_ok_def close_forwarder_def request_same_url[of "fd_forwarder s\<lparr>fw_enabled := False, fw_live := False, fw_generation := Suc (fw_generation (fd_forwarder s))\<rparr>" "fd_forwarder s"])
  qed
qed

interpretation forward_runs: kept_invariant "\<lambda>a s. fst (forward_step U a s)" "forwarding_ok U" for U
  by unfold_locales (rule forward_step_ok)

text \<open>A request that was sent or answered is not sent again.\<close>

definition past_sending :: "forwarding \<Rightarrow> nat \<Rightarrow> bool" where
  "past_sending s i \<longleftrightarrow>
     i < length (fd_requests s) \<and>
     (case fq_phase (fd_requests s ! i) of Arrived \<Rightarrow> False | Recorded \<Rightarrow> False | _ \<Rightarrow> True)"

definition keyed_forward :: "url_tools \<Rightarrow> fw_op \<Rightarrow> forwarding \<Rightarrow> forwarding \<times> nat list" where
  "keyed_forward U a s = (fst (forward_step U a s), map fst (snd (forward_step U a s)))"

lemma run_keyed: "run_emits (keyed_forward U) ops s = (fst (run_emits (forward_step U) ops s), map fst (snd (run_emits (forward_step U) ops s)))"
  by (induction ops arbitrary: s) (simp_all add: keyed_forward_def split_beta Let_def)

lemma past_forwarder: "past_sending (s\<lparr>fd_forwarder := f\<rparr>) = past_sending s"
  by (simp add: past_sending_def fun_eq_iff)

lemma keyed_forward_once: "once past_sending s (fst (keyed_forward U a s)) (snd (keyed_forward U a s))"
proof (cases a)
  case (Arrive headers target)
  then show ?thesis by (auto simp: keyed_forward_def once_def past_sending_def nth_append)
next
  case (Record i verb n stored)
  then show ?thesis
    by (auto simp: keyed_forward_def once_def past_sending_def record_request_def nth_list_update split: fw_phase.splits sum.splits)
next
  case (Decide i)
  obtain q f where d: "decide_request U (fd_requests s ! i) (fd_forwarder s) = (q, f)" by fastforce
  have "fq_phase q = fq_phase (fd_requests s ! i) \<or>
      fq_phase (fd_requests s ! i) = Recorded \<and> (\<exists>x url. fq_phase q = Answered x \<or> fq_phase q = Sending url)"
    using d by (auto simp: decide_request_def split: if_splits sum.splits)
  then show ?thesis
    using Decide d by (auto simp: keyed_forward_def once_def past_sending_def nth_list_update split: fw_phase.splits)
next
  case (Finish i answer logged)
  then show ?thesis
    by (auto simp: keyed_forward_def once_def past_sending_def finish_request_def nth_list_update split: fw_phase.splits option.splits)
next
  case (Release i)
  then show ?thesis
    by (auto simp: keyed_forward_def once_def past_sending_def release_request_def nth_list_update split: fw_phase.splits)
qed (simp_all add: keyed_forward_def past_forwarder once_same)

interpretation forward_sends: claimed_writes "keyed_forward U" past_sending for U
  by (rule claimed_writes_once) (rule keyed_forward_once)

lemma send_facts:
  assumes "(i, url, g) \<in> set (snd (forward_step U a s))"
  shows "i < length (fd_requests s)" "fq_phase (fd_requests s ! i) = Recorded" "g = fw_generation (fd_forwarder s)"
    "send_decided (fq_ticket (fd_requests s ! i)) (fd_forwarder s)"
    "\<exists>p. ut_split U (fw_url (fd_forwarder s)) = Inr p \<and> url = ''https://'' @ up_netloc p @ fq_target (fd_requests s ! i)"
proof -
  have "a = Decide i \<and> i < length (fd_requests s)" using assms
    by (cases a) (auto split: if_splits prod.splits fw_phase.splits)
  then have a: "a = Decide i" "i < length (fd_requests s)" by auto
  obtain q f where d: "decide_request U (fd_requests s ! i) (fd_forwarder s) = (q, f)" by fastforce
  have sent: "fq_phase (fd_requests s ! i) = Recorded" "fq_phase q = Sending url" "g = fw_generation f"
    using assms a d by (auto split: fw_phase.splits)
  with d show "fq_phase (fd_requests s ! i) = Recorded" "g = fw_generation (fd_forwarder s)"
    "send_decided (fq_ticket (fd_requests s ! i)) (fd_forwarder s)"
    "\<exists>p. ut_split U (fw_url (fd_forwarder s)) = Inr p \<and> url = ''https://'' @ up_netloc p @ fq_target (fd_requests s ! i)"
    by (auto simp: decide_request_def split: if_splits sum.splits)
  show "i < length (fd_requests s)" by (rule a(2))
qed

lemma open_forwarder_ok:
  "open_forwarder U saved key header = Inr f \<Longrightarrow> forwarding_ok U \<lparr>fd_forwarder = f, fd_requests = []\<rparr>"
  by (auto simp: open_forwarder_def forwarding_ok_def settings_ok_def bindE_Inr split: if_splits option.splits list.splits)

subsection \<open>Property\<close>

text \<open>
  C14: TradingBox forwarding is armed and once: over any interleaving of requests, settings, answers and a
  close after a start, each request is sent at most once; the requests counted in flight are those that are;
  and whatever is sent next was recorded first, arrived under the settings that still hold, with forwarding
  enabled, live and a key configured, and goes over https to the host of the settings with a validated target.
\<close>
theorem forwards_once_while_live:
  assumes "open_forwarder U saved key header = Inr f0"
    and "run_emits (forward_step U) ops \<lparr>fd_forwarder = f0, fd_requests = []\<rparr> = (s, sends)"
  shows "distinct (map fst sends) \<and>
         fw_in_flight (fd_forwarder s) = length (filter in_flight_now (fd_requests s)) \<and>
         (\<forall>a. \<forall>(i, url, g) \<in> set (snd (forward_step U a s)).
            i < length (fd_requests s) \<and> fq_phase (fd_requests s ! i) = Recorded \<and>
            fq_ticket (fd_requests s ! i) = (g, True, True) \<and> g = fw_generation (fd_forwarder s) \<and>
            fw_enabled (fd_forwarder s) \<and> fw_live (fd_forwarder s) \<and> fw_key (fd_forwarder s) \<noteq> [] \<and>
            validate_url U (fw_url (fd_forwarder s)) = Inr () \<and> validate_target U (fq_target (fd_requests s ! i)) = Inr () \<and>
            (\<exists>p. ut_split U (fw_url (fd_forwarder s)) = Inr p \<and> url = ''https://'' @ up_netloc p @ fq_target (fd_requests s ! i)))"
proof (intro conjI allI ballI)
  have s: "s = fold (\<lambda>a s. fst (forward_step U a s)) ops \<lparr>fd_forwarder = f0, fd_requests = []\<rparr>"
    using run_emits_fold[of "forward_step U" ops] assms(2) by (metis fst_conv)
  have ok: "forwarding_ok U s" unfolding s by (rule forward_runs.run_inv[OF open_forwarder_ok[OF assms(1)]])
  show "distinct (map fst sends)"
    using forward_sends.run_at_most_once[of U ops "\<lparr>fd_forwarder = f0, fd_requests = []\<rparr>"] assms(2) by (simp add: run_keyed)
  show "fw_in_flight (fd_forwarder s) = length (filter in_flight_now (fd_requests s))" using ok by (simp add: forwarding_ok_def)
  fix a x assume "x \<in> set (snd (forward_step U a s))"
  then show "case x of (i, url, g) \<Rightarrow>
            i < length (fd_requests s) \<and> fq_phase (fd_requests s ! i) = Recorded \<and>
            fq_ticket (fd_requests s ! i) = (g, True, True) \<and> g = fw_generation (fd_forwarder s) \<and>
            fw_enabled (fd_forwarder s) \<and> fw_live (fd_forwarder s) \<and> fw_key (fd_forwarder s) \<noteq> [] \<and>
            validate_url U (fw_url (fd_forwarder s)) = Inr () \<and> validate_target U (fq_target (fd_requests s ! i)) = Inr () \<and>
            (\<exists>p. ut_split U (fw_url (fd_forwarder s)) = Inr p \<and> url = ''https://'' @ up_netloc p @ fq_target (fd_requests s ! i))"
  proof (cases x rule: prod_cases3)
    case (fields i url g)
    with \<open>x \<in> _\<close> have "(i, url, g) \<in> set (snd (forward_step U a s))" by simp
    note f = send_facts[OF this]
    have "settings_ok U (fd_forwarder s)" "request_ok U (fd_forwarder s) (fd_requests s ! i)" using ok f(1) by (simp_all add: forwarding_ok_def)
    with f(4) have "fw_enabled (fd_forwarder s)" "fw_live (fd_forwarder s)" "fw_key (fd_forwarder s) \<noteq> []"
      "validate_url U (fw_url (fd_forwarder s)) = Inr ()" "validate_target U (fq_target (fd_requests s ! i)) = Inr ()"
      "fq_ticket (fd_requests s ! i) = (g, True, True)"
      using f(3) by (simp_all add: send_decided_def settings_ok_def request_ok_def)
    with f fields show ?thesis by simp
  qed
qed

definition small_split :: "string \<Rightarrow> url_parts res" where
  "small_split u = Inr (let full = starts_with ''https://'' u in
     \<lparr>up_scheme = (if full then ''https'' else []), up_netloc = (if full then drop 8 u else []), up_path = (if full then [] else u),
      up_has_fragment = False, up_host = (if full then Some (drop 8 u) else None), up_port = Inr None, up_user = None, up_password = None\<rparr>)"

definition small_url :: url_tools where
  "small_url = \<lparr>ut_split = small_split, ut_unquote = id\<rparr>"

definition small_forwarder :: forwarder where
  "small_forwarder = \<lparr>fw_saved = None, fw_key = ''k'', fw_header = ''X-API-Key'', fw_url = [], fw_enabled = False, fw_live = False,
     fw_generation = 0, fw_in_flight = 0, fw_sent = 0, fw_failed = 0, fw_previewed = 0, fw_last = None\<rparr>"

definition small_requests :: "fw_op list" where
  "small_requests = [Configure (JS_obj [(''url'', JS_str ''https://tb''), (''enabled'', JS_bool True), (''live'', JS_bool True)]) None,
     Arrive [(''x-api-key'', ''k'')] ''/api/hcamm/e'', Record 0 ''POST'' 1 True, Decide 0, Decide 0]"

lemma small_lower:
  "lower CHR ''X'' = CHR ''x''" "lower CHR ''A'' = CHR ''a''" "lower CHR ''P'' = CHR ''p''" "lower CHR ''I'' = CHR ''i''"
  "lower CHR ''K'' = CHR ''k''" "lower CHR ''e'' = CHR ''e''" "lower CHR ''y'' = CHR ''y''" "lower CHR ''-'' = CHR ''-''"
  "lower CHR ''x'' = CHR ''x''" "lower CHR ''a'' = CHR ''a''" "lower CHR ''p'' = CHR ''p''" "lower CHR ''i'' = CHR ''i''"
  "lower CHR ''k'' = CHR ''k''"
  by (simp_all add: lower_def code_in_def char_of_def bit_iff_odd_drop_bit drop_bit_eq_div)

lemma small_opens: "open_forwarder small_url None ''k'' ''X-API-Key'' = Inr small_forwarder"
  by (simp add: open_forwarder_def small_forwarder_def code_in_def small_lower)

lemma small_url_ok: "validate_url small_url ''https://tb'' = Inr ()"
  by (simp add: validate_url_def small_url_def small_split_def starts_with_def code_in_def)

lemma small_target_ok: "validate_target small_url ''/api/hcamm/e'' = Inr ()"
  by (simp add: validate_target_def small_url_def small_split_def starts_with_def code_in_def)

lemma small_netloc: "\<exists>p. ut_split small_url ''https://tb'' = Inr p \<and> up_netloc p = ''tb''"
  by (simp add: small_url_def small_split_def starts_with_def)

lemma small_configured:
  "read_settings small_url (JS_obj [(''url'', JS_str ''https://tb''), (''enabled'', JS_bool True), (''live'', JS_bool True)]) =
   Inr (''https://tb'', True, True)"
  by (simp add: read_settings_def read_url_def url_value_def small_url_ok insert_commute)

lemma small_authorized: "forward_authorized [(''x-api-key'', ''k'')] f = (map lower (fw_header f) = ''x-api-key'' \<and> fw_key f = ''k'')"
  by (auto simp: forward_authorized_def small_lower)

lemma small_sends:
  "snd (run_emits (forward_step small_url) small_requests \<lparr>fd_forwarder = small_forwarder, fd_requests = []\<rparr>) = [(0, ''https://tb/api/hcamm/e'', 1)]"
  using small_netloc by (auto simp: small_lower small_requests_def configure_forwarding_def small_configured apply_settings_def small_authorized small_target_ok
      record_request_def request_methods_def decide_request_def send_decided_def forward_ticket_def small_forwarder_def)

theorem forwards_once_while_live_witness:
  "\<exists>s. run_emits (forward_step small_url) small_requests \<lparr>fd_forwarder = small_forwarder, fd_requests = []\<rparr> = (s, [(0, ''https://tb/api/hcamm/e'', 1)]) \<and>
       fw_in_flight (fd_forwarder s) = length (filter in_flight_now (fd_requests s))"
proof -
  obtain s sends where r: "run_emits (forward_step small_url) small_requests \<lparr>fd_forwarder = small_forwarder, fd_requests = []\<rparr> = (s, sends)"
    by (rule prod.exhaust)
  then have "sends = [(0, ''https://tb/api/hcamm/e'', 1)]" using small_sends by simp
  with r forwards_once_while_live[OF small_opens r] show ?thesis by (intro exI[of _ s]) simp
qed

end
