(* ===== verification/Publisher.thy ===== *)
theory Publisher
  imports Forwarder TradeSnapshot StoreRuns
begin

text \<open>
  The publication of verified trades to TradingBox (capture/pamm_publisher.py): the attempt is reserved
  before it is sent and whatever comes of it, a reserved attempt is never repeated. The forwarder a
  publication meets, the clock and the upstream's answer are arguments. Over the store and the publications together
  the keys of every table of the capture database are kept.
\<close>

subsection \<open>Publications\<close>

text \<open>An attempt; its status is missing while it is in flight and when the answer is unknown.\<close>

record publication =
  pb_trade :: string
  pb_at :: int
  pb_status :: "int option"
  pb_error :: string

definition publication_key :: "publication \<Rightarrow> string \<times> int" where
  "publication_key r = (pb_trade r, pb_at r)"

definition is_published :: "publication option \<Rightarrow> bool" where
  "is_published r = (case r of None \<Rightarrow> False | Some p \<Rightarrow> (case pb_status p of None \<Rightarrow> False | Some n \<Rightarrow> 200 \<le> n \<and> n < 300))"

text \<open>The latest attempt of a trade; the empty identity is never asked for.\<close>

definition latest_publication :: "publication list \<Rightarrow> string \<Rightarrow> publication option" where
  "latest_publication rows t =
     (if t = [] then None
      else (case sort_key pb_at (filter (\<lambda>r. pb_trade r = t) rows) of [] \<Rightarrow> None | r # rs \<Rightarrow> Some (last (r # rs))))"

definition reserve_publication :: "string \<Rightarrow> int \<Rightarrow> publication list \<Rightarrow> publication list res" where
  "reserve_publication t now rows =
     (if has_key publication_key (t, now) rows then Inl (Exn ''IntegrityError'' ''UNIQUE constraint failed'' None)
      else Inr (rows @ [\<lparr>pb_trade = t, pb_at = now, pb_status = None, pb_error = ''dispatching''\<rparr>]))"

definition land_publication :: "string \<Rightarrow> int \<Rightarrow> int option \<Rightarrow> string \<Rightarrow> publication list \<Rightarrow> publication list" where
  "land_publication t now status err rows =
     tupdate (\<lambda>r. publication_key r = (t, now)) (\<lambda>r. r\<lparr>pb_status := status, pb_error := err\<rparr>) rows"

subsection \<open>Payload\<close>

record pamm_payload =
  pp_trade :: string
  pp_state :: string
  pp_symbol :: string
  pp_side :: string
  pp_lots :: "decimal option"
  pp_source :: event_source
  pp_positions :: "string list"
  pp_open_time :: "string option"
  pp_open_millis :: "int option"
  pp_read_back :: "(string \<times> decimal option \<times> decimal option) option"

definition payload :: "trade_snapshot \<Rightarrow> verdict \<Rightarrow> pamm_payload" where
  "payload s v =
     \<lparr>pp_trade = sn_trade s, pp_state = vd_state v, pp_symbol = sn_symbol s, pp_side = sn_side s, pp_lots = sn_lots s,
      pp_source = sn_source s, pp_positions = map (\<lambda>l. lk_native (lv_row l)) (filter is_destination_position (sn_links s)),
      pp_open_time = vd_open_time v, pp_open_millis = vd_open_millis v,
      pp_read_back = map_option (\<lambda>r. (do_reader r, do_volume r, do_open_price r)) (vd_read_back v)\<rparr>"

subsection \<open>Publishing\<close>

definition publisher_enabled :: "forwarder option \<Rightarrow> bool" where
  "publisher_enabled f = (case f of None \<Rightarrow> False | Some f \<Rightarrow> fw_enabled f \<and> fw_live f \<and> fw_url f \<noteq> [] \<and> fw_key f \<noteq> [])"

text \<open>What the upstream says: a status, an error of some class, or the process stops while it waits.\<close>

datatype upstream_reply = Upstream int | Send_failed string | Process_stopped

text \<open>What leaves the machine.\<close>

record pamm_send =
  pm_url :: string
  pm_header :: "string \<times> string"
  pm_payload :: pamm_payload

definition publish ::
  "url_tools \<Rightarrow> forwarder option \<Rightarrow> int \<Rightarrow> upstream_reply \<Rightarrow> trade_snapshot \<Rightarrow> publication list \<Rightarrow>
   publication option res \<times> publication list \<times> pamm_send list" where
  "publish U f now reply s rows =
     (let v = classify s in
      if \<not> vd_verified v \<or> vd_state v \<notin> {''verified_open'', ''verified_closed''} then (Inr None, rows, [])
      else if latest_publication rows (sn_trade s) \<noteq> None \<or> \<not> publisher_enabled f then (Inr None, rows, [])
      else (case validate_url U (fw_url (the f)) of
        Inl e \<Rightarrow> (Inl e, rows, [])
      | Inr _ \<Rightarrow>
          (case reserve_publication (sn_trade s) now rows of
             Inl e \<Rightarrow> (Inl e, rows, [])
           | Inr reserved \<Rightarrow>
               (let sent = [\<lparr>pm_url = fw_url (the f), pm_header = (fw_header (the f), fw_key (the f)), pm_payload = payload s v\<rparr>];
                    land = (\<lambda>status err. (Inr (Some \<lparr>pb_trade = sn_trade s, pb_at = now, pb_status = status, pb_error = err\<rparr>),
                                           land_publication (sn_trade s) now status err reserved, sent)) in
                case reply of
                  Upstream n \<Rightarrow> land (Some n) []
                | Send_failed c \<Rightarrow> land None c
                | Process_stopped \<Rightarrow> (Inl (Exn ''SystemExit'' [] None), reserved, sent)))))"

text \<open>The circumstances of each publication of a sweep, by trade.\<close>

type_synonym pamm_world = "string \<Rightarrow> forwarder option \<times> int \<times> upstream_reply"

fun sweep_each ::
  "url_tools \<Rightarrow> pamm_world \<Rightarrow> trade_snapshot list \<Rightarrow> publication list \<Rightarrow> publication list res \<times> publication list \<times> pamm_send list" where
  "sweep_each U W [] rows = (Inr [], rows, [])"
| "sweep_each U W (s # ss) rows =
     then_do (case W (sn_trade s) of (f, now, reply) \<Rightarrow> publish U f now reply s rows) (\<lambda>r rows.
       then_do (sweep_each U W ss rows) (\<lambda>rs rows. (Inr (case r of Some p \<Rightarrow> p # rs | None \<Rightarrow> rs), rows, [])))"

definition sweep ::
  "url_tools \<Rightarrow> forwarder option \<Rightarrow> pamm_world \<Rightarrow> trade_snapshot list \<Rightarrow> publication list \<Rightarrow>
   publication list res \<times> publication list \<times> pamm_send list" where
  "sweep U f W ss rows = (if \<not> publisher_enabled f then (Inr [], rows, []) else sweep_each U W ss rows)"

text \<open>
  After a read-back pass (dashboard/controller.py): the trades of the account; a failure leaves a message and
  nothing else.
\<close>

definition publish_verified ::
  "url_tools \<Rightarrow> forwarder option \<Rightarrow> pamm_world \<Rightarrow> journal \<Rightarrow> string \<Rightarrow> publication list \<Rightarrow>
   string option \<times> publication list \<times> pamm_send list" where
  "publish_verified U f W j account rows =
     (case sweep U f W (mapping_view j account) rows of
        (Inl e, rows', ks) \<Rightarrow> (Some ''PAMM publication failed; verified records are unchanged.'', rows', ks)
      | (Inr _, rows', ks) \<Rightarrow> (None, rows', ks))"

text \<open>Any passes, each over the journal and the forwarder of its time; restarts keep the rows.\<close>

type_synonym pamm_op = "forwarder option \<times> pamm_world \<times> journal \<times> string"

fun pamm_step :: "url_tools \<Rightarrow> pamm_op \<Rightarrow> publication list \<Rightarrow> publication list \<times> pamm_send list" where
  "pamm_step U (f, W, j, account) rows = snd (publish_verified U f W j account rows)"

subsection \<open>Laws\<close>

text \<open>Trades on record, and the sends that name a trade.\<close>

definition attempted :: "publication list \<Rightarrow> string \<Rightarrow> bool" where
  "attempted rows t \<longleftrightarrow> t \<noteq> [] \<and> (\<exists>r \<in> set rows. pb_trade r = t)"

definition sent_trades :: "pamm_send list \<Rightarrow> string list" where
  "sent_trades ks = filter (\<lambda>t. t \<noteq> []) (map (\<lambda>k. pp_trade (pm_payload k)) ks)"

definition keyed_pamm :: "url_tools \<Rightarrow> pamm_op \<Rightarrow> publication list \<Rightarrow> publication list \<times> string list" where
  "keyed_pamm U a rows = (case pamm_step U a rows of (rows', ks) \<Rightarrow> (rows', sent_trades ks))"

lemma attempted_map: "attempted rows t \<longleftrightarrow> t \<noteq> [] \<and> t \<in> set (map pb_trade rows)"
  by (auto simp: attempted_def)

lemma latest_iff: "latest_publication rows t \<noteq> None \<longleftrightarrow> attempted rows t"
proof -
  have "set (sort_key pb_at (filter (\<lambda>r. pb_trade r = t) rows)) = {} \<longleftrightarrow> t \<notin> set (map pb_trade rows)"
    by auto
  then have "sort_key pb_at (filter (\<lambda>r. pb_trade r = t) rows) = [] \<longleftrightarrow> t \<notin> set (map pb_trade rows)"
    by (simp only: set_empty)
  then show ?thesis
    unfolding latest_publication_def attempted_map by (cases "sort_key pb_at (filter (\<lambda>r. pb_trade r = t) rows)") simp_all
qed

lemma land_trades [simp]: "map pb_trade (land_publication u now status err rows) = map pb_trade rows"
  by (simp add: land_publication_def tupdate_def)

lemma publish_cases:
  assumes "publish U f now reply s rows = (r, rows', ks)"
  shows "rows' = rows \<and> ks = [] \<or>
     \<not> attempted rows (sn_trade s) \<and> map (\<lambda>k. pp_trade (pm_payload k)) ks = [sn_trade s] \<and>
     map pb_trade rows' = map pb_trade rows @ [sn_trade s]"
proof (cases "attempted rows (sn_trade s)")
  case True
  with assms latest_iff[of rows "sn_trade s"] show ?thesis by (simp add: publish_def Let_def split: if_splits)
next
  case False
  then show ?thesis using assms unfolding publish_def Let_def reserve_publication_def
    by (simp add: payload_def split: if_splits sum.splits upstream_reply.splits) auto
qed

lemma publish_once:
  assumes "publish U f now reply s rows = (r, rows', ks)"
  shows "once attempted rows rows' (sent_trades ks)"
  using publish_cases[OF assms]
proof
  assume "rows' = rows \<and> ks = []"
  then show ?thesis by (simp add: sent_trades_def)
next
  assume p: "\<not> attempted rows (sn_trade s) \<and> map (\<lambda>k. pp_trade (pm_payload k)) ks = [sn_trade s] \<and>
     map pb_trade rows' = map pb_trade rows @ [sn_trade s]"
  then have "attempted rows' t \<longleftrightarrow> attempted rows t \<or> t \<noteq> [] \<and> t = sn_trade s" for t
    unfolding attempted_map by (auto simp del: set_map)
  with p show ?thesis by (auto simp: once_def sent_trades_def)
qed

lemma sent_append: "sent_trades (a @ b) = sent_trades a @ sent_trades b"
  by (simp add: sent_trades_def)

lemma sweep_each_once:
  "sweep_each U W ss rows = (r, rows', ks) \<Longrightarrow> once attempted rows rows' (sent_trades ks)"
proof (induction ss arbitrary: rows r rows' ks)
  case Nil
  then show ?case by (simp add: sent_trades_def)
next
  case (Cons s ss)
  obtain f now reply where w: "W (sn_trade s) = (f, now, reply)" by (metis prod.exhaust)
  obtain x rows1 ks1 where p: "publish U f now reply s rows = (x, rows1, ks1)" by (metis prod.exhaust)
  obtain y rows2 ks2 where q: "sweep_each U W ss rows1 = (y, rows2, ks2)" by (metis prod.exhaust)
  have "once attempted rows rows1 (sent_trades ks1)" "once attempted rows1 rows2 (sent_trades ks2)"
    using publish_once[OF p] Cons.IH[OF q] by simp_all
  then show ?case using Cons.prems w p q once_trans[of attempted rows rows1 "sent_trades ks1" rows2 "sent_trades ks2"]
    by (auto simp: then_do_def sent_append split: sum.splits)
qed

lemma keyed_pamm_once: "once attempted rows (fst (keyed_pamm U a rows)) (snd (keyed_pamm U a rows))"
proof -
  obtain f W j account where a: "a = (f, W, j, account)" by (metis prod.exhaust)
  obtain r rows' ks where s: "sweep U f W (mapping_view j account) rows = (r, rows', ks)" by (metis prod.exhaust)
  have "once attempted rows rows' (sent_trades ks)"
    using s sweep_each_once[of U W "mapping_view j account" rows] by (auto simp: sweep_def sent_trades_def split: if_splits)
  then show ?thesis using s by (auto simp: a keyed_pamm_def publish_verified_def split: sum.split)
qed

interpretation pamm_sends: claimed_writes "keyed_pamm U" attempted for U
  by (rule claimed_writes_once) (rule keyed_pamm_once)

lemma run_sent_recorded:
  "t \<in> set (snd (run_emits (keyed_pamm U) ops rows)) \<Longrightarrow> attempted (fst (run_emits (keyed_pamm U) ops rows)) t"
proof (induction ops arbitrary: rows)
  case (Cons a ops)
  then show ?case
    using pamm_sends.write_claims[of t U a rows] pamm_sends.run_claim_stays[of "fst (keyed_pamm U a rows)" t U ops]
    by (auto simp: Let_def split_beta)
qed simp

lemma run_keyed_pamm:
  "run_emits (keyed_pamm U) ops rows = (case run_emits (pamm_step U) ops rows of (rows', ks) \<Rightarrow> (rows', sent_trades ks))"
proof (induction ops arbitrary: rows)
  case (Cons a ops)
  then show ?case by (simp add: keyed_pamm_def sent_append split_beta Let_def)
qed (simp add: sent_trades_def)

text \<open>
  Why a send was made in a pass of the world \<open>W\<close>: a verified trade of the pass, and the forwarder that the
  publication of that trade met.
\<close>

definition send_justified :: "url_tools \<Rightarrow> pamm_world \<Rightarrow> trade_snapshot list \<Rightarrow> pamm_send \<Rightarrow> bool" where
  "send_justified U W ss k \<longleftrightarrow>
     (\<exists>s \<in> set ss. \<exists>g. fst (W (sn_trade s)) = Some g \<and> fw_enabled g \<and> fw_live g \<and> fw_key g \<noteq> [] \<and>
        vd_verified (classify s) \<and> vd_state (classify s) \<in> {''verified_open'', ''verified_closed''} \<and>
        pm_payload k = payload s (classify s) \<and> pm_header k = (fw_header g, fw_key g) \<and> pm_url k = fw_url g \<and>
        validate_url U (fw_url g) = Inr ())"

lemma publish_justified:
  "publish U f now reply s rows = (r, rows', ks) \<Longrightarrow> k \<in> set ks \<Longrightarrow> fst (W (sn_trade s)) = f \<Longrightarrow> send_justified U W [s] k"
  by (cases f) (auto simp: publish_def Let_def send_justified_def publisher_enabled_def split: if_splits sum.splits upstream_reply.splits)

lemma sweep_each_justified:
  "sweep_each U W ss rows = (r, rows', ks) \<Longrightarrow> k \<in> set ks \<Longrightarrow> send_justified U W ss k"
proof (induction ss arbitrary: rows r rows' ks)
  case (Cons s ss)
  obtain f now reply where w: "W (sn_trade s) = (f, now, reply)" by (metis prod.exhaust)
  obtain x rows1 ks1 where p: "publish U f now reply s rows = (x, rows1, ks1)" by (metis prod.exhaust)
  obtain y rows2 ks2 where q: "sweep_each U W ss rows1 = (y, rows2, ks2)" by (metis prod.exhaust)
  have "k \<in> set ks1 \<or> k \<in> set ks2" using Cons.prems w p q by (auto simp: then_do_def split: sum.splits)
  then show ?case using publish_justified[OF p, of k W] Cons.IH[OF q] w by (auto simp: send_justified_def)
qed simp

text \<open>The same of any passes: each send of a run is one of a pass that began with publishing on.\<close>

definition pass_justified :: "url_tools \<Rightarrow> pamm_op \<Rightarrow> pamm_send \<Rightarrow> bool" where
  "pass_justified U a k \<longleftrightarrow>
     (case a of (f, W, j, account) \<Rightarrow>
        (\<exists>g. f = Some g \<and> fw_enabled g \<and> fw_live g) \<and> send_justified U W (mapping_view j account) k)"

lemma step_justified: "k \<in> set (snd (pamm_step U a rows)) \<Longrightarrow> pass_justified U a k"
  using sweep_each_justified[of U "fst (snd a)" "mapping_view (fst (snd (snd a))) (snd (snd (snd a)))" rows]
  by (cases a) (fastforce simp: pass_justified_def publish_verified_def sweep_def publisher_enabled_def
      split: if_splits sum.splits prod.splits option.splits)

lemma run_justified:
  "run_emits (pamm_step U) ops rows = (rows', sends) \<Longrightarrow> k \<in> set sends \<Longrightarrow> \<exists>a \<in> set ops. pass_justified U a k"
proof (induction ops arbitrary: rows sends)
  case (Cons a ops)
  obtain rows1 ks1 where s: "pamm_step U a rows = (rows1, ks1)" by (metis prod.exhaust)
  obtain rows2 ks2 where r: "run_emits (pamm_step U) ops rows1 = (rows2, ks2)" by (metis prod.exhaust)
  have "k \<in> set ks1 \<or> k \<in> set ks2" using Cons.prems s r by auto
  then show ?case using step_justified[of k U a rows] s Cons.IH[of rows1 ks2] r Cons.prems by auto
qed simp

subsection \<open>The table of the publications\<close>

lemma reserve_keyed:
  "reserve_publication t now rows = Inr rows' \<Longrightarrow> unique_key publication_key rows \<Longrightarrow> unique_key publication_key rows'"
  by (auto simp: reserve_publication_def unique_snoc publication_key_def split: if_splits)

lemma land_keyed [simp]: "unique_key publication_key (land_publication t now status err rows) = unique_key publication_key rows"
  by (simp add: land_publication_def unique_tupdate publication_key_def)

lemma publish_keyed:
  "unique_key publication_key rows \<Longrightarrow> publish U f now reply s rows = (r, rows', ks) \<Longrightarrow> unique_key publication_key rows'"
  by (auto simp: publish_def Let_def dest: reserve_keyed split: if_splits sum.splits upstream_reply.splits)

lemma sweep_each_keyed:
  "unique_key publication_key rows \<Longrightarrow> sweep_each U W ss rows = (r, rows', ks) \<Longrightarrow> unique_key publication_key rows'"
proof (induction ss arbitrary: rows r rows' ks)
  case (Cons s ss)
  obtain f now reply where w: "W (sn_trade s) = (f, now, reply)" by (metis prod.exhaust)
  obtain x rows1 ks1 where p: "publish U f now reply s rows = (x, rows1, ks1)" by (metis prod.exhaust)
  obtain y rows2 ks2 where q: "sweep_each U W ss rows1 = (y, rows2, ks2)" by (metis prod.exhaust)
  have "unique_key publication_key rows1" using publish_keyed[OF Cons.prems(1) p] .
  then show ?case using Cons.prems(2) w p q Cons.IH[OF _ q] by (auto simp: then_do_def split: sum.splits)
qed simp

lemma pamm_step_keyed: "unique_key publication_key rows \<Longrightarrow> unique_key publication_key (fst (pamm_step U a rows))"
  using sweep_each_keyed[of rows U "fst (snd a)" "mapping_view (fst (snd (snd a))) (snd (snd (snd a)))"]
  by (cases a) (auto simp: publish_verified_def sweep_def split: sum.splits prod.splits)

interpretation pamm_table: kept_invariant "\<lambda>a rows. fst (pamm_step U a rows)" "unique_key publication_key" for U
  by unfold_locales (rule pamm_step_keyed)

subsection \<open>Property\<close>

text \<open>
  C24: every table of the capture database keeps its primary key and its unique columns over any sequence of
  operations and restarts from an empty database: the trades their id and source key, the events their
  sequence number and key, the attempts, the identity links, the fills, the quantity, position and broker
  observations, the action history, the reasons, the paper decisions and the publications. A row of the
  action history belongs to a recorded attempt.
\<close>

theorem journal_keys_hold:
  "(let j = fst (run_emits (store_step digest) ops (empty_journal b)) in
      distinct (map tr_id (j_trades j)) \<and> distinct (map tr_source_key (j_trades j)) \<and>
      map er_seq (j_events j) = [1..<Suc (length (j_events j))] \<and> distinct (map er_key (j_events j)) \<and>
      distinct (map (\<lambda>a. (at_trade a, at_action a)) (j_attempts j)) \<and>
      distinct (map (\<lambda>l. (lk_trade l, lk_leg l, lk_scope l, lk_kind l, lk_native l)) (j_links j)) \<and>
      distinct (map (\<lambda>f. (xf_leg f, xf_scope f, xf_execution f)) (j_fills j)) \<and>
      distinct (map (\<lambda>q. (qo_trade q, qo_leg q, qo_scope q)) (j_quantities j)) \<and>
      distinct (map (\<lambda>p. (po_leg p, po_scope p, po_position p)) (j_positions j)) \<and>
      distinct (map (\<lambda>h. (ah_trade h, ah_action_key h)) (j_actions j)) \<and>
      distinct (map (\<lambda>d. (do_trade d, do_scope d, do_position d, do_reader d, do_execution d)) (j_dobs j)) \<and>
      distinct (map (\<lambda>r. (or_trade r, or_action_key r, or_attempt r)) (j_reasons j)) \<and>
      distinct (map (\<lambda>p. (ps_trade p, ps_at p)) (j_paper j)) \<and>
      (\<lambda>h. (ah_trade h, ah_action_key h)) ` set (j_actions j) \<subseteq> (\<lambda>a. (at_trade a, at_action a)) ` set (j_attempts j)) \<and>
   distinct (map (\<lambda>r. (pb_trade r, pb_at r)) (fst (run_emits (pamm_step U) passes [])))"
proof -
  let ?j = "fst (run_emits (store_step digest) ops (empty_journal b))"
  note keys = attempt_key_def link_key_def fill_key_def quantity_key_def position_key_def action_key_of_def
    dobs_key_def reason_key_def paper_row_key_def
  have "journal_wf ?j" by (rule journal_wf_runs)
  moreover have "unique_key publication_key (fst (run_emits (pamm_step U) passes []))"
    unfolding run_emits_fst by (rule pamm_table.run_inv) (simp add: unique_key_def)
  ultimately show ?thesis
    unfolding Let_def journal_wf_def unique_key_def actions_owned_def list_all_iff has_key_def publication_key_def keys
    by (auto simp: comp_def)
qed

text \<open>
  C13: a trade is published at most once and only after its verification: over any passes, failures, stops of
  the process and restarts, no trade with an attempt on record is sent, each sent trade is on record from
  then on, and each send was made by a pass that began with a forwarder enabled and live, of a trade of that
  pass whose snapshot the classifier verified, with the payload of that verdict; the forwarder in force at that
  very publication was enabled and live, and the send goes to its validated destination under its key.
\<close>

theorem published_once_after_verification:
  assumes "run_emits (pamm_step U) ops rows = (rows', sends)"
  shows "distinct (sent_trades sends) \<and> (\<forall>t \<in> set (sent_trades sends). \<not> attempted rows t) \<and>
         (\<forall>t \<in> set (sent_trades sends). attempted rows' t) \<and>
         (\<forall>k \<in> set sends. \<exists>(f, W, j, account) \<in> set ops.
            (\<exists>g. f = Some g \<and> fw_enabled g \<and> fw_live g) \<and>
            (\<exists>s \<in> set (mapping_view j account). \<exists>g. fst (W (sn_trade s)) = Some g \<and> fw_enabled g \<and> fw_live g \<and> fw_key g \<noteq> [] \<and>
               vd_verified (classify s) \<and> vd_state (classify s) \<in> {''verified_open'', ''verified_closed''} \<and>
               pm_payload k = payload s (classify s) \<and> pm_header k = (fw_header g, fw_key g) \<and> pm_url k = fw_url g \<and>
               validate_url U (fw_url g) = Inr ()))"
proof -
  have r: "run_emits (keyed_pamm U) ops rows = (rows', sent_trades sends)" using assms by (simp add: run_keyed_pamm)
  have "distinct (sent_trades sends)" using pamm_sends.run_at_most_once[of U ops rows] r by simp
  moreover have "\<forall>t \<in> set (sent_trades sends). \<not> attempted rows t" using pamm_sends.run_fresh[of _ U ops rows] r by simp
  moreover have "\<forall>t \<in> set (sent_trades sends). attempted rows' t"
    using run_sent_recorded[of _ U ops rows] r by simp
  moreover have "\<forall>k \<in> set sends. \<exists>a \<in> set ops. pass_justified U a k" using run_justified[OF assms] by blast
  ultimately show ?thesis by (simp only: pass_justified_def send_justified_def)
qed

definition proven_journal :: journal where
  "proven_journal = (empty_journal ''B'')\<lparr>j_trades := [sample_trade],
     j_links := [\<lparr>lk_trade = ''t'', lk_leg = Source_leg, lk_scope = [''m''], lk_kind = Order_link, lk_native = ''o'', lk_evidence = [], lk_at = 0\<rparr>,
       \<lparr>lk_trade = ''t'', lk_leg = Destination_leg, lk_scope = [''B'', ''A''], lk_kind = Position_link, lk_native = ''p'', lk_evidence = [], lk_at = 0\<rparr>],
     j_dobs := [\<lparr>do_trade = ''t'', do_scope = [''B'', ''A''], do_position = ''p'', do_reader = ''open_positions'', do_execution = ''p'',
       do_order_id = None, do_symbol = ''EURUSD'', do_side = ''BUY'', do_volume = Some (Dec 1 0), do_open_price = Some (Dec 1 0),
       do_open_time = None, do_open_millis = Some 5, do_close_time = None, do_close_reason = None, do_first_seen = 0, do_at = 0\<rparr>]\<rparr>"

definition live_forwarder :: forwarder where
  "live_forwarder = small_forwarder\<lparr>fw_url := ''https://tb'', fw_enabled := True, fw_live := True\<rparr>"

definition two_passes :: "pamm_op list" where
  "two_passes = replicate 2 (Some live_forwarder, \<lambda>_. (Some live_forwarder, 7, Upstream 200), proven_journal, ''A'')"

lemma verified_states:
  "vd_verified (classify s) \<longleftrightarrow> vd_state (classify s) = ''verified_open'' \<or> vd_state (classify s) = ''verified_closed''"
  using classify_state_verified[of s "vd_verified (classify s)"] by (auto simp: classify_state_eq)

lemma proven_view: "mapping_view proven_journal ''A'' = [snapshot proven_journal sample_trade]"
  by (simp add: mapping_view_def proven_journal_def sample_trade_def)

lemma proven_verified:
  "vd_verified (classify (snapshot proven_journal sample_trade))" "sn_trade (snapshot proven_journal sample_trade) = ''t''"
  by (simp_all add: classify_verified_iff proven_journal_def snapshot_def Let_def sample_trade_def view_link_def empty_journal_def
      destination_link_def is_destination_position_def has_source_def guarded_def owners_def qualifying_def read_back_readers_def has_time_def)

lemma live_enabled: "publisher_enabled (Some live_forwarder)" "fw_url live_forwarder = ''https://tb''"
  by (simp_all add: publisher_enabled_def live_forwarder_def small_forwarder_def)

lemma proven_publish:
  assumes "attempted rows ''t'' \<longleftrightarrow> rows \<noteq> []" "publish small_url (Some live_forwarder) 7 (Upstream 200) (snapshot proven_journal sample_trade) rows = (r, rows', ks)"
  shows "isl r = False" "sent_trades ks = (if rows = [] then [''t''] else [])" "attempted rows' ''t''"
proof -
  have v: "vd_state (classify (snapshot proven_journal sample_trade)) \<in> {''verified_open'', ''verified_closed''}"
    using verified_states proven_verified(1) by blast
  have "latest_publication rows ''t'' \<noteq> None \<longleftrightarrow> rows \<noteq> []" using latest_iff[of rows "''t''"] assms(1) by simp
  then have "isl r = False \<and> sent_trades ks = (if rows = [] then [''t''] else []) \<and> map pb_trade rows' = (if rows = [] then [''t''] else map pb_trade rows)"
    using assms(2) v proven_verified live_enabled small_url_ok
    by (auto simp: publish_def Let_def reserve_publication_def sent_trades_def payload_def split: if_splits)
  then show "isl r = False" "sent_trades ks = (if rows = [] then [''t''] else [])" "attempted rows' ''t''"
    using assms(1) by (cases rows; simp add: attempted_map del: set_map)+
qed

lemma proven_pass:
  assumes "attempted rows ''t'' \<longleftrightarrow> rows \<noteq> []"
    "pamm_step small_url (Some live_forwarder, \<lambda>_. (Some live_forwarder, 7, Upstream 200), proven_journal, ''A'') rows = (rows', ks)"
  shows "sent_trades ks = (if rows = [] then [''t''] else [])" "attempted rows' ''t''"
proof -
  obtain r rows1 ks1 where p: "publish small_url (Some live_forwarder) 7 (Upstream 200) (snapshot proven_journal sample_trade) rows = (r, rows1, ks1)"
    by (metis prod.exhaust)
  note pp = proven_publish[OF assms(1) p]
  then have "rows' = rows1 \<and> ks = ks1"
    using assms(2) p live_enabled(1) by (auto simp: publish_verified_def sweep_def proven_view then_do_def isl_def split: sum.splits)
  with pp show "sent_trades ks = (if rows = [] then [''t''] else [])" "attempted rows' ''t''" by simp_all
qed

theorem published_once_after_verification_witness:
  "\<exists>rows sends. run_emits (pamm_step small_url) two_passes [] = (rows, sends) \<and> sent_trades sends = [''t''] \<and>
     (\<forall>k \<in> set sends. pm_url k = ''https://tb'')"
proof -
  let ?op = "(Some live_forwarder, \<lambda>_. (Some live_forwarder, 7, Upstream 200), proven_journal, ''A'') :: pamm_op"
  obtain rows1 ks1 where a: "pamm_step small_url ?op [] = (rows1, ks1)" by (rule prod.exhaust)
  obtain rows2 ks2 where b: "pamm_step small_url ?op rows1 = (rows2, ks2)" by (rule prod.exhaust)
  have one: "sent_trades ks1 = [''t'']" "attempted rows1 ''t''" using proven_pass[OF _ a] by (simp_all add: attempted_def)
  then have "rows1 \<noteq> []" by (auto simp: attempted_def)
  with one proven_pass(1)[OF _ b] have two: "sent_trades ks2 = []" by simp
  have run: "run_emits (pamm_step small_url) two_passes [] = (rows2, ks1 @ ks2)" using a b by (simp add: two_passes_def numeral_2_eq_2 del: pamm_step.simps)
  have "\<forall>k \<in> set (ks1 @ ks2). pm_url k = fw_url live_forwarder"
    using published_once_after_verification[OF run] by (fastforce simp: two_passes_def)
  with run one two show ?thesis
    by (intro exI[of _ rows2] exI[of _ "ks1 @ ks2"]) (simp add: sent_append live_forwarder_def)
qed

end
