(* ===== verification/LedgerView.thy ===== *)
theory LedgerView
  imports Publisher ManualSend
begin

text \<open>
  The rows of the verified-trade ledger (dashboard/ledger_view.py): what a page says of a trade, from its
  snapshot, the publication on record and whether it was sent on paper.
\<close>

subsection \<open>Signal-driven removals\<close>

record unwind_view =
  uw_action :: string
  uw_outcome :: string
  uw_at :: int
  uw_request_id :: string
  uw_request :: "request option"
  uw_summary :: "string option"
  uw_origin :: "string option"

fun attempt_text :: "attempt_state \<Rightarrow> string" where
  "attempt_text At_dispatching = ''dispatching''"
| "attempt_text At_accepted = ''accepted''"
| "attempt_text At_uncertain = ''uncertain''"
| "attempt_text At_held = ''held''"

definition is_unwind :: "string \<Rightarrow> bool" where
  "is_unwind a \<longleftrightarrow> a = ''CANCEL'' \<or> a = ''CLOSE''"

text \<open>The latest cancel or close, or the latest refusal of one; actions come newest first.\<close>

definition unwind_of :: "trade_snapshot \<Rightarrow> unwind_view option" where
  "unwind_of s =
     (let actions = filter (\<lambda>a. is_unwind (action_name (ah_action a))) (sn_actions s);
          reasons = filter (\<lambda>r. is_unwind (hd (split_char (CHR '':'') (or_action_key r)))) (sn_outcomes s)
      in case actions of
           a # _ \<Rightarrow>
             (let why = find (\<lambda>r. or_action_key r = ah_action_key a) (rev reasons) in
              Some \<lparr>uw_action = action_name (ah_action a), uw_outcome = attempt_text (ah_outcome a), uw_at = ah_at a,
                    uw_request_id = ah_request_id a, uw_request = Some (ah_request a),
                    uw_summary = map_option (\<lambda>r. rs_summary (or_reason r)) why,
                    uw_origin = map_option (\<lambda>r. rs_origin (or_reason r)) why\<rparr>)
         | [] \<Rightarrow>
             (if reasons = [] then None
              else (let r = last reasons in
                Some \<lparr>uw_action = hd (split_char (CHR '':'') (or_action_key r)), uw_outcome = or_outcome r, uw_at = or_at r,
                      uw_request_id = last (split_char (CHR '':'') (or_action_key r)), uw_request = None,
                      uw_summary = Some (rs_summary (or_reason r)), uw_origin = Some (rs_origin (or_reason r))\<rparr>)))"

definition native_ids :: "leg \<Rightarrow> link_kind \<Rightarrow> link_view list \<Rightarrow> string list" where
  "native_ids leg kind links =
     map (\<lambda>l. lk_native (lv_row l)) (filter (\<lambda>l. lk_leg (lv_row l) = leg \<and> lk_kind (lv_row l) = kind \<and> lk_native (lv_row l) \<noteq> []) links)"

text \<open>Why a trade ended or was refused: its outcome, its reason and the time.\<close>

definition cancellation_of :: "trade_snapshot \<Rightarrow> (string \<times> reason \<times> int) option" where
  "cancellation_of s =
     (if sn_outcomes s \<noteq> [] then (let r = last (sn_outcomes s) in Some (or_outcome r, or_reason r, or_at r))
      else if sn_source_state s \<in> {''Cancelled'', ''Refused'', ''Removed''} \<and> native_ids Destination_leg Position_link (sn_links s) = []
      then Some (''cancelled'', \<lparr>rs_origin = ''source'', rs_code = sn_source_state s,
                   rs_summary = ''Source order ended before any send; not a candidate'',
                   rs_evidence = ''native ORDER/POSITION event''\<rparr>, sn_updated_at s)
      else None)"

subsection \<open>Rows\<close>

record trade_row =
  lr_trade :: string
  lr_state :: string
  lr_verified :: bool
  lr_symbol :: string
  lr_side :: string
  lr_lots :: "decimal option"
  lr_source_enabled :: bool
  lr_source :: "event_source \<times> string list \<times> string list \<times> string list"
  lr_destination :: "string \<times> string \<times> string list \<times> string list"
  lr_sent_at :: "int option"
  lr_confirmed_at :: "int option"
  lr_broker_open :: "string option \<times> int option"
  lr_read_back :: "(string \<times> decimal option \<times> decimal option) option"
  lr_pamm :: "(bool \<times> int \<times> int option) option"
  lr_cancellation :: "(string \<times> reason \<times> int) option"
  lr_unwind :: "unwind_view option"
  lr_mapping_status :: string
  lr_reasons :: "string list"

definition paper_text :: string where
  "paper_text = ''Sent in paper mode: the exact request was recorded and nothing reached the broker.''"

definition cancelled_text :: string where
  "cancelled_text = ''The broker accepted the cancel of this pending order on the source's signal; no position was opened.''"

text \<open>The broker accepted the cancel of an order that never became a position.\<close>

definition shown_cancelled :: "trade_snapshot \<Rightarrow> bool" where
  "shown_cancelled s \<longleftrightarrow>
     (case unwind_of s of None \<Rightarrow> False | Some u \<Rightarrow> uw_action u = ''CANCEL'' \<and> uw_outcome u = ''accepted'') \<and>
     sn_state s = Resolved \<and> native_ids Destination_leg Position_link (sn_links s) = []"

definition verified_row :: "send_controls \<Rightarrow> publication option \<Rightarrow> bool \<Rightarrow> trade_snapshot \<Rightarrow> trade_row" where
  "verified_row controls publication paper s =
     (let v = classify s; links = sn_links s;
          on_paper = (paper \<and> \<not> vd_verified v);
          reasons = vd_reasons v @ filter (\<lambda>r. r \<notin> set (vd_reasons v)) (sn_reasons s)
      in \<lparr>lr_trade = sn_trade s,
          lr_state = (if shown_cancelled s then ''cancelled'' else if on_paper then ''paper_sent'' else vd_state v),
          lr_verified = vd_verified v, lr_symbol = sn_symbol s, lr_side = sn_side s,
          lr_lots = (case sn_lots s of Some d \<Rightarrow> Some d | None \<Rightarrow> sn_source_quantity s),
          lr_source_enabled = (sn_source s \<in> set (sc_sources controls)),
          lr_source = (sn_source s, sn_scope s, native_ids Source_leg Order_link links, native_ids Source_leg Position_link links),
          lr_destination = (sn_broker s, sn_account s, native_ids Destination_leg Order_link links,
                            native_ids Destination_leg Position_link links),
          lr_sent_at = map_option ah_at (find (\<lambda>a. ah_action_key a = ''CREATE'') (sn_actions s)),
          lr_confirmed_at = map_option do_first_seen (vd_read_back v),
          lr_broker_open = (vd_open_time v, vd_open_millis v),
          lr_read_back = map_option (\<lambda>r. (do_reader r, do_volume r, do_open_price r)) (vd_read_back v),
          lr_pamm = map_option (\<lambda>p. (is_published (Some p), pb_at p, pb_status p)) publication,
          lr_cancellation = cancellation_of s, lr_unwind = unwind_of s, lr_mapping_status = sn_status s,
          lr_reasons = (if shown_cancelled s then [cancelled_text] else []) @ (if on_paper then [paper_text] else []) @ reasons\<rparr>)"

definition paper_sent_ids :: "journal \<Rightarrow> string list \<Rightarrow> string set" where
  "paper_sent_ids j ts = {t \<in> set ts. t \<noteq> [] \<and> (\<exists>p \<in> set (j_paper j). ps_trade p = t)}"

definition verified_trades :: "send_controls \<Rightarrow> publication list \<Rightarrow> journal \<Rightarrow> string \<Rightarrow> string \<times> trade_row list" where
  "verified_trades controls rows j account =
     (let ss = mapping_view j account; paper = paper_sent_ids j (map sn_trade ss)
      in (account, map (\<lambda>s. verified_row controls (latest_publication rows (sn_trade s)) (sn_trade s \<in> paper) s) ss))"

text \<open>The paper page: the latest decisions of the account with their requests.\<close>

definition paper_sends :: "journal \<Rightarrow> string \<Rightarrow> string \<times> paper_send list" where
  "paper_sends j account =
     (account, take 200 (sort_key (\<lambda>p. - ps_at p) (filter (\<lambda>p. ps_destination p = account) (j_paper j))))"

subsection \<open>Properties\<close>

lemma no_position_unverified:
  "native_ids Destination_leg Position_link (sn_links s) = [] \<Longrightarrow> \<not> vd_verified (classify s)"
  by (auto simp: classify_verified_iff native_ids_def filter_empty_conv destination_link_def is_destination_position_def find_None_iff)

lemma unverified_states: "vd_state (classify s) \<noteq> ''cancelled''" "vd_state (classify s) \<noteq> ''paper_sent''"
  by (simp_all add: classify_state_eq classify_state_def)

text \<open>
  A row of the ledger says what the evidence says: it is shown verified, open or closed, exactly when the
  broker's read-back proves it, whatever else happened to the trade; as sent on paper exactly when a paper
  decision is on record and neither a read-back nor a cancel is; as cancelled only after the broker accepted
  its cancel and when no position of it is known; and otherwise in the state of its classification.
\<close>
theorem ledger_row_truthful:
  "(lr_verified (verified_row c p paper s) \<longleftrightarrow>
      lr_state (verified_row c p paper s) = ''verified_open'' \<or> lr_state (verified_row c p paper s) = ''verified_closed'') \<and>
   (lr_verified (verified_row c p paper s) \<longleftrightarrow>
      destination_link s \<noteq> None \<and> has_source s \<and> \<not> guarded s \<and> (\<exists>r. r \<in> set (qualifying s) \<and> has_time r)) \<and>
   (lr_state (verified_row c p paper s) = ''paper_sent'' \<longleftrightarrow> paper \<and> \<not> lr_verified (verified_row c p paper s) \<and> \<not> shown_cancelled s) \<and>
   (lr_state (verified_row c p paper s) = ''cancelled'' \<longleftrightarrow> shown_cancelled s) \<and>
   (lr_state (verified_row c p paper s) \<in> {''paper_sent'', ''cancelled'', vd_state (classify s)})"
proof -
  have "\<not> (shown_cancelled s \<and> vd_verified (classify s))" using no_position_unverified[of s] by (auto simp: shown_cancelled_def)
  then show ?thesis
    using verified_states[of s] unverified_states[of s] classify_verified_iff[of s] by (auto simp: verified_row_def Let_def)
qed

end
