(* ===== verification/HttpRoutes.thy ===== *)
theory HttpRoutes
  imports Forwarder BodyFraming Bridge
begin

text \<open>
  The routes of the dashboard's HTTP server (dashboard/server.py): which request reaches which operation, with
  which credentials, and which status answers. A target is matched whole in one place and by its path in
  another; the path of a target is what \<open>urlsplit\<close> makes of it.
\<close>

subsection \<open>Requests\<close>

record web_request =
  hq_target :: string
  hq_headers :: "(string \<times> string) list"
  hq_body :: string

text \<open>The server: its port in decimal, its tokens and the streams it can still open.\<close>

record http_server =
  hs_port :: string
  hs_session :: string
  hs_bridge :: string
  hs_slots :: nat

definition header_values :: "string \<Rightarrow> web_request \<Rightarrow> string list" where
  "header_values name q = map snd (filter (\<lambda>(n, v). map lower n = map lower name) (hq_headers q))"

definition header :: "string \<Rightarrow> web_request \<Rightarrow> string option" where
  "header name q = (case header_values name q of [] \<Rightarrow> None | v # _ \<Rightarrow> Some v)"

definition trusted :: "http_server \<Rightarrow> web_request \<Rightarrow> bool" where
  "trusted S q \<longleftrightarrow>
     (let host = opt_str (header ''Host'' q) in
      host \<in> {''127.0.0.1:'' @ hs_port S, ''localhost:'' @ hs_port S} \<and> header ''Sec-Fetch-Site'' q \<noteq> Some ''cross-site'' \<and>
      header ''Origin'' q \<in> {None, Some (''http://'' @ host)})"

definition session_authorized :: "http_server \<Rightarrow> web_request \<Rightarrow> bool" where
  "session_authorized S q \<longleftrightarrow> opt_str (header ''X-Session-Token'' q) = hs_session S"

text \<open>The bearer token of the senders; without a configured one nobody is a sender.\<close>

definition sender_authorized :: "http_server \<Rightarrow> web_request \<Rightarrow> bool" where
  "sender_authorized S q \<longleftrightarrow> hs_bridge S \<noteq> [] \<and> opt_str (header ''Authorization'' q) = ''Bearer '' @ hs_bridge S"

subsection \<open>Paths\<close>

definition scheme_char :: "char \<Rightarrow> bool" where
  "scheme_char c \<longleftrightarrow> is_letter c \<or> is_digit c \<or> c \<in> set ''+-.''"

definition drop_scheme :: "string \<Rightarrow> string" where
  "drop_scheme s =
     (let a = takeWhile (\<lambda>c. c \<noteq> CHR '':'') s; b = dropWhile (\<lambda>c. c \<noteq> CHR '':'') s
      in if b \<noteq> [] \<and> a \<noteq> [] \<and> is_letter (hd a) \<and> list_all scheme_char a then tl b else s)"

text \<open>\<open>urlsplit(target).path\<close>; \<open>ok\<close> is the library's check of an address in brackets and of its characters.\<close>

definition url_path :: "(string \<Rightarrow> bool) \<Rightarrow> string \<Rightarrow> string res" where
  "url_path ok target =
     (let s = drop_scheme (filter (\<lambda>c. c \<notin> {CHR 0x09, CHR 0x0A, CHR 0x0D}) (dropWhile (code_in 0 32) target));
          full = starts_with ''//'' s;
          netloc = (if full then takeWhile (\<lambda>c. c \<notin> set ''/?#'') (drop 2 s) else []);
          rest = (if full then dropWhile (\<lambda>c. c \<notin> set ''/?#'') (drop 2 s) else s)
      in if (CHR ''['' \<in> set netloc) \<noteq> (CHR '']'' \<in> set netloc) \<or> netloc \<noteq> [] \<and> \<not> ok netloc
         then Inl (value_error ''Invalid URL'') else Inr (takeWhile (\<lambda>c. c \<notin> set ''?#'') rest))"

text \<open>\<open>int\<close> of a text: a sign, digits and single underscores between digits.\<close>

fun int_digits :: "bool \<Rightarrow> nat \<Rightarrow> string \<Rightarrow> nat option" where
  "int_digits p n [] = (if p then Some n else None)"
| "int_digits p n (c # s) =
     (if is_digit c then int_digits True (10 * n + (of_char c - 48)) s
      else if c = CHR ''_'' \<and> p then int_digits False n s else None)"

definition py_int :: "string \<Rightarrow> int option" where
  "py_int s =
     (case strip s of
        [] \<Rightarrow> None
      | c # r \<Rightarrow>
          if c = CHR ''-'' then map_option (\<lambda>n. - int n) (int_digits False 0 r)
          else if c = CHR ''+'' then map_option int (int_digits False 0 r)
          else map_option int (int_digits False 0 (c # r)))"

subsection \<open>Forwarded requests\<close>

datatype forward_verdict = Forward_refuse nat | Forward_receive "nat \<times> bool \<times> bool" string

definition forward_tradingbox :: "url_tools \<Rightarrow> http_server \<Rightarrow> forwarder option \<Rightarrow> web_request \<Rightarrow> forward_verdict" where
  "forward_tradingbox U S f q =
     (if \<not> trusted S q then Forward_refuse 403
      else (case f of
        None \<Rightarrow> Forward_refuse 401
      | Some f \<Rightarrow>
          if header ''Origin'' q \<noteq> None \<or> \<not> forward_authorized (hq_headers q) f then Forward_refuse 401
          else (case bindE (validate_target U (hq_target q)) (\<lambda>_.
                     read_forward_body (header_values ''Content-Length'' q) (header_values ''Transfer-Encoding'' q) (hq_body q)) of
                  Inl e \<Rightarrow> Forward_refuse 400
                | Inr body \<Rightarrow> Forward_receive (forward_ticket f) body)))"

subsection \<open>Reads\<close>

datatype get_verdict =
    Get_refuse nat
  | Get_broken
  | Get_forward forward_verdict
  | Get_token
  | Get_stream string
  | Get_view string
  | Get_page string int
  | Get_asset string

definition get_streams :: "string list" where
  "get_streams = [''/api/raw/stream'', ''/api/capture/stream'', ''/api/stream'']"

definition get_views :: "string list" where
  "get_views = [''/api/signal-copy-settings'', ''/api/signal-copy-events'', ''/api/symbol-map'', ''/api/r01-lane'', ''/api/r01-events'',
     ''/api/tradingbox-forwarding'', ''/api/copy-settings'', ''/api/copy-controls'', ''/api/copy-configs'', ''/api/event-meanings'',
     ''/api/status'', ''/api/broker-profiles'', ''/api/events'', ''/api/capture/events'', ''/api/trade-mappings'']"

text \<open>The cursor of a paged view, named in the query.\<close>

definition get_pages :: "(string \<times> string) list" where
  "get_pages = [(''/api/logging/events'', ''before''), (''/api/relay/logs'', ''after'')]"

text \<open>Percent decoding, the files under the assets and the first value of a query's field are arguments.\<close>

record asset_tools =
  as_unquote :: "string \<Rightarrow> string"
  as_file :: "string \<Rightarrow> bool"
  as_query :: "string \<Rightarrow> string \<Rightarrow> string option"

definition handle_get ::
  "url_tools \<Rightarrow> (string \<Rightarrow> bool) \<Rightarrow> asset_tools \<Rightarrow> http_server \<Rightarrow> forwarder option \<Rightarrow> web_request \<Rightarrow> get_verdict" where
  "handle_get U ok A S f q =
     (if starts_with ''/api/hcamm/'' (hq_target q) then Get_forward (forward_tradingbox U S f q)
      else if \<not> trusted S q then Get_refuse 403
      else (case url_path ok (hq_target q) of
        Inl e \<Rightarrow> Get_broken
      | Inr path \<Rightarrow>
          if path = ''/api/session'' then Get_token
          else if starts_with ''/api/'' path
          then (if \<not> session_authorized S q then Get_refuse 401
                else if path \<in> set get_streams then (if hs_slots S = 0 then Get_refuse 503 else Get_stream path)
                else if path \<in> set get_views then Get_view path
                else (case map_of get_pages path of
                        Some field \<Rightarrow>
                          (case py_int (case as_query A (hq_target q) field of Some v \<Rightarrow> v | None \<Rightarrow> ''0'') of
                             Some n \<Rightarrow> Get_page path n
                           | None \<Rightarrow> Get_refuse 400)
                      | None \<Rightarrow> Get_refuse 404))
          else (let relative = (if path = ''/'' then ''index.html'' else dropWhile (\<lambda>c. c = CHR ''/'') (as_unquote A path)) in
                if as_file A relative then Get_asset relative else Get_refuse 404)))"

subsection \<open>Writes\<close>

datatype post_action =
    Act_forwarding | Act_profile | Act_connect | Act_start | Act_capture_start | Act_stop | Act_closed | Act_orders | Act_positions
  | Act_route | Act_controls | Act_send | Act_copying | Act_signals | Act_symbols | Act_r01 | Act_config | Act_config_state
  | Act_config_delete | Act_account_view | Act_signal_copying | Act_refresh

definition post_actions :: "(string \<times> post_action) list" where
  "post_actions = [(''/api/tradingbox-forwarding'', Act_forwarding), (''/api/broker-profiles/action'', Act_profile),
     (''/api/connect'', Act_connect), (''/api/start'', Act_start), (''/api/capture/start'', Act_capture_start), (''/api/stop'', Act_stop),
     (''/api/orders/closed'', Act_closed), (''/api/orders/refresh'', Act_orders), (''/api/positions/refresh'', Act_positions),
     (''/api/copy-settings'', Act_route), (''/api/copy-controls'', Act_controls), (''/api/trades/send'', Act_send),
     (''/api/copying'', Act_copying), (''/api/signal-copy-settings'', Act_signals), (''/api/symbol-map'', Act_symbols),
     (''/api/r01-lane'', Act_r01), (''/api/copy-configs'', Act_config), (''/api/copy-configs/state'', Act_config_state),
     (''/api/copy-configs/delete'', Act_config_delete), (''/api/account-view'', Act_account_view),
     (''/api/signal-copying'', Act_signal_copying), (''/api/token/refresh'', Act_refresh)]"

text \<open>What a request leads to: a refusal, a delivery of a sender, the end, or an operation with its fields.\<close>

datatype post_verdict =
    Post_refuse nat
  | Post_broken
  | Post_forward forward_verdict
  | Post_signals string
  | Post_log string
  | Post_relay json
  | Post_native json
  | Post_bridge string string
  | Post_shutdown
  | Post_action post_action "(string \<times> json) list"

definition sender_paths :: "string list" where
  "sender_paths = [''/events'', ''/capture/events'', ''/capture/signals'', ''/relay/logs'', ''/logging/events'']"

definition body_limit :: "string \<Rightarrow> int" where
  "body_limit route = (if route = ''/logging/events'' then 65536 else if route = ''/capture/signals'' then 1048576 else 16384)"

definition content_length :: "web_request \<Rightarrow> int" where
  "content_length q = (case header_values ''Content-Length'' q of [v] \<Rightarrow> (case py_int v of Some n \<Rightarrow> n | None \<Rightarrow> -1) | _ \<Rightarrow> -1)"

text \<open>The operator's routes: an object of fields for one of the operations.\<close>

definition route_action :: "string \<Rightarrow> json res \<Rightarrow> post_verdict" where
  "route_action target parsed =
     (case parsed of
        Inr (JS_obj fs) \<Rightarrow>
          if target = ''/api/shutdown'' then Post_shutdown
          else (case map_of post_actions target of Some a \<Rightarrow> Post_action a fs | None \<Rightarrow> Post_refuse 404)
      | _ \<Rightarrow> Post_refuse 400)"

text \<open>A body that was read, against the credentials of its route; \<open>parse\<close> reads JSON.\<close>

definition route_body :: "(string \<Rightarrow> json res) \<Rightarrow> http_server \<Rightarrow> web_request \<Rightarrow> string \<Rightarrow> int \<Rightarrow> string \<Rightarrow> post_verdict" where
  "route_body parse S q route n body =
     (let target = hq_target q; parsed = (\<lambda>f. case parse body of Inl e \<Rightarrow> Post_refuse 400 | Inr v \<Rightarrow> f v) in
      if route = ''/capture/signals'' then (if header ''Origin'' q \<noteq> None then Post_refuse 401 else Post_signals body)
      else if target = ''/logging/events''
      then (if header ''Origin'' q \<noteq> None \<or> \<not> sender_authorized S q then Post_refuse 401
            else if int (length body) \<noteq> n then Post_refuse 400 else Post_log body)
      else if target = ''/relay/logs''
      then (if header ''Origin'' q \<noteq> None \<or> \<not> sender_authorized S q then Post_refuse 401 else parsed Post_relay)
      else if target = ''/capture/events''
      then (if \<not> sender_authorized S q then Post_refuse 401 else parsed Post_native)
      else if target = ''/events''
      then (if hs_bridge S = [] then Post_refuse 503 else Post_bridge (opt_str (header ''Authorization'' q)) body)
      else route_action target (parse body))"

definition handle_post ::
  "url_tools \<Rightarrow> (string \<Rightarrow> bool) \<Rightarrow> (string \<Rightarrow> json res) \<Rightarrow> http_server \<Rightarrow> forwarder option \<Rightarrow> web_request \<Rightarrow> post_verdict" where
  "handle_post U ok parse S f q =
     (if starts_with ''/api/hcamm/'' (hq_target q) then Post_forward (forward_tradingbox U S f q)
      else if \<not> trusted S q then Post_refuse 403
      else (case url_path ok (hq_target q) of
        Inl e \<Rightarrow> Post_broken
      | Inr route \<Rightarrow>
          if route \<notin> set sender_paths \<and> \<not> session_authorized S q then Post_refuse 401
          else (let n = content_length q in
            if \<not> (0 \<le> n \<and> n \<le> body_limit route) \<or> truthy (header ''Transfer-Encoding'' q) then Post_refuse 413
            else route_body parse S q route n (take (nat n) (hq_body q)))))"

text \<open>Every other verb.\<close>

definition handle_other :: "url_tools \<Rightarrow> http_server \<Rightarrow> forwarder option \<Rightarrow> web_request \<Rightarrow> forward_verdict" where
  "handle_other U S f q = (if starts_with ''/api/hcamm/'' (hq_target q) then forward_tradingbox U S f q else Forward_refuse 404)"

subsection \<open>Answers\<close>

definition action_text :: string where
  "action_text = ''Action could not complete. Check the selected account and connection status.''"

definition failure_answer :: "exn \<Rightarrow> nat \<times> string" where
  "failure_answer e =
     (if is_value_error e \<or> exn_type e \<in> {''TypeError'', ''KeyError''} then (400, action_text)
      else if exn_type e = ''TimeoutError'' then (408, ''Request timed out'')
      else (500, ''Local service error. Check the ledger path and restart the dashboard.''))"

text \<open>The operations that answer a refusal with its own text, and those that call a failed read a bad gateway.\<close>

definition speaks :: "post_action \<Rightarrow> exn \<Rightarrow> bool" where
  "speaks a e \<longleftrightarrow>
     (if a \<in> {Act_profile, Act_config, Act_config_state, Act_config_delete} then is_value_error e \<or> exn_type e = ''TypeError''
      else a \<in> {Act_forwarding, Act_closed, Act_controls, Act_send, Act_copying, Act_account_view} \<and> is_value_error e)"

definition action_answer :: "post_action \<Rightarrow> 'a res \<Rightarrow> nat \<times> string" where
  "action_answer a r =
     (case r of
        Inr _ \<Rightarrow> (200, [])
      | Inl e \<Rightarrow>
          if speaks a e then (400, exn_msg e)
          else if a = Act_closed
          then (502, ''Closed history could not be loaded. Check the broker connection and try again.'')
          else if a = Act_account_view then (502, ''The selected account read failed; check the broker connection.'')
          else failure_answer e)"

definition delivery_answer :: "'a res \<Rightarrow> nat \<times> string" where
  "delivery_answer r = (case r of Inr _ \<Rightarrow> (202, []) | Inl e \<Rightarrow> failure_answer e)"

subsection \<open>Laws\<close>

text \<open>The path of a target under \<open>/api/\<close> is under \<open>/api/\<close>; no sender's path is.\<close>

lemma starts_split: "starts_with a s \<longleftrightarrow> (\<exists>u. s = a @ u)"
  by (auto simp: starts_with_def) (metis append_take_drop_id)

lemma slash_codes: "\<not> code_in 0 32 (CHR ''/'')" "\<not> is_letter (CHR ''/'')"
  by (simp_all add: is_letter_def code_in_def)

lemma drop_scheme_slash: "drop_scheme (CHR ''/'' # s) = CHR ''/'' # s"
  by (simp add: drop_scheme_def Let_def slash_codes)

lemma url_path_api:
  assumes "starts_with ''/api/'' target" "url_path ok target = Inr route"
  shows "starts_with ''/api/'' route"
proof -
  obtain u where u: "target = ''/api/'' @ u" using assms(1) by (auto simp: starts_split)
  have "filter (\<lambda>c. c \<notin> {CHR 0x09, CHR 0x0A, CHR 0x0D}) (dropWhile (code_in 0 32) target) =
      CHR ''/'' # ''api/'' @ filter (\<lambda>c. c \<notin> {CHR 0x09, CHR 0x0A, CHR 0x0D}) u"
    by (simp add: u slash_codes)
  then show ?thesis using assms(2)
    unfolding url_path_def Let_def by (auto simp: drop_scheme_slash starts_with_def split: if_splits)
qed

lemma operator_paths:
  "list_all (starts_with ''/api/'') (''/api/shutdown'' # map fst post_actions)"
  "list_all (\<lambda>p. \<not> starts_with ''/api/'' p) sender_paths"
  by (simp_all add: post_actions_def sender_paths_def starts_with_def)

lemma operator_route:
  assumes "t = ''/api/shutdown'' \<or> map_of post_actions t = Some a" "url_path ok t = Inr route"
  shows "route \<notin> set sender_paths"
proof -
  have "t \<in> set (''/api/shutdown'' # map fst post_actions)"
    using assms(1) by (auto dest!: map_of_SomeD intro: rev_image_eqI)
  then have "starts_with ''/api/'' t" using operator_paths(1) by (auto simp: list_all_iff)
  from url_path_api[OF this assms(2)] show ?thesis using operator_paths(2) by (auto simp: list_all_iff)
qed

subsection \<open>Property\<close>

text \<open>The credentials a verdict needs: of the writes, of the reads, and of a forwarded request.\<close>

definition post_allowed :: "http_server \<Rightarrow> web_request \<Rightarrow> post_verdict \<Rightarrow> bool" where
  "post_allowed S q v \<longleftrightarrow>
     (case v of
        Post_shutdown \<Rightarrow> session_authorized S q
      | Post_action a fs \<Rightarrow> session_authorized S q
      | Post_signals b \<Rightarrow> header ''Origin'' q = None
      | Post_log b \<Rightarrow> header ''Origin'' q = None \<and> sender_authorized S q
      | Post_relay v \<Rightarrow> header ''Origin'' q = None \<and> sender_authorized S q
      | Post_native v \<Rightarrow> sender_authorized S q
      | Post_bridge a b \<Rightarrow> hs_bridge S \<noteq> [] \<and> a = opt_str (header ''Authorization'' q)
      | _ \<Rightarrow> True)"

lemma route_action_cases:
  "route_action target parsed = v \<Longrightarrow>
     (\<exists>n. v = Post_refuse n) \<or> (target = ''/api/shutdown'' \<and> v = Post_shutdown) \<or> (\<exists>a fs. map_of post_actions target = Some a \<and> v = Post_action a fs)"
  by (auto simp: route_action_def split: sum.splits json.splits if_splits option.splits)

lemma route_body_allowed:
  assumes "url_path ok (hq_target q) = Inr route" "route \<in> set sender_paths \<or> session_authorized S q"
  shows "post_allowed S q (route_body parse S q route n body)"
proof -
  have "post_allowed S q (route_action (hq_target q) p)" for p
    using route_action_cases[of "hq_target q" p, OF refl] operator_route[OF _ assms(1)] assms(2) by (auto simp: post_allowed_def)
  moreover have "post_allowed S q (case parse body of Inl e \<Rightarrow> Post_refuse 400 | Inr v \<Rightarrow> f v)" if "\<And>v. post_allowed S q (f v)" for f
    using that by (simp add: post_allowed_def split: sum.split)
  ultimately show ?thesis by (simp add: route_body_def Let_def) (auto simp: post_allowed_def split: sum.split)
qed

definition get_allowed :: "http_server \<Rightarrow> web_request \<Rightarrow> get_verdict \<Rightarrow> bool" where
  "get_allowed S q v \<longleftrightarrow>
     (case v of
        Get_stream p \<Rightarrow> session_authorized S q
      | Get_view p \<Rightarrow> session_authorized S q
      | Get_page p n \<Rightarrow> session_authorized S q
      | _ \<Rightarrow> True)"

definition forward_allowed :: "http_server \<Rightarrow> forwarder option \<Rightarrow> web_request \<Rightarrow> forward_verdict \<Rightarrow> bool" where
  "forward_allowed S f q v \<longleftrightarrow>
     (case v of
        Forward_refuse n \<Rightarrow> True
      | Forward_receive ticket body \<Rightarrow>
          trusted S q \<and> header ''Origin'' q = None \<and>
          (\<exists>g. f = Some g \<and> forward_authorized (hq_headers q) g \<and> ticket = forward_ticket g))"

lemma forward_tradingbox_allowed: "forward_allowed S f q (forward_tradingbox U S f q)"
  by (auto simp: forward_tradingbox_def forward_allowed_def split: option.splits sum.splits)

lemma handle_other_allowed: "forward_allowed S f q (handle_other U S f q)"
  using forward_tradingbox_allowed[of S f q U] by (auto simp: handle_other_def) (simp add: forward_allowed_def)

lemma handle_get_local:
  assumes "\<not> starts_with ''/api/hcamm/'' (hq_target q)" "trusted S q" "url_path ok (hq_target q) = Inr path"
  shows "case handle_get U ok A S f q of
     Get_refuse n \<Rightarrow> True
   | Get_forward w \<Rightarrow> False
   | v \<Rightarrow> get_allowed S q v"
proof (cases "path \<noteq> ''/api/session'' \<and> starts_with ''/api/'' path \<and> session_authorized S q")
  case True
  then show ?thesis using assms by (simp add: handle_get_def get_allowed_def split: option.split)
next
  case False
  then show ?thesis using assms by (auto simp: handle_get_def get_allowed_def Let_def)
qed

lemma handle_get_allowed:
  "case handle_get U ok A S f q of
     Get_refuse n \<Rightarrow> True
   | Get_forward w \<Rightarrow> forward_allowed S f q w
   | v \<Rightarrow> trusted S q \<and> get_allowed S q v"
proof (cases "starts_with ''/api/hcamm/'' (hq_target q)")
  case True
  then show ?thesis using forward_tradingbox_allowed[of S f q U] by (simp add: handle_get_def)
next
  case False
  show ?thesis
  proof (cases "trusted S q")
    case trusted: True
    show ?thesis
    proof (cases "url_path ok (hq_target q)")
      case (Inl e)
      with False trusted show ?thesis by (simp add: handle_get_def get_allowed_def)
    next
      case (Inr path)
      from handle_get_local[OF False trusted Inr, of U A f] trusted show ?thesis
        by (cases "handle_get U ok A S f q") simp_all
    qed
  qed (use False in \<open>simp add: handle_get_def\<close>)
qed

lemma route_body_local: "route_body parse S q route n body \<noteq> Post_forward w"
  by (auto simp: route_body_def Let_def route_action_def split: sum.splits json.splits option.splits if_splits)

lemma handle_post_allowed:
  "case handle_post U ok parse S f q of
     Post_refuse n \<Rightarrow> True
   | Post_forward w \<Rightarrow> forward_allowed S f q w
   | v \<Rightarrow> trusted S q \<and> post_allowed S q v"
proof (cases "starts_with ''/api/hcamm/'' (hq_target q) \<or> \<not> trusted S q")
  case True
  then show ?thesis using forward_tradingbox_allowed[of S f q U] by (auto simp: handle_post_def)
next
  case False
  show ?thesis
  proof (cases "url_path ok (hq_target q)")
    case (Inl e)
    with False show ?thesis by (simp add: handle_post_def post_allowed_def)
  next
    case (Inr route)
    let ?b = "route_body parse S q route (content_length q) (take (nat (content_length q)) (hq_body q))"
    have "(\<exists>n. handle_post U ok parse S f q = Post_refuse n) \<or>
        (route \<in> set sender_paths \<or> session_authorized S q) \<and> handle_post U ok parse S f q = ?b"
      using False Inr by (auto simp: handle_post_def Let_def split: if_splits)
    then show ?thesis
    proof
      assume b: "(route \<in> set sender_paths \<or> session_authorized S q) \<and> handle_post U ok parse S f q = ?b"
      then have "post_allowed S q ?b" using route_body_allowed[OF Inr] by blast
      then show ?thesis
        using b False route_body_local[of parse S q route "content_length q" "take (nat (content_length q)) (hq_body q)"]
        by (cases ?b) auto
    qed auto
  qed
qed

text \<open>What the shadow bridge takes from a sender's \<open>/events\<close> delivery: only with the bearer token.\<close>

lemma ingest_authorized:
  "ingest a n payload token received b \<noteq> (Unauthorized, b) \<Longrightarrow> a = ''Bearer '' @ token"
  by (simp add: ingest_def split: if_splits)

text \<open>
  C10: no operation without its credentials, whatever the verb, the target and its spelling. What the server
  does not refuse is from a trusted local origin. Every stream, view and page of the api, every operation
  and the shutdown needs the session token; a native event the sender's token; a relay log or an observation
  also the absence of a browser origin; a signal that absence alone. A delivery to the shadow bridge
  is answered Unauthorized and leaves the bridge as it was, or bears the sender's token. Under
  every verb a request is forwarded only without an origin and with the forwarder's key.
\<close>

theorem operations_need_credentials:
  "(case handle_get U ok A S f q of
      Get_refuse n \<Rightarrow> True
    | Get_forward w \<Rightarrow> forward_allowed S f q w
    | v \<Rightarrow> trusted S q \<and> get_allowed S q v) \<and>
   (case handle_post U ok parse S f q of
      Post_refuse n \<Rightarrow> True
    | Post_forward w \<Rightarrow> forward_allowed S f q w
    | v \<Rightarrow> trusted S q \<and> post_allowed S q v) \<and>
   forward_allowed S f q (handle_other U S f q) \<and>
   (\<forall>a body n payload received b.
      handle_post U ok parse S f q = Post_bridge a body \<and>
      ingest a n payload (hs_bridge S) received b \<noteq> (Unauthorized, b) \<longrightarrow> sender_authorized S q)"
proof (intro conjI allI impI)
  fix a body n payload received b
  assume p: "handle_post U ok parse S f q = Post_bridge a body \<and> ingest a n payload (hs_bridge S) received b \<noteq> (Unauthorized, b)"
  then have "hs_bridge S \<noteq> [] \<and> a = opt_str (header ''Authorization'' q)"
    using handle_post_allowed[where U = U and ok = ok and parse = parse and S = S and f = f and q = q] by (simp add: post_allowed_def)
  moreover have "a = ''Bearer '' @ hs_bridge S" using p ingest_authorized by blast
  ultimately show "sender_authorized S q" by (simp add: sender_authorized_def)
qed (rule handle_get_allowed handle_post_allowed handle_other_allowed)+

definition small_server :: http_server where
  "small_server = \<lparr>hs_port = ''8'', hs_session = ''s'', hs_bridge = [], hs_slots = 8\<rparr>"

definition small_stop :: web_request where
  "small_stop = \<lparr>hq_target = ''/api/stop'', hq_headers = [(''host'', ''localhost:8''), (''x-session-token'', ''s''), (''content-length'', ''2'')],
     hq_body = ''{}''\<rparr>"

lemma header_lower:
  "lower CHR ''C'' = CHR ''c''" "lower CHR ''E'' = CHR ''e''" "lower CHR ''F'' = CHR ''f''" "lower CHR ''H'' = CHR ''h''"
  "lower CHR ''L'' = CHR ''l''" "lower CHR ''O'' = CHR ''o''" "lower CHR ''S'' = CHR ''s''" "lower CHR ''T'' = CHR ''t''"
  "lower CHR ''c'' = CHR ''c''" "lower CHR ''d'' = CHR ''d''" "lower CHR ''f'' = CHR ''f''" "lower CHR ''g'' = CHR ''g''"
  "lower CHR ''h'' = CHR ''h''" "lower CHR ''l'' = CHR ''l''" "lower CHR ''n'' = CHR ''n''" "lower CHR ''o'' = CHR ''o''"
  "lower CHR ''r'' = CHR ''r''" "lower CHR ''s'' = CHR ''s''" "lower CHR ''t'' = CHR ''t''"
  by (simp_all add: lower_def code_in_def char_of_def bit_iff_odd_drop_bit drop_bit_eq_div)

lemma small_stop_headers:
  "header ''Host'' small_stop = Some ''localhost:8''" "header ''X-Session-Token'' small_stop = Some ''s''"
  "header_values ''Content-Length'' small_stop = [''2'']" "header ''Origin'' small_stop = None"
  "header ''Sec-Fetch-Site'' small_stop = None" "header ''Transfer-Encoding'' small_stop = None"
  by (simp_all add: header_def header_values_def small_stop_def small_lower header_lower)

lemma small_stop_path: "url_path (\<lambda>_. True) ''/api/stop'' = Inr ''/api/stop''" "py_int ''2'' = Some 2"
  by (simp_all add: url_path_def drop_scheme_def starts_with_def is_letter_def code_in_def py_int_def strip_def is_digit_def is_space_def)

lemma small_stop_routed: "handle_post small_url (\<lambda>_. True) (\<lambda>_. Inr (JS_obj [])) small_server None small_stop = Post_action Act_stop []"
proof -
  have "trusted small_server small_stop" "session_authorized small_server small_stop" "content_length small_stop = 2"
    by (simp_all add: trusted_def session_authorized_def content_length_def small_stop_headers small_stop_path small_server_def)
  moreover have "hq_target small_stop = ''/api/stop''" by (simp add: small_stop_def)
  ultimately show ?thesis
    by (simp add: handle_post_def small_stop_path small_stop_headers body_limit_def route_body_def route_action_def post_actions_def starts_with_def)
qed

theorem operations_need_credentials_witness: "trusted small_server small_stop \<and> session_authorized small_server small_stop"
  using operations_need_credentials[where U = small_url and ok = "\<lambda>_. True" and S = small_server and f = None and q = small_stop
      and parse = "\<lambda>_. Inr (JS_obj [])"]
  unfolding small_stop_routed by (simp add: post_allowed_def)

end
