(* ===== verification/ClosedHistory.thy ===== *)
theory ClosedHistory
  imports RestSession CaptureStore TradeSnapshot
begin

text \<open>
  The closed operations of an account in an interval (dashboard/closed_history.py): the checks of the
  request, the selection and identity of the broker's rows, their order and the summary. An instant is a
  number of microseconds; how the text of a time is read is an argument.
\<close>

subsection \<open>Records\<close>

text \<open>A closed trade with the fields the page shows.\<close>

record closed_op = closed_trade +
  co_close_price :: decimal
  co_profit :: decimal
  co_net :: decimal
  co_commission :: "decimal option"
  co_swap :: "decimal option"
  co_extra :: "(string \<times> json) list"

datatype op_key = By_uid string | By_fields string "string option" string

definition op_identity :: "closed_op \<Rightarrow> op_key" where
  "op_identity r = (if truthy (ct_uid r) then By_uid (opt_str (ct_uid r)) else By_fields (ct_id r) (ct_closing_order r) (ct_time r))"

record history =
  hs_account :: string
  hs_currency :: string
  hs_from :: int
  hs_to :: int
  hs_operations :: "closed_op list"
  hs_closed :: nat
  hs_wins :: nat
  hs_losses :: nat
  hs_breakevens :: nat
  hs_net :: decimal

text \<open>The account of the open session and what the broker answers.\<close>

record history_api =
  ha_account :: string
  ha_closed :: "closed_op list res"
  ha_currency :: "string res"

subsection \<open>Reading\<close>

definition max_range :: int where
  "max_range = 93 * 86400 * 1000000"

text \<open>An instant, or the error of a text that is none; a time without a zone is refused.\<close>

type_synonym read_time = "string \<Rightarrow> (int \<times> bool) res"

definition close_instant :: "read_time \<Rightarrow> closed_op \<Rightarrow> int res" where
  "close_instant T r =
     bindE (T (ct_time r)) (\<lambda>(t, zoned).
       if zoned then Inr t else Inl (value_error ''Broker returned a close timestamp without timezone''))"

fun collect_ops :: "read_time \<Rightarrow> int \<Rightarrow> int \<Rightarrow> closed_op list \<Rightarrow> closed_op list \<Rightarrow> closed_op list res" where
  "collect_ops T a b [] rows = Inr rows"
| "collect_ops T a b (r # rs) rows =
     bindE (close_instant T r) (\<lambda>t.
       if \<not> (a \<le> t \<and> t < b) then collect_ops T a b rs rows
       else (case find (\<lambda>x. op_identity x = op_identity r) rows of
               Some x \<Rightarrow> if x \<noteq> r then Inl (value_error ''Broker returned conflicting close records'') else collect_ops T a b rs rows
             | None \<Rightarrow> collect_ops T a b rs (rows @ [r])))"

definition instant_or :: "read_time \<Rightarrow> closed_op \<Rightarrow> int" where
  "instant_or T r = (case close_instant T r of Inr t \<Rightarrow> t | Inl _ \<Rightarrow> 0)"

definition summarise :: "string \<Rightarrow> string \<Rightarrow> int \<Rightarrow> int \<Rightarrow> closed_op list \<Rightarrow> history" where
  "summarise account currency a b rows =
     \<lparr>hs_account = account, hs_currency = currency, hs_from = a, hs_to = b, hs_operations = rows, hs_closed = length rows,
      hs_wins = length (filter (\<lambda>r. dlt dzero (co_net r)) rows), hs_losses = length (filter (\<lambda>r. dlt (co_net r) dzero) rows),
      hs_breakevens = length (filter (\<lambda>r. deq (co_net r) dzero) rows), hs_net = dsum (map co_net rows)\<rparr>"

definition read_history :: "read_time \<Rightarrow> (int \<times> int) res \<Rightarrow> history_api option \<Rightarrow> string \<Rightarrow> history res" where
  "read_history T asked api account =
     bindE asked (\<lambda>(a, b).
       if b \<le> a then Inl (Exn ''ValidationError'' ''from must precede to'' None)
       else if max_range < b - a then Inl (value_error ''Choose a date range of at most 93 days'')
       else (case api of
         None \<Rightarrow> Inl (value_error ''Connect the selected account before loading closed trades'')
       | Some c \<Rightarrow>
           if account = [] \<or> ha_account c \<noteq> account
           then Inl (value_error ''Connect the selected account before loading closed trades'')
           else bindE (ha_closed c) (\<lambda>rs. bindE (collect_ops T a b rs []) (\<lambda>rows.
                bindE (ha_currency c) (\<lambda>currency.
                  Inr (summarise account currency a b (sort_key (\<lambda>r. - instant_or T r) rows)))))))"

subsection \<open>Laws\<close>

text \<open>A sum below the precision of the context is exact: all terms are multiples of ten to the \<open>e\<close>.\<close>

lemma scaled_finer:
  assumes "e \<le> f" "f \<le> expo d"
  shows "scaled d e = scaled d f * 10 ^ nat (f - e)"
proof -
  have "nat (expo d - e) = nat (expo d - f) + nat (f - e)" using assms by linarith
  then show ?thesis by (simp add: scaled_def power_add)
qed

lemma ndigits_le: "n < 10 ^ k \<Longrightarrow> 0 < k \<Longrightarrow> ndigits n \<le> k"
proof (induction n arbitrary: k rule: ndigits.induct)
  case (1 n)
  show ?case
  proof (cases "n < 10")
    case True
    with 1(3) show ?thesis by (simp add: ndigits.simps[of n])
  next
    case False
    then obtain m where k: "k = Suc m" "0 < m" using 1(2,3) by (cases k; cases "k - 1") auto
    have "n div 10 < 10 ^ m" using 1(2) k(1) by (simp add: less_mult_imp_div_less mult.commute)
    then show ?thesis using 1(1)[OF False _ k(2)] False k(1) by (simp add: ndigits.simps[of n])
  qed
qed

lemma dadd_exact:
  assumes "e \<le> expo a" "e \<le> expo b" "\<bar>scaled a e + scaled b e\<bar> < 10 ^ 28"
  shows "e \<le> expo (dadd a b)" "scaled (dadd a b) e = scaled a e + scaled b e"
proof -
  let ?f = "common_exp a b"
  have f: "e \<le> ?f" "?f \<le> expo a" "?f \<le> expo b" using assms(1,2) by (simp_all add: common_exp_def)
  have eq: "scaled a e + scaled b e = (scaled a ?f + scaled b ?f) * 10 ^ nat (?f - e)"
    using scaled_finer[OF f(1,2)] scaled_finer[OF f(1,3)] by (simp add: algebra_simps)
  have "\<bar>scaled a ?f + scaled b ?f\<bar> * 1 \<le> \<bar>scaled a ?f + scaled b ?f\<bar> * 10 ^ nat (?f - e)" by (rule mult_left_mono) simp_all
  then have "\<bar>scaled a ?f + scaled b ?f\<bar> < 10 ^ 28" using assms(3) eq by (simp add: abs_mult)
  then have "nat \<bar>scaled a ?f + scaled b ?f\<bar> < 10 ^ 28" by (simp add: nat_less_iff)
  then have "ndigits (nat \<bar>scaled a ?f + scaled b ?f\<bar>) \<le> 28" by (rule ndigits_le) simp
  then have d: "dadd a b = Dec (scaled a ?f + scaled b ?f) ?f" by (simp add: dadd_def Let_def fix_ctx_def prec_def)
  show "e \<le> expo (dadd a b)" using d f(1) by simp
  show "scaled (dadd a b) e = scaled a e + scaled b e" using d eq f(1) by (simp add: scaled_def)
qed

lemma dsum_exact:
  assumes "\<forall>d \<in> set ds. e \<le> expo d" "e \<le> 0" "sum_list (map (\<lambda>d. \<bar>scaled d e\<bar>) ds) < 10 ^ 28"
  shows "dval (dsum ds) = sum_list (map dval ds)"
proof -
  have "dval (fold (\<lambda>d acc. dadd acc d) ds x) = dval x + sum_list (map dval ds)"
    if "e \<le> expo x" "\<forall>d \<in> set ds. e \<le> expo d" "\<bar>scaled x e\<bar> + sum_list (map (\<lambda>d. \<bar>scaled d e\<bar>) ds) < 10 ^ 28" for x
    using that
  proof (induction ds arbitrary: x)
    case (Cons d ds)
    have nn: "0 \<le> sum_list (map (\<lambda>d. \<bar>scaled d e\<bar>) ds)" by (rule sum_list_nonneg) auto
    have small: "\<bar>scaled x e + scaled d e\<bar> < 10 ^ 28" using Cons.prems(3) nn abs_triangle_ineq[of "scaled x e" "scaled d e"] by simp
    have ed: "e \<le> expo d" using Cons.prems(2) by simp
    note x = dadd_exact[OF Cons.prems(1) ed small]
    have v: "dval (dadd x d) = dval x + dval d"
      unfolding scaled_val[OF x(1), symmetric] scaled_val[OF Cons.prems(1), symmetric] scaled_val[OF ed, symmetric] x(2)
      by (simp add: ring_distribs)
    have "\<bar>scaled (dadd x d) e\<bar> + sum_list (map (\<lambda>d. \<bar>scaled d e\<bar>) ds) < 10 ^ 28"
      using Cons.prems(3) x(2) abs_triangle_ineq[of "scaled x e" "scaled d e"] by simp
    with Cons.IH[OF x(1)] Cons.prems(2) v show ?case by simp
  qed simp
  from this[of "Dec 0 0"] assms show ?thesis by (simp add: dsum_def dval_def scaled_def)
qed

lemma collect_ops_rows:
  assumes "collect_ops T a b rs rows = Inr out" "distinct (map op_identity rows)"
  shows "distinct (map op_identity out) \<and>
         set out = set rows \<union> {r \<in> set rs. \<exists>t. close_instant T r = Inr t \<and> a \<le> t \<and> t < b} \<and>
         (\<forall>r \<in> set rs. \<exists>t. close_instant T r = Inr t)"
  using assms
proof (induction rs arbitrary: rows)
  case (Cons r rs)
  from Cons.prems(1) obtain t where t: "close_instant T r = Inr t" by (auto simp: bindE_Inr)
  show ?case
  proof (cases "a \<le> t \<and> t < b")
    case False
    with Cons.IH[of rows] Cons.prems t show ?thesis by auto
  next
    case True
    show ?thesis
    proof (cases "find (\<lambda>x. op_identity x = op_identity r) rows")
      case None
      then have "op_identity r \<notin> set (map op_identity rows)" by (auto simp: find_None_iff)
      with Cons.IH[of "rows @ [r]"] Cons.prems t True None show ?thesis by auto
    next
      case (Some x)
      then have "x \<in> set rows" by (auto simp: find_Some_iff)
      with Cons.IH[of rows] Cons.prems t True Some show ?thesis by (auto split: if_splits)
    qed
  qed
qed simp

lemma three_ways:
  "length (filter (\<lambda>r. dlt dzero (f r)) rs) + length (filter (\<lambda>r. dlt (f r) dzero) rs) + length (filter (\<lambda>r. deq (f r) dzero) rs) = length rs"
  by (induction rs) (auto simp: dlt_val deq_val)

subsection \<open>Property\<close>

text \<open>
  C37: a closed history is exact: an answer holds the broker's rows that closed within the asked interval of at
  most 93 days, each once, newest first, of the selected account; wins, losses and breakevens add up to the
  rows and the net profit is the sum of theirs, as long as it has at most 28 digits.
\<close>
theorem closed_history_exact:
  assumes "read_history T asked api account = Inr h"
  shows "\<exists>a b c rs. asked = Inr (a, b) \<and> a < b \<and> b - a \<le> max_range \<and> api = Some c \<and> ha_account c = account \<and> ha_closed c = Inr rs \<and>
           set (hs_operations h) = {r \<in> set rs. \<exists>t. close_instant T r = Inr t \<and> a \<le> t \<and> t < b} \<and>
           distinct (map op_identity (hs_operations h)) \<and>
           sorted_wrt (\<lambda>x y. instant_or T y \<le> instant_or T x) (hs_operations h) \<and>
           hs_closed h = length (hs_operations h) \<and> hs_wins h + hs_losses h + hs_breakevens h = hs_closed h \<and>
           (\<forall>e. e \<le> 0 \<and> (\<forall>r \<in> set (hs_operations h). e \<le> expo (co_net r)) \<and>
                 sum_list (map (\<lambda>r. \<bar>scaled (co_net r) e\<bar>) (hs_operations h)) < 10 ^ 28 \<longrightarrow>
                 dval (hs_net h) = sum_list (map (\<lambda>r. dval (co_net r)) (hs_operations h)))"
proof -
  obtain a b c rs rows cur where r: "asked = Inr (a, b)" "a < b" "b - a \<le> max_range" "api = Some c" "ha_account c = account"
    "ha_closed c = Inr rs" "collect_ops T a b rs [] = Inr rows"
    "h = summarise account cur a b (sort_key (\<lambda>r. - instant_or T r) rows)"
    using assms by (auto simp: read_history_def bindE_Inr not_le not_less split: if_splits option.splits prod.splits)
  have f: "distinct (map op_identity rows)" "set rows = {r \<in> set rs. \<exists>t. close_instant T r = Inr t \<and> a \<le> t \<and> t < b}"
    using collect_ops_rows[OF r(7)] by simp_all
  have ops: "hs_operations h = sort_key (\<lambda>r. - instant_or T r) rows" "hs_closed h = length (hs_operations h)"
    "hs_net h = dsum (map co_net (hs_operations h))"
    using r(8) by (simp_all add: summarise_def)
  have "set (hs_operations h) = {r \<in> set rs. \<exists>t. close_instant T r = Inr t \<and> a \<le> t \<and> t < b}" using f(2) by (simp add: ops(1))
  moreover have "distinct (map op_identity (hs_operations h))" using f(1) by (simp add: ops(1) distinct_map)
  moreover have "sorted_wrt (\<lambda>x y. instant_or T y \<le> instant_or T x) (hs_operations h)"
    using sorted_sort_key[of "\<lambda>r. - instant_or T r" rows] by (simp add: ops(1) sorted_wrt_map)
  moreover have "hs_wins h + hs_losses h + hs_breakevens h = hs_closed h"
    using r(8) three_ways[of co_net "hs_operations h"] by (simp add: summarise_def)
  moreover have "dval (hs_net h) = sum_list (map (\<lambda>r. dval (co_net r)) (hs_operations h))"
    if "e \<le> 0" "\<forall>r \<in> set (hs_operations h). e \<le> expo (co_net r)"
      "sum_list (map (\<lambda>r. \<bar>scaled (co_net r) e\<bar>) (hs_operations h)) < 10 ^ 28" for e
    using that dsum_exact[of "map co_net (hs_operations h)" e] by (simp add: ops(3) comp_def)
  ultimately show ?thesis using r(1-6) ops(2) by blast
qed

subsection \<open>Two rows, one of them twice\<close>

definition small_op :: "string \<Rightarrow> decimal \<Rightarrow> closed_op" where
  "small_op t net = \<lparr>ct_id = t, ct_symbol = ''S'', ct_side = ''BUY'', ct_volume = Dec 1 0, ct_open_price = Dec 1 0, ct_open_time = t, ct_time = t,
     ct_uid = None, ct_closing_order = None, ct_reason = None, co_close_price = Dec 1 0, co_profit = net, co_net = net,
     co_commission = None, co_swap = None, co_extra = []\<rparr>"

definition small_api :: history_api where
  "small_api = \<lparr>ha_account = ''A'', ha_closed = Inr [small_op ''1'' (Dec 5 0), small_op ''22'' (Dec (-2) 0), small_op ''1'' (Dec 5 0)],
     ha_currency = Inr ''EUR''\<rparr>"

definition small_history :: history where
  "small_history = summarise ''A'' ''EUR'' 0 10 [small_op ''22'' (Dec (-2) 0), small_op ''1'' (Dec 5 0)]"

lemma small_reads: "read_history (\<lambda>t. Inr (int (length t), True)) (Inr (0, 10)) (Some small_api) ''A'' = Inr small_history"
  by (simp add: read_history_def small_api_def small_history_def small_op_def max_range_def close_instant_def op_identity_def instant_or_def)

theorem closed_history_exact_witness:
  "hs_wins small_history + hs_losses small_history + hs_breakevens small_history = hs_closed small_history"
  using closed_history_exact[OF small_reads] by blast

end
