(* ===== verification/Profiles.thy ===== *)
theory Profiles
  imports ClosedHistory Connections
begin

text \<open>
  The broker profiles (dashboard/broker_profiles.py): each with a login, the account chosen from it, a session
  of its own and the slices read from that session; the primary profile reads through the controller's
  connection. The brokers' answers, the clock and what the controller does when it connects are the world of
  an operation. A session is named by its account; a slice carries the account it was read from.
\<close>

subsection \<open>Configuration\<close>

definition primary_prefix :: string where
  "primary_prefix = ''AQF''"

text \<open>A prefix of the environment: an upper-case letter, then at most fifteen letters or digits.\<close>

definition prefix_ok :: "string \<Rightarrow> bool" where
  "prefix_ok p \<longleftrightarrow>
     (case p of [] \<Rightarrow> False
      | c # s \<Rightarrow> code_in 65 90 c \<and> length s \<le> 15 \<and> list_all (\<lambda>x. code_in 65 90 x \<or> code_in 48 57 x) s)"

definition url_suffix :: string where
  "url_suffix = ''_PLATFORM_URL''"

definition profile_prefixes :: "(string \<times> string) list \<Rightarrow> string list" where
  "profile_prefixes values =
     primary_prefix # sort (remdups (map (\<lambda>(k, v). take (length k - 13) k)
       (filter (\<lambda>(k, v). 13 \<le> length k \<and> drop (length k - 13) k = url_suffix \<and> v \<noteq> [] \<and> k \<noteq> primary_prefix @ url_suffix) values)))"

text \<open>The fields of one prefix, without an account: that one is only known from a login.\<close>

definition upper :: "char \<Rightarrow> char" where
  "upper c = (if code_in 97 122 c then char_of ((of_char c :: nat) - 32) else c)"

definition profile_fields :: "string list \<Rightarrow> (string \<times> string) list \<Rightarrow> string \<Rightarrow> (string \<times> string) list" where
  "profile_fields names values prefix =
     List.map_filter (\<lambda>n. case map_of values (prefix @ ''_'' @ map upper n) of
                        None \<Rightarrow> None | Some v \<Rightarrow> if v = [] then None else Some (n, v))
       (filter (\<lambda>n. n \<noteq> ''account_id'') names)"

definition login_identity :: "rest_settings \<Rightarrow> string \<times> string \<times> string" where
  "login_identity s = (st_platform s, st_broker s, map lower (st_email s))"

fun load_each ::
  "((string \<times> string) list \<Rightarrow> rest_settings res) \<Rightarrow> string list \<Rightarrow> (string \<times> string) list \<Rightarrow> string list \<Rightarrow>
   (string \<times> rest_settings) list \<Rightarrow> (string \<times> rest_settings) list res" where
  "load_each mk names values [] done_ones = Inr done_ones"
| "load_each mk names values (p # ps) done_ones =
     (if \<not> prefix_ok p then Inl (value_error ''Broker prefixes must use uppercase letters and digits'')
      else bindE (mk (profile_fields names values p)) (\<lambda>s.
        if login_identity s \<in> set (map (\<lambda>(q, x). login_identity x) done_ones)
        then Inl (value_error ''Duplicate broker/login/account profile'')
        else load_each mk names values ps (done_ones @ [(p, s)])))"

definition load_profiles ::
  "((string \<times> string) list \<Rightarrow> rest_settings res) \<Rightarrow> string list \<Rightarrow> (string \<times> string) list \<Rightarrow> (string \<times> rest_settings) list res" where
  "load_profiles mk names values =
     (if 5 < length (profile_prefixes values) then Inl (value_error ''Configure at most five broker profiles'')
      else load_each mk names values (profile_prefixes values) [])"

subsection \<open>Logins\<close>

text \<open>A login: the accounts in its three places, each with whether it is a demo, and its expiry when readable.\<close>

record profile_login =
  pl_trading :: "(string \<times> bool) list"
  pl_accounts :: "(string \<times> bool) list"
  pl_selected :: "(string \<times> bool) option"
  pl_expiry :: "int option"

definition found_accounts :: "profile_login \<Rightarrow> (string \<times> bool) list" where
  "found_accounts l =
     (if pl_trading l \<noteq> [] then pl_trading l else if pl_accounts l \<noteq> [] then pl_accounts l
      else (case pl_selected l of Some a \<Rightarrow> [a] | None \<Rightarrow> []))"

datatype login_status = No_login | Expiry_unknown | Logged_in | Login_expired

definition login_state :: "int \<Rightarrow> profile_login option \<Rightarrow> login_status" where
  "login_state now l =
     (case l of None \<Rightarrow> No_login
      | Some l \<Rightarrow> (case pl_expiry l of None \<Rightarrow> Expiry_unknown | Some x \<Rightarrow> if now < x then Logged_in else Login_expired))"

subsection \<open>State\<close>

record profile =
  pf_account :: string
  pf_api :: "string option"
  pf_state :: string
  pf_error :: string
  pf_data :: "(string \<times> string \<times> json) list"
  pf_revision :: nat
  pf_accounts :: "(string \<times> bool) list"
  pf_login :: "profile_login option"
  pf_renewal :: "string option"

definition new_profile :: "string \<Rightarrow> profile" where
  "new_profile account =
     \<lparr>pf_account = account, pf_api = None, pf_state = ''disconnected'', pf_error = [], pf_data = [], pf_revision = 0, pf_accounts = [],
      pf_login = None, pf_renewal = None\<rparr>"

text \<open>What the profiles see of the controller.\<close>

record primary_side =
  pv_api :: "string option"
  pv_connection :: string
  pv_selected :: string
  pv_running :: bool
  pv_accounts :: "string list"

record profile_world =
  pw_now :: int
  pw_discover :: "profile_login res"
  pw_session :: "string res"
  pw_use :: "unit res"
  pw_read :: "string \<Rightarrow> string \<Rightarrow> json res"
  pw_connect :: "string \<Rightarrow> profile_login option \<Rightarrow> primary_side \<Rightarrow> unit res \<times> primary_side"
  pw_stop :: "primary_side \<Rightarrow> unit res \<times> primary_side"

subsection \<open>Discovery\<close>

definition login_failed :: "profile \<Rightarrow> profile" where
  "login_failed e = e\<lparr>pf_accounts := [], pf_login := None,
     pf_error := ''Login failed; check this profile credentials and broker configuration'', pf_revision := Suc (pf_revision e)\<rparr>"

text \<open>A fresh login: accounts that are named, not empty and distinct, and a login that has not expired.\<close>

definition fresh_login :: "profile_world \<Rightarrow> profile \<Rightarrow> profile" where
  "fresh_login W e =
     (case pw_discover W of
        Inl x \<Rightarrow> login_failed e
      | Inr l \<Rightarrow>
          (let found = found_accounts l; ids = map fst found in
           if found = [] \<or> [] \<in> set ids \<or> \<not> distinct ids \<or> login_state (pw_now W) (Some l) = Login_expired then login_failed e
           else e\<lparr>pf_accounts := found, pf_login := Some l, pf_error := [], pf_revision := Suc (pf_revision e)\<rparr>))"

subsection \<open>Reading and actions\<close>

text \<open>The slices of an account, one after the other; a failure drops what was read.\<close>

fun read_slices :: "profile_world \<Rightarrow> string \<Rightarrow> string list \<Rightarrow> (string \<times> string \<times> json) list \<Rightarrow> (string \<times> string \<times> json) list res" where
  "read_slices W a [] d = Inr d"
| "read_slices W a (part # parts) d =
     bindE (pw_read W a part) (\<lambda>v. read_slices W a parts ((part, a, v) # filter (\<lambda>(p, x). p \<noteq> part) d))"

definition read_profile :: "profile_world \<Rightarrow> string option \<Rightarrow> string \<Rightarrow> string list \<Rightarrow> profile \<Rightarrow> unit res \<times> profile" where
  "read_profile W api account parts e =
     (if api \<noteq> Some account then (Inl (value_error ''Connect the configured account first''), e)
      else (case read_slices W account parts (pf_data e) of Inl x \<Rightarrow> (Inl x, e) | Inr d \<Rightarrow> (Inr (), e\<lparr>pf_data := d\<rparr>)))"

definition action_parts :: "(string \<times> string list) list" where
  "action_parts =
     [(''connect'', [''balance'', ''orders'', ''positions'']), (''refresh'', [''balance'', ''orders'', ''positions'']),
      (''balance'', [''balance'']), (''orders'', [''orders'']), (''positions'', [''positions''])]"

text \<open>A session of the profile's own: it must be for the chosen account.\<close>

definition open_session :: "profile_world \<Rightarrow> profile \<Rightarrow> unit res \<times> profile" where
  "open_session W e =
     (case pw_session W of
        Inl x \<Rightarrow> (Inl x, e)
      | Inr a \<Rightarrow>
          if a \<noteq> pf_account e then (Inl (value_error ''Broker selected a different account''), e)
          else (Inr (), e\<lparr>pf_api := Some a, pf_renewal := Some a\<rparr>))"

definition disconnect_profile :: "profile_world \<Rightarrow> bool \<Rightarrow> profile \<Rightarrow> primary_side \<Rightarrow> unit res \<times> profile \<times> primary_side" where
  "disconnect_profile W primary e p =
     (case (if primary then pw_stop W p else (Inr (), p)) of
        (Inl x, p') \<Rightarrow> (Inl x, e, p')
      | (Inr _, p') \<Rightarrow>
          (Inr (), e\<lparr>pf_api := None, pf_state := ''disconnected'', pf_data := [], pf_error := [], pf_accounts := [], pf_login := None,
                    pf_renewal := None\<rparr>, p'))"

definition read_action :: "profile_world \<Rightarrow> bool \<Rightarrow> string \<Rightarrow> string list \<Rightarrow> profile \<Rightarrow> primary_side \<Rightarrow> unit res \<times> profile" where
  "read_action W primary action parts e p =
     (let (r, e') =
        (if primary
         then (if pv_api p = None \<or> pv_selected p = [] then (Inl (value_error ''Connect an account on the Trading bridge first''), e)
               else read_profile W (pv_api p) (pv_selected p) parts e)
         else (case (if action = ''connect'' \<and> pf_api e = None then open_session W e else (Inr (), e)) of
                 (Inl x, e1) \<Rightarrow> (Inl x, e1)
               | (Inr _, e1) \<Rightarrow> read_profile W (pf_api e1) (pf_account e1) parts e1))
      in (case r of Inl x \<Rightarrow> (Inl x, e') | Inr _ \<Rightarrow> (Inr (), e'\<lparr>pf_state := ''connected'', pf_error := []\<rparr>)))"

text \<open>The end of an action: a failure clears the slices and keeps the session.\<close>

definition after_action :: "bool \<Rightarrow> unit res \<Rightarrow> primary_side \<Rightarrow> profile \<Rightarrow> profile" where
  "after_action primary r p e =
     (let e1 = (case r of Inr _ \<Rightarrow> e
          | Inl x \<Rightarrow> e\<lparr>pf_data := [],
              pf_state := (if (if primary then pv_api p else pf_api e) \<noteq> None then ''connected'' else ''error''),
              pf_error := ''Account read failed; the broker session is retained. Try Refresh.''\<rparr>)
      in e1\<lparr>pf_revision := Suc (pf_revision e1)\<rparr>)"

definition do_action :: "profile_world \<Rightarrow> bool \<Rightarrow> string \<Rightarrow> profile \<Rightarrow> primary_side \<Rightarrow> bool res \<times> profile \<times> primary_side" where
  "do_action W primary action e p =
     (if action \<noteq> ''disconnect'' \<and> map_of action_parts action = None then (Inl (value_error ''Unknown profile action''), e, p)
      else if \<not> primary \<and> pf_account e = [] \<and> action \<noteq> ''disconnect''
      then (Inl (value_error ''Log in and select an account for this profile first''), e, p)
      else if action = ''disconnect''
      then (case disconnect_profile W primary e p of (r, e', p') \<Rightarrow> (Inr True, after_action primary r p' e', p'))
      else (case read_action W primary action (the (map_of action_parts action)) e p of
              (r, e') \<Rightarrow> (Inr True, after_action primary r p e', p)))"

subsection \<open>Selection\<close>

text \<open>What the chosen account means for the session: the controller connects, another session is closed or reuses the login.\<close>

definition bind_session :: "profile_world \<Rightarrow> bool \<Rightarrow> string \<Rightarrow> profile \<Rightarrow> primary_side \<Rightarrow> unit res \<times> profile \<times> primary_side" where
  "bind_session W primary account e p =
     (if primary
      then (if pv_running p \<and> account \<noteq> pv_selected p
            then (Inl (value_error ''Stop capture before switching the primary account''), e, p)
            else (case pw_connect W account (if login_state (pw_now W) (pf_login e) = Logged_in then pf_login e else None)
                         (p\<lparr>pv_accounts := map fst (pf_accounts e)\<rparr>) of
                    (r, p') \<Rightarrow> (r, e, p')))
      else if pf_api e \<noteq> None \<and> account \<noteq> pf_account e then (Inr (), e\<lparr>pf_api := None\<rparr>, p)
      else if pf_api e \<noteq> None \<and> pf_login e \<noteq> None then (pw_use W, e, p)
      else (Inr (), e, p))"

text \<open>The choice of an account, once the login is not known to have expired.\<close>

definition pick_account :: "profile_world \<Rightarrow> bool \<Rightarrow> string option \<Rightarrow> profile \<Rightarrow> primary_side \<Rightarrow> bool res \<times> profile \<times> primary_side" where
  "pick_account W primary account e p =
     (case account of
        None \<Rightarrow> (Inl (value_error ''Log in and select an account returned by this broker''), e, p)
      | Some a \<Rightarrow>
          if a \<notin> set (map fst (pf_accounts e))
          then (Inl (value_error ''Log in and select an account returned by this broker''), e, p)
          else (case bind_session W primary a e p of
                  (Inl x, e1, p1) \<Rightarrow> (Inl x, e1, p1)
                | (Inr _, e1, p1) \<Rightarrow>
                    do_action W primary (if primary then ''refresh'' else ''connect'')
                      (e1\<lparr>pf_account := a, pf_data := [], pf_error := [], pf_state := ''disconnected''\<rparr>) p1))"

definition discover :: "profile_world \<Rightarrow> bool \<Rightarrow> bool \<Rightarrow> profile \<Rightarrow> primary_side \<Rightarrow> bool res \<times> profile \<times> primary_side" where
  "discover W primary force e p =
     (if \<not> force \<and> login_state (pw_now W) (pf_login e) = Logged_in
      then (if pf_account e \<in> set (map fst (pf_accounts e)) then pick_account W primary (Some (pf_account e)) e p else (Inr True, e, p))
      else (let e1 = fresh_login W e in
            if pf_account e1 \<noteq> [] \<and> pf_account e1 \<in> set (map fst (pf_accounts e1)) then pick_account W primary (Some (pf_account e1)) e1 p
            else (Inr (pf_accounts e1 \<noteq> []), e1, p)))"

definition select :: "profile_world \<Rightarrow> bool \<Rightarrow> string option \<Rightarrow> profile \<Rightarrow> primary_side \<Rightarrow> bool res \<times> profile \<times> primary_side" where
  "select W primary account e p =
     (if login_state (pw_now W) (pf_login e) = Login_expired
      then (case discover W primary True e p of
              (Inl x, e1, p1) \<Rightarrow> (Inl x, e1, p1)
            | (Inr _, e1, p1) \<Rightarrow> pick_account W primary account e1 p1)
      else pick_account W primary account e p)"

definition profile_action ::
  "profile_world \<Rightarrow> bool \<Rightarrow> string \<Rightarrow> string option \<Rightarrow> profile \<Rightarrow> primary_side \<Rightarrow> bool res \<times> profile \<times> primary_side" where
  "profile_action W primary action account e p =
     (if action = ''login'' then discover W primary False e p
      else if action = ''refresh_login'' then discover W primary True e p
      else if action = ''select'' then select W primary account e p
      else do_action W primary action e p)"

subsection \<open>All profiles\<close>

record profiles =
  bp_entries :: "(string \<times> profile) list"
  bp_primary :: primary_side

definition new_profiles :: "(string \<times> rest_settings) list \<Rightarrow> primary_side \<Rightarrow> profiles" where
  "new_profiles settings p = \<lparr>bp_entries = map (\<lambda>(n, s). (n, new_profile (st_account s))) settings, bp_primary = p\<rparr>"

definition put_profile :: "string \<Rightarrow> profile \<Rightarrow> (string \<times> profile) list \<Rightarrow> (string \<times> profile) list" where
  "put_profile n e es = map (\<lambda>(m, x). if m = n then (m, e) else (m, x)) es"

definition act_on :: "profile_world \<Rightarrow> string \<Rightarrow> string \<Rightarrow> string option \<Rightarrow> profiles \<Rightarrow> bool res \<times> profiles" where
  "act_on W n action account s =
     (case map_of (bp_entries s) n of
        None \<Rightarrow> (Inl (value_error ''Unknown broker profile''), s)
      | Some e \<Rightarrow>
          (case profile_action W (n = primary_prefix) action account e (bp_primary s) of
             (r, e', p') \<Rightarrow> (r, s\<lparr>bp_entries := put_profile n e' (bp_entries s), bp_primary := p'\<rparr>)))"

definition close_profile :: "profile \<Rightarrow> profile" where
  "close_profile e = e\<lparr>pf_api := None, pf_data := [], pf_state := ''disconnected'', pf_accounts := [], pf_login := None\<rparr>"

definition close_profiles :: "profiles \<Rightarrow> profiles" where
  "close_profiles s = s\<lparr>bp_entries := map (\<lambda>(n, e). (n, close_profile e)) (bp_entries s)\<rparr>"

subsection \<open>Snapshot\<close>

record profile_view =
  vw_profile :: string
  vw_account :: string
  vw_accounts :: "(string \<times> bool) list"
  vw_login :: login_status
  vw_connection :: string
  vw_error :: string
  vw_revision :: nat
  vw_data :: "(string \<times> string \<times> json) list"

text \<open>
  The row of one profile, and the profile afterwards: a disconnected controller clears the primary's slices.
  \<open>expiry\<close> is the expiry of the open session, which can outlive the login.
\<close>

definition view_profile :: "int \<Rightarrow> (string \<Rightarrow> int option) \<Rightarrow> primary_side \<Rightarrow> string \<times> profile \<Rightarrow> profile_view \<times> profile" where
  "view_profile now expiry p = (\<lambda>(n, e).
     let primary = (n = primary_prefix);
         e1 = (if primary \<and> pv_connection p \<noteq> ''connected'' then e\<lparr>pf_data := []\<rparr> else e);
         api = (if primary then pv_api p else pf_api e1);
         account = (if primary \<and> pv_selected p \<noteq> [] then pv_selected p else pf_account e1);
         connection = (if primary then pv_connection p else pf_state e1);
         unset = (account = [] \<and> pf_accounts e1 = []);
         shown = (if unset then ''configuration required'' else connection);
         alive = (shown = ''connected'' \<and> (case api of None \<Rightarrow> False | Some a \<Rightarrow> (case expiry n of None \<Rightarrow> False | Some x \<Rightarrow> now < x)));
         login = (if alive then Logged_in else login_state now (pf_login e1))
     in (\<lparr>vw_profile = n, vw_account = account, vw_accounts = (if login \<noteq> Login_expired then pf_accounts e1 else []), vw_login = login,
          vw_connection = shown,
          vw_error = (if unset then str_or (pf_error e1) ''Log in above to discover available trading accounts'' else pf_error e1),
          vw_revision = pf_revision e1, vw_data = pf_data e1\<rparr>, e1))"

definition view_profiles :: "int \<Rightarrow> (string \<Rightarrow> int option) \<Rightarrow> profiles \<Rightarrow> profile_view list \<times> profiles" where
  "view_profiles now expiry s =
     (map (\<lambda>x. fst (view_profile now expiry (bp_primary s) x)) (bp_entries s),
      s\<lparr>bp_entries := map (\<lambda>x. (fst x, snd (view_profile now expiry (bp_primary s) x))) (bp_entries s)\<rparr>)"

text \<open>The closed operations of a profile's account, through its session or the controller's.\<close>

definition profile_history ::
  "read_time \<Rightarrow> (int \<times> int) res \<Rightarrow> string option \<Rightarrow> (string option \<Rightarrow> history_api option) \<Rightarrow> string \<Rightarrow> profiles \<Rightarrow> history res" where
  "profile_history T asked account api n s =
     (case map_of (bp_entries s) n of
        None \<Rightarrow> Inl (value_error ''Unknown broker profile'')
      | Some e \<Rightarrow>
          if account \<noteq> Some (pf_account e) then Inl (value_error ''Selected account changed; reload closed trades'')
          else if n = primary_prefix
          then (if pv_selected (bp_primary s) \<noteq> pf_account e then Inl (value_error ''Primary account changed'')
                else read_history T asked (api (pv_api (bp_primary s))) (pf_account e))
          else read_history T asked (api (pf_api e)) (pf_account e))"

subsection \<open>Steps\<close>

datatype profile_op =
    Profile_action string string "string option"
  | Profile_view "string \<Rightarrow> int option"
  | Profile_close
  | Primary_moves primary_side

fun profile_step :: "profile_world \<times> profile_op \<Rightarrow> profiles \<Rightarrow> profiles" where
  "profile_step (W, Profile_action n action account) s = snd (act_on W n action account s)"
| "profile_step (W, Profile_view expiry) s = snd (view_profiles (pw_now W) expiry s)"
| "profile_step (W, Profile_close) s = close_profiles s"
| "profile_step (W, Primary_moves p) s = s\<lparr>bp_primary := p\<rparr>"

subsection \<open>Laws\<close>

text \<open>
  A profile with a session of its own: the session and the slices are of the chosen account, which the login
  listed when it is still there; connected means that a session is open; the accounts are those of the login.
\<close>

definition own_session_ok :: "string \<Rightarrow> string option \<Rightarrow> string \<Rightarrow> (string \<times> string \<times> json) list \<Rightarrow> bool" where
  "own_session_ok account api st d \<longleftrightarrow>
     api \<in> {None, Some account} \<and> (api = None \<longrightarrow> d = [] \<and> st \<noteq> ''connected'') \<and>
     (\<forall>(part, a, v) \<in> set d. a = account) \<and> (d \<noteq> [] \<longrightarrow> st = ''connected'')"

definition accounts_ok :: "(string \<times> bool) list \<Rightarrow> profile_login option \<Rightarrow> bool" where
  "accounts_ok as l \<longleftrightarrow>
     (if l = None then as = [] else as = found_accounts (the l) \<and> as \<noteq> []) \<and> distinct (map fst as) \<and> [] \<notin> set (map fst as)"

definition profile_ok :: "profile \<Rightarrow> bool" where
  "profile_ok e \<longleftrightarrow> own_session_ok (pf_account e) (pf_api e) (pf_state e) (pf_data e) \<and> accounts_ok (pf_accounts e) (pf_login e)"

lemma read_slices_account:
  "read_slices W a parts d = Inr d' \<Longrightarrow> \<forall>(p, b, v) \<in> set d. b = a \<Longrightarrow> \<forall>(p, b, v) \<in> set d'. b = a"
proof (induction parts arbitrary: d)
  case (Cons part parts)
  then obtain v where v: "read_slices W a parts ((part, a, v) # filter (\<lambda>(p, x). p \<noteq> part) d) = Inr d'" by (auto simp: bindE_Inr)
  from Cons.prems(2) have "\<forall>(p, b, v) \<in> set ((part, a, v) # filter (\<lambda>(p, x). p \<noteq> part) d). b = a" by auto
  with Cons.IH[OF v] show ?case by blast
qed simp

lemma fresh_login_ok: "profile_ok e \<Longrightarrow> profile_ok (fresh_login W e)"
  by (simp add: fresh_login_def login_failed_def profile_ok_def accounts_ok_def Let_def split: sum.split)

lemma open_session_facts:
  assumes "open_session W e = (r, e')" "profile_ok e" "pf_api e = None"
  shows "pf_api e' \<in> {None, Some (pf_account e)}" "isl r \<Longrightarrow> e' = e" "pf_account e' = pf_account e" "pf_data e' = []"
    "pf_accounts e' = pf_accounts e" "pf_login e' = pf_login e"
  using assms by (auto simp: open_session_def profile_ok_def own_session_ok_def split: sum.splits if_splits)

lemma read_profile_facts:
  assumes "read_profile W api account parts e = (r, e')"
  shows "\<exists>d. e' = e\<lparr>pf_data := d\<rparr> \<and> (\<not> isl r \<longrightarrow> api = Some account) \<and>
     ((\<forall>(p, b, v) \<in> set (pf_data e). b = account) \<longrightarrow> (\<forall>(p, b, v) \<in> set d. b = account))"
proof (cases "api = Some account")
  case False
  with assms show ?thesis by (intro exI[of _ "pf_data e"]) (auto simp: read_profile_def)
next
  case True
  show ?thesis
  proof (cases "read_slices W account parts (pf_data e)")
    case (Inl x)
    with assms True show ?thesis by (intro exI[of _ "pf_data e"]) (auto simp: read_profile_def)
  next
    case (Inr d)
    with assms True read_slices_account[OF Inr] show ?thesis by (intro exI[of _ d]) (auto simp: read_profile_def)
  qed
qed

text \<open>A failed action leaves no slices; a connected one has them from the account of its session.\<close>

lemma after_failure_ok:
  assumes "pf_api e \<in> {None, Some (pf_account e)}" "accounts_ok (pf_accounts e) (pf_login e)"
  shows "profile_ok (after_action False (Inl x) p e)"
  using assms by (auto simp: after_action_def profile_ok_def own_session_ok_def)

lemma read_action_ok:
  assumes "read_action W False action parts e p = (r, e')" "profile_ok e"
  shows "profile_ok (after_action False r p e')"
proof -
  obtain q e1 where s: "(if action = ''connect'' \<and> pf_api e = None then open_session W e else (Inr (), e)) = (q, e1)" by fastforce
  have "pf_api e1 \<in> {None, Some (pf_account e1)} \<and> (\<forall>(p, b, v) \<in> set (pf_data e1). b = pf_account e1) \<and> accounts_ok (pf_accounts e1) (pf_login e1)"
  proof (cases "action = ''connect'' \<and> pf_api e = None")
    case True
    with s have "open_session W e = (q, e1)" by simp
    from open_session_facts[OF this assms(2)] True assms(2) show ?thesis by (auto simp: profile_ok_def)
  next
    case False
    with s have "e1 = e" by auto
    with assms(2) show ?thesis by (simp add: profile_ok_def own_session_ok_def)
  qed
  then have e1: "pf_api e1 \<in> {None, Some (pf_account e1)}" "\<forall>(p, b, v) \<in> set (pf_data e1). b = pf_account e1"
    "accounts_ok (pf_accounts e1) (pf_login e1)" by blast+
  show ?thesis
  proof (cases q)
    case (Inl x)
    with assms(1) s have "e' = e1 \<and> r = Inl x" by (simp add: read_action_def)
    then show ?thesis using after_failure_ok[OF e1(1,3)] by simp
  next
    case (Inr u)
    obtain r2 e2 where rp: "read_profile W (pf_api e1) (pf_account e1) parts e1 = (r2, e2)" by fastforce
    obtain d where d: "e2 = e1\<lparr>pf_data := d\<rparr>" "\<not> isl r2 \<Longrightarrow> pf_api e1 = Some (pf_account e1)" "\<forall>(p, b, v) \<in> set d. b = pf_account e1"
      using read_profile_facts[OF rp] e1(2) by blast
    show ?thesis
    proof (cases r2)
      case (Inl x)
      then have "r = Inl x" "e' = e2" using assms(1) s Inr rp by (simp_all add: read_action_def)
      then show ?thesis using after_failure_ok[of e2] e1 d(1) by simp
    next
      case ok: (Inr y)
      then have "r = Inr ()" "e' = e2\<lparr>pf_state := ''connected'', pf_error := []\<rparr>" using assms(1) s Inr rp by (simp_all add: read_action_def)
      then show ?thesis using e1 d ok by (simp add: after_action_def profile_ok_def own_session_ok_def)
    qed
  qed
qed

lemma fresh_login_kept [simp]: "pf_account (fresh_login W e) = pf_account e" "pf_api (fresh_login W e) = pf_api e"
  by (simp_all add: fresh_login_def login_failed_def Let_def split: sum.split)

lemma do_action_ok:
  assumes "do_action W False action e p = (r, e', p')" "profile_ok e"
  shows "profile_ok e'"
proof (cases "action = ''disconnect''")
  case True
  with assms(1) have "e' = e\<lparr>pf_api := None, pf_state := ''disconnected'', pf_data := [], pf_error := [], pf_accounts := [],
      pf_login := None, pf_renewal := None, pf_revision := Suc (pf_revision e)\<rparr>"
    by (simp add: do_action_def disconnect_profile_def after_action_def del: map_of.simps)
  then show ?thesis by (simp add: profile_ok_def own_session_ok_def accounts_ok_def)
next
  case False
  obtain q e1 where a: "read_action W False action (the (map_of action_parts action)) e p = (q, e1)" by fastforce
  show ?thesis using assms False a read_action_ok[OF a assms(2)] by (auto simp: do_action_def split: if_splits)
qed

lemma pick_account_ok:
  assumes "pick_account W False account e p = (r, e', p')" "profile_ok e"
  shows "profile_ok e'"
proof (cases "\<exists>a. account = Some a \<and> a \<in> set (map fst (pf_accounts e))")
  case False
  with assms show ?thesis by (auto simp: pick_account_def split: option.splits)
next
  case True
  then obtain a where a: "account = Some a" "a \<in> set (map fst (pf_accounts e))" by blast
  obtain q e1 p1 where b: "bind_session W False a e p = (q, e1, p1)" by (metis prod.exhaust)
  have e1: "e1 = e \<or> (e1 = e\<lparr>pf_api := None\<rparr> \<and> q = Inr ())" "pf_api e1 = None \<or> a = pf_account e"
    using b by (auto simp: bind_session_def split: if_splits)
  show ?thesis
  proof (cases q)
    case (Inl x)
    with e1(1) assms a b show ?thesis by (auto simp: pick_account_def)
  next
    case (Inr u)
    have "profile_ok (e1\<lparr>pf_account := a, pf_data := [], pf_error := [], pf_state := ''disconnected''\<rparr>)"
      using e1 assms(2) by (auto simp: profile_ok_def own_session_ok_def)
    then show ?thesis using do_action_ok assms(1) a b Inr by (auto simp: pick_account_def)
  qed
qed

lemma discover_ok:
  "discover W False force e p = (r, e', p') \<Longrightarrow> profile_ok e \<Longrightarrow> profile_ok e'"
  using pick_account_ok fresh_login_ok by (auto simp: discover_def Let_def split: if_splits)

lemma select_ok:
  assumes "select W False account e p = (r, e', p')" "profile_ok e"
  shows "profile_ok e'"
proof -
  obtain q e1 p1 where d: "discover W False True e p = (q, e1, p1)" by (metis prod.exhaust)
  show ?thesis using assms d discover_ok[OF d assms(2)] pick_account_ok by (auto simp: select_def split: if_splits sum.splits)
qed

lemma profile_action_ok: "profile_action W False action account e p = (r, e', p') \<Longrightarrow> profile_ok e \<Longrightarrow> profile_ok e'"
  using discover_ok select_ok do_action_ok by (auto simp: profile_action_def split: if_splits)

definition profiles_ok :: "profiles \<Rightarrow> bool" where
  "profiles_ok s \<longleftrightarrow> (\<forall>(n, e) \<in> set (bp_entries s). n \<noteq> primary_prefix \<longrightarrow> profile_ok e)"

lemma profile_step_ok: "profiles_ok s \<Longrightarrow> profiles_ok (profile_step a s)"
proof -
  assume ok: "profiles_ok s"
  obtain W x where a: "a = (W, x)" by fastforce
  show ?thesis
  proof (cases x)
    case (Profile_action n action account)
    show ?thesis
    proof (cases "map_of (bp_entries s) n")
      case None
      with ok Profile_action a show ?thesis by (simp add: act_on_def)
    next
      case (Some e)
      obtain r e' p' where r: "profile_action W (n = primary_prefix) action account e (bp_primary s) = (r, e', p')" by (metis prod.exhaust)
      have "n \<noteq> primary_prefix \<Longrightarrow> profile_ok e'"
        using profile_action_ok[of W action account e "bp_primary s" r e' p'] r ok map_of_SomeD[OF Some] by (auto simp: profiles_ok_def)
      with ok Profile_action a Some r show ?thesis by (auto simp: act_on_def profiles_ok_def put_profile_def split: if_splits)
    qed
  next
    case (Profile_view expiry)
    with ok a show ?thesis by (fastforce simp: profiles_ok_def view_profiles_def view_profile_def Let_def)
  next
    case Profile_close
    with ok a show ?thesis by (fastforce simp: profiles_ok_def close_profiles_def close_profile_def profile_ok_def own_session_ok_def accounts_ok_def)
  next
    case (Primary_moves p)
    with ok a show ?thesis by (simp add: profiles_ok_def)
  qed
qed

interpretation profile_runs: kept_invariant profile_step profiles_ok
  by unfold_locales (rule profile_step_ok)

lemma new_profiles_ok: "profiles_ok (new_profiles settings p)"
  by (auto simp: profiles_ok_def new_profiles_def new_profile_def profile_ok_def own_session_ok_def accounts_ok_def)

subsection \<open>Properties\<close>

text \<open>
  C17: a profile keeps to its account: over any logins, selections, reads, failures, disconnections and closes,
  a profile with a session of its own has it on the account that was chosen, shows only slices read from that
  account and only while it is connected, is connected only with a session, and offers exactly the accounts,
  named and distinct, of the login that it holds.
\<close>
theorem profile_keeps_to_its_account:
  assumes "s = fold profile_step ops (new_profiles settings p)" and "(n, e) \<in> set (bp_entries s)" and "n \<noteq> primary_prefix"
  shows "pf_api e \<in> {None, Some (pf_account e)} \<and> (\<forall>(part, a, v) \<in> set (pf_data e). a = pf_account e) \<and>
         (pf_data e \<noteq> [] \<longrightarrow> pf_state e = ''connected'') \<and> (pf_state e = ''connected'' \<longrightarrow> pf_api e \<noteq> None) \<and>
         pf_accounts e = (case pf_login e of None \<Rightarrow> [] | Some l \<Rightarrow> found_accounts l) \<and>
         distinct (map fst (pf_accounts e)) \<and> [] \<notin> set (map fst (pf_accounts e))"
proof -
  have "profiles_ok s" unfolding assms(1) by (rule profile_runs.run_inv[OF new_profiles_ok])
  then have "profile_ok e" using assms(2,3) by (auto simp: profiles_ok_def)
  then show ?thesis by (auto simp: profile_ok_def own_session_ok_def accounts_ok_def split: option.split if_splits)
qed

text \<open>
  The primary profile does not: when the controller's connection moves to another account without being
  seen disconnected, the next snapshot shows that account, connected, with slices of the account before.
\<close>
lemma primary_shows_other_account:
  "\<exists>ops v part x. v \<in> set (fst (view_profiles now expiry (fold profile_step ops (new_profiles [(primary_prefix, st)] p)))) \<and>
     vw_account v = ''B'' \<and> vw_connection v = ''connected'' \<and> (part, ''A'', x) \<in> set (vw_data v)"
proof -
  let ?on = "\<lambda>a. \<lparr>pv_api = Some a, pv_connection = ''connected'', pv_selected = a, pv_running = False, pv_accounts = []\<rparr>"
  let ?W = "\<lparr>pw_now = 0, pw_discover = Inl (value_error []), pw_session = Inl (value_error []), pw_use = Inr (),
     pw_read = (\<lambda>a part. Inr JS_null), pw_connect = (\<lambda>a l p. (Inr (), p)), pw_stop = (\<lambda>p. (Inr (), p))\<rparr> :: profile_world"
  let ?ops = "[(?W, Primary_moves (?on ''A'')), (?W, Profile_action primary_prefix ''balance'' None), (?W, Primary_moves (?on ''B''))]"
  let ?s = "fold profile_step ?ops (new_profiles [(primary_prefix, st)] p)"
  have "\<exists>v. fst (view_profiles now expiry ?s) = [v] \<and> vw_account v = ''B'' \<and> vw_connection v = ''connected'' \<and>
      (''balance'', ''A'', JS_null) \<in> set (vw_data v)"
    by (simp add: view_profiles_def view_profile_def Let_def new_profiles_def new_profile_def act_on_def put_profile_def profile_action_def
        do_action_def action_parts_def read_action_def read_profile_def after_action_def)
  then obtain v where "fst (view_profiles now expiry ?s) = [v]" "vw_account v = ''B''" "vw_connection v = ''connected''"
      "(''balance'', ''A'', JS_null) \<in> set (vw_data v)" by blast
  then show ?thesis by (intro exI[of _ ?ops] exI[of _ v] exI[of _ "''balance''"] exI[of _ JS_null]) simp
qed

definition small_login :: profile_login where
  "small_login = \<lparr>pl_trading = [(''1'', True)], pl_accounts = [], pl_selected = None, pl_expiry = None\<rparr>"

definition small_profile_world :: profile_world where
  "small_profile_world = \<lparr>pw_now = 0, pw_discover = Inr small_login, pw_session = Inr ''1'', pw_use = Inr (),
     pw_read = (\<lambda>a part. Inr (JS_str part)), pw_connect = (\<lambda>a l p. (Inr (), p)), pw_stop = (\<lambda>p. (Inr (), p))\<rparr>"

definition small_settings :: rest_settings where
  "small_settings = \<lparr>st_platform = ''https://b'', st_email = [], st_password = [], st_broker = [], st_account = [], st_trading = [],
     st_system = [], st_cookie_account = False, st_refreshes = True, st_per_minute = 450, st_writes = False, st_ws_url = [],
     st_ws_headers = [], st_ws_sub = [], st_other = []\<rparr>"

definition small_primary :: primary_side where
  "small_primary = \<lparr>pv_api = None, pv_connection = ''disconnected'', pv_selected = [], pv_running = False, pv_accounts = []\<rparr>"

definition small_profile_ops :: "(profile_world \<times> profile_op) list" where
  "small_profile_ops = [(small_profile_world, Profile_action ''GTR'' ''login'' None), (small_profile_world, Profile_action ''GTR'' ''select'' (Some ''1''))]"

definition small_profiles :: profiles where
  "small_profiles = fold profile_step small_profile_ops (new_profiles [(''GTR'', small_settings)] small_primary)"

lemma small_profiles_state:
  "\<exists>e. (''GTR'', e) \<in> set (bp_entries small_profiles) \<and> pf_account e = ''1'' \<and> (''orders'', ''1'', JS_str ''orders'') \<in> set (pf_data e) \<and>
       pf_api e = Some ''1''"
  by (simp add: small_profiles_def small_profile_ops_def new_profiles_def small_settings_def new_profile_def act_on_def primary_prefix_def
      profile_action_def discover_def login_state_def fresh_login_def small_profile_world_def small_login_def found_accounts_def put_profile_def
      select_def pick_account_def bind_session_def do_action_def action_parts_def read_action_def open_session_def read_profile_def
      after_action_def Let_def)

theorem profile_keeps_to_its_account_witness:
  "\<exists>e. (''GTR'', e) \<in> set (bp_entries small_profiles) \<and> pf_api e = Some ''1'' \<and> (\<forall>(part, a, v) \<in> set (pf_data e). a = ''1'') \<and> pf_data e \<noteq> []"
proof -
  obtain e where e: "(''GTR'', e) \<in> set (bp_entries small_profiles)" "pf_account e = ''1''" "(''orders'', ''1'', JS_str ''orders'') \<in> set (pf_data e)"
      "pf_api e = Some ''1''" using small_profiles_state by blast
  have "''GTR'' \<noteq> primary_prefix" by (simp add: primary_prefix_def)
  from profile_keeps_to_its_account[OF small_profiles_def e(1) this] e show ?thesis by (intro exI[of _ e]) auto
qed

end
