(* ===== verification/P01Feed.thy ===== *)
theory P01Feed
  imports DeskProps DecimalText Forwarder
begin

text \<open>
  The log of the P01 tool (dashboard/p01_log.py): the polls of a growing or rotated file, the reading of a
  line, the bounded queues, and the join of an intent with the tool's state file. A line's bytes stand for
  their text; how a time is read is an argument.
\<close>

subsection \<open>Lines\<close>

text \<open>An instant in microseconds, whether it has a zone, and its canonical text.\<close>

type_synonym read_stamp = "string \<Rightarrow> (int \<times> bool \<times> string) res"

fun search_text :: "(char option \<Rightarrow> string \<Rightarrow> string option) \<Rightarrow> char option \<Rightarrow> string \<Rightarrow> string option" where
  "search_text m prev [] = m prev []"
| "search_text m prev (c # s) = (case m prev (c # s) of Some r \<Rightarrow> Some r | None \<Rightarrow> search_text m (Some c) s)"

text \<open>\<open>id='([^']+)'\<close>, \<open>P01RR_\d+_\d+\<close> and \<open>\b[LM]:(?:low|high|beyond)@\S+\<close> at a position.\<close>

definition match_id :: "char option \<Rightarrow> string \<Rightarrow> string option" where
  "match_id prev s =
     (let q = takeWhile (\<lambda>c. c \<noteq> CHR 0x27) (drop 4 s) in
      if starts_with (''id='' @ [CHR 0x27]) s \<and> q \<noteq> [] \<and> length q + 4 < length s then Some q else None)"

definition match_panel :: "string \<Rightarrow> string option" where
  "match_panel s =
     (let a = takeWhile is_digit (drop 6 s); r = drop (6 + length a) s; b = takeWhile is_digit (drop 1 r) in
      if starts_with ''P01RR_'' s \<and> a \<noteq> [] \<and> starts_with ''_'' r \<and> b \<noteq> [] then Some (''P01RR_'' @ a @ ''_'' @ b) else None)"

definition match_level :: "char option \<Rightarrow> string \<Rightarrow> string option" where
  "match_level prev s =
     (case find (\<lambda>edge. starts_with (edge @ ''@'') (drop 2 s)) [''low'', ''high'', ''beyond''] of
        None \<Rightarrow> None
      | Some edge \<Rightarrow>
          (let rest = takeWhile (\<lambda>c. \<not> is_space c) (drop (3 + length edge) s) in
           if boundary prev s \<and> (starts_with ''L:'' s \<or> starts_with ''M:'' s) \<and> rest \<noteq> []
           then Some (take (3 + length edge) s @ rest) else None))"

definition line_label :: "string \<Rightarrow> string" where
  "line_label s =
     (case search_text match_id None s of
        Some l \<Rightarrow> l
      | None \<Rightarrow>
          opt_str (search_text (\<lambda>prev s. case match_panel s of Some l \<Rightarrow> Some l | None \<Rightarrow> match_level prev s) None s))"

definition match_value :: "char option \<Rightarrow> string \<Rightarrow> (string \<times> string) option" where
  "match_value prev s =
     (case find (\<lambda>n. starts_with (n @ ''='') s) [''side'', ''entry'', ''sl'', ''tp'', ''type''] of
        None \<Rightarrow> None
      | Some n \<Rightarrow>
          (let v = takeWhile (\<lambda>c. \<not> is_space c) (drop (Suc (length n)) s) in if boundary prev s \<and> v \<noteq> [] then Some (n, v) else None))"

text \<open>All values of a line, from left to right; a match is skipped whole.\<close>

function line_values :: "char option \<Rightarrow> string \<Rightarrow> (string \<times> string) list" where
  "line_values prev [] = []"
| "line_values prev (c # s) =
     (case match_value prev (c # s) of
        Some (n, v) \<Rightarrow> (n, v) # line_values (Some (last (c # take (length n + length v) s))) (drop (length n + length v) s)
      | None \<Rightarrow> line_values (Some c) s)"
  by pat_completeness auto
termination by (relation "measure (\<lambda>(_, s). length s)") auto

definition line_action :: "string \<Rightarrow> string \<times> string" where
  "line_action text =
     (if contains ''box OPEN clicked'' text then (''INTENT'', ''Open intent'')
      else if starts_with ''FIRE '' text then (''SIGNAL'', ''Signal fired'')
      else if starts_with ''signal band x '' text then (''REMOVE'', ''Signal band removed'')
      else if contains ''level available again:'' text then (''RELEASE'', ''Level released'')
      else if text = ''card: Close/Cancel All'' then (''CLOSE_CANCEL_INTENT'', ''Close / cancel all intent'')
      else if starts_with ''card Close/Cancel All ->'' text then (''TOOL_RESULT'', ''Close / cancel tool result'')
      else (''OBSERVE'', ''P01 diagnostic''))"

subsection \<open>State\<close>

record p01_event =
  pe_label :: string
  pe_action :: string
  pe_title :: string
  pe_side :: string
  pe_price :: "string option"
  pe_sl :: "string option"
  pe_tp :: "string option"
  pe_type :: "string option"
  pe_emitted :: string
  pe_time :: int
  pe_text :: string

record p01_log =
  lg_offset :: nat
  lg_identity :: "nat option"
  lg_pending :: string
  lg_error :: string
  lg_labels :: "(string \<times> (string \<rightharpoonup> string)) list"
  lg_events :: "p01_event list"
  lg_intents :: "p01_event list"
  lg_releases :: "p01_event list"

definition new_p01_log :: p01_log where
  "new_p01_log = \<lparr>lg_offset = 0, lg_identity = None, lg_pending = [], lg_error = [], lg_labels = [], lg_events = [], lg_intents = [],
     lg_releases = []\<rparr>"

text \<open>A queue that keeps the newest.\<close>

definition push_bounded :: "nat \<Rightarrow> 'a \<Rightarrow> 'a list \<Rightarrow> 'a list" where
  "push_bounded n x xs = (let ys = xs @ [x] in drop (length ys - n) ys)"

definition remember_label :: "string \<Rightarrow> (string \<rightharpoonup> string) \<Rightarrow> (string \<times> (string \<rightharpoonup> string)) list \<Rightarrow> (string \<times> (string \<rightharpoonup> string)) list" where
  "remember_label l v ls = push_bounded 200 (l, v) (filter (\<lambda>x. fst x \<noteq> l) ls)"

text \<open>A file, by its identity and bytes, or None when it cannot be opened.\<close>

type_synonym log_file = "(nat \<times> string) option"

text \<open>A start at the end of the file: what was written before is never an intent.\<close>

definition start_p01 :: "log_file \<Rightarrow> p01_log \<Rightarrow> p01_log" where
  "start_p01 file st =
     st\<lparr>lg_offset := (case file of Some (i, s) \<Rightarrow> length s | None \<Rightarrow> 0), lg_identity := map_option fst file, lg_pending := [],
        lg_labels := [], lg_intents := [], lg_releases := []\<rparr>"

subsection \<open>Recording\<close>

definition record_line :: "read_stamp \<Rightarrow> string \<Rightarrow> p01_log \<Rightarrow> p01_log" where
  "record_line T raw st =
     (let stamp = takeWhile (\<lambda>c. c \<noteq> CHR '' '') raw; text = drop (Suc (length stamp)) raw in
      case T stamp of
        Inl e \<Rightarrow> st
      | Inr (t, zoned, canon) \<Rightarrow>
          if \<not> zoned then st
          else (let label = line_label text;
                    values = map_of (rev (line_values None text));
                    merged = (if label = [] then values
                              else (case map_of (lg_labels st) label of None \<Rightarrow> values | Some old \<Rightarrow> old ++ values));
                    (action, title) = line_action text;
                    row = \<lparr>pe_label = label, pe_action = action, pe_title = title,
                           pe_side = (if merged ''side'' = Some ''0'' then ''BUY'' else if merged ''side'' = Some ''1'' then ''SELL'' else []),
                           pe_price = merged ''entry'', pe_sl = merged ''sl'', pe_tp = merged ''tp'', pe_type = merged ''type'',
                           pe_emitted = canon, pe_time = t, pe_text = text\<rparr>
                in st\<lparr>lg_labels := (if label = [] then lg_labels st else remember_label label merged (lg_labels st)),
                      lg_events := push_bounded 200 row (lg_events st),
                      lg_intents := (if action = ''INTENT'' then push_bounded 200 row (lg_intents st) else lg_intents st),
                      lg_releases := (if action = ''RELEASE'' \<or> action = ''CLOSE_CANCEL_INTENT'' then push_bounded 200 row (lg_releases st)
                                      else lg_releases st)\<rparr>))"

definition take_end :: "nat \<Rightarrow> 'a list \<Rightarrow> 'a list" where
  "take_end n s = drop (length s - n) s"

text \<open>The part of a poll before its lines are recorded: the state, and the complete lines.\<close>

definition read_block :: "nat \<times> string \<Rightarrow> p01_log \<Rightarrow> p01_log \<times> string list" where
  "read_block = (\<lambda>(i, content) st.
     let anew = (Some i \<noteq> lg_identity st \<or> length content < lg_offset st);
         start = (if anew then 0 else lg_offset st);
         block = take 65536 (drop start content);
         pieces = split_char (CHR 0x0A) ((if anew then [] else lg_pending st) @ block)
     in (st\<lparr>lg_offset := start + length block, lg_identity := Some i, lg_pending := take_end 16384 (last pieces), lg_error := [],
            lg_labels := (if anew then [] else lg_labels st)\<rparr>, butlast pieces))"

definition poll_p01 :: "read_stamp \<Rightarrow> log_file \<Rightarrow> p01_log \<Rightarrow> bool \<times> p01_log" where
  "poll_p01 T file st =
     (case file of
        None \<Rightarrow> (False, st\<lparr>lg_error := ''P01 log unavailable''\<rparr>)
      | Some f \<Rightarrow>
          (case read_block f st of
             (st1, lines) \<Rightarrow> (lines \<noteq> [], fold (\<lambda>l. record_line T (strip (take_end 16384 l))) lines st1)))"

definition drain_intents :: "p01_log \<Rightarrow> p01_event list \<times> p01_log" where
  "drain_intents st = (lg_intents st, st\<lparr>lg_intents := []\<rparr>)"

definition drain_releases :: "p01_log \<Rightarrow> p01_event list \<times> p01_log" where
  "drain_releases st = (lg_releases st, st\<lparr>lg_releases := []\<rparr>)"

definition p01_feed :: "p01_log \<Rightarrow> p01_event list" where
  "p01_feed st = rev (lg_events st)"

subsection \<open>The signal of an intent\<close>

text \<open>A number of the state file, or of a line, as \<open>Decimal(str(x))\<close>; a special value equals nothing.\<close>

definition text_decimal :: "string \<Rightarrow> decimal res" where
  "text_decimal s = (case volume_of_text s of Volume d \<Rightarrow> Inr d | _ \<Rightarrow> Inl (decimal_error ''InvalidOperation''))"

definition state_decimal :: "(string \<times> json) list \<Rightarrow> string \<Rightarrow> decimal res" where
  "state_decimal fs k =
     (case map_of fs k of
        None \<Rightarrow> Inl (Exn ''KeyError'' k None)
      | Some (JS_num t) \<Rightarrow> text_decimal t
      | Some (JS_str t) \<Rightarrow> text_decimal t
      | Some _ \<Rightarrow> Inl (decimal_error ''InvalidOperation''))"

definition no_match :: "'a res" where
  "no_match = Inl (value_error ''P01 state does not match this labeled intent; no copy'')"

text \<open>The side of the state: 0 for a buy, 1 for a sell, null for neither.\<close>

definition side_matches :: "string \<Rightarrow> json option \<Rightarrow> bool" where
  "side_matches side v \<longleftrightarrow>
     (if side = [] then v = None \<or> v = Some JS_null
      else (case v of
              Some (JS_num t) \<Rightarrow> (case text_decimal t of Inr d \<Rightarrow> deq d (Dec (if side = ''BUY'' then 0 else 1) 0) | Inl _ \<Rightarrow> False)
            | Some (JS_bool b) \<Rightarrow> b = (side \<noteq> ''BUY'')
            | _ \<Rightarrow> False))"

fun prices_match :: "(string \<times> json) list \<Rightarrow> (string \<times> string option) list \<Rightarrow> unit res" where
  "prices_match fs [] = Inr ()"
| "prices_match fs ((k, v) # xs) =
     bindE (state_decimal fs k) (\<lambda>d. bindE (case v of None \<Rightarrow> Inl (decimal_error ''InvalidOperation'') | Some t \<Rightarrow> text_decimal t) (\<lambda>w.
       if deq d w then prices_match fs xs else no_match))"

definition row_decimal :: "string option \<Rightarrow> decimal" where
  "row_decimal v = (case v of Some t \<Rightarrow> (case text_decimal t of Inr d \<Rightarrow> d | Inl _ \<Rightarrow> dzero) | None \<Rightarrow> dzero)"

text \<open>
  The signal that joins an intent with the state file read at that time; \<open>node\<close> names the machine and
  \<open>identity\<close> is the digest of path, label and time.
\<close>

definition p01_signal :: "read_stamp \<Rightarrow> string \<Rightarrow> string \<Rightarrow> json res \<Rightarrow> p01_event \<Rightarrow> signal res" where
  "p01_signal T node identity state row =
     bindE state (\<lambda>v. case v of
       JS_obj fs \<Rightarrow>
         (case map_of fs ''utc'' of
            Some (JS_str stamp) \<Rightarrow>
              bindE (T stamp) (\<lambda>(t, zoned, canon).
                if map_of fs ''label'' \<noteq> Some (JS_str (pe_label row)) \<or> map_of fs ''action'' \<noteq> Some (JS_str ''open'') \<or> \<not> zoned \<or>
                   2000000 < \<bar>t - pe_time row\<bar> \<or> \<not> side_matches (pe_side row) (map_of fs ''side'') then no_match
                else (case map_of fs ''symbol'' of
                  Some (JS_str symbol) \<Rightarrow>
                    if strip symbol = [] then no_match
                    else bindE (prices_match fs [(''entry'', pe_price row), (''sl'', pe_sl row), (''tp'', pe_tp row)]) (\<lambda>_.
                      if pe_type row \<notin> {Some ''Limit'', Some ''Stop''}
                      then Inl (value_error ''P01 intent has no supported pending order type'')
                      else Inr \<lparr>sg_event = ''p01-'' @ identity, sg_machine = node, sg_source = ''P01_LOG'', sg_connection = [], sg_account = [],
                                sg_kind = ''intent'', sg_label = pe_label row, sg_time = pe_time row, sg_symbol = symbol, sg_side = pe_side row,
                                sg_entry = row_decimal (pe_price row), sg_stop = row_decimal (pe_sl row), sg_target = row_decimal (pe_tp row),
                                sg_order_type = (if pe_type row = Some ''Limit'' then ''LIMIT'' else ''STOP''), sg_origin = [], sg_detail = [],
                                sg_grade = [], sg_stamp = [], sg_rfx = [], sg_arm = []\<rparr>)
                | _ \<Rightarrow> no_match))
          | Some _ \<Rightarrow> Inl attribute_error
          | None \<Rightarrow> Inl (Exn ''KeyError'' ''utc'' None))
     | _ \<Rightarrow> Inl (Exn ''TypeError'' ''the state is no object'' None))"

text \<open>The row the controller takes from the queues.\<close>

definition p01_row_from :: "read_stamp \<Rightarrow> string \<Rightarrow> (p01_event \<Rightarrow> string) \<Rightarrow> (p01_event \<Rightarrow> string) \<Rightarrow> json res \<Rightarrow> p01_event \<Rightarrow> p01_row" where
  "p01_row_from T node fresh identity state row =
     \<lparr>pg_id = ''p01-'' @ fresh row, pg_trade = pe_label row, pg_action = pe_action row, pg_emitted = pe_emitted row, pg_time = pe_time row,
      pg_signal = p01_signal T node (identity row) state row\<rparr>"

subsection \<open>Laws\<close>

lemma push_bounded_length: "length (push_bounded n x xs) \<le> n"
  by (simp add: push_bounded_def Let_def)

lemma record_line_kept [simp]:
  "lg_offset (record_line T raw st) = lg_offset st" "lg_identity (record_line T raw st) = lg_identity st"
  "lg_pending (record_line T raw st) = lg_pending st"
  by (simp_all add: record_line_def Let_def split: sum.split prod.split)

lemma record_lines_kept [simp]:
  "lg_offset (fold (\<lambda>l. record_line T (f l)) ls st) = lg_offset st" "lg_identity (fold (\<lambda>l. record_line T (f l)) ls st) = lg_identity st"
  "lg_pending (fold (\<lambda>l. record_line T (f l)) ls st) = lg_pending st"
  by (induction ls arbitrary: st) simp_all

lemma split_char_nonempty [simp]: "split_char x s \<noteq> []"
  by (induction s) (auto split: list.split)

lemma split_char_append: "split_char x (a @ b) = butlast (split_char x a) @ split_char x (last (split_char x a) @ b)"
proof (induction a)
  case (Cons c a)
  obtain p ps where p: "split_char x a = p # ps" using split_char_nonempty[of x a] by (cases "split_char x a") auto
  show ?case
  proof (cases "c = x")
    case True
    with Cons show ?thesis by simp
  next
    case False
    show ?thesis
    proof (cases ps)
      case Nil
      with Cons False p show ?thesis by (simp add: split: list.split)
    next
      case (Cons q qs)
      with Cons.IH False p show ?thesis by (simp add: split: list.split)
    qed
  qed
qed simp

lemma split_char_first: "\<exists>y ys. split_char x (p @ b) = y # ys \<and> length p \<le> length y" if "x \<notin> set p"
  using that
proof (induction p)
  case Nil
  then show ?case using split_char_nonempty[of x b] by (cases "split_char x b") auto
next
  case (Cons c p)
  then obtain y ys where "split_char x (p @ b) = y # ys" "length p \<le> length y" by auto
  with Cons.prems show ?case by auto
qed

lemma split_char_pieces: "p \<in> set (split_char x s) \<Longrightarrow> x \<notin> set p"
  by (induction s arbitrary: p) (fastforce split: if_splits list.splits)+

lemma short_prefix:
  assumes "\<forall>p \<in> set (split_char x (a @ b)). length p \<le> n" "p \<in> set (split_char x a)"
  shows "length p \<le> n"
proof (cases "p \<in> set (butlast (split_char x a))")
  case True
  with assms(1) show ?thesis by (simp add: split_char_append[of x a b])
next
  case False
  have l: "split_char x a = butlast (split_char x a) @ [last (split_char x a)]" by simp
  with assms(2) False have p: "p = last (split_char x a)" by (metis rotate1.simps(2) set_ConsD set_rotate1)
  obtain y ys where "split_char x (p @ b) = y # ys" "length p \<le> length y"
    using split_char_first[OF split_char_pieces[OF assms(2)]] by blast
  with assms(1) p show ?thesis by (auto simp: split_char_append[of x a b])
qed

text \<open>A poll of one file, with the lines it records.\<close>

definition polled_lines :: "read_stamp \<Rightarrow> nat \<Rightarrow> string \<Rightarrow> p01_log \<Rightarrow> p01_log \<times> string list" where
  "polled_lines T i content st = (snd (poll_p01 T (Some (i, content)) st), snd (read_block (i, content) st))"

fun extends :: "string \<Rightarrow> string list \<Rightarrow> bool" where
  "extends c [] \<longleftrightarrow> True"
| "extends c (d # ds) \<longleftrightarrow> take (length c) d = c \<and> extends d ds"

text \<open>What is read of the bytes behind the start: complete lines that were recorded, and the pending rest.\<close>

definition follows :: "nat \<Rightarrow> nat \<Rightarrow> string \<Rightarrow> string list \<Rightarrow> p01_log \<Rightarrow> bool" where
  "follows i n content ls st \<longleftrightarrow>
     lg_identity st = Some i \<and> n \<le> lg_offset st \<and> lg_offset st \<le> length content \<and>
     split_char (CHR 0x0A) (take (lg_offset st - n) (drop n content)) = ls @ [lg_pending st]"

lemma follows_extend:
  assumes "follows i n c ls st" "take (length c) d = c"
  shows "follows i n d ls st"
proof -
  have d: "d = c @ drop (length c) d" using assms(2) by (metis append_take_drop_id)
  have "length c \<le> length d" using arg_cong[OF assms(2), of length] by simp
  moreover have "take (lg_offset st - n) (drop n d) = take (lg_offset st - n) (drop n c)"
    using assms(1) by (subst d) (auto simp: follows_def)
  ultimately show ?thesis using assms(1) by (auto simp: follows_def)
qed

lemma follows_poll:
  assumes "follows i n c ls st" "\<forall>p \<in> set (split_char (CHR 0x0A) (drop n c)). length p \<le> 16384"
    "polled_lines T i c st = (st', new)"
  shows "follows i n c (ls @ new) st' \<and> lg_offset st' = min (length c) (lg_offset st + 65536)"
proof -
  let ?off = "lg_offset st" and ?read = "take (lg_offset st - n) (drop n c)"
  let ?block = "take 65536 (drop ?off c)"
  have f: "lg_identity st = Some i" "n \<le> ?off" "?off \<le> length c" "split_char (CHR 0x0A) ?read = ls @ [lg_pending st]"
    using assms(1) by (simp_all add: follows_def)
  obtain st1 where b: "read_block (i, c) st = (st1, butlast (split_char (CHR 0x0A) (lg_pending st @ ?block)))"
      "lg_offset st1 = ?off + length ?block" "lg_identity st1 = Some i"
      "lg_pending st1 = take_end 16384 (last (split_char (CHR 0x0A) (lg_pending st @ ?block)))"
    using f by (simp add: read_block_def Let_def)
  have new: "new = butlast (split_char (CHR 0x0A) (lg_pending st @ ?block))"
    and kept: "lg_offset st' = lg_offset st1" "lg_identity st' = lg_identity st1" "lg_pending st' = lg_pending st1"
    using assms(3) b(1) by (auto simp: polled_lines_def poll_p01_def)
  have off: "lg_offset st' = min (length c) (?off + 65536)" using kept(1) b(2) f(3) by simp
  have k: "drop ?off c = drop (?off - n) (drop n c)" "lg_offset st' - n = (?off - n) + length ?block" using f(2) kept(1) b(2) by simp_all
  have "take (length ?block) (drop ?off c) = ?block" by (simp add: min_def)
  then have whole: "take (lg_offset st' - n) (drop n c) = ?read @ ?block" unfolding k(2) take_add k(1) by simp
  have sp: "split_char (CHR 0x0A) (?read @ ?block) = ls @ new @ [last (split_char (CHR 0x0A) (lg_pending st @ ?block))]"
    using f(4) new by (simp add: split_char_append[of _ ?read ?block])
  have "length (last (split_char (CHR 0x0A) (lg_pending st @ ?block))) \<le> 16384"
  proof (rule short_prefix)
    show "\<forall>p \<in> set (split_char (CHR 0x0A) ((?read @ ?block) @ drop (lg_offset st' - n) (drop n c))). length p \<le> 16384"
      using assms(2) unfolding whole[symmetric] append_take_drop_id .
    show "last (split_char (CHR 0x0A) (lg_pending st @ ?block)) \<in> set (split_char (CHR 0x0A) (?read @ ?block))" by (simp add: sp)
  qed
  then have "lg_pending st' = last (split_char (CHR 0x0A) (lg_pending st @ ?block))" using kept(3) b(4) by (simp add: take_end_def)
  with sp whole off kept(2) b(3) f show ?thesis by (simp add: follows_def)
qed

lemma extends_last: "extends c cs \<Longrightarrow> \<exists>more. last (c # cs) = c @ more"
proof (induction cs arbitrary: c)
  case (Cons d ds)
  then obtain m where "last (d # ds) = d @ m" by auto
  moreover have "d = c @ drop (length c) d" using Cons.prems append_take_drop_id[of "length c" d] by simp
  ultimately have "last (d # ds) = c @ (drop (length c) d @ m)" by (metis append_assoc)
  then show ?case by auto
qed simp

lemma follows_run:
  "follows i n c ls st \<Longrightarrow> extends c cs \<Longrightarrow> \<forall>p \<in> set (split_char (CHR 0x0A) (drop n (last (c # cs)))). length p \<le> 16384 \<Longrightarrow>
   run_emits (polled_lines T i) cs st = (st', new) \<Longrightarrow>
   follows i n (last (c # cs)) (ls @ new) st' \<and> (cs \<noteq> [] \<longrightarrow> min (length (last (c # cs))) (n + 65536) \<le> lg_offset st')"
proof (induction cs arbitrary: c ls st new)
  case (Cons d ds)
  obtain st1 l1 where one: "polled_lines T i d st = (st1, l1)" by fastforce
  obtain st2 l2 where rest: "run_emits (polled_lines T i) ds st1 = (st2, l2)" by fastforce
  have res: "st' = st2" "new = l1 @ l2" using Cons.prems(4) one rest by simp_all
  have fd: "follows i n d ls st" using follows_extend[OF Cons.prems(1)] Cons.prems(2) by simp
  then have nd: "n \<le> lg_offset st" "n \<le> length d" by (auto simp: follows_def)
  obtain m where m: "last (d # ds) = d @ m" using extends_last[of d ds] Cons.prems(2) by auto
  have short: "\<forall>p \<in> set (split_char (CHR 0x0A) (drop n d)). length p \<le> 16384"
    using Cons.prems(3) short_prefix[of "CHR 0x0A" "drop n d" m 16384] m nd by simp
  note step = follows_poll[OF fd short one]
  have IH: "follows i n (last (d # ds)) ((ls @ l1) @ l2) st2 \<and> (ds \<noteq> [] \<longrightarrow> min (length (last (d # ds))) (n + 65536) \<le> lg_offset st2)"
    using Cons.IH[OF conjunct1[OF step] _ _ rest[folded res(1)]] res(1) Cons.prems(2,3) by simp
  have "min (length (last (d # ds))) (n + 65536) \<le> lg_offset st2"
  proof (cases ds)
    case Nil
    then show ?thesis using rest step nd by simp
  qed (use IH in simp)
  with IH res show ?case by simp
qed simp

text \<open>What the lines of a log leave in its queues; the rest of the state has no part in it.\<close>

definition log_view :: "p01_log \<Rightarrow> (string \<times> (string \<rightharpoonup> string)) list \<times> p01_event list \<times> p01_event list \<times> p01_event list" where
  "log_view st = (lg_labels st, lg_events st, lg_intents st, lg_releases st)"

lemma record_line_view: "log_view a = log_view b \<Longrightarrow> log_view (record_line T raw a) = log_view (record_line T raw b)"
  by (cases "T (takeWhile (\<lambda>c. c \<noteq> CHR '' '') raw)") (auto simp: log_view_def record_line_def Let_def split_beta)

lemma record_lines_view:
  "log_view a = log_view b \<Longrightarrow> log_view (fold (\<lambda>l. record_line T (f l)) ls a) = log_view (fold (\<lambda>l. record_line T (f l)) ls b)"
proof (induction ls arbitrary: a b)
  case (Cons l ls)
  from Cons.IH[OF record_line_view[OF Cons.prems]] show ?case by simp
qed simp

abbreviation record_lines :: "read_stamp \<Rightarrow> string list \<Rightarrow> p01_log \<Rightarrow> p01_log" where
  "record_lines T \<equiv> fold (\<lambda>l. record_line T (strip (take_end 16384 l)))"

lemma poll_view:
  assumes "lg_identity st = Some i" "lg_offset st \<le> length c" "polled_lines T i c st = (st', new)"
    "log_view st = log_view (record_lines T ls st0)"
  shows "log_view st' = log_view (record_lines T (ls @ new) st0)"
proof -
  have "log_view (fst (read_block (i, c) st)) = log_view st"
    using assms(1,2) by (simp add: read_block_def Let_def log_view_def)
  moreover have "st' = record_lines T new (fst (read_block (i, c) st))"
    using assms(3) by (auto simp: polled_lines_def poll_p01_def split: prod.splits)
  ultimately show ?thesis using assms(4) record_lines_view by (metis fold_append comp_apply)
qed

lemma recorded_run:
  "follows i n c ls st \<Longrightarrow> extends c cs \<Longrightarrow> log_view st = log_view (record_lines T ls st0) \<Longrightarrow>
   \<forall>p \<in> set (split_char (CHR 0x0A) (drop n (last (c # cs)))). length p \<le> 16384 \<Longrightarrow>
   run_emits (polled_lines T i) cs st = (st', new) \<Longrightarrow> log_view st' = log_view (record_lines T (ls @ new) st0)"
proof (induction cs arbitrary: c ls st new)
  case (Cons d ds)
  obtain st1 l1 where one: "polled_lines T i d st = (st1, l1)" by fastforce
  obtain st2 l2 where rest: "run_emits (polled_lines T i) ds st1 = (st2, l2)" by fastforce
  have res: "st' = st2" "new = l1 @ l2" using Cons.prems(5) one rest by simp_all
  have fd: "follows i n d ls st" using follows_extend[OF Cons.prems(1)] Cons.prems(2) by simp
  then have nd: "lg_identity st = Some i" "lg_offset st \<le> length d" "n \<le> length d" by (auto simp: follows_def)
  obtain m where m: "last (d # ds) = d @ m" using extends_last[of d ds] Cons.prems(2) by auto
  have short: "\<forall>p \<in> set (split_char (CHR 0x0A) (drop n d)). length p \<le> 16384"
    using Cons.prems(4) short_prefix[of "CHR 0x0A" "drop n d" m 16384] m nd by simp
  have "log_view st1 = log_view (record_lines T (ls @ l1) st0)" by (rule poll_view[OF nd(1,2) one Cons.prems(3)])
  then have "log_view st2 = log_view (record_lines T ((ls @ l1) @ l2) st0)"
    using Cons.IH[OF conjunct1[OF follows_poll[OF fd short one]] _ _ _ rest[folded res(1)]] res(1) Cons.prems(2,4) by simp
  then show ?case using res by simp
qed simp

subsection \<open>What a line is on the record\<close>

text \<open>The time, its canonical text and the rest of a line that begins with a time with a zone; no other line is kept.\<close>

definition stamped_line :: "read_stamp \<Rightarrow> string \<Rightarrow> (int \<times> string \<times> string) option" where
  "stamped_line T raw =
     (let stamp = takeWhile (\<lambda>c. c \<noteq> CHR '' '') raw in
      case T stamp of Inr (t, zoned, canon) \<Rightarrow> if zoned then Some (t, canon, drop (Suc (length stamp)) raw) else None | Inl e \<Rightarrow> None)"

definition line_rows :: "p01_event list \<Rightarrow> (int \<times> string \<times> string) list" where
  "line_rows rs = map (\<lambda>r. (pe_time r, pe_emitted r, pe_text r)) rs"

definition acts :: "string set \<Rightarrow> int \<times> string \<times> string \<Rightarrow> bool" where
  "acts names x \<longleftrightarrow> fst (line_action (snd (snd x))) \<in> names"

lemma rows_push: "line_rows (push_bounded n x xs) = take_end n (line_rows xs @ [(pe_time x, pe_emitted x, pe_text x)])"
  by (cases n) (simp_all add: line_rows_def push_bounded_def take_end_def Let_def drop_map)

lemma take_end_short: "length xs \<le> n \<Longrightarrow> take_end n xs = xs"
  by (simp add: take_end_def)

lemma take_end_again: "take_end n (take_end n xs @ ys) = take_end n (xs @ ys)"
  by (cases "length xs \<le> n") (auto simp: take_end_def add.commute)

lemma record_line_rows:
  "line_rows (lg_events (record_line T raw st)) =
     (case stamped_line T raw of None \<Rightarrow> line_rows (lg_events st) | Some x \<Rightarrow> take_end 200 (line_rows (lg_events st) @ [x]))"
  "line_rows (lg_intents (record_line T raw st)) =
     (case stamped_line T raw of
        Some x \<Rightarrow> if acts {''INTENT''} x then take_end 200 (line_rows (lg_intents st) @ [x]) else line_rows (lg_intents st)
      | None \<Rightarrow> line_rows (lg_intents st))"
  "line_rows (lg_releases (record_line T raw st)) =
     (case stamped_line T raw of
        Some x \<Rightarrow> if acts {''RELEASE'', ''CLOSE_CANCEL_INTENT''} x then take_end 200 (line_rows (lg_releases st) @ [x]) else line_rows (lg_releases st)
      | None \<Rightarrow> line_rows (lg_releases st))"
  by (simp_all add: record_line_def stamped_line_def Let_def rows_push acts_def split_beta split: sum.split)

lemma fold_kept:
  assumes "\<And>l st. g (step l st) = (case pick l of Some x \<Rightarrow> if P x then take_end n (g st @ [x]) else g st | None \<Rightarrow> g st)"
    "length (g st) \<le> n"
  shows "g (fold step ls st) = take_end n (g st @ filter P (List.map_filter pick ls))"
proof (induction ls rule: rev_induct)
  case Nil
  then show ?case using assms(2) by (simp add: take_end_short map_filter_simps)
next
  case (snoc l ls)
  then show ?case by (simp add: assms(1) map_filter_def take_end_again split: option.split)
qed

subsection \<open>Property\<close>

text \<open>
  C39: the P01 log is followed exactly. The polls start at the end of the file, which then only grows, and no
  line is longer than 16384 bytes. Wherever reads and writes were cut: the bytes read behind the start are
  complete lines and a pending rest; the feed holds the newest 200 of its rows and of those lines that begin
  with a time with a zone, each once and in their order; the intents and the releases waiting to be taken
  are those lines among them that say so; the labels are what recording these lines one by one leaves. A poll
  that comes when at most 65536 bytes were written leaves none of them unread.
\<close>

theorem p01_lines_once:
  assumes "extends c0 cs" "length (lg_events st) \<le> 200"
    and "st' = fold (\<lambda>c st. snd (poll_p01 T (Some (i, c)) st)) cs (start_p01 (Some (i, c0)) st)"
    and "\<forall>p \<in> set (split_char (CHR 0x0A) (drop (length c0) (last (c0 # cs)))). length p \<le> 16384"
  shows "\<exists>lines. split_char (CHR 0x0A) (take (lg_offset st' - length c0) (drop (length c0) (last (c0 # cs)))) = lines @ [lg_pending st'] \<and>
         (let stamped = List.map_filter (\<lambda>l. stamped_line T (strip l)) lines in
            line_rows (lg_events st') = take_end 200 (line_rows (lg_events st) @ stamped) \<and>
            line_rows (lg_intents st') = take_end 200 (filter (acts {''INTENT''}) stamped) \<and>
            line_rows (lg_releases st') = take_end 200 (filter (acts {''RELEASE'', ''CLOSE_CANCEL_INTENT''}) stamped) \<and>
            lg_labels st' = lg_labels (fold (\<lambda>l. record_line T (strip l)) lines (start_p01 (Some (i, c0)) st))) \<and>
         (cs \<noteq> [] \<and> length (last (c0 # cs)) \<le> length c0 + 65536 \<longrightarrow> lg_offset st' = length (last (c0 # cs)))"
proof -
  let ?s0 = "start_p01 (Some (i, c0)) st"
  obtain x lines where r: "run_emits (polled_lines T i) cs ?s0 = (x, lines)" by fastforce
  have x: "x = st'" using run_emits_fold[of "polled_lines T i" cs ?s0] r assms(3) by (simp add: polled_lines_def)
  have f0: "follows i (length c0) c0 [] ?s0" by (simp add: follows_def start_p01_def)
  have read: "split_char (CHR 0x0A) (take (lg_offset st' - length c0) (drop (length c0) (last (c0 # cs)))) = lines @ [lg_pending st']"
    "cs \<noteq> [] \<and> length (last (c0 # cs)) \<le> length c0 + 65536 \<longrightarrow> lg_offset st' = length (last (c0 # cs))"
    using follows_run[OF f0 assms(1,4) r] by (auto simp: x follows_def min_def split: if_splits)
  have "take_end 16384 l = l" if "l \<in> set lines" for l
  proof (rule take_end_short, rule short_prefix)
    show "\<forall>p \<in> set (split_char (CHR 0x0A) (take (lg_offset st' - length c0) (drop (length c0) (last (c0 # cs))) @
        drop (lg_offset st' - length c0) (drop (length c0) (last (c0 # cs))))). length p \<le> 16384"
      using assms(4) unfolding append_take_drop_id .
    show "l \<in> set (split_char (CHR 0x0A) (take (lg_offset st' - length c0) (drop (length c0) (last (c0 # cs)))))"
      using that unfolding read(1) by simp
  qed
  then have whole: "record_lines T lines ?s0 = fold (\<lambda>l. record_line T (strip l)) lines ?s0" by (intro fold_cong) simp_all
  define s1 where "s1 = fold (\<lambda>l. record_line T (strip l)) lines ?s0"
  have "log_view st' = log_view s1"
    using recorded_run[OF f0 assms(1) _ assms(4) r, where ?st0.0 = ?s0] by (simp add: x whole s1_def)
  then have same: "lg_labels st' = lg_labels s1" "lg_events st' = lg_events s1" "lg_intents st' = lg_intents s1" "lg_releases st' = lg_releases s1"
    by (simp_all add: log_view_def)
  have s0: "lg_events ?s0 = lg_events st" "lg_intents ?s0 = []" "lg_releases ?s0 = []" by (simp_all add: start_p01_def)
  have "line_rows (lg_events s1) = take_end 200 (line_rows (lg_events ?s0) @ filter (\<lambda>_. True) (List.map_filter (\<lambda>l. stamped_line T (strip l)) lines))"
    unfolding s1_def by (rule fold_kept) (use assms(2) in \<open>simp_all add: record_line_rows s0 line_rows_def[of "lg_events st"] split: option.split\<close>)
  moreover have "line_rows (lg_intents s1) = take_end 200 (line_rows (lg_intents ?s0) @ filter (acts {''INTENT''}) (List.map_filter (\<lambda>l. stamped_line T (strip l)) lines))"
    unfolding s1_def by (rule fold_kept) (simp_all add: record_line_rows s0 line_rows_def[of "[]"])
  moreover have "line_rows (lg_releases s1) = take_end 200 (line_rows (lg_releases ?s0) @
      filter (acts {''RELEASE'', ''CLOSE_CANCEL_INTENT''}) (List.map_filter (\<lambda>l. stamped_line T (strip l)) lines))"
    unfolding s1_def by (rule fold_kept) (simp_all add: record_line_rows s0 line_rows_def[of "[]"])
  ultimately show ?thesis
    using read same by (intro exI[of _ lines]) (simp add: Let_def s0 s1_def line_rows_def[of "[]"])
qed

text \<open>The queues are bounded, the pending rest and what a rotation replays as well.\<close>

lemma poll_bounded:
  assumes "length (lg_events st) \<le> 200" "length (lg_intents st) \<le> 200" "length (lg_releases st) \<le> 200" "length (lg_labels st) \<le> 200"
  shows "length (lg_events (record_line T raw st)) \<le> 200 \<and> length (lg_intents (record_line T raw st)) \<le> 200 \<and>
     length (lg_releases (record_line T raw st)) \<le> 200 \<and> length (lg_labels (record_line T raw st)) \<le> 200"
  using assms by (cases "T (takeWhile (\<lambda>c. c \<noteq> CHR '' '') raw)") (simp_all add: record_line_def Let_def remember_label_def split_beta push_bounded_length)

definition small_stamp :: read_stamp where
  "small_stamp s = Inr (7, True, s)"

theorem p01_lines_once_witness:
  "line_rows (lg_events (fold (\<lambda>c st. snd (poll_p01 small_stamp (Some (3, c)) st))
       [''old'' @ [CHR 0x0A] @ ''t n'', ''old'' @ [CHR 0x0A] @ ''t new'' @ [CHR 0x0A] @ ''x'']
       (start_p01 (Some (3, ''old'' @ [CHR 0x0A])) new_p01_log))) = [(7, ''t'', ''new'')]"
proof -
  let ?c = "''old'' @ [CHR 0x0A] @ ''t new'' @ [CHR 0x0A] @ ''x''"
  let ?run = "fold (\<lambda>c st. snd (poll_p01 small_stamp (Some (3, c)) st)) [''old'' @ [CHR 0x0A] @ ''t n'', ?c]
       (start_p01 (Some (3, ''old'' @ [CHR 0x0A])) new_p01_log)"
  obtain lines where l: "split_char (CHR 0x0A) (take (lg_offset ?run - 4) (drop 4 ?c)) = lines @ [lg_pending ?run]"
    "line_rows (lg_events ?run) = take_end 200 (List.map_filter (\<lambda>l. stamped_line small_stamp (strip l)) lines)"
    "lg_offset ?run = 11"
    using p01_lines_once[of "''old'' @ [CHR 0x0A]" "[''old'' @ [CHR 0x0A] @ ''t n'', ?c]" new_p01_log ?run small_stamp 3, OF _ _ refl]
    by (auto simp: new_p01_log_def line_rows_def Let_def)
  then have "lines = [''t new'']" by (simp add: eval_nat_numeral)
  then show ?thesis unfolding l(2) by (simp add: map_filter_simps stamped_line_def small_stamp_def strip_def is_space_def take_end_def)
qed

end
