(* ===== verification/Streams.thy ===== *)
theory Streams
  imports Forwarder
begin

text \<open>
  The event streams of the dashboard server (dashboard/server.py: \<open>dashboard_sections\<close>,
  \<open>section_digest\<close>, \<open>stream_dashboard\<close>, \<open>stream_native\<close>): a slot per stream, one frame per turn of the
  loop, and the push of only those sections whose digest changed since the stream last sent them.
  The contents of a section are a type parameter, the digest of its JSON text is an argument.
\<close>

subsection \<open>Sections\<close>

datatype 'v dash_section = Section_fields "(string \<times> 'v) list" | Section_value 'v

record 'v panels =
  pn_status :: "(string \<times> 'v) list"
  pn_feed :: 'v
  pn_p01 :: "'v list"
  pn_signals :: "'v list"
  pn_mappings :: 'v
  pn_profiles :: "'v option"
  pn_controls :: 'v
  pn_paper :: 'v
  pn_verified :: 'v

text \<open>What the sections need of JSON: an array of rows, and the section of a server without profiles.\<close>

record 'v section_tools =
  sc_events :: "'v list \<Rightarrow> 'v"
  sc_no_profiles :: 'v

definition dashboard_sections :: "'v section_tools \<Rightarrow> 'v panels \<Rightarrow> 'v list \<Rightarrow> (string \<times> 'v dash_section) list" where
  "dashboard_sections T p events =
     [(''status'', Section_fields (pn_status p)),
      (''events'', Section_value (pn_feed p)),
      (''capture_events'', Section_value (sc_events T (events @ pn_p01 p @ pn_signals p))),
      (''mappings'', Section_value (pn_mappings p)),
      (''broker_profiles'', Section_value (case pn_profiles p of Some v \<Rightarrow> v | None \<Rightarrow> sc_no_profiles T)),
      (''copy_controls'', Section_value (pn_controls p)),
      (''paper_sends'', Section_value (pn_paper p)),
      (''verified_trades'', Section_value (pn_verified p))]"

definition without_clock :: "string \<Rightarrow> 'v dash_section \<Rightarrow> 'v dash_section" where
  "without_clock name s =
     (case s of Section_fields kvs \<Rightarrow>
        if name = ''status'' then Section_fields (filter (\<lambda>kv. fst kv \<noteq> ''server_time'') kvs) else s
      | Section_value _ \<Rightarrow> s)"

definition section_digest :: "('v dash_section \<Rightarrow> string) \<Rightarrow> string \<Rightarrow> 'v dash_section \<Rightarrow> string" where
  "section_digest H name s = H (without_clock name s)"

subsection \<open>One stream\<close>

record push_state =
  ps_revision :: int
  ps_sent :: "string \<rightharpoonup> string"

definition new_push :: push_state where
  "new_push = \<lparr>ps_revision = -1, ps_sent = Map.empty\<rparr>"

definition push_section ::
  "('v dash_section \<Rightarrow> string) \<Rightarrow> string \<times> 'v dash_section \<Rightarrow> (string \<rightharpoonup> string) \<times> (string \<times> 'v dash_section) list
     \<Rightarrow> (string \<rightharpoonup> string) \<times> (string \<times> 'v dash_section) list" where
  "push_section H ns = (\<lambda>(sent, payload).
     let (name, s) = ns; digest = section_digest H name s in
     if sent name = Some digest then (sent, payload)
     else (sent(name \<mapsto> digest), payload @ [(name, s)]))"

datatype 'p frame = Frame_data nat 'p | Frame_heartbeat

text \<open>
  One turn of \<open>stream_dashboard\<close>: the answer of the store, whether the server stops (which is looked at before
  and after the wait), and the panels at that time. None ends the stream.
\<close>

definition dashboard_turn ::
  "'v section_tools \<Rightarrow> ('v dash_section \<Rightarrow> string) \<Rightarrow> bool \<Rightarrow> 'v list stream_reply \<Rightarrow> 'v panels \<Rightarrow> push_state
     \<Rightarrow> (push_state \<times> (string \<times> 'v dash_section) list frame) option" where
  "dashboard_turn T H stopped reply p st =
     (if stopped then None else
      case reply of
        Stream_closed \<Rightarrow> None
      | Heartbeat r \<Rightarrow> Some (st\<lparr>ps_revision := int r\<rparr>, Frame_heartbeat)
      | Stream_events r events \<Rightarrow>
          let (sent, payload) = fold (push_section H) (dashboard_sections T p events) (ps_sent st, []) in
          Some (\<lparr>ps_revision = int r, ps_sent = sent\<rparr>,
                if payload \<noteq> [] then Frame_data r payload else Frame_heartbeat))"

text \<open>
  One turn of \<open>stream_native\<close>: the rows of the store, followed by those of the P01 log and of the
  source signals unless it is the stream of the raw log.
\<close>

definition native_turn ::
  "bool \<Rightarrow> bool \<Rightarrow> 'v list stream_reply \<Rightarrow> 'v panels \<Rightarrow> int \<Rightarrow> (int \<times> 'v list frame) option" where
  "native_turn raw stopped reply p revision =
     (if stopped then None else
      case reply of
        Stream_closed \<Rightarrow> None
      | Heartbeat r \<Rightarrow> Some (int r, Frame_heartbeat)
      | Stream_events r events \<Rightarrow>
          Some (int r, Frame_data r (if raw then events else events @ pn_p01 p @ pn_signals p)))"

text \<open>The streams share eight slots; a ninth is refused with 503.\<close>

definition take_slot :: "nat \<Rightarrow> nat res" where
  "take_slot busy = (if busy < 8 then Inr (busy + 1) else Inl (value_error ''Too many open event streams''))"

definition free_slot :: "nat \<Rightarrow> nat" where
  "free_slot busy = busy - 1"

subsection \<open>The loop\<close>

text \<open>
  What the surroundings give to a turn: the stop event, whether the store is closed, its journal at the end of the wait
  and the panels.
\<close>

record 'v turn =
  tn_stopped :: bool
  tn_shut :: bool
  tn_journal :: journal
  tn_panels :: "'v panels"

definition reply_rows :: "(feed_item \<Rightarrow> 'v) \<Rightarrow> feed_item list stream_reply \<Rightarrow> 'v list stream_reply" where
  "reply_rows J reply =
     (case reply of Stream_closed \<Rightarrow> Stream_closed | Heartbeat r \<Rightarrow> Heartbeat r
      | Stream_events r items \<Rightarrow> Stream_events r (map J items))"

fun stream_dashboard ::
  "'v section_tools \<Rightarrow> ('v dash_section \<Rightarrow> string) \<Rightarrow> (feed_item \<Rightarrow> 'v) \<Rightarrow> 'v turn list \<Rightarrow> push_state
     \<Rightarrow> (string \<times> 'v dash_section) list frame list" where
  "stream_dashboard T H J [] st = []"
| "stream_dashboard T H J (t # ts) st =
     (case dashboard_turn T H (tn_stopped t)
             (reply_rows J (stream_snapshot (ps_revision st) (tn_shut t) (tn_journal t))) (tn_panels t) st of
        None \<Rightarrow> []
      | Some (st', frame) \<Rightarrow> frame # stream_dashboard T H J ts st')"

subsection \<open>What a reader knows\<close>

text \<open>
  The specification: the same turns sending every section whenever the store has something new, without
  digests, and a reader which keeps the last section of each name.
\<close>

fun send_everything ::
  "'v section_tools \<Rightarrow> (feed_item \<Rightarrow> 'v) \<Rightarrow> 'v turn list \<Rightarrow> int \<Rightarrow> (string \<times> 'v dash_section) list frame list" where
  "send_everything T J [] seen = []"
| "send_everything T J (t # ts) seen =
     (if tn_stopped t then [] else
      case stream_snapshot seen (tn_shut t) (tn_journal t) of
        Stream_closed \<Rightarrow> []
      | Heartbeat r \<Rightarrow> Frame_heartbeat # send_everything T J ts (int r)
      | Stream_events r items \<Rightarrow>
          Frame_data r (dashboard_sections T (tn_panels t) (map J items)) # send_everything T J ts (int r))"

definition keep :: "string \<times> 'v dash_section \<Rightarrow> (string \<rightharpoonup> 'v dash_section) \<Rightarrow> (string \<rightharpoonup> 'v dash_section)" where
  "keep ns view = view(fst ns \<mapsto> snd ns)"

definition read_frame :: "(string \<times> 'v dash_section) list frame \<Rightarrow> (string \<rightharpoonup> 'v dash_section) \<Rightarrow> (string \<rightharpoonup> 'v dash_section)" where
  "read_frame f view = (case f of Frame_data _ sections \<Rightarrow> fold keep sections view | Frame_heartbeat \<Rightarrow> view)"

definition digest_view :: "('v dash_section \<Rightarrow> string) \<Rightarrow> (string \<rightharpoonup> 'v dash_section) \<Rightarrow> (string \<rightharpoonup> string)" where
  "digest_view H view = (\<lambda>name. map_option (section_digest H name) (view name))"

lemma push_section_pair [simp]:
  "push_section H (name, s) (sent, payload) =
     (if sent name = Some (section_digest H name s) then (sent, payload)
      else (sent(name \<mapsto> section_digest H name s), payload @ [(name, s)]))"
  by (simp add: push_section_def Let_def)

lemma digest_view_keep: "digest_view H (keep (name, s) view) = (digest_view H view)(name \<mapsto> section_digest H name s)"
  by (auto simp: digest_view_def keep_def)

text \<open>The pass over the sections: what was pushed, read over a view known in digest, gives the whole list's view in digest.\<close>

lemma push_sections_view:
  assumes "fold (push_section H) sections (sent0, payload0) = (sent, payload)"
    and "digest_view H (fold keep payload0 view) = sent0" "digest_view H full = sent0"
  shows "digest_view H (fold keep payload view) = sent \<and> digest_view H (fold keep sections full) = sent"
  using assms
proof (induction sections arbitrary: sent0 payload0 full)
  case Nil
  then show ?case by simp
next
  case (Cons ns sections)
  obtain name s where ns: "ns = (name, s)" by fastforce
  let ?d = "section_digest H name s"
  show ?case
  proof (cases "sent0 name = Some ?d")
    case True
    then have same: "sent0(name \<mapsto> ?d) = sent0" by (rule map_upd_triv)
    have "fold (push_section H) sections (sent0, payload0) = (sent, payload)"
      using Cons.prems(1) True by (simp add: ns)
    from Cons.IH[OF this Cons.prems(2), of "keep ns full"] same Cons.prems(3) show ?thesis
      by (simp add: ns digest_view_keep)
  next
    case False
    then have "fold (push_section H) sections (sent0(name \<mapsto> ?d), payload0 @ [ns]) = (sent, payload)"
      using Cons.prems(1) by (simp add: ns)
    from Cons.IH[OF this, of "keep ns full"] Cons.prems(2,3) show ?thesis
      by (simp add: ns digest_view_keep)
  qed
qed

lemma stream_follows:
  assumes "digest_view H view = ps_sent st" "digest_view H full = ps_sent st"
  shows "digest_view H (fold read_frame (stream_dashboard T H J ts st) view) =
         digest_view H (fold read_frame (send_everything T J ts (ps_revision st)) full)"
  using assms
proof (induction ts arbitrary: st view full)
  case Nil
  then show ?case by simp
next
  case (Cons t ts)
  let ?reply = "stream_snapshot (ps_revision st) (tn_shut t) (tn_journal t)"
  show ?case
  proof (cases "tn_stopped t")
    case True
    then show ?thesis using Cons.prems by (simp add: dashboard_turn_def)
  next
    case live: False
    show ?thesis
    proof (cases ?reply)
      case Stream_closed
      then show ?thesis using Cons.prems live by (simp add: dashboard_turn_def reply_rows_def)
    next
      case (Heartbeat r)
      then show ?thesis using Cons.IH[of view "st\<lparr>ps_revision := int r\<rparr>" full] Cons.prems live
        by (simp add: dashboard_turn_def reply_rows_def read_frame_def)
    next
      case (Stream_events r items)
      let ?sections = "dashboard_sections T (tn_panels t) (map J items)"
      obtain sent payload where push: "fold (push_section H) ?sections (ps_sent st, []) = (sent, payload)" by fastforce
      have known: "digest_view H (fold keep payload view) = sent" "digest_view H (fold keep ?sections full) = sent"
        using push_sections_view[OF push, of view full] Cons.prems by simp_all
      from Cons.IH[of "fold keep payload view" "\<lparr>ps_revision = int r, ps_sent = sent\<rparr>" "fold keep ?sections full"]
      show ?thesis using known live Stream_events
        by (cases "payload = []") (simp_all add: dashboard_turn_def reply_rows_def read_frame_def push)
    qed
  qed
qed

text \<open>
  C36: The push stream of the dashboard leaves its reader where a stream of everything would. Over any turns, with
  any changes of the store and of the panels between them, up to the end of the stream, the reader that was
  sent only the sections whose digest changed and the reader that was sent every section at every change know,
  for each name, sections of the same digest (which for the status leaves out the server's clock).
\<close>

theorem pushed_view_is_current:
  "digest_view H (fold read_frame (stream_dashboard T H J turns new_push) Map.empty) =
   digest_view H (fold read_frame (send_everything T J turns (-1)) Map.empty)"
  using stream_follows[of H Map.empty new_push Map.empty T J turns]
  by (simp add: new_push_def digest_view_def)

text \<open>A status that differs in its clock only is not sent again.\<close>

lemma clock_is_no_change:
  assumes "filter (\<lambda>kv. fst kv \<noteq> ''server_time'') a = filter (\<lambda>kv. fst kv \<noteq> ''server_time'') b"
    and "sent ''status'' = Some (section_digest H ''status'' (Section_fields a))"
  shows "push_section H (''status'', Section_fields b) (sent, payload) = (sent, payload)"
  using assms by (simp add: section_digest_def without_clock_def)

text \<open>The slots never count past eight.\<close>

lemma slots_bounded: "take_slot busy = Inr busy' \<Longrightarrow> busy' \<le> 8 \<and> free_slot busy' = busy"
  by (auto simp: take_slot_def free_slot_def split: if_splits)

end
