(* ===== verification/LedgerReport.thy ===== *)
theory LedgerReport
  imports LedgerTail DecimalText TradeSnapshot
begin

text \<open>
  The comparison of the R01 ledger with a broker's export of closed trades (scripts/reconcile_r01.py): the rows of
  the ledger within their episodes and brackets, the trades of the export, the candidates of each trade and the
  report. The rows are those the CSV readers yield.
\<close>

subsection \<open>The ledger\<close>

record r01_event =
  rv_line :: nat
  rv_time :: int
  rv_cells :: "(string \<times> string option) list"
  rv_entry :: decimal
  rv_sl :: decimal
  rv_tp :: decimal

text \<open>A cell of a row: its column may be missing, and a short row has columns without a value.\<close>

definition find_cell :: "(string \<times> string option) list \<Rightarrow> string \<Rightarrow> string option option" where
  "find_cell cells k = map_of (rev cells) k"

definition cell :: "r01_event \<Rightarrow> string \<Rightarrow> string option" where
  "cell e k = (case find_cell (rv_cells e) k of Some v \<Rightarrow> v | None \<Rightarrow> None)"

text \<open>The instant of a text, which must have an offset; reading the text is an argument.\<close>

type_synonym read_instant = "string \<Rightarrow> (int \<times> bool) res"

definition utc :: "read_instant \<Rightarrow> string \<Rightarrow> int res" where
  "utc T s = bindE (T s) (\<lambda>(t, zoned).
     if zoned then Inr t else Inl (value_error ''Source/window UTC timestamps must have offsets''))"

text \<open>
  One level of a row: None when the row is invalid. A value that a short row lacks makes the constructor raise a
  TypeError, which is not among the errors of an invalid row.
\<close>

definition finite_level :: "(string \<times> string option) list \<Rightarrow> string \<Rightarrow> decimal option res" where
  "finite_level cells k =
     (case find_cell cells k of
        None \<Rightarrow> Inr None
      | Some None \<Rightarrow> Inl (Exn ''TypeError'' ''conversion from NoneType to Decimal is not supported'' None)
      | Some (Some s) \<Rightarrow> (case volume_of_text s of Volume d \<Rightarrow> Inr (Some d) | _ \<Rightarrow> Inr None))"

definition and_then :: "'a option res \<Rightarrow> ('a \<Rightarrow> 'b option res) \<Rightarrow> 'b option res" where
  "and_then m f = bindE m (\<lambda>x. case x of None \<Rightarrow> Inr None | Some y \<Rightarrow> f y)"

definition load_row :: "read_instant \<Rightarrow> nat \<Rightarrow> ledger_record \<Rightarrow> r01_event option res" where
  "load_row T line r =
     (let cells = lr_fields r in
      case find_cell cells ''utc'' of
        None \<Rightarrow> Inr None
      | Some None \<Rightarrow> Inl (Exn ''AttributeError'' ''NoneType has no attribute replace'' None)
      | Some (Some s) \<Rightarrow>
          (case utc T s of
             Inl e \<Rightarrow> if is_value_error e then Inr None else Inl e
           | Inr t \<Rightarrow>
               and_then (finite_level cells ''entry'') (\<lambda>a.
               and_then (finite_level cells ''sl'') (\<lambda>b.
               and_then (finite_level cells ''tp'') (\<lambda>c.
                 Inr (Some \<lparr>rv_line = line, rv_time = t, rv_cells = cells, rv_entry = a, rv_sl = b, rv_tp = c\<rparr>))))))"

text \<open>The rows before the end with their numbers, and the numbers of the invalid ones.\<close>

fun load_rows :: "read_instant \<Rightarrow> int \<Rightarrow> nat \<Rightarrow> ledger_record list \<Rightarrow> (r01_event list \<times> nat list) res" where
  "load_rows T until line [] = Inr ([], [])"
| "load_rows T until line (r # rs) =
     bindE (load_row T line r) (\<lambda>x.
     bindE (load_rows T until (Suc line) rs) (\<lambda>(es, bad).
       Inr (case x of None \<Rightarrow> (es, line # bad) | Some e \<Rightarrow> (if rv_time e < until then e # es else es, bad))))"

definition ledger_rows :: "string list \<Rightarrow> string list list \<Rightarrow> ledger_record list" where
  "ledger_rows header rows = List.map_filter (\<lambda>row. case dict_row header row of Inr x \<Rightarrow> Some x | Inl _ \<Rightarrow> None) rows"

text \<open>In the order of time, then of lines: the sort is stable and the lines ascend.\<close>

definition load_ledger :: "read_instant \<Rightarrow> int \<Rightarrow> ledger_record list \<Rightarrow> (r01_event list \<times> nat list) res" where
  "load_ledger T until rows = bindE (load_rows T until 2 rows) (\<lambda>(es, bad). Inr (sort_key rv_time es, bad))"

subsection \<open>Episodes and brackets\<close>

record r01_episode =
  re_id :: nat
  re_intent :: "r01_event option"
  re_events :: "r01_event list"

record bracket_state =
  bs_first :: r01_event
  bs_episode :: nat

type_synonym label_key = "string option \<times> string option \<times> string option"

definition label_key :: "r01_event \<Rightarrow> label_key" where
  "label_key e = (cell e ''symbol'', cell e ''label'', cell e ''side'')"

definition is_intent :: "r01_event \<Rightarrow> bool" where
  "is_intent e \<longleftrightarrow> cell e ''kind'' = Some ''intent''"

definition has_bracket :: "r01_event \<Rightarrow> bool" where
  "has_bracket e \<longleftrightarrow> cell e ''kind'' \<in> Some ` {''intent'', ''regrade'', ''touched''}"

definition same_levels :: "r01_event \<Rightarrow> r01_event \<Rightarrow> bool" where
  "same_levels a b \<longleftrightarrow> deq (rv_entry a) (rv_entry b) \<and> deq (rv_sl a) (rv_sl b) \<and> deq (rv_tp a) (rv_tp b)"

record grouping =
  gr_episodes :: "r01_episode list"
  gr_active :: "label_key \<rightharpoonup> nat"
  gr_states :: "bracket_state list"

definition no_groups :: grouping where
  "no_groups = \<lparr>gr_episodes = [], gr_active = Map.empty, gr_states = []\<rparr>"

text \<open>An intent, or a label not seen before, opens an episode; a bracket is kept at its first event.\<close>

definition group_event :: "r01_event \<Rightarrow> grouping \<Rightarrow> grouping" where
  "group_event e g =
     (let k = label_key e; fresh = (is_intent e \<or> gr_active g k = None);
          i = (if fresh then rv_line e else the (gr_active g k));
          opened = (if fresh then [\<lparr>re_id = rv_line e, re_intent = (if is_intent e then Some e else None), re_events = []\<rparr>] else []);
          known = list_ex (\<lambda>s. bs_episode s = i \<and> same_levels (bs_first s) e) (gr_states g)
      in \<lparr>gr_episodes = tupdate (\<lambda>p. re_id p = i) (\<lambda>p. p\<lparr>re_events := re_events p @ [e]\<rparr>) (gr_episodes g @ opened),
          gr_active = (gr_active g)(k \<mapsto> i),
          gr_states = gr_states g @ (if has_bracket e \<and> \<not> known then [\<lparr>bs_first = e, bs_episode = i\<rparr>] else [])\<rparr>)"

definition state_columns :: "string list" where
  "state_columns = [''symbol'', ''label'', ''side'', ''kind'']"

definition states_from_events :: "r01_event list \<Rightarrow> grouping res" where
  "states_from_events events =
     (if list_ex (\<lambda>e. list_ex (\<lambda>k. find_cell (rv_cells e) k = None) state_columns) events
      then Inl (Exn ''KeyError'' ''column'' None) else Inr (fold group_event events no_groups))"

subsection \<open>The broker's export\<close>

record broker_trade =
  bt_id :: string
  bt_account :: "string option"
  bt_symbol :: string
  bt_side :: string
  bt_open_price :: string
  bt_stop :: string
  bt_target :: string
  bt_profit :: string

text \<open>A price of the export; infinite prices are left out.\<close>

definition column_level :: "string \<Rightarrow> decimal res" where
  "column_level s = (case volume_of_text s of Volume d \<Rightarrow> Inr d | _ \<Rightarrow> Inl (decimal_error ''InvalidOperation''))"

fun column_levels :: "string list \<Rightarrow> decimal list res" where
  "column_levels [] = Inr []"
| "column_levels (s # ss) = bindE (column_level s) (\<lambda>d. bindE (column_levels ss) (\<lambda>ds. Inr (d # ds)))"

definition is_trade :: "broker_trade \<Rightarrow> bool" where
  "is_trade t \<longleftrightarrow> starts_with ''W'' (bt_id t)"

definition broker_rows :: "broker_trade list \<Rightarrow> (broker_trade list \<times> decimal) res" where
  "broker_rows raw =
     (let trades = filter is_trade raw; footer = filter (\<lambda>t. \<not> is_trade t) raw in
      if trades = [] \<or> \<not> distinct (map bt_id trades)
      then Inl (value_error ''Expected nonempty, unique closed-trade IDs; inspect partial-close schema'')
      else if 1 < length footer then Inl (value_error ''Unexpected non-trade rows'')
      else bindE (column_levels (map bt_profit trades)) (\<lambda>ps.
        case footer of
          [] \<Rightarrow> Inr (trades, dsum ps)
        | f # _ \<Rightarrow> bindE (column_level (bt_profit f)) (\<lambda>p.
            if \<not> deq p (dsum ps) then Inl (value_error ''Trade profits do not reconcile with the export total'')
            else Inr (trades, dsum ps))))"

subsection \<open>Candidates\<close>

definition entry_tolerance :: decimal where
  "entry_tolerance = Dec 2 0"

definition level_tolerance :: decimal where
  "level_tolerance = Dec 1001 (-5)"

text \<open>The levels are read one after the other and only as far as they agree.\<close>

definition close_levels :: "broker_trade \<Rightarrow> r01_event \<Rightarrow> bool res" where
  "close_levels t e =
     bindE (column_level (bt_open_price t)) (\<lambda>a.
     if \<not> dle (dabs (dsub (rv_entry e) a)) entry_tolerance then Inr False
     else bindE (column_level (bt_stop t)) (\<lambda>b.
     if \<not> dlt (dabs (dsub (rv_sl e) b)) level_tolerance then Inr False
     else bindE (column_level (bt_target t)) (\<lambda>c. Inr (dlt (dabs (dsub (rv_tp e) c)) level_tolerance))))"

fun close_states :: "broker_trade \<Rightarrow> string \<Rightarrow> bracket_state list \<Rightarrow> bracket_state list res" where
  "close_states t side [] = Inr []"
| "close_states t side (s # ss) =
     (if cell (bs_first s) ''symbol'' = Some (bt_symbol t) \<and> cell (bs_first s) ''side'' = Some side
      then bindE (close_levels t (bs_first s)) (\<lambda>b. bindE (close_states t side ss) (\<lambda>r. Inr (if b then s # r else r)))
      else close_states t side ss)"

definition trade_sides :: "(string \<times> string) list" where
  "trade_sides = [(''BUY'', ''long''), (''SELL'', ''short'')]"

definition candidates :: "broker_trade \<Rightarrow> bracket_state list \<Rightarrow> bracket_state list res" where
  "candidates t states =
     (case map_of trade_sides (bt_side t) of
        None \<Rightarrow> Inl (Exn ''KeyError'' (bt_side t) None)
      | Some side \<Rightarrow> close_states t side states)"

subsection \<open>The report\<close>

record match_row =
  mw_trade :: broker_trade
  mw_match :: string
  mw_count :: nat
  mw_label :: string
  mw_intent_utc :: string
  mw_state :: "bracket_state option"
  mw_differences :: "(decimal \<times> decimal \<times> decimal) option"
  mw_cancellations :: "string list"
  mw_touches :: "string list"
  mw_outcome :: string

definition match_name :: "nat \<Rightarrow> string" where
  "match_name n =
     (if n = 1 then ''Unique level candidate'' else if n \<noteq> 0 then ''Ambiguous level candidates'' else ''No level candidate'')"

definition outcome_name :: "decimal \<Rightarrow> string" where
  "outcome_name p = (if dlt dzero p then ''WIN'' else if dlt p dzero then ''LOSS'' else ''BREAKEVEN'')"

text \<open>The events of a kind in an episode from an event's time on.\<close>

definition later_events :: "string \<Rightarrow> r01_event \<Rightarrow> r01_episode \<Rightarrow> string list" where
  "later_events kind e p =
     map (\<lambda>x. opt_str (cell x ''utc'')) (filter (\<lambda>x. cell x ''kind'' = Some kind \<and> rv_time e \<le> rv_time x) (re_events p))"

definition blank_row :: "broker_trade \<Rightarrow> nat \<Rightarrow> decimal \<Rightarrow> match_row" where
  "blank_row t n profit =
     \<lparr>mw_trade = t, mw_match = match_name n, mw_count = n, mw_label = [], mw_intent_utc = [], mw_state = None,
      mw_differences = None, mw_cancellations = [], mw_touches = [], mw_outcome = outcome_name profit\<rparr>"

definition unique_row :: "r01_episode list \<Rightarrow> bracket_state \<Rightarrow> match_row \<Rightarrow> match_row res" where
  "unique_row eps s row =
     (let e = bs_first s; t = mw_trade row in
      case find (\<lambda>p. re_id p = bs_episode s) eps of
        None \<Rightarrow> Inl (Exn ''KeyError'' ''episode'' None)
      | Some p \<Rightarrow>
          bindE (column_level (bt_open_price t)) (\<lambda>a.
          bindE (column_level (bt_stop t)) (\<lambda>b.
          bindE (column_level (bt_target t)) (\<lambda>c.
            Inr (row\<lparr>mw_label := opt_str (cell e ''label''),
                     mw_intent_utc := (case re_intent p of None \<Rightarrow> [] | Some i \<Rightarrow> opt_str (cell i ''utc'')),
                     mw_state := Some s,
                     mw_differences := Some (dsub a (rv_entry e), dsub b (rv_sl e), dsub c (rv_tp e)),
                     mw_cancellations := later_events ''cancelled'' e p, mw_touches := later_events ''touched'' e p\<rparr>)))))"

definition match_trade :: "grouping \<Rightarrow> broker_trade \<Rightarrow> (match_row \<times> bracket_state list) res" where
  "match_trade g t =
     bindE (candidates t (gr_states g)) (\<lambda>possible.
     bindE (column_level (bt_profit t)) (\<lambda>profit.
       let row = blank_row t (length possible) profit in
       case possible of
         [s] \<Rightarrow> bindE (unique_row (gr_episodes g) s row) (\<lambda>r. Inr (r, possible))
       | _ \<Rightarrow> Inr (row, possible)))"

fun match_trades :: "grouping \<Rightarrow> broker_trade list \<Rightarrow> (match_row \<times> bracket_state list) list res" where
  "match_trades g [] = Inr []"
| "match_trades g (t # ts) = bindE (match_trade g t) (\<lambda>m. bindE (match_trades g ts) (\<lambda>ms. Inr (m # ms)))"

text \<open>\<open>Counter\<close>: the values in the order they were first seen, with their numbers.\<close>

definition tally :: "'a list \<Rightarrow> ('a \<times> nat) list" where
  "tally xs = map (\<lambda>x. (x, count_list xs x)) (rev (remdups (rev xs)))"

record r01_report =
  lp_rows :: "match_row list"
  lp_alternatives :: "(string \<times> nat \<times> nat) list"
  lp_window :: "r01_event list"
  lp_unmatched :: "r01_event list"
  lp_total :: decimal
  lp_wins :: nat
  lp_losses :: nat
  lp_breakevens :: nat
  lp_matches :: "(string \<times> nat) list"
  lp_kinds :: "(string option \<times> nat) list"
  lp_invalid :: "nat list"

definition used_episodes :: "(match_row \<times> bracket_state list) list \<Rightarrow> nat list" where
  "used_episodes ms = concat (map (\<lambda>(r, ss). map bs_episode ss) ms)"

definition make_report ::
  "int \<Rightarrow> int \<Rightarrow> r01_event list \<Rightarrow> nat list \<Rightarrow> decimal \<Rightarrow> (match_row \<times> bracket_state list) list \<Rightarrow> r01_report" where
  "make_report start until events invalid net ms =
     (let rows = map fst ms; window = filter (\<lambda>e. start \<le> rv_time e \<and> rv_time e < until) events;
          count = (\<lambda>name. length (filter (\<lambda>r. mw_outcome r = name) rows)) in
      \<lparr>lp_rows = rows,
       lp_alternatives = concat (map (\<lambda>(r, ss). map (\<lambda>s. (bt_id (mw_trade r), bs_episode s, rv_line (bs_first s))) ss) ms),
       lp_window = window,
       lp_unmatched = filter (\<lambda>e. is_intent e \<and> rv_line e \<notin> set (used_episodes ms)) window,
       lp_total = net, lp_wins = count ''WIN'', lp_losses = count ''LOSS'', lp_breakevens = count ''BREAKEVEN'',
       lp_matches = tally (map mw_match rows), lp_kinds = tally (map (\<lambda>e. cell e ''kind'') window), lp_invalid = invalid\<rparr>)"

definition reconcile_r01 ::
  "read_instant \<Rightarrow> string \<Rightarrow> int \<Rightarrow> int \<Rightarrow> broker_trade list \<Rightarrow> ledger_record list \<Rightarrow> r01_report res" where
  "reconcile_r01 T account start until raw rows =
     bindE (broker_rows raw) (\<lambda>(trades, net).
     if list_ex (\<lambda>t. case bt_account t of None \<Rightarrow> False | Some a \<Rightarrow> a \<noteq> account) trades
     then Inl (value_error ''Broker export account differs from requested account'')
     else bindE (load_ledger T until rows) (\<lambda>(events, invalid).
     bindE (states_from_events events) (\<lambda>g.
     bindE (match_trades g trades) (\<lambda>ms. Inr (make_report start until events invalid net ms)))))"

subsection \<open>Reference: the event that opened the episode of another\<close>

text \<open>
  The last intent under a label, or else its first event; an intent opens an episode itself. \<open>placed\<close> pairs every
  event with its opener; a bracket is kept where its levels first occur under an opener.
\<close>

definition current :: "r01_event list \<Rightarrow> label_key \<Rightarrow> r01_event option" where
  "current before k =
     (let same = filter (\<lambda>x. label_key x = k) before; intents = filter is_intent same in
      if intents \<noteq> [] then Some (last intents) else (case same of [] \<Rightarrow> None | x # _ \<Rightarrow> Some x))"

definition opener :: "r01_event list \<Rightarrow> r01_event \<Rightarrow> r01_event" where
  "opener before e = (if is_intent e then e else case current before (label_key e) of None \<Rightarrow> e | Some x \<Rightarrow> x)"

definition placed :: "r01_event list \<Rightarrow> (r01_event \<times> r01_event) list" where
  "placed es = map (\<lambda>n. (opener (take n es) (es ! n), es ! n)) [0..<length es]"

fun keep_first :: "('a \<Rightarrow> 'a \<Rightarrow> bool) \<Rightarrow> 'a list \<Rightarrow> 'a list" where
  "keep_first R [] = []"
| "keep_first R (x # xs) = x # filter (\<lambda>y. \<not> R x y) (keep_first R xs)"

definition same_bracket :: "r01_event \<times> r01_event \<Rightarrow> r01_event \<times> r01_event \<Rightarrow> bool" where
  "same_bracket a b \<longleftrightarrow> fst a = fst b \<and> same_levels (snd a) (snd b)"

definition episode_at :: "r01_event list \<Rightarrow> r01_event \<Rightarrow> r01_episode" where
  "episode_at es e =
     \<lparr>re_id = rv_line e, re_intent = (if is_intent e then Some e else None),
      re_events = map snd (filter (\<lambda>x. fst x = e) (placed es))\<rparr>"

definition bracket_at :: "r01_event \<times> r01_event \<Rightarrow> bracket_state" where
  "bracket_at x = \<lparr>bs_first = snd x, bs_episode = rv_line (fst x)\<rparr>"

definition brackets :: "r01_event list \<Rightarrow> (r01_event \<times> r01_event) list" where
  "brackets es = keep_first same_bracket (filter (\<lambda>x. has_bracket (snd x)) (placed es))"

definition reference_groups :: "r01_event list \<Rightarrow> grouping" where
  "reference_groups es =
     \<lparr>gr_episodes = map (\<lambda>x. episode_at es (snd x)) (filter (\<lambda>x. fst x = snd x) (placed es)),
      gr_active = (\<lambda>k. map_option rv_line (current es k)),
      gr_states = map bracket_at (brackets es)\<rparr>"

lemma placed_snoc: "placed (es @ [e]) = placed es @ [(opener es e, e)]"
  by (auto simp: placed_def nth_append intro!: map_cong)

lemma current_snoc:
  "current (es @ [e]) k = (if label_key e = k \<and> (is_intent e \<or> current es k = None) then Some e else current es k)"
  by (auto simp: current_def Let_def split: list.splits)

lemma current_in: "current es k = Some x \<Longrightarrow> x \<in> set es"
proof -
  assume a: "current es k = Some x"
  show ?thesis
  proof (cases "filter is_intent (filter (\<lambda>x. label_key x = k) es) = []")
    case True
    with a obtain rest where f: "filter (\<lambda>x. label_key x = k) es = x # rest"
      by (auto simp: current_def Let_def split: list.splits)
    have "x \<in> set (filter (\<lambda>x. label_key x = k) es)" unfolding f by simp
    then show ?thesis by simp
  next
    case False
    with a have "x = last (filter is_intent (filter (\<lambda>x. label_key x = k) es))" by (simp add: current_def Let_def)
    with last_in_set[OF False] have "x \<in> set (filter is_intent (filter (\<lambda>x. label_key x = k) es))" by simp
    then show ?thesis by simp
  qed
qed

lemma opener_in: "opener es e \<in> insert e (set es)"
  by (auto simp: opener_def current_in split: option.splits)

lemma placed_in: "x \<in> set (placed es) \<Longrightarrow> fst x \<in> set es \<and> snd x \<in> set es"
proof (induction es rule: rev_induct)
  case (snoc e es)
  then show ?case using opener_in[of es e] by (auto simp: placed_snoc)
qed (simp add: placed_def)

lemma keep_first_subset: "set (keep_first R xs) \<subseteq> set xs"
  by (induction xs) auto

lemma keep_first_snoc:
  assumes trans: "\<And>a b c. R a b \<Longrightarrow> R b c \<Longrightarrow> R a c"
  shows "keep_first R (xs @ [x]) = keep_first R xs @ (if \<exists>y \<in> set (keep_first R xs). R y x then [] else [x])"
proof (induction xs)
  case (Cons y ys)
  then show ?case using trans by (auto simp: filter_empty_conv)
qed simp

lemma same_bracket_trans: "same_bracket a b \<Longrightarrow> same_bracket b c \<Longrightarrow> same_bracket a c"
  by (simp add: same_bracket_def same_levels_def deq_val)

lemma brackets_in: "x \<in> set (brackets es) \<Longrightarrow> x \<in> set (placed es)"
  using keep_first_subset[of same_bracket "filter (\<lambda>x. has_bracket (snd x)) (placed es)"] by (auto simp: brackets_def)

text \<open>One event: the groups of the code step as those of the reference, as long as lines are not repeated.\<close>

lemma group_step:
  assumes "distinct (map rv_line (es @ [e]))"
  shows "group_event e (reference_groups es) = reference_groups (es @ [e])"
proof -
  let ?o = "opener es e" and ?k = "label_key e"
  have new: "e \<notin> set es" using assms by auto
  have same: "rv_line x = rv_line y \<longleftrightarrow> x = y" if "x \<in> insert e (set es)" "y \<in> insert e (set es)" for x y
    by (rule inj_on_eq_iff[OF _ that]) (use assms in \<open>simp only: distinct_map list.set set_append Un_insert_right Un_empty_right\<close>)
  have fresh: "is_intent e \<or> map_option rv_line (current es ?k) = None \<longleftrightarrow> ?o = e"
    using new current_in[of es ?k] by (auto simp: opener_def split: option.splits)
  have place: "(if ?o = e then rv_line e else the (map_option rv_line (current es ?k))) = rv_line ?o"
    by (auto simp: opener_def split: option.splits if_splits)
  have active: "(\<lambda>k. map_option rv_line (current es k))(?k \<mapsto> rv_line ?o) = (\<lambda>k. map_option rv_line (current (es @ [e]) k))"
    by (rule ext) (auto simp: current_snoc opener_def split: option.splits)
  have "bs_episode (bracket_at y) = rv_line ?o \<and> same_levels (bs_first (bracket_at y)) e \<longleftrightarrow> same_bracket y (?o, e)"
    if "y \<in> set (brackets es)" for y
    using same[of "fst y" ?o] placed_in[OF brackets_in[OF that]] opener_in[of es e] by (simp add: bracket_at_def same_bracket_def)
  then have known: "list_ex (\<lambda>s. bs_episode s = rv_line ?o \<and> same_levels (bs_first s) e) (map bracket_at (brackets es)) \<longleftrightarrow>
      (\<exists>y \<in> set (brackets es). same_bracket y (?o, e))"
    by (simp add: list_ex_iff)
  have states: "map bracket_at (brackets es) @
      (if has_bracket e \<and> \<not> (\<exists>y \<in> set (brackets es). same_bracket y (?o, e)) then [\<lparr>bs_first = e, bs_episode = rv_line ?o\<rparr>] else [])
      = map bracket_at (brackets (es @ [e]))"
    by (simp add: brackets_def placed_snoc keep_first_snoc[OF same_bracket_trans] bracket_at_def)
  let ?add = "\<lambda>p. if re_id p = rv_line ?o then p\<lparr>re_events := re_events p @ [e]\<rparr> else p"
  have old: "?add (episode_at es (snd x)) = episode_at (es @ [e]) (snd x)" if "x \<in> set (placed es)" for x
    using same[of "snd x" ?o] opener_in[of es e] placed_in[OF that] by (auto simp: episode_at_def placed_snoc)
  have none: "filter (\<lambda>x. fst x = e) (placed es) = []" using placed_in[of _ es] new by (auto simp: filter_empty_conv)
  have opened: "episode_at (es @ [e]) e = \<lparr>re_id = rv_line e, re_intent = (if is_intent e then Some e else None), re_events = [e]\<rparr>"
    if "?o = e" using that none by (simp add: episode_at_def placed_snoc)
  have episodes: "tupdate (\<lambda>p. re_id p = rv_line ?o) (\<lambda>p. p\<lparr>re_events := re_events p @ [e]\<rparr>)
      (map (\<lambda>x. episode_at es (snd x)) (filter (\<lambda>x. fst x = snd x) (placed es)) @
       (if ?o = e then [\<lparr>re_id = rv_line e, re_intent = (if is_intent e then Some e else None), re_events = []\<rparr>] else []))
      = map (\<lambda>x. episode_at (es @ [e]) (snd x)) (filter (\<lambda>x. fst x = snd x) (placed (es @ [e])))"
  proof -
    have "map ?add (map (\<lambda>x. episode_at es (snd x)) (filter (\<lambda>x. fst x = snd x) (placed es)))
        = map (\<lambda>x. episode_at (es @ [e]) (snd x)) (filter (\<lambda>x. fst x = snd x) (placed es))"
      unfolding map_map by (rule map_cong[OF refl]) (simp only: comp_def set_filter mem_Collect_eq old)
    then show ?thesis using opened by (simp add: tupdate_def placed_snoc)
  qed
  show ?thesis
    by (simp only: group_event_def Let_def reference_groups_def grouping.simps fresh place active known states episodes)
qed

lemma groups_follow_reference:
  assumes "distinct (map rv_line es)"
  shows "fold group_event es no_groups = reference_groups es"
  using assms
proof (induction es rule: rev_induct)
  case Nil
  show ?case by (simp add: no_groups_def reference_groups_def placed_def brackets_def current_def fun_eq_iff)
next
  case (snoc e es)
  then show ?case using group_step[of es e] by simp
qed

subsection \<open>The report\<close>

lemma load_row_line: "load_row T line r = Inr (Some e) \<Longrightarrow> rv_line e = line"
  by (auto simp: load_row_def Let_def and_then_def err_simps split: option.splits sum.splits if_splits)

lemma load_rows_lines:
  "load_rows T until line rs = Inr (es, bad) \<Longrightarrow> distinct (map rv_line es) \<and> (\<forall>e \<in> set es. line \<le> rv_line e \<and> rv_time e < until)"
proof (induction rs arbitrary: line es bad)
  case (Cons r rs)
  then show ?case by (fastforce simp: err_simps split: option.splits if_splits dest: load_row_line)
qed simp

lemma load_ledger_lines:
  assumes "load_ledger T until rs = Inr (es, bad)"
  shows "distinct (map rv_line es)" "sorted (map rv_time es)"
  using assms load_rows_lines[of T until 2 rs] by (auto simp: load_ledger_def err_simps distinct_map)

lemma close_states_filter:
  "close_states t side ss = Inr rs \<Longrightarrow>
     rs = filter (\<lambda>s. cell (bs_first s) ''symbol'' = Some (bt_symbol t) \<and> cell (bs_first s) ''side'' = Some side \<and>
                    close_levels t (bs_first s) = Inr True) ss"
  by (induction ss arbitrary: rs) (auto simp: err_simps split: if_splits)

lemma unique_row_facts:
  "unique_row eps s row = Inr r \<Longrightarrow> mw_trade r = mw_trade row \<and> mw_count r = mw_count row \<and> mw_match r = mw_match row \<and>
     mw_outcome r = mw_outcome row \<and> mw_state r = Some s"
  by (auto simp: unique_row_def Let_def err_simps split: option.splits)

lemma match_trade_row:
  assumes "match_trade g t = Inr (r, ss)"
  shows "mw_trade r = t \<and> candidates t (gr_states g) = Inr ss \<and> mw_count r = length ss \<and> mw_match r = match_name (length ss) \<and>
    mw_state r = (case ss of [s] \<Rightarrow> Some s | _ \<Rightarrow> None) \<and> mw_outcome r \<in> {''WIN'', ''LOSS'', ''BREAKEVEN''}"
proof -
  obtain possible profit where c: "candidates t (gr_states g) = Inr possible" and
    m: "(case possible of
           [s] \<Rightarrow> bindE (unique_row (gr_episodes g) s (blank_row t (length possible) profit)) (\<lambda>r. Inr (r, possible))
         | _ \<Rightarrow> Inr (blank_row t (length possible) profit, possible)) = Inr (r, ss)"
    using assms by (simp only: match_trade_def Let_def bindE_Inr) blast
  have blank: "mw_outcome (blank_row t n profit) \<in> {''WIN'', ''LOSS'', ''BREAKEVEN''}" for n
    by (simp add: blank_row_def outcome_name_def)
  show ?thesis
  proof (cases "\<exists>s. possible = [s]")
    case True
    then obtain s where s: "possible = [s]" by blast
    from m have u: "unique_row (gr_episodes g) s (blank_row t 1 profit) = Inr r" and "ss = [s]" by (auto simp: s bindE_Inr)
    with unique_row_facts[OF u] c blank[of 1] s show ?thesis by (simp add: blank_row_def)
  next
    case False
    with m have "r = blank_row t (length possible) profit \<and> ss = possible" by (auto split: list.splits)
    with False c blank[of "length possible"] show ?thesis by (auto simp: blank_row_def split: list.splits)
  qed
qed

lemma match_trades_rows:
  assumes "match_trades g ts = Inr ms"
  shows "map (\<lambda>m. mw_trade (fst m)) ms = ts \<and> (\<forall>m \<in> set ms. match_trade g (mw_trade (fst m)) = Inr m)"
  using assms
proof (induction ts arbitrary: ms)
  case (Cons t ts)
  then obtain m ms' where m: "match_trade g t = Inr m" "match_trades g ts = Inr ms'" "ms = m # ms'" by (auto simp: err_simps)
  have "mw_trade (fst m) = t" using match_trade_row[of g t "fst m" "snd m"] m(1) by simp
  with m Cons.IH[OF m(2)] show ?case by simp
qed simp

lemma count_parts:
  "\<forall>x \<in> set xs. x \<in> {a, b, c} \<Longrightarrow> distinct [a, b, c] \<Longrightarrow>
     length (filter ((=) a) xs) + length (filter ((=) b) xs) + length (filter ((=) c) xs) = length xs"
  by (induction xs) auto

lemma tally_total: "sum_list (map snd (tally xs)) = length xs"
proof -
  have "sum_list (map snd (tally xs)) = sum_list (map (count_list xs) (rev (remdups (rev xs))))"
    by (simp add: tally_def comp_def)
  also have "\<dots> = sum (count_list xs) (set xs)" by (subst sum_list_distinct_conv_sum_set) simp_all
  also have "\<dots> = length xs" by (simp add: sum_count_set)
  finally show ?thesis .
qed

lemma broker_rows_trades: "broker_rows raw = Inr (ts, net) \<Longrightarrow> ts = filter is_trade raw"
  by (cases "filter (\<lambda>t. \<not> is_trade t) raw") (auto simp: broker_rows_def Let_def bindE_Inr split: if_splits)

lemma groups_of_ledger:
  assumes "load_ledger T until rows = Inr (events, invalid)" "states_from_events events = Inr g"
  shows "g = reference_groups events"
  using assms groups_follow_reference[OF load_ledger_lines(1)[OF assms(1)]] by (simp add: states_from_events_def split: if_splits)

lemma used_episodes_candidates:
  assumes "match_trades g ts = Inr ms"
  shows "i \<in> set (used_episodes ms) \<longleftrightarrow> (\<exists>t \<in> set ts. \<exists>ss. candidates t (gr_states g) = Inr ss \<and> i \<in> bs_episode ` set ss)"
proof -
  note rows = match_trades_rows[OF assms]
  have c: "candidates (mw_trade (fst m)) (gr_states g) = Inr (snd m)" if "m \<in> set ms" for m
    using match_trade_row[of g "mw_trade (fst m)" "fst m" "snd m"] rows that by simp
  have "set ts = (\<lambda>m. mw_trade (fst m)) ` set ms" using rows by (metis set_map)
  then show ?thesis using c by (auto simp: used_episodes_def split_beta)
qed

text \<open>
  C40: a report says what the two files show: it has one row for each closed trade of the export, in its order;
  a row's candidates are the brackets within the tolerances among those of the reference, where a bracket is kept
  once for each episode and set of levels and an episode is what its opener opened; a row is unique, and names its
  bracket, exactly when there is one candidate; the intents listed as unmatched are those of the window whose
  episode is a candidate of no trade; and wins, losses and breakevens, like the kinds of match, add up to the trades.
\<close>

theorem report_follows_evidence:
  assumes "reconcile_r01 T account start until raw rows = Inr rp"
  shows "\<exists>events invalid. load_ledger T until rows = Inr (events, invalid) \<and>
    map mw_trade (lp_rows rp) = filter is_trade raw \<and>
    (\<forall>r \<in> set (lp_rows rp). \<exists>ss. candidates (mw_trade r) (map bracket_at (brackets events)) = Inr ss \<and> mw_count r = length ss \<and>
       mw_match r = match_name (length ss) \<and> mw_state r = (case ss of [s] \<Rightarrow> Some s | _ \<Rightarrow> None)) \<and>
    set (lp_unmatched rp) = {e \<in> set events. is_intent e \<and> start \<le> rv_time e \<and> rv_time e < until \<and>
       \<not> (\<exists>t \<in> set (filter is_trade raw). \<exists>ss. candidates t (map bracket_at (brackets events)) = Inr ss \<and> rv_line e \<in> bs_episode ` set ss)} \<and>
    lp_wins rp + lp_losses rp + lp_breakevens rp = length (filter is_trade raw) \<and>
    sum_list (map snd (lp_matches rp)) = length (filter is_trade raw)"
proof -
  obtain trades net events invalid g ms where b: "broker_rows raw = Inr (trades, net)"
    and l: "load_ledger T until rows = Inr (events, invalid)" and g: "states_from_events events = Inr g"
    and m': "match_trades g trades = Inr ms" and rp: "rp = make_report start until events invalid net ms"
    using assms by (auto simp: reconcile_r01_def bindE_Inr split: if_splits)
  have m: "match_trades g (filter is_trade raw) = Inr ms" using m' broker_rows_trades[OF b] by simp
  note ms = match_trades_rows[OF m]
  have states: "gr_states g = map bracket_at (brackets events)" using groups_of_ledger[OF l g] by (simp add: reference_groups_def)
  have trades: "map mw_trade (map fst ms) = filter is_trade raw" using ms by (simp add: comp_def)
  have row: "candidates (mw_trade (fst x)) (gr_states g) = Inr (snd x) \<and> mw_count (fst x) = length (snd x) \<and>
      mw_match (fst x) = match_name (length (snd x)) \<and> mw_state (fst x) = (case snd x of [s] \<Rightarrow> Some s | _ \<Rightarrow> None) \<and>
      mw_outcome (fst x) \<in> {''WIN'', ''LOSS'', ''BREAKEVEN''}" if "x \<in> set ms" for x
    using match_trade_row[of g "mw_trade (fst x)" "fst x" "snd x"] ms that by simp
  have size: "length ms = length (filter is_trade raw)" using trades by (metis length_map)
  have wins: "lp_wins rp + lp_losses rp + lp_breakevens rp = length ms"
    using count_parts[of "map (mw_outcome \<circ> fst) ms" "''WIN''" "''LOSS''" "''BREAKEVEN''"] row
    by (simp add: rp make_report_def Let_def filter_map comp_def eq_commute)
  have unmatched: "set (lp_unmatched rp) = {e \<in> set events. is_intent e \<and> start \<le> rv_time e \<and> rv_time e < until \<and>
      \<not> (\<exists>t \<in> set (filter is_trade raw). \<exists>ss. candidates t (map bracket_at (brackets events)) = Inr ss \<and> rv_line e \<in> bs_episode ` set ss)}"
    unfolding rp make_report_def Let_def r01_report.simps set_filter used_episodes_candidates[OF m] states by blast
  have "\<forall>r \<in> set (lp_rows rp). \<exists>ss. candidates (mw_trade r) (map bracket_at (brackets events)) = Inr ss \<and> mw_count r = length ss \<and>
      mw_match r = match_name (length ss) \<and> mw_state r = (case ss of [s] \<Rightarrow> Some s | _ \<Rightarrow> None)"
    using row by (auto simp: rp make_report_def Let_def states)
  moreover have "map mw_trade (lp_rows rp) = filter is_trade raw" using trades by (simp add: rp make_report_def Let_def)
  moreover have "sum_list (map snd (lp_matches rp)) = length ms" by (simp add: rp make_report_def Let_def tally_total)
  ultimately show ?thesis using l unmatched wins size by auto
qed

definition sample_instant :: read_instant where
  "sample_instant s = Inr (int (length s), True)"

definition sample_ledger :: "ledger_record list" where
  "sample_ledger = ledger_rows [''utc'', ''kind'', ''label'', ''symbol'', ''side'', ''entry'', ''sl'', ''tp'']
     [[''ab'', ''intent'', ''L1'', ''XAU'', ''long'', ''100'', ''95'', ''110''],
      [''abc'', ''touched'', ''L1'', ''XAU'', ''long'', ''100'', ''95'', ''110''],
      [''abcd'', ''intent'', ''L2'', ''XAU'', ''short'', ''200'', ''205'', ''190'']]"

definition sample_export :: "broker_trade list" where
  "sample_export =
     [\<lparr>bt_id = ''W1'', bt_account = None, bt_symbol = ''XAU'', bt_side = ''BUY'', bt_open_price = ''100.5'', bt_stop = ''95.01'',
       bt_target = ''110'', bt_profit = ''-3.5''\<rparr>]"

definition sample_events :: "r01_event list" where
  "sample_events = (case load_ledger sample_instant 9 sample_ledger of Inl _ \<Rightarrow> [] | Inr (es, _) \<Rightarrow> es)"

definition sample_groups :: grouping where
  "sample_groups = fold group_event sample_events no_groups"

definition sample_matches :: "(match_row \<times> bracket_state list) list" where
  "sample_matches = (case match_trades sample_groups sample_export of Inl _ \<Rightarrow> [] | Inr ms \<Rightarrow> ms)"

theorem report_follows_evidence_witness:
  "\<exists>rp. reconcile_r01 sample_instant ''A'' 0 9 sample_export sample_ledger = Inr rp \<and>
     map mw_match (lp_rows rp) = [''Unique level candidate''] \<and> map rv_line (lp_unmatched rp) = [4] \<and>
     lp_wins rp + lp_losses rp + lp_breakevens rp = 1"
proof -
  obtain rp where report: "rp = make_report 0 9 sample_events [] (Dec (-35) (-1)) sample_matches" by simp
  have b: "broker_rows sample_export = Inr (sample_export, Dec (-35) (-1))" by code_simp
  have a: "\<not> list_ex (\<lambda>t. case bt_account t of None \<Rightarrow> False | Some a \<Rightarrow> a \<noteq> ''A'') sample_export" by code_simp
  have l: "load_ledger sample_instant 9 sample_ledger = Inr (sample_events, [])" by code_simp
  have "\<not> list_ex (\<lambda>e. list_ex (\<lambda>k. find_cell (rv_cells e) k = None) state_columns) sample_events" by code_simp
  then have g: "states_from_events sample_events = Inr sample_groups" by (simp only: states_from_events_def sample_groups_def if_False)
  have "case match_trades sample_groups sample_export of Inl _ \<Rightarrow> False
      | Inr ms \<Rightarrow> map (\<lambda>m. (mw_match (fst m), map bs_episode (snd m))) ms = [(''Unique level candidate'', [2])]"
    by code_simp
  then have m: "match_trades sample_groups sample_export = Inr sample_matches"
    and ms: "map (\<lambda>m. (mw_match (fst m), map bs_episode (snd m))) sample_matches = [(''Unique level candidate'', [2])]"
    by (simp_all add: sample_matches_def split: sum.splits)
  have rp: "reconcile_r01 sample_instant ''A'' 0 9 sample_export sample_ledger = Inr rp"
    using a by (simp add: reconcile_r01_def b l g m report)
  have trades: "length (filter is_trade sample_export) = 1" by code_simp
  obtain r z where one: "sample_matches = [(r, [z])]" and kind: "mw_match r = ''Unique level candidate''" and at: "bs_episode z = 2"
    using ms by (auto simp: map_eq_Cons_conv)
  have kinds: "map (\<lambda>m. mw_match (fst m)) sample_matches = [''Unique level candidate'']" and used: "used_episodes sample_matches = [2]"
    unfolding one by (simp_all add: used_episodes_def kind at)
  have lines: "map rv_line (filter (\<lambda>e. is_intent e \<and> rv_line e \<notin> set [2]) (filter (\<lambda>e. 0 \<le> rv_time e \<and> rv_time e < 9) sample_events)) = [4]"
    by code_simp
  have "map mw_match (lp_rows rp) = [''Unique level candidate'']" using kinds by (simp add: report make_report_def Let_def comp_def)
  moreover have "map rv_line (lp_unmatched rp) = [4]"
    using lines by (simp only: report make_report_def Let_def r01_report.simps used)
  moreover have "lp_wins rp + lp_losses rp + lp_breakevens rp = 1"
    using report_follows_evidence[OF rp] trades by auto
  ultimately show ?thesis using rp by (intro exI[of _ rp] conjI)
qed

end
