(* ===== verification/RelayProxy.thy ===== *)
theory RelayProxy
  imports HttpRoutes
begin

text \<open>
  The relay between the trading terminal and TradingBox (relay/transparent_proxy.py): the reading of a request, its
  record, and then either the exchange with the upstream or the answer of the local receiver. An exchange is the
  list of its effects in their order. A byte is a character; the input is what the connection holds.
\<close>

subsection \<open>Reading a request\<close>

definition ascii_space :: "char \<Rightarrow> bool" where
  "ascii_space c \<longleftrightarrow> c = CHR '' '' \<or> code_in 9 13 c"

definition ascii_strip :: "string \<Rightarrow> string" where
  "ascii_strip s = rev (dropWhile ascii_space (rev (dropWhile ascii_space s)))"

text \<open>\<open>int(text, 16)\<close>: a sign, a prefix, digits and single underscores between them.\<close>

fun hex_digits :: "bool \<Rightarrow> nat \<Rightarrow> string \<Rightarrow> nat option" where
  "hex_digits p n [] = (if p then Some n else None)"
| "hex_digits p n (c # s) =
     (if is_hex c then hex_digits True (16 * n + hex_val c) s
      else if c = CHR ''_'' \<and> p then hex_digits False n s else None)"

definition drop_prefix :: "string \<Rightarrow> string" where
  "drop_prefix s =
     (if take 2 s \<in> {''0x'', ''0X''} then (case drop 2 s of [] \<Rightarrow> [] | c # r \<Rightarrow> if c = CHR ''_'' then r else c # r) else s)"

definition hex_int :: "string \<Rightarrow> int option" where
  "hex_int text =
     (case ascii_strip text of
        [] \<Rightarrow> None
      | c # r \<Rightarrow>
          if c = CHR ''-'' then map_option (\<lambda>n. - int n) (hex_digits False 0 (drop_prefix r))
          else if c = CHR ''+'' then map_option int (hex_digits False 0 (drop_prefix r))
          else map_option int (hex_digits False 0 (drop_prefix (c # r))))"

lemma read_line_shorter: "read_line n inp = (line, rest) \<Longrightarrow> line \<noteq> [] \<Longrightarrow> length rest < length inp"
  by (auto dest!: read_line_parts intro!: diff_less)

function relay_trailers :: "(string \<times> string) list \<Rightarrow> string \<Rightarrow> (string \<times> string) list res" where
  "relay_trailers ts inp =
     (let (line, rest) = read_line 8192 inp in
      if line = crlf then Inr ts
      else if line = [] then Inl (value_error ''Incomplete chunk trailers'')
      else if CHR '':'' \<notin> set line then Inl (value_error ''not enough values to unpack'')
      else relay_trailers
             (ts @ [(strip (takeWhile (\<lambda>c. c \<noteq> CHR '':'') line), strip (tl (dropWhile (\<lambda>c. c \<noteq> CHR '':'') line)))]) rest)"
  by pat_completeness auto
termination
  by (relation "measure (\<lambda>(_, inp). length inp)")
    (auto dest!: sym[of "(_, _)" "read_line _ _"] dest: read_line_shorter)

function relay_chunks :: "string \<Rightarrow> string \<Rightarrow> (string \<times> (string \<times> string) list) res" where
  "relay_chunks body inp =
     (let (line, rest) = read_line 8192 inp in
      case hex_int (takeWhile (\<lambda>c. c \<noteq> CHR '';'') line) of
        None \<Rightarrow> Inl (value_error ''invalid literal for int() with base 16'')
      | Some n \<Rightarrow>
          if n < 0 then Inl (value_error ''Invalid chunk size'')
          else if n = 0 then bindE (relay_trailers [] rest) (\<lambda>ts. Inr (body, ts))
          else if length (take (nat n) rest) \<noteq> nat n \<or> take 2 (drop (nat n) rest) \<noteq> crlf
          then Inl (value_error ''Incomplete request chunk'')
          else relay_chunks (body @ take (nat n) rest) (drop 2 (drop (nat n) rest)))"
  by pat_completeness auto
termination
  by (relation "measure (\<lambda>(_, inp). length inp)") (auto dest!: sym[of "(_, _)" "read_line _ _"] dest: read_line_parts)

declare relay_trailers.simps [simp del] relay_chunks.simps [simp del]

definition relay_body :: "string list \<Rightarrow> string option \<Rightarrow> string \<Rightarrow> (string \<times> (string \<times> string) list) res" where
  "relay_body lengths encoding inp =
     (if truthy encoding \<and> lengths \<noteq> [] \<or> 1 < length lengths then Inl (value_error ''Ambiguous request framing'')
      else if truthy encoding
      then (if map lower (opt_str encoding) \<noteq> ''chunked'' then Inl (value_error ''Unsupported transfer framing'') else relay_chunks [] inp)
      else (case (case lengths of [] \<Rightarrow> Some 0 | v # _ \<Rightarrow> py_int v) of
              None \<Rightarrow> Inl (value_error ''invalid literal for int()'')
            | Some n \<Rightarrow>
                if n < 0 then Inl (value_error ''Invalid content length'')
                else if length (take (nat n) inp) \<noteq> nat n then Inl (value_error ''Incomplete request body'')
                else Inr (take (nat n) inp, [])))"

subsection \<open>Headers\<close>

definition relay_hop :: "string list" where
  "relay_hop = [''connection'', ''keep-alive'', ''proxy-authenticate'', ''proxy-authorization'', ''te'', ''trailer'', ''transfer-encoding'', ''upgrade'']"

definition relay_secrets :: "string list" where
  "relay_secrets = [''authorization'', ''proxy-authorization'', ''cookie'', ''set-cookie'', ''x-hcamm-key'', ''x-api-key'', ''api-key'']"

definition connection_fields :: "(string \<times> string) list \<Rightarrow> string list" where
  "connection_fields headers =
     relay_hop @ concat (map (\<lambda>(n, v). if map lower n = ''connection'' then map (\<lambda>x. map lower (strip x)) (split_char (CHR '','') v) else []) headers)"

definition logged_headers :: "(string \<times> string) list \<Rightarrow> (string \<times> string) list" where
  "logged_headers headers = map (\<lambda>(n, v). (n, if map lower n \<in> set relay_secrets then ''[redacted]'' else v)) headers"

definition end_to_end_fields :: "string list \<Rightarrow> (string \<times> string) list \<Rightarrow> (string \<times> string) list" where
  "end_to_end_fields own headers = filter (\<lambda>(n, v). map lower n \<notin> set (connection_fields headers @ own)) headers"

subsection \<open>Exchanges\<close>

record proxy =
  px_forward :: bool
  px_netloc :: string
  px_token :: string

record relay_log =
  xl_origin :: string
  xl_method :: string
  xl_path :: string
  xl_status :: "nat option"
  xl_headers :: "(string \<times> string) list"
  xl_body :: string

datatype relay_effect =
    Record_request relay_log
  | Send_upstream string string "(string \<times> string) list" string
  | Send_receiver "(string \<times> string) list" string
  | Record_response relay_log
  | Record_delivery
  | Refuse_with nat
  | Answer_with nat "(string \<times> string) list" string

text \<open>
  The surroundings of one exchange: whether its records can be written, what the upstream and the receiver
  answer (the receiver's answers are objects), whether the reply can be written, and the text of a JSON object.
\<close>

record relay_world =
  xw_record_request :: bool
  xw_record_response :: bool
  xw_upstream :: "(nat \<times> (string \<times> string) list \<times> string) res"
  xw_receiver :: "(nat \<times> (string \<times> json) list) res"
  xw_write :: bool
  xw_json :: "(string \<times> json) list \<Rightarrow> string"

definition upstream_headers :: "proxy \<Rightarrow> web_request \<Rightarrow> (string \<times> string) list \<Rightarrow> string \<Rightarrow> (string \<times> string) list" where
  "upstream_headers P q headers body =
     (''Host'', px_netloc P) # end_to_end_fields [''host'', ''content-length'', ''expect''] headers @
     (if body \<noteq> [] \<or> header ''Content-Length'' q \<noteq> None \<or> truthy (header ''Transfer-Encoding'' q)
      then [(''Content-Length'', digits_str (length body))] else []) @ [(''Connection'', ''close'')]"

definition reply_headers :: "string \<Rightarrow> nat \<Rightarrow> (string \<times> string) list \<Rightarrow> string \<Rightarrow> (string \<times> string) list" where
  "reply_headers verb status headers body =
     end_to_end_fields [''content-length''] headers @
     (if verb = ''HEAD'' \<or> status = 304
      then (case filter (\<lambda>(n, v). map lower n = ''content-length'') headers of [] \<Rightarrow> []
            | given \<Rightarrow> [(''Content-Length'', join '', '' (map snd given))])
      else if status \<noteq> 204 then [(''Content-Length'', digits_str (length body))] else []) @ [(''Connection'', ''close'')]"

definition if_so :: "bool \<Rightarrow> 'a \<Rightarrow> 'a list" where
  "if_so b x = (if b then [x] else [])"

definition forward_exchange :: "relay_world \<Rightarrow> proxy \<Rightarrow> string \<Rightarrow> web_request \<Rightarrow> (string \<times> string) list \<Rightarrow> string \<Rightarrow> relay_effect list" where
  "forward_exchange W P verb q headers body =
     Send_upstream verb (hq_target q) (upstream_headers P q headers body) body #
     (case xw_upstream W of
        Inl e \<Rightarrow>
          if_so (xw_record_response W) (Record_response
            \<lparr>xl_origin = ''intermediary'', xl_method = verb, xl_path = hq_target q, xl_status = None, xl_headers = [], xl_body = []\<rparr>) @
          [Refuse_with 502]
      | Inr (status, hs, b) \<Rightarrow>
          if_so (xw_record_response W) (Record_response
            \<lparr>xl_origin = ''TradingBox'', xl_method = verb, xl_path = hq_target q, xl_status = Some status,
             xl_headers = logged_headers hs, xl_body = b\<rparr>) @
          (if xw_write W then [Answer_with status (reply_headers verb status hs b) (if verb = ''HEAD'' then [] else b)]
           else [Record_delivery]))"

definition put_field :: "string \<times> json \<Rightarrow> (string \<times> json) list \<Rightarrow> (string \<times> json) list" where
  "put_field f fs = (if fst f \<in> set (map fst fs) then map (\<lambda>g. if fst g = fst f then f else g) fs else fs @ [f])"

definition local_fields :: "(string \<times> json) list" where
  "local_fields = [(''origin'', JS_str ''x.0.1''), (''forwarded_to_tradingbox'', JS_bool False)]"

text \<open>The answer of the relay itself: what it sends to the receiver, the status and the fields.\<close>

definition local_answer :: "relay_world \<Rightarrow> proxy \<Rightarrow> string \<Rightarrow> web_request \<Rightarrow> string \<Rightarrow> relay_effect list \<times> nat \<times> (string \<times> json) list" where
  "local_answer W P verb q body =
     (let path = takeWhile (\<lambda>c. c \<notin> set ''?#'') (hq_target q) in
      if verb = ''GET'' \<and> path = ''/api/hcamm/commands''
      then ([], 200, local_fields @ [(''commands'', JS_list []), (''verdicts'', JS_list [])])
      else if verb = ''POST'' \<and> path = ''/api/hcamm/events''
      then (if 1048576 < length body
            then ([], 413, local_fields @ [(''error'', JS_str ''Signal batch exceeds local receiver size limit'')])
            else ([Send_receiver [(''Authorization'', ''Bearer '' @ px_token P), (''Content-Type'', ''application/json'')] body],
                  (case xw_receiver W of
                     Inl e \<Rightarrow> (503, local_fields @ [(''error'', JS_str ''Local signal receiver unavailable; no TradingBox forwarding'')])
                   | Inr (status, fs) \<Rightarrow> (status, fold put_field fs local_fields))))
      else ([], 404, local_fields @ [(''error'', JS_str ''No local receiver for this method/path; TradingBox forwarding is disabled'')]))"

definition local_exchange :: "relay_world \<Rightarrow> proxy \<Rightarrow> string \<Rightarrow> web_request \<Rightarrow> string \<Rightarrow> relay_effect list" where
  "local_exchange W P verb q body =
     (case local_answer W P verb q body of
        (sent, status, fs) \<Rightarrow>
          (let text = xw_json W fs;
               hs = [(''Content-Type'', ''application/json''), (''Content-Length'', digits_str (length text))] in
           sent @
           if_so (xw_record_response W) (Record_response
             \<lparr>xl_origin = ''x.0.1'', xl_method = verb, xl_path = hq_target q, xl_status = Some status, xl_headers = hs, xl_body = text\<rparr>) @
           [Answer_with status (hs @ [(''Connection'', ''close'')]) text]))"

definition relay_exchange :: "relay_world \<Rightarrow> proxy \<Rightarrow> string \<Rightarrow> web_request \<Rightarrow> relay_effect list" where
  "relay_exchange W P verb q =
     (if \<not> starts_with ''/'' (hq_target q) \<or> starts_with ''//'' (hq_target q) then [Refuse_with 400]
      else (case relay_body (header_values ''Content-Length'' q) (header ''Transfer-Encoding'' q) (hq_body q) of
        Inl e \<Rightarrow> [Refuse_with 400]
      | Inr (body, trailers) \<Rightarrow>
          if \<exists>t \<in> set trailers. map lower (fst t) \<in> set (relay_hop @ [''host'', ''content-length'', ''authorization'']) then [Refuse_with 400]
          else if \<not> xw_record_request W then [Refuse_with 503]
          else (let headers = hq_headers q @ trailers in
            Record_request \<lparr>xl_origin = [], xl_method = verb, xl_path = hq_target q, xl_status = None,
                            xl_headers = logged_headers headers, xl_body = body\<rparr> #
            (if px_forward P then forward_exchange W P verb q headers body else local_exchange W P verb q body))))"

subsection \<open>Laws\<close>

definition is_send :: "relay_effect \<Rightarrow> bool" where
  "is_send x \<longleftrightarrow> (case x of Send_upstream _ _ _ _ \<Rightarrow> True | Send_receiver _ _ \<Rightarrow> True | _ \<Rightarrow> False)"

definition ends_exchange :: "relay_effect \<Rightarrow> bool" where
  "ends_exchange x \<longleftrightarrow> (case x of Refuse_with _ \<Rightarrow> True | Answer_with _ _ _ \<Rightarrow> True | Record_delivery \<Rightarrow> True | _ \<Rightarrow> False)"

lemma if_so_simps [simp]: "if_so True x = [x]" "if_so False x = []"
  by (simp_all add: if_so_def)

lemma set_if_so [simp]: "set (if_so b x) = (if b then {x} else {})"
  by (cases b) simp_all

text \<open>An exchange is a refusal, or a record of the request followed by the forwarding or the local answer.\<close>

definition request_log :: "string \<Rightarrow> web_request \<Rightarrow> (string \<times> string) list \<Rightarrow> string \<Rightarrow> relay_log" where
  "request_log verb q headers body =
     \<lparr>xl_origin = [], xl_method = verb, xl_path = hq_target q, xl_status = None, xl_headers = logged_headers headers, xl_body = body\<rparr>"

lemma relay_exchange_cases:
  obtains (refused) code where "relay_exchange W P verb q = [Refuse_with code]"
  | (recorded) trailers body where
      "relay_body (header_values ''Content-Length'' q) (header ''Transfer-Encoding'' q) (hq_body q) = Inr (body, trailers)"
      "\<forall>t \<in> set trailers. map lower (fst t) \<notin> set (relay_hop @ [''host'', ''content-length'', ''authorization''])"
      "relay_exchange W P verb q = Record_request (request_log verb q (hq_headers q @ trailers) body) #
         (if px_forward P then forward_exchange W P verb q (hq_headers q @ trailers) body else local_exchange W P verb q body)"
proof (cases "\<not> starts_with ''/'' (hq_target q) \<or> starts_with ''//'' (hq_target q)")
  case True
  then have "relay_exchange W P verb q = [Refuse_with 400]" by (simp add: relay_exchange_def)
  then show thesis by (rule refused)
next
  case target: False
  show thesis
  proof (cases "relay_body (header_values ''Content-Length'' q) (header ''Transfer-Encoding'' q) (hq_body q)")
    case (Inl e)
    with target have "relay_exchange W P verb q = [Refuse_with 400]" by (simp add: relay_exchange_def)
    then show thesis by (rule refused)
  next
    case (Inr x)
    obtain body trailers where x: "x = (body, trailers)" by fastforce
    have e: "relay_exchange W P verb q =
        (if \<exists>t \<in> set trailers. map lower (fst t) \<in> set (relay_hop @ [''host'', ''content-length'', ''authorization'']) then [Refuse_with 400]
         else if \<not> xw_record_request W then [Refuse_with 503]
         else Record_request (request_log verb q (hq_headers q @ trailers) body) #
           (if px_forward P then forward_exchange W P verb q (hq_headers q @ trailers) body else local_exchange W P verb q body))"
      unfolding relay_exchange_def if_not_P[OF target] Inr x sum.case prod.case Let_def request_log_def by (rule refl)
    show thesis
    proof (cases "\<exists>t \<in> set trailers. map lower (fst t) \<in> set (relay_hop @ [''host'', ''content-length'', ''authorization''])")
      case True
      show thesis by (rule refused[OF e[unfolded if_P[OF True]]])
    next
      case fields: False
      show thesis
      proof (cases "xw_record_request W")
        case True
        then show thesis using e[unfolded if_not_P[OF fields]] Inr x fields by (intro recorded[of body trailers]) simp_all
      next
        case False
        show thesis by (rule refused[OF e[unfolded if_not_P[OF fields] if_P[OF False]]])
      qed
    qed
  qed
qed

lemma local_answer_sends:
  assumes "local_answer W P verb q body = (sent, status, fs)"
  shows "sent = [] \<or> sent = [Send_receiver [(''Authorization'', ''Bearer '' @ px_token P), (''Content-Type'', ''application/json'')] body]"
  using assms by (auto simp: local_answer_def Let_def split: if_splits)

lemma local_exchange_parts:
  obtains sent status words hs where "sent = [] \<or> (\<exists>r. sent = [Send_receiver r body])"
    "local_exchange W P verb q body = sent @ if_so (xw_record_response W) (Record_response
       \<lparr>xl_origin = ''x.0.1'', xl_method = verb, xl_path = hq_target q, xl_status = Some status,
        xl_headers = [(''Content-Type'', ''application/json''), (''Content-Length'', digits_str (length words))], xl_body = words\<rparr>) @
       [Answer_with status hs words]"
proof -
  obtain sent status fs where a: "local_answer W P verb q body = (sent, status, fs)" by (metis prod.exhaust)
  from that[of sent status "xw_json W fs"] local_answer_sends[OF a] show ?thesis
    by (simp add: local_exchange_def a Let_def) blast
qed

text \<open>
  A field travels end to end unless it is one of the connection, or a Connection field among \<open>given\<close> names it.
\<close>

definition travels :: "(string \<times> string) list \<Rightarrow> string \<Rightarrow> bool" where
  "travels given n \<longleftrightarrow>
     map lower n \<notin> {''connection'', ''keep-alive'', ''proxy-authenticate'', ''proxy-authorization'', ''te'', ''trailer'', ''transfer-encoding'', ''upgrade''} \<and>
     (\<forall>(c, v) \<in> set given. map lower c = ''connection'' \<longrightarrow> (\<forall>x \<in> set (split_char (CHR '','') v). map lower n \<noteq> map lower (strip x)))"

lemma end_to_end_travels: "end_to_end_fields own hs = filter (\<lambda>(n, v). travels hs n \<and> map lower n \<notin> set own) hs"
proof -
  have "map lower n \<notin> set (connection_fields hs) \<longleftrightarrow> travels hs n" for n
    unfolding connection_fields_def travels_def relay_hop_def by (auto split: if_splits)
  then show ?thesis unfolding end_to_end_fields_def by (simp add: split_beta)
qed

text \<open>The fields the upstream and the sender are to see of a forwarded exchange.\<close>

definition forwarded_fields :: "proxy \<Rightarrow> web_request \<Rightarrow> (string \<times> string) list \<Rightarrow> string \<Rightarrow> (string \<times> string) list" where
  "forwarded_fields P q trailers body =
     (let given = hq_headers q @ trailers in
      [(''Host'', px_netloc P)] @
      filter (\<lambda>(n, v). travels given n \<and> map lower n \<notin> {''host'', ''content-length'', ''expect''}) given @
      (if body = [] \<and> header ''Content-Length'' q = None \<and> \<not> truthy (header ''Transfer-Encoding'' q) then []
       else [(''Content-Length'', digits_str (length body))]) @
      [(''Connection'', ''close'')])"

definition returned_fields :: "string \<Rightarrow> nat \<Rightarrow> (string \<times> string) list \<Rightarrow> string \<Rightarrow> (string \<times> string) list" where
  "returned_fields verb status given body =
     (let lengths = map snd (filter (\<lambda>(n, v). map lower n = ''content-length'') given) in
      filter (\<lambda>(n, v). travels given n \<and> map lower n \<noteq> ''content-length'') given @
      (if verb = ''HEAD'' \<or> status = 304 then (if lengths = [] then [] else [(''Content-Length'', join '', '' lengths)])
       else if status = 204 then [] else [(''Content-Length'', digits_str (length body))]) @
      [(''Connection'', ''close'')])"

lemma upstream_headers_forwarded: "upstream_headers P q (hq_headers q @ trailers) body = forwarded_fields P q trailers body"
  unfolding upstream_headers_def forwarded_fields_def end_to_end_travels Let_def by simp

lemma reply_headers_returned: "reply_headers verb status given body = returned_fields verb status given body"
  unfolding reply_headers_def returned_fields_def end_to_end_travels Let_def by (simp split: list.split)

text \<open>A record of the headers \<open>given\<close>: all of them, in their order, and the values of the secret ones redacted.\<close>

definition recorded_fields :: "(string \<times> string) list \<Rightarrow> (string \<times> string) list" where
  "recorded_fields given =
     map (\<lambda>(n, v). (n, if map lower n \<in> {''authorization'', ''proxy-authorization'', ''cookie'', ''set-cookie'', ''x-hcamm-key'', ''x-api-key'', ''api-key''}
                      then ''[redacted]'' else v)) given"

lemma logged_headers_recorded: "logged_headers given = recorded_fields given"
  by (simp add: logged_headers_def recorded_fields_def relay_secrets_def)

text \<open>
  C15: the relay observes an exchange without adding to it. Nothing is sent before the request is on record with
  its verb, target, headers, trailers and body, and then once at most: to the upstream only when forwarding is
  on, with the verb and the target as they came, the body that was read, and exactly these fields: the
  upstream's host, the sender's fields and the trailers that travel end to end, the length, and the close of
  the connection; to the local receiver only when forwarding is off. A forwarded request is answered with the
  upstream's own status and body and the fields of its answer that travel, or as a failure of the relay.
  Every exchange ends with one answer or refusal, or with a record of the broken delivery. In the records of
  a forwarded exchange the values of the secret headers are redacted; target, body and the other headers are
  recorded as they are.
\<close>

theorem relay_observes:
  "(\<forall>m p hs b. Send_upstream m p hs b \<in> set (relay_exchange W P verb q) \<longrightarrow>
      px_forward P \<and> m = verb \<and> p = hq_target q \<and>
      (\<exists>trailers. relay_body (header_values ''Content-Length'' q) (header ''Transfer-Encoding'' q) (hq_body q) = Inr (b, trailers) \<and>
         hs = forwarded_fields P q trailers b \<and>
         hd (relay_exchange W P verb q) = Record_request
           \<lparr>xl_origin = [], xl_method = verb, xl_path = p, xl_status = None, xl_headers = recorded_fields (hq_headers q @ trailers),
            xl_body = b\<rparr>)) \<and>
   (\<forall>hs b. Send_receiver hs b \<in> set (relay_exchange W P verb q) \<longrightarrow>
      \<not> px_forward P \<and>
      (\<exists>trailers. relay_body (header_values ''Content-Length'' q) (header ''Transfer-Encoding'' q) (hq_body q) = Inr (b, trailers) \<and>
         hd (relay_exchange W P verb q) = Record_request
           \<lparr>xl_origin = [], xl_method = verb, xl_path = hq_target q, xl_status = None,
            xl_headers = recorded_fields (hq_headers q @ trailers), xl_body = b\<rparr>)) \<and>
   length (filter is_send (relay_exchange W P verb q)) \<le> 1 \<and>
   (px_forward P \<longrightarrow>
      (\<forall>st hs b. Answer_with st hs b \<in> set (relay_exchange W P verb q) \<longrightarrow>
         (\<exists>given body. xw_upstream W = Inr (st, given, body) \<and> hs = returned_fields verb st given body \<and>
            b = (if verb = ''HEAD'' then [] else body))) \<and>
      (\<forall>l. Record_response l \<in> set (relay_exchange W P verb q) \<longrightarrow>
         xl_method l = verb \<and> xl_path l = hq_target q \<and>
         (case xw_upstream W of
            Inl e \<Rightarrow> xl_status l = None \<and> xl_headers l = [] \<and> xl_body l = []
          | Inr (st, given, body) \<Rightarrow> xl_status l = Some st \<and> xl_headers l = recorded_fields given \<and> xl_body l = body))) \<and>
   ends_exchange (last (relay_exchange W P verb q)) \<and> length (filter ends_exchange (relay_exchange W P verb q)) = 1"
proof (cases rule: relay_exchange_cases[of W P verb q])
  case (refused code)
  then show ?thesis by (simp add: is_send_def ends_exchange_def)
next
  case (recorded trailers body)
  note parts = is_send_def ends_exchange_def if_so_def request_log_def logged_headers_recorded
  show ?thesis
  proof (cases "px_forward P")
    case True
    show ?thesis
    proof (cases "xw_upstream W")
      case (Inl e)
      then show ?thesis using True recorded(1) unfolding recorded(3)
        by (simp add: forward_exchange_def upstream_headers_forwarded parts)
    next
      case (Inr x)
      obtain status given b where x: "x = (status, given, b)" by (metis prod.exhaust)
      show ?thesis using True Inr x recorded(1) unfolding recorded(3)
        by (simp add: forward_exchange_def upstream_headers_forwarded reply_headers_returned parts)
    qed
  next
    case False
    obtain sent status words hs where p: "sent = [] \<or> (\<exists>r. sent = [Send_receiver r body])"
      "local_exchange W P verb q body = sent @ if_so (xw_record_response W) (Record_response
         \<lparr>xl_origin = ''x.0.1'', xl_method = verb, xl_path = hq_target q, xl_status = Some status,
          xl_headers = [(''Content-Type'', ''application/json''), (''Content-Length'', digits_str (length words))], xl_body = words\<rparr>) @
         [Answer_with status hs words]"
      by (rule local_exchange_parts)
    show ?thesis using False p(1) recorded(1) unfolding recorded(3) if_not_P[OF False] p(2) by (auto simp: parts)
  qed
qed

definition relay_sample :: web_request where
  "relay_sample = \<lparr>hq_target = ''/api/hcamm/events'', hq_headers = [(''X-HCAMM-Key'', ''k''), (''Content-Length'', ''2'')], hq_body = ''hi''\<rparr>"

definition relay_sample_world :: relay_world where
  "relay_sample_world = \<lparr>xw_record_request = True, xw_record_response = True, xw_upstream = Inr (202, [], ''ok''), xw_receiver = Inl (value_error []),
     xw_write = True, xw_json = (\<lambda>fs. [])\<rparr>"

theorem relay_observes_witness:
  "Send_upstream ''POST'' ''/api/hcamm/events'' [(''Host'', ''h''), (''X-HCAMM-Key'', ''k''), (''Content-Length'', ''2''), (''Connection'', ''close'')] ''hi''
     \<in> set (relay_exchange relay_sample_world \<lparr>px_forward = True, px_netloc = ''h'', px_token = []\<rparr> ''POST'' relay_sample) \<and>
   (\<exists>l. hd (relay_exchange relay_sample_world \<lparr>px_forward = True, px_netloc = ''h'', px_token = []\<rparr> ''POST'' relay_sample) = Record_request l \<and>
        xl_body l = ''hi'')"
proof -
  have b: "relay_body (header_values ''Content-Length'' relay_sample) (header ''Transfer-Encoding'' relay_sample) (hq_body relay_sample) =
      Inr (''hi'', [])" by code_simp
  have t: "starts_with ''/'' (hq_target relay_sample) \<and> \<not> starts_with ''//'' (hq_target relay_sample)" by code_simp
  have u: "upstream_headers \<lparr>px_forward = True, px_netloc = ''h'', px_token = []\<rparr> relay_sample (hq_headers relay_sample) ''hi'' =
      [(''Host'', ''h''), (''X-HCAMM-Key'', ''k''), (''Content-Length'', ''2''), (''Connection'', ''close'')]" by code_simp
  have s: "Send_upstream ''POST'' ''/api/hcamm/events'' [(''Host'', ''h''), (''X-HCAMM-Key'', ''k''), (''Content-Length'', ''2''), (''Connection'', ''close'')] ''hi''
     \<in> set (relay_exchange relay_sample_world \<lparr>px_forward = True, px_netloc = ''h'', px_token = []\<rparr> ''POST'' relay_sample)"
    using t by (simp add: relay_exchange_def b forward_exchange_def u) (simp add: relay_sample_def relay_sample_world_def)
  with conjunct1[OF relay_observes[of relay_sample_world "\<lparr>px_forward = True, px_netloc = ''h'', px_token = []\<rparr>" "''POST''" relay_sample]]
  show ?thesis by fastforce
qed

end
