(* ===== verification/Spec2Isabelle.thy ===== *)
theory Spec2Isabelle
  imports RouterProps TradeSnapshot WritePaths StopLimit SignalCopy PaperBook Reconcile DeskProps DecimalText LedgerTail Bridge RestRuns SessionRenewal RelayCollector AdmissionLaws BodyFraming Forwarder LedgerView HttpRoutes Profiles P01Feed Streams LedgerReport RelayProxy
begin

text \<open>
  Verification development for the version 4 program of the MatchTrader API repository
  (src/v4/src/matchtrader, written sources below relative to it).

  \<^bold>\<open>The program.\<close> A sender machine captures trades (native events, signals of the wire, rows of the R01
  ledger, the P01 log). The program records them durably and, when the user's switches allow it, copies
  them to an account of a Match-Trader broker. Its promise is that a broker write is sent at most once for
  what caused it, only behind the guards and switches of its path, and that what happened is recorded with
  a reason: an outcome that is not known stays uncertain and is never retried by itself.

  \<^bold>\<open>Parts, theories and sources.\<close>
  \<^item> Prelude: exceptions as values (exn, res), the error monad bindE, list tables with primary keys, and the
    two interfaces the components interpret: kept_invariant (an invariant kept by every operation) and
    claimed_writes (a durable claim that guards a write); PyDecimal: decimal.Decimal with its rounding.
  \<^item> CaptureEvents, Journal, MappingLedger, CaptureStore, StoreRuns: the event and its route (capture/event.py,
    capture/route.py, capture/meaning.py), the tables, the identity ledger (capture/mapping.py), the store with
    claims, outcomes and recovery (capture/store.py), and any sequence of its operations with restarts.
  \<^item> TradeSnapshot: the read side of a trade and its classification (capture/mapping.py, capture/verified.py).
  \<^item> Reasons, BrokerApi: the reasons of an outcome (core/reason.py), the broker's rows and instrument checks.
  \<^item> Router, RouterProps: the armed router (capture/router.py): validation, guards, the write and its landing.
  \<^item> ManualSend, Unwind, WritePaths, Reconcile: the one-time send (capture/manual_send.py), the removal of own
    exposure (capture/unwind.py), all write paths over one journal, reconciliation (capture/reconcile.py).
  \<^item> Signals, SignalEngine, SignalCopy, LaneBatches: signal shapes, symbols and configurations (signals/,
    dashboard/copy_configs.py), the decision and dispatch (signals/engine.py, signals/dispatch.py), the copy lane
    (dashboard/signal_copy.py) and its batches.
  \<^item> StopLimit, PaperBook: the stop-limit watcher (orders/stop_limit.py) and paper plans
    (orders/paper_stop_limit.py).
  \<^item> CopyDesk, DeskRuns, DeskFeeds, DeskProps: the controller that owns account, router, lanes and
    switches (dashboard/controller.py, capture/automatic.py) with its operations as one step function.
  \<^item> DecimalText, LedgerTail, Bridge: the text of a decimal, the tail of the R01 ledger (bridge/ledger.py), the
    shadow bridge (bridge/event.py, planner.py, journal.py, api.py, server.py).
  \<^item> Connections, Pacing, RestSession, SessionLaws, RestRuns: settings, leased connections and their owners
    (core/settings.py, core/base_connection.py, api.py), the request budget of an origin
    (core/rate_limiter.py), the HTTP session with login, refresh, renewal and the endpoints
    (core/rest_connection.py, endpoints/).
  \<^item> SessionRenewal: the renewers that keep tokens alive (dashboard/session_renewal.py and the renewals of
    dashboard/controller.py) with timers, firing threads and cancellation as interleaved steps.
  \<^item> RelayStore, RelayCollector: the archive of relay logs (capture/relay_store.py) and the collector that mirrors
    the files into it (capture/relay_collector.py) over a channel that may lose requests and answers.
  \<^item> WireProtocol, Admission, AdmissionLaws: the capture socket's envelopes (capture/ws_protocol.py) and its server
    (capture/ws_ingress.py): clients, bounded admission, the worker in front of the controller, the stop.
  \<^item> Retention, Forwarder, BodyFraming: the raw log and the observation archive (capture/raw_log.py,
    capture/logging_store.py), the forwarding of TradingBox requests (capture/tradingbox_forwarder.py) and the
    framing of their bodies (dashboard/server.py).
  \<^item> Publisher, LedgerView: the publication of verified trades (capture/pamm_publisher.py) and the rows that the
    ledger pages show of a trade (dashboard/ledger_view.py).
  \<^item> HttpRoutes, Streams: the routes of the dashboard server with their credentials and answers, and the push of its
    sections (dashboard/server.py).
  \<^item> ClosedHistory, Profiles: closed operations of an interval (dashboard/closed_history.py) and the profiles of
    up to five brokers (dashboard/broker_profiles.py).
  \<^item> P01Feed: the follower of the P01 log and the signals of its intents (dashboard/p01_log.py).
  \<^item> RelayProxy: the relay between the terminal and TradingBox (relay/transparent_proxy.py).
  \<^item> LedgerReport: the comparison of the R01 ledger with the broker's closed trades (scripts/reconcile_r01.py).

  \<^bold>\<open>How they interact.\<close> The controller (CopyDesk) lends its journal to the lanes and to the router; a lane
  asks the engine for a plan, claims it, and writes through the broker of its session; capture reaches the
  store first and the one-time send or the unwinding afterwards. The composition is followed through the
  claims: each path proves that it writes under a fresh claim which it leaves claimed (once, then_do,
  lawful in Prelude), so that any interleaving of operations and restarts inherits at-most-once from the
  interface claimed_writes. On the HTTP side session_law lifts a law of single messages to logins,
  refreshes, renewals and requests.

  \<^bold>\<open>How code becomes definitions.\<close> A class is a record, an enumeration a datatype, an exception a value of
  type exn in a sum, a raised error a branch. A method is a function from the state to its result and the
  new state; clock, fresh identifiers, digests and what the broker or a peer answers are arguments. A
  database transaction is one operation, which leaves the state unchanged when it raises. A lock makes its
  operation one step. A JSON-encoded key is the list it encodes; prices and sizes are exact decimals;
  clocks of the HTTP side are rational seconds.

  \<^bold>\<open>Groups of properties.\<close> At-most-once of each path and of whole runs (StoreRuns, WritePaths,
  DeskProps, SessionLaws, AdmissionLaws); the guards and switches a write proves (RouterProps, WritePaths, SignalCopy, DeskProps); the
  terms of an order, its limits, grid and brackets (RouterProps, SignalEngine, StopLimit); outcomes
  and recovery (RouterProps, StoreRuns, Reconcile, TradeSnapshot); feeds and texts (LedgerTail, DecimalText, Bridge); sessions,
  budgets and leases (RestRuns, Pacing, Connections,
  SessionRenewal); the mirror of the log files (RelayCollector); admission and answers of the
  socket (AdmissionLaws), the bounds of the diagnostics (Retention), forwarding and its framing (Forwarder, BodyFraming);
  publication, the keys of the database's tables and what is shown (Publisher, LedgerView, Streams, ClosedHistory); credentials
  of the routes (HttpRoutes), the relay's exchanges (RelayProxy); accounts of the profiles (Profiles); the P01 log and
  the comparison of ledger and broker (P01Feed, LedgerReport).

  \<^bold>\<open>Bounds and fuel.\<close> Loops are structural or have a termination proof. Only the observation of the ledger
  (observe in LedgerTail) carries fuel, the number of its polls: each round sleeps a quarter of a second of the time asked
  for, so four polls for each second and one more are enough, which observation_terminates proves.

  \<^bold>\<open>Not modelled.\<close> The versions 1 to 3 of the program, which version 4 supersedes; the browser front end
  and the C# code of the terminal; the command lines and the launcher (cli.py, scripts/control.py), the start of the
  relay (relay/tb-relay.py), capture/lifecycle.py and core/websocket_connection.py, which are process, file and socket glue; the timings
  of capture/dispatch_metrics.py and the data frames of analysis/, which are floats and calls of pandas and numpy;
  the files that hold settings; pydantic, httpx, sqlite3 and websockets themselves; binary floats, for which
  exact numbers stand; threads beyond the atomicity their locks give.
\<close>

end
